(* ===== verification/Prelude.thy ===== *)
theory Prelude
  imports Complex_Main "HOL-Library.Word"
begin

text \<open>
  What the components share: Go strings as lists of bytes with the functions of the
  packages \<^verbatim>\<open>strings\<close> and \<^verbatim>\<open>strconv\<close> that the code calls, decimal printing with its inverse,
  and generic facts on lists, options and maps.

  A Go \<^verbatim>\<open>string\<close> is a byte sequence, here \<open>string\<close> (a list of \<open>char\<close>, 8 bits each). The
  case functions and \<^verbatim>\<open>TrimSpace\<close> are those of the package on ASCII text: bytes from 128 on
  (the UTF-8 bytes of Chinese text, for instance) are left as they are. The code uses
  them on platform names, status codes and identifiers, and the Chinese literals it compares
  against have no upper or lower case.
\<close>

named_theorems str_simps \<open>facts about the Go string functions\<close>
named_theorems row_simps \<open>facts about rows of tables and their updates\<close>

subsection \<open>Package strings\<close>

definition is_space :: "char \<Rightarrow> bool" where
  "is_space c \<longleftrightarrow> c \<in> {CHR 0x09, CHR 0x0A, CHR 0x0B, CHR 0x0C, CHR 0x0D, CHR 0x20}"

definition trim_left :: "string \<Rightarrow> string" where
  "trim_left s = dropWhile is_space s"

definition trim_space :: "string \<Rightarrow> string" where
  "trim_space s = rev (dropWhile is_space (rev (trim_left s)))"

definition upper_char :: "char \<Rightarrow> char" where
  "upper_char c = (let n = of_char c :: nat
     in if 97 \<le> n \<and> n \<le> 122 then char_of (n - 32) else c)"

definition lower_char :: "char \<Rightarrow> char" where
  "lower_char c = (let n = of_char c :: nat
     in if 65 \<le> n \<and> n \<le> 90 then char_of (n + 32) else c)"

definition to_upper :: "string \<Rightarrow> string" where
  "to_upper s = map upper_char s"

definition to_lower :: "string \<Rightarrow> string" where
  "to_lower s = map lower_char s"

definition equal_fold :: "string \<Rightarrow> string \<Rightarrow> bool" where
  "equal_fold s t \<longleftrightarrow> to_lower s = to_lower t"

fun has_prefix :: "string \<Rightarrow> string \<Rightarrow> bool" where
  "has_prefix s [] = True"
| "has_prefix [] (p # ps) = False"
| "has_prefix (c # s) (p # ps) = (c = p \<and> has_prefix s ps)"

definition has_suffix :: "string \<Rightarrow> string \<Rightarrow> bool" where
  "has_suffix s p = has_prefix (rev s) (rev p)"

definition trim_prefix :: "string \<Rightarrow> string \<Rightarrow> string" where
  "trim_prefix s p = (if has_prefix s p then drop (length p) s else s)"

text \<open>\<^verbatim>\<open>strings.Index\<close>: the first position of a substring, \<open>None\<close> where Go returns -1.\<close>

fun str_index :: "string \<Rightarrow> string \<Rightarrow> nat option" where
  "str_index [] p = (if p = [] then Some 0 else None)"
| "str_index (c # s) p =
     (if has_prefix (c # s) p then Some 0 else map_option Suc (str_index s p))"

definition str_contains :: "string \<Rightarrow> string \<Rightarrow> bool" where
  "str_contains s p \<longleftrightarrow> str_index s p \<noteq> None"

text \<open>\<^verbatim>\<open>strings.Fields\<close>: the maximal runs of bytes that are not white space.\<close>

function str_fields :: "string \<Rightarrow> string list" where
  "str_fields s =
     (let r = dropWhile is_space s
      in if r = [] then []
         else takeWhile (\<lambda>c. \<not> is_space c) r # str_fields (dropWhile (\<lambda>c. \<not> is_space c) r))"
  by pat_completeness auto
termination
proof (relation "measure length")
  fix s r :: string
  assume r: "r = dropWhile is_space s" and ne: "r \<noteq> []"
  have len: "length (dropWhile P xs) \<le> length xs" for P :: "char \<Rightarrow> bool" and xs
    by (rule length_dropWhile_le)
  obtain c cs where rc: "r = c # cs" using ne by (cases r) auto
  then have "\<not> is_space c" using r by (metis hd_dropWhile list.sel(1) ne)
  then have "dropWhile (\<lambda>c. \<not> is_space c) r = dropWhile (\<lambda>c. \<not> is_space c) cs"
    using rc by simp
  moreover have "length (c # cs) \<le> length s" using len[of is_space s] r rc by metis
  ultimately show "(dropWhile (\<lambda>c. \<not> is_space c) r, s) \<in> measure length"
    using len[of "\<lambda>c. \<not> is_space c" cs] by simp
qed simp

declare str_fields.simps [simp del]

subsection \<open>Decimal numbers\<close>

definition is_digit_char :: "char \<Rightarrow> bool" where
  "is_digit_char c \<longleftrightarrow> 48 \<le> (of_char c :: nat) \<and> (of_char c :: nat) \<le> 57"

definition digit_char :: "nat \<Rightarrow> char" where
  "digit_char d = char_of (48 + d)"

text \<open>\<^verbatim>\<open>%d\<close> of an unsigned value and of a signed one.\<close>

fun nat_str :: "nat \<Rightarrow> string" where
  "nat_str n = (if n < 10 then [digit_char n] else nat_str (n div 10) @ [digit_char (n mod 10)])"

declare nat_str.simps [simp del]

definition int_str :: "int \<Rightarrow> string" where
  "int_str i = (if i < 0 then CHR ''-'' # nat_str (nat (- i)) else nat_str (nat i))"

definition digits_val :: "string \<Rightarrow> nat" where
  "digits_val s = foldl (\<lambda>v c. 10 * v + (of_char c - 48)) 0 s"

lemma digit_char_val [str_simps]: "d < 10 \<Longrightarrow> (of_char (digit_char d) :: nat) = 48 + d"
  by (simp add: digit_char_def)

lemma digits_val_snoc: "digits_val (s @ [c]) = 10 * digits_val s + (of_char c - 48)"
  by (simp add: digits_val_def)

lemma digits_val_nat_str [simp]: "digits_val (nat_str n) = n"
proof (induction n rule: nat_str.induct)
  case (1 n)
  show ?case
  proof (cases "n < 10")
    case True
    then show ?thesis by (subst nat_str.simps) (simp add: digits_val_def digit_char_val)
  next
    case False
    then have "digits_val (nat_str (n div 10) @ [digit_char (n mod 10)]) = n"
      using "1.IH" by (simp add: digits_val_snoc digit_char_val)
    with False show ?thesis by (subst nat_str.simps) simp
  qed
qed

lemma nat_str_inject [simp]: "nat_str m = nat_str n \<longleftrightarrow> m = n"
  by (metis digits_val_nat_str)

lemma nat_str_digits: "c \<in> set (nat_str n) \<Longrightarrow> is_digit_char c"
proof (induction n rule: nat_str.induct)
  case (1 n)
  show ?case
  proof (cases "n < 10")
    case True
    with "1.prems" show ?thesis
      by (subst (asm) nat_str.simps) (simp add: is_digit_char_def digit_char_val)
  next
    case False
    have "n mod 10 < 10" by simp
    then have "is_digit_char (digit_char (n mod 10))"
      by (simp add: is_digit_char_def digit_char_val)
    with False "1" show ?thesis
      by (subst (asm) nat_str.simps) auto
  qed
qed

lemma nat_str_not_minus [simp]: "CHR ''-'' # s \<noteq> nat_str n"
proof
  assume "CHR ''-'' # s = nat_str n"
  then have "is_digit_char (CHR ''-'')" using nat_str_digits[of "CHR ''-''" n] by (metis list.set_intros(1))
  then show False by (simp add: is_digit_char_def)
qed

lemma int_str_inject [simp]: "int_str i = int_str j \<longleftrightarrow> i = j"
  by (auto simp: int_str_def dest: sym split: if_splits)

text \<open>The conversion of a float to an integer, in the range of the integer.\<close>

definition trunc_rat :: "rat \<Rightarrow> int" where
  "trunc_rat q = (if q < 0 then - \<lfloor>- q\<rfloor> else \<lfloor>q\<rfloor>)"

text \<open>\<^verbatim>\<open>strconv.Atoi\<close>: a syntax error, an error of range, or a value; and the value it (and
  \<^verbatim>\<open>json.Number.Int64\<close>) returns when the error is ignored: 0 on a syntax error, the nearest bound out of
  range.\<close>

definition decimal_int :: "string \<Rightarrow> int option" where
  "decimal_int s =
     (let neg = (s \<noteq> [] \<and> hd s = CHR ''-'');
          body = (if s \<noteq> [] \<and> (hd s = CHR ''-'' \<or> hd s = CHR ''+'') then tl s else s)
      in if body = [] \<or> \<not> list_all is_digit_char body then None
         else Some (if neg then - int (digits_val body) else int (digits_val body)))"

definition int64_min :: int where "int64_min = - (2 ^ 63)"
definition int64_max :: int where "int64_max = 2 ^ 63 - 1"

text \<open>The conversion of a float to \<^verbatim>\<open>int64\<close>; out of range it is what the amd64 instruction gives.\<close>

definition int64_of :: "rat \<Rightarrow> int" where
  "int64_of q = (if int64_min \<le> trunc_rat q \<and> trunc_rat q \<le> int64_max then trunc_rat q else int64_min)"

definition atoi :: "string \<Rightarrow> int option" where
  "atoi s = (case decimal_int s of None \<Rightarrow> None
     | Some v \<Rightarrow> if int64_min \<le> v \<and> v \<le> int64_max then Some v else None)"

text \<open>\<^verbatim>\<open>len([]rune(s))\<close> of valid UTF-8 text.\<close>

definition rune_count :: "string \<Rightarrow> nat" where
  "rune_count s = length (filter (\<lambda>c. \<not> (128 \<le> (of_char c :: nat) \<and> (of_char c :: nat) < 192)) s)"

definition atoi_value :: "string \<Rightarrow> int" where
  "atoi_value s = (case decimal_int s of None \<Rightarrow> 0 | Some v \<Rightarrow> max int64_min (min int64_max v))"

text \<open>Signed results at 32 and 64 bits.\<close>

definition wrap64 :: "int \<Rightarrow> int" where
  "wrap64 i = (i + 2 ^ 63) mod 2 ^ 64 - 2 ^ 63"

definition wrap32 :: "int \<Rightarrow> int" where
  "wrap32 i = (i + 2 ^ 31) mod 2 ^ 32 - 2 ^ 31"

lemma wrap64_id [simp]: "int64_min \<le> i \<Longrightarrow> i \<le> int64_max \<Longrightarrow> wrap64 i = i"
  by (simp add: wrap64_def int64_min_def int64_max_def)

lemma wrap32_id [simp]: "- (2 ^ 31) \<le> i \<Longrightarrow> i < 2 ^ 31 \<Longrightarrow> wrap32 i = i"
  by (simp add: wrap32_def)

lemma atoi_value_bounds: "int64_min \<le> atoi_value s" "atoi_value s \<le> int64_max"
  by (auto simp: atoi_value_def int64_min_def int64_max_def split: option.split)

subsection \<open>Prefixes and trimming\<close>

lemma has_prefix_iff [str_simps]: "has_prefix s p \<longleftrightarrow> (\<exists>t. s = p @ t)"
  by (induction s p rule: has_prefix.induct) auto

lemma has_prefix_append [simp]: "has_prefix (p @ t) p"
  by (auto simp: has_prefix_iff)

lemma has_prefix_trans: "has_prefix s (p @ q) \<Longrightarrow> has_prefix s p"
  by (auto simp: has_prefix_iff)

lemma trim_prefix_append [simp]: "trim_prefix (p @ t) p = t"
  by (simp add: trim_prefix_def)

lemma dropWhile_idem [simp]: "dropWhile P (dropWhile P xs) = dropWhile P xs"
  by (induction xs) auto

lemma hd_trim_left: "trim_left s \<noteq> [] \<Longrightarrow> \<not> is_space (hd (trim_left s))"
  unfolding trim_left_def by (rule hd_dropWhile)

lemma trim_space_decomp: "\<exists>ws. trim_left s = trim_space s @ ws \<and> (\<forall>c\<in>set ws. is_space c)"
proof -
  let ?r = "rev (trim_left s)" let ?ws = "rev (takeWhile is_space (rev (trim_left s)))"
  have "rev ?r = rev (dropWhile is_space ?r) @ ?ws"
    by (metis rev_append takeWhile_dropWhile_id)
  then have "trim_left s = trim_space s @ ?ws" by (simp add: trim_space_def)
  moreover have "\<forall>c\<in>set ?ws. is_space c" using set_takeWhileD by fastforce
  ultimately show ?thesis by blast
qed

lemma trim_space_ends:
  assumes "trim_space s \<noteq> []"
  shows "\<not> is_space (hd (trim_space s)) \<and> \<not> is_space (last (trim_space s))"
proof
  obtain ws where d: "trim_left s = trim_space s @ ws" using trim_space_decomp by blast
  with assms have "hd (trim_left s) = hd (trim_space s)" by (simp add: hd_append)
  moreover have "trim_left s \<noteq> []" using d assms by auto
  ultimately show "\<not> is_space (hd (trim_space s))" using hd_trim_left by metis
  have "dropWhile is_space (rev (trim_left s)) \<noteq> []" using assms by (simp add: trim_space_def)
  then have "\<not> is_space (hd (dropWhile is_space (rev (trim_left s))))" by (rule hd_dropWhile)
  then show "\<not> is_space (last (trim_space s))" by (simp add: trim_space_def last_rev)
qed

lemma trim_space_id:
  assumes "s = [] \<or> \<not> is_space (hd s) \<and> \<not> is_space (last s)"
  shows "trim_space s = s"
proof (cases "s = []")
  case False
  with assms have "trim_left s = s" by (cases s) (auto simp: trim_left_def)
  moreover have "dropWhile is_space (rev s) = rev s"
    using assms False by (cases "rev s") (auto simp: hd_rev[symmetric])
  ultimately show ?thesis by (simp add: trim_space_def)
qed (simp add: trim_space_def trim_left_def)

lemma trim_space_idem [simp]: "trim_space (trim_space s) = trim_space s"
  using trim_space_ends[of s] by (intro trim_space_id) blast

lemma trim_space_Nil [simp]: "trim_space [] = []"
  by (simp add: trim_space_def trim_left_def)

subsection \<open>Association lists and maps\<close>

lemma map_of_distinct_idx:
  assumes "distinct (map fst kvs)" and "(k, v) \<in> set kvs"
  shows "map_of kvs k = Some v"
  using assms by (rule map_of_is_SomeI)

lemma fold_upd_map_of:
  "fold (\<lambda>x m. m(f x \<mapsto> g x)) xs m = m ++ map_of (rev (map (\<lambda>x. (f x, g x)) xs))"
  by (induction xs arbitrary: m) (auto simp: map_add_def split: option.splits)

lemma fold_upd_Some:
  assumes "fold (\<lambda>x m. m(f x \<mapsto> g x)) xs Map.empty k = Some v"
  shows "\<exists>x\<in>set xs. f x = k \<and> g x = v"
proof -
  have "map_of (rev (map (\<lambda>x. (f x, g x)) xs)) k = Some v"
    using assms by (simp add: fold_upd_map_of)
  then have "(k, v) \<in> set (rev (map (\<lambda>x. (f x, g x)) xs))" by (rule map_of_SomeD)
  then show ?thesis by auto
qed

lemma fold_upd_distinct:
  assumes "distinct (map f xs)" and "x \<in> set xs"
  shows "fold (\<lambda>x m. m(f x \<mapsto> g x)) xs Map.empty (f x) = Some (g x)"
proof -
  have "distinct (map fst (rev (map (\<lambda>x. (f x, g x)) xs)))"
    using assms(1) by (simp add: rev_map[symmetric] o_def)
  then show ?thesis using assms(2) by (auto simp: fold_upd_map_of intro!: map_of_is_SomeI)
qed

lemma fold_upd_None:
  assumes "k \<notin> f ` set xs"
  shows "fold (\<lambda>x m. m(f x \<mapsto> g x)) xs Map.empty k = None"
  using assms fold_upd_Some[of f g xs k] by (cases "fold (\<lambda>x m. m(f x \<mapsto> g x)) xs Map.empty k") auto

subsection \<open>Time\<close>

text \<open>A \<^verbatim>\<open>time.Time\<close> is the number of nanoseconds since the Unix epoch; the zero time is the first of
  January of year 1. A \<^verbatim>\<open>time.Duration\<close> is a number of nanoseconds.\<close>

definition zero_time :: int where "zero_time = -62135596800 * 1000000000"

abbreviation (input) "second_ns \<equiv> (1000000000::int)"
abbreviation (input) "minute_ns \<equiv> (60000000000::int)"
abbreviation (input) "hour_ns \<equiv> (3600000000000::int)"

definition is_zero_time :: "int \<Rightarrow> bool" where
  "is_zero_time t \<longleftrightarrow> t = zero_time"

text \<open>A search over a grown list.\<close>

lemma find_snoc: "find P (xs @ [x]) = (case find P xs of Some y \<Rightarrow> Some y | None \<Rightarrow> if P x then Some x else None)"
  by (induction xs) auto

end
