(* ===== verification/Base64.thy ===== *)
theory Base64
  imports Prelude
begin

text \<open>
  \<^verbatim>\<open>base64.RawURLEncoding\<close> of Go's standard library as \<^verbatim>\<open>app/common/rbac/mask.go\<close> uses it: the
  URL alphabet without padding. Encoding takes three bytes to four characters; decoding
  drops carriage returns and newlines, refuses any other character outside the alphabet, refuses
  a rest of one character, and ignores the unused low bits of a last group of two or three
  characters (the decoder is not strict).
\<close>

type_synonym byte = "8 word"

definition b64_char :: "nat \<Rightarrow> char" where
  "b64_char n = (if n < 26 then char_of (65 + n)
     else if n < 52 then char_of (71 + n)
     else if n < 62 then char_of (n - 4)
     else if n = 62 then CHR ''-'' else CHR ''_'')"

definition b64_val :: "char \<Rightarrow> nat option" where
  "b64_val c = (let n = of_char c :: nat in
     if 65 \<le> n \<and> n \<le> 90 then Some (n - 65)
     else if 97 \<le> n \<and> n \<le> 122 then Some (n - 71)
     else if 48 \<le> n \<and> n \<le> 57 then Some (n + 4)
     else if n = 45 then Some 62
     else if n = 95 then Some 63 else None)"

fun b64_encode_nats :: "nat list \<Rightarrow> nat list" where
  "b64_encode_nats (a # b # c # r) =
     (let v = a * 65536 + b * 256 + c
      in v div 262144 mod 64 # v div 4096 mod 64 # v div 64 mod 64 # v mod 64 # b64_encode_nats r)"
| "b64_encode_nats [a, b] =
     (let v = a * 65536 + b * 256 in [v div 262144 mod 64, v div 4096 mod 64, v div 64 mod 64])"
| "b64_encode_nats [a] = (let v = a * 65536 in [v div 262144 mod 64, v div 4096 mod 64])"
| "b64_encode_nats [] = []"

fun b64_decode_nats :: "nat list \<Rightarrow> nat list option" where
  "b64_decode_nats (a # b # c # d # r) =
     (let v = a * 262144 + b * 4096 + c * 64 + d
      in map_option (\<lambda>t. v div 65536 mod 256 # v div 256 mod 256 # v mod 256 # t) (b64_decode_nats r))"
| "b64_decode_nats [a, b, c] =
     (let v = a * 262144 + b * 4096 + c * 64 in Some [v div 65536 mod 256, v div 256 mod 256])"
| "b64_decode_nats [a, b] = (let v = a * 262144 + b * 4096 in Some [v div 65536 mod 256])"
| "b64_decode_nats [a] = None"
| "b64_decode_nats [] = Some []"

fun traverse :: "('a \<Rightarrow> 'b option) \<Rightarrow> 'a list \<Rightarrow> 'b list option" where
  "traverse f [] = Some []"
| "traverse f (x # xs) =
     (case f x of None \<Rightarrow> None | Some y \<Rightarrow> map_option ((#) y) (traverse f xs))"

definition b64_encode :: "byte list \<Rightarrow> string" where
  "b64_encode bs = map b64_char (b64_encode_nats (map unat bs))"

definition b64_decode :: "string \<Rightarrow> byte list option" where
  "b64_decode s = (case traverse b64_val (filter (\<lambda>c. c \<noteq> CHR 0x0D \<and> c \<noteq> CHR 0x0A) s) of
       None \<Rightarrow> None
     | Some ns \<Rightarrow> map_option (map of_nat) (b64_decode_nats ns))"

subsection \<open>The alphabet\<close>

lemma b64_val_char: "n < 64 \<Longrightarrow> b64_val (b64_char n) = Some n"
  by (auto simp: b64_val_def b64_char_def Let_def)

lemma b64_char_not_newline: "n < 64 \<Longrightarrow> b64_char n \<noteq> CHR 0x0D \<and> b64_char n \<noteq> CHR 0x0A"
proof
  assume n: "n < 64"
  show "b64_char n \<noteq> CHR 0x0D"
  proof
    assume "b64_char n = CHR 0x0D"
    then have "b64_val (CHR 0x0D) = Some n" using b64_val_char[OF n] by simp
    then show False by (simp add: b64_val_def)
  qed
  show "b64_char n \<noteq> CHR 0x0A"
  proof
    assume "b64_char n = CHR 0x0A"
    then have "b64_val (CHR 0x0A) = Some n" using b64_val_char[OF n] by simp
    then show False by (simp add: b64_val_def)
  qed
qed

lemma traverse_map:
  "(\<And>x. x \<in> set xs \<Longrightarrow> f (g x) = Some x) \<Longrightarrow> traverse f (map g xs) = Some xs"
  by (induction xs) auto

subsection \<open>Digits\<close>

lemma mod_split: "(v::nat) mod (m * n) = m * (v div m mod n) + v mod m"
  by (rule mod_mult2_eq)

lemma sextets_value:
  assumes "v < (16777216::nat)"
  shows "v div 262144 mod 64 * 262144 + v div 4096 mod 64 * 4096 + v div 64 mod 64 * 64 + v mod 64 = v"
proof -
  have "v mod 16777216 = 262144 * (v div 262144 mod 64) + v mod 262144"
    using mod_split[of v 262144 64] by simp
  moreover have "v mod 262144 = 4096 * (v div 4096 mod 64) + v mod 4096"
    using mod_split[of v 4096 64] by simp
  moreover have "v mod 4096 = 64 * (v div 64 mod 64) + v mod 64"
    using mod_split[of v 64 64] by simp
  moreover have "v mod 16777216 = v" using assms by simp
  ultimately show ?thesis by linarith
qed

lemma bytes_of_value:
  assumes "a < 256" "b < 256" "c < (256::nat)" and v: "v = a * 65536 + b * 256 + c"
  shows "v div 65536 mod 256 = a" "v div 256 mod 256 = b" "v mod 256 = c"
proof -
  have "v div 65536 = a" using assms by simp
  then show "v div 65536 mod 256 = a" using assms by simp
  have "v div 256 = a * 256 + b" using assms by simp
  then show "v div 256 mod 256 = b" using assms by simp
  have "v = c + (a * 256 + b) * 256" using v by simp
  then have "v mod 256 = c mod 256" by (simp only: mod_mult_self1)
  then show "v mod 256 = c" using assms by simp
qed

lemma value_bound:
  "a < 256 \<Longrightarrow> b < 256 \<Longrightarrow> c < (256::nat) \<Longrightarrow> a * 65536 + b * 256 + c < 16777216"
  by simp

lemma low_sextet_0: "(a * 65536 + b * 256 :: nat) mod 64 = 0"
  by (simp add: mod_add_eq[symmetric] mod_mult_right_eq[symmetric])

lemma low_sextets_0: "(a * 65536 :: nat) div 64 mod 64 = 0" "(a * 65536 :: nat) mod 64 = 0"
proof -
  have "a * 65536 div 64 = a * 1024" by simp
  then show "a * 65536 div 64 mod 64 = 0" by simp
  show "a * 65536 mod 64 = 0" by simp
qed

lemma encode_nats_bound: "n \<in> set (b64_encode_nats ns) \<Longrightarrow> n < 64"
  by (induction ns rule: b64_encode_nats.induct) (auto simp: Let_def)

lemma decode_encode_nats:
  "(\<And>n. n \<in> set ns \<Longrightarrow> n < 256) \<Longrightarrow> b64_decode_nats (b64_encode_nats ns) = Some ns"
proof (induction ns rule: b64_encode_nats.induct)
  case (1 a b c r)
  let ?v = "a * 65536 + b * 256 + c"
  have bd: "a < 256" "b < 256" "c < 256" using "1.prems" by auto
  have "b64_decode_nats (b64_encode_nats r) = Some r" using 1 by auto
  then show ?case
    using sextets_value[OF value_bound[OF bd]] bytes_of_value[OF bd refl]
    by (simp only: b64_encode_nats.simps b64_decode_nats.simps Let_def option.map)
next
  case (2 a b)
  let ?v = "a * 65536 + b * 256"
  have bd: "a < 256" "b < 256" using "2.prems" by auto
  have "?v div 262144 mod 64 * 262144 + ?v div 4096 mod 64 * 4096 + ?v div 64 mod 64 * 64 = ?v"
    using sextets_value[of ?v] value_bound[of a b 0] bd low_sextet_0[of a b] by simp
  then show ?case using bytes_of_value[of a b 0 ?v] bd
    by (simp add: Let_def)
next
  case (3 a)
  let ?v = "a * 65536"
  have bd: "a < 256" using "3.prems" by auto
  have "?v div 262144 mod 64 * 262144 + ?v div 4096 mod 64 * 4096 = ?v"
    using sextets_value[of ?v] value_bound[of a 0 0] bd low_sextets_0[of a] by simp
  then show ?case using bytes_of_value[of a 0 0 ?v] bd
    by (simp add: Let_def)
qed simp

subsection \<open>Decoding undoes encoding\<close>

text \<open>What a carrier of bytes in a token relies on: the text can be read back.\<close>

locale byte_codec =
  fixes enc :: "byte list \<Rightarrow> string" and dec :: "string \<Rightarrow> byte list option"
  assumes dec_enc: "dec (enc bs) = Some bs"
begin

lemma enc_inject: "enc a = enc b \<Longrightarrow> a = b"
  by (metis dec_enc option.inject)

lemma dec_onto: "\<exists>s. dec s = Some bs"
  by (rule exI[of _ "enc bs"]) (rule dec_enc)

end

lemma b64_decode_encode: "b64_decode (b64_encode bs) = Some bs"
proof -
  let ?ns = "b64_encode_nats (map unat bs)"
  have "filter (\<lambda>c. c \<noteq> CHR 0x0D \<and> c \<noteq> CHR 0x0A) (map b64_char ?ns) = map b64_char ?ns"
    using encode_nats_bound b64_char_not_newline by (auto simp: filter_id_conv)
  moreover have "traverse b64_val (map b64_char ?ns) = Some ?ns"
    using encode_nats_bound b64_val_char by (intro traverse_map) blast
  moreover have "b64_decode_nats ?ns = Some (map unat bs)"
  proof (rule decode_encode_nats)
    fix n assume "n \<in> set (map unat bs)"
    then obtain w where "n = unat (w::byte)" by auto
    then show "n < 256" using unsigned_less[of w] by simp
  qed
  ultimately show ?thesis by (simp add: b64_encode_def b64_decode_def o_def)
qed

interpretation b64: byte_codec b64_encode b64_decode
  by unfold_locales (rule b64_decode_encode)

lemma b64_encode_not_Nil: "bs \<noteq> [] \<Longrightarrow> b64_encode bs \<noteq> []"
proof
  assume "bs \<noteq> []" "b64_encode bs = []"
  then have "b64_encode bs = b64_encode []" by (simp add: b64_encode_def)
  then show False using b64.enc_inject \<open>bs \<noteq> []\<close> by blast
qed

end
