(* ===== verification/Rbac.thy ===== *)
theory Rbac
  imports Base64 "HOL-Library.Signed_Division"
begin

unbundle bit_operations_syntax

text \<open>
  Package \<^verbatim>\<open>app/common/rbac\<close>: the registry of permission points with their bit numbers
  (\<^verbatim>\<open>perm.go\<close>), the built-in role templates (\<^verbatim>\<open>roles.go\<close>) and the bit mask that carries a set
  of permissions in the \<^verbatim>\<open>pm\<close> claim of a token (\<^verbatim>\<open>mask.go\<close>). The display texts (labels,
  descriptions) of the registry are not modelled.
\<close>

subsection \<open>The registry\<close>

record Perm =
  p_code :: string
  p_group :: string
  p_scope :: string
  p_bit :: nat

abbreviation "ScopeSite \<equiv> ''site''"
abbreviation "ScopeOrg \<equiv> ''org''"

abbreviation mkPerm :: "string \<Rightarrow> string \<Rightarrow> string \<Rightarrow> nat \<Rightarrow> Perm" where
  "mkPerm c g s b \<equiv> \<lparr>p_code = c, p_group = g, p_scope = s, p_bit = b\<rparr>"

definition registry :: "Perm list" where
  "registry =
   [mkPerm ''site.config.read'' ''site_ops'' ScopeSite 0,
    mkPerm ''site.config.write'' ''site_ops'' ScopeSite 1,
    mkPerm ''site.stats.read'' ''site_ops'' ScopeSite 2,
    mkPerm ''site.backup.manage'' ''site_ops'' ScopeSite 3,
    mkPerm ''site.spider.ops'' ''site_ops'' ScopeSite 4,
    mkPerm ''site.problem.ops'' ''site_ops'' ScopeSite 5,
    mkPerm ''site.blog.dashboard'' ''site_ops'' ScopeSite 6,
    mkPerm ''site.org.create'' ''site_org'' ScopeSite 7,
    mkPerm ''site.org.delete'' ''site_org'' ScopeSite 8,
    mkPerm ''site.org.policy'' ''site_org'' ScopeSite 9,
    mkPerm ''site.org.list'' ''site_org'' ScopeSite 10,
    mkPerm ''site.user.list'' ''site_user'' ScopeSite 11,
    mkPerm ''site.user.disable'' ''site_user'' ScopeSite 12,
    mkPerm ''site.user.delete'' ''site_user'' ScopeSite 13,
    mkPerm ''site.user.sync'' ''site_user'' ScopeSite 14,
    mkPerm ''site.appoint.admin'' ''site_appoint'' ScopeSite 15,
    mkPerm ''site.role.manage'' ''site_appoint'' ScopeSite 17,
    mkPerm ''site.bulletin.manage'' ''site_notice'' ScopeSite 18,
    mkPerm ''site.emergency.manage'' ''site_notice'' ScopeSite 19,
    mkPerm ''content.problem.review'' ''content'' ScopeSite 20,
    mkPerm ''content.blog.moderate'' ''content'' ScopeSite 21,
    mkPerm ''content.community.moderate'' ''content'' ScopeSite 22,
    mkPerm ''org.info.write'' ''org_settings'' ScopeOrg 23,
    mkPerm ''org.policy.toggle'' ''org_settings'' ScopeOrg 24,
    mkPerm ''org.role.manage'' ''org_settings'' ScopeOrg 25,
    mkPerm ''org.member.add'' ''org_member'' ScopeOrg 26,
    mkPerm ''org.member.remove'' ''org_member'' ScopeOrg 27,
    mkPerm ''org.member.role'' ''org_member'' ScopeOrg 28,
    mkPerm ''org.member.display-name'' ''org_member'' ScopeOrg 29,
    mkPerm ''org.invite.view'' ''org_member'' ScopeOrg 30,
    mkPerm ''org.invite.rotate'' ''org_member'' ScopeOrg 31,
    mkPerm ''org.join.review'' ''org_member'' ScopeOrg 32,
    mkPerm ''org.group.manage'' ''org_daily'' ScopeOrg 33,
    mkPerm ''org.bulletin.manage'' ''org_daily'' ScopeOrg 34,
    mkPerm ''org.report.view'' ''org_daily'' ScopeOrg 35,
    mkPerm ''org.member.email'' ''org_daily'' ScopeOrg 36,
    mkPerm ''content.report.handle'' ''content'' ScopeSite 37]"

text \<open>\<open>byCode\<close> is the lookup table built by assigning every entry in registry order.\<close>

definition byCode :: "string \<rightharpoonup> Perm" where
  "byCode = fold (\<lambda>p m. m(p_code p \<mapsto> p)) registry Map.empty"

definition ByCode :: "string \<Rightarrow> Perm option" where
  "ByCode code = byCode code"

definition Valid :: "string \<Rightarrow> bool" where
  "Valid code = (case byCode code of None \<Rightarrow> False | Some _ \<Rightarrow> True)"

definition ScopeOf :: "string \<Rightarrow> string" where
  "ScopeOf code = (case byCode code of Some p \<Rightarrow> p_scope p | None \<Rightarrow> '''')"

definition AllCodes :: "string list" where
  "AllCodes = map p_code registry"

definition CodesByGroup :: "string \<Rightarrow> string list" where
  "CodesByGroup g = map p_code (filter (\<lambda>p. p_group p = g) registry)"

definition CodesByScope :: "string \<Rightarrow> string list" where
  "CodesByScope s = map p_code (filter (\<lambda>p. p_scope p = s) registry)"

record Group =
  g_key :: string
  g_scope :: string
  g_perms :: "Perm list"

definition groupMeta :: "(string \<times> string) list" where
  "groupMeta =
   [(''site_ops'', ScopeSite), (''site_org'', ScopeSite), (''site_user'', ScopeSite),
    (''site_appoint'', ScopeSite), (''site_notice'', ScopeSite), (''content'', ScopeSite),
    (''org_settings'', ScopeOrg), (''org_member'', ScopeOrg), (''org_daily'', ScopeOrg)]"

definition Groups :: "Group list" where
  "Groups = map (\<lambda>(k, s). \<lparr>g_key = k, g_scope = s, g_perms = filter (\<lambda>p. p_group p = k) registry\<rparr>)
     groupMeta"

subsection \<open>Role templates\<close>

record SystemRole =
  r_code :: string
  r_scope :: string
  r_perms :: "string list"

abbreviation "RoleSiteAdmin \<equiv> ''site_admin''"
abbreviation "RoleOrgAdmin \<equiv> ''org_admin''"
abbreviation "RoleCoach \<equiv> ''coach''"
abbreviation "RoleGroupLeader \<equiv> ''group_leader''"
abbreviation "RoleCaptain \<equiv> ''captain''"
abbreviation "RoleMember \<equiv> ''member''"

definition coachPerms :: "string list" where
  "coachPerms = [''org.group.manage'', ''org.bulletin.manage'', ''org.report.view'',
     ''org.member.email'', ''org.member.role'', ''org.member.display-name'']"

definition groupLeaderPerms :: "string list" where
  "groupLeaderPerms = [''org.report.view'', ''org.member.role'', ''org.member.display-name'',
     ''org.bulletin.manage'', ''org.member.email'']"

definition captainPerms :: "string list" where
  "captainPerms = [''org.report.view'', ''org.member.email'']"

abbreviation mkRole :: "string \<Rightarrow> string \<Rightarrow> string list \<Rightarrow> SystemRole" where
  "mkRole c s ps \<equiv> \<lparr>r_code = c, r_scope = s, r_perms = ps\<rparr>"

definition systemRoles :: "SystemRole list" where
  "systemRoles =
   [mkRole RoleSiteAdmin ScopeSite AllCodes,
    mkRole RoleOrgAdmin ScopeOrg (CodesByScope ScopeOrg),
    mkRole RoleCoach ScopeOrg coachPerms,
    mkRole RoleGroupLeader ScopeOrg groupLeaderPerms,
    mkRole RoleCaptain ScopeOrg captainPerms,
    mkRole RoleMember ScopeOrg []]"

definition systemRoleByCode :: "string \<rightharpoonup> SystemRole" where
  "systemRoleByCode = fold (\<lambda>r m. m(r_code r \<mapsto> r)) systemRoles Map.empty"

definition OrgEditableSystemRole :: "string \<Rightarrow> bool" where
  "OrgEditableSystemRole code = (code \<in> {RoleCoach, RoleGroupLeader, RoleCaptain})"

definition ContentPerms :: "string list" where
  "ContentPerms = CodesByGroup ''content''"

definition SystemRoleByCode :: "string \<Rightarrow> SystemRole option" where
  "SystemRoleByCode code = systemRoleByCode code"

definition IsSystemRoleCode :: "string \<Rightarrow> bool" where
  "IsSystemRoleCode code = (systemRoleByCode code \<noteq> None)"

definition TemplateHas :: "string \<Rightarrow> string \<Rightarrow> bool" where
  "TemplateHas roleCode perm = (case systemRoleByCode roleCode of
       None \<Rightarrow> False
     | Some r \<Rightarrow> list_ex (\<lambda>p. p = perm) (r_perms r))"

definition LegacyHas :: "string \<Rightarrow> string \<Rightarrow> bool" where
  "LegacyHas perm orgRole = (if orgRole \<noteq> '''' then TemplateHas orgRole perm else False)"

subsection \<open>The bit mask\<close>

definition maxBit :: int where
  "maxBit = fold (\<lambda>p m. if int (p_bit p) > m then int (p_bit p) else m) registry (-1)"

definition encode_step :: "string \<Rightarrow> byte list \<times> bool \<Rightarrow> byte list \<times> bool" where
  "encode_step c = (\<lambda>(buf, any). case byCode c of
       None \<Rightarrow> (buf, any)
     | Some p \<Rightarrow> (let i = p_bit p div 8
         in (buf[i := (buf ! i) OR push_bit (p_bit p mod 8) 1], True)))"

definition Encode :: "string list \<Rightarrow> string" where
  "Encode codes =
     (let buf = replicate (nat (maxBit sdiv 8 + 1)) 0;
          (buf', any) = fold encode_step codes (buf, False)
      in if \<not> any then b64_encode (replicate 1 0) else b64_encode buf')"

definition test_bit_at :: "byte list \<Rightarrow> nat \<Rightarrow> bool" where
  "test_bit_at buf b = ((buf ! (b div 8)) AND push_bit (b mod 8) 1 \<noteq> 0)"

definition Decode :: "string \<Rightarrow> (string \<rightharpoonup> bool) option" where
  "Decode pm =
     (if pm = '''' then None
      else case b64_decode pm of
        None \<Rightarrow> None
      | Some buf \<Rightarrow> Some (fold
          (\<lambda>p out. if p_bit p div 8 < length buf \<and> test_bit_at buf (p_bit p)
                   then out(p_code p \<mapsto> True) else out) registry Map.empty))"

text \<open>The pair is (has, valid), as the Go function returns it.\<close>

definition MaskHas :: "string \<Rightarrow> string \<Rightarrow> bool \<times> bool" where
  "MaskHas pm code = (case byCode code of
       None \<Rightarrow> (False, True)
     | Some p \<Rightarrow>
        if pm = '''' then (False, False)
        else (case b64_decode pm of
            None \<Rightarrow> (False, False)
          | Some buf \<Rightarrow>
              if p_bit p div 8 \<ge> length buf then (False, True)
              else (test_bit_at buf (p_bit p), True)))"

subsection \<open>Facts on the registry\<close>

lemma registry_codes_distinct: "distinct (map p_code registry)"
  by code_simp

lemma registry_bits_distinct: "distinct (map p_bit registry)"
  by (simp add: registry_def)

lemma registry_bits_sorted: "sorted (map p_bit registry)"
  by (simp add: registry_def)

lemma registry_bits_le: "p \<in> set registry \<Longrightarrow> p_bit p \<le> 37"
  by (auto simp: registry_def)

lemma maxBit_eq: "maxBit = 37"
  by (simp add: maxBit_def registry_def)

lemma mask_length: "nat (maxBit sdiv 8 + 1) = 5"
  by (simp add: maxBit_eq signed_divide_int_def)

lemma byCode_Some_iff: "byCode c = Some p \<longleftrightarrow> p \<in> set registry \<and> p_code p = c"
proof
  assume "byCode c = Some p"
  then show "p \<in> set registry \<and> p_code p = c"
    unfolding byCode_def by (auto dest: fold_upd_Some)
next
  assume "p \<in> set registry \<and> p_code p = c"
  then show "byCode c = Some p"
    using fold_upd_distinct[OF registry_codes_distinct, of p "\<lambda>p. p"] by (auto simp: byCode_def)
qed

lemma byCode_code: "p \<in> set registry \<Longrightarrow> byCode (p_code p) = Some p"
  by (simp add: byCode_Some_iff)

lemma Valid_iff: "Valid c \<longleftrightarrow> (\<exists>p\<in>set registry. p_code p = c)"
  by (auto simp: Valid_def byCode_Some_iff dest: byCode_code split: option.splits)

lemma bits_inj:
  "p \<in> set registry \<Longrightarrow> q \<in> set registry \<Longrightarrow> p_bit p = p_bit q \<longleftrightarrow> p = q"
  using registry_bits_distinct by (auto simp: distinct_map inj_on_def)

lemma codes_inj:
  "p \<in> set registry \<Longrightarrow> q \<in> set registry \<Longrightarrow> p_code p = p_code q \<longleftrightarrow> p = q"
  using registry_codes_distinct by (auto simp: distinct_map inj_on_def)

subsection \<open>Bits of a byte buffer\<close>

definition has_bit :: "byte list \<Rightarrow> nat \<Rightarrow> bool" where
  "has_bit buf b \<longleftrightarrow> b div 8 < length buf \<and> bit (buf ! (b div 8)) (b mod 8)"

lemma test_bit_at_iff: "b div 8 < length buf \<Longrightarrow> test_bit_at buf b \<longleftrightarrow> has_bit buf b"
  by (simp add: test_bit_at_def has_bit_def push_bit_eq_mult and_exp_eq_0_iff_not_bit)

lemma div_mod_8_inj: "(a::nat) div 8 = b div 8 \<Longrightarrow> a mod 8 = b mod 8 \<Longrightarrow> a = b"
  by (metis mult_div_mod_eq)

lemma bit_pow2_byte: "k < 8 \<Longrightarrow> bit ((2::byte) ^ k) n \<longleftrightarrow> n = k"
  by (auto simp: bit_simps)

lemma has_bit_set:
  assumes "a div 8 < length buf"
  shows "has_bit (buf[a div 8 := (buf ! (a div 8)) OR push_bit (a mod 8) 1]) b
     \<longleftrightarrow> has_bit buf b \<or> a = b"
proof (cases "a div 8 = b div 8")
  case True
  have "a mod 8 = b mod 8 \<longleftrightarrow> a = b" using True div_mod_8_inj by blast
  then show ?thesis using True assms
    by (auto simp: has_bit_def bit_or_iff bit_pow2_byte)
next
  case False
  then have "a \<noteq> b" by auto
  with False show ?thesis using assms by (simp add: has_bit_def)
qed

lemma encode_step_length: "length (fst (encode_step c (buf, any))) = length buf"
  by (auto simp: encode_step_def Let_def split: option.splits)

lemma encode_step_has_bit:
  assumes "length buf = 5"
  shows "has_bit (fst (encode_step c (buf, any))) b
     \<longleftrightarrow> has_bit buf b \<or> (\<exists>p\<in>set registry. p_code p = c \<and> p_bit p = b)"
proof (cases "byCode c")
  case None
  then show ?thesis by (auto simp: encode_step_def dest: byCode_code)
next
  case (Some p)
  then have p: "p \<in> set registry" "p_code p = c" by (auto simp: byCode_Some_iff)
  then have "p_bit p div 8 < length buf" using registry_bits_le assms by force
  moreover have "(\<exists>q\<in>set registry. p_code q = c \<and> p_bit q = b) \<longleftrightarrow> p_bit p = b"
    using p codes_inj by blast
  ultimately show ?thesis using Some by (simp add: encode_step_def Let_def has_bit_set[simplified])
qed

lemma fold_encode_step:
  assumes "length buf = 5"
  shows "length (fst (fold encode_step cs (buf, any))) = 5
     \<and> (has_bit (fst (fold encode_step cs (buf, any))) b
         \<longleftrightarrow> has_bit buf b \<or> (\<exists>p\<in>set registry. p_code p \<in> set cs \<and> p_bit p = b))
     \<and> (snd (fold encode_step cs (buf, any)) \<longleftrightarrow> any \<or> (\<exists>c\<in>set cs. Valid c))"
  using assms
proof (induction cs arbitrary: buf any)
  case (Cons c cs)
  obtain buf' any' where st: "encode_step c (buf, any) = (buf', any')" by fastforce
  with Cons.prems have len: "length buf' = 5" using encode_step_length[of c buf any] by simp
  have "any' \<longleftrightarrow> any \<or> Valid c"
    using st by (auto simp: encode_step_def Valid_def Let_def split: option.splits)
  moreover have "has_bit buf' b \<longleftrightarrow> has_bit buf b \<or> (\<exists>p\<in>set registry. p_code p = c \<and> p_bit p = b)"
    using encode_step_has_bit[OF Cons.prems, of c any b] st by simp
  ultimately show ?case using Cons.IH[OF len, of any'] st by auto
qed auto

lemma has_bit_zero: "\<not> has_bit (replicate n 0) b"
  by (auto simp: has_bit_def)

text \<open>What a decoded \<open>Encode\<close> holds: a non-empty buffer with exactly the bits of the known codes.\<close>

lemma Encode_decoded:
  obtains buf where "b64_decode (Encode codes) = Some buf" and "Encode codes \<noteq> ''''"
    and "\<And>p. p \<in> set registry \<Longrightarrow> has_bit buf (p_bit p) \<longleftrightarrow> p_code p \<in> set codes"
proof -
  obtain buf any where f: "fold encode_step codes (replicate 5 0, False) = (buf, any)" by fastforce
  note fs = fold_encode_step[of "replicate 5 0" codes False, unfolded f, simplified]
  have len: "length buf = 5" using fs by simp
  have bits: "has_bit buf (p_bit p) \<longleftrightarrow> p_code p \<in> set codes" if "p \<in> set registry" for p
    using fs[of "p_bit p"] that bits_inj has_bit_zero by auto
  show ?thesis
  proof (cases any)
    case True
    then have "Encode codes = b64_encode buf" using f by (simp add: Encode_def mask_length)
    moreover have "buf \<noteq> []" using len by auto
    ultimately show ?thesis using that[of buf] bits b64.dec_enc b64_encode_not_Nil by simp
  next
    case False
    then have "Encode codes = b64_encode (replicate 1 0)" using f by (simp add: Encode_def mask_length)
    moreover have "p_code p \<notin> set codes" if "p \<in> set registry" for p
      using False fs that Valid_iff by blast
    ultimately show ?thesis
      using that[of "replicate 1 0"] b64.dec_enc b64_encode_not_Nil has_bit_zero[of 1] by simp
  qed
qed

lemma Decode_fold:
  assumes "distinct (map p_code ps)"
  shows "fold (\<lambda>p out. if Q p then out(p_code p \<mapsto> True) else out) ps m c
     = (if \<exists>p\<in>set ps. p_code p = c \<and> Q p then Some True else m c)"
  using assms
proof (induction ps arbitrary: m)
  case (Cons p ps)
  then show ?case by (cases "Q p") auto
qed simp

lemma Decode_eq:
  assumes "pm \<noteq> ''''" and "b64_decode pm = Some buf"
  shows "Decode pm = Some (\<lambda>c. if \<exists>p\<in>set registry. p_code p = c \<and> has_bit buf (p_bit p)
     then Some True else None)"
  unfolding Decode_def using assms
  by (auto simp: fun_eq_iff Decode_fold[OF registry_codes_distinct] test_bit_at_iff has_bit_def)

lemma MaskHas_eq:
  assumes "pm \<noteq> ''''" and "b64_decode pm = Some buf"
  shows "MaskHas pm c = (\<exists>p\<in>set registry. p_code p = c \<and> has_bit buf (p_bit p), True)"
proof (cases "byCode c")
  case None
  then show ?thesis by (auto simp: MaskHas_def dest: byCode_code)
next
  case (Some p)
  then have p: "p \<in> set registry" "p_code p = c" by (auto simp: byCode_Some_iff)
  then have "(\<exists>q\<in>set registry. p_code q = c \<and> has_bit buf (p_bit q)) \<longleftrightarrow> has_bit buf (p_bit p)"
    using codes_inj by blast
  then show ?thesis using assms Some by (auto simp: MaskHas_def test_bit_at_iff has_bit_def)
qed

subsection \<open>The mask carries exactly the granted permissions\<close>

text \<open>C28: A mask minted from a list of permission codes answers, for every code, whether the code
  is registered and in the list, and always reports itself as valid.\<close>

theorem mask_has_encode: "MaskHas (Encode codes) c = (Valid c \<and> c \<in> set codes, True)"
proof -
  obtain buf where b: "b64_decode (Encode codes) = Some buf" "Encode codes \<noteq> ''''"
    and bits: "\<And>p. p \<in> set registry \<Longrightarrow> has_bit buf (p_bit p) \<longleftrightarrow> p_code p \<in> set codes"
    by (rule Encode_decoded) blast
  show ?thesis using bits by (auto simp: MaskHas_eq[OF b(2,1)] Valid_iff)
qed

text \<open>Decoding a minted mask gives back the set of its registered codes and nothing else.\<close>

theorem decode_encode:
  "Decode (Encode codes) = Some (\<lambda>c. if Valid c \<and> c \<in> set codes then Some True else None)"
proof -
  obtain buf where b: "b64_decode (Encode codes) = Some buf" "Encode codes \<noteq> ''''"
    and bits: "\<And>p. p \<in> set registry \<Longrightarrow> has_bit buf (p_bit p) \<longleftrightarrow> p_code p \<in> set codes"
    by (rule Encode_decoded) blast
  show ?thesis using bits by (auto simp: Decode_eq[OF b(2,1)] Valid_iff fun_eq_iff)
qed

text \<open>The two readers of a mask agree on every text, a forged or truncated one included: the
  single-bit test is the lookup in the decoded set, it is invalid exactly where decoding fails, and
  an unregistered code is never granted.\<close>

theorem mask_readers_agree:
  "MaskHas pm c =
     (if Valid c then (case Decode pm of None \<Rightarrow> (False, False) | Some m \<Rightarrow> (m c = Some True, True))
      else (False, True))"
proof (cases "Valid c")
  case False
  then show ?thesis by (simp add: MaskHas_def Valid_def split: option.splits)
next
  case True
  then obtain p where "byCode c = Some p" by (auto simp: Valid_def split: option.splits)
  then show ?thesis using True
    by (cases "pm = ''''"; cases "b64_decode pm")
       (auto simp: MaskHas_eq Decode_eq, auto simp: MaskHas_def Decode_def)
qed

lemma systemRoleByCode_eq:
  "systemRoleByCode RoleOrgAdmin = Some (mkRole RoleOrgAdmin ScopeOrg (CodesByScope ScopeOrg))"
  "systemRoleByCode RoleCoach = Some (mkRole RoleCoach ScopeOrg coachPerms)"
  "systemRoleByCode RoleGroupLeader = Some (mkRole RoleGroupLeader ScopeOrg groupLeaderPerms)"
  "systemRoleByCode RoleCaptain = Some (mkRole RoleCaptain ScopeOrg captainPerms)"
  "systemRoleByCode RoleMember = Some (mkRole RoleMember ScopeOrg [])"
  by (simp_all add: systemRoleByCode_def systemRoles_def)

lemma TemplateHas_sets:
  "{p. TemplateHas RoleOrgAdmin p} = set (CodesByScope ScopeOrg)"
  "{p. TemplateHas RoleCoach p} = set coachPerms"
  "{p. TemplateHas RoleGroupLeader p} = set groupLeaderPerms"
  "{p. TemplateHas RoleCaptain p} = set captainPerms"
  "{p. TemplateHas RoleMember p} = {}"
  by (auto simp: TemplateHas_def systemRoleByCode_eq list_ex_iff)

lemma CodesByScope_org: "set (CodesByScope ScopeOrg) = {c. ScopeOf c = ScopeOrg}"
  by (auto simp: CodesByScope_def ScopeOf_def byCode_Some_iff codes_inj split: option.splits dest: byCode_code)

lemma perms_strict:
  "set captainPerms \<subset> set groupLeaderPerms" "set groupLeaderPerms \<subset> set coachPerms"
  "set coachPerms \<subset> set (CodesByScope ScopeOrg)"
proof -
  have "''org.member.role'' \<in> set groupLeaderPerms - set captainPerms"
    by (simp add: captainPerms_def groupLeaderPerms_def)
  moreover have "set captainPerms \<subseteq> set groupLeaderPerms"
    by (simp add: captainPerms_def groupLeaderPerms_def)
  ultimately show "set captainPerms \<subset> set groupLeaderPerms" by blast
  have "''org.group.manage'' \<in> set coachPerms - set groupLeaderPerms"
    by (simp add: coachPerms_def groupLeaderPerms_def)
  moreover have "set groupLeaderPerms \<subseteq> set coachPerms"
    by (simp add: coachPerms_def groupLeaderPerms_def)
  ultimately show "set groupLeaderPerms \<subset> set coachPerms" by blast
  have "''org.info.write'' \<in> set (CodesByScope ScopeOrg) - set coachPerms"
    by (simp add: coachPerms_def CodesByScope_def registry_def)
  moreover have "set coachPerms \<subseteq> set (CodesByScope ScopeOrg)"
    by (simp add: coachPerms_def CodesByScope_def registry_def)
  ultimately show "set coachPerms \<subset> set (CodesByScope ScopeOrg)" by blast
qed

text \<open>The organisation roles form the strict chain the package documents (administrator above
  coach above group leader above captain above member), the administrator has exactly the
  permissions of organisation scope, and so no role of the chain carries a site permission.\<close>

theorem org_role_chain:
  "{p. TemplateHas RoleMember p} \<subset> {p. TemplateHas RoleCaptain p}
   \<and> {p. TemplateHas RoleCaptain p} \<subset> {p. TemplateHas RoleGroupLeader p}
   \<and> {p. TemplateHas RoleGroupLeader p} \<subset> {p. TemplateHas RoleCoach p}
   \<and> {p. TemplateHas RoleCoach p} \<subset> {p. TemplateHas RoleOrgAdmin p}
   \<and> {p. TemplateHas RoleOrgAdmin p} = {p. ScopeOf p = ScopeOrg}"
proof -
  have "{} \<subset> set captainPerms" by (simp add: captainPerms_def psubset_eq)
  then show ?thesis unfolding TemplateHas_sets using perms_strict CodesByScope_org by blast
qed

end
