(* ===== verification/Auth.thy ===== *)
theory Auth
  imports Rbac "HOL-Library.AList"
begin

text \<open>
  Role ranks (\<^verbatim>\<open>app/common/permission/const.go\<close>) and the token checks of
  \<^verbatim>\<open>app/common/utils/auth/check.go\<close>: reading the bearer token, the three-stage parse with its cache,
  and the verification functions. The JWT library is not under \<^verbatim>\<open>src/\<close>: its three calls are the
  fields of a parameter record \<open>jwt_lib\<close>. Times are nanoseconds (\<open>int\<close>); a call reads the clock once.
\<close>

subsection \<open>Role ranks\<close>

definition RoleUser :: int where "RoleUser = 0"
definition RoleAdmin :: int where "RoleAdmin = 1"
definition RoleCoach_id :: int where "RoleCoach_id = 2"
definition RoleCaptain_id :: int where "RoleCaptain_id = 3"

lemmas role_ids = RoleUser_def RoleAdmin_def RoleCoach_id_def RoleCaptain_id_def

definition RoleRank :: "int \<Rightarrow> int" where
  "RoleRank role =
     (if role = RoleAdmin then 100
      else if role = RoleCoach_id \<or> role = RoleCaptain_id then 50
      else if role = RoleUser then 0
      else -1)"

definition IsValid :: "int \<Rightarrow> bool" where
  "IsValid role \<longleftrightarrow> role = RoleUser \<or> role = RoleAdmin \<or> role = RoleCoach_id \<or> role = RoleCaptain_id"

definition IsStaff :: "int \<Rightarrow> bool" where
  "IsStaff role \<longleftrightarrow> RoleRank role \<ge> RoleRank RoleCoach_id"

definition IsMemberLike :: "int \<Rightarrow> bool" where
  "IsMemberLike role \<longleftrightarrow> role = RoleUser \<or> role = RoleCaptain_id \<or> role = RoleAdmin"

definition CanManageRole :: "int \<Rightarrow> int \<Rightarrow> bool" where
  "CanManageRole callerRole targetRole \<longleftrightarrow> RoleRank callerRole \<ge> RoleRank targetRole"

subsection \<open>Payloads and claims\<close>

record JwtPayload =
  UserID :: nat
  Username :: string
  Name :: string
  Email :: string
  RoleID :: int
  IsSiteAdmin :: bool
  OrgID :: nat
  OrgRole :: string
  Pm :: string
  ExpiresAt :: "int option"

definition zero_payload :: JwtPayload where
  "zero_payload = \<lparr>UserID = 0, Username = '''', Name = '''', Email = '''', RoleID = 0,
     IsSiteAdmin = False, OrgID = 0, OrgRole = '''', Pm = '''', ExpiresAt = None\<rparr>"

text \<open>A claim of a map token: the dynamic types \<^verbatim>\<open>asInt\<close> and \<^verbatim>\<open>asBool\<close> distinguish. Floats are the
  rationals they denote.\<close>

datatype claim =
    CFloat64 rat | CFloat32 rat | CInt int | CInt64 int
  | CNumber string | CString string | CBool bool | COther

fun asInt :: "claim option \<Rightarrow> int" where
  "asInt (Some (CFloat64 q)) = int64_of q"
| "asInt (Some (CFloat32 q)) = int64_of q"
| "asInt (Some (CInt i)) = i"
| "asInt (Some (CInt64 i)) = i"
| "asInt (Some (CNumber s)) = atoi_value s"
| "asInt (Some (CString s)) = atoi_value (trim_space s)"
| "asInt _ = 0"

fun asBool :: "claim option \<Rightarrow> bool" where
  "asBool (Some (CBool b)) = b"
| "asBool (Some (CFloat64 q)) = (q \<noteq> 0)"
| "asBool (Some (CInt i)) = (i \<noteq> 0)"
| "asBool (Some (CString s)) = (s = ''true'' \<or> s = ''1'')"
| "asBool _ = False"

text \<open>The comma-ok assertion \<^verbatim>\<open>x, _ := mc[k].(string)\<close> and the conversion \<^verbatim>\<open>uint(i)\<close>.\<close>

fun asString :: "claim option \<Rightarrow> string" where
  "asString (Some (CString s)) = s"
| "asString _ = ''''"

definition to_uint :: "int \<Rightarrow> nat" where
  "to_uint i = nat (i mod 2 ^ 64)"

subsection \<open>The payload cache\<close>

record jwtCacheEntry =
  ce_pd :: JwtPayload
  ce_exp :: int

type_synonym jwtCache = "(string \<times> jwtCacheEntry) list"

definition jwtCacheMaxEntries :: nat where "jwtCacheMaxEntries = 2048"
definition jwtCacheTTL :: int where "jwtCacheTTL = 60 * 1000000000"

definition cachedPayload :: "int \<Rightarrow> string \<Rightarrow> jwtCache \<Rightarrow> JwtPayload option \<times> jwtCache" where
  "cachedPayload now tok c = (case map_of c tok of
       None \<Rightarrow> (None, c)
     | Some e \<Rightarrow> if now > ce_exp e then (None, AList.delete tok c) else (Some (ce_pd e), c))"

definition storePayload :: "int \<Rightarrow> string \<Rightarrow> JwtPayload \<Rightarrow> jwtCache \<Rightarrow> jwtCache" where
  "storePayload now tok pd c =
     (let e0 = now + jwtCacheTTL;
          e = (case ExpiresAt pd of Some x \<Rightarrow> if x < e0 then x else e0 | None \<Rightarrow> e0)
      in if \<not> now < e then c
         else let c' = (if length c \<ge> jwtCacheMaxEntries then [] else c)
              in AList.update tok \<lparr>ce_pd = pd, ce_exp = e\<rparr> c')"

subsection \<open>Parsing\<close>

text \<open>The library: a strict parse (issuer and audience required), a loose parse and a parse into a
  claim map, each at a time; \<open>None\<close> stands for an error or an invalid token.\<close>

record jwt_lib =
  parse_strict :: "int \<Rightarrow> string \<Rightarrow> JwtPayload option"
  parse_loose :: "int \<Rightarrow> string \<Rightarrow> JwtPayload option"
  parse_map :: "int \<Rightarrow> string \<Rightarrow> (string \<rightharpoonup> claim) option"

definition parseJWTToken :: "string option \<Rightarrow> string" where
  "parseJWTToken header = (case header of
       None \<Rightarrow> ''''
     | Some authz \<Rightarrow> (let auths = str_fields authz in
         if length auths \<noteq> 2 \<or> \<not> equal_fold (auths ! 0) ''Bearer'' then '''' else auths ! 1))"

definition RawToken :: "string option \<Rightarrow> string" where
  "RawToken header = parseJWTToken header"

definition userIDFromMapToken :: "jwt_lib \<Rightarrow> int \<Rightarrow> string \<Rightarrow> nat" where
  "userIDFromMapToken L now tok = (case parse_map L now tok of
       None \<Rightarrow> 0
     | Some mc \<Rightarrow> to_uint (asInt (mc ''userId'')))"

definition payload_ok :: "JwtPayload option \<Rightarrow> bool" where
  "payload_ok r = (case r of None \<Rightarrow> False | Some pd \<Rightarrow> UserID pd \<noteq> 0)"

definition payload_of_map :: "nat \<Rightarrow> (string \<rightharpoonup> claim) option \<Rightarrow> JwtPayload" where
  "payload_of_map i r = (case r of
       None \<Rightarrow> zero_payload\<lparr>UserID := i\<rparr>
     | Some mc \<Rightarrow> zero_payload\<lparr>UserID := i,
         Username := asString (mc ''username''), Name := asString (mc ''name''),
         Email := asString (mc ''email''), OrgRole := asString (mc ''orgRole''),
         IsSiteAdmin := asBool (mc ''isSiteAdmin''), RoleID := asInt (mc ''roleId''),
         OrgID := to_uint (asInt (mc ''orgId'')), Pm := asString (mc ''pm'')\<rparr>)"

text \<open>The part of \<^verbatim>\<open>parsePayload\<close> after a cache miss, up to the call of \<^verbatim>\<open>storePayload\<close>.\<close>

definition freshPayload :: "jwt_lib \<Rightarrow> int \<Rightarrow> string \<Rightarrow> JwtPayload option" where
  "freshPayload L now tok =
     (let r = (if payload_ok (parse_strict L now tok) then parse_strict L now tok
               else if payload_ok (parse_loose L now tok) then parse_loose L now tok
               else let i = userIDFromMapToken L now tok in
                    if i > 0 then Some (payload_of_map i (parse_map L now tok)) else None)
      in map_option (\<lambda>pd. if \<not> IsSiteAdmin pd \<and> RoleID pd = RoleAdmin
                          then pd\<lparr>IsSiteAdmin := True\<rparr> else pd) r)"

definition parsePayload ::
  "jwt_lib \<Rightarrow> int \<Rightarrow> string option \<Rightarrow> jwtCache \<Rightarrow> JwtPayload option \<times> jwtCache" where
  "parsePayload L now header c =
     (let tok = parseJWTToken header in
      if tok = '''' then (None, c)
      else case cachedPayload now tok c of
        (Some pd, c') \<Rightarrow> (Some pd, c')
      | (None, c') \<Rightarrow> (case freshPayload L now tok of
            None \<Rightarrow> (None, c')
          | Some pd \<Rightarrow> (Some pd, storePayload now tok pd c')))"

subsection \<open>Verification functions\<close>

text \<open>Each Go function first calls \<^verbatim>\<open>parsePayload\<close>; here it takes the result, \<open>None\<close> being \<^verbatim>\<open>nil\<close>.\<close>

definition isOrgStaffRole :: "string \<Rightarrow> bool" where
  "isOrgStaffRole role \<longleftrightarrow> role = ''coach'' \<or> role = ''group_leader'' \<or> role = ''captain'' \<or> role = ''org_admin''"

definition VerifyMinRole :: "JwtPayload option \<Rightarrow> int \<Rightarrow> bool" where
  "VerifyMinRole pd minRole = (case pd of
       None \<Rightarrow> False
     | Some p \<Rightarrow>
        if IsSiteAdmin p then True
        else if isOrgStaffRole (OrgRole p) \<and> RoleRank minRole \<le> RoleRank RoleCoach_id then True
        else RoleRank (RoleID p) \<ge> RoleRank minRole)"

definition VerifySelfOrAbove :: "JwtPayload option \<Rightarrow> nat \<Rightarrow> bool" where
  "VerifySelfOrAbove pd target = (case pd of
       None \<Rightarrow> False
     | Some p \<Rightarrow> if IsSiteAdmin p \<or> RoleID p = RoleAdmin then True else UserID p = target)"

definition GetCurrentUserId :: "JwtPayload option \<Rightarrow> nat" where
  "GetCurrentUserId pd = (case pd of None \<Rightarrow> 0 | Some p \<Rightarrow> UserID p)"

definition VerifySiteAdmin :: "JwtPayload option \<Rightarrow> bool" where
  "VerifySiteAdmin pd = (case pd of None \<Rightarrow> False | Some p \<Rightarrow> IsSiteAdmin p \<or> RoleID p = RoleAdmin)"

definition PayloadHasPerm :: "JwtPayload option \<Rightarrow> string \<Rightarrow> bool" where
  "PayloadHasPerm pd code = (case pd of
       None \<Rightarrow> False
     | Some p \<Rightarrow>
        if IsSiteAdmin p \<or> RoleID p = RoleAdmin then True
        else (case MaskHas (Pm p) code of
            (has, True) \<Rightarrow> has
          | (_, False) \<Rightarrow> LegacyHas code (OrgRole p)))"

definition IsContentModerator :: "JwtPayload option \<Rightarrow> bool" where
  "IsContentModerator pd = (case pd of
       None \<Rightarrow> False | Some p \<Rightarrow> list_ex (\<lambda>code. PayloadHasPerm (Some p) code) ContentPerms)"

definition VerifyOrgAdmin :: "JwtPayload option \<Rightarrow> bool" where
  "VerifyOrgAdmin pd = (case pd of
       None \<Rightarrow> False
     | Some p \<Rightarrow> if IsSiteAdmin p \<or> RoleID p = RoleAdmin then True
                 else OrgRole p = ''org_admin'' \<and> OrgID p > 0)"

definition VerifyOrgAdminOf :: "JwtPayload option \<Rightarrow> nat \<Rightarrow> bool" where
  "VerifyOrgAdminOf pd orgID = (case pd of
       None \<Rightarrow> False
     | Some p \<Rightarrow> if IsSiteAdmin p \<or> RoleID p = RoleAdmin then True
                 else OrgRole p = ''org_admin'' \<and> OrgID p = orgID)"

definition VerifyCoach :: "JwtPayload option \<Rightarrow> bool" where
  "VerifyCoach pd = (case pd of None \<Rightarrow> False | Some p \<Rightarrow> RoleID p = RoleCoach_id)"

definition VerifyStaff :: "JwtPayload option \<Rightarrow> bool" where
  "VerifyStaff pd = (case pd of
       None \<Rightarrow> False
     | Some p \<Rightarrow> if IsSiteAdmin p \<or> isOrgStaffRole (OrgRole p) then True else IsStaff (RoleID p))"

definition VerifyCaptain :: "JwtPayload option \<Rightarrow> bool" where
  "VerifyCaptain pd = (case pd of
       None \<Rightarrow> False
     | Some p \<Rightarrow>
        if IsSiteAdmin p then True
        else if OrgRole p = ''captain'' \<or> OrgRole p = ''org_admin'' then True
        else RoleID p = RoleCaptain_id)"

definition HasOrgPerm :: "JwtPayload option \<Rightarrow> nat \<Rightarrow> string \<Rightarrow> bool" where
  "HasOrgPerm pd orgID code = (case pd of
       None \<Rightarrow> False
     | Some p \<Rightarrow>
        if IsSiteAdmin p \<or> RoleID p = RoleAdmin then True
        else if orgID = 0 \<or> OrgID p \<noteq> orgID then False
        else PayloadHasPerm (Some p) code)"

subsection \<open>Invariant of the cache\<close>

definition cache_entry_ok :: "jwtCacheEntry \<Rightarrow> bool" where
  "cache_entry_ok e = (case ExpiresAt (ce_pd e) of None \<Rightarrow> True | Some x \<Rightarrow> ce_exp e \<le> x)"

definition cache_inv :: "jwtCache \<Rightarrow> bool" where
  "cache_inv c \<longleftrightarrow> distinct (map fst c) \<and> length c \<le> jwtCacheMaxEntries
     \<and> (\<forall>(t, e)\<in>set c. cache_entry_ok e)"

lemma AList_update_length: "length (AList.update k v c) \<le> Suc (length c)"
  by (induction c) auto

lemma AList_update_set: "x \<in> set (AList.update k v c) \<Longrightarrow> x = (k, v) \<or> x \<in> set c"
  by (induction c) (auto split: if_splits)

lemma AList_delete_eq: "AList.delete k c = filter (\<lambda>(k', v). k \<noteq> k') c"
  by (simp add: AList.delete_eq)

lemma cachedPayload_inv: "cache_inv c \<Longrightarrow> cache_inv (snd (cachedPayload now tok c))"
proof -
  assume c: "cache_inv c"
  have "cache_inv (AList.delete tok c)"
    using c by (auto simp: cache_inv_def AList_delete_eq distinct_map_filter
        intro: order_trans[OF length_filter_le])
  with c show ?thesis by (auto simp: cachedPayload_def split: option.splits)
qed

lemma storePayload_inv:
  assumes "cache_inv c"
  shows "cache_inv (storePayload now tok pd c)"
proof -
  define e where "e = (case ExpiresAt pd of
     Some x \<Rightarrow> if x < now + jwtCacheTTL then x else now + jwtCacheTTL | None \<Rightarrow> now + jwtCacheTTL)"
  define c' where "c' = (if length c \<ge> jwtCacheMaxEntries then [] else c)"
  have "cache_entry_ok \<lparr>ce_pd = pd, ce_exp = e\<rparr>"
    by (auto simp: cache_entry_ok_def e_def split: option.splits)
  moreover have "length c' < jwtCacheMaxEntries" by (auto simp: c'_def jwtCacheMaxEntries_def)
  moreover have "cache_inv c'" using assms by (auto simp: c'_def cache_inv_def)
  ultimately have "cache_inv (AList.update tok \<lparr>ce_pd = pd, ce_exp = e\<rparr> c')"
    using AList_update_length[of tok _ c'] distinct_update[of c' tok]
    by (fastforce simp: cache_inv_def dest: AList_update_set intro: le_trans)
  then show ?thesis
    using assms by (simp add: storePayload_def Let_def e_def[symmetric] c'_def[symmetric])
qed

lemma parsePayload_inv: "cache_inv c \<Longrightarrow> cache_inv (snd (parsePayload L now h c))"
  using cachedPayload_inv[of c now "parseJWTToken h"]
  by (auto simp: parsePayload_def Let_def split: option.splits prod.splits intro: storePayload_inv)

text \<open>Every entry was produced by a parse at one of the given times, lives at most the cache time
  after it, and never beyond the expiry its payload records.\<close>

definition entry_from :: "jwt_lib \<Rightarrow> int set \<Rightarrow> string \<Rightarrow> jwtCacheEntry \<Rightarrow> bool" where
  "entry_from L T tok e \<longleftrightarrow> cache_entry_ok e
     \<and> (\<exists>t\<in>T. freshPayload L t tok = Some (ce_pd e) \<and> ce_exp e \<le> t + jwtCacheTTL)"

definition cache_from :: "jwt_lib \<Rightarrow> int set \<Rightarrow> jwtCache \<Rightarrow> bool" where
  "cache_from L T c \<longleftrightarrow> (\<forall>(t, e)\<in>set c. entry_from L T t e)"

lemma cache_from_mono: "cache_from L T c \<Longrightarrow> T \<subseteq> T' \<Longrightarrow> cache_from L T' c"
  by (fastforce simp: cache_from_def entry_from_def)

lemma cachedPayload_subset: "set (snd (cachedPayload now tok c)) \<subseteq> set c"
  by (auto simp: cachedPayload_def AList_delete_eq split: option.splits)

lemma cache_from_subset: "cache_from L T c \<Longrightarrow> set c' \<subseteq> set c \<Longrightarrow> cache_from L T c'"
  by (auto simp: cache_from_def)

lemma storePayload_from:
  assumes "cache_from L T c" and "freshPayload L now tok = Some pd" and "now \<in> T"
  shows "cache_from L T (storePayload now tok pd c)"
proof -
  define e where "e = (case ExpiresAt pd of
     Some x \<Rightarrow> if x < now + jwtCacheTTL then x else now + jwtCacheTTL | None \<Rightarrow> now + jwtCacheTTL)"
  define c' where "c' = (if length c \<ge> jwtCacheMaxEntries then [] else c)"
  have "entry_from L T tok \<lparr>ce_pd = pd, ce_exp = e\<rparr>"
    using assms by (auto simp: entry_from_def cache_entry_ok_def e_def split: option.splits)
  moreover have "cache_from L T c'" using assms by (auto simp: c'_def cache_from_def)
  ultimately have "cache_from L T (AList.update tok \<lparr>ce_pd = pd, ce_exp = e\<rparr> c')"
    by (auto simp: cache_from_def dest!: AList_update_set)
  then show ?thesis
    using assms by (simp add: storePayload_def Let_def e_def[symmetric] c'_def[symmetric])
qed

lemma parsePayload_from:
  assumes "cache_from L T c"
  shows "cache_from L (insert now T) (snd (parsePayload L now h c))"
proof -
  let ?tok = "parseJWTToken h"
  have c: "cache_from L (insert now T) c" using assms by (rule cache_from_mono) blast
  obtain r c' where cp: "cachedPayload now ?tok c = (r, c')" by fastforce
  then have c': "cache_from L (insert now T) c'"
    using cachedPayload_subset[of now ?tok c] cache_from_subset[OF c] by simp
  show ?thesis
    using c c' cp storePayload_from[OF c', of now ?tok]
    by (auto simp: parsePayload_def Let_def split: option.splits)
qed

text \<open>The cache after a sequence of requests, each a time and an authorisation header.\<close>

definition parse_all :: "jwt_lib \<Rightarrow> (int \<times> string option) list \<Rightarrow> jwtCache" where
  "parse_all L reqs = fold (\<lambda>(now, h) c. snd (parsePayload L now h c)) reqs []"

lemma fold_parse_from:
  "cache_from L T c \<Longrightarrow>
   cache_from L (T \<union> fst ` set reqs) (fold (\<lambda>(now, h) c. snd (parsePayload L now h c)) reqs c)"
proof (induction reqs arbitrary: T c)
  case (Cons r reqs)
  obtain now h where r: "r = (now, h)" by fastforce
  have "T \<union> fst ` set (r # reqs) = insert now T \<union> fst ` set reqs" using r by auto
  with Cons.IH[OF parsePayload_from[OF Cons.prems, of now h]] r show ?case by simp
qed simp

lemma parse_all_from: "cache_from L (fst ` set reqs) (parse_all L reqs)"
  using fold_parse_from[of L "{}" "[]" reqs] by (simp add: parse_all_def cache_from_def)

text \<open>C34: Whatever requests came before, the payload served for a request is one the library
  accepted for the same token: at this very moment, or at an earlier request at most 60 seconds ago,
  and then never after the expiry recorded in the payload.\<close>

theorem served_payload_provenance:
  assumes "fst (parsePayload L now h (parse_all L reqs)) = Some pd"
  shows "\<exists>t. freshPayload L t (parseJWTToken h) = Some pd
     \<and> (t = now \<or> t \<in> fst ` set reqs \<and> now \<le> t + jwtCacheTTL
         \<and> (\<forall>x. ExpiresAt pd = Some x \<longrightarrow> now \<le> x))"
proof -
  let ?tok = "parseJWTToken h" and ?c = "parse_all L reqs"
  show ?thesis
  proof (cases "fst (cachedPayload now ?tok ?c)")
    case None
    with assms show ?thesis
      by (auto simp: parsePayload_def Let_def split: option.splits prod.splits if_splits)
  next
    case (Some q)
    with assms have q: "q = pd"
      by (auto simp: parsePayload_def Let_def split: option.splits prod.splits if_splits)
    from Some obtain e where e: "map_of ?c ?tok = Some e" "ce_pd e = pd" "now \<le> ce_exp e"
      using q by (auto simp: cachedPayload_def split: option.splits if_splits)
    have "entry_from L (fst ` set reqs) ?tok e"
      using parse_all_from[of L reqs] map_of_SomeD[OF e(1)] by (auto simp: cache_from_def)
    then obtain t where "t \<in> fst ` set reqs" "freshPayload L t ?tok = Some pd"
      "ce_exp e \<le> t + jwtCacheTTL" "cache_entry_ok e"
      using e by (auto simp: entry_from_def)
    with e show ?thesis by (intro exI[of _ t]) (auto simp: cache_entry_ok_def)
  qed
qed

definition demo_lib :: jwt_lib where
  "demo_lib = \<lparr>parse_strict = (\<lambda>now tok. if tok = ''T'' \<and> now < 5000000000
       then Some (zero_payload\<lparr>UserID := 7, ExpiresAt := Some 5000000000\<rparr>) else None),
     parse_loose = (\<lambda>_ _. None),
     parse_map = (\<lambda>now tok. if tok = ''M'' \<and> now < 1000000000
       then Some [''userId'' \<mapsto> CFloat64 7] else None)\<rparr>"

lemma demo_header: "parseJWTToken (Some ''Bearer T'') = ''T''" "parseJWTToken (Some ''Bearer M'') = ''M''"
  by (simp_all add: parseJWTToken_def str_fields.simps is_space_def equal_fold_def)

theorem served_payload_provenance_witness:
  "\<exists>t. freshPayload demo_lib t ''T'' = Some (zero_payload\<lparr>UserID := 7, ExpiresAt := Some 5000000000\<rparr>)
     \<and> (t = 4000000000 \<or> t \<in> fst ` set [(0, Some ''Bearer T'')] \<and> 4000000000 \<le> t + jwtCacheTTL
         \<and> (\<forall>x. ExpiresAt (zero_payload\<lparr>UserID := 7, ExpiresAt := Some 5000000000\<rparr>) = Some x
              \<longrightarrow> 4000000000 \<le> x))"
proof -
  have "fst (parsePayload demo_lib 4000000000 (Some ''Bearer T'')
      (parse_all demo_lib [(0, Some ''Bearer T'')]))
    = Some (zero_payload\<lparr>UserID := 7, ExpiresAt := Some 5000000000\<rparr>)"
    by (simp add: parsePayload_def parse_all_def demo_header cachedPayload_def storePayload_def
        freshPayload_def payload_ok_def demo_lib_def zero_payload_def jwtCacheTTL_def
        jwtCacheMaxEntries_def RoleAdmin_def)
  from served_payload_provenance[OF this] show ?thesis by (simp only: demo_header)
qed

text \<open>The cache never holds more than 2048 entries, has one entry per token, and no entry outlives
  the expiry of its payload; every request keeps this.\<close>

theorem cache_inv_parse_all: "cache_inv (parse_all L reqs)"
proof -
  have "cache_inv (fold (\<lambda>(now, h) c. snd (parsePayload L now h c)) reqs c)" if "cache_inv c" for c
    using that by (induction reqs arbitrary: c) (auto intro: parsePayload_inv)
  moreover have "cache_inv []" by (simp add: cache_inv_def)
  ultimately show ?thesis by (simp add: parse_all_def)
qed

text \<open>The claim-map fallback builds a payload without the registered claims, so the cache does not
  know its expiry: a token that expires one second after the first request is still served
  thirty seconds later.\<close>

lemma map_token_served_after_expiry:
  "fst (parsePayload demo_lib 30000000000 (Some ''Bearer M'')
      (parse_all demo_lib [(0, Some ''Bearer M'')])) \<noteq> None
   \<and> freshPayload demo_lib 30000000000 ''M'' = None"
  by (simp add: parsePayload_def parse_all_def demo_header cachedPayload_def storePayload_def
      freshPayload_def payload_ok_def demo_lib_def zero_payload_def jwtCacheTTL_def payload_of_map_def
      jwtCacheMaxEntries_def RoleAdmin_def userIDFromMapToken_def to_uint_def int64_of_def int64_min_def int64_max_def trunc_rat_def)

subsection \<open>Permissions of a payload\<close>

text \<open>For a token whose mask was minted from a list of codes, a permission check succeeds exactly
  for site administrators and for the registered codes of the list; the organisation role
  of the token plays no part, so a legacy role never widens a minted mask.\<close>

theorem minted_token_perm:
  "PayloadHasPerm (Some (p\<lparr>Pm := Encode codes\<rparr>)) c
     \<longleftrightarrow> VerifySiteAdmin (Some p) \<or> Valid c \<and> c \<in> set codes"
  by (simp add: PayloadHasPerm_def VerifySiteAdmin_def mask_has_encode)

lemma LegacyHas_org:
  assumes "role \<noteq> RoleSiteAdmin"
  shows "LegacyHas c role \<Longrightarrow> ScopeOf c = ScopeOrg"
proof -
  assume l: "LegacyHas c role"
  then have "systemRoleByCode role \<noteq> None" by (auto simp: LegacyHas_def TemplateHas_def split: if_splits option.splits)
  then have "role \<in> r_code ` set systemRoles"
    unfolding systemRoleByCode_def using fold_upd_None[of role r_code systemRoles "\<lambda>r. r"] by metis
  then have "role \<in> {RoleOrgAdmin, RoleCoach, RoleGroupLeader, RoleCaptain, RoleMember}"
    using assms by (auto simp: systemRoles_def)
  moreover have "c \<in> {p. TemplateHas role p}" using l by (auto simp: LegacyHas_def split: if_splits)
  moreover have "{p. TemplateHas r p} \<subseteq> set (CodesByScope ScopeOrg)"
    if "r \<in> {RoleOrgAdmin, RoleCoach, RoleGroupLeader, RoleCaptain, RoleMember}" for r
    using that perms_strict unfolding insert_iff empty_iff
    by (elim disjE) (simp_all only: TemplateHas_sets, blast+)
  ultimately have "c \<in> set (CodesByScope ScopeOrg)" by blast
  then show ?thesis by (simp add: CodesByScope_org)
qed

text \<open>A token without a mask (an old token) of an ordinary member of an organisation, whatever
  its organisation role other than the reserved site administrator code, never passes a check for
  a permission of site scope.\<close>

theorem legacy_token_no_site_perm:
  assumes "\<not> VerifySiteAdmin (Some p)" and "Pm p = ''''" and "OrgRole p \<noteq> RoleSiteAdmin"
    and "ScopeOf c = ScopeSite"
  shows "\<not> PayloadHasPerm (Some p) c"
proof
  assume "PayloadHasPerm (Some p) c"
  moreover have "MaskHas (Pm p) c = (False, False)"
    using assms(2,4) by (auto simp: MaskHas_def ScopeOf_def split: option.splits)
  ultimately have "LegacyHas c (OrgRole p)"
    using assms(1) by (auto simp: PayloadHasPerm_def VerifySiteAdmin_def split: if_splits)
  then show False using LegacyHas_org[OF assms(3)] assms(4) by simp
qed

theorem legacy_token_no_site_perm_witness:
  "\<not> PayloadHasPerm (Some (zero_payload\<lparr>UserID := 3, OrgRole := RoleOrgAdmin\<rparr>)) ''site.user.delete''"
proof (rule legacy_token_no_site_perm)
  show "ScopeOf ''site.user.delete'' = ScopeSite"
    by (simp add: ScopeOf_def byCode_def registry_def)
qed (simp_all add: VerifySiteAdmin_def zero_payload_def RoleAdmin_def)

end
