(* ===== verification/BlogAccess.thy ===== *)
theory BlogAccess
  imports Prelude
begin

text \<open>
  The pure policies of the user service: who may read or manage a blog article and which
  organisations an article is shared with (\<^verbatim>\<open>app/user/internal/biz/blogaccess/access.go\<close>, with
  \<^verbatim>\<open>AutoSurface\<close> of \<^verbatim>\<open>app/common/blogtext/summary.go\<close>), and when background work for a user is
  suspended (\<^verbatim>\<open>app/user/internal/biz/dormancy/dormancy.go\<close>).
\<close>

subsection \<open>Visibility\<close>

abbreviation "VisibilityPublic \<equiv> ''public''"
abbreviation "VisibilityPrivate \<equiv> ''private''"
abbreviation "VisibilityPassword \<equiv> ''password''"

definition NormalizeVisibility :: "string \<Rightarrow> string" where
  "NormalizeVisibility v =
     (let s = to_lower (trim_space v) in
      if s = '''' then VisibilityPublic
      else if s = ''unlisted'' \<or> s = ''hidden'' then VisibilityPrivate
      else s)"

definition ValidVisibility :: "string \<Rightarrow> bool" where
  "ValidVisibility v =
     (let n = NormalizeVisibility v
      in n = VisibilityPublic \<or> n = VisibilityPrivate \<or> n = VisibilityPassword)"

record ArticleAccess =
  Visibility :: string
  OwnerID :: nat
  HasPassword :: bool

record Decision =
  CanSeeMeta :: bool
  CanSeeBody :: bool
  RequiresPassword :: bool
  Reason :: string

definition Evaluate :: "ArticleAccess \<Rightarrow> nat \<Rightarrow> bool \<Rightarrow> Decision" where
  "Evaluate a viewerID passwordOK =
     (let vis = NormalizeVisibility (Visibility a);
          isOwner = (OwnerID a \<noteq> 0 \<and> viewerID = OwnerID a);
          open_all = \<lparr>CanSeeMeta = True, CanSeeBody = True, RequiresPassword = False, Reason = ''''\<rparr>
      in if isOwner then open_all
         else if vis = VisibilityPublic then open_all
         else if vis = VisibilityPrivate then
           \<lparr>CanSeeMeta = False, CanSeeBody = False, RequiresPassword = False, Reason = ''private''\<rparr>
         else if vis = VisibilityPassword then
           (if passwordOK then open_all
            else \<lparr>CanSeeMeta = True, CanSeeBody = False, RequiresPassword = True,
                  Reason = ''password_required''\<rparr>)
         else \<lparr>CanSeeMeta = False, CanSeeBody = False, RequiresPassword = False,
                Reason = ''unknown_visibility''\<rparr>)"

definition CanManage :: "nat \<Rightarrow> nat \<Rightarrow> bool \<Rightarrow> bool" where
  "CanManage ownerID viewerID isSiteAdmin =
     (if viewerID = 0 then False
      else if ownerID \<noteq> 0 \<and> viewerID = ownerID then True
      else isSiteAdmin)"

definition AutoSurface :: "string \<Rightarrow> bool" where
  "AutoSurface visibility =
     (let v = to_lower (trim_space visibility);
          v' = (if v = '''' then VisibilityPublic else v)
      in v' = VisibilityPublic)"

definition ThemeEnabled :: "bool \<Rightarrow> bool option \<Rightarrow> bool" where
  "ThemeEnabled globalAll perUser = (case perUser of Some b \<Rightarrow> b | None \<Rightarrow> globalAll)"

subsection \<open>Organisations an article is synchronised to\<close>

text \<open>The loop over the selected ids keeps the ids seen, the output and whether a private
  organisation occurred; \<open>isSystemOrg\<close> is \<open>None\<close> where Go passes a nil function.\<close>

definition expand_step ::
  "nat \<Rightarrow> (nat \<Rightarrow> bool) option \<Rightarrow> nat \<Rightarrow> nat list \<times> nat list \<times> bool \<Rightarrow> nat list \<times> nat list \<times> bool" where
  "expand_step publicOrgID isSystemOrg i = (\<lambda>(seen, out, hasPrivate).
     if i = 0 then (seen, out, hasPrivate)
     else if i \<in> set seen then (seen, out, hasPrivate)
     else if publicOrgID \<noteq> 0 \<and> i = publicOrgID then (i # seen, out @ [i], hasPrivate)
     else (i # seen, out @ [i],
           hasPrivate \<or> (case isSystemOrg of None \<Rightarrow> True | Some f \<Rightarrow> \<not> f i)))"

definition ExpandSyncOrgIDs :: "nat list \<Rightarrow> nat \<Rightarrow> (nat \<Rightarrow> bool) option \<Rightarrow> nat list" where
  "ExpandSyncOrgIDs selected publicOrgID isSystemOrg =
     (if selected = [] then []
      else case fold (expand_step publicOrgID isSystemOrg) selected ([], [], False) of
        (seen, out, hasPrivate) \<Rightarrow>
          if hasPrivate \<and> publicOrgID \<noteq> 0 \<and> publicOrgID \<notin> set seen
          then publicOrgID # out else out)"

definition private_org :: "nat \<Rightarrow> (nat \<Rightarrow> bool) option \<Rightarrow> nat \<Rightarrow> bool" where
  "private_org publicOrgID isSystemOrg i \<longleftrightarrow> i \<noteq> 0 \<and> \<not> (publicOrgID \<noteq> 0 \<and> i = publicOrgID)
     \<and> (case isSystemOrg of None \<Rightarrow> True | Some f \<Rightarrow> \<not> f i)"

lemma expand_fold:
  assumes "fold (expand_step pub sys) xs (seen, out, hp) = (seen', out', hp')"
    and "set seen = set out" "distinct out" "0 \<notin> set out"
  shows "set seen' = set out' \<and> distinct out' \<and> set out' = set out \<union> {i \<in> set xs. i \<noteq> 0}
     \<and> (hp' \<longleftrightarrow> hp \<or> (\<exists>i\<in>set xs. i \<notin> set out \<and> private_org pub sys i))"
  using assms
proof (induction xs arbitrary: seen out hp)
  case (Cons x xs)
  obtain s1 o1 h1 where st: "expand_step pub sys x (seen, out, hp) = (s1, o1, h1)" by (metis prod_cases3)
  have rest: "fold (expand_step pub sys) xs (s1, o1, h1) = (seen', out', hp')"
    using Cons.prems(1) st by simp
  show ?case
  proof (cases "x = 0 \<or> x \<in> set out")
    case True
    then have "s1 = seen" "o1 = out" "h1 = hp"
      using st Cons.prems(2) by (auto simp: expand_step_def split: if_splits)
    then show ?thesis using Cons.IH[OF rest] Cons.prems True by (auto simp: private_org_def)
  next
    case False
    then have s: "s1 = x # seen" "o1 = out @ [x]" "h1 \<longleftrightarrow> hp \<or> private_org pub sys x"
      using st Cons.prems(2) by (auto simp: expand_step_def private_org_def split: if_splits)
    have *: "set s1 = set o1" "distinct o1" "0 \<notin> set o1" using s Cons.prems False by auto
    show ?thesis using Cons.IH[OF rest *] s False by auto
  qed
qed auto

text \<open>What an article is synchronised to: no organisation twice, never the id 0, exactly the
  selected ids, plus the public domain when it exists and some selected organisation is private.\<close>

theorem expand_sync_exact:
  "distinct (ExpandSyncOrgIDs sel pub sys)
   \<and> set (ExpandSyncOrgIDs sel pub sys) = {i \<in> set sel. i \<noteq> 0}
       \<union> (if pub \<noteq> 0 \<and> (\<exists>i\<in>set sel. private_org pub sys i) then {pub} else {})"
proof (cases "sel = []")
  case False
  obtain seen out hp where f: "fold (expand_step pub sys) sel ([], [], False) = (seen, out, hp)"
    by (metis prod_cases3)
  show ?thesis using expand_fold[OF f] f False by (auto simp: ExpandSyncOrgIDs_def)
qed (simp add: ExpandSyncOrgIDs_def)

text \<open>An article surfaces automatically on the discovery pages exactly when its body is open to
  a visitor who is not logged in and has no password; private, hidden, password and unknown
  visibilities never surface.\<close>

theorem auto_surface_iff_open:
  "AutoSurface (Visibility a) \<longleftrightarrow> CanSeeBody (Evaluate a 0 False)"
  by (auto simp: AutoSurface_def Evaluate_def NormalizeVisibility_def Let_def)

text \<open>The body of an article is readable exactly for its owner, for anyone when it is public,
  and with a verified password when it is protected by one; and a body that can be read
  always comes with its meta data and without a password request.\<close>

theorem evaluate_body_iff:
  "(CanSeeBody (Evaluate a viewer pw) \<longleftrightarrow>
     OwnerID a \<noteq> 0 \<and> viewer = OwnerID a
     \<or> NormalizeVisibility (Visibility a) = VisibilityPublic
     \<or> NormalizeVisibility (Visibility a) = VisibilityPassword \<and> pw)
   \<and> CanSeeBody (Evaluate a viewer pw) \<le> CanSeeMeta (Evaluate a viewer pw)
   \<and> \<not> (CanSeeBody (Evaluate a viewer pw) \<and> RequiresPassword (Evaluate a viewer pw))"
  by (auto simp: Evaluate_def Let_def)

subsection \<open>Dormancy\<close>

definition DefaultInactiveDays :: int where "DefaultInactiveDays = 14"
definition MinInactiveDays :: int where "MinInactiveDays = 1"
definition MaxInactiveDays :: int where "MaxInactiveDays = 365"

lemmas inactive_defs = DefaultInactiveDays_def MinInactiveDays_def MaxInactiveDays_def

definition ClampInactiveDays :: "int \<Rightarrow> int" where
  "ClampInactiveDays v =
     (if v \<le> 0 then DefaultInactiveDays
      else if v < MinInactiveDays then MinInactiveDays
      else if v > MaxInactiveDays then MaxInactiveDays
      else v)"

record ExemptFlags =
  ef_IsSiteAdmin :: bool
  ef_SyncExempt :: bool
  ef_IsOrgStaff :: bool
  ef_ForceSync :: bool
  ef_PaidPlan :: bool

definition IsExempt :: "ExemptFlags \<Rightarrow> bool" where
  "IsExempt f \<longleftrightarrow> ef_IsSiteAdmin f \<or> ef_SyncExempt f \<or> ef_IsOrgStaff f \<or> ef_ForceSync f \<or> ef_PaidPlan f"

definition IsInactiveByTime :: "int option \<Rightarrow> int \<Rightarrow> int \<Rightarrow> bool" where
  "IsInactiveByTime lastLogin inactiveDays now =
     (let days = ClampInactiveDays inactiveDays in
      case lastLogin of
        None \<Rightarrow> True
      | Some t \<Rightarrow> if is_zero_time t then True
                  else (let cutoff = now - days * 24 * hour_ns in t < cutoff))"

definition IsDormant :: "int option \<Rightarrow> int \<Rightarrow> ExemptFlags \<Rightarrow> int \<Rightarrow> bool list \<Rightarrow> bool" where
  "IsDormant lastLogin inactiveDays f now forceOrDisabled =
     (if list_ex (\<lambda>b. b) forceOrDisabled then True
      else if IsExempt f then False
      else IsInactiveByTime lastLogin inactiveDays now)"

definition IsPaidPlan :: "string \<Rightarrow> bool" where
  "IsPaidPlan plan \<longleftrightarrow> plan = ''team'' \<or> plan = ''pro''"

lemma ClampInactiveDays_range: "1 \<le> ClampInactiveDays v \<and> ClampInactiveDays v \<le> 365"
  by (auto simp: ClampInactiveDays_def inactive_defs)

text \<open>A user who logged in within the last 24 hours is never suspended for inactivity, whatever
  the configured threshold; only the explicit force or disable flags suspend such a user.\<close>

theorem recent_login_not_dormant:
  assumes "lastLogin = Some t" and "\<not> is_zero_time t" and "now - 24 * hour_ns \<le> t"
  shows "IsDormant lastLogin days f now force \<longleftrightarrow> True \<in> set force"
proof -
  have "now - ClampInactiveDays days * 24 * hour_ns \<le> t"
    using assms(3) ClampInactiveDays_range[of days] by linarith
  then show ?thesis
    using assms by (auto simp: IsDormant_def IsInactiveByTime_def Let_def list_ex_iff)
qed

theorem recent_login_not_dormant_witness:
  "IsDormant (Some (100 * hour_ns)) 1 \<lparr>ef_IsSiteAdmin = False, ef_SyncExempt = False,
     ef_IsOrgStaff = False, ef_ForceSync = False, ef_PaidPlan = False\<rparr> (120 * hour_ns) [False]
   \<longleftrightarrow> True \<in> set [False]"
  by (rule recent_login_not_dormant[OF refl]) (simp_all add: is_zero_time_def zero_time_def)

end
