(* ===== verification/SubmitModel.thy ===== *)
theory SubmitModel
  imports Prelude
begin

text \<open>
  The rows of the table \<^verbatim>\<open>submit_logs\<close> and the rules that classify them
  (\<^verbatim>\<open>app/core_data/internal/data/model/submit_log.go\<close>), and the key under which accepted problems are
  deduplicated (\<^verbatim>\<open>user_ac_problem.go\<close>). The Chinese status literals are their UTF-8 bytes.
\<close>

subsection \<open>A submission\<close>

text \<open>\<open>sl_off\<close> is the location of the row's \<^verbatim>\<open>time.Time\<close>: its offset from UTC at that instant. A crawler sets it; a row read from
  the database has that of the session.\<close>

record SubmitLog =
  sl_id :: nat
  sl_platform :: string
  sl_user :: int
  sl_submit_id :: string
  sl_contest :: string
  sl_problem :: string
  sl_lang :: string
  sl_status :: string
  sl_isac :: bool
  sl_time :: int
  sl_problem_id :: "nat option"
  sl_external :: string
  sl_off :: int

subsection \<open>Status texts\<close>

definition zh_zhengque :: string where
  "zh_zhengque = [CHR 0xE6, CHR 0xAD, CHR 0xA3, CHR 0xE7, CHR 0xA1, CHR 0xAE]"
definition zh_daan_zhengque :: string where
  "zh_daan_zhengque = [CHR 0xE7, CHR 0xAD, CHR 0x94, CHR 0xE6, CHR 0xA1, CHR 0x88,
     CHR 0xE6, CHR 0xAD, CHR 0xA3, CHR 0xE7, CHR 0xA1, CHR 0xAE]"
definition zh_zhengzai_pingce :: string where
  "zh_zhengzai_pingce = [CHR 0xE6, CHR 0xAD, CHR 0xA3, CHR 0xE5, CHR 0x9C, CHR 0xA8,
     CHR 0xE8, CHR 0xAF, CHR 0x84, CHR 0xE6, CHR 0xB5, CHR 0x8B]"
definition zh_pingcezhong :: string where
  "zh_pingcezhong = [CHR 0xE8, CHR 0xAF, CHR 0x84, CHR 0xE6, CHR 0xB5, CHR 0x8B,
     CHR 0xE4, CHR 0xB8, CHR 0xAD]"
definition zh_dengdai_pingce :: string where
  "zh_dengdai_pingce = [CHR 0xE7, CHR 0xAD, CHR 0x89, CHR 0xE5, CHR 0xBE, CHR 0x85,
     CHR 0xE8, CHR 0xAF, CHR 0x84, CHR 0xE6, CHR 0xB5, CHR 0x8B]"
definition zh_paiduizhong :: string where
  "zh_paiduizhong = [CHR 0xE6, CHR 0x8E, CHR 0x92, CHR 0xE9, CHR 0x98, CHR 0x9F,
     CHR 0xE4, CHR 0xB8, CHR 0xAD]"

lemmas zh_defs = zh_zhengque_def zh_daan_zhengque_def zh_zhengzai_pingce_def zh_pingcezhong_def
  zh_dengdai_pingce_def zh_paiduizhong_def

definition acceptedStatusNorm :: "string set" where
  "acceptedStatusNorm = {''AC'', ''OK'', ''ACCEPTED'', zh_zhengque, zh_daan_zhengque}"

definition IsAcceptedStatus :: "string \<Rightarrow> bool" where
  "IsAcceptedStatus status =
     (let s = to_upper (trim_space status)
      in if s \<in> acceptedStatusNorm then True else trim_space status \<in> acceptedStatusNorm)"

definition IsPendingSubmitStatus :: "string \<Rightarrow> bool" where
  "IsPendingSubmitStatus status =
     (let s = trim_space status in
      if s = '''' then True
      else if s \<in> {zh_zhengzai_pingce, zh_pingcezhong, zh_dengdai_pingce, zh_paiduizhong} then True
      else to_upper s \<in> {''TESTING'', ''PENDING'', ''JUDGING'', ''IN_QUEUE'', ''IN QUEUE'',
             ''WAITING'', ''WJ'', ''QUEUE''})"

definition FillIsAC :: "SubmitLog \<Rightarrow> SubmitLog" where
  "FillIsAC s = s\<lparr>sl_isac := IsAcceptedStatus (sl_status s)\<rparr>"

definition FillIsACBatch :: "SubmitLog list \<Rightarrow> SubmitLog list" where
  "FillIsACBatch logs = map FillIsAC logs"

subsection \<open>Synthetic submissions\<close>

definition IsUOJSyntheticAC :: "string \<Rightarrow> string \<Rightarrow> bool" where
  "IsUOJSyntheticAC platform submitID \<longleftrightarrow> platform = ''UOJ'' \<and> has_prefix submitID ''uoj-ac-''"

definition IsLeetCodeNonSubmitCountID :: "string \<Rightarrow> bool" where
  "IsLeetCodeNonSubmitCountID submitID \<longleftrightarrow>
     has_prefix submitID ''lc-ac-'' \<or> has_prefix submitID ''lc-prob-''"

definition CountsTowardSubmitStat :: "string \<Rightarrow> string \<Rightarrow> bool" where
  "CountsTowardSubmitStat platform submitID =
     (if IsUOJSyntheticAC platform submitID then False
      else if platform \<noteq> ''LeetCode'' then True
      else \<not> IsLeetCodeNonSubmitCountID submitID)"

definition CountsTowardDailyAC :: "string \<Rightarrow> string \<Rightarrow> bool" where
  "CountsTowardDailyAC platform submitID =
     (if platform = ''LeetCode'' \<and> has_prefix submitID ''lc-ac-'' then False else True)"

definition IsLeetCodeSyntheticSubmit :: "string \<Rightarrow> string \<Rightarrow> bool" where
  "IsLeetCodeSyntheticSubmit platform submitID =
     (if platform \<noteq> ''LeetCode'' then False
      else if has_prefix submitID ''lc-prob-'' then False
      else True)"

definition IsSyntheticSubmitForFeed :: "string \<Rightarrow> string \<Rightarrow> bool" where
  "IsSyntheticSubmitForFeed platform submitID =
     (IsLeetCodeSyntheticSubmit platform submitID \<or> IsUOJSyntheticAC platform submitID)"

text \<open>The SQL conditions that mirror the two classifiers above.\<close>

definition SQLExcludeLeetCodeNonSubmit :: "SubmitLog \<Rightarrow> bool" where
  "SQLExcludeLeetCodeNonSubmit r \<longleftrightarrow>
     \<not> (sl_platform r = ''LeetCode''
          \<and> (has_prefix (sl_submit_id r) ''lc-ac-'' \<or> has_prefix (sl_submit_id r) ''lc-prob-'')
        \<or> sl_platform r = ''UOJ'' \<and> has_prefix (sl_submit_id r) ''uoj-ac-'')"

definition SQLExcludeLeetCodeOfficialACSubmit :: "SubmitLog \<Rightarrow> bool" where
  "SQLExcludeLeetCodeOfficialACSubmit r \<longleftrightarrow>
     \<not> (sl_platform r = ''LeetCode'' \<and> has_prefix (sl_submit_id r) ''lc-ac-'')"

definition SQLExcludeLeetCodeOfficialACKey :: "string \<Rightarrow> bool" where
  "SQLExcludeLeetCodeOfficialACKey k \<longleftrightarrow> \<not> has_prefix k ''e:LeetCode:ac-''"

subsection \<open>Identifiers\<close>

definition knownPlatformSubmitPrefixes :: "string list" where
  "knownPlatformSubmitPrefixes =
     [''LuoGu:'', ''Luogu:'', ''LUOGU:'',
      ''CodeForces:'', ''Codeforces:'', ''CODEFORCES:'', ''CF:'',
      ''AtCoder:'', ''Atcoder:'', ''ATCODER:'',
      ''NowCoder:'', ''Nowcoder:'', ''NOWCODER:'',
      ''LeetCode:'', ''Leetcode:'', ''LEETCODE:'',
      ''QOJ:'', ''Qoj:'',
      ''LOJ:'', ''Loj:'',
      ''UOJ:'', ''Uoj:'']"

text \<open>The loops over candidate prefixes: the rest after the first one that matches.\<close>

fun strip_first :: "string list \<Rightarrow> string \<Rightarrow> string option" where
  "strip_first [] sid = None"
| "strip_first (p # ps) sid =
     (if has_prefix sid p then Some (trim_space (trim_prefix sid p)) else strip_first ps sid)"

definition NormalizeSubmitID :: "string \<Rightarrow> string \<Rightarrow> string" where
  "NormalizeSubmitID platform submitID =
     (let sid = trim_space submitID in
      if sid = '''' then sid
      else if platform = ''LeetCode'' \<and> has_prefix sid ''lc-'' then sid
      else if platform = ''LOJ'' \<and> has_prefix sid ''loj-'' then sid
      else if platform = ''UOJ'' \<and> has_prefix sid ''uoj-ac-'' then sid
      else
        let plat = trim_space platform;
            own = (if plat \<noteq> '''' then strip_first [plat @ '':'', to_lower plat @ '':'', to_upper plat @ '':''] sid
                   else None)
        in case own of
             Some r \<Rightarrow> r
           | None \<Rightarrow> (case strip_first knownPlatformSubmitPrefixes sid of Some r \<Rightarrow> r | None \<Rightarrow> sid))"

definition NormalizeSubmitIDs :: "SubmitLog list \<Rightarrow> SubmitLog list" where
  "NormalizeSubmitIDs logs =
     map (\<lambda>l. l\<lparr>sl_submit_id := NormalizeSubmitID (sl_platform l) (sl_submit_id l)\<rparr>) logs"

subsection \<open>The deduplication key of a problem\<close>

definition isAllDigits :: "string \<Rightarrow> bool" where
  "isAllDigits s = (if s = '''' then False else list_all is_digit_char s)"

definition ACProblemKey :: "string \<Rightarrow> string \<Rightarrow> string \<Rightarrow> nat option \<Rightarrow> string" where
  "ACProblemKey platform externalID problem problemID =
     (if problemID \<noteq> None \<and> the problemID \<noteq> 0 then ''p:'' @ nat_str (the problemID)
      else
        let ext = trim_space externalID in
        if ext \<noteq> '''' then ''e:'' @ platform @ '':'' @ ext
        else
          let tok = (if platform = ''NowCoder'' then str_fields (trim_space problem) else [])
          in if tok \<noteq> [] \<and> isAllDigits (hd tok) then ''e:NowCoder:'' @ hd tok
             else ''n:'' @ platform @ '':'' @ problem)"

definition ACProblemKeyFromLog :: "SubmitLog \<Rightarrow> string" where
  "ACProblemKeyFromLog l =
     ACProblemKey (sl_platform l) (sl_external l) (sl_problem l) (sl_problem_id l)"

definition IsLeetCodeOfficialACKey :: "string \<Rightarrow> bool" where
  "IsLeetCodeOfficialACKey problemKey = has_prefix problemKey ''e:LeetCode:ac-''"

subsection \<open>The rules\<close>

lemma to_upper_trim_Nil [simp]: "to_upper [] = []"
  by (simp add: to_upper_def)

lemma accepted_pending_False: "\<not> (IsAcceptedStatus s \<and> IsPendingSubmitStatus s)"
proof -
  have "IsPendingSubmitStatus s \<Longrightarrow> to_upper (trim_space s) \<notin> acceptedStatusNorm"
    unfolding IsPendingSubmitStatus_def Let_def acceptedStatusNorm_def
    by (auto simp: zh_defs to_upper_def upper_char_def split: if_splits)
  moreover have "IsPendingSubmitStatus s \<Longrightarrow> trim_space s \<notin> acceptedStatusNorm"
    unfolding IsPendingSubmitStatus_def Let_def acceptedStatusNorm_def
    by (auto simp: zh_defs to_upper_def upper_char_def split: if_splits)
  ultimately show ?thesis by (auto simp: IsAcceptedStatus_def Let_def)
qed

text \<open>A status text is never both accepted and pending, whatever its case, its surrounding
  blanks and its language, so a verdict that counts as accepted is final.\<close>

theorem accepted_not_pending: "\<not> (IsAcceptedStatus s \<and> IsPendingSubmitStatus s)"
  by (rule accepted_pending_False)

text \<open>C38: The Go classifiers used when rows are written and the SQL conditions used when tables
  are rebuilt from the rows agree on every row: for submission counts, for daily accepted counts and
  for the official LeetCode keys; and the rows left out of the activity feed that still count as
  submissions are exactly the LeetCode rows other than accepted and recent ones.\<close>

theorem sql_go_classifiers_agree:
  "CountsTowardSubmitStat (sl_platform r) (sl_submit_id r) = SQLExcludeLeetCodeNonSubmit r
   \<and> CountsTowardDailyAC (sl_platform r) (sl_submit_id r) = SQLExcludeLeetCodeOfficialACSubmit r
   \<and> SQLExcludeLeetCodeOfficialACKey k = (\<not> IsLeetCodeOfficialACKey k)
   \<and> (IsSyntheticSubmitForFeed (sl_platform r) (sl_submit_id r)
         \<and> CountsTowardSubmitStat (sl_platform r) (sl_submit_id r)
       \<longleftrightarrow> sl_platform r = ''LeetCode'' \<and> \<not> IsLeetCodeNonSubmitCountID (sl_submit_id r))"
  by (auto simp: CountsTowardSubmitStat_def SQLExcludeLeetCodeNonSubmit_def IsUOJSyntheticAC_def
      IsLeetCodeNonSubmitCountID_def CountsTowardDailyAC_def SQLExcludeLeetCodeOfficialACSubmit_def
      SQLExcludeLeetCodeOfficialACKey_def IsLeetCodeOfficialACKey_def IsSyntheticSubmitForFeed_def
      IsLeetCodeSyntheticSubmit_def)

lemma append_colon_eq:
  assumes "CHR '':'' \<notin> set p" and "CHR '':'' \<notin> set q" and "p @ CHR '':'' # x = q @ CHR '':'' # y"
  shows "p = q \<and> x = y"
proof -
  let ?P = "\<lambda>c. c \<noteq> CHR '':''"
  have tw: "takeWhile ?P (p @ CHR '':'' # x) = p" if "CHR '':'' \<notin> set p" for p x
    using that by (induction p) auto
  have "p = q" using tw[OF assms(1), of x] tw[OF assms(2), of y] assms(3) by metis
  with assms(3) show ?thesis by simp
qed

lemma ACProblemKey_bound: "i \<noteq> 0 \<Longrightarrow> ACProblemKey p e n (Some i) = ''p:'' @ nat_str i"
  by (simp add: ACProblemKey_def)

lemma ACProblemKey_numbered:
  "trim_space e \<noteq> '''' \<Longrightarrow> ACProblemKey p e n None = ''e:'' @ p @ CHR '':'' # trim_space e"
  by (simp add: ACProblemKey_def)

lemma ACProblemKey_unbound_head: "hd (ACProblemKey p e n None) \<noteq> CHR ''p''"
  by (simp add: ACProblemKey_def Let_def)

lemma ACProblemKey_bound_neq: "i \<noteq> 0 \<Longrightarrow> ACProblemKey p e n (Some i) \<noteq> ACProblemKey q f m None"
  by (metis ACProblemKey_bound ACProblemKey_unbound_head append_Cons list.sel(1))

lemma ACProblemKey_numbered_eq:
  assumes "trim_space e \<noteq> ''''" "trim_space f \<noteq> ''''" "CHR '':'' \<notin> set p" "CHR '':'' \<notin> set q"
  shows "ACProblemKey p e n None = ACProblemKey q f m None \<longleftrightarrow> p = q \<and> trim_space e = trim_space f"
  using append_colon_eq[OF assms(3,4)] by (auto simp: ACProblemKey_numbered assms(1,2))

text \<open>Two submissions share a deduplication key only for the right reason. If both are bound to
  the problem bank, they share it exactly when bound to the same problem; if both carry a platform
  problem number (and platform names contain no colon), exactly when platform and trimmed
  number agree; a bound and an unbound one never share it.\<close>

theorem ac_key_separates:
  "(i \<noteq> 0 \<and> j \<noteq> 0 \<longrightarrow> (ACProblemKey p e n (Some i) = ACProblemKey q f m (Some j) \<longleftrightarrow> i = j))
   \<and> (i \<noteq> 0 \<longrightarrow> ACProblemKey p e n (Some i) \<noteq> ACProblemKey q f m None)
   \<and> (trim_space e \<noteq> '''' \<and> trim_space f \<noteq> '''' \<and> CHR '':'' \<notin> set p \<and> CHR '':'' \<notin> set q \<longrightarrow>
       (ACProblemKey p e n None = ACProblemKey q f m None \<longleftrightarrow> p = q \<and> trim_space e = trim_space f))"
  using ACProblemKey_bound_neq ACProblemKey_numbered_eq by (simp add: ACProblemKey_bound)

theorem ac_key_separates_witness:
  "ACProblemKey ''LuoGu'' ''P1001'' '''' (Some 7) \<noteq> ACProblemKey ''LuoGu'' ''P1001'' '''' None
   \<and> ACProblemKey ''LuoGu'' '' P1001'' ''x'' None = ACProblemKey ''LuoGu'' ''P1001 '' ''y'' None"
proof -
  have "trim_space '' P1001'' = ''P1001''" "trim_space ''P1001 '' = ''P1001''" "trim_space ''P1001'' = ''P1001''"
    by (simp_all add: trim_space_def trim_left_def is_space_def)
  then show ?thesis
    using ac_key_separates[where i = 7 and p = "''LuoGu''" and e = "''P1001''" and n = "''''"]
      ac_key_separates[where i = 0 and p = "''LuoGu''" and e = "'' P1001''" and n = "''x''"
        and q = "''LuoGu''" and f = "''P1001 ''" and m = "''y''"] by simp
qed

end
