(* ===== verification/Tables.thy ===== *)
theory Tables
  imports Prelude "HOL-Library.Multiset"
begin

text \<open>
  Database tables that the code writes with \<^verbatim>\<open>INSERT ... ON CONFLICT (key) DO UPDATE\<close>: a table is
  a map from its key to its value columns, and one conflicting row is merged into the stored
  one. The interfaces \<open>merge_law\<close> and \<open>comm_merge\<close> say when a batch may be grouped by key before it
  is written and when the order of the rows does not matter (a Go map is read out
  in no particular order); each component interprets them on its own merge.
\<close>

definition upsert :: "('v \<Rightarrow> 'v \<Rightarrow> 'v) \<Rightarrow> 'k \<times> 'v \<Rightarrow> ('k \<rightharpoonup> 'v) \<Rightarrow> ('k \<rightharpoonup> 'v)" where
  "upsert mrg kv t =
     t(fst kv \<mapsto> (case t (fst kv) of None \<Rightarrow> snd kv | Some old \<Rightarrow> mrg old (snd kv)))"

definition upserts :: "('v \<Rightarrow> 'v \<Rightarrow> 'v) \<Rightarrow> ('k \<times> 'v) list \<Rightarrow> ('k \<rightharpoonup> 'v) \<Rightarrow> ('k \<rightharpoonup> 'v)" where
  "upserts mrg kvs t = fold (upsert mrg) kvs t"

text \<open>\<^verbatim>\<open>CreateInBatches\<close>: the rows in statements of at most \<open>n\<close>, in one transaction. PostgreSQL
  refuses a \<^verbatim>\<open>DO UPDATE\<close> statement that touches a row twice.\<close>

function chunks :: "nat \<Rightarrow> 'a list \<Rightarrow> 'a list list" where
  "chunks n xs = (if xs = [] \<or> n = 0 then [] else take n xs # chunks n (drop n xs))"
  by pat_completeness auto
termination by (relation "measure (\<lambda>(n, xs). length xs)") auto

declare chunks.simps [simp del]

fun upsert_statements ::
  "('v \<Rightarrow> 'v \<Rightarrow> 'v) \<Rightarrow> ('k \<times> 'v) list list \<Rightarrow> ('k \<rightharpoonup> 'v) \<Rightarrow> ('k \<rightharpoonup> 'v) option" where
  "upsert_statements mrg [] t = Some t"
| "upsert_statements mrg (st # sts) t =
     (if distinct (map fst st) then upsert_statements mrg sts (upserts mrg st t) else None)"

definition upsert_in_batches ::
  "('v \<Rightarrow> 'v \<Rightarrow> 'v) \<Rightarrow> nat \<Rightarrow> ('k \<times> 'v) list \<Rightarrow> ('k \<rightharpoonup> 'v) \<Rightarrow> ('k \<rightharpoonup> 'v) option" where
  "upsert_in_batches mrg n kvs t = upsert_statements mrg (chunks n kvs) t"

text \<open>A Go map that collects values under a key, kept as an association list in the order in which
  the keys first appear.\<close>

fun collect :: "('v \<Rightarrow> 'v \<Rightarrow> 'v) \<Rightarrow> 'k \<times> 'v \<Rightarrow> ('k \<times> 'v) list \<Rightarrow> ('k \<times> 'v) list" where
  "collect mrg (k, v) [] = [(k, v)]"
| "collect mrg (k, v) ((k', v') # kvs) =
     (if k = k' then (k, mrg v' v) # kvs else (k', v') # collect mrg (k, v) kvs)"

definition collect_all :: "('v \<Rightarrow> 'v \<Rightarrow> 'v) \<Rightarrow> ('k \<times> 'v) list \<Rightarrow> ('k \<times> 'v) list" where
  "collect_all mrg kvs = fold (collect mrg) kvs []"

subsection \<open>Statements\<close>

lemma concat_chunks [simp]: "0 < n \<Longrightarrow> concat (chunks n xs) = xs"
proof (induction n xs rule: chunks.induct)
  case (1 n xs)
  then show ?case by (subst chunks.simps) auto
qed

lemma chunks_distinct:
  "0 < n \<Longrightarrow> distinct (map f xs) \<Longrightarrow> \<forall>st\<in>set (chunks n xs). distinct (map f st)"
proof (induction n xs rule: chunks.induct)
  case (1 n xs)
  show ?case
  proof (cases "xs = []")
    case False
    have "distinct (map f (take n xs))" "distinct (map f (drop n xs))"
      using "1.prems" by (simp_all add: take_map[symmetric] drop_map[symmetric])
    then show ?thesis using 1 False by (subst chunks.simps) auto
  qed (simp add: chunks.simps)
qed

lemma upsert_statements_distinct:
  "\<forall>st\<in>set sts. distinct (map fst st)
   \<Longrightarrow> upsert_statements mrg sts t = Some (upserts mrg (concat sts) t)"
  by (induction sts arbitrary: t) (auto simp: upserts_def)

text \<open>Rows with distinct keys never make a batch fail, and the batch size does not matter.\<close>

lemma upsert_in_batches_distinct [row_simps]:
  "0 < n \<Longrightarrow> distinct (map fst kvs) \<Longrightarrow> upsert_in_batches mrg n kvs t = Some (upserts mrg kvs t)"
  by (simp add: upsert_in_batches_def upsert_statements_distinct chunks_distinct)

lemma upserts_simps [row_simps]:
  "upserts mrg [] t = t" "upserts mrg (kv # kvs) t = upserts mrg kvs (upsert mrg kv t)"
  "upserts mrg (kvs @ kws) t = upserts mrg kws (upserts mrg kvs t)"
  by (simp_all add: upserts_def)

lemma upserts_distinct:
  "distinct (map fst kvs) \<Longrightarrow> upserts mrg kvs t k =
     (case map_of kvs k of None \<Rightarrow> t k | Some v \<Rightarrow> Some (case t k of None \<Rightarrow> v | Some old \<Rightarrow> mrg old v))"
proof (induction kvs arbitrary: t)
  case (Cons kv kvs)
  have k: "map_of kvs (fst kv) = None" using Cons.prems by (simp add: map_of_eq_None_iff)
  have "upserts mrg (kv # kvs) t k = (case map_of kvs k of None \<Rightarrow> upsert mrg kv t k
     | Some v \<Rightarrow> Some (case upsert mrg kv t k of None \<Rightarrow> v | Some old \<Rightarrow> mrg old v))"
    using Cons by (simp add: upserts_simps)
  then show ?case using k
    by (cases "k = fst kv"; cases kv; cases "t k") (auto simp: upsert_def split: option.splits)
qed (simp add: upserts_simps)

lemma collect_keys: "fst ` set (collect mrg kv kvs) = insert (fst kv) (fst ` set kvs)"
  by (induction mrg kv kvs rule: collect.induct) auto

lemma collect_distinct: "distinct (map fst kvs) \<Longrightarrow> distinct (map fst (collect mrg kv kvs))"
  by (induction mrg kv kvs rule: collect.induct)
     (auto simp: collect_keys[unfolded image_set[symmetric]] image_iff dest: collect_keys[THEN equalityD1, THEN subsetD, OF imageI])

lemma collect_all_distinct [simp]: "distinct (map fst (collect_all mrg kvs))"
proof -
  have "distinct (map fst acc) \<Longrightarrow> distinct (map fst (fold (collect mrg) kvs acc))" for acc
    by (induction kvs arbitrary: acc) (auto simp: collect_distinct)
  then show ?thesis by (simp add: collect_all_def)
qed

lemma collect_map_of:
  "distinct (map fst kvs) \<Longrightarrow> map_of (collect mrg kv kvs) = upsert mrg kv (map_of kvs)"
  by (induction mrg kv kvs rule: collect.induct) (auto simp: upsert_def fun_eq_iff)

lemma collect_all_map_of: "map_of (collect_all mrg kvs) = upserts mrg kvs Map.empty"
proof -
  have "distinct (map fst acc) \<Longrightarrow>
    map_of (fold (collect mrg) kvs acc) = upserts mrg kvs (map_of acc)" for acc
    by (induction kvs arbitrary: acc) (auto simp: collect_distinct collect_map_of upserts_simps)
  from this[of "[]"] show ?thesis by (simp add: collect_all_def)
qed

lemma map_of_filter_value:
  "distinct (map fst kvs) \<Longrightarrow> map_of (filter (\<lambda>kv. P (snd kv)) kvs) k =
     (case map_of kvs k of Some v \<Rightarrow> if P v then Some v else None | None \<Rightarrow> None)"
proof (induction kvs)
  case (Cons kv kvs)
  then show ?case by (auto simp: map_of_eq_None_iff image_iff split: option.splits)
qed simp

text \<open>A projection of the values that respects the merges can be taken before or after the writes.\<close>

lemma upserts_hom:
  assumes "\<And>a b. h (mrg a b) = mrg' (h a) (h b)"
  shows "map_option h (upserts mrg kvs t k)
     = upserts mrg' (map (\<lambda>kv. (fst kv, h (snd kv))) kvs) (\<lambda>k. map_option h (t k)) k"
proof (induction kvs arbitrary: t)
  case (Cons kv kvs)
  have "(\<lambda>k. map_option h (upsert mrg kv t k))
      = upsert mrg' (fst kv, h (snd kv)) (\<lambda>k. map_option h (t k))"
    by (auto simp: upsert_def assms split: option.splits)
  then show ?case using Cons.IH[of "upsert mrg kv t"] by (simp add: upserts_simps)
qed (simp add: upserts_simps)

lemma map_of_map_value [row_simps]:
  "map_of (map (\<lambda>kv. (fst kv, h (snd kv))) kvs) k = map_option h (map_of kvs k)"
  by (induction kvs) auto

lemma upserts_dom: "dom (upserts mrg kvs t) = dom t \<union> fst ` set kvs"
  by (induction kvs arbitrary: t) (auto simp: upserts_simps upsert_def)

lemma fst_collect_all: "fst ` set (collect_all mrg kvs) = fst ` set kvs"
proof -
  have "fst ` set (fold (collect mrg) kvs acc) = fst ` set kvs \<union> fst ` set acc" for acc
    by (induction kvs arbitrary: acc) (auto simp: collect_keys)
  then show ?thesis by (simp add: collect_all_def)
qed

lemma collect_all_Nil_iff [simp]: "collect_all mrg kvs = [] \<longleftrightarrow> kvs = []"
  using fst_collect_all[of mrg kvs] by (metis image_is_empty set_empty)

subsection \<open>The laws of a merge\<close>

locale merge_law =
  fixes mrg :: "'v \<Rightarrow> 'v \<Rightarrow> 'v"
  assumes assoc: "mrg (mrg a b) c = mrg a (mrg b c)"
begin

lemma upserts_at:
  "upserts mrg kvs t k = (case upserts mrg kvs Map.empty k of
       None \<Rightarrow> t k
     | Some v \<Rightarrow> Some (case t k of None \<Rightarrow> v | Some old \<Rightarrow> mrg old v))"
proof (induction kvs arbitrary: t)
  case (Cons kv kvs)
  show ?case
    unfolding upserts_simps
    by (subst Cons.IH, subst (2) Cons.IH) (auto simp: upsert_def assoc split: option.splits)
qed (simp add: upserts_simps)

text \<open>Grouping a batch by key first and writing the groups is writing the rows one by one.\<close>

lemma upserts_grouped: "upserts mrg (collect_all mrg kvs) t = upserts mrg kvs t"
proof
  fix k
  show "upserts mrg (collect_all mrg kvs) t k = upserts mrg kvs t k"
    by (subst (2) upserts_at) (simp add: upserts_distinct collect_all_map_of)
qed

end

locale comm_merge = merge_law mrg for mrg :: "'v \<Rightarrow> 'v \<Rightarrow> 'v" +
  assumes comm: "mrg a b = mrg b a"
begin

lemma left_comm: "mrg a (mrg b c) = mrg b (mrg a c)"
  by (metis assoc comm)

lemma upsert_commute: "upsert mrg x (upsert mrg y t) = upsert mrg y (upsert mrg x t)"
  by (auto simp: upsert_def fun_eq_iff assoc comm left_comm split: option.splits)

text \<open>The order of the rows does not matter.\<close>

lemma upserts_perm: "mset kvs = mset kws \<Longrightarrow> upserts mrg kvs t = upserts mrg kws t"
  unfolding upserts_def
  by (rule fun_cong[OF fold_multiset_equiv]) (auto simp: fun_eq_iff upsert_commute)

end

end
