(* ===== verification/DailyStats.thy ===== *)
theory DailyStats
  imports SubmitModel Tables
begin

text \<open>
  The daily statistics of the core service (\<^verbatim>\<open>app/core_data/internal/data/dal/daily_stats.go\<close>):
  aggregation of freshly inserted submissions into increments, the additive write of the
  increments, the SQL recount, and the filter that decides which fetched submissions are new.

  A time zone is the offset of local time from UTC at an instant, in nanoseconds; a civil day is the number
  of local days since the epoch. \<open>loc\<close> is the zone of the process and of its database session; a row that a crawler fetched has a location of its own (\<open>sl_off\<close>),
  \<open>sh\<close> the zone Asia/Shanghai of the LeetCode rules. Queries are modelled on the table contents;
  a failing connection makes the Go functions return before they change anything.
\<close>

subsection \<open>Days and tables\<close>

type_synonym zone = "int \<Rightarrow> int"

definition civil_day :: "zone \<Rightarrow> int \<Rightarrow> int" where
  "civil_day z t = (t + z t) div (24 * hour_ns)"

type_synonym daily_key = "int \<times> int \<times> string"
type_synonym daily_table = "daily_key \<rightharpoonup> int \<times> int"

record DailyDelta =
  dd_user :: int
  dd_day :: int
  dd_platform :: string
  dd_submit :: int
  dd_ac :: int

definition add_counts :: "int \<times> int \<Rightarrow> int \<times> int \<Rightarrow> int \<times> int" where
  "add_counts old new = (fst old + fst new, snd old + snd new)"

lemma add_counts_zero [simp]: "add_counts c (0, 0) = c" "add_counts (0, 0) c = c"
  by (simp_all add: add_counts_def)

interpretation daily: comm_merge add_counts
  by unfold_locales (auto simp: add_counts_def)

subsection \<open>Aggregation and the additive write\<close>

text \<open>The day of a row in its own location.\<close>

definition row_day :: "SubmitLog \<Rightarrow> int" where
  "row_day l = (sl_time l + sl_off l) div (24 * hour_ns)"

text \<open>A row whose own day is the one that the session sees: true of a row in the session's zone, and of any row read from the
  database. The crawler of LOJ leaves its times in UTC (\<^verbatim>\<open>parseLOJTime\<close>), so its rows of the last eight hours of a UTC day
  are not of this kind.\<close>

definition same_day :: "zone \<Rightarrow> SubmitLog \<Rightarrow> bool" where
  "same_day loc l \<longleftrightarrow> row_day l = civil_day loc (sl_time l)"

definition in_session :: "zone \<Rightarrow> SubmitLog \<Rightarrow> SubmitLog" where
  "in_session loc l = l\<lparr>sl_off := loc (sl_time l)\<rparr>"

lemma row_day_simps [simp]:
  "row_day (l\<lparr>sl_status := s, sl_isac := a\<rparr>) = row_day l" "row_day (l\<lparr>sl_id := n\<rparr>) = row_day l"
  "same_day loc (in_session loc l)" "same_day loc l \<Longrightarrow> row_day (in_session loc l) = row_day l"
  by (simp_all add: row_day_def same_day_def in_session_def civil_day_def)

definition delta_key :: "SubmitLog \<Rightarrow> daily_key" where
  "delta_key l = (sl_user l, row_day l, trim_space (sl_platform l))"

definition delta_counts :: "SubmitLog \<Rightarrow> int \<times> int" where
  "delta_counts l =
     ((if CountsTowardSubmitStat (sl_platform l) (sl_submit_id l) then 1 else 0),
      (if sl_isac l \<and> CountsTowardDailyAC (sl_platform l) (sl_submit_id l) then 1 else 0))"

text \<open>The result lists the groups in the order of their first row; Go reads the map out in any order,
  which does not matter (\<open>daily.upserts_perm\<close>).\<close>

definition AggregateSubmitDeltas :: "SubmitLog list \<Rightarrow> DailyDelta list" where
  "AggregateSubmitDeltas logs =
     map (\<lambda>((u, d, p), (s, a)). \<lparr>dd_user = u, dd_day = d, dd_platform = p, dd_submit = s, dd_ac = a\<rparr>)
       (filter (\<lambda>kv. \<not> (fst (snd kv) = 0 \<and> snd (snd kv) = 0))
         (collect_all add_counts (map (\<lambda>l. (delta_key l, delta_counts l)) logs)))"

definition delta_row :: "DailyDelta \<Rightarrow> daily_key \<times> (int \<times> int)" where
  "delta_row d = ((dd_user d, dd_day d, dd_platform d), (dd_submit d, dd_ac d))"

definition ApplyDailyDeltas :: "DailyDelta list \<Rightarrow> daily_table \<Rightarrow> daily_table option" where
  "ApplyDailyDeltas deltas t =
     (if deltas = [] then Some t else upsert_in_batches add_counts 100 (map delta_row deltas) t)"

definition DeletePlatformDailyStats :: "int \<Rightarrow> string \<Rightarrow> daily_table \<Rightarrow> daily_table" where
  "DeletePlatformDailyStats userID platform t =
     (if userID \<le> 0 \<or> platform = '''' then t
      else (\<lambda>(u, d, p). if u = userID \<and> p = platform then None else t (u, d, p)))"

subsection \<open>The recount in SQL\<close>

text \<open>\<^verbatim>\<open>btrim\<close> strips blanks only, \<^verbatim>\<open>COALESCE(NULLIF(btrim(platform), ''), '?')\<close> names the empty platform.\<close>

definition btrim :: "string \<Rightarrow> string" where
  "btrim s = rev (dropWhile (\<lambda>c. c = CHR '' '') (rev (dropWhile (\<lambda>c. c = CHR '' '') s)))"

definition sql_platform :: "string \<Rightarrow> string" where
  "sql_platform p = (if btrim p = '''' then ''?'' else btrim p)"

text \<open>The grouped \<^verbatim>\<open>SELECT\<close> of the backfill, read at one group.\<close>

definition sql_daily :: "zone \<Rightarrow> SubmitLog list \<Rightarrow> daily_table" where
  "sql_daily loc rows k =
     (let g = filter (\<lambda>r. (sl_user r, civil_day loc (sl_time r), sql_platform (sl_platform r)) = k) rows;
          s = length (filter SQLExcludeLeetCodeNonSubmit g);
          a = length (filter (\<lambda>r. sl_isac r \<and> SQLExcludeLeetCodeOfficialACSubmit r) g)
      in if s > 0 \<or> a > 0 then Some (int s, int a) else None)"

definition BackfillDailyUserStatsIfEmpty ::
  "zone \<Rightarrow> SubmitLog list \<Rightarrow> daily_table \<Rightarrow> daily_table" where
  "BackfillDailyUserStatsIfEmpty loc rows t = (if t = Map.empty then sql_daily loc rows else t)"

subsection \<open>Which fetched submissions are new\<close>

definition batch_key :: "SubmitLog \<Rightarrow> string \<times> int \<times> string" where
  "batch_key l = (sl_platform l, sl_user l, sl_submit_id l)"

fun dedupe_loop :: "(string \<times> int \<times> string) set \<Rightarrow> SubmitLog list \<Rightarrow> SubmitLog list" where
  "dedupe_loop seen [] = []"
| "dedupe_loop seen (l # ls) =
     (if sl_submit_id l = '''' then dedupe_loop seen ls
      else if batch_key l \<in> seen then dedupe_loop seen ls
      else l # dedupe_loop (insert (batch_key l) seen) ls)"

definition dedupeSubmitLogsBySubmitID :: "SubmitLog list \<Rightarrow> SubmitLog list" where
  "dedupeSubmitLogsBySubmitID logs = (if length logs \<le> 1 then logs else dedupe_loop {} logs)"

definition is_lc_prob :: "SubmitLog \<Rightarrow> bool" where
  "is_lc_prob l \<longleftrightarrow> sl_platform l = ''LeetCode'' \<and> has_prefix (sl_submit_id l) ''lc-prob-''"

text \<open>The slug of a candidate: the platform number, else the first word of the problem text; and the
  field written back into the row when it was empty.\<close>

definition cand_ext :: "SubmitLog \<Rightarrow> string" where
  "cand_ext l =
     (let ext = trim_space (sl_external l)
      in if ext = '''' then (case str_fields (sl_problem l) of [] \<Rightarrow> '''' | f # _ \<Rightarrow> f) else ext)"

definition is_cand :: "SubmitLog \<Rightarrow> bool" where
  "is_cand l \<longleftrightarrow> is_lc_prob l \<and> cand_ext l \<noteq> ''''"

definition fill_ext :: "SubmitLog \<Rightarrow> SubmitLog" where
  "fill_ext l = (if is_cand l \<and> sl_external l = '''' then l\<lparr>sl_external := cand_ext l\<rparr> else l)"

definition stats_day :: "zone \<Rightarrow> int \<Rightarrow> int option" where
  "stats_day sh t = (if is_zero_time t then None else Some (civil_day sh t))"

definition have_slugs ::
  "zone \<Rightarrow> SubmitLog list \<Rightarrow> int set \<Rightarrow> string set \<Rightarrow> (int \<times> string \<times> int option) set" where
  "have_slugs sh rows uids exts =
     set (map (\<lambda>r. (sl_user r, sl_external r, stats_day sh (sl_time r)))
       (filter (\<lambda>r. is_lc_prob r \<and> sl_user r \<in> uids \<and> sl_external r \<in> exts
          \<and> \<not> is_zero_time (sl_time r) \<and> sl_external r \<noteq> '''') rows))"

fun slug_loop ::
  "zone \<Rightarrow> (int \<times> string \<times> int option) set \<Rightarrow> (int \<times> string \<times> int option) set
   \<Rightarrow> (SubmitLog \<times> string) list \<Rightarrow> SubmitLog list" where
  "slug_loop sh have seen [] = []"
| "slug_loop sh have seen ((l, ext) # ls) =
     (let k = (sl_user l, ext, stats_day sh (sl_time l)) in
      if \<not> (is_lc_prob l \<and> ext \<noteq> '''') then l # slug_loop sh have seen ls
      else if stats_day sh (sl_time l) \<noteq> None \<and> k \<in> have then slug_loop sh have seen ls
      else if k \<in> seen then slug_loop sh have seen ls
      else l # slug_loop sh have (insert k seen) ls)"

definition filterLeetCodeProbAlreadyHaveSlug ::
  "zone \<Rightarrow> SubmitLog list \<Rightarrow> SubmitLog list \<Rightarrow> SubmitLog list" where
  "filterLeetCodeProbAlreadyHaveSlug sh rows logs =
     (let cands = filter is_cand logs in
      if cands = [] then logs
      else slug_loop sh (have_slugs sh rows (sl_user ` set cands) (cand_ext ` set cands)) {}
             (map (\<lambda>l. (fill_ext l, cand_ext l)) logs))"

definition existing_ids :: "SubmitLog list \<Rightarrow> SubmitLog list \<Rightarrow> (string \<times> string) set" where
  "existing_ids rows logs =
     (\<lambda>r. (sl_platform r, sl_submit_id r)) ` {r \<in> set rows. batch_key r \<in> batch_key ` set logs}"

definition FilterNewSubmitLogs ::
  "zone \<Rightarrow> SubmitLog list \<Rightarrow> SubmitLog list \<Rightarrow> SubmitLog list" where
  "FilterNewSubmitLogs sh rows fetched =
     (let logs = dedupeSubmitLogsBySubmitID (NormalizeSubmitIDs fetched);
          out = filter (\<lambda>l. sl_submit_id l \<noteq> ''''
                  \<and> (sl_platform l, sl_submit_id l) \<notin> existing_ids rows logs) logs
      in if out = [] then [] else filterLeetCodeProbAlreadyHaveSlug sh rows out)"

subsection \<open>Repair of stored LeetCode rows\<close>

text \<open>\<^verbatim>\<open>DELETE ... USING\<close>: a row goes when a later row (or, at the same time, one with a larger id) of the
  same user, slug and Shanghai day is present.\<close>

definition prune_dominates :: "zone \<Rightarrow> int \<Rightarrow> SubmitLog \<Rightarrow> SubmitLog \<Rightarrow> bool" where
  "prune_dominates sh userID a b \<longleftrightarrow>
     sl_user a = userID \<and> is_lc_prob a \<and> sl_user b = sl_user a \<and> is_lc_prob b
     \<and> sl_external a \<noteq> '''' \<and> sl_external a = sl_external b
     \<and> civil_day sh (sl_time a) = civil_day sh (sl_time b)
     \<and> (sl_time a < sl_time b \<or> sl_time a = sl_time b \<and> sl_id a < sl_id b)"

definition PruneLeetCodeProbDuplicates :: "zone \<Rightarrow> int \<Rightarrow> SubmitLog list \<Rightarrow> SubmitLog list" where
  "PruneLeetCodeProbDuplicates sh userID rows =
     (if userID = 0 then rows
      else filter (\<lambda>a. \<not> list_ex (prune_dominates sh userID a) rows) rows)"

text \<open>One fetched row of the display repair: the same row, then the other rows of the same slug.
  Only the display columns \<^verbatim>\<open>lang\<close> and \<^verbatim>\<open>problem\<close> change.\<close>

definition meta_lang :: "SubmitLog \<Rightarrow> string" where
  "meta_lang l = (let t = trim_space (sl_lang l) in if t = '''' \<or> t = ''-'' then '''' else t)"

definition meta_worse :: "string \<Rightarrow> string \<Rightarrow> SubmitLog \<Rightarrow> bool" where
  "meta_worse lang problem r \<longleftrightarrow>
     lang \<noteq> '''' \<and> (btrim (sl_lang r) = '''' \<or> btrim (sl_lang r) = ''-'')
     \<or> problem \<noteq> '''' \<and> sl_problem r \<noteq> problem"

definition meta_set :: "string \<Rightarrow> string \<Rightarrow> SubmitLog \<Rightarrow> SubmitLog" where
  "meta_set lang problem r =
     r\<lparr>sl_lang := (if lang \<noteq> '''' then lang else sl_lang r),
       sl_problem := (if problem \<noteq> '''' then problem else sl_problem r)\<rparr>"

definition meta_update :: "string \<Rightarrow> string \<Rightarrow> (SubmitLog \<Rightarrow> bool) \<Rightarrow> nat \<times> SubmitLog list \<Rightarrow> nat \<times> SubmitLog list" where
  "meta_update lang problem P = (\<lambda>(n, rows).
     (n + length (filter (\<lambda>r. P r \<and> meta_worse lang problem r) rows),
      map (\<lambda>r. if P r \<and> meta_worse lang problem r then meta_set lang problem r else r) rows))"

definition meta_step :: "SubmitLog \<Rightarrow> nat \<times> SubmitLog list \<Rightarrow> nat \<times> SubmitLog list" where
  "meta_step l st =
     (let lang = meta_lang l; problem = trim_space (sl_problem l); ext = trim_space (sl_external l) in
      if \<not> is_lc_prob l \<or> (problem = '''' \<and> lang = '''') then st
      else
        let st1 = meta_update lang problem (\<lambda>r. sl_platform r = sl_platform l \<and> sl_user r = sl_user l
                \<and> sl_submit_id r = sl_submit_id l) st
        in if ext = '''' \<or> sl_user l = 0 then st1
           else meta_update lang problem (\<lambda>r. sl_platform r = sl_platform l \<and> sl_user r = sl_user l
                \<and> has_prefix (sl_submit_id r) ''lc-prob-'' \<and> sl_external r = ext
                \<and> sl_submit_id r \<noteq> sl_submit_id l) st1)"

text \<open>The result is the number of updated rows and the rows.\<close>

definition RefreshLeetCodeProbMeta :: "SubmitLog list \<Rightarrow> SubmitLog list \<Rightarrow> nat \<times> SubmitLog list" where
  "RefreshLeetCodeProbMeta fetched rows = fold meta_step fetched (0, rows)"

subsection \<open>The table is a recount of the rows\<close>

definition counts :: "SubmitLog list \<Rightarrow> int \<times> int" where
  "counts ls =
     (int (length (filter (\<lambda>l. CountsTowardSubmitStat (sl_platform l) (sl_submit_id l)) ls)),
      int (length (filter (\<lambda>l. sl_isac l \<and> CountsTowardDailyAC (sl_platform l) (sl_submit_id l)) ls)))"

definition recount :: "SubmitLog list \<Rightarrow> daily_table" where
  "recount rows k =
     (let c = counts (filter (\<lambda>l. delta_key l = k) rows) in if c = (0, 0) then None else Some c)"

lemma counts_simps [row_simps]:
  "counts [] = (0, 0)" "counts (xs @ ys) = add_counts (counts xs) (counts ys)"
  "counts [l] = delta_counts l"
  by (simp_all add: counts_def add_counts_def delta_counts_def)

lemma counts_nonneg: "0 \<le> fst (counts ls)" "0 \<le> snd (counts ls)"
  by (simp_all add: counts_def)

lemma aggregate_at:
  "upserts add_counts (map (\<lambda>l. (delta_key l, delta_counts l)) logs) Map.empty k =
     (let g = filter (\<lambda>l. delta_key l = k) logs in if g = [] then None else Some (counts g))"
proof (induction logs rule: rev_induct)
  case (snoc l logs)
  let ?t = "upserts add_counts (map (\<lambda>l. (delta_key l, delta_counts l)) logs) Map.empty"
  let ?g = "filter (\<lambda>l. delta_key l = k) logs"
  have t: "?t k = (if ?g = [] then None else Some (counts ?g))" using snoc by (simp only: Let_def)
  have "upserts add_counts (map (\<lambda>l. (delta_key l, delta_counts l)) (logs @ [l])) Map.empty k
      = upsert add_counts (delta_key l, delta_counts l) ?t k"
    by (simp add: row_simps)
  also have "\<dots> = (if delta_key l = k then Some (add_counts (counts ?g) (delta_counts l)) else ?t k)"
  proof (cases "delta_key l = k")
    case True
    show ?thesis using t True
      by (cases "?g = []") (simp_all add: upsert_def counts_simps add_counts_def)
  qed (simp add: upsert_def)
  finally show ?case using t by (simp add: Let_def counts_simps)
qed (simp add: row_simps)

lemma delta_row_back:
  "delta_row (case kv of ((u, d, p), (s, a)) \<Rightarrow>
     \<lparr>dd_user = u, dd_day = d, dd_platform = p, dd_submit = s, dd_ac = a\<rparr>) = kv"
  by (simp add: delta_row_def case_prod_beta')

lemma aggregate_rows:
  "map delta_row (AggregateSubmitDeltas logs) =
     filter (\<lambda>kv. \<not> (fst (snd kv) = 0 \<and> snd (snd kv) = 0))
       (collect_all add_counts (map (\<lambda>l. (delta_key l, delta_counts l)) logs))"
  by (simp add: AggregateSubmitDeltas_def o_def) (rule map_idI, simp add: delta_row_def case_prod_beta')

lemma aggregate_distinct: "distinct (map fst (map delta_row (AggregateSubmitDeltas logs)))"
  unfolding aggregate_rows by (intro distinct_map_filter) simp

lemma aggregate_map_of: "map_of (map delta_row (AggregateSubmitDeltas logs)) = recount logs"
proof
  fix k
  have "map_of (map delta_row (AggregateSubmitDeltas logs)) k =
      (case upserts add_counts (map (\<lambda>l. (delta_key l, delta_counts l)) logs) Map.empty k of
         Some v \<Rightarrow> if \<not> (fst v = 0 \<and> snd v = 0) then Some v else None | None \<Rightarrow> None)"
    unfolding aggregate_rows
    by (subst map_of_filter_value) (simp_all add: collect_all_map_of)
  also have "\<dots> = recount logs k"
    by (auto simp: aggregate_at recount_def Let_def prod_eq_iff row_simps)
  finally show "map_of (map delta_row (AggregateSubmitDeltas logs)) k = recount logs k" .
qed

lemma ApplyDaily_aggregate_at:
  "ApplyDailyDeltas (AggregateSubmitDeltas logs) t = Some (\<lambda>k. case recount logs k of
      None \<Rightarrow> t k | Some v \<Rightarrow> Some (case t k of None \<Rightarrow> v | Some old \<Rightarrow> add_counts old v))"
proof -
  let ?r = "map delta_row (AggregateSubmitDeltas logs)"
  have "upserts add_counts ?r t = (\<lambda>k. case recount logs k of
      None \<Rightarrow> t k | Some v \<Rightarrow> Some (case t k of None \<Rightarrow> v | Some old \<Rightarrow> add_counts old v))"
    using aggregate_distinct by (simp add: fun_eq_iff upserts_distinct aggregate_map_of)
  moreover have "ApplyDailyDeltas (AggregateSubmitDeltas logs) t = Some (upserts add_counts ?r t)"
    using aggregate_distinct by (simp add: ApplyDailyDeltas_def row_simps)
  ultimately show ?thesis by simp
qed

lemma recount_append:
  "recount (xs @ ys) k = (case recount ys k of
      None \<Rightarrow> recount xs k
    | Some v \<Rightarrow> Some (case recount xs k of None \<Rightarrow> v | Some old \<Rightarrow> add_counts old v))"
  using counts_nonneg[of "filter (\<lambda>l. delta_key l = k) xs"]
    counts_nonneg[of "filter (\<lambda>l. delta_key l = k) ys"]
  by (auto simp: recount_def Let_def row_simps add_counts_def prod_eq_iff)

lemma ApplyDaily_recount:
  "ApplyDailyDeltas (AggregateSubmitDeltas neu) (recount rows) = Some (recount (rows @ neu))"
  unfolding ApplyDaily_aggregate_at by (simp add: recount_append fun_eq_iff)

text \<open>C2: The incremental write and the recount from scratch agree: if the daily table is the recount
  of the stored submissions, then writing the aggregated increments of a batch of inserted rows
  succeeds (the batch never touches a key twice) and yields the recount of the stored rows with the
  batch appended. This holds for every batch, whatever the locations of its rows are.\<close>

theorem daily_increment_is_recount:
  "ApplyDailyDeltas (AggregateSubmitDeltas neu) (recount rows) = Some (recount (rows @ neu))"
  by (rule ApplyDaily_recount)

lemma sql_daily_recount:
  assumes "\<forall>r\<in>set rows. btrim (sl_platform r) = trim_space (sl_platform r) \<and> trim_space (sl_platform r) \<noteq> ''''"
    and "\<forall>r\<in>set rows. same_day loc r"
  shows "sql_daily loc rows = recount rows"
proof -
  have g: "filter (\<lambda>r. (sl_user r, civil_day loc (sl_time r), sl_platform_of r) = k) rows
      = filter (\<lambda>l. delta_key l = k) rows"
    if "sl_platform_of = (\<lambda>r. sql_platform (sl_platform r))" for sl_platform_of k
    using assms that by (intro filter_cong) (auto simp: delta_key_def sql_platform_def same_day_def)
  have c: "CountsTowardSubmitStat (sl_platform r) (sl_submit_id r) = SQLExcludeLeetCodeNonSubmit r"
    "CountsTowardDailyAC (sl_platform r) (sl_submit_id r) = SQLExcludeLeetCodeOfficialACSubmit r" for r
    by (auto simp: CountsTowardSubmitStat_def SQLExcludeLeetCodeNonSubmit_def IsUOJSyntheticAC_def
      IsLeetCodeNonSubmitCountID_def CountsTowardDailyAC_def SQLExcludeLeetCodeOfficialACSubmit_def)
  show ?thesis by (auto simp: fun_eq_iff sql_daily_def recount_def Let_def g[OF refl] counts_def c)
qed

text \<open>C29: On rows whose platform name is trimmed and not empty and whose own day is the day of the session (which is so for every
  crawler but that of LOJ), the SQL recount of the backfill is the table that the Go code maintains: rebuilding the
  daily statistics of such rows from an empty table gives back exactly the incremental ones.\<close>

theorem daily_backfill_agrees:
  assumes "\<forall>r\<in>set rows. btrim (sl_platform r) = trim_space (sl_platform r) \<and> trim_space (sl_platform r) \<noteq> ''''"
    and "\<forall>r\<in>set rows. same_day loc r"
  shows "ApplyDailyDeltas (AggregateSubmitDeltas rows) Map.empty
     = Some (BackfillDailyUserStatsIfEmpty loc rows Map.empty)"
proof -
  have "recount [] = Map.empty" by (simp add: recount_def row_simps fun_eq_iff)
  then show ?thesis
    using ApplyDaily_recount[of rows "[]"] by (simp add: BackfillDailyUserStatsIfEmpty_def sql_daily_recount[OF assms])
qed

definition demo_row :: SubmitLog where
  "demo_row = \<lparr>sl_id = 1, sl_platform = ''LuoGu'', sl_user = 7, sl_submit_id = ''101'', sl_contest = '''',
     sl_problem = ''P1001'', sl_lang = ''C++'', sl_status = ''AC'', sl_isac = True,
     sl_time = 1700000000 * second_ns, sl_problem_id = None, sl_external = ''P1001'', sl_off = 8 * hour_ns\<rparr>"

lemma demo_platform: "btrim (sl_platform demo_row) = ''LuoGu''" "trim_space (sl_platform demo_row) = ''LuoGu''"
  by (simp_all add: demo_row_def btrim_def trim_space_def trim_left_def is_space_def)

theorem daily_backfill_agrees_witness:
  "ApplyDailyDeltas (AggregateSubmitDeltas [demo_row]) Map.empty
     = Some (BackfillDailyUserStatsIfEmpty (\<lambda>t. 8 * hour_ns) [demo_row] Map.empty)"
  by (rule daily_backfill_agrees) (simp add: demo_platform, simp add: same_day_def row_day_def civil_day_def demo_row_def)

text \<open>A submission to LOJ at 22:13 UTC, the next morning in Shanghai: it is counted on the day of UTC, the backfill finds it on the
  next one.\<close>

definition loj_row :: SubmitLog where
  "loj_row = demo_row\<lparr>sl_platform := ''LOJ'', sl_off := 0\<rparr>"

lemma loj_day_differs:
  "let (u, day, p) = delta_key loj_row in
     recount [loj_row] (u, day, p) = Some (1, 1) \<and> sql_daily (\<lambda>t. 8 * hour_ns) [loj_row] (u, day, p) = None
     \<and> sql_daily (\<lambda>t. 8 * hour_ns) [loj_row] (u, day + 1, p) = Some (1, 1)"
  by code_simp

subsection \<open>Fetching a page again\<close>

lemma dedupe_loop_set: "set (dedupe_loop seen ls) \<subseteq> set ls"
  by (induction seen ls rule: dedupe_loop.induct) auto

lemma dedupe_loop_keys:
  "batch_key ` set (dedupe_loop seen ls) = batch_key ` {l \<in> set ls. sl_submit_id l \<noteq> ''''} - seen"
proof (induction seen ls rule: dedupe_loop.induct)
  case (2 seen l ls)
  have "{x \<in> set (l # ls). sl_submit_id x \<noteq> ''''} =
      (if sl_submit_id l = '''' then {x \<in> set ls. sl_submit_id x \<noteq> ''''}
       else insert l {x \<in> set ls. sl_submit_id x \<noteq> ''''})" by auto
  then show ?case using 2 by (simp split: if_splits) blast
qed simp

lemma dedupe_loop_distinct: "distinct (map batch_key (dedupe_loop seen ls))"
proof (induction seen ls rule: dedupe_loop.induct)
  case (2 seen l ls)
  have "batch_key l \<notin> batch_key ` set (dedupe_loop (insert (batch_key l) seen) ls)"
    unfolding dedupe_loop_keys by blast
  then show ?case using 2 by auto
qed simp

lemma dedupe_distinct: "distinct (map batch_key (dedupeSubmitLogsBySubmitID logs))"
proof (cases "length logs \<le> 1")
  case True
  then show ?thesis by (cases logs) (auto simp: dedupeSubmitLogsBySubmitID_def)
qed (simp add: dedupeSubmitLogsBySubmitID_def dedupe_loop_distinct)

lemma dedupe_set: "set (dedupeSubmitLogsBySubmitID logs) \<subseteq> set logs"
  using dedupe_loop_set by (auto simp: dedupeSubmitLogsBySubmitID_def)

lemma fill_ext_fields [simp]:
  "batch_key (fill_ext l) = batch_key l" "sl_user (fill_ext l) = sl_user l"
  "sl_time (fill_ext l) = sl_time l" "sl_platform (fill_ext l) = sl_platform l"
  "sl_submit_id (fill_ext l) = sl_submit_id l" "sl_isac (fill_ext l) = sl_isac l"
  "sl_status (fill_ext l) = sl_status l" "is_lc_prob (fill_ext l) = is_lc_prob l"
  by (simp_all add: fill_ext_def batch_key_def is_lc_prob_def)

abbreviation "slug_key sh l ext \<equiv> (sl_user l, ext, stats_day sh (sl_time l))"

lemma slug_loop_set: "set (slug_loop sh have seen ls) \<subseteq> fst ` set ls"
  by (induction sh "have" seen ls rule: slug_loop.induct) (auto simp: Let_def split: if_splits)

lemma slug_loop_distinct:
  "distinct (map (f \<circ> fst) ls) \<Longrightarrow> distinct (map f (slug_loop sh have seen ls))"
proof (induction ls arbitrary: seen)
  case (Cons x ls)
  obtain l ext where x: "x = (l, ext)" by fastforce
  have "f l \<notin> f ` set (slug_loop sh have s ls)" for s
    using Cons.prems slug_loop_set[of sh "have" s ls] by (auto simp: image_image x)
  then show ?case using Cons by (simp add: Let_def x)
qed simp

lemma slug_loop_eqs:
  "\<not> (is_lc_prob l \<and> ext \<noteq> '''') \<Longrightarrow> slug_loop sh have seen ((l, ext) # ls) = l # slug_loop sh have seen ls"
  "is_lc_prob l \<Longrightarrow> ext \<noteq> '''' \<Longrightarrow>
   stats_day sh (sl_time l) \<noteq> None \<and> slug_key sh l ext \<in> have \<or> slug_key sh l ext \<in> seen \<Longrightarrow>
   slug_loop sh have seen ((l, ext) # ls) = slug_loop sh have seen ls"
  "is_lc_prob l \<Longrightarrow> ext \<noteq> '''' \<Longrightarrow>
   \<not> (stats_day sh (sl_time l) \<noteq> None \<and> slug_key sh l ext \<in> have \<or> slug_key sh l ext \<in> seen) \<Longrightarrow>
   slug_loop sh have seen ((l, ext) # ls) = l # slug_loop sh have (insert (slug_key sh l ext) seen) ls"
  by (auto simp: Let_def)

text \<open>A row is dropped only as a candidate whose slug and day are stored already, seen before, or
  kept in this batch.\<close>

lemma slug_loop_dropped:
  assumes "(l, ext) \<in> set ls" and "l \<notin> set (slug_loop sh have seen ls)"
  shows "is_lc_prob l \<and> ext \<noteq> '''' \<and>
    (stats_day sh (sl_time l) \<noteq> None \<and> slug_key sh l ext \<in> have \<or> slug_key sh l ext \<in> seen
     \<or> (\<exists>l' \<in> set (slug_loop sh have seen ls). is_lc_prob l' \<and> (l', ext) \<in> set ls
          \<and> slug_key sh l' ext = slug_key sh l ext))"
  using assms
proof (induction ls arbitrary: seen)
  case (Cons x ls)
  obtain l0 e0 where x: "x = (l0, e0)" by fastforce
  let ?k = "slug_key sh l0 e0"
  consider (keep) "slug_loop sh have seen (x # ls) = l0 # slug_loop sh have seen ls"
    | (drop) "slug_loop sh have seen (x # ls) = slug_loop sh have seen ls"
        "is_lc_prob l0" "e0 \<noteq> ''''" "stats_day sh (sl_time l0) \<noteq> None \<and> ?k \<in> have \<or> ?k \<in> seen"
    | (new) "slug_loop sh have seen (x # ls) = l0 # slug_loop sh have (insert ?k seen) ls"
        "is_lc_prob l0" "e0 \<noteq> ''''"
    unfolding x using slug_loop_eqs by metis
  then show ?case
  proof cases
    case keep
    with Cons.prems have "(l, ext) \<in> set ls" "l \<notin> set (slug_loop sh have seen ls)" by (auto simp: x)
    from Cons.IH[OF this] show ?thesis unfolding keep by auto
  next
    case drop
    show ?thesis
    proof (cases "(l, ext) = (l0, e0)")
      case True
      with drop show ?thesis by blast
    next
      case False
      with Cons.prems drop(1) have "(l, ext) \<in> set ls" "l \<notin> set (slug_loop sh have seen ls)"
        by (auto simp: x)
      from Cons.IH[OF this] show ?thesis unfolding drop(1) by auto
    qed
  next
    case new
    with Cons.prems have "(l, ext) \<in> set ls" "l \<notin> set (slug_loop sh have (insert ?k seen) ls)"
      by (auto simp: x)
    from Cons.IH[OF this] show ?thesis unfolding new(1) using new(2,3) by (auto simp: x)
  qed
qed simp

text \<open>When every row is a candidate of a stored slug and day, nothing is kept.\<close>

lemma slug_loop_all_known:
  "\<forall>(l, ext)\<in>set ls. is_lc_prob l \<and> ext \<noteq> '''' \<and> stats_day sh (sl_time l) \<noteq> None
      \<and> slug_key sh l ext \<in> have
   \<Longrightarrow> slug_loop sh have seen ls = []"
  by (induction ls arbitrary: seen) (auto simp: Let_def)

subsection \<open>The filter\<close>

definition clean_log :: "SubmitLog \<Rightarrow> bool" where
  "clean_log l \<longleftrightarrow> trim_space (sl_external l) = sl_external l \<and> \<not> is_zero_time (sl_time l)"

lemma cand_ext_filled: "is_cand l \<Longrightarrow> clean_log l \<Longrightarrow> sl_external (fill_ext l) = cand_ext l"
  by (auto simp: fill_ext_def cand_ext_def clean_log_def Let_def)

abbreviation "normalized_batch fetched \<equiv> dedupeSubmitLogsBySubmitID (NormalizeSubmitIDs fetched)"

definition unseen :: "SubmitLog list \<Rightarrow> SubmitLog list \<Rightarrow> SubmitLog list" where
  "unseen rows fetched = (let logs = normalized_batch fetched in
     filter (\<lambda>l. sl_submit_id l \<noteq> '''' \<and> (sl_platform l, sl_submit_id l) \<notin> existing_ids rows logs) logs)"

lemma FilterNew_eq:
  "FilterNewSubmitLogs sh rows fetched =
     (if unseen rows fetched = [] then [] else filterLeetCodeProbAlreadyHaveSlug sh rows (unseen rows fetched))"
  by (simp add: FilterNewSubmitLogs_def unseen_def Let_def)

lemma slug_filter_set: "set (filterLeetCodeProbAlreadyHaveSlug sh rows logs) \<subseteq> set logs \<union> fill_ext ` set logs"
proof (cases "filter is_cand logs = []")
  case False
  then show ?thesis
    using slug_loop_set by (fastforce simp: filterLeetCodeProbAlreadyHaveSlug_def Let_def)
qed (simp add: filterLeetCodeProbAlreadyHaveSlug_def Let_def)

lemma slug_filter_distinct:
  "distinct (map batch_key logs) \<Longrightarrow> distinct (map batch_key (filterLeetCodeProbAlreadyHaveSlug sh rows logs))"
  by (auto simp: filterLeetCodeProbAlreadyHaveSlug_def Let_def o_def intro!: slug_loop_distinct)

lemma FilterNew_keys:
  "batch_key ` set (FilterNewSubmitLogs sh rows fetched) \<subseteq> batch_key ` set (unseen rows fetched)"
proof -
  have "batch_key ` (A \<union> fill_ext ` A) = batch_key ` A" for A by (simp add: image_Un image_image)
  then show ?thesis
    using image_mono[OF slug_filter_set[of sh rows "unseen rows fetched"], of batch_key]
    by (cases "unseen rows fetched = []") (simp_all add: FilterNew_eq)
qed

lemma FilterNew_insertable:
  "distinct (map batch_key (FilterNewSubmitLogs sh rows fetched))
   \<and> (\<forall>l\<in>set (FilterNewSubmitLogs sh rows fetched).
        sl_submit_id l \<noteq> '''' \<and> batch_key l \<notin> batch_key ` set rows)"
proof
  have "distinct (map batch_key (unseen rows fetched))"
    using dedupe_distinct by (simp add: unseen_def Let_def distinct_map_filter)
  then show "distinct (map batch_key (FilterNewSubmitLogs sh rows fetched))"
    by (simp add: FilterNew_eq slug_filter_distinct)
  have "sl_submit_id l \<noteq> '''' \<and> batch_key l \<notin> batch_key ` set rows" if "l \<in> set (unseen rows fetched)" for l
  proof -
    let ?logs = "normalized_batch fetched"
    have l: "l \<in> set ?logs" "sl_submit_id l \<noteq> ''''"
      "(sl_platform l, sl_submit_id l) \<notin> existing_ids rows ?logs"
      using that by (auto simp: unseen_def Let_def)
    have "r \<notin> set rows" if "batch_key r = batch_key l" for r
    proof
      assume "r \<in> set rows"
      then have "(sl_platform r, sl_submit_id r) \<in> existing_ids rows ?logs"
        unfolding existing_ids_def using that l(1) by blast
      then show False using l(3) that by (simp add: batch_key_def)
    qed
    then show ?thesis using l(2) by force
  qed
  moreover have "\<exists>l' \<in> set (unseen rows fetched). batch_key l' = batch_key l"
    if "l \<in> set (FilterNewSubmitLogs sh rows fetched)" for l
    using FilterNew_keys[of sh rows fetched] that by (metis image_eqI image_iff subsetD)
  ultimately show "\<forall>l\<in>set (FilterNewSubmitLogs sh rows fetched).
        sl_submit_id l \<noteq> '''' \<and> batch_key l \<notin> batch_key ` set rows"
    by (metis batch_key_def prod.inject)
qed

text \<open>C30: What passes the filter can be inserted: the keys (platform, submission, user) of the result
  are pairwise different, have a non-empty submission id and occur in no stored row, so the
  unique index of the table never rejects the batch.\<close>

theorem filter_new_insertable:
  "distinct (map batch_key (FilterNewSubmitLogs sh rows fetched))
   \<and> '''' \<notin> sl_submit_id ` set (FilterNewSubmitLogs sh rows fetched)
   \<and> batch_key ` set (FilterNewSubmitLogs sh rows fetched) \<inter> batch_key ` set rows = {}"
proof -
  note ins = FilterNew_insertable[of sh rows fetched]
  have "x \<notin> batch_key ` set rows" if "x \<in> batch_key ` set (FilterNewSubmitLogs sh rows fetched)" for x
    using that ins by (elim imageE) simp
  then show ?thesis using ins by (intro conjI) (simp, force, blast)
qed

definition clean_batch :: "SubmitLog list \<Rightarrow> bool" where
  "clean_batch ls \<longleftrightarrow> (\<forall>l\<in>set ls. sl_platform l = ''LeetCode'' \<longrightarrow> clean_log l)"

lemma clean_normalized: "clean_batch fetched \<Longrightarrow> clean_batch (normalized_batch fetched)"
  using dedupe_set[of "NormalizeSubmitIDs fetched"]
  by (fastforce simp: clean_batch_def NormalizeSubmitIDs_def clean_log_def)

lemma unseen_subset: "set (unseen rows fetched) \<subseteq> set (normalized_batch fetched)"
  by (auto simp: unseen_def Let_def)

lemma existing_ids_append:
  "existing_ids (rows @ extra) logs = existing_ids rows logs \<union> existing_ids extra logs"
  by (auto simp: existing_ids_def)

lemma unseen_append: "set (unseen (rows @ extra) fetched) \<subseteq> set (unseen rows fetched)"
  by (auto simp: unseen_def Let_def existing_ids_append)

lemma unseen_not_more:
  assumes "l \<in> set (unseen (rows @ extra) fetched)"
  shows "batch_key l \<notin> batch_key ` set extra"
proof
  assume "batch_key l \<in> batch_key ` set extra"
  then obtain r where r: "r \<in> set extra" "batch_key r = batch_key l" by auto
  have "l \<in> set (normalized_batch fetched)" using assms unseen_subset by blast
  then have "(sl_platform r, sl_submit_id r) \<in> existing_ids extra (normalized_batch fetched)"
    using r unfolding existing_ids_def by blast
  then show False using assms r(2)
    by (simp add: unseen_def Let_def existing_ids_append batch_key_def)
qed

lemma stats_day_clean: "clean_log l \<Longrightarrow> stats_day sh (sl_time l) \<noteq> None"
  by (simp add: stats_day_def clean_log_def)

lemma have_slugsI:
  assumes "r \<in> set rows" "is_lc_prob r" "sl_user r \<in> uids" "sl_external r \<in> exts"
    "\<not> is_zero_time (sl_time r)" "sl_external r \<noteq> ''''"
  shows "slug_key sh r (sl_external r) \<in> have_slugs sh rows uids exts"
  using assms by (auto simp: have_slugs_def)

lemma have_slugs_mono:
  "U \<subseteq> U' \<Longrightarrow> X \<subseteq> X' \<Longrightarrow> have_slugs sh rows U X \<subseteq> have_slugs sh rows U' X'"
  unfolding have_slugs_def set_map set_filter by (intro image_mono) auto

text \<open>A candidate that the filter drops has its slug and day in the stored rows or in the result.\<close>

lemma slug_filter_dropped:
  assumes cl: "clean_batch logs" and l: "l \<in> set logs"
    and nk: "batch_key l \<notin> batch_key ` set (filterLeetCodeProbAlreadyHaveSlug sh rows logs)"
  shows "is_cand l \<and> slug_key sh l (cand_ext l) \<in>
     have_slugs sh (rows @ filterLeetCodeProbAlreadyHaveSlug sh rows logs) {sl_user l} {cand_ext l}"
proof (cases "filter is_cand logs = []")
  case True
  then show ?thesis using l nk by (simp add: filterLeetCodeProbAlreadyHaveSlug_def Let_def)
next
  case False
  let ?cands = "filter is_cand logs"
  let ?have = "have_slugs sh rows (sl_user ` set ?cands) (cand_ext ` set ?cands)"
  let ?in = "map (\<lambda>l. (fill_ext l, cand_ext l)) logs"
  let ?res = "slug_loop sh ?have {} ?in"
  have res: "filterLeetCodeProbAlreadyHaveSlug sh rows logs = ?res"
    using False by (simp add: filterLeetCodeProbAlreadyHaveSlug_def Let_def)
  have "fill_ext l \<notin> set ?res"
  proof
    assume "fill_ext l \<in> set ?res"
    then have "batch_key (fill_ext l) \<in> batch_key ` set ?res" by (rule imageI)
    then show False using nk unfolding res fill_ext_fields by contradiction
  qed
  moreover have "(fill_ext l, cand_ext l) \<in> set ?in" using l by auto
  ultimately have d: "is_lc_prob l" "cand_ext l \<noteq> ''''"
    "slug_key sh l (cand_ext l) \<in> ?have
     \<or> (\<exists>l' \<in> set ?res. is_lc_prob l' \<and> (l', cand_ext l) \<in> set ?in
          \<and> slug_key sh l' (cand_ext l) = slug_key sh l (cand_ext l))"
    using slug_loop_dropped[of "fill_ext l" "cand_ext l" ?in sh ?have "{}"]
    by (simp_all only: fill_ext_fields empty_iff) blast+
  then have c: "is_cand l" by (simp add: is_cand_def)
  from d(3) have "slug_key sh l (cand_ext l) \<in> have_slugs sh (rows @ ?res) {sl_user l} {cand_ext l}"
  proof
    assume "slug_key sh l (cand_ext l) \<in> ?have"
    then show ?thesis by (auto simp: have_slugs_def)
  next
    assume "\<exists>l' \<in> set ?res. is_lc_prob l' \<and> (l', cand_ext l) \<in> set ?in
          \<and> slug_key sh l' (cand_ext l) = slug_key sh l (cand_ext l)"
    then obtain l0 where l0: "l0 \<in> set logs" "fill_ext l0 \<in> set ?res" "is_lc_prob l0"
      "cand_ext l0 = cand_ext l" "slug_key sh l0 (cand_ext l) = slug_key sh l (cand_ext l)"
      by auto
    then have "is_cand l0" "clean_log l0"
      using d(2) cl by (auto simp: is_cand_def is_lc_prob_def clean_batch_def)
    then have "sl_external (fill_ext l0) = cand_ext l" using cand_ext_filled l0(4) by simp
    then show ?thesis
      using have_slugsI[of "fill_ext l0" "rows @ ?res" "{sl_user l}" "{cand_ext l}" sh] l0 d(2)
        \<open>clean_log l0\<close> by (simp add: clean_log_def)
  qed
  with c show ?thesis unfolding res by simp
qed

text \<open>C7: Fetching the same page again adds nothing: once the rows that passed the filter are stored,
  the filter lets no row of the same fetch through. For LeetCode rows, which are also deduplicated by
  problem and Shanghai day, this needs a trimmed problem slug and a real time.\<close>

theorem recrawl_adds_nothing:
  assumes "clean_batch fetched"
  shows "FilterNewSubmitLogs sh (rows @ FilterNewSubmitLogs sh rows fetched) fetched = []"
proof (rule ccontr)
  let ?new = "FilterNewSubmitLogs sh rows fetched"
  let ?again = "unseen (rows @ ?new) fetched"
  assume *: "FilterNewSubmitLogs sh (rows @ ?new) fetched \<noteq> []"
  then have ne: "?again \<noteq> []" by (auto simp: FilterNew_eq)
  then have "unseen rows fetched \<noteq> []" using unseen_append[of rows ?new fetched] by auto
  then have new: "?new = filterLeetCodeProbAlreadyHaveSlug sh rows (unseen rows fetched)"
    by (simp add: FilterNew_eq)
  have cl: "clean_batch (unseen rows fetched)"
    using clean_normalized[OF assms] unseen_subset by (auto simp: clean_batch_def)
  have k: "is_cand l \<and> stats_day sh (sl_time l) \<noteq> None \<and>
      slug_key sh l (cand_ext l) \<in> have_slugs sh (rows @ ?new) {sl_user l} {cand_ext l}"
    if l: "l \<in> set ?again" for l
  proof -
    have u: "l \<in> set (unseen rows fetched)" using l unseen_append by blast
    have "batch_key l \<notin> batch_key ` set ?new" using unseen_not_more[OF l] .
    from slug_filter_dropped[OF cl u this[unfolded new]]
    have d: "is_cand l" "slug_key sh l (cand_ext l) \<in> have_slugs sh (rows @ ?new) {sl_user l} {cand_ext l}"
      unfolding new by blast+
    then have "clean_log l" using cl u by (auto simp: is_cand_def is_lc_prob_def clean_batch_def)
    with d stats_day_clean show ?thesis by blast
  qed
  have cands: "filter is_cand ?again = ?again" using k by (simp add: filter_id_conv)
  let ?have = "have_slugs sh (rows @ ?new) (sl_user ` set ?again) (cand_ext ` set ?again)"
  have h: "slug_key sh l (cand_ext l) \<in> ?have" if "l \<in> set ?again" for l
  proof -
    have "{sl_user l} \<subseteq> sl_user ` set ?again" "{cand_ext l} \<subseteq> cand_ext ` set ?again"
      using that by auto
    from have_slugs_mono[OF this] show ?thesis using k[OF that] by blast
  qed
  have "slug_loop sh ?have {} (map (\<lambda>l. (fill_ext l, cand_ext l)) ?again) = []"
  proof (rule slug_loop_all_known, clarsimp)
    fix l assume l: "l \<in> set ?again"
    show "is_lc_prob l \<and> cand_ext l \<noteq> [] \<and> (\<exists>y. stats_day sh (sl_time l) = Some y)
        \<and> slug_key sh l (cand_ext l) \<in> ?have"
      using k[OF l] h[OF l] by (auto simp: is_cand_def)
  qed
  then have "filterLeetCodeProbAlreadyHaveSlug sh (rows @ ?new) ?again = []"
    using ne unfolding filterLeetCodeProbAlreadyHaveSlug_def Let_def cands by simp
  then show False using * by (simp add: FilterNew_eq split: if_splits)
qed

theorem recrawl_adds_nothing_witness:
  "FilterNewSubmitLogs (\<lambda>t. 8 * hour_ns)
     ([] @ FilterNewSubmitLogs (\<lambda>t. 8 * hour_ns) []
        [demo_row\<lparr>sl_platform := ''LeetCode'', sl_submit_id := ''lc-prob-1'', sl_external := ''two-sum''\<rparr>])
     [demo_row\<lparr>sl_platform := ''LeetCode'', sl_submit_id := ''lc-prob-1'', sl_external := ''two-sum''\<rparr>] = []"
  by (rule recrawl_adds_nothing)
     (simp add: clean_batch_def clean_log_def demo_row_def trim_space_def trim_left_def is_space_def
        is_zero_time_def zero_time_def)

end
