(* ===== verification/UserAC.thy ===== *)
theory UserAC
  imports DailyStats
begin

text \<open>
  Accepted problems per user (\<^verbatim>\<open>app/core_data/internal/data/dal/user_ac.go\<close>), the best state per problem
  (\<^verbatim>\<open>user_problem_status.go\<close>) and the removal of solved problems from to-do lists
  (\<^verbatim>\<open>RemoveFromTodoOnAC\<close> in \<^verbatim>\<open>problemset.go\<close>). The tables are updated row by row when submissions are
  inserted; the theorems relate them to the submissions stored so far.
\<close>

subsection \<open>Tables\<close>

type_synonym uac_table = "int \<times> string \<rightharpoonup> string \<times> int"
type_synonym day_table = "int \<times> int \<times> string \<rightharpoonup> string"
type_synonym status_table = "int \<times> nat \<rightharpoonup> string \<times> int"

record Problemset =
  ps_id :: nat
  ps_owner :: int
  ps_kind :: string
  ps_item_count :: nat

record ac_tables =
  user_ac_problems :: uac_table
  user_ac_problem_days :: day_table
  user_problem_status :: status_table
  problemsets :: "Problemset list"
  problemset_items :: "(nat \<times> nat) list"

abbreviation "UserProblemStatusAC \<equiv> ''AC''"
abbreviation "UserProblemStatusTried \<equiv> ''TRIED''"
abbreviation "ProblemsetKindTodo \<equiv> ''todo''"

subsection \<open>Merges\<close>

text \<open>In the batch the earlier record wins with its platform; in the table the earlier time wins and
  the stored platform stays unless it is empty.\<close>

definition first_rec :: "string \<times> int \<Rightarrow> string \<times> int \<Rightarrow> string \<times> int" where
  "first_rec prev new = (if snd new < snd prev then new else prev)"

definition merge_uac :: "string \<times> int \<Rightarrow> string \<times> int \<Rightarrow> string \<times> int" where
  "merge_uac old new =
     ((if fst old = '''' then fst new else fst old), (if snd new < snd old then snd new else snd old))"

definition keep_old :: "'v \<Rightarrow> 'v \<Rightarrow> 'v" where
  "keep_old old new = old"

definition best_status :: "string \<Rightarrow> string \<Rightarrow> string" where
  "best_status cur st =
     (if cur = UserProblemStatusAC then cur else if st = UserProblemStatusAC then st else cur)"

definition merge_status :: "string \<times> int \<Rightarrow> string \<times> int \<Rightarrow> string \<times> int" where
  "merge_status old new = ((if fst old = ''AC'' then ''AC'' else fst new), snd new)"

subsection \<open>To-do lists\<close>

definition RemoveFromTodoOnAC :: "int \<Rightarrow> nat \<Rightarrow> ac_tables \<Rightarrow> ac_tables" where
  "RemoveFromTodoOnAC userID problemID T =
     (if userID \<le> 0 \<or> problemID = 0 then T
      else
        let ids = map ps_id (filter (\<lambda>p. ps_owner p = userID \<and> ps_kind p = ProblemsetKindTodo) (problemsets T)) in
        if ids = [] then T
        else
          let items = filter (\<lambda>(s, q). \<not> (s \<in> set ids \<and> q = problemID)) (problemset_items T) in
          if length items = length (problemset_items T) then T
          else T\<lparr>problemset_items := items,
                 problemsets := map (\<lambda>p. if ps_id p \<in> set ids
                     then p\<lparr>ps_item_count := length (filter (\<lambda>(s, q). s = ps_id p) items)\<rparr> else p)
                   (problemsets T)\<rparr>)"

subsection \<open>Problem states\<close>

definition best_states :: "SubmitLog list \<Rightarrow> ((int \<times> nat) \<times> string) list" where
  "best_states logs =
     collect_all best_status
       (map (\<lambda>l. ((sl_user l, the (sl_problem_id l)),
                  if sl_isac l then UserProblemStatusAC else UserProblemStatusTried))
         (filter (\<lambda>l. \<not> (sl_user l \<le> 0 \<or> sl_problem_id l = None \<or> sl_problem_id l = Some 0)) logs))"

definition ApplyUserProblemStatusFromSubmits :: "int \<Rightarrow> SubmitLog list \<Rightarrow> ac_tables \<Rightarrow> ac_tables option" where
  "ApplyUserProblemStatusFromSubmits now logs T =
     (let best = best_states logs in
      if best = [] then Some T
      else case upsert_in_batches merge_status 200 (map (\<lambda>(k, st). (k, (st, now))) best)
             (user_problem_status T) of
          None \<Rightarrow> None
        | Some t \<Rightarrow>
            Some (fold (\<lambda>((u, pid), st). if st = UserProblemStatusAC then RemoveFromTodoOnAC u pid else (\<lambda>T. T))
              best (T\<lparr>user_problem_status := t\<rparr>)))"

definition GetUserProblemStatuses :: "int \<Rightarrow> nat list \<Rightarrow> ac_tables \<Rightarrow> nat \<rightharpoonup> string" where
  "GetUserProblemStatuses userID pids T =
     (if userID \<le> 0 \<or> pids = [] then Map.empty
      else (\<lambda>pid. if pid \<in> set pids then map_option fst (user_problem_status T (userID, pid)) else None))"

subsection \<open>Accepted problems\<close>

definition ac_key :: "SubmitLog \<Rightarrow> int \<times> string" where
  "ac_key l = (sl_user l, ACProblemKeyFromLog l)"

definition first_map :: "SubmitLog list \<Rightarrow> ((int \<times> string) \<times> (string \<times> int)) list" where
  "first_map logs = collect_all first_rec
     (map (\<lambda>l. (ac_key l, (trim_space (sl_platform l), sl_time l))) (filter sl_isac logs))"

text \<open>Assigning under a key again replaces the row: the later one wins.\<close>

definition day_map :: "SubmitLog list \<Rightarrow> ((int \<times> int \<times> string) \<times> string) list" where
  "day_map logs = collect_all (\<lambda>old new. new)
     (map (\<lambda>l. ((sl_user l, row_day l, ACProblemKeyFromLog l), trim_space (sl_platform l)))
       (filter (\<lambda>l. sl_isac l \<and> \<not> IsLeetCodeOfficialACKey (ACProblemKeyFromLog l)) logs))"

text \<open>A failure of the problem states is only logged.\<close>

definition ApplyUserACFromSubmits ::
  "int \<Rightarrow> SubmitLog list \<Rightarrow> ac_tables \<Rightarrow> ac_tables option" where
  "ApplyUserACFromSubmits now logs T =
     (if logs = [] then Some T
      else case (if first_map logs = [] then Some (user_ac_problems T)
                 else upsert_in_batches merge_uac 200 (first_map logs) (user_ac_problems T)) of
          None \<Rightarrow> None
        | Some t \<Rightarrow>
            let d = (if day_map logs = [] then user_ac_problem_days T
                     else upserts keep_old (concat (chunks 200 (day_map logs))) (user_ac_problem_days T));
                T1 = T\<lparr>user_ac_problems := t, user_ac_problem_days := d\<rparr>
            in (case ApplyUserProblemStatusFromSubmits now logs T1 of None \<Rightarrow> Some T1 | Some T2 \<Rightarrow> Some T2))"

subsection \<open>Counting\<close>

text \<open>The SQL score: all keys of the other platforms, and for LeetCode the official keys if there are any.
  The rows of one user are a list of (key, platform).\<close>

definition official_like :: "string \<Rightarrow> bool" where
  "official_like key \<longleftrightarrow> has_prefix key ''e:LeetCode:ac-''"

definition lifetimeACScoreSQL :: "(string \<times> string) list \<Rightarrow> nat" where
  "lifetimeACScoreSQL rows =
     length (filter (\<lambda>(key, plat). plat \<noteq> ''LeetCode'') rows)
     + (if length (filter (\<lambda>(key, plat). plat = ''LeetCode'' \<and> official_like key) rows) > 0
        then length (filter (\<lambda>(key, plat). plat = ''LeetCode'' \<and> official_like key) rows)
        else length (filter (\<lambda>(key, plat). plat = ''LeetCode'') rows))"

definition CountUserLifetimeAC :: "int \<Rightarrow> (int \<times> string \<times> string) list \<Rightarrow> nat" where
  "CountUserLifetimeAC userID tab =
     (if userID \<le> 0 then 0
      else lifetimeACScoreSQL (map snd (filter (\<lambda>(u, key, plat). u = userID) tab)))"

text \<open>The exchange sort of the result: position \<open>i\<close> against every later one, larger counts first.\<close>

fun sift :: "(string \<times> nat) \<Rightarrow> (string \<times> nat) list \<Rightarrow> (string \<times> nat) \<times> (string \<times> nat) list" where
  "sift x [] = (x, [])"
| "sift x (y # ys) =
     (if snd y > snd x then let (m, r) = sift y ys in (m, x # r)
      else let (m, r) = sift x ys in (m, y # r))"

lemma sift_length: "length (snd (sift x ys)) = length ys"
  by (induction x ys rule: sift.induct) (auto split: prod.splits)

function exchange_sort :: "(string \<times> nat) list \<Rightarrow> (string \<times> nat) list" where
  "exchange_sort [] = []"
| "exchange_sort (x # xs) = fst (sift x xs) # exchange_sort (snd (sift x xs))"
  by pat_completeness auto
termination by (relation "measure length") (auto simp: sift_length)

definition ListUserPlatformAC :: "int \<Rightarrow> (int \<times> string \<times> string) list \<Rightarrow> (string \<times> nat) list" where
  "ListUserPlatformAC userID tab =
     (if userID \<le> 0 then []
      else
        let rows = map snd (filter (\<lambda>(u, key, plat). u = userID) tab);
            names = map (\<lambda>(key, plat). if btrim plat = '''' then ''unknown'' else btrim plat)
              (filter (\<lambda>(key, plat). plat \<noteq> ''LeetCode'') rows);
            others = map (\<lambda>n. (n, count_list names n)) (remdups names);
            lc = filter (\<lambda>(key, plat). plat = ''LeetCode'') rows;
            off = length (filter (\<lambda>(key, plat). official_like key) lc);
            n = (if off > 0 then off else length lc)
        in exchange_sort (others @ (if n > 0 then [(''LeetCode'', n)] else [])))"

text \<open>The key as the SQL statements compute it.\<close>

definition sql_problem_key :: "SubmitLog \<Rightarrow> string" where
  "sql_problem_key r =
     (if sl_problem_id r \<noteq> None \<and> sl_problem_id r \<noteq> Some 0 then ''p:'' @ nat_str (the (sl_problem_id r))
      else if btrim (sl_external r) \<noteq> '''' then ''e:'' @ sl_platform r @ '':'' @ sl_external r
      else ''n:'' @ sl_platform r @ '':'' @ sl_problem r)"

definition ComputeLifetimeACRaw ::
  "int \<Rightarrow> int \<Rightarrow> SubmitLog list \<Rightarrow> (int \<times> string \<times> string) list \<Rightarrow> int" where
  "ComputeLifetimeACRaw userID lifetimeUnique rows tab =
     (if userID \<le> 0 then lifetimeUnique
      else
        let nonLC = int (length (filter (\<lambda>r. sl_user r = userID \<and> sl_isac r \<and> sl_platform r \<noteq> ''LeetCode'') rows));
            lc = filter (\<lambda>r. sl_user r = userID \<and> sl_isac r \<and> sl_platform r = ''LeetCode''
                   \<and> SQLExcludeLeetCodeOfficialACSubmit r) rows;
            events = int (length lc);
            dist = int (length (remdups (map sql_problem_key lc)));
            lcOfficial = int (length (filter (\<lambda>(u, key, plat). u = userID \<and> official_like key) tab));
            lcPart = (if lcOfficial > 0 then
                        let extras = (if events - dist < 0 then 0 else events - dist);
                            part = lcOfficial + extras
                        in if events > part then events else part
                      else events);
            raw = nonLC + lcPart
        in if raw < lifetimeUnique then lifetimeUnique else raw)"

subsection \<open>Rebuild, promotion and deletion\<close>

definition min_time :: "SubmitLog list \<Rightarrow> int option" where
  "min_time ls = (case map sl_time ls of [] \<Rightarrow> None | t # ts \<Rightarrow> Some (fold min ts t))"

text \<open>The rebuild of one user. It runs outside a transaction: an \<^verbatim>\<open>INSERT\<close> that violates the primary
  key of \<^verbatim>\<open>user_ac_problems\<close> (the same key under two platforms) returns an error after the old rows are gone.
  The result is (error, daily table, tables).\<close>

definition rebuild_conflict :: "SubmitLog list \<Rightarrow> bool" where
  "rebuild_conflict rs =
     list_ex (\<lambda>a. list_ex (\<lambda>b. sql_problem_key a = sql_problem_key b
        \<and> sql_platform (sl_platform a) \<noteq> sql_platform (sl_platform b)) rs) rs"

definition rebuild_days_conflict :: "zone \<Rightarrow> SubmitLog list \<Rightarrow> bool" where
  "rebuild_days_conflict loc rs =
     list_ex (\<lambda>a. list_ex (\<lambda>b. sql_problem_key a = sql_problem_key b
        \<and> civil_day loc (sl_time a) = civil_day loc (sl_time b)
        \<and> sql_platform (sl_platform a) \<noteq> sql_platform (sl_platform b)) rs) rs"

definition RebuildUserPreaggFromSubmits ::
  "zone \<Rightarrow> int \<Rightarrow> SubmitLog list \<Rightarrow> daily_table \<Rightarrow> ac_tables \<Rightarrow> bool \<times> daily_table \<times> ac_tables" where
  "RebuildUserPreaggFromSubmits loc userId rows daily T =
     (if userId \<le> 0 then (False, daily, T)
      else
        let mine = filter (\<lambda>r. sl_user r = userId) rows;
            ac = filter sl_isac mine;
            dayrs = filter (\<lambda>r. SQLExcludeLeetCodeOfficialACSubmit r
                      \<and> SQLExcludeLeetCodeOfficialACKey (sql_problem_key r)) ac;
            daily' = (\<lambda>(u, d, p). if u = userId then sql_daily loc mine (u, d, p) else daily (u, d, p));
            gone = (\<lambda>(u, key). if u = userId then None else user_ac_problems T (u, key));
            uac = (\<lambda>(u, key). if u = userId then
                (let g = filter (\<lambda>r. sql_problem_key r = key) ac in
                 case g of [] \<Rightarrow> None
                 | r # _ \<Rightarrow> Some (sql_platform (sl_platform r), the (min_time g)))
               else user_ac_problems T (u, key));
            daygone = (\<lambda>(u, d, key). if u = userId then None else user_ac_problem_days T (u, d, key));
            days = (\<lambda>(u, d, key). if u = userId then
                (case filter (\<lambda>r. sql_problem_key r = key \<and> civil_day loc (sl_time r) = d) dayrs of
                   [] \<Rightarrow> None | r # _ \<Rightarrow> Some (sql_platform (sl_platform r)))
               else user_ac_problem_days T (u, d, key))
        in if rebuild_conflict ac then (True, daily', T\<lparr>user_ac_problems := gone\<rparr>)
           else if rebuild_days_conflict loc dayrs then
             (True, daily', T\<lparr>user_ac_problems := uac, user_ac_problem_days := daygone\<rparr>)
           else (False, daily', T\<lparr>user_ac_problems := uac, user_ac_problem_days := days\<rparr>))"

definition problemIDKey :: "nat \<Rightarrow> string" where
  "problemIDKey problemID = ''p:'' @ nat_str problemID"

text \<open>The key list of a promotion: trimmed, without blanks, repetitions and the target key. Where the
  query returns several rows, they are taken in the order of the keys; the order only decides
  which of several platform names is kept.\<close>

fun promote_keys :: "string \<Rightarrow> string set \<Rightarrow> string list \<Rightarrow> string list" where
  "promote_keys newKey seen [] = []"
| "promote_keys newKey seen (k # ks) =
     (let t = trim_space k in
      if t = '''' \<or> t = newKey then promote_keys newKey seen ks
      else if t \<in> seen then promote_keys newKey seen ks
      else t # promote_keys newKey (insert t seen) ks)"

definition pick_first :: "string \<times> int \<Rightarrow> string \<times> int \<Rightarrow> string \<times> int" where
  "pick_first acc r =
     ((if fst acc = '''' \<and> fst r \<noteq> '''' then fst r else fst acc),
      (if snd r < snd acc then snd r else snd acc))"

definition promoted_row :: "(string \<times> int) list \<Rightarrow> (string \<times> int) option \<Rightarrow> string \<times> int" where
  "promoted_row rows existing =
     (let acc = fold (\<lambda>r a. pick_first a r) rows (hd rows)
      in case existing of
           None \<Rightarrow> acc
         | Some e \<Rightarrow> ((if fst e \<noteq> '''' then fst e else fst acc),
                       (if snd e < snd acc then snd e else snd acc)))"

definition PromoteUserACKeysToProblemID :: "int \<Rightarrow> string list \<Rightarrow> nat \<Rightarrow> ac_tables \<Rightarrow> ac_tables" where
  "PromoteUserACKeysToProblemID userID oldKeys problemID T =
     (if userID \<le> 0 \<or> problemID = 0 then T
      else
        let newKey = problemIDKey problemID;
            keys = promote_keys newKey {} oldKeys;
            rows = List.map_filter (\<lambda>k. user_ac_problems T (userID, k)) keys;
            uac = (if keys = [] \<or> rows = [] then user_ac_problems T
                   else (\<lambda>(u, k). if u = userID \<and> k \<in> set keys then None
                          else upsert merge_uac
                            ((userID, newKey), promoted_row rows (user_ac_problems T (userID, newKey)))
                            (user_ac_problems T) (u, k)));
            days = (if keys = [] then user_ac_problem_days T
                   else (\<lambda>(u, d, k).
                     if u = userID \<and> k \<in> set keys then None
                     else if u = userID \<and> k = newKey then
                       (case user_ac_problem_days T (u, d, newKey) of
                          Some p \<Rightarrow> Some p
                        | None \<Rightarrow> (case List.map_filter (\<lambda>k. user_ac_problem_days T (userID, d, k)) keys of
                                     [] \<Rightarrow> None | p # _ \<Rightarrow> Some p))
                     else user_ac_problem_days T (u, d, k)))
        in T\<lparr>user_ac_problems := uac, user_ac_problem_days := days\<rparr>)"

definition PromoteUserACFromBoundSubmits :: "int \<Rightarrow> SubmitLog list \<Rightarrow> ac_tables \<Rightarrow> ac_tables" where
  "PromoteUserACFromBoundSubmits userID rows T =
     (if userID \<le> 0 then T
      else fold (\<lambda>(pid, plat, ext, prob).
             PromoteUserACKeysToProblemID userID
               [ACProblemKey plat ext prob None, ACProblemKey plat '''' prob None] pid)
           (remdups (map (\<lambda>r. (the (sl_problem_id r), sl_platform r, sl_external r, sl_problem r))
             (filter (\<lambda>r. sl_user r = userID \<and> sl_isac r \<and> sl_problem_id r \<noteq> None
                \<and> sl_problem_id r \<noteq> Some 0) rows))) T)"

definition DeletePlatformUserAC :: "int \<Rightarrow> string \<Rightarrow> ac_tables \<Rightarrow> ac_tables" where
  "DeletePlatformUserAC userID platform T =
     (if userID \<le> 0 \<or> platform = '''' then T
      else T\<lparr>user_ac_problems := (\<lambda>(u, k). case user_ac_problems T (u, k) of
                 Some r \<Rightarrow> if u = userID \<and> fst r = platform then None else Some r | None \<Rightarrow> None),
             user_ac_problem_days := (\<lambda>(u, d, k). case user_ac_problem_days T (u, d, k) of
                 Some p \<Rightarrow> if u = userID \<and> p = platform then None else Some p | None \<Rightarrow> None)\<rparr>)"

definition DeleteUserPreagg :: "int \<Rightarrow> daily_table \<times> ac_tables \<Rightarrow> daily_table \<times> ac_tables" where
  "DeleteUserPreagg userId = (\<lambda>(daily, T).
     if userId \<le> 0 then (daily, T)
     else ((\<lambda>(u, d, p). if u = userId then None else daily (u, d, p)),
           T\<lparr>user_ac_problems := (\<lambda>(u, k). if u = userId then None else user_ac_problems T (u, k)),
             user_ac_problem_days := (\<lambda>(u, d, k). if u = userId then None else user_ac_problem_days T (u, d, k)),
             user_problem_status := (\<lambda>(u, p). if u = userId then None else user_problem_status T (u, p))\<rparr>))"

subsection \<open>The laws of the merges\<close>

interpretation first: merge_law first_rec
  by unfold_locales (auto simp: first_rec_def)

interpretation uac: merge_law merge_uac
  by unfold_locales (auto simp: merge_uac_def)

interpretation min_int: comm_merge "min :: int \<Rightarrow> int \<Rightarrow> int"
  by unfold_locales (auto simp: min.commute min.assoc)

interpretation best: merge_law best_status
  by unfold_locales (auto simp: best_status_def)

interpretation status: merge_law merge_status
  by unfold_locales (auto simp: merge_status_def)

lemma snd_merges: "snd (first_rec a b) = min (snd a) (snd b)" "snd (merge_uac a b) = min (snd a) (snd b)"
  by (auto simp: first_rec_def merge_uac_def)

subsection \<open>What the tables say about the stored submissions\<close>

definition ac_first :: "SubmitLog list \<Rightarrow> int \<times> string \<Rightarrow> int option" where
  "ac_first rows k =
     (let ts = set (map sl_time (filter (\<lambda>l. sl_isac l \<and> ac_key l = k) rows))
      in if ts = {} then None else Some (Min ts))"

definition ac_days :: "SubmitLog list \<Rightarrow> (int \<times> int \<times> string) set" where
  "ac_days rows =
     set (map (\<lambda>l. (sl_user l, row_day l, ACProblemKeyFromLog l))
       (filter (\<lambda>l. sl_isac l \<and> \<not> IsLeetCodeOfficialACKey (ACProblemKeyFromLog l)) rows))"

definition bound_to :: "int \<times> nat \<Rightarrow> SubmitLog \<Rightarrow> bool" where
  "bound_to k l \<longleftrightarrow> \<not> (sl_user l \<le> 0 \<or> sl_problem_id l = None \<or> sl_problem_id l = Some 0)
     \<and> k = (sl_user l, the (sl_problem_id l))"

definition state_of :: "SubmitLog list \<Rightarrow> int \<times> nat \<Rightarrow> string option" where
  "state_of rows k =
     (if list_ex (\<lambda>l. bound_to k l \<and> sl_isac l) rows then Some UserProblemStatusAC
      else if list_ex (bound_to k) rows then Some UserProblemStatusTried else None)"

definition ac_matches :: "SubmitLog list \<Rightarrow> ac_tables \<Rightarrow> bool" where
  "ac_matches rows T \<longleftrightarrow>
     (\<forall>k. map_option snd (user_ac_problems T k) = ac_first rows k)
     \<and> dom (user_ac_problem_days T) = ac_days rows
     \<and> (\<forall>k. map_option fst (user_problem_status T k) = state_of rows k)"

abbreviation "ac_times rows \<equiv> map (\<lambda>l. (ac_key l, sl_time l)) (filter sl_isac rows)"

lemma Min_insert_opt: "finite A \<Longrightarrow> (if A = {} then t else min (Min A) t) = Min (insert (t::int) A)"
  by (simp add: min.commute)

lemma ac_first_upserts: "upserts min (ac_times rows) Map.empty = ac_first rows"
proof
  fix k
  show "upserts min (ac_times rows) Map.empty k = ac_first rows k"
  proof (induction rows rule: rev_induct)
    case (snoc l rows)
    show ?case
    proof (cases "sl_isac l \<and> ac_key l = k")
      case True
      let ?ts = "set (map sl_time (filter (\<lambda>l. sl_isac l \<and> ac_key l = k) rows))"
      have "upserts min (ac_times (rows @ [l])) Map.empty k
         = Some (case ac_first rows k of None \<Rightarrow> sl_time l | Some t \<Rightarrow> min t (sl_time l))"
        using True snoc by (cases "ac_first rows k") (simp_all add: upserts_simps upsert_def)
      also have "\<dots> = Some (if ?ts = {} then sl_time l else min (Min ?ts) (sl_time l))"
        unfolding ac_first_def Let_def by (cases "?ts = {}") (simp_all only: if_True if_False option.simps refl)
      also have "\<dots> = ac_first (rows @ [l]) k"
      proof -
        have "set (map sl_time (filter (\<lambda>l. sl_isac l \<and> ac_key l = k) (rows @ [l]))) = insert (sl_time l) ?ts"
          using True by auto
        then show ?thesis by (simp only: ac_first_def Let_def) (simp only: insert_not_empty if_False Min_insert_opt finite_set)
      qed
      finally show ?thesis .
    next
      case False
      then have "upserts min (ac_times (rows @ [l])) Map.empty k = upserts min (ac_times rows) Map.empty k"
        by (auto simp: upserts_simps upsert_def)
      then show ?thesis using snoc False by (auto simp: ac_first_def)
    qed
  qed (simp add: ac_first_def upserts_simps)
qed

lemma first_map_distinct: "distinct (map fst (first_map logs))"
  by (simp add: first_map_def)

lemma first_map_times:
  "upserts min (map (\<lambda>kv. (fst kv, snd (snd kv))) (first_map logs)) t = upserts min (ac_times logs) t"
proof
  fix k
  let ?kvs = "map (\<lambda>l. (ac_key l, (trim_space (sl_platform l), sl_time l))) (filter sl_isac logs)"
  have d: "distinct (map fst (map (\<lambda>kv. (fst kv, snd (snd kv))) (first_map logs)))"
    using first_map_distinct by (simp add: o_def)
  have "map_of (map (\<lambda>kv. (fst kv, snd (snd kv))) (first_map logs)) k
      = map_option snd (map_of (first_map logs) k)"
    by (rule map_of_map_value)
  also have "\<dots> = upserts min (ac_times logs) Map.empty k"
    unfolding first_map_def collect_all_map_of
    using upserts_hom[of snd first_rec min ?kvs Map.empty k] by (simp add: snd_merges o_def)
  finally show "upserts min (map (\<lambda>kv. (fst kv, snd (snd kv))) (first_map logs)) t k
      = upserts min (ac_times logs) t k"
    by (subst (2) min_int.upserts_at) (simp add: upserts_distinct[OF d])
qed

lemma ac_first_append: "upserts min (ac_times neu) (ac_first rows) = ac_first (rows @ neu)"
  by (simp add: ac_first_upserts[symmetric] upserts_simps)

subsection \<open>Problem states and to-do lists\<close>

lemma RemoveFromTodo_tables [simp]:
  "user_ac_problems (RemoveFromTodoOnAC u p T) = user_ac_problems T"
  "user_ac_problem_days (RemoveFromTodoOnAC u p T) = user_ac_problem_days T"
  "user_problem_status (RemoveFromTodoOnAC u p T) = user_problem_status T"
  by (simp_all add: RemoveFromTodoOnAC_def Let_def)

abbreviation "remove_solved best T \<equiv>
  fold (\<lambda>((u, pid), st). if st = UserProblemStatusAC then RemoveFromTodoOnAC u pid else (\<lambda>T. T)) best T"

lemma remove_solved_tables [simp]:
  "user_ac_problems (remove_solved best T) = user_ac_problems T"
  "user_ac_problem_days (remove_solved best T) = user_ac_problem_days T"
  "user_problem_status (remove_solved best T) = user_problem_status T"
  by (induction best arbitrary: T) auto

abbreviation "state_rows logs \<equiv>
  map (\<lambda>l. ((sl_user l, the (sl_problem_id l)), if sl_isac l then UserProblemStatusAC else UserProblemStatusTried))
    (filter (\<lambda>l. \<not> (sl_user l \<le> 0 \<or> sl_problem_id l = None \<or> sl_problem_id l = Some 0)) logs)"

lemma state_of_upserts: "upserts best_status (state_rows rows) Map.empty k = state_of rows k"
proof (induction rows rule: rev_induct)
  case (snoc l rows)
  show ?case
  proof (cases "bound_to k l")
    case True
    then have "upserts best_status (state_rows (rows @ [l])) Map.empty k
       = Some (case state_of rows k of None \<Rightarrow> if sl_isac l then ''AC'' else ''TRIED''
               | Some s \<Rightarrow> best_status s (if sl_isac l then ''AC'' else ''TRIED''))"
      using snoc by (cases "state_of rows k") (auto simp: upserts_simps upsert_def bound_to_def)
    moreover have "\<dots> = state_of (rows @ [l]) k"
      using True by (auto simp: state_of_def best_status_def split: if_splits)
    ultimately show ?thesis by (rule trans)
  next
    case False
    then have "upserts best_status (state_rows (rows @ [l])) Map.empty k
       = upserts best_status (state_rows rows) Map.empty k"
      by (auto simp: upserts_simps upsert_def bound_to_def)
    then show ?thesis using snoc False by (simp add: state_of_def)
  qed
qed (simp add: state_of_def upserts_simps)

lemma best_states_at: "map_of (best_states logs) k = state_of logs k"
  unfolding best_states_def collect_all_map_of by (rule state_of_upserts)

lemma best_states_distinct: "distinct (map fst (best_states logs))"
  by (simp add: best_states_def)

lemma state_of_append:
  "state_of (rows @ neu) k = (case state_of neu k of None \<Rightarrow> state_of rows k
     | Some s \<Rightarrow> (case state_of rows k of None \<Rightarrow> Some s | Some o' \<Rightarrow> Some (if o' = ''AC'' then ''AC'' else s)))"
  by (auto simp: state_of_def)

text \<open>The write of the states never fails and makes every state that of all the submissions.\<close>

lemma ApplyUserProblemStatus_eq:
  "\<exists>t. ApplyUserProblemStatusFromSubmits now logs T
       = Some (remove_solved (best_states logs) (T\<lparr>user_problem_status := t\<rparr>))
     \<and> (\<forall>k. map_option fst (t k) = (case state_of logs k of None \<Rightarrow> map_option fst (user_problem_status T k)
           | Some s \<Rightarrow> Some (case user_problem_status T k of None \<Rightarrow> s | Some r \<Rightarrow> if fst r = ''AC'' then ''AC'' else s)))"
proof -
  let ?kvs = "map (\<lambda>(k, st). (k, (st, now))) (best_states logs)"
  have d: "distinct (map fst ?kvs)" using best_states_distinct by (simp add: o_def case_prod_beta')
  have m: "map_of ?kvs k = map_option (\<lambda>s. (s, now)) (state_of logs k)" for k
    using map_of_map_value[of "\<lambda>s. (s, now)" "best_states logs" k] by (simp add: best_states_at case_prod_beta')
  let ?t = "upserts merge_status ?kvs (user_problem_status T)"
  have t: "map_option fst (?t k) = (case state_of logs k of None \<Rightarrow> map_option fst (user_problem_status T k)
           | Some s \<Rightarrow> Some (case user_problem_status T k of None \<Rightarrow> s | Some r \<Rightarrow> if fst r = ''AC'' then ''AC'' else s))"
    for k
    by (auto simp: upserts_distinct[OF d] m merge_status_def split: option.splits)
  have "ApplyUserProblemStatusFromSubmits now logs T
      = Some (remove_solved (best_states logs) (T\<lparr>user_problem_status := ?t\<rparr>))"
    using d by (auto simp: ApplyUserProblemStatusFromSubmits_def upsert_in_batches_distinct Let_def
        upserts_simps)
  with t show ?thesis by blast
qed

definition todo_sets :: "int \<Rightarrow> Problemset list \<Rightarrow> nat set" where
  "todo_sets u ps = set (map ps_id (filter (\<lambda>p. ps_owner p = u \<and> ps_kind p = ProblemsetKindTodo) ps))"

definition counts_ok :: "ac_tables \<Rightarrow> bool" where
  "counts_ok T \<longleftrightarrow> (\<forall>p\<in>set (problemsets T).
     ps_item_count p = length (filter (\<lambda>(s, q). s = ps_id p) (problemset_items T)))"

lemma todo_sets_count [simp]:
  "todo_sets u (map (\<lambda>p. if P p then p\<lparr>ps_item_count := c p\<rparr> else p) ps) = todo_sets u ps"
  by (induction ps) (auto simp: todo_sets_def)

lemma RemoveFromTodo_sets [simp]: "todo_sets v (problemsets (RemoveFromTodoOnAC u p T)) = todo_sets v (problemsets T)"
  by (simp add: RemoveFromTodoOnAC_def Let_def)

lemma RemoveFromTodo_items:
  "0 < u \<Longrightarrow> p \<noteq> 0 \<Longrightarrow> set (problemset_items (RemoveFromTodoOnAC u p T)) =
     {(s, q) \<in> set (problemset_items T). \<not> (s \<in> todo_sets u (problemsets T) \<and> q = p)}"
proof -
  assume u: "0 < u" "p \<noteq> 0"
  let ?ids = "map ps_id (filter (\<lambda>p. ps_owner p = u \<and> ps_kind p = ProblemsetKindTodo) (problemsets T))"
  let ?f = "\<lambda>(s, q). \<not> (s \<in> set ?ids \<and> q = p)"
  have ids: "set ?ids = todo_sets u (problemsets T)" by (auto simp: todo_sets_def)
  have "problemset_items (RemoveFromTodoOnAC u p T) = filter ?f (problemset_items T)"
  proof (cases "?ids = [] \<or> length (filter ?f (problemset_items T)) = length (problemset_items T)")
    case True
    then have "filter ?f (problemset_items T) = problemset_items T"
    proof
      assume i: "?ids = []"
      show ?thesis unfolding i by (simp add: case_prod_beta')
    next
      assume l: "length (filter ?f (problemset_items T)) = length (problemset_items T)"
      have "\<forall>x\<in>set (problemset_items T). ?f x"
      proof
        fix x assume "x \<in> set (problemset_items T)"
        then show "?f x" using length_filter_less[of x "problemset_items T" ?f] l by linarith
      qed
      then show ?thesis by (rule filter_True)
    qed
    with True u show ?thesis by (auto simp: RemoveFromTodoOnAC_def Let_def)
  next
    case False
    with u show ?thesis by (simp add: RemoveFromTodoOnAC_def Let_def)
  qed
  then show ?thesis unfolding ids[symmetric] by auto
qed

lemma counts_ok_recount:
  assumes "counts_ok T"
    and "\<And>i. i \<notin> I \<Longrightarrow> filter (\<lambda>(s, q). s = i) items = filter (\<lambda>(s, q). s = i) (problemset_items T)"
  shows "counts_ok (T\<lparr>problemset_items := items,
     problemsets := map (\<lambda>p. if ps_id p \<in> I
       then p\<lparr>ps_item_count := length (filter (\<lambda>(s, q). s = ps_id p) items)\<rparr> else p) (problemsets T)\<rparr>)"
  using assms by (auto simp: counts_ok_def)

lemma RemoveFromTodo_counts:
  assumes "counts_ok T"
  shows "counts_ok (RemoveFromTodoOnAC u p T)"
proof -
  let ?ids = "map ps_id (filter (\<lambda>p. ps_owner p = u \<and> ps_kind p = ProblemsetKindTodo) (problemsets T))"
  let ?items = "filter (\<lambda>(s, q). \<not> (s \<in> set ?ids \<and> q = p)) (problemset_items T)"
  have same: "filter (\<lambda>(s, q). s = i) ?items = filter (\<lambda>(s, q). s = i) (problemset_items T)"
    if "i \<notin> set ?ids" for i
    using that by (auto simp: filter_filter intro!: filter_cong)
  consider (same) "RemoveFromTodoOnAC u p T = T"
    | (new) "RemoveFromTodoOnAC u p T = T\<lparr>problemset_items := ?items,
        problemsets := map (\<lambda>p. if ps_id p \<in> set ?ids
          then p\<lparr>ps_item_count := length (filter (\<lambda>(s, q). s = ps_id p) ?items)\<rparr> else p) (problemsets T)\<rparr>"
    unfolding RemoveFromTodoOnAC_def Let_def by presburger
  then show ?thesis
  proof cases
    case new
    show ?thesis unfolding new by (rule counts_ok_recount[OF assms]) (rule same)
  qed (simp add: assms)
qed

lemma remove_solved_items:
  assumes "\<forall>((u, p), st)\<in>set best. 0 < u \<and> p \<noteq> 0"
  shows "set (problemset_items (remove_solved best T)) =
     {(s, q) \<in> set (problemset_items T).
        \<not> (\<exists>u. ((u, q), UserProblemStatusAC) \<in> set best \<and> s \<in> todo_sets u (problemsets T))}
   \<and> (\<forall>v. todo_sets v (problemsets (remove_solved best T)) = todo_sets v (problemsets T))
   \<and> (counts_ok T \<longrightarrow> counts_ok (remove_solved best T))"
  using assms
proof (induction best arbitrary: T)
  case (Cons x best)
  obtain u p st where x: "x = ((u, p), st)" by (metis prod.exhaust)
  show ?case
  proof (cases "st = UserProblemStatusAC")
    case True
    have up: "0 < u" "p \<noteq> 0" using Cons.prems by (auto simp: x)
    have IH: "set (problemset_items (remove_solved best (RemoveFromTodoOnAC u p T))) =
       {(s, q) \<in> set (problemset_items (RemoveFromTodoOnAC u p T)).
        \<not> (\<exists>u. ((u, q), UserProblemStatusAC) \<in> set best \<and> s \<in> todo_sets u (problemsets T))}"
      "\<forall>v. todo_sets v (problemsets (remove_solved best (RemoveFromTodoOnAC u p T))) = todo_sets v (problemsets T)"
      "counts_ok T \<longrightarrow> counts_ok (remove_solved best (RemoveFromTodoOnAC u p T))"
      using Cons.IH[of "RemoveFromTodoOnAC u p T"] Cons.prems RemoveFromTodo_counts by simp_all
    have step: "remove_solved (x # best) T = remove_solved best (RemoveFromTodoOnAC u p T)"
      using True by (simp add: x)
    show ?thesis
      unfolding step using IH(2,3)
      by (intro conjI) (unfold IH(1) RemoveFromTodo_items[OF up] x True, auto)
  next
    case False
    then have "remove_solved (x # best) T = remove_solved best T" by (simp add: x)
    then show ?thesis using Cons.IH[of T] Cons.prems False by (simp add: x)
  qed
qed auto

lemma best_states_pos: "\<forall>((u, p), st)\<in>set (best_states logs). 0 < u \<and> p \<noteq> 0"
proof clarify
  fix u p st assume "((u, p), st) \<in> set (best_states logs)"
  then have "(u, p) \<in> fst ` set (best_states logs)" by force
  then show "0 < u \<and> p \<noteq> 0"
    unfolding best_states_def fst_collect_all by auto
qed

lemma best_states_set: "(k, st) \<in> set (best_states logs) \<longleftrightarrow> state_of logs k = Some st"
  using best_states_distinct best_states_at by (metis map_of_eq_Some_iff)

subsection \<open>The write of accepted submissions\<close>

declare split_paired_All [simp del]

lemma dom_day_map: "fst ` set (day_map logs) = ac_days logs"
  by (simp add: day_map_def fst_collect_all ac_days_def image_image)

lemma first_map_write:
  "\<exists>t. (if first_map neu = [] then Some T else upsert_in_batches merge_uac 200 (first_map neu) T) = Some t
     \<and> (\<forall>k. map_option snd (t k) = upserts min (ac_times neu) (\<lambda>k. map_option snd (T k)) k)"
proof -
  have "map_option snd (upserts merge_uac (first_map neu) T k)
      = upserts min (ac_times neu) (\<lambda>k. map_option snd (T k)) k" for k
    by (simp add: upserts_hom[of snd merge_uac min] snd_merges first_map_times)
  moreover have "first_map neu = [] \<Longrightarrow> upserts merge_uac (first_map neu) T = T"
    by (simp add: upserts_simps)
  ultimately show ?thesis
    using first_map_distinct[of neu] by (auto simp: upsert_in_batches_distinct)
qed

lemma ApplyUserAC_full:
  assumes "ac_matches rows T"
  obtains T' where "ApplyUserACFromSubmits now neu T = Some T'" and "ac_matches (rows @ neu) T'"
    and "neu \<noteq> [] \<Longrightarrow> \<exists>T1. problemset_items T1 = problemset_items T \<and> problemsets T1 = problemsets T
           \<and> T' = remove_solved (best_states neu) T1"
proof (cases "neu = []")
  case True
  then show ?thesis using that[of T] assms by (simp add: ApplyUserACFromSubmits_def)
next
  case False
  obtain t where t: "(if first_map neu = [] then Some (user_ac_problems T)
        else upsert_in_batches merge_uac 200 (first_map neu) (user_ac_problems T)) = Some t"
    "\<And>k. map_option snd (t k) = upserts min (ac_times neu) (\<lambda>k. map_option snd (user_ac_problems T k)) k"
    using first_map_write[of neu "user_ac_problems T"] by blast
  define d where "d = (if day_map neu = [] then user_ac_problem_days T
       else upserts keep_old (concat (chunks 200 (day_map neu))) (user_ac_problem_days T))"
  have dd: "dom d = dom (user_ac_problem_days T) \<union> ac_days neu"
    using dom_day_map[of neu] by (auto simp: d_def upserts_dom)
  let ?T1 = "T\<lparr>user_ac_problems := t, user_ac_problem_days := d\<rparr>"
  have ups: "user_problem_status ?T1 = user_problem_status T" by simp
  obtain s where s: "ApplyUserProblemStatusFromSubmits now neu ?T1
       = Some (remove_solved (best_states neu) (?T1\<lparr>user_problem_status := s\<rparr>))"
    and s2: "\<forall>k. map_option fst (s k) = (case state_of neu k of None \<Rightarrow> map_option fst (user_problem_status T k)
        | Some v \<Rightarrow> Some (case user_problem_status T k of None \<Rightarrow> v | Some r \<Rightarrow> if fst r = ''AC'' then ''AC'' else v))"
    using ApplyUserProblemStatus_eq[of now neu ?T1, unfolded ups] by blast
  let ?T' = "remove_solved (best_states neu) (?T1\<lparr>user_problem_status := s\<rparr>)"
  have st: "map_option fst (s k) = state_of (rows @ neu) k" for k
  proof -
    have "state_of rows k = map_option fst (user_problem_status T k)" using assms by (simp add: ac_matches_def)
    then show ?thesis unfolding state_of_append s2[rule_format]
      by (cases "state_of neu k"; cases "user_problem_status T k") auto
  qed
  have "(\<lambda>k. map_option snd (user_ac_problems T k)) = ac_first rows"
    using assms by (simp add: ac_matches_def fun_eq_iff)
  then have "ac_matches (rows @ neu) ?T'"
    using assms dd by (auto simp: ac_matches_def t(2) ac_first_append st ac_days_def)
  moreover have "ApplyUserACFromSubmits now neu T = Some ?T'"
    using False t(1) s by (simp add: ApplyUserACFromSubmits_def Let_def d_def)
  moreover have "problemset_items (?T1\<lparr>user_problem_status := s\<rparr>) = problemset_items T"
    "problemsets (?T1\<lparr>user_problem_status := s\<rparr>) = problemsets T" by simp_all
  ultimately show ?thesis using that[of ?T'] by blast
qed

text \<open>C11: The tables of accepted problems follow the stored submissions. If they describe the stored rows
  (the first accepted time of every key of every user, the days on which each key was solved apart from
  the official LeetCode keys, and the best state of every bound problem), then writing a batch of newly
  inserted rows succeeds and they describe the rows with the batch appended, whatever the order
  of the times in the batch and with repeated and late submissions.\<close>

theorem ac_tables_follow_submits:
  assumes "ac_matches rows T"
  shows "\<exists>T'. ApplyUserACFromSubmits now neu T = Some T' \<and> ac_matches (rows @ neu) T'"
  using ApplyUserAC_full[OF assms, of now neu] by blast

definition empty_tables :: ac_tables where
  "empty_tables = \<lparr>user_ac_problems = Map.empty, user_ac_problem_days = Map.empty,
     user_problem_status = Map.empty, problemsets = [], problemset_items = []\<rparr>"

lemma ac_matches_empty: "ac_matches [] empty_tables"
  by (simp add: ac_matches_def empty_tables_def ac_first_def ac_days_def state_of_def)

theorem ac_tables_follow_submits_witness:
  "\<exists>T'. ApplyUserACFromSubmits 5 [demo_row, demo_row] empty_tables = Some T'
     \<and> ac_matches ([] @ [demo_row, demo_row]) T'"
  by (rule ac_tables_follow_submits[OF ac_matches_empty])

text \<open>C32: An accepted problem leaves the to-do lists of its user: after the write, no to-do list
  of a user holds a problem that an accepted row of the batch is bound to, all other entries
  are still there, and the entry counts of the lists stay right.\<close>

theorem solved_leaves_todo:
  assumes "ac_matches rows T" and "ApplyUserACFromSubmits now neu T = Some T'"
  shows "set (problemset_items T') =
      {(s, q) \<in> set (problemset_items T).
         \<not> (\<exists>u. state_of neu (u, q) = Some UserProblemStatusAC \<and> s \<in> todo_sets u (problemsets T))}
    \<and> (counts_ok T \<longrightarrow> counts_ok T')"
proof (cases "neu = []")
  case True
  then show ?thesis using assms(2) by (auto simp: ApplyUserACFromSubmits_def state_of_def)
next
  case False
  obtain T'' where T'': "ApplyUserACFromSubmits now neu T = Some T''"
    "\<exists>T1. problemset_items T1 = problemset_items T \<and> problemsets T1 = problemsets T
           \<and> T'' = remove_solved (best_states neu) T1"
    by (rule ApplyUserAC_full[OF assms(1), of now neu]) (rule that, assumption, simp only: False not_False_eq_True)
  have "T'' = T'" using T''(1)[unfolded assms(2)] by (rule option.inject[THEN iffD1, symmetric])
  then obtain T1 where T1: "problemset_items T1 = problemset_items T" "problemsets T1 = problemsets T"
    "T' = remove_solved (best_states neu) T1" using T''(2) by blast
  have "counts_ok T1 = counts_ok T" by (simp add: counts_ok_def T1)
  then show ?thesis
    using remove_solved_items[OF best_states_pos, of neu T1] unfolding T1 best_states_set by simp
qed

theorem solved_leaves_todo_witness:
  "set (problemset_items (the (ApplyUserACFromSubmits 5 [demo_row\<lparr>sl_problem_id := Some 3\<rparr>]
      (empty_tables\<lparr>problemsets := [\<lparr>ps_id = 1, ps_owner = 7, ps_kind = ''todo'', ps_item_count = 1\<rparr>],
        problemset_items := [(1, 3)]\<rparr>)))) = {}"
proof -
  let ?T = "empty_tables\<lparr>problemsets := [\<lparr>ps_id = 1, ps_owner = 7, ps_kind = ''todo'', ps_item_count = 1\<rparr>],
        problemset_items := [(1, 3)]\<rparr>"
  let ?neu = "[demo_row\<lparr>sl_problem_id := Some 3\<rparr>]"
  have m: "ac_matches [] ?T"
    using ac_matches_empty by (simp add: ac_matches_def empty_tables_def)
  obtain T' where T': "ApplyUserACFromSubmits 5 ?neu ?T = Some T'"
    using ApplyUserAC_full[OF m] by metis
  have "state_of ?neu (7, 3) = Some ''AC''" by (simp add: state_of_def bound_to_def demo_row_def)
  then show ?thesis using solved_leaves_todo[OF m T'] T' by (auto simp: todo_sets_def empty_tables_def)
qed

subsection \<open>Counting\<close>

lemma sift_mset: "mset (fst (sift x ys) # snd (sift x ys)) = mset (x # ys)"
  by (induction x ys rule: sift.induct) (auto split: prod.splits)

lemma sift_ge: "snd x \<le> snd (fst (sift x ys))"
  by (induction x ys rule: sift.induct) (auto split: prod.splits)

lemma sift_max: "\<forall>y\<in>set (snd (sift x ys)). snd y \<le> snd (fst (sift x ys))"
proof (induction x ys rule: sift.induct)
  case (2 x y ys)
  obtain m r m' r' where s: "sift y ys = (m, r)" "sift x ys = (m', r')" by (metis prod.exhaust)
  show ?case
  proof (cases "snd y > snd x")
    case True
    then have "\<forall>z\<in>set r. snd z \<le> snd m" "snd y \<le> snd m" using 2 s sift_ge[of y ys] by auto
    then show ?thesis using True s by simp
  next
    case False
    then have "\<forall>z\<in>set r'. snd z \<le> snd m'" "snd x \<le> snd m'" using 2 s sift_ge[of x ys] by auto
    then show ?thesis using False s by simp
  qed
qed simp

lemma exchange_sort_mset: "mset (exchange_sort xs) = mset xs"
proof (induction xs rule: exchange_sort.induct)
  case (2 x xs)
  then show ?case using sift_mset[of x xs] by simp
qed simp

lemma exchange_sort_sorted: "sorted_wrt (\<lambda>a b. snd a \<ge> snd b) (exchange_sort xs)"
proof (induction xs rule: exchange_sort.induct)
  case (2 x xs)
  have "set (exchange_sort (snd (sift x xs))) = set (snd (sift x xs))"
    using exchange_sort_mset by (metis set_mset_mset)
  then show ?case using 2 sift_max[of x xs] by simp
qed simp

lemma sum_count_list: "(\<Sum>n\<leftarrow>remdups ns. count_list ns n) = length ns"
  by (metis sum_list_distinct_conv_sum_set distinct_remdups set_remdups sum_count_set finite_set subset_refl List.finite_set)

text \<open>The list of accepted problems per platform adds up to the lifetime count: both use the official
  LeetCode keys when there are any, every other platform is counted in full, blank names under one
  heading, and the list is in descending order.\<close>

theorem platform_list_adds_up:
  "sum_list (map snd (ListUserPlatformAC userID tab)) = CountUserLifetimeAC userID tab
   \<and> sorted_wrt (\<lambda>a b. snd a \<ge> snd b) (ListUserPlatformAC userID tab)"
proof (cases "userID \<le> 0")
  case False
  define rows where "rows = map snd (filter (\<lambda>(u, key, plat). u = userID) tab)"
  let ?names = "map (\<lambda>(key, plat). if btrim plat = '''' then ''unknown'' else btrim plat)
      (filter (\<lambda>(key, plat). plat \<noteq> ''LeetCode'') rows)"
  let ?lc = "filter (\<lambda>(key, plat). plat = ''LeetCode'') rows"
  let ?off = "length (filter (\<lambda>(key, plat). official_like key) ?lc)"
  let ?n = "if ?off > 0 then ?off else length ?lc"
  have sort: "sum_list (map snd (exchange_sort xs)) = sum_list (map snd xs)" for xs
    using exchange_sort_mset[of xs] by (metis mset_map sum_mset_sum_list)
  have off: "filter (\<lambda>(key, plat). official_like key) ?lc
      = filter (\<lambda>(key, plat). plat = ''LeetCode'' \<and> official_like key) rows"
    by (simp only: filter_filter) (rule filter_cong, auto)
  have "sum_list (map snd (ListUserPlatformAC userID tab)) = length ?names + ?n"
    using False by (simp add: ListUserPlatformAC_def Let_def sort o_def sum_count_list rows_def[symmetric])
  also have "\<dots> = CountUserLifetimeAC userID tab"
    using False unfolding CountUserLifetimeAC_def lifetimeACScoreSQL_def off rows_def[symmetric] by simp
  finally show ?thesis using False by (simp add: ListUserPlatformAC_def Let_def exchange_sort_sorted)
qed (simp add: ListUserPlatformAC_def CountUserLifetimeAC_def)

subsection \<open>Promotion of keys\<close>

text \<open>Binding the accepted rows of a user whose key is in a list to a problem of the bank.\<close>

definition bind_rows :: "int \<Rightarrow> string set \<Rightarrow> nat \<Rightarrow> SubmitLog list \<Rightarrow> SubmitLog list" where
  "bind_rows u ks pid rows =
     map (\<lambda>l. if sl_user l = u \<and> ACProblemKeyFromLog l \<in> ks then l\<lparr>sl_problem_id := Some pid\<rparr> else l) rows"

lemma opt_Min_iff: "finite S \<Longrightarrow> (S \<noteq> {} \<and> Min S = m) \<longleftrightarrow> m \<in> S \<and> (\<forall>x\<in>S. m \<le> (x::int))"
  using Min_eq_iff[of S m] by auto

lemma ac_first_Some_iff:
  "ac_first rows k = Some m \<longleftrightarrow>
     (\<exists>l\<in>set rows. sl_isac l \<and> ac_key l = k \<and> sl_time l = m)
     \<and> (\<forall>l\<in>set rows. sl_isac l \<and> ac_key l = k \<longrightarrow> m \<le> sl_time l)"
proof -
  let ?S = "sl_time ` {l \<in> set rows. sl_isac l \<and> ac_key l = k}"
  have "finite ?S" by simp
  then have "(?S \<noteq> {} \<and> Min ?S = m) \<longleftrightarrow> m \<in> ?S \<and> (\<forall>x\<in>?S. m \<le> x)"
    using opt_Min_iff by blast
  moreover have "ac_first rows k = Some m \<longleftrightarrow> ?S \<noteq> {} \<and> Min ?S = m"
    by (simp add: ac_first_def Let_def)
  ultimately show ?thesis by (auto simp: image_iff)
qed

lemma ac_first_None_iff: "ac_first rows k = None \<longleftrightarrow> (\<forall>l\<in>set rows. sl_isac l \<longrightarrow> ac_key l \<noteq> k)"
  by (auto simp: ac_first_def Let_def)

lemma promote_keys_set: "set (promote_keys newKey seen ks) = {k \<in> trim_space ` set ks. k \<noteq> '''' \<and> k \<noteq> newKey} - seen"
  by (induction newKey seen ks rule: promote_keys.induct) (auto simp: Let_def)

lemma fold_pick_time:
  "snd (fold (\<lambda>r a. pick_first a r) rs a) = fold (\<lambda>r m. min m (snd r)) rs (snd a)"
  by (induction rs arbitrary: a) (auto simp: pick_first_def min_def)

lemma fold_min_le: "m \<in> insert a (snd ` set rs) \<Longrightarrow> fold (\<lambda>r m. min m (snd r)) rs a \<le> (m::int)"
proof (induction rs arbitrary: a m)
  case (Cons r rs)
  then consider "m = a" | "m = snd r" | "m \<in> snd ` set rs" by auto
  then show ?case
  proof cases
    case 3
    then show ?thesis using Cons.IH[of m "min a (snd r)"] by simp
  qed (use Cons.IH[of "min a (snd r)" "min a (snd r)"] in \<open>auto simp: min_def split: if_splits\<close>)
qed simp

lemma fold_min_in: "fold (\<lambda>r m. min m (snd r)) rs a \<in> insert (a::int) (snd ` set rs)"
  by (induction rs arbitrary: a) (auto simp: min_def split: if_splits)

lemma promoted_time:
  assumes "rs \<noteq> []"
  shows "snd (promoted_row rs e) \<in> snd ` (set rs \<union> set_option e)"
    and "\<forall>r\<in>set rs \<union> set_option e. snd (promoted_row rs e) \<le> snd r"
proof -
  have hd: "hd rs \<in> set rs" using assms by simp
  let ?m = "fold (\<lambda>r m. min m (snd r)) rs (snd (hd rs))"
  have m: "?m \<in> snd ` set rs" "\<forall>r\<in>set rs. ?m \<le> snd r"
    using fold_min_in[of rs "snd (hd rs)"] hd fold_min_le[of _ "snd (hd rs)" rs] by auto
  have p: "snd (promoted_row rs e) = (case e of None \<Rightarrow> ?m | Some x \<Rightarrow> min ?m (snd x))"
    by (auto simp: promoted_row_def fold_pick_time Let_def split: option.splits)
  show "snd (promoted_row rs e) \<in> snd ` (set rs \<union> set_option e)"
    using m(1) p by (cases e) (auto simp: min_def)
  show "\<forall>r\<in>set rs \<union> set_option e. snd (promoted_row rs e) \<le> snd r"
    using m(2) p by (cases e) (auto simp: min_def)
qed

lemma ac_key_bind:
  assumes "pid \<noteq> 0" and "l' = (if sl_user l = u \<and> ACProblemKeyFromLog l \<in> ks then l\<lparr>sl_problem_id := Some pid\<rparr> else l)"
  shows "ac_key l' = (if sl_user l = u \<and> ACProblemKeyFromLog l \<in> ks then (u, problemIDKey pid) else ac_key l)"
    and "sl_isac l' = sl_isac l" and "sl_time l' = sl_time l"
  using assms by (auto simp: ac_key_def ACProblemKeyFromLog_def ACProblemKey_bound problemIDKey_def)

lemma ac_first_bind:
  assumes "pid \<noteq> 0" and "problemIDKey pid \<notin> ks"
  shows "ac_first (bind_rows u ks pid rows) (v, k) =
     (if v = u \<and> k \<in> ks then None
      else if v = u \<and> k = problemIDKey pid then
        (let ts = set (map sl_time (filter (\<lambda>l. sl_isac l \<and> sl_user l = u
               \<and> ACProblemKeyFromLog l \<in> insert k ks) rows))
         in if ts = {} then None else Some (Min ts))
      else ac_first rows (v, k))"
proof -
  let ?b = "\<lambda>l. if sl_user l = u \<and> ACProblemKeyFromLog l \<in> ks then l\<lparr>sl_problem_id := Some pid\<rparr> else l"
  have f: "set (map sl_time (filter (\<lambda>l. sl_isac l \<and> ac_key l = (v, k)) (bind_rows u ks pid rows)))
      = set (map sl_time (filter (\<lambda>l. sl_isac l \<and> ac_key (?b l) = (v, k)) rows))"
    unfolding bind_rows_def filter_map map_map o_def
    using ac_key_bind(2,3)[OF assms(1) refl, of _ u ks] by simp
  have key: "ac_key (?b l) = (v, k) \<longleftrightarrow>
      (if v = u \<and> k \<in> ks then False
       else if v = u \<and> k = problemIDKey pid then sl_user l = u \<and> ACProblemKeyFromLog l \<in> insert k ks
       else ac_key l = (v, k))" for l
    unfolding ac_key_bind(1)[OF assms(1) refl] using assms(2) by (auto simp: ac_key_def)
  show ?thesis unfolding ac_first_def f key by (auto simp: Let_def)
qed

lemma promote_new_time:
  assumes T: "\<forall>k. map_option snd (uac k) = ac_first rows k"
    and rs: "rs = List.map_filter (\<lambda>k. uac (u, k)) keys" and ne: "rs \<noteq> []"
  shows "map_option snd (upsert merge_uac ((u, n), promoted_row rs (uac (u, n))) uac (u, n)) =
     (let ts = set (map sl_time (filter (\<lambda>l. sl_isac l \<and> sl_user l = u
               \<and> ACProblemKeyFromLog l \<in> insert n (set keys)) rows))
      in if ts = {} then None else Some (Min ts))"
proof -
  let ?p = "promoted_row rs (uac (u, n))" and ?R = "set rs \<union> set_option (uac (u, n))"
  let ?S = "sl_time ` {l \<in> set rows. sl_isac l \<and> sl_user l = u \<and> ACProblemKeyFromLog l \<in> insert n (set keys)}"
  have R: "r \<in> ?R \<longleftrightarrow> (\<exists>k\<in>insert n (set keys). uac (u, k) = Some r)" for r
    unfolding rs by (cases "uac (u, n)") (force simp: List.map_filter_def image_iff)+
  have time: "ac_first rows (u, k) = Some (snd r)" if "uac (u, k) = Some r" for k r
    using T[rule_format, of "(u, k)"] that by simp
  have "snd ?p \<in> snd ` ?R" and le: "\<forall>r\<in>?R. snd ?p \<le> snd r"
    using promoted_time[OF ne, of "uac (u, n)"] by auto
  then obtain r where r: "r \<in> ?R" "snd ?p = snd r" unfolding image_iff by blast
  obtain k where "k \<in> insert n (set keys)" "uac (u, k) = Some r" using R r(1) by blast
  note kr = this
  from kr(2) obtain l where l: "l \<in> set rows" "sl_isac l" "ac_key l = (u, k)" "sl_time l = snd ?p"
    using time[of k r] r(2) unfolding ac_first_Some_iff by auto
  have in_S: "snd ?p \<in> ?S"
    unfolding l(4)[symmetric] using l(1,2,3) kr(1) by (auto simp: ac_key_def)
  have "snd ?p \<le> sl_time l"
    if l: "l \<in> set rows" "sl_isac l" "sl_user l = u" "ACProblemKeyFromLog l \<in> insert n (set keys)" for l
  proof -
    have "ac_first rows (ac_key l) \<noteq> None" using l by (auto simp: ac_first_None_iff)
    then obtain r where r: "uac (u, ACProblemKeyFromLog l) = Some r"
      using T[rule_format, of "ac_key l"] l(3) by (auto simp: ac_key_def)
    then have "snd r \<le> sl_time l" using time[OF r] l unfolding ac_first_Some_iff by (auto simp: ac_key_def)
    moreover have "r \<in> ?R" using R r l(4) by blast
    ultimately show ?thesis using le by force
  qed
  then have "?S \<noteq> {} \<and> Min ?S = snd ?p" using in_S by (subst opt_Min_iff) auto
  moreover have "map_option snd (upsert merge_uac ((u, n), ?p) uac (u, n)) = Some (snd ?p)"
    using le by (cases "uac (u, n)") (auto simp: upsert_def merge_uac_def)
  moreover have "set (map sl_time (filter (\<lambda>l. sl_isac l \<and> sl_user l = u
       \<and> ACProblemKeyFromLog l \<in> insert n (set keys)) rows)) = ?S" by (simp only: set_map set_filter)
  ultimately show ?thesis by (simp only: Let_def if_False)
qed

text \<open>What a promotion does to the table, and its two cases: no promoted key is in the table, or the new row is theirs.\<close>

lemma promoted_table:
  assumes "0 < u" and "pid \<noteq> 0"
  shows "user_ac_problems (PromoteUserACKeysToProblemID u oldKeys pid T) =
    (let n = problemIDKey pid; keys = promote_keys n {} oldKeys; uac = user_ac_problems T;
         rs = List.map_filter (\<lambda>k. uac (u, k)) keys
     in if keys = [] \<or> rs = [] then uac
        else (\<lambda>(w, k). if w = u \<and> k \<in> set keys then None
               else upsert merge_uac ((u, n), promoted_row rs (uac (u, n))) uac (w, k)))"
  using assms by (simp add: PromoteUserACKeysToProblemID_def Let_def)

lemma binding_no_rows:
  assumes pid: "pid \<noteq> 0" and n: "problemIDKey pid \<notin> set keys" and none: "\<And>k. k \<in> set keys \<Longrightarrow> ac_first rows (u, k) = None"
  shows "ac_first (bind_rows u (set keys) pid rows) (v, key) = ac_first rows (v, key)"
proof -
  let ?n = "problemIDKey pid"
  have f: "filter (\<lambda>l. sl_isac l \<and> sl_user l = u \<and> ACProblemKeyFromLog l \<in> insert ?n (set keys)) rows
      = filter (\<lambda>l. sl_isac l \<and> ac_key l = (u, ?n)) rows"
    by (rule filter_cong) (use none in \<open>force simp: ac_first_None_iff ac_key_def\<close>)+
  consider (old) "v = u" "key \<in> set keys" | (new) "v = u" "key = ?n" "key \<notin> set keys"
    | (other) "\<not> (v = u \<and> key \<in> set keys)" "\<not> (v = u \<and> key = ?n)" by blast
  then show ?thesis
  proof cases
    case old
    then show ?thesis unfolding ac_first_bind[OF pid n] using none by simp
  next
    case new
    have "ac_first (bind_rows u (set keys) pid rows) (v, key) = (let ts = set (map sl_time (filter (\<lambda>l. sl_isac l \<and> sl_user l = u
           \<and> ACProblemKeyFromLog l \<in> insert ?n (set keys)) rows)) in if ts = {} then None else Some (Min ts))"
      unfolding ac_first_bind[OF pid n] using new by (simp only: if_False if_True simp_thms)
    then show ?thesis unfolding f new ac_first_def .
  next
    case other
    then show ?thesis unfolding ac_first_bind[OF pid n] by (simp only: if_False)
  qed
qed

lemma promoting_rows:
  fixes T :: ac_tables
  defines "uac \<equiv> user_ac_problems T"
  assumes T: "\<forall>k. map_option snd (uac k) = ac_first rows k" and pid: "pid \<noteq> 0" and n: "problemIDKey pid \<notin> set keys"
    and ne: "List.map_filter (\<lambda>k. uac (u, k)) keys \<noteq> []"
  shows "map_option snd (if v = u \<and> key \<in> set keys then None
      else upsert merge_uac ((u, problemIDKey pid),
        promoted_row (List.map_filter (\<lambda>k. uac (u, k)) keys) (uac (u, problemIDKey pid))) uac (v, key))
    = ac_first (bind_rows u (set keys) pid rows) (v, key)"
proof -
  let ?n = "problemIDKey pid"
  note new = promote_new_time[OF T[unfolded uac_def] refl ne[unfolded uac_def], folded uac_def]
  consider (old) "v = u" "key \<in> set keys" | (at_new) "v = u" "key = ?n" "key \<notin> set keys"
    | (other) "\<not> (v = u \<and> key \<in> set keys)" "\<not> (v = u \<and> key = ?n)" by blast
  then show ?thesis
  proof cases
    case old
    then show ?thesis unfolding ac_first_bind[OF pid n] by simp
  next
    case at_new
    show ?thesis unfolding ac_first_bind[OF pid n] using at_new(3) new
      unfolding at_new(1,2) by (simp only: if_False if_True simp_thms)
  next
    case other
    then have "upsert merge_uac ((u, ?n), x) uac (v, key) = uac (v, key)" for x by (auto simp: upsert_def)
    then show ?thesis unfolding ac_first_bind[OF pid n] using other T by (simp only: if_False)
  qed
qed

text \<open>C31: Promoting keys to a bound problem is what binding the submissions does: if the table holds the
  first accepted time of every key, then after the promotion it holds those of the rows in which every
  accepted row with one of the old keys is bound to the problem. The old keys are gone, the problem
  has the earliest time among them and its own, and other users and keys are untouched.\<close>

theorem promote_is_rebinding:
  assumes "\<forall>k. map_option snd (user_ac_problems T k) = ac_first rows k" and "0 < u" and "pid \<noteq> 0"
  shows "map_option snd (user_ac_problems (PromoteUserACKeysToProblemID u oldKeys pid T) k) =
     ac_first (bind_rows u (set (promote_keys (problemIDKey pid) {} oldKeys)) pid rows) k"
proof -
  let ?keys = "promote_keys (problemIDKey pid) {} oldKeys"
  let ?rs = "List.map_filter (\<lambda>k. user_ac_problems T (u, k)) ?keys"
  obtain v key where k: "k = (v, key)" by fastforce
  have n: "problemIDKey pid \<notin> set ?keys" by (simp add: promote_keys_set)
  show ?thesis
  proof (cases "?rs = []")
    case True
    then have "user_ac_problems T (u, x) = None" if "x \<in> set ?keys" for x
      using that by (cases "user_ac_problems T (u, x)") (auto simp: List.map_filter_def filter_empty_conv)
    then have "ac_first rows (u, x) = None" if "x \<in> set ?keys" for x
      using assms(1)[rule_format, of "(u, x)"] that by simp
    then show ?thesis
      using True assms(1) unfolding promoted_table[OF assms(2,3)] k by (simp add: binding_no_rows[OF assms(3) n])
  next
    case False
    then have "?keys \<noteq> []" by (auto simp: List.map_filter_def)
    with False show ?thesis
      using promoting_rows[OF assms(1,3) n False, of v key] unfolding promoted_table[OF assms(2,3)] k
      by (simp only: Let_def prod.case if_False simp_thms)
  qed
qed

theorem promote_is_rebinding_witness:
  "map_option snd (user_ac_problems (PromoteUserACKeysToProblemID 7 [''e:LuoGu:P1001''] 3
      (empty_tables\<lparr>user_ac_problems := [(7, ''e:LuoGu:P1001'') \<mapsto> (''LuoGu'', 1700000000 * second_ns)]\<rparr>)) (7, ''p:3'')) =
     ac_first (bind_rows 7 (set (promote_keys (problemIDKey 3) {} [''e:LuoGu:P1001''])) 3 [demo_row]) (7, ''p:3'')"
proof (rule promote_is_rebinding)
  have "ac_key demo_row = (7, ''e:LuoGu:P1001'')"
    by (simp add: ac_key_def ACProblemKeyFromLog_def ACProblemKey_def demo_row_def trim_space_def
        trim_left_def is_space_def)
  then show "\<forall>k. map_option snd (user_ac_problems (empty_tables\<lparr>user_ac_problems :=
      [(7, ''e:LuoGu:P1001'') \<mapsto> (''LuoGu'', 1700000000 * second_ns)]\<rparr>) k) = ac_first [demo_row] k"
    by (auto simp: ac_first_def empty_tables_def) (simp_all add: demo_row_def)
qed simp_all

subsection \<open>Rebuilding from the rows\<close>

definition canonical_row :: "SubmitLog \<Rightarrow> bool" where
  "canonical_row r \<longleftrightarrow> trim_space (sl_external r) = sl_external r \<and> btrim (sl_external r) = sl_external r
     \<and> \<not> (sl_platform r = ''NowCoder'' \<and> sl_external r = '''')"

lemma sql_key_canonical: "canonical_row r \<Longrightarrow> sql_problem_key r = ACProblemKeyFromLog r"
  by (auto simp: canonical_row_def sql_problem_key_def ACProblemKeyFromLog_def ACProblemKey_def Let_def)

text \<open>The SQL key and the Go key differ on an unbound NowCoder row whose problem text starts with its
  number: the rebuild counts it under another key than the incremental write.\<close>

lemma nowcoder_key_mismatch:
  "let r = demo_row\<lparr>sl_platform := ''NowCoder'', sl_external := '''', sl_problem := ''12 A+B''\<rparr>
   in sql_problem_key r = ''n:NowCoder:12 A+B'' \<and> ACProblemKeyFromLog r = ''e:NowCoder:12''"
  by (simp add: demo_row_def sql_problem_key_def ACProblemKeyFromLog_def ACProblemKey_def btrim_def
      trim_space_def trim_left_def is_space_def str_fields.simps isAllDigits_def is_digit_char_def)

lemma min_time_Min: "g \<noteq> [] \<Longrightarrow> min_time g = Some (Min (set (map sl_time g)))"
proof -
  assume "g \<noteq> []"
  then obtain t ts where g: "map sl_time g = t # ts" by (cases g) auto
  have "fold min ts t = Min (set (t # ts))" by (metis Min.set_eq_fold)
  then show ?thesis by (simp add: min_time_def g)
qed

lemma days_conflict_conflict: "rebuild_days_conflict loc (filter P rs) \<Longrightarrow> rebuild_conflict rs"
  unfolding rebuild_days_conflict_def rebuild_conflict_def list_ex_iff set_filter by blast

text \<open>Rebuilding the tables of a user from the stored rows gives the tables that the incremental
  writes keep: when the accepted rows are canonical (trimmed problem numbers, no unnumbered NowCoder
  row) and no key occurs under two platform names, the rebuild succeeds, the first accepted times of the
  user are those of the rows, and all other users keep their tables.\<close>

theorem rebuild_agrees:
  assumes "0 < u" and "\<forall>r\<in>set rows. sl_user r = u \<and> sl_isac r \<longrightarrow> canonical_row r"
    and "\<not> rebuild_conflict (filter (\<lambda>r. sl_isac r \<and> sl_user r = u) rows)"
  shows "\<exists>daily' T'. RebuildUserPreaggFromSubmits loc u rows daily T = (False, daily', T')
     \<and> (\<forall>k. map_option snd (user_ac_problems T' (u, k)) = ac_first rows (u, k))
     \<and> (\<forall>d p. daily' (u, d, p) = sql_daily loc (filter (\<lambda>r. sl_user r = u) rows) (u, d, p))
     \<and> (\<forall>v k d p. v \<noteq> u \<longrightarrow> user_ac_problems T' (v, k) = user_ac_problems T (v, k)
          \<and> user_ac_problem_days T' (v, d, k) = user_ac_problem_days T (v, d, k)
          \<and> daily' (v, d, p) = daily (v, d, p))"
proof -
  let ?ac = "filter sl_isac (filter (\<lambda>r. sl_user r = u) rows)"
  have ac: "?ac = filter (\<lambda>r. sl_isac r \<and> sl_user r = u) rows" by (simp add: conj_commute)
  have nc: "\<not> rebuild_conflict ?ac" using assms(3) unfolding ac .
  then have nd: "\<not> rebuild_days_conflict loc (filter P ?ac)" for P
    using days_conflict_conflict by blast
  have g: "filter (\<lambda>r. sql_problem_key r = k) ?ac = filter (\<lambda>l. sl_isac l \<and> ac_key l = (u, k)) rows" for k
    unfolding filter_filter
    by (rule filter_cong) (use assms(2) sql_key_canonical in \<open>auto simp: ac_key_def\<close>)
  have t: "map_option snd (case filter (\<lambda>r. sql_problem_key r = k) ?ac of [] \<Rightarrow> None
       | r # rs \<Rightarrow> Some (sql_platform (sl_platform r), the (min_time (filter (\<lambda>r. sql_problem_key r = k) ?ac))))
     = ac_first rows (u, k)" for k
  proof (cases "filter (\<lambda>l. sl_isac l \<and> ac_key l = (u, k)) rows")
    case Nil
    then show ?thesis unfolding g ac_first_def by (simp only: Let_def list.simps set_simps if_True option.simps simp_thms)
  next
    case (Cons r rs)
    then have "min_time (r # rs) = Some (Min (set (map sl_time (r # rs))))" by (intro min_time_Min) simp
    then show ?thesis unfolding g ac_first_def Cons by simp
  qed
  show ?thesis
    using assms(1) nc nd t[unfolded filter_filter conj_assoc]
    by (auto simp: RebuildUserPreaggFromSubmits_def Let_def)
qed

theorem rebuild_agrees_witness:
  "\<exists>daily' T'. RebuildUserPreaggFromSubmits (\<lambda>t. 0) 7 [demo_row] Map.empty empty_tables = (False, daily', T')
     \<and> (\<forall>k. map_option snd (user_ac_problems T' (7, k)) = ac_first [demo_row] (7, k))"
proof -
  have "canonical_row demo_row"
    by (simp add: canonical_row_def demo_row_def trim_space_def trim_left_def is_space_def btrim_def)
  then show ?thesis
    using rebuild_agrees[of 7 "[demo_row]" "\<lambda>t. 0" Map.empty empty_tables]
    by (auto simp: rebuild_conflict_def demo_row_def)
qed

end
