(* ===== verification/VerdictRefresh.thy ===== *)
theory VerdictRefresh
  imports UserAC
begin

text \<open>
  The state of the submission store (rows, daily statistics, tables of accepted problems) and
  \<^verbatim>\<open>app/core_data/internal/data/dal/submit_status.go\<close>: submissions that were stored while the judge was
  still running get their verdict when it is fetched again, with the statistics corrected.
\<close>

record core_db =
  submit_logs :: "SubmitLog list"
  daily_user_stats :: daily_table
  ac_part :: ac_tables

subsection \<open>Which stored rows may change\<close>

definition long_codes :: "(string \<times> string) list" where
  "long_codes =
     [(''WRONG_ANSWER'', ''WA''), (''TIME_LIMIT_EXCEEDED'', ''TLE''), (''MEMORY_LIMIT_EXCEEDED'', ''MLE''),
      (''RUNTIME_ERROR'', ''RE''), (''COMPILATION_ERROR'', ''CE''), (''PRESENTATION_ERROR'', ''PE''),
      (''IDLENESS_LIMIT_EXCEEDED'', ''ILE''), (''SECURITY_VIOLATED'', ''SV'')]"

definition sqlRefreshableStatus :: "string \<Rightarrow> bool" where
  "sqlRefreshableStatus status \<longleftrightarrow>
     btrim status = ''''
     \<or> btrim status \<in> {zh_zhengzai_pingce, zh_pingcezhong, zh_dengdai_pingce, zh_paiduizhong}
     \<or> to_upper (btrim status) \<in> {''TESTING'', ''PENDING'', ''JUDGING'', ''IN_QUEUE'', ''IN QUEUE'',
          ''WAITING'', ''WJ'', ''QUEUE''} \<union> fst ` set long_codes"

definition shouldRewriteFinalStatus :: "string \<Rightarrow> string \<Rightarrow> bool" where
  "shouldRewriteFinalStatus oldStatus newStatus =
     (let o' = to_upper (trim_space oldStatus); n = to_upper (trim_space newStatus) in
      if o' = n \<or> n = '''' then False
      else (case map_of long_codes o' of Some short \<Rightarrow> short = n | None \<Rightarrow> False))"

definition shouldRewriteFetchedStatus :: "string \<Rightarrow> string \<Rightarrow> string \<Rightarrow> bool" where
  "shouldRewriteFetchedStatus platform oldStatus newStatus =
     (let oldNorm = to_upper (trim_space oldStatus); newNorm = to_upper (trim_space newStatus) in
      if platform = ''QOJ'' \<and> oldNorm = ''WA'' \<and> newNorm = ''AC'' then True
      else shouldRewriteFinalStatus oldStatus newStatus)"

subsection \<open>The refresh\<close>

text \<open>One stored row against the fetched rows. The transaction updates the row if it still has the status
  that was read, and on a new acceptance also the tables of accepted problems and the daily count; a failing
  write rolls everything back. The result is \<open>None\<close> for an error, else the affected rows and the state.\<close>

definition refresh_one ::
  "int \<Rightarrow> (string \<times> string \<rightharpoonup> SubmitLog) \<Rightarrow> SubmitLog \<Rightarrow> core_db \<Rightarrow> (nat \<times> core_db) option" where
  "refresh_one now want old db =
     (case want (sl_platform old, sl_submit_id old) of
        None \<Rightarrow> Some (0, db)
      | Some neu \<Rightarrow>
          let newStatus = trim_space (sl_status neu); oldStatus = trim_space (sl_status old) in
          if newStatus = '''' then Some (0, db)
          else if oldStatus = newStatus then Some (0, db)
          else if \<not> IsPendingSubmitStatus oldStatus
              \<and> \<not> shouldRewriteFetchedStatus (sl_platform old) oldStatus newStatus then Some (0, db)
          else
            let newIsAC = IsAcceptedStatus newStatus;
                oldIsAC = (sl_isac old \<or> IsAcceptedStatus oldStatus);
                hit = (\<lambda>r. batch_key r = batch_key old \<and> sl_status r = sl_status old);
                affected = length (filter hit (submit_logs db));
                db1 = db\<lparr>submit_logs := map (\<lambda>r. if hit r then r\<lparr>sl_status := newStatus, sl_isac := newIsAC\<rparr> else r)
                         (submit_logs db)\<rparr>
            in if affected = 0 then Some (0, db)
               else if oldIsAC \<or> \<not> newIsAC then Some (affected, db1)
               else
                 let row = old\<lparr>sl_status := newStatus, sl_isac := True\<rparr>;
                     plat = (if trim_space (sl_platform row) = '''' then ''?'' else trim_space (sl_platform row));
                     delta = \<lparr>dd_user = sl_user row, dd_day = row_day row, dd_platform = plat,
                              dd_submit = 0, dd_ac = 1\<rparr>
                 in case ApplyUserACFromSubmits now [row] (ac_part db1) of
                      None \<Rightarrow> None
                    | Some T \<Rightarrow> (case ApplyDailyDeltas [delta] (daily_user_stats db1) of
                          None \<Rightarrow> None
                        | Some d \<Rightarrow> Some (affected, db1\<lparr>daily_user_stats := d, ac_part := T\<rparr>)))"

text \<open>Errors end the loop; what was committed before stays. The result is (error, rows, state).\<close>

fun refreshExistingVerdicts ::
  "int \<Rightarrow> (string \<times> string \<rightharpoonup> SubmitLog) \<Rightarrow> SubmitLog list \<Rightarrow> nat \<times> core_db \<Rightarrow> bool \<times> nat \<times> core_db" where
  "refreshExistingVerdicts now want [] (n, db) = (False, n, db)"
| "refreshExistingVerdicts now want (old # olds) (n, db) =
     (case refresh_one now want old db of
        None \<Rightarrow> (True, n, db)
      | Some (k, db') \<Rightarrow> refreshExistingVerdicts now want olds (n + k, db'))"

definition want_key :: "SubmitLog \<Rightarrow> string \<times> string" where
  "want_key l = (sl_platform l, sl_submit_id l)"

definition want_rows :: "SubmitLog list \<Rightarrow> SubmitLog list" where
  "want_rows fetched = filter (\<lambda>l. sl_submit_id l \<noteq> '''' \<and> \<not> IsPendingSubmitStatus (sl_status l)) fetched"

definition want_map :: "SubmitLog list \<Rightarrow> string \<times> string \<rightharpoonup> SubmitLog" where
  "want_map fetched = fold (\<lambda>l m. m(want_key l \<mapsto> l)) (want_rows fetched) Map.empty"

text \<open>The ids to read back, grouped by (platform, user); an id is listed once, for the owner of its first
  occurrence. Groups are kept in the order of their first id.\<close>

fun first_owners :: "(string \<times> string) set \<Rightarrow> SubmitLog list \<Rightarrow> ((string \<times> int) \<times> string) list" where
  "first_owners seen [] = []"
| "first_owners seen (l # ls) =
     (if want_key l \<in> seen then first_owners seen ls
      else ((sl_platform l, sl_user l), sl_submit_id l) # first_owners (insert (want_key l) seen) ls)"

definition refresh_groups :: "SubmitLog list \<Rightarrow> ((string \<times> int) \<times> string list) list" where
  "refresh_groups fetched =
     collect_all (@) (map (\<lambda>(g, sid). (g, [sid])) (first_owners {} (want_rows fetched)))"

definition read_back :: "(string \<times> int) \<Rightarrow> string list \<Rightarrow> SubmitLog list \<Rightarrow> SubmitLog list" where
  "read_back g part rows =
     filter (\<lambda>r. (sl_platform r, sl_user r) = g \<and> sl_submit_id r \<in> set part
        \<and> (sqlRefreshableStatus (sl_status r)
           \<or> sl_platform r = ''QOJ'' \<and> to_upper (btrim (sl_status r)) = ''WA'')) rows"

fun refresh_chunks ::
  "int \<Rightarrow> (string \<times> string \<rightharpoonup> SubmitLog) \<Rightarrow> ((string \<times> int) \<times> string list) list
   \<Rightarrow> nat \<times> core_db \<Rightarrow> bool \<times> nat \<times> core_db" where
  "refresh_chunks now want [] (n, db) = (False, n, db)"
| "refresh_chunks now want ((g, part) # parts) (n, db) =
     (case refreshExistingVerdicts now want (read_back g part (submit_logs db)) (n, db) of
        (True, n', db') \<Rightarrow> (True, n', db')
      | (False, n', db') \<Rightarrow> refresh_chunks now want parts (n', db'))"

definition RefreshPendingSubmitVerdicts ::
  "int \<Rightarrow> SubmitLog list \<Rightarrow> core_db \<Rightarrow> bool \<times> nat \<times> core_db" where
  "RefreshPendingSubmitVerdicts now fetched db =
     (if fetched = [] \<or> want_rows fetched = [] then (False, 0, db)
      else refresh_chunks now (want_map fetched)
             (concat (map (\<lambda>(g, ids). map (\<lambda>part. (g, part)) (chunks 300 ids)) (refresh_groups fetched)))
             (0, db))"

subsection \<open>The invariant of the store\<close>

definition row_ok :: "SubmitLog \<Rightarrow> bool" where
  "row_ok r \<longleftrightarrow> sl_isac r = IsAcceptedStatus (sl_status r)
     \<and> trim_space (sl_platform r) = sl_platform r \<and> sl_platform r \<noteq> ''''
     \<and> (sl_platform r = ''LeetCode'' \<and> has_prefix (sl_submit_id r) ''lc-ac-'' \<longrightarrow> sl_isac r)"

definition core_inv :: "zone \<Rightarrow> core_db \<Rightarrow> bool" where
  "core_inv loc db \<longleftrightarrow>
     distinct (map batch_key (submit_logs db))
     \<and> (\<forall>r\<in>set (submit_logs db). row_ok r)
     \<and> daily_user_stats db = recount (submit_logs db)
     \<and> ac_matches (submit_logs db) (ac_part db)
     \<and> (\<forall>r\<in>set (submit_logs db). same_day loc r)"

lemma IsAccepted_trim [simp]: "IsAcceptedStatus (trim_space s) = IsAcceptedStatus s"
  by (simp add: IsAcceptedStatus_def)

lemma rewrite_not_accepted:
  assumes "shouldRewriteFetchedStatus p (trim_space s) n"
  shows "\<not> IsAcceptedStatus s"
proof -
  have "to_upper (trim_space s) = ''WA'' \<or> to_upper (trim_space s) \<in> fst ` set long_codes"
    using assms by (auto simp: shouldRewriteFetchedStatus_def shouldRewriteFinalStatus_def Let_def
        dest!: map_of_SomeD split: if_splits option.splits intro: rev_image_eqI)
  moreover have "\<not> IsAcceptedStatus s" if "to_upper (trim_space s) = c"
    "c = ''WA'' \<or> c \<in> fst ` set long_codes" for c
  proof -
    have "trim_space s \<noteq> ''AC''" "trim_space s \<noteq> ''OK''" "trim_space s \<noteq> ''ACCEPTED''"
      "trim_space s \<noteq> zh_zhengque" "trim_space s \<noteq> zh_daan_zhengque"
      using that by (auto simp: long_codes_def to_upper_def upper_char_def zh_defs)
    moreover have "c \<notin> acceptedStatusNorm"
      using that(2) by (auto simp: long_codes_def acceptedStatusNorm_def zh_defs)
    ultimately show ?thesis using that(1) by (auto simp: IsAcceptedStatus_def Let_def acceptedStatusNorm_def)
  qed
  ultimately show ?thesis by blast
qed

lemma refreshable_not_accepted:
  "IsPendingSubmitStatus (trim_space s) \<or> shouldRewriteFetchedStatus p (trim_space s) n \<Longrightarrow> \<not> IsAcceptedStatus s"
  using rewrite_not_accepted accepted_pending_False[of "trim_space s"] by auto

subsection \<open>Replacing one row\<close>

lemma replace_split:
  assumes "distinct (map batch_key rows)" and "old \<in> set rows"
  obtains pre post where "rows = pre @ old # post"
    and "\<And>f. map (\<lambda>r. if batch_key r = batch_key old \<and> sl_status r = sl_status old then f r else r) rows
          = pre @ f old # post"
    and "length (filter (\<lambda>r. batch_key r = batch_key old \<and> sl_status r = sl_status old) rows) = 1"
proof -
  obtain pre post where r: "rows = pre @ old # post" using assms(2) by (meson split_list)
  have o: "batch_key r \<noteq> batch_key old" if "r \<in> set pre \<or> r \<in> set post" for r
    using assms(1) that by (auto simp: r image_iff)
  have "map (\<lambda>r. if batch_key r = batch_key old \<and> sl_status r = sl_status old then f r else r) ls = ls"
    if "set ls \<subseteq> set pre \<union> set post" for f ls
    using o that by (auto intro!: map_idI)
  moreover have "filter (\<lambda>r. batch_key r = batch_key old \<and> sl_status r = sl_status old) ls = []"
    if "set ls \<subseteq> set pre \<union> set post" for ls
    using o that by (auto simp: filter_empty_conv)
  ultimately show ?thesis by (intro that[of pre post]) (auto simp: r)
qed

lemma counts_mid: "counts (filter P (pre @ x # post)) = add_counts (counts (filter P (pre @ post)))
    (if P x then delta_counts x else (0, 0))"
  by (simp add: counts_def delta_counts_def add_counts_def)

lemma recount_mid_same:
  assumes "delta_key x = delta_key y" and "delta_counts x = delta_counts y"
  shows "recount (pre @ x # post) = recount (pre @ y # post)"
  unfolding recount_def counts_mid by (simp add: assms fun_eq_iff)

lemma ac_first_cong:
  assumes "{l \<in> set A. sl_isac l} = {l \<in> set B. sl_isac l}"
  shows "ac_first A = ac_first B"
proof
  fix k
  have s: "set (map sl_time (filter (\<lambda>l. sl_isac l \<and> ac_key l = k) L))
      = sl_time ` {l \<in> {l \<in> set L. sl_isac l}. ac_key l = k}" for L by auto
  show "ac_first A k = ac_first B k" unfolding ac_first_def s assms ..
qed

lemma ac_matches_mid_same:
  assumes "\<not> sl_isac x" "\<not> sl_isac y" "\<And>k. bound_to k x = bound_to k y"
    and "ac_matches (pre @ x # post) T"
  shows "ac_matches (pre @ y # post) T"
proof -
  have "ac_first (pre @ x # post) = ac_first (pre @ y # post)"
    using assms(1,2) by (simp add: ac_first_def fun_eq_iff)
  moreover have "ac_days (pre @ x # post) = ac_days (pre @ y # post)"
    using assms(1,2) by (simp add: ac_days_def)
  moreover have "state_of (pre @ x # post) k = state_of (pre @ y # post) k" for k
    using assms(1-3) by (simp add: state_of_def)
  ultimately show ?thesis using assms(4) by (simp add: ac_matches_def)
qed

lemma ac_matches_mid_accepted:
  assumes "\<not> sl_isac x" "sl_isac y" "\<And>k. bound_to k x = bound_to k y"
    and "ac_matches ((pre @ x # post) @ [y]) T"
  shows "ac_matches (pre @ y # post) T"
proof -
  have "ac_first ((pre @ x # post) @ [y]) = ac_first (pre @ y # post)"
    using assms(1,2) by (intro ac_first_cong) auto
  moreover have "ac_days ((pre @ x # post) @ [y]) = ac_days (pre @ y # post)"
    using assms(1,2) by (auto simp: ac_days_def)
  moreover have "state_of ((pre @ x # post) @ [y]) k = state_of (pre @ y # post) k" for k
    using assms(1-3) by (auto simp: state_of_def)
  ultimately show ?thesis using assms(4) by (simp add: ac_matches_def)
qed

subsection \<open>The refresh keeps the invariant\<close>

abbreviation "same_row old \<equiv> (\<lambda>r. batch_key r = batch_key old \<and> sl_status r = sl_status old)"
abbreviation "set_verdict s ac \<equiv> (\<lambda>r. r\<lparr>sl_status := s, sl_isac := ac\<rparr>)"

lemma ApplyDaily_one:
  "ApplyDailyDeltas [d] t = Some (upsert add_counts (delta_row d) t)"
  by (simp add: ApplyDailyDeltas_def upsert_in_batches_distinct upserts_simps)

lemma recount_accept:
  assumes "\<not> sl_isac x" and "y = x\<lparr>sl_status := s, sl_isac := True\<rparr>"
    and "CountsTowardDailyAC (sl_platform x) (sl_submit_id x)"
  shows "upsert add_counts (delta_key x, (0, 1)) (recount (pre @ x # post)) = recount (pre @ y # post)"
proof
  fix k
  have y: "delta_key y = delta_key x" "delta_counts y = add_counts (delta_counts x) (0, 1)"
    using assms by (simp_all add: delta_key_def delta_counts_def add_counts_def)
  let ?c = "\<lambda>z. counts (filter (\<lambda>l. delta_key l = k) (pre @ z # post))"
  have c: "?c y = (if delta_key x = k then add_counts (?c x) (0, 1) else ?c x)"
    unfolding counts_mid y by (simp add: daily.assoc)
  have "0 \<le> snd (?c x)" by (rule counts_nonneg)
  then show "upsert add_counts (delta_key x, (0, 1)) (recount (pre @ x # post)) k = recount (pre @ y # post) k"
    unfolding recount_def Let_def c
    by (cases "delta_key x = k") (auto simp: upsert_def add_counts_def prod_eq_iff)
qed

lemma replace_keys: "map batch_key (map (\<lambda>r. if P r then set_verdict s ac r else r) rows) = map batch_key rows"
  by (auto simp: batch_key_def)

text \<open>One row: no error, the invariant holds again, only this row changes.\<close>

lemma refresh_one_inv:
  assumes inv: "core_inv loc db" and old: "old \<in> set (submit_logs db)"
  shows "\<exists>k db'. refresh_one now want old db = Some (k, db') \<and> core_inv loc db'
     \<and> (\<exists>s ac. submit_logs db' = map (\<lambda>r. if same_row old r then set_verdict s ac r else r) (submit_logs db)
          \<or> db' = db)"
proof (cases "refresh_one now want old db = Some (0, db)")
  case True
  then show ?thesis using inv by blast
next
  case changed: False
  obtain neu where neu: "want (sl_platform old, sl_submit_id old) = Some neu"
    using changed by (cases "want (sl_platform old, sl_submit_id old)") (auto simp: refresh_one_def)
  let ?new = "trim_space (sl_status neu)" and ?rows = "submit_logs db"
  have guards: "?new \<noteq> ''''" "trim_space (sl_status old) \<noteq> ?new"
    "IsPendingSubmitStatus (trim_space (sl_status old))
     \<or> shouldRewriteFetchedStatus (sl_platform old) (trim_space (sl_status old)) ?new"
    using changed neu by (auto simp: refresh_one_def Let_def split: if_splits)
  have nacc: "\<not> IsAcceptedStatus (sl_status old)" using guards(3) refreshable_not_accepted by blast
  have ok: "row_ok old" and dist: "distinct (map batch_key ?rows)" using inv old by (auto simp: core_inv_def)
  then have nisac: "\<not> sl_isac old" and plat: "trim_space (sl_platform old) = sl_platform old" "sl_platform old \<noteq> ''''"
    and cnt: "CountsTowardDailyAC (sl_platform old) (sl_submit_id old)"
    using nacc by (auto simp: row_ok_def CountsTowardDailyAC_def)
  obtain pre post where r: "?rows = pre @ old # post"
    and rep: "\<And>f. map (\<lambda>r. if same_row old r then f r else r) ?rows = pre @ f old # post"
    and one: "length (filter (same_row old) ?rows) = 1"
    by (rule replace_split[OF dist old]) blast
  let ?ac = "IsAcceptedStatus ?new"
  define db1 where "db1 = db\<lparr>submit_logs := map (\<lambda>r. if same_row old r then set_verdict ?new ?ac r else r) ?rows\<rparr>"
  have f1: "submit_logs db1 = map (\<lambda>r. if same_row old r then set_verdict ?new ?ac r else r) ?rows"
    "daily_user_stats db1 = daily_user_stats db" "ac_part db1 = ac_part db" by (simp_all add: db1_def)
  have rows1: "submit_logs db1 = pre @ set_verdict ?new ?ac old # post" unfolding f1 by (rule rep)
  have "map batch_key (submit_logs db1) = map batch_key ?rows" unfolding f1 by (rule replace_keys)
  then have dist1: "distinct (map batch_key (submit_logs db1))" using dist by (simp only:)
  have ok1: "\<forall>r\<in>set (submit_logs db1). row_ok r"
    using inv ok nisac cnt unfolding rows1 core_inv_def r
    by (auto simp: row_ok_def CountsTowardDailyAC_def split: if_splits)
  have sess1: "\<forall>r\<in>set (submit_logs db1). same_day loc r"
    using inv unfolding f1 core_inv_def same_day_def by auto
  have b: "bound_to k (set_verdict s ac old) = bound_to k old" for k s ac by (simp add: bound_to_def)
  show ?thesis
  proof (cases ?ac)
    case False
    have "recount ?rows = recount (submit_logs db1)"
      unfolding rows1 r by (rule recount_mid_same) (use nisac False in \<open>simp_all add: delta_key_def delta_counts_def\<close>)
    moreover have "ac_matches (submit_logs db1) (ac_part db)"
      unfolding rows1 by (rule ac_matches_mid_same[where x = old])
        (use nisac False b inv in \<open>simp_all add: core_inv_def r\<close>)
    ultimately have "core_inv loc db1" using inv dist1 ok1 sess1 f1(2,3) by (simp add: core_inv_def)
    moreover have "refresh_one now want old db = Some (1, db1)"
      using neu guards one False unfolding refresh_one_def Let_def db1_def by simp
    ultimately show ?thesis using f1(1) by blast
  next
    case True
    let ?row = "set_verdict ?new True old"
    obtain T where T: "ApplyUserACFromSubmits now [?row] (ac_part db) = Some T" "ac_matches (?rows @ [?row]) T"
      using inv by (auto simp: core_inv_def elim: ApplyUserAC_full[of ?rows "ac_part db" now "[?row]"])
    have "ac_matches (submit_logs db1) T"
      unfolding rows1 by (rule ac_matches_mid_accepted[where x = old])
        (use nisac True b T(2) r in simp_all)
    let ?delta = "\<lparr>dd_user = sl_user ?row, dd_day = row_day ?row,
        dd_platform = (if trim_space (sl_platform ?row) = '''' then ''?'' else trim_space (sl_platform ?row)),
        dd_submit = 0, dd_ac = 1\<rparr>"
    have d: "delta_row ?delta = (delta_key old, (0, 1))"
      using plat by (simp add: delta_row_def delta_key_def)
    have "upsert add_counts (delta_row ?delta) (daily_user_stats db) = recount (submit_logs db1)"
      using recount_accept[OF nisac refl cnt, of pre post ?new] inv True unfolding d rows1 r core_inv_def
      by (simp add: r)
    then have "core_inv loc (db1\<lparr>daily_user_stats := upsert add_counts (delta_row ?delta) (daily_user_stats db), ac_part := T\<rparr>)"
      using dist1 ok1 sess1 \<open>ac_matches (submit_logs db1) T\<close> by (simp add: core_inv_def)
    moreover have "refresh_one now want old db =
        Some (1, db1\<lparr>daily_user_stats := upsert add_counts (delta_row ?delta) (daily_user_stats db), ac_part := T\<rparr>)"
      using neu guards one True nacc nisac T(1) unfolding refresh_one_def Let_def db1_def
      by (simp add: ApplyDaily_one)
    ultimately show ?thesis
      by (intro exI[of _ 1] exI[of _ "db1\<lparr>daily_user_stats := upsert add_counts (delta_row ?delta) (daily_user_stats db),
          ac_part := T\<rparr>"] conjI exI[of _ ?new] exI[of _ ?ac] disjI1) (simp_all add: f1(1))
  qed
qed

definition verdict_only :: "SubmitLog list \<Rightarrow> SubmitLog list \<Rightarrow> bool" where
  "verdict_only xs ys \<longleftrightarrow> map (set_verdict '''' False) xs = map (set_verdict '''' False) ys"

lemma verdict_only_refl [simp]: "verdict_only xs xs"
  by (simp add: verdict_only_def)

lemma verdict_only_trans: "verdict_only xs ys \<Longrightarrow> verdict_only ys zs \<Longrightarrow> verdict_only xs zs"
  by (simp add: verdict_only_def)

lemma verdict_only_map: "verdict_only xs (map (\<lambda>r. if P r then set_verdict s ac r else r) xs)"
  by (auto simp: verdict_only_def)

lemma verdict_only_fields:
  assumes "verdict_only xs ys" and "\<And>r s ac. f (set_verdict s ac r) = f r"
  shows "map f ys = map f xs"
proof -
  have "map f zs = map f (map (set_verdict '''' False) zs)" for zs by (simp add: assms(2))
  then show ?thesis using assms(1) unfolding verdict_only_def by metis
qed

lemma refreshExisting_inv:
  assumes "core_inv loc db" and "set olds \<subseteq> set (submit_logs db)" and "distinct (map batch_key olds)"
  shows "\<exists>k db'. refreshExistingVerdicts now want olds (n, db) = (False, k, db')
     \<and> core_inv loc db' \<and> verdict_only (submit_logs db) (submit_logs db')"
  using assms
proof (induction olds arbitrary: n db)
  case (Cons old olds)
  obtain k db1 where one: "refresh_one now want old db = Some (k, db1)" "core_inv loc db1"
    and ch: "\<exists>s ac. submit_logs db1 = map (\<lambda>r. if same_row old r then set_verdict s ac r else r) (submit_logs db)
          \<or> db1 = db"
    using refresh_one_inv[OF Cons.prems(1), of old now want] Cons.prems(2) by auto
  have "r \<in> set (submit_logs db1)" if r: "r \<in> set olds" for r
  proof -
    have "batch_key r \<noteq> batch_key old" using Cons.prems(3) r by (auto simp: image_iff)
    moreover have "r \<in> set (submit_logs db)" using Cons.prems(2) r by auto
    ultimately show ?thesis using ch by force
  qed
  moreover have vo: "verdict_only (submit_logs db) (submit_logs db1)"
  proof -
    from ch obtain s ac where
      "submit_logs db1 = map (\<lambda>r. if same_row old r then set_verdict s ac r else r) (submit_logs db) \<or> db1 = db"
      by blast
    then show ?thesis
    proof
      assume e: "submit_logs db1 = map (\<lambda>r. if same_row old r then set_verdict s ac r else r) (submit_logs db)"
      show ?thesis unfolding e by (rule verdict_only_map)
    qed simp
  qed
  ultimately obtain k' db' where "refreshExistingVerdicts now want olds (n + k, db1) = (False, k', db')"
    "core_inv loc db'" "verdict_only (submit_logs db1) (submit_logs db')"
    using Cons.IH[OF one(2), of "n + k"] Cons.prems(3) by (auto simp: subset_iff)
  then show ?case using one(1) verdict_only_trans[OF vo] by simp
qed simp

lemma refresh_chunks_inv:
  assumes "core_inv loc db"
  shows "\<exists>k db'. refresh_chunks now want parts (n, db) = (False, k, db')
     \<and> core_inv loc db' \<and> verdict_only (submit_logs db) (submit_logs db')"
  using assms
proof (induction parts arbitrary: n db)
  case (Cons x parts)
  obtain g part where x: "x = (g, part)" by fastforce
  have "set (read_back g part (submit_logs db)) \<subseteq> set (submit_logs db)"
    "distinct (map batch_key (read_back g part (submit_logs db)))"
    using Cons.prems by (auto simp: read_back_def core_inv_def distinct_map_filter)
  then obtain k db1 where one: "refreshExistingVerdicts now want (read_back g part (submit_logs db)) (n, db) = (False, k, db1)"
    "core_inv loc db1" "verdict_only (submit_logs db) (submit_logs db1)"
    using refreshExisting_inv[OF Cons.prems] by blast
  show ?case using Cons.IH[OF one(2), of k] one verdict_only_trans[OF one(3)] by (auto simp: x)
qed simp

lemma refresh_inv:
  assumes "core_inv loc db"
  shows "\<exists>k db'. RefreshPendingSubmitVerdicts now fetched db = (False, k, db')
     \<and> core_inv loc db' \<and> verdict_only (submit_logs db) (submit_logs db')"
  using refresh_chunks_inv[OF assms] assms by (auto simp: RefreshPendingSubmitVerdicts_def)

text \<open>C17: Bringing verdicts up to date keeps the whole store consistent: from a store in which the rows have
  unique keys and their accepted flag is that of their status, the daily statistics are a recount of the
  rows and the tables of accepted problems describe them, the refresh of any fetched rows
  succeeds and ends in such a store, with nothing but statuses and accepted flags changed in the rows.\<close>

theorem refresh_keeps_store:
  assumes "core_inv loc db"
  shows "case RefreshPendingSubmitVerdicts now fetched db of (err, n, db') \<Rightarrow>
     \<not> err \<and> core_inv loc db' \<and> verdict_only (submit_logs db) (submit_logs db')"
  using refresh_inv[OF assms, of now fetched] by auto

definition empty_db :: core_db where
  "empty_db = \<lparr>submit_logs = [], daily_user_stats = Map.empty, ac_part = empty_tables\<rparr>"

lemma core_inv_empty: "core_inv loc empty_db"
  using ac_matches_empty by (simp add: core_inv_def empty_db_def recount_def row_simps fun_eq_iff)

theorem refresh_keeps_store_witness:
  "case RefreshPendingSubmitVerdicts 5 [demo_row] empty_db of (err, n, db') \<Rightarrow>
     \<not> err \<and> core_inv (\<lambda>t. 0) db' \<and> verdict_only (submit_logs empty_db) (submit_logs db')"
  by (rule refresh_keeps_store[OF core_inv_empty])

text \<open>A final verdict is never rewritten into a different one, except by the short code of the same
  verdict and by the acceptance of a QOJ row stored as wrong: when the refresh of a stored row changes
  its status, the old status was pending, or it was a long code and the new one is its short code, or
  the platform is QOJ, the old status WA and the new one AC.\<close>

theorem refresh_changes_only_open_verdicts:
  assumes "refresh_one now want old db = Some (k, db')" and "k \<noteq> 0"
  shows "IsPendingSubmitStatus (sl_status old)
     \<or> (\<exists>neu. want (sl_platform old, sl_submit_id old) = Some neu
          \<and> (to_upper (trim_space (sl_status old)), to_upper (trim_space (sl_status neu))) \<in> set long_codes)
     \<or> sl_platform old = ''QOJ'' \<and> to_upper (trim_space (sl_status old)) = ''WA''"
proof -
  obtain neu where neu: "want (sl_platform old, sl_submit_id old) = Some neu"
    using assms by (cases "want (sl_platform old, sl_submit_id old)") (auto simp: refresh_one_def)
  have "IsPendingSubmitStatus (trim_space (sl_status old))
     \<or> shouldRewriteFetchedStatus (sl_platform old) (trim_space (sl_status old)) (trim_space (sl_status neu))"
    using assms neu by (auto simp: refresh_one_def Let_def split: if_splits)
  then show ?thesis
    using neu by (auto simp: shouldRewriteFetchedStatus_def shouldRewriteFinalStatus_def Let_def
        IsPendingSubmitStatus_def dest!: map_of_SomeD split: if_splits option.splits)
qed

theorem refresh_changes_only_open_verdicts_witness:
  "\<exists>db'. refresh_one 5 [(''LuoGu'', ''101'') \<mapsto> demo_row\<lparr>sl_status := ''WA''\<rparr>]
      (demo_row\<lparr>sl_status := ''TESTING'', sl_isac := False\<rparr>)
      (empty_db\<lparr>submit_logs := [demo_row\<lparr>sl_status := ''TESTING'', sl_isac := False\<rparr>]\<rparr>) = Some (1, db')
    \<and> IsPendingSubmitStatus ''TESTING''"
proof -
  let ?old = "demo_row\<lparr>sl_status := ''TESTING'', sl_isac := False\<rparr>"
  let ?want = "[(''LuoGu'', ''101'') \<mapsto> demo_row\<lparr>sl_status := ''WA''\<rparr>]"
  let ?db = "empty_db\<lparr>submit_logs := [?old]\<rparr>"
  let ?db' = "empty_db\<lparr>submit_logs := [?old\<lparr>sl_status := ''WA''\<rparr>]\<rparr>"
  have t: "trim_space ''TESTING'' = ''TESTING''" "trim_space ''WA'' = ''WA''"
    by (simp_all add: trim_space_def trim_left_def is_space_def)
  have p: "IsPendingSubmitStatus ''TESTING''"
    by (simp add: IsPendingSubmitStatus_def t to_upper_def upper_char_def)
  have "\<not> IsAcceptedStatus ''WA''"
    by (simp add: IsAcceptedStatus_def t to_upper_def upper_char_def acceptedStatusNorm_def zh_defs)
  then have "refresh_one 5 ?want ?old ?db = Some (1, ?db')"
    by (simp add: refresh_one_def demo_row_def t p empty_db_def batch_key_def)
  moreover from refresh_changes_only_open_verdicts[OF this]
  have "IsPendingSubmitStatus ''TESTING''"
    by (auto simp: demo_row_def t long_codes_def to_upper_def upper_char_def)
  ultimately show ?thesis by blast
qed

end
