(* ===== verification/SubmitImport.thy ===== *)
theory SubmitImport
  imports VerdictRefresh
begin

text \<open>
  The one path on which submissions enter the store: \<^verbatim>\<open>importSubmitLogs\<close> and
  \<^verbatim>\<open>persistClientSyncPage\<close> of \<^verbatim>\<open>app/core_data/internal/biz/service/spider.go\<close>, used by the crawlers and by the
  page-wise browser synchronisation, with the receipts that make a page idempotent
  (\<^verbatim>\<open>client_sync_maintenance.go\<close>).

  What the code reads from Redis is an input of a call: whether the write lock of (user, platform) was
  obtained, the current binding generation (\<open>None\<close> for an error; the check is skipped without
  Redis), and whether the effects after the transaction (cache invalidation, retry schedule)
  succeed. Failures of the database connection itself are not modelled; a failing
  statement makes its transaction roll back.
\<close>

subsection \<open>State\<close>

record ClientSyncPageReceipt =
  cr_digest :: string
  cr_user :: int
  cr_platform :: string
  cr_generation :: int
  cr_page_inserted :: int
  cr_inserted :: int
  cr_processed_pages :: int
  cr_next_page :: int
  cr_first_submit_id :: string
  cr_remote_count :: int
  cr_per_page :: int
  cr_completion :: string
  cr_next_available :: int
  cr_has_pending :: bool
  cr_effects_applied :: bool

record ClientSyncPostProcessJob =
  cj_user :: int
  cj_platform :: string
  cj_dirty :: bool
  cj_receipt_count :: nat
  cj_ready_at :: int

record sync_db =
  store :: core_db
  receipts :: "((string \<times> int \<times> int) \<times> ClientSyncPageReceipt) list"
  jobs :: "string \<rightharpoonup> ClientSyncPostProcessJob"
  checkpoints :: "int \<times> string \<rightharpoonup> string \<times> int"
  repaired :: "(int \<times> string) set"

record ClientSyncPageImport =
  cp_session :: string
  cp_restart :: int
  cp_page :: int
  cp_digest :: string
  cp_first_submit_id :: string
  cp_remote_count :: int
  cp_per_page :: int
  cp_inserted_before :: int
  cp_processed_before :: int
  cp_completion :: string
  cp_next_available :: int
  cp_completed_at :: int
  cp_expires_at :: int

record ClientSyncPageImportResult =
  rr_page_inserted :: int
  rr_inserted :: int
  rr_processed_pages :: int
  rr_next_page :: int
  rr_first_submit_id :: string
  rr_remote_count :: int
  rr_per_page :: int
  rr_completion :: string
  rr_next_available :: int
  rr_replayed :: bool
  rr_digest_matched :: bool

record SubmitImportResult =
  ir_inserted :: int
  ir_refreshed :: int
  ir_page :: "ClientSyncPageImportResult option"

datatype import_error =
  InvalidOwner | LockBusy | SyncUnavailable | BindingChanged | InvalidPage | OwnerConflict
  | RecordsChanged | StatementFailed

record import_env =
  env_lock :: bool
  env_generation :: "int option option"
  env_effects_ok :: bool
  env_now :: int

definition clientSyncMaxReceiptsPerSession :: nat where "clientSyncMaxReceiptsPerSession = 5000"
definition pendingVerdictMaxAge :: int where "pendingVerdictMaxAge = 24 * hour_ns"
abbreviation "submitInsertBatchSize \<equiv> 300::nat"

subsection \<open>Inserting new rows\<close>

text \<open>The database numbers the rows and keeps the instant of their time, which it gives back in the zone of the session; the
  unique index rejects a batch that repeats a key. The rows in memory keep their own location.\<close>

fun assign_ids :: "nat \<Rightarrow> SubmitLog list \<Rightarrow> SubmitLog list" where
  "assign_ids n [] = []"
| "assign_ids n (l # ls) = l\<lparr>sl_id := n\<rparr> # assign_ids (Suc n) ls"

definition next_id :: "SubmitLog list \<Rightarrow> nat" where
  "next_id rows = Suc (fold max (map sl_id rows) 0)"

definition insert_rows :: "zone \<Rightarrow> SubmitLog list \<Rightarrow> SubmitLog list \<Rightarrow> (SubmitLog list \<times> SubmitLog list) option" where
  "insert_rows loc neu rows =
     (let neu' = assign_ids (next_id rows) neu
      in if distinct (map batch_key neu') \<and> list_all (\<lambda>l. batch_key l \<notin> batch_key ` set rows) neu'
         then Some (neu', rows @ map (in_session loc) neu') else None)"

text \<open>The transaction of both paths: insert, add to the daily statistics, update the accepted problems.\<close>

definition write_new :: "zone \<Rightarrow> int \<Rightarrow> SubmitLog list \<Rightarrow> core_db \<Rightarrow> core_db option" where
  "write_new loc now neu db =
     (case insert_rows loc neu (submit_logs db) of
        None \<Rightarrow> None
      | Some (neu', rows') \<Rightarrow>
          (case ApplyDailyDeltas (AggregateSubmitDeltas neu') (daily_user_stats db) of
             None \<Rightarrow> None
           | Some d \<Rightarrow>
               (case ApplyUserACFromSubmits now neu' (ac_part db) of
                  None \<Rightarrow> None
                | Some T \<Rightarrow> Some \<lparr>submit_logs = rows', daily_user_stats = d, ac_part = T\<rparr>)))"

subsection \<open>Receipts of the browser synchronisation\<close>

definition page_key :: "ClientSyncPageImport \<Rightarrow> string \<times> int \<times> int" where
  "page_key p = (cp_session p, cp_restart p, cp_page p)"

definition clientSyncPageResult :: "ClientSyncPageReceipt \<Rightarrow> bool \<Rightarrow> ClientSyncPageImportResult" where
  "clientSyncPageResult r replayed =
     \<lparr>rr_page_inserted = cr_page_inserted r, rr_inserted = cr_inserted r,
      rr_processed_pages = cr_processed_pages r, rr_next_page = cr_next_page r,
      rr_first_submit_id = cr_first_submit_id r, rr_remote_count = cr_remote_count r,
      rr_per_page = cr_per_page r, rr_completion = cr_completion r,
      rr_next_available = cr_next_available r, rr_replayed = replayed, rr_digest_matched = True\<rparr>"

definition loadClientSyncPageReceipt ::
  "sync_db \<Rightarrow> int \<Rightarrow> string \<Rightarrow> int \<Rightarrow> ClientSyncPageImport
   \<Rightarrow> import_error + (ClientSyncPageImportResult \<times> ClientSyncPageReceipt) option" where
  "loadClientSyncPageReceipt s userID platform generation p =
     (case map_of (receipts s) (page_key p) of
        None \<Rightarrow> Inr None
      | Some r \<Rightarrow>
          if cr_user r \<noteq> userID \<or> cr_platform r \<noteq> platform \<or> cr_generation r \<noteq> generation
          then Inl BindingChanged
          else Inr (Some ((clientSyncPageResult r True)\<lparr>rr_digest_matched := cr_digest r = cp_digest p\<rparr>, r)))"

definition applyClientSyncReceiptEffects ::
  "import_env \<Rightarrow> (string \<times> int \<times> int) \<Rightarrow> sync_db \<Rightarrow> bool \<times> sync_db" where
  "applyClientSyncReceiptEffects env k s =
     (case map_of (receipts s) k of
        None \<Rightarrow> (True, s)
      | Some r \<Rightarrow>
          if cr_effects_applied r then (True, s)
          else if (0 < cr_page_inserted r \<or> cr_has_pending r) \<and> \<not> env_effects_ok env then (False, s)
          else (True, s\<lparr>receipts := map (\<lambda>(k', r'). if k' = k then (k', r'\<lparr>cr_effects_applied := True\<rparr>) else (k', r'))
                 (receipts s)\<rparr>))"

definition reserveClientSyncReceipt ::
  "int \<Rightarrow> string \<Rightarrow> ClientSyncPageImport \<Rightarrow> bool \<Rightarrow> sync_db \<Rightarrow> import_error + sync_db" where
  "reserveClientSyncReceipt userID platform p dirty s =
     (let readyAt = (if cp_completion p \<noteq> '''' then cp_completed_at p else cp_expires_at p);
          existing = min (length (filter (\<lambda>(k, r). fst k = cp_session p) (receipts s))) clientSyncMaxReceiptsPerSession;
          job = (case jobs s (cp_session p) of
                   Some j \<Rightarrow> j
                 | None \<Rightarrow> \<lparr>cj_user = userID, cj_platform = platform, cj_dirty = False,
                            cj_receipt_count = existing, cj_ready_at = readyAt\<rparr>)
      in if cj_receipt_count job \<ge> clientSyncMaxReceiptsPerSession then Inl RecordsChanged
         else Inr (s\<lparr>jobs := (jobs s)(cp_session p \<mapsto>
                job\<lparr>cj_receipt_count := cj_receipt_count job + 1, cj_user := userID, cj_platform := platform,
                    cj_ready_at := readyAt, cj_dirty := cj_dirty job \<or> dirty\<rparr>)\<rparr>))"

definition hasSubmitOwnerConflict :: "string \<Rightarrow> string list \<Rightarrow> int \<Rightarrow> SubmitLog list \<Rightarrow> bool" where
  "hasSubmitOwnerConflict platform ids userID rows =
     (if ids = [] then False
      else list_ex (\<lambda>r. sl_platform r = platform \<and> sl_submit_id r \<in> set ids \<and> sl_user r \<noteq> userID) rows)"

definition idsFromSubmitLogs :: "SubmitLog list \<Rightarrow> string list" where
  "idsFromSubmitLogs logs = filter (\<lambda>i. i \<noteq> '''') (map sl_submit_id logs)"

definition countRecentPendingSubmits :: "int \<Rightarrow> SubmitLog list \<Rightarrow> int \<Rightarrow> nat" where
  "countRecentPendingSubmits now logs maxAge =
     (if logs = [] \<or> maxAge \<le> 0 then 0
      else length (filter (\<lambda>l. IsPendingSubmitStatus (sl_status l)
             \<and> (is_zero_time (sl_time l) \<or> sl_time l > now - maxAge)) logs))"

subsection \<open>A browser page\<close>

definition receipt_of ::
  "import_env \<Rightarrow> int \<Rightarrow> string \<Rightarrow> int \<Rightarrow> SubmitLog list \<Rightarrow> SubmitLog list \<Rightarrow> ClientSyncPageImport
   \<Rightarrow> ClientSyncPageReceipt" where
  "receipt_of env userID platform generation neu fetched p =
     (let pending = countRecentPendingSubmits (env_now env) fetched pendingVerdictMaxAge > 0
      in \<lparr>cr_digest = cp_digest p, cr_user = userID, cr_platform = platform, cr_generation = generation,
          cr_page_inserted = int (length neu), cr_inserted = cp_inserted_before p + int (length neu),
          cr_processed_pages = cp_processed_before p + 1, cr_next_page = cp_page p + 1,
          cr_first_submit_id = cp_first_submit_id p, cr_remote_count = cp_remote_count p,
          cr_per_page = cp_per_page p, cr_completion = cp_completion p,
          cr_next_available = cp_next_available p, cr_has_pending = pending,
          cr_effects_applied = (neu = [] \<and> \<not> pending)\<rparr>)"

text \<open>The transaction: \<open>Inl\<close> rolls back. The result is the page result and the new state.\<close>

definition persist_tx ::
  "zone \<Rightarrow> import_env \<Rightarrow> int \<Rightarrow> string \<Rightarrow> int \<Rightarrow> SubmitLog list \<Rightarrow> string list \<Rightarrow> SubmitLog list
   \<Rightarrow> ClientSyncPageImport \<Rightarrow> sync_db \<Rightarrow> import_error + (ClientSyncPageImportResult \<times> sync_db)" where
  "persist_tx loc env userID platform generation neu ids fetched p s =
     (case loadClientSyncPageReceipt s userID platform generation p of
        Inl e \<Rightarrow> Inl e
      | Inr (Some (replayed, r)) \<Rightarrow> Inr (replayed, s)
      | Inr None \<Rightarrow>
          if hasSubmitOwnerConflict platform ids userID (submit_logs (store s)) then Inl OwnerConflict
          else case (if neu = [] then Some (store s) else write_new loc (env_now env) neu (store s)) of
            None \<Rightarrow> Inl StatementFailed
          | Some db \<Rightarrow>
              let s1 = s\<lparr>store := db\<rparr>;
                  k = (userID, platform)
              in if cp_completion p \<noteq> '''' \<and> checkpoints s1 k = None then Inl BindingChanged
                 else
                   let s2 = (if cp_completion p \<noteq> ''''
                             then s1\<lparr>checkpoints := (checkpoints s1)(k \<mapsto>
                                     (trim_space (cp_first_submit_id p), cp_completed_at p))\<rparr> else s1)
                   in (case reserveClientSyncReceipt userID platform p (neu \<noteq> []) s2 of
                         Inl e \<Rightarrow> Inl e
                       | Inr s3 \<Rightarrow>
                           let r = receipt_of env userID platform generation neu fetched p
                           in Inr (clientSyncPageResult r False,
                                   s3\<lparr>receipts := (page_key p, r) # receipts s3\<rparr>)))"

definition persistClientSyncPage ::
  "zone \<Rightarrow> import_env \<Rightarrow> int \<Rightarrow> string \<Rightarrow> int \<Rightarrow> SubmitLog list \<Rightarrow> string list \<Rightarrow> SubmitLog list
   \<Rightarrow> ClientSyncPageImport \<Rightarrow> sync_db \<Rightarrow> (import_error + SubmitImportResult) \<times> sync_db" where
  "persistClientSyncPage loc env userID platform generation neu idsSource fetched p s =
     (let ids = (if idsSource = [] then idsFromSubmitLogs fetched else idsSource) in
      case persist_tx loc env userID platform generation neu ids fetched p s of
        Inl e \<Rightarrow>
          (case loadClientSyncPageReceipt s userID platform generation p of
             Inr (Some (replayed, r)) \<Rightarrow>
               (let (ok, s') = applyClientSyncReceiptEffects env (page_key p) s
                in if ok then (Inr \<lparr>ir_inserted = rr_page_inserted replayed, ir_refreshed = 0,
                                  ir_page = Some replayed\<rparr>, s')
                   else (Inl SyncUnavailable, s'))
           | Inl e' \<Rightarrow> (Inl e', s)
           | Inr None \<Rightarrow>
               if hasSubmitOwnerConflict platform ids userID (submit_logs (store s)) then (Inl OwnerConflict, s)
               else (Inl e, s))
      | Inr (pr, s1) \<Rightarrow>
          (let (ok, s2) = applyClientSyncReceiptEffects env (page_key p) s1
           in if ok then (Inr \<lparr>ir_inserted = rr_page_inserted pr, ir_refreshed = 0, ir_page = Some pr\<rparr>, s2)
              else (Inl SyncUnavailable, s2)))"

subsection \<open>The import\<close>

record submitImportOptions =
  io_repair_required :: bool
  io_complete :: bool
  io_page :: "ClientSyncPageImport option"

definition finishRepair :: "int \<Rightarrow> string \<Rightarrow> submitImportOptions \<Rightarrow> sync_db \<Rightarrow> sync_db" where
  "finishRepair userID platform opts s =
     (if platform \<noteq> ''QOJ'' \<or> \<not> io_repair_required opts \<or> \<not> io_complete opts then s
      else s\<lparr>repaired := insert (userID, platform) (repaired s)\<rparr>)"

definition prepare :: "int \<Rightarrow> string \<Rightarrow> SubmitLog list \<Rightarrow> SubmitLog list" where
  "prepare userID platform logs =
     NormalizeSubmitIDs (FillIsACBatch (map (\<lambda>l. l\<lparr>sl_user := userID, sl_platform := platform\<rparr>) logs))"

text \<open>The repairs of stored rows before the filter. Pruning and display repair are for LeetCode only.\<close>

definition repair_stored ::
  "zone \<Rightarrow> zone \<Rightarrow> int \<Rightarrow> int \<Rightarrow> string \<Rightarrow> SubmitLog list \<Rightarrow> core_db \<Rightarrow> bool \<times> nat \<times> core_db" where
  "repair_stored loc sh now userID platform tmp db =
     (let db1 = (if platform = ''LeetCode''
                 then db\<lparr>submit_logs := PruneLeetCodeProbDuplicates sh userID (submit_logs db)\<rparr> else db)
      in case RefreshPendingSubmitVerdicts now tmp db1 of
           (True, n, db2) \<Rightarrow> (True, n, db2)
         | (False, n, db2) \<Rightarrow>
             if platform = ''LeetCode''
             then (let (k, rows) = RefreshLeetCodeProbMeta tmp (submit_logs db2)
                   in (False, n + k, db2\<lparr>submit_logs := rows\<rparr>))
             else (False, n, db2))"

definition import_rows ::
  "zone \<Rightarrow> zone \<Rightarrow> import_env \<Rightarrow> int \<Rightarrow> string \<Rightarrow> int \<Rightarrow> SubmitLog list \<Rightarrow> submitImportOptions \<Rightarrow> sync_db
   \<Rightarrow> (import_error + SubmitImportResult) \<times> sync_db" where
  "import_rows loc sh env userID platform generation tmp opts s =
     (case repair_stored loc sh (env_now env) userID platform tmp (store s) of
        (True, n, db) \<Rightarrow> (Inl StatementFailed, s\<lparr>store := db\<rparr>)
      | (False, n, db) \<Rightarrow>
          let s1 = s\<lparr>store := db\<rparr>;
              neu = FilterNewSubmitLogs sh (submit_logs db) tmp
          in case io_page opts of
               Some p \<Rightarrow> persistClientSyncPage loc env userID platform generation neu (idsFromSubmitLogs tmp) tmp p s1
             | None \<Rightarrow>
                 (case (if neu = [] then Some db else write_new loc (env_now env) neu db) of
                    None \<Rightarrow> (Inl StatementFailed, s1)
                  | Some db' \<Rightarrow>
                      (Inr \<lparr>ir_inserted = int (length neu), ir_refreshed = int n, ir_page = None\<rparr>,
                       finishRepair userID platform opts (s1\<lparr>store := db'\<rparr>))))"

text \<open>After the guards: an empty fetch only completes the page or the repair.\<close>

definition import_body ::
  "zone \<Rightarrow> zone \<Rightarrow> import_env \<Rightarrow> int \<Rightarrow> string \<Rightarrow> int \<Rightarrow> SubmitLog list \<Rightarrow> submitImportOptions \<Rightarrow> sync_db
   \<Rightarrow> (import_error + SubmitImportResult) \<times> sync_db" where
  "import_body loc sh env userID platform generation tmp opts s =
     (if tmp = [] then
        (case io_page opts of
           Some p \<Rightarrow> persistClientSyncPage loc env userID platform generation [] [] tmp p s
         | None \<Rightarrow> (Inr \<lparr>ir_inserted = 0, ir_refreshed = 0, ir_page = None\<rparr>, finishRepair userID platform opts s))
      else import_rows loc sh env userID platform generation tmp opts s)"

definition importSubmitLogs ::
  "zone \<Rightarrow> zone \<Rightarrow> import_env \<Rightarrow> int \<Rightarrow> string \<Rightarrow> int \<Rightarrow> SubmitLog list \<Rightarrow> submitImportOptions \<Rightarrow> sync_db
   \<Rightarrow> (import_error + SubmitImportResult) \<times> sync_db" where
  "importSubmitLogs loc sh env userID platform0 generation logs opts s =
     (let platform = trim_space platform0 in
      if userID \<le> 0 \<or> platform = '''' then (Inl InvalidOwner, s)
      else
        let tmp = prepare userID platform logs
        in if \<not> env_lock env then (Inl LockBusy, s)
           else if env_generation env = Some None then (Inl SyncUnavailable, s)
           else if env_generation env \<noteq> None \<and> the (env_generation env) \<noteq> Some generation then (Inl BindingChanged, s)
           else case io_page opts of
             None \<Rightarrow> import_body loc sh env userID platform generation tmp opts s
           | Some p \<Rightarrow>
               if cp_session p = '''' \<or> cp_page p \<le> 0 \<or> cp_digest p = '''' then (Inl InvalidPage, s)
               else (case loadClientSyncPageReceipt s userID platform generation p of
                       Inl e \<Rightarrow> (Inl e, s)
                     | Inr None \<Rightarrow> import_body loc sh env userID platform generation tmp opts s
                     | Inr (Some (replayed, r)) \<Rightarrow>
                         (let (ok, s') = applyClientSyncReceiptEffects env (page_key p) s
                          in if ok then (Inr \<lparr>ir_inserted = rr_page_inserted replayed, ir_refreshed = 0,
                                            ir_page = Some replayed\<rparr>, s')
                             else (Inl SyncUnavailable, s'))))"

subsection \<open>Rows that differ in display columns only\<close>

definition core_view :: "SubmitLog \<Rightarrow> (string \<times> int \<times> string) \<times> bool \<times> string \<times> int \<times> nat option \<times> string \<times> string \<times> int" where
  "core_view r = (batch_key r, sl_isac r, sl_status r, sl_time r, sl_problem_id r, sl_external r, ACProblemKeyFromLog r, row_day r)"

lemma core_viewD:
  assumes "core_view x = core_view y"
  shows "batch_key x = batch_key y" "sl_isac x = sl_isac y" "sl_status x = sl_status y"
    "sl_time x = sl_time y" "sl_problem_id x = sl_problem_id y" "sl_external x = sl_external y"
    "ACProblemKeyFromLog x = ACProblemKeyFromLog y"
    "sl_platform x = sl_platform y" "sl_user x = sl_user y" "sl_submit_id x = sl_submit_id y"
    "is_lc_prob x = is_lc_prob y" "ac_key x = ac_key y" "delta_key x = delta_key y"
    "delta_counts x = delta_counts y" "row_ok x = row_ok y" "bound_to k x = bound_to k y"
    "row_day x = row_day y"
proof -
  have b: "batch_key x = batch_key y" "sl_isac x = sl_isac y" "sl_status x = sl_status y"
    "sl_time x = sl_time y" "sl_problem_id x = sl_problem_id y" "sl_external x = sl_external y"
    "ACProblemKeyFromLog x = ACProblemKeyFromLog y" and o: "row_day x = row_day y"
    using assms by (simp_all add: core_view_def)
  from b(1) have p: "sl_platform x = sl_platform y" "sl_user x = sl_user y" "sl_submit_id x = sl_submit_id y"
    by (simp_all add: batch_key_def)
  show "batch_key x = batch_key y" "sl_isac x = sl_isac y" "sl_status x = sl_status y"
    "sl_time x = sl_time y" "sl_problem_id x = sl_problem_id y" "sl_external x = sl_external y"
    "ACProblemKeyFromLog x = ACProblemKeyFromLog y"
    "sl_platform x = sl_platform y" "sl_user x = sl_user y" "sl_submit_id x = sl_submit_id y" by (fact b p)+
  show "is_lc_prob x = is_lc_prob y" "ac_key x = ac_key y" "delta_key x = delta_key y"
    "delta_counts x = delta_counts y" "row_ok x = row_ok y" "bound_to k x = bound_to k y"
    "row_day x = row_day y"
    by (simp_all only: is_lc_prob_def ac_key_def delta_key_def delta_counts_def row_ok_def bound_to_def b p o)
qed

lemma filter_map_view:
  assumes "\<forall>r\<in>set rows. core_view (h r) = core_view r"
    and "\<And>x y. core_view x = core_view y \<Longrightarrow> P x = P y" and "\<And>x y. core_view x = core_view y \<Longrightarrow> f x = f y"
  shows "map f (filter P (map h rows)) = map f (filter P rows)"
  using assms(1)
proof (induction rows)
  case (Cons r rows)
  then show ?case using assms(2)[of "h r" r] assms(3)[of "h r" r] by simp
qed simp

lemma core_view_preds:
  assumes "core_view x = core_view y"
  shows "(sl_isac x \<and> ac_key x = k) = (sl_isac y \<and> ac_key y = k)"
    and "(sl_isac x \<and> \<not> IsLeetCodeOfficialACKey (ACProblemKeyFromLog x))
       = (sl_isac y \<and> \<not> IsLeetCodeOfficialACKey (ACProblemKeyFromLog y))"
    and "(bound_to b x \<and> sl_isac x) = (bound_to b y \<and> sl_isac y)" and "bound_to b x = bound_to b y"
    and "(sl_user x, row_day x, ACProblemKeyFromLog x)
       = (sl_user y, row_day y, ACProblemKeyFromLog y)"
  unfolding core_viewD(2,12)[OF assms] core_viewD(7,9,17)[OF assms] core_viewD(16)[OF assms] by (rule refl)+

lemma list_ex_view:
  assumes "\<forall>r\<in>set rows. core_view (h r) = core_view r" and "\<And>x y. core_view x = core_view y \<Longrightarrow> P x = P y"
  shows "list_ex P (map h rows) = list_ex P rows"
  using assms(1)
proof (induction rows)
  case (Cons r rows)
  then show ?case using assms(2)[of "h r" r] by simp
qed simp

lemma ac_matches_view:
  assumes v: "\<forall>r\<in>set rows. core_view (h r) = core_view r" and m: "ac_matches rows T"
  shows "ac_matches (map h rows) T"
proof -
  have t: "map sl_time (filter (\<lambda>l. sl_isac l \<and> ac_key l = k) (map h rows))
      = map sl_time (filter (\<lambda>l. sl_isac l \<and> ac_key l = k) rows)" for k
    by (rule filter_map_view[OF v core_view_preds(1) core_viewD(4)])
  have "ac_first (map h rows) = ac_first rows" unfolding ac_first_def t ..
  moreover have "ac_days (map h rows) = ac_days rows"
    unfolding ac_days_def
    by (rule arg_cong[where f = set], rule filter_map_view[OF v core_view_preds(2) core_view_preds(5)])
  moreover have "state_of (map h rows) k = state_of rows k" for k
  proof -
    have "list_ex (\<lambda>l. bound_to k l \<and> sl_isac l) (map h rows) = list_ex (\<lambda>l. bound_to k l \<and> sl_isac l) rows"
      by (rule list_ex_view[OF v]) (rule core_view_preds(3))
    moreover have "list_ex (bound_to k) (map h rows) = list_ex (bound_to k) rows"
      by (rule list_ex_view[OF v]) (rule core_view_preds(4))
    ultimately show ?thesis by (simp only: state_of_def)
  qed
  ultimately show ?thesis using m unfolding ac_matches_def by simp
qed

lemma recount_view:
  assumes "\<forall>r\<in>set rows. core_view (h r) = core_view r"
  shows "recount (map h rows) = recount rows"
proof
  fix k
  have "counts (filter (\<lambda>l. delta_key l = k) (map h rows)) = counts (filter (\<lambda>l. delta_key l = k) rows)"
    using assms
  proof (induction rows)
    case (Cons r rows)
    then show ?case using counts_mid[of "\<lambda>l. delta_key l = k" "[]" "h r" "map h rows"]
        counts_mid[of "\<lambda>l. delta_key l = k" "[]" r rows]
      by (simp add: core_viewD(13,14)[of "h r" r])
  qed simp
  then show "recount (map h rows) k = recount rows k" by (simp add: recount_def)
qed

subsection \<open>LeetCode rows\<close>

text \<open>Stored recent solutions carry a slug and a real time, and there is one per user, slug and day.\<close>

definition lc_ready :: "SubmitLog \<Rightarrow> bool" where
  "lc_ready r \<longleftrightarrow> (sl_platform r = ''LeetCode'' \<longrightarrow> clean_log r) \<and> (is_lc_prob r \<longrightarrow> sl_external r \<noteq> '''')"

definition same_slug :: "zone \<Rightarrow> SubmitLog \<Rightarrow> SubmitLog \<Rightarrow> bool" where
  "same_slug sh a b \<longleftrightarrow> is_lc_prob a \<and> is_lc_prob b \<and> sl_user a = sl_user b \<and> sl_external a = sl_external b
     \<and> civil_day sh (sl_time a) = civil_day sh (sl_time b)"

definition lc_rows_ok :: "zone \<Rightarrow> SubmitLog list \<Rightarrow> bool" where
  "lc_rows_ok sh rows \<longleftrightarrow> (\<forall>r\<in>set rows. lc_ready r)
     \<and> (\<forall>a\<in>set rows. \<forall>b\<in>set rows. same_slug sh a b \<longrightarrow> batch_key a = batch_key b)"

definition store_inv :: "zone \<Rightarrow> zone \<Rightarrow> core_db \<Rightarrow> bool" where
  "store_inv loc sh db \<longleftrightarrow> core_inv loc db \<and> lc_rows_ok sh (submit_logs db)"

abbreviation "slug_view r \<equiv> (batch_key r, sl_external r, sl_time r)"

lemma slug_viewD:
  assumes "slug_view x = slug_view y"
  shows "lc_ready x = lc_ready y" "is_lc_prob x = is_lc_prob y" "sl_user x = sl_user y"
  using assms by (auto simp: lc_ready_def clean_log_def is_lc_prob_def batch_key_def)

lemma lc_rows_ok_view:
  assumes "slug_view ` set xs = slug_view ` set ys" and ok: "lc_rows_ok sh xs"
  shows "lc_rows_ok sh ys"
proof -
  have ex: "\<exists>x\<in>set xs. slug_view x = slug_view y" if "y \<in> set ys" for y
    using assms(1) that by (metis (no_types, lifting) image_eqI image_iff)
  have "lc_ready y" if "y \<in> set ys" for y
    using ex[OF that] ok slug_viewD(1) by (metis lc_rows_ok_def)
  moreover have "batch_key a = batch_key b" if "a \<in> set ys" "b \<in> set ys" "same_slug sh a b" for a b
  proof -
    note ab = that
    obtain x where x: "x \<in> set xs" "slug_view x = slug_view a" using ex[OF ab(1)] by blast
    obtain y where y: "y \<in> set xs" "slug_view y = slug_view b" using ex[OF ab(2)] by blast
    have "same_slug sh x y"
      using ab(3) slug_viewD(2,3)[OF x(2)] slug_viewD(2,3)[OF y(2)] x(2) y(2) by (simp add: same_slug_def)
    then have "batch_key x = batch_key y" using ok x(1) y(1) by (simp add: lc_rows_ok_def)
    then show ?thesis using x(2) y(2) by simp
  qed
  ultimately show ?thesis by (simp add: lc_rows_ok_def)
qed

text \<open>On such rows the pruning statement deletes nothing.\<close>

lemma prune_nothing:
  assumes "lc_rows_ok sh rows" and "distinct (map batch_key rows)"
  shows "PruneLeetCodeProbDuplicates sh u rows = rows"
proof -
  have "\<not> prune_dominates sh u a b" if "a \<in> set rows" "b \<in> set rows" for a b
  proof
    assume d: "prune_dominates sh u a b"
    then have "same_slug sh a b" by (auto simp: prune_dominates_def same_slug_def)
    then have "batch_key a = batch_key b" using assms(1) that by (auto simp: lc_rows_ok_def)
    then have "a = b" using assms(2) that by (auto simp: distinct_map inj_on_def)
    then show False using d by (simp add: prune_dominates_def)
  qed
  then show ?thesis by (auto simp: PruneLeetCodeProbDuplicates_def list_ex_iff intro!: filter_True)
qed

subsection \<open>The display repair\<close>

lemma meta_set_view:
  assumes "lc_ready r" and "is_lc_prob r"
  shows "core_view (meta_set lang problem r) = core_view r"
proof -
  have "trim_space (sl_external r) \<noteq> ''''" "sl_platform r = ''LeetCode''"
    using assms by (auto simp: lc_ready_def clean_log_def is_lc_prob_def)
  then show ?thesis
    by (simp add: core_view_def meta_set_def batch_key_def row_day_def ACProblemKeyFromLog_def ACProblemKey_def Let_def)
qed

lemma slug_of_core_view: "core_view x = core_view y \<Longrightarrow> slug_view x = slug_view y"
  using core_viewD(1,4,6)[of x y] by simp

text \<open>A list of rows is an image of another in which only display columns differ.\<close>

definition display_only :: "SubmitLog list \<Rightarrow> SubmitLog list \<Rightarrow> bool" where
  "display_only xs ys \<longleftrightarrow> (\<exists>h. ys = map h xs \<and> (\<forall>r\<in>set xs. core_view (h r) = core_view r))"

lemma display_only_refl: "display_only xs xs"
  unfolding display_only_def by (rule exI[of _ "\<lambda>x. x"]) simp

lemma display_only_trans: "display_only xs ys \<Longrightarrow> display_only ys zs \<Longrightarrow> display_only xs zs"
  unfolding display_only_def by (elim exE conjE, rule_tac x = "ha \<circ> h" in exI) simp

lemma display_only_keys: "display_only xs ys \<Longrightarrow> map batch_key ys = map batch_key xs"
proof -
  assume "display_only xs ys"
  then obtain h where h: "ys = map h xs" "\<forall>r\<in>set xs. core_view (h r) = core_view r"
    by (auto simp: display_only_def)
  have "batch_key (h r) = batch_key r" if "r \<in> set xs" for r
    using core_viewD(1)[OF h(2)[rule_format, OF that]] .
  then show ?thesis by (simp add: h(1))
qed

lemma display_only_lc:
  assumes "display_only xs ys" and "lc_rows_ok sh xs"
  shows "lc_rows_ok sh ys"
proof -
  obtain h where h: "ys = map h xs" "\<forall>r\<in>set xs. core_view (h r) = core_view r"
    using assms(1) by (auto simp: display_only_def)
  have "slug_view ` set xs = slug_view ` set ys"
    unfolding h(1) set_map image_image by (rule image_cong[OF refl]) (use h(2) slug_of_core_view in metis)
  then show ?thesis using assms(2) lc_rows_ok_view by blast
qed

lemma display_only_core:
  assumes "display_only (submit_logs db) ys" and "core_inv loc db"
  shows "core_inv loc (db\<lparr>submit_logs := ys\<rparr>)"
proof -
  obtain h where h: "ys = map h (submit_logs db)" "\<forall>r\<in>set (submit_logs db). core_view (h r) = core_view r"
    using assms(1) by (auto simp: display_only_def)
  have "map batch_key ys = map batch_key (submit_logs db)" by (rule display_only_keys[OF assms(1)])
  moreover have "row_ok (h r)" if "r \<in> set (submit_logs db)" for r
    using core_viewD(15)[OF h(2)[rule_format, OF that]] assms(2) that by (simp add: core_inv_def)
  then have "\<forall>r\<in>set ys. row_ok r" by (simp add: h(1))
  moreover have "same_day loc (h r)" if "r \<in> set (submit_logs db)" for r
    using core_viewD(4,17)[OF h(2)[rule_format, OF that]] assms(2) that by (simp add: core_inv_def same_day_def)
  then have "\<forall>r\<in>set ys. same_day loc r" by (simp add: h(1))
  moreover have "recount ys = recount (submit_logs db)" unfolding h(1) by (rule recount_view[OF h(2)])
  moreover have "ac_matches ys (ac_part db)"
    unfolding h(1) using ac_matches_view[OF h(2)] assms(2) by (simp add: core_inv_def)
  ultimately show ?thesis using assms(2) by (simp add: core_inv_def)
qed

lemma meta_update_display:
  assumes "lc_rows_ok sh (snd st)" and "\<And>r. P r \<Longrightarrow> is_lc_prob r"
  shows "display_only (snd st) (snd (meta_update lang problem P st))"
  unfolding display_only_def meta_update_def case_prod_beta' snd_conv
  by (rule exI[of _ "\<lambda>r. if P r \<and> meta_worse lang problem r then meta_set lang problem r else r"])
     (use assms meta_set_view in \<open>auto simp: lc_rows_ok_def\<close>)

lemma if_cases3: "P a \<Longrightarrow> P b \<Longrightarrow> P e \<Longrightarrow> P (if c then a else if d then b else e)"
  by simp

lemma meta_step_display:
  assumes "lc_rows_ok sh (snd st)"
  shows "display_only (snd st) (snd (meta_step l st))"
proof -
  note u = meta_update_display[OF assms]
  show ?thesis
  proof (cases "is_lc_prob l")
    case True
    let ?P1 = "\<lambda>r. sl_platform r = sl_platform l \<and> sl_user r = sl_user l \<and> sl_submit_id r = sl_submit_id l"
    let ?P2 = "\<lambda>r. sl_platform r = sl_platform l \<and> sl_user r = sl_user l \<and> has_prefix (sl_submit_id r) ''lc-prob-''
        \<and> sl_external r = trim_space (sl_external l) \<and> sl_submit_id r \<noteq> sl_submit_id l"
    have P: "\<And>r. ?P1 r \<Longrightarrow> is_lc_prob r" "\<And>r. ?P2 r \<Longrightarrow> is_lc_prob r"
      using True by (auto simp: is_lc_prob_def)
    let ?s1 = "meta_update (meta_lang l) (trim_space (sl_problem l)) ?P1 st"
    let ?s2 = "meta_update (meta_lang l) (trim_space (sl_problem l)) ?P2 ?s1"
    have d1: "display_only (snd st) (snd ?s1)" by (rule u[OF P(1)])
    have "lc_rows_ok sh (snd ?s1)" by (rule display_only_lc[OF d1 assms])
    from meta_update_display[OF this P(2)] have d2: "display_only (snd ?s1) (snd ?s2)" .
    show ?thesis
      unfolding meta_step_def Let_def
    proof (rule if_cases3[where P = "\<lambda>x. display_only (snd st) (snd x)"])
      show "display_only (snd st) (snd st)" by (rule display_only_refl)
    qed (rule d1, rule display_only_trans[OF d1 d2])
  next
    case False
    then show ?thesis by (simp add: meta_step_def Let_def display_only_refl)
  qed
qed

lemma RefreshMeta_display:
  assumes "lc_rows_ok sh rows"
  shows "display_only rows (snd (RefreshLeetCodeProbMeta tmp rows))"
proof -
  have "display_only (snd st) (snd (fold meta_step tmp st))" if "lc_rows_ok sh (snd st)" for st
    using that
  proof (induction tmp arbitrary: st)
    case (Cons l tmp)
    have d: "display_only (snd st) (snd (meta_step l st))" by (rule meta_step_display[OF Cons.prems])
    show ?case using display_only_trans[OF d Cons.IH[OF display_only_lc[OF d Cons.prems]]] by simp
  qed (simp add: display_only_refl)
  from this[of "(0, rows)"] show ?thesis using assms by (simp add: RefreshLeetCodeProbMeta_def)
qed

text \<open>On a consistent store the repairs of stored rows that precede the insert succeed and keep the store
  consistent: pruning removes nothing, the verdict refresh keeps the statistics right, and the
  display repair does not change what the statistics are computed from.\<close>

lemma repair_inv:
  assumes "store_inv loc sh db"
  shows "\<exists>n db'. repair_stored loc sh now u p tmp db = (False, n, db') \<and> store_inv loc sh db'
     \<and> map batch_key (submit_logs db') = map batch_key (submit_logs db)"
proof -
  have c: "core_inv loc db" and l: "lc_rows_ok sh (submit_logs db)" using assms by (auto simp: store_inv_def)
  have "PruneLeetCodeProbDuplicates sh u (submit_logs db) = submit_logs db"
    using prune_nothing[OF l] c by (simp add: core_inv_def)
  then have db1: "(if p = ''LeetCode'' then db\<lparr>submit_logs := PruneLeetCodeProbDuplicates sh u (submit_logs db)\<rparr> else db) = db"
    by simp
  obtain n db2 where r: "RefreshPendingSubmitVerdicts now tmp db = (False, n, db2)" "core_inv loc db2"
    "verdict_only (submit_logs db) (submit_logs db2)"
    using refresh_inv[OF c] by blast
  have k2: "map batch_key (submit_logs db2) = map batch_key (submit_logs db)"
    by (rule verdict_only_fields[OF r(3)]) (simp add: batch_key_def)
  have "map slug_view (submit_logs db2) = map slug_view (submit_logs db)"
    by (rule verdict_only_fields[OF r(3)]) (simp add: batch_key_def)
  from arg_cong[OF this, of set] have "slug_view ` set (submit_logs db) = slug_view ` set (submit_logs db2)"
    unfolding set_map by (rule sym)
  then have l2: "lc_rows_ok sh (submit_logs db2)" by (rule lc_rows_ok_view[OF _ l])
  obtain k rows where m: "RefreshLeetCodeProbMeta tmp (submit_logs db2) = (k, rows)" by fastforce
  have d: "display_only (submit_logs db2) rows" using RefreshMeta_display[OF l2, of tmp] m by simp
  have "map batch_key rows = map batch_key (submit_logs db2)" by (rule display_only_keys[OF d])
  moreover have "store_inv loc sh (db2\<lparr>submit_logs := rows\<rparr>)"
    using display_only_core[OF d r(2)] display_only_lc[OF d l2] by (simp add: store_inv_def)
  ultimately show ?thesis
    unfolding repair_stored_def db1 Let_def using r(1,2) l2 k2 m by (simp add: store_inv_def)
qed

subsection \<open>What the filter lets through\<close>

lemma str_fields_no_space: "w \<in> set (str_fields s) \<Longrightarrow> c \<in> set w \<Longrightarrow> \<not> is_space c"
proof (induction s arbitrary: w c rule: str_fields.induct)
  case (1 s)
  let ?r = "dropWhile is_space s"
  show ?case
  proof (cases "?r = []")
    case True
    then show ?thesis using "1.prems" by (subst (asm) str_fields.simps) simp
  next
    case False
    then have "w = takeWhile (\<lambda>c. \<not> is_space c) ?r \<or> w \<in> set (str_fields (dropWhile (\<lambda>c. \<not> is_space c) ?r))"
      using "1.prems"(1) unfolding str_fields.simps[of s] Let_def by (simp only: if_False list.set insert_iff)
    then show ?thesis
    proof
      assume "w = takeWhile (\<lambda>c. \<not> is_space c) ?r"
      then show ?thesis using "1.prems"(2) set_takeWhileD[of c "\<lambda>c. \<not> is_space c" ?r] by blast
    next
      assume "w \<in> set (str_fields (dropWhile (\<lambda>c. \<not> is_space c) ?r))"
      then show ?thesis using "1.IH"[OF refl False _ "1.prems"(2)] by blast
    qed
  qed
qed

lemma trim_no_space: "\<forall>c\<in>set w. \<not> is_space c \<Longrightarrow> trim_space w = w"
  using hd_in_set[of w] last_in_set[of w] by (intro trim_space_id) blast

lemma cand_ext_trimmed: "trim_space (cand_ext l) = cand_ext l"
proof (cases "trim_space (sl_external l) = ''''")
  case True
  show ?thesis
  proof (cases "str_fields (sl_problem l)")
    case Nil
    then show ?thesis using True by (simp add: cand_ext_def)
  next
    case (Cons w ws)
    then have "\<forall>c\<in>set w. \<not> is_space c" using str_fields_no_space[of w "sl_problem l"] by simp
    then show ?thesis using True Cons by (simp add: cand_ext_def trim_no_space)
  qed
qed (simp add: cand_ext_def)

definition lc_fetch_ok :: "SubmitLog \<Rightarrow> bool" where
  "lc_fetch_ok l \<longleftrightarrow> sl_platform l = ''LeetCode'' \<longrightarrow>
     clean_log l \<and> (is_lc_prob l \<longrightarrow> cand_ext l \<noteq> '''')
     \<and> (has_prefix (sl_submit_id l) ''lc-ac-'' \<longrightarrow> IsAcceptedStatus (sl_status l))"

lemma fill_ext_ready: "lc_fetch_ok l \<Longrightarrow> lc_ready (fill_ext l)"
  using cand_ext_trimmed[of l]
  by (auto simp: lc_fetch_ok_def lc_ready_def fill_ext_def is_cand_def clean_log_def is_lc_prob_def cand_ext_def Let_def)

lemma slug_loop_kept:
  assumes "\<forall>(l, ext)\<in>set ls. is_lc_prob l \<longrightarrow> ext = sl_external l \<and> ext \<noteq> '''' \<and> stats_day sh (sl_time l) \<noteq> None"
  shows "(\<forall>l\<in>set (slug_loop sh have seen ls). is_lc_prob l \<longrightarrow>
       slug_key sh l (sl_external l) \<notin> have \<union> seen)
     \<and> distinct (map (\<lambda>l. slug_key sh l (sl_external l)) (filter is_lc_prob (slug_loop sh have seen ls)))"
  using assms
proof (induction ls arbitrary: seen)
  case (Cons x ls)
  obtain l ext where x: "x = (l, ext)" by fastforce
  let ?k = "slug_key sh l ext"
  have prems: "\<forall>(l, ext)\<in>set ls. is_lc_prob l \<longrightarrow> ext = sl_external l \<and> ext \<noteq> '''' \<and> stats_day sh (sl_time l) \<noteq> None"
    using Cons.prems by simp
  note IH = Cons.IH[OF prems]
  show ?case
  proof (cases "is_lc_prob l")
    case False
    then show ?thesis using IH[of seen] by (simp add: x slug_loop_eqs(1))
  next
    case True
    then have e: "ext = sl_external l" "ext \<noteq> ''''" "stats_day sh (sl_time l) \<noteq> None" using Cons.prems by (auto simp: x)
    show ?thesis
    proof (cases "?k \<in> have \<or> ?k \<in> seen")
      case known: True
      then have "slug_loop sh have seen (x # ls) = slug_loop sh have seen ls"
        unfolding x using slug_loop_eqs(2)[OF True e(2)] e(3) by blast
      then show ?thesis using IH[of seen] by simp
    next
      case new: False
      then have s: "slug_loop sh have seen (x # ls) = l # slug_loop sh have (insert ?k seen) ls"
        unfolding x using slug_loop_eqs(3)[OF True e(2)] by blast
      show ?thesis
        unfolding s using IH[of "insert ?k seen"] new True unfolding e(1) by fastforce
    qed
  qed
qed simp

lemma distinct_map_filter_inj:
  "distinct (map f (filter P xs)) \<Longrightarrow> a \<in> set xs \<Longrightarrow> b \<in> set xs \<Longrightarrow> P a \<Longrightarrow> P b \<Longrightarrow> f a = f b \<Longrightarrow> a = b"
  by (auto simp: distinct_map inj_on_def)

lemma stats_day_eq: "\<not> is_zero_time s \<Longrightarrow> \<not> is_zero_time t \<Longrightarrow> stats_day sh s = stats_day sh t \<longleftrightarrow> civil_day sh s = civil_day sh t"
  by (simp add: stats_day_def)

lemma lc_clean: "lc_ready r \<Longrightarrow> is_lc_prob r \<Longrightarrow> \<not> is_zero_time (sl_time r) \<and> sl_external r \<noteq> ''''"
  by (auto simp: lc_ready_def clean_log_def is_lc_prob_def)

text \<open>The rows that pass keep the slug rule together with the stored rows.\<close>

lemma slug_filter_ok:
  assumes rows: "lc_rows_ok sh rows" and logs: "\<forall>l\<in>set logs. lc_fetch_ok l"
  shows "lc_rows_ok sh (rows @ filterLeetCodeProbAlreadyHaveSlug sh rows logs)"
proof (cases "filter is_cand logs = []")
  case True
  have np: "\<not> is_lc_prob l" if "l \<in> set logs" for l
  proof
    assume p: "is_lc_prob l"
    then have "cand_ext l \<noteq> ''''" using logs that by (auto simp: lc_fetch_ok_def is_lc_prob_def)
    then have "l \<in> set (filter is_cand logs)" using p that by (simp add: is_cand_def)
    then show False using True by simp
  qed
  have "lc_ready l" if "l \<in> set logs" for l
    using np[OF that] logs that by (auto simp: lc_ready_def lc_fetch_ok_def)
  moreover have "filterLeetCodeProbAlreadyHaveSlug sh rows logs = logs"
    unfolding filterLeetCodeProbAlreadyHaveSlug_def Let_def True by simp
  moreover have "\<not> same_slug sh a b" if "a \<in> set logs \<or> b \<in> set logs" for a b
    using np that unfolding same_slug_def by blast
  ultimately show ?thesis using rows unfolding lc_rows_ok_def set_append by (metis UnE)
next
  case False
  let ?cands = "filter is_cand logs"
  let ?have = "have_slugs sh rows (sl_user ` set ?cands) (cand_ext ` set ?cands)"
  let ?in = "map (\<lambda>l. (fill_ext l, cand_ext l)) logs"
  let ?res = "slug_loop sh ?have {} ?in"
  have res: "filterLeetCodeProbAlreadyHaveSlug sh rows logs = ?res"
    using False by (simp add: filterLeetCodeProbAlreadyHaveSlug_def Let_def)
  have cand: "is_cand l \<and> sl_external (fill_ext l) = cand_ext l \<and> stats_day sh (sl_time l) \<noteq> None"
    if "l \<in> set logs" "is_lc_prob l" for l
  proof -
    have c: "is_cand l" "clean_log l" using logs that by (auto simp: lc_fetch_ok_def is_lc_prob_def is_cand_def)
    then show ?thesis using cand_ext_filled stats_day_clean by blast
  qed
  have "\<forall>(l, ext)\<in>set ?in. is_lc_prob l \<longrightarrow> ext = sl_external l \<and> ext \<noteq> '''' \<and> stats_day sh (sl_time l) \<noteq> None"
    using cand by (auto simp: is_cand_def)
  note kept = slug_loop_kept[OF this, of ?have "{}"]
  have src: "\<exists>l0\<in>set logs. l = fill_ext l0" if "l \<in> set ?res" for l
  proof -
    have "fst ` set ?in = fill_ext ` set logs" by (simp add: image_image)
    then have "l \<in> fill_ext ` set logs" using slug_loop_set[of sh ?have "{}" ?in] that by blast
    then show ?thesis by blast
  qed
  have ready: "lc_ready l" if "l \<in> set ?res" for l using src[OF that] logs fill_ext_ready by blast
  have new_new: "a = b" if "a \<in> set ?res" "b \<in> set ?res" "same_slug sh a b" for a b
  proof -
    have p: "is_lc_prob a" "is_lc_prob b" using that(3) by (auto simp: same_slug_def)
    have "slug_key sh a (sl_external a) = slug_key sh b (sl_external b)"
      using that(3) stats_day_eq lc_clean[OF ready[OF that(1)] p(1)] lc_clean[OF ready[OF that(2)] p(2)]
      by (simp add: same_slug_def)
    then show ?thesis using distinct_map_filter_inj[OF conjunct2[OF kept] that(1,2) p] by blast
  qed
  have old_new: False if "a \<in> set rows" "b \<in> set ?res" "same_slug sh a b" for a b
  proof -
    have p: "is_lc_prob a" "is_lc_prob b" using that(3) by (auto simp: same_slug_def)
    have ra: "lc_ready a" using rows that(1) by (simp add: lc_rows_ok_def)
    note ab = that
    obtain l0 where l0: "l0 \<in> set logs" "b = fill_ext l0" using src[OF ab(2)] by blast
    then have c: "is_cand l0" "sl_external b = cand_ext l0" using cand[of l0] p(2) by auto
    have k: "slug_key sh a (sl_external a) = slug_key sh b (sl_external b)"
      using that(3) stats_day_eq lc_clean[OF ra p(1)] lc_clean[OF ready[OF that(2)] p(2)]
      by (simp add: same_slug_def)
    have "slug_key sh a (sl_external a) \<in> ?have"
    proof (rule have_slugsI[OF that(1) p(1)])
      show "sl_user a \<in> sl_user ` set ?cands" "sl_external a \<in> cand_ext ` set ?cands"
        using that(3) l0 c by (auto simp: same_slug_def)
    qed (use lc_clean[OF ra p(1)] in auto)
    then show False using k conjunct1[OF kept] that(2) p(2) by auto
  qed
  have sym: "same_slug sh a b \<Longrightarrow> same_slug sh b a" for a b by (auto simp: same_slug_def)
  show ?thesis
    unfolding res lc_rows_ok_def set_append
  proof (intro conjI ballI impI)
    fix r assume "r \<in> set rows \<union> set ?res"
    then show "lc_ready r" using ready rows by (auto simp: lc_rows_ok_def)
  next
    fix a b assume "a \<in> set rows \<union> set ?res" "b \<in> set rows \<union> set ?res" "same_slug sh a b"
    then show "batch_key a = batch_key b"
      using new_new old_new sym rows unfolding lc_rows_ok_def by blast
  qed
qed

subsection \<open>The insert\<close>

lemma assign_ids_map:
  "(\<And>l n. f (l\<lparr>sl_id := n\<rparr>) = f l) \<Longrightarrow> map f (assign_ids n ls) = map f ls"
  by (induction n ls rule: assign_ids.induct) auto

lemma assign_ids_set: "x \<in> set (assign_ids n ls) \<Longrightarrow> \<exists>l\<in>set ls. \<exists>k. x = l\<lparr>sl_id := k\<rparr>"
  by (induction n ls rule: assign_ids.induct) auto

lemma session_view: "same_day loc l \<Longrightarrow> core_view (in_session loc l) = core_view l"
  by (simp add: core_view_def) (simp add: in_session_def batch_key_def ACProblemKeyFromLog_def)

lemma row_ok_session [simp]: "row_ok (in_session loc l) = row_ok l"
  by (simp add: row_ok_def in_session_def)

lemma write_new_inv:
  assumes inv: "core_inv loc db" and ok: "\<forall>l\<in>set neu. row_ok l \<and> same_day loc l" and dist: "distinct (map batch_key neu)"
    and fresh: "\<forall>l\<in>set neu. batch_key l \<notin> batch_key ` set (submit_logs db)"
  shows "\<exists>db'. write_new loc now neu db = Some db' \<and> core_inv loc db'
     \<and> submit_logs db' = submit_logs db @ map (in_session loc) (assign_ids (next_id (submit_logs db)) neu)"
proof -
  let ?new = "assign_ids (next_id (submit_logs db)) neu"
  have keys: "map batch_key ?new = map batch_key neu" by (rule assign_ids_map) (simp add: batch_key_def)
  have "batch_key l \<notin> batch_key ` set (submit_logs db)" if "l \<in> set ?new" for l
  proof -
    have "batch_key l \<in> set (map batch_key neu)" using that keys by (metis image_eqI set_map)
    then obtain x where "x \<in> set neu" "batch_key l = batch_key x" by auto
    then show ?thesis using fresh by metis
  qed
  then have ins: "insert_rows loc neu (submit_logs db) = Some (?new, submit_logs db @ map (in_session loc) ?new)"
    using dist keys by (simp add: insert_rows_def list_all_iff Let_def)
  have ok': "row_ok l \<and> same_day loc l" if "l \<in> set ?new" for l
    using assign_ids_set[OF that] ok by (auto simp: row_ok_def same_day_def)
  then have ok2: "\<forall>r\<in>set (submit_logs db @ map (in_session loc) ?new). row_ok r \<and> same_day loc r"
    using inv by (auto simp: core_inv_def)
  have d: "distinct (map batch_key (submit_logs db @ ?new))"
    using inv dist fresh unfolding map_append keys by (auto simp: core_inv_def)
  have m: "ac_matches (submit_logs db) (ac_part db)" using inv by (simp add: core_inv_def)
  obtain T where T: "ApplyUserACFromSubmits now ?new (ac_part db) = Some T" "ac_matches (submit_logs db @ ?new) T"
    by (rule ApplyUserAC_full[OF m, of now ?new]) (rule that, assumption+)
  have day: "ApplyDailyDeltas (AggregateSubmitDeltas ?new) (daily_user_stats db)
      = Some (recount (submit_logs db @ ?new))"
    using inv ApplyDaily_recount by (simp add: core_inv_def)
  have dj: "set (submit_logs db) \<inter> set ?new = {}" using d by auto
  define h where "h l = (if l \<in> set ?new then in_session loc l else l)" for l
  have h: "map h (submit_logs db @ ?new) = submit_logs db @ map (in_session loc) ?new"
    unfolding h_def map_append using dj by (intro arg_cong2[where f = append] map_idI map_cong) auto
  have v: "\<forall>r\<in>set (submit_logs db @ ?new). core_view (h r) = core_view r"
    unfolding h_def using ok' session_view by auto
  have "map batch_key (submit_logs db @ map (in_session loc) ?new) = map batch_key (submit_logs db @ ?new)"
    by (simp add: in_session_def batch_key_def)
  then show ?thesis
    unfolding write_new_def ins using d ok2 recount_view[OF v] ac_matches_view[OF v T(2)] unfolding h
    by (simp add: day T(1) core_inv_def del: map_append distinct_append)
qed

lemma lc_rows_ok_ids:
  "lc_rows_ok sh (rows @ neu) \<Longrightarrow> lc_rows_ok sh (rows @ map (in_session loc) (assign_ids n neu))"
proof (rule lc_rows_ok_view[of "rows @ neu"])
  have "map slug_view (assign_ids n neu) = map slug_view neu"
    by (rule assign_ids_map) (simp add: batch_key_def)
  moreover have "map slug_view (map (in_session loc) xs) = map slug_view xs" for xs
    by (simp add: in_session_def batch_key_def)
  ultimately have "map slug_view (map (in_session loc) (assign_ids n neu)) = map slug_view neu" by (simp only:)
  from arg_cong[OF this, of set] show "slug_view ` set (rows @ neu) = slug_view ` set (rows @ map (in_session loc) (assign_ids n neu))"
    unfolding set_append image_Un set_map by simp
qed

text \<open>Fetched rows as the spiders deliver them, after preparation and normalisation.\<close>

definition fetch_ok :: "zone \<Rightarrow> SubmitLog list \<Rightarrow> bool" where
  "fetch_ok loc tmp \<longleftrightarrow> (\<forall>l\<in>set (NormalizeSubmitIDs tmp). lc_fetch_ok l \<and> same_day loc l)"

lemma prepare_fields:
  assumes "l \<in> set (NormalizeSubmitIDs (prepare u p logs))"
  shows "sl_platform l = p" "sl_user l = u" "sl_isac l = IsAcceptedStatus (sl_status l)"
  using assms by (auto simp: prepare_def NormalizeSubmitIDs_def FillIsACBatch_def FillIsAC_def)

lemma FilterNew_source:
  assumes "l \<in> set (FilterNewSubmitLogs sh rows tmp)"
  shows "\<exists>l0\<in>set (NormalizeSubmitIDs tmp). l = l0 \<or> l = fill_ext l0"
proof -
  have "unseen rows tmp \<noteq> []" using assms by (auto simp: FilterNew_eq)
  then have "l \<in> set (unseen rows tmp) \<union> fill_ext ` set (unseen rows tmp)"
    using assms slug_filter_set[of sh rows "unseen rows tmp"] by (auto simp: FilterNew_eq)
  moreover have "set (unseen rows tmp) \<subseteq> set (NormalizeSubmitIDs tmp)"
    using unseen_subset dedupe_set by blast
  ultimately show ?thesis by blast
qed

lemma fill_ext_day [simp]: "same_day loc (fill_ext l) = same_day loc l"
  by (simp add: fill_ext_def same_day_def row_day_def)

lemma FilterNew_inv:
  assumes inv: "store_inv loc sh db" and f: "fetch_ok loc (prepare u p logs)" and p: "trim_space p = p" "p \<noteq> ''''"
  shows "\<exists>db'. write_new loc now (FilterNewSubmitLogs sh (submit_logs db) (prepare u p logs)) db = Some db'
     \<and> store_inv loc sh db'"
proof -
  let ?tmp = "prepare u p logs" and ?rows = "submit_logs db"
  let ?neu = "FilterNewSubmitLogs sh ?rows ?tmp"
  have ok: "row_ok l \<and> same_day loc l" if "l \<in> set ?neu" for l
  proof -
    note l = that
    obtain l0 where l0: "l0 \<in> set (NormalizeSubmitIDs ?tmp)" "l = l0 \<or> l = fill_ext l0"
      using FilterNew_source[OF l] by blast
    have "row_ok l0 \<and> same_day loc l0"
      using prepare_fields[OF l0(1)] p f l0(1) by (auto simp: row_ok_def fetch_ok_def lc_fetch_ok_def)
    then show ?thesis using l0(2) by (auto simp: row_ok_def)
  qed
  have "\<forall>l\<in>set (unseen ?rows ?tmp). lc_fetch_ok l"
    using f unseen_subset dedupe_set by (fastforce simp: fetch_ok_def)
  then have "lc_rows_ok sh (?rows @ ?neu)"
    using slug_filter_ok[of sh ?rows "unseen ?rows ?tmp"] inv by (auto simp: FilterNew_eq store_inv_def)
  then have "lc_rows_ok sh (?rows @ map (in_session loc) (assign_ids (next_id ?rows) ?neu))" by (rule lc_rows_ok_ids)
  moreover have "core_inv loc db" using inv by (simp add: store_inv_def)
  note write_new_inv[OF this, of ?neu now]
  ultimately show ?thesis using FilterNew_insertable[of sh ?rows ?tmp] ok by (fastforce simp: store_inv_def)
qed

subsection \<open>Every import keeps the store consistent\<close>

lemma effects_store: "store (snd (applyClientSyncReceiptEffects env k s)) = store s"
  by (auto simp: applyClientSyncReceiptEffects_def split: option.splits)

lemma effects_storeD: "applyClientSyncReceiptEffects env k s = (ok, s') \<Longrightarrow> store s' = store s"
  using effects_store[of env k s] by simp

lemma reserve_store: "reserveClientSyncReceipt u p pg d s = Inr s' \<Longrightarrow> store s' = store s"
  by (auto simp: reserveClientSyncReceipt_def Let_def split: if_splits)

lemma persist_tx_inv:
  assumes "persist_tx loc env u p g neu ids tmp pg s = Inr (r, s')" and "store_inv loc sh (store s)"
    and "neu \<noteq> [] \<Longrightarrow> \<exists>db'. write_new loc (env_now env) neu (store s) = Some db' \<and> store_inv loc sh db'"
  shows "store_inv loc sh (store s')"
proof (cases "loadClientSyncPageReceipt s u p g pg")
  case (Inl e)
  then show ?thesis using assms(1) by (simp add: persist_tx_def)
next
  case (Inr o')
  show ?thesis
  proof (cases o')
    case (Some x)
    then show ?thesis using assms(1,2) Inr by (auto simp: persist_tx_def split: prod.splits)
  next
    case None
    then have "(if neu = [] then Some (store s) else write_new loc (env_now env) neu (store s)) = Some (store s')"
      using assms(1) Inr
      by (auto simp: persist_tx_def Let_def dest!: reserve_store split: if_splits option.splits sum.splits)
    then show ?thesis using assms(2,3) by (auto split: if_splits)
  qed
qed

lemma persist_inv:
  assumes "store_inv loc sh (store s)"
    and "neu \<noteq> [] \<Longrightarrow> \<exists>db'. write_new loc (env_now env) neu (store s) = Some db' \<and> store_inv loc sh db'"
  shows "store_inv loc sh (store (snd (persistClientSyncPage loc env u p g neu src tmp pg s)))"
proof -
  let ?ids = "if src = [] then idsFromSubmitLogs tmp else src"
  show ?thesis
  proof (cases "persist_tx loc env u p g neu ?ids tmp pg s")
    case (Inl e)
    then show ?thesis using assms(1) effects_store[of env "page_key pg" s]
      by (auto simp: persistClientSyncPage_def Let_def split: sum.splits option.splits prod.splits)
  next
    case (Inr x)
    obtain r s1 where x: "x = (r, s1)" by fastforce
    have "store_inv loc sh (store s1)" by (rule persist_tx_inv[OF Inr[unfolded x] assms])
    then show ?thesis using Inr effects_store[of env "page_key pg" s1]
      by (auto simp: persistClientSyncPage_def Let_def x split: prod.splits)
  qed
qed

lemma import_rows_inv:
  assumes "store_inv loc sh (store s)" and "fetch_ok loc (prepare u p logs)" and "trim_space p = p" "p \<noteq> ''''"
  shows "store_inv loc sh (store (snd (import_rows loc sh env u p g (prepare u p logs) opts s)))"
proof -
  let ?tmp = "prepare u p logs"
  obtain n db where r: "repair_stored loc sh (env_now env) u p ?tmp (store s) = (False, n, db)" "store_inv loc sh db"
    using repair_inv[OF assms(1)] by blast
  let ?neu = "FilterNewSubmitLogs sh (submit_logs db) ?tmp"
  obtain db' where w: "write_new loc (env_now env) ?neu db = Some db'" "store_inv loc sh db'"
    using FilterNew_inv[OF r(2) assms(2-4), of "env_now env"] by blast
  show ?thesis
  proof (cases "io_page opts")
    case None
    have f: "store (finishRepair u p opts t) = store t" for t by (simp add: finishRepair_def)
    show ?thesis unfolding import_rows_def r(1) using None w r(2) f by (auto simp: Let_def)
  next
    case (Some pg)
    have "store_inv loc sh (store (snd (persistClientSyncPage loc env u p g ?neu (idsFromSubmitLogs ?tmp) ?tmp pg
        (s\<lparr>store := db\<rparr>))))"
      by (rule persist_inv) (use r(2) w in simp_all)
    then show ?thesis unfolding import_rows_def r(1) using Some by (simp add: Let_def)
  qed
qed

lemma import_inv:
  assumes inv: "store_inv loc sh (store s)" and f: "fetch_ok loc (prepare u (trim_space p0) logs)"
  shows "store_inv loc sh (store (snd (importSubmitLogs loc sh env u p0 g logs opts s)))"
proof -
  let ?p = "trim_space p0" and ?tmp = "prepare u (trim_space p0) logs"
  have go: "store_inv loc sh (store (snd (import_body loc sh env u ?p g ?tmp opts s)))" if "?p \<noteq> ''''"
  proof (cases "?tmp = []")
    case True
    show ?thesis
    proof (cases "io_page opts")
      case None
      then show ?thesis using True inv by (simp add: import_body_def finishRepair_def)
    next
      case (Some pg)
      then show ?thesis using True persist_inv[OF inv, of "[]"] by (simp add: import_body_def)
    qed
  next
    case False
    then show ?thesis unfolding import_body_def using import_rows_inv[OF inv f _ that] by simp
  qed
  show ?thesis
    unfolding importSubmitLogs_def Let_def
    using inv go by (auto dest!: effects_storeD split: sum.splits option.splits prod.splits)
qed

text \<open>C1: Every import whose fetched rows carry the session's day keeps the store consistent, on every path: success,
  errors before and after the write, replays, and both the crawler and the page-wise browser import. Consistent
  means: unique rows, the accepted flag is that of the status, the daily statistics are a recount of the rows, the
  tables of accepted problems and problem states describe the rows, and recent LeetCode solutions are stored once
  per user, problem and Shanghai day. A fetched row carries the session's day when the day of its time is the same
  in its own location (the increment uses that one) and in the zone of the database session (the row is read back
  in that one): true of every crawler that yields local times, and of the LOJ crawler, which yields UTC, except in
  the hours where the two calendars differ (theorem \<^theory_text>\<open>loj_day_differs\<close> of DailyStats). For LeetCode the fetched
  rows must carry a trimmed problem number (or a problem text) and a real time, and official accepted rows an
  accepted status.\<close>

theorem import_keeps_store_consistent:
  assumes "store_inv loc sh (store s)" and "fetch_ok loc (prepare u (trim_space p) logs)"
  shows "store_inv loc sh (store (snd (importSubmitLogs loc sh env u p g logs opts s)))"
  by (rule import_inv[OF assms])

definition empty_sync :: sync_db where
  "empty_sync = \<lparr>store = empty_db, receipts = [], jobs = Map.empty, checkpoints = Map.empty, repaired = {}\<rparr>"

lemma store_inv_empty: "store_inv loc sh (store empty_sync)"
  using core_inv_empty by (simp add: store_inv_def empty_sync_def lc_rows_ok_def empty_db_def)

definition demo_env :: import_env where
  "demo_env = \<lparr>env_lock = True, env_generation = Some (Some 4), env_effects_ok = True, env_now = 1700000100 * second_ns\<rparr>"

theorem import_keeps_store_consistent_witness:
  "store_inv (\<lambda>t. 8 * hour_ns) (\<lambda>t. 8 * hour_ns) (store (snd (importSubmitLogs (\<lambda>t. 8 * hour_ns) (\<lambda>t. 8 * hour_ns) demo_env 7 ''LuoGu'' 4
     [demo_row] \<lparr>io_repair_required = False, io_complete = True, io_page = None\<rparr> empty_sync)))"
proof (rule import_keeps_store_consistent[OF store_inv_empty])
  have "trim_space ''LuoGu'' = ''LuoGu''" by (simp add: trim_space_def trim_left_def is_space_def)
  then show "fetch_ok (\<lambda>t. 8 * hour_ns) (prepare 7 (trim_space ''LuoGu'') [demo_row])"
    by (auto simp: fetch_ok_def lc_fetch_ok_def prepare_def NormalizeSubmitIDs_def FillIsACBatch_def FillIsAC_def same_day_def row_day_def civil_day_def demo_row_def)
qed

text \<open>An import that was started for an earlier binding of the account writes nothing: when the lock is not
  obtained, the generation cannot be read or has moved on, the state is unchanged and the call
  returns an error.\<close>

theorem stale_import_writes_nothing:
  assumes "\<not> env_lock env \<or> (env_generation env = Some cur \<and> cur \<noteq> Some g)"
  shows "\<exists>e. importSubmitLogs loc sh env u p g logs opts s = (Inl e, s)"
  using assms by (auto simp: importSubmitLogs_def Let_def)

theorem stale_import_writes_nothing_witness:
  "\<exists>e. importSubmitLogs (\<lambda>t. 0) (\<lambda>t. 0) demo_env 7 ''LuoGu'' 3 [demo_row]
     \<lparr>io_repair_required = False, io_complete = True, io_page = None\<rparr> empty_sync = (Inl e, empty_sync)"
  by (rule stale_import_writes_nothing[where cur = "Some 4"]) (simp add: demo_env_def)

subsection \<open>Retrying a page\<close>

definition receipt_answers ::
  "sync_db \<Rightarrow> int \<Rightarrow> string \<Rightarrow> int \<Rightarrow> ClientSyncPageImport \<Rightarrow> SubmitImportResult \<Rightarrow> bool" where
  "receipt_answers s u p g pg res \<longleftrightarrow> (\<exists>x r. loadClientSyncPageReceipt s u p g pg = Inr (Some (x, r))
     \<and> ir_page res \<noteq> None \<and> (the (ir_page res))\<lparr>rr_replayed := True\<rparr> = x
     \<and> ir_inserted res = rr_page_inserted x)"

lemma effects_map_of:
  assumes "applyClientSyncReceiptEffects env k s = (ok, s')" and "map_of (receipts s) k' = Some r"
  shows "\<exists>b. map_of (receipts s') k' = Some (r\<lparr>cr_effects_applied := b\<rparr>)"
proof -
  have m: "map_of (map (\<lambda>(k', r'). if k' = k then (k', r'\<lparr>cr_effects_applied := True\<rparr>) else (k', r')) xs) k'
      = map_option (\<lambda>r. if k' = k then r\<lparr>cr_effects_applied := True\<rparr> else r) (map_of xs k')" for xs
    by (induction xs) auto
  have "\<exists>b. r = r\<lparr>cr_effects_applied := b\<rparr>" by (rule exI[of _ "cr_effects_applied r"]) simp
  then show ?thesis
    using assms by (auto simp: applyClientSyncReceiptEffects_def m split: option.splits if_splits)
qed

lemma effects_load:
  assumes "applyClientSyncReceiptEffects env k s = (ok, s')"
    and "loadClientSyncPageReceipt s u p g pg = Inr (Some (x, r))"
  shows "\<exists>r'. loadClientSyncPageReceipt s' u p g pg = Inr (Some (x, r'))"
proof -
  have r: "map_of (receipts s) (page_key pg) = Some r" "cr_user r = u" "cr_platform r = p" "cr_generation r = g"
    "x = (clientSyncPageResult r True)\<lparr>rr_digest_matched := cr_digest r = cp_digest pg\<rparr>"
    using assms(2) by (auto simp: loadClientSyncPageReceipt_def split: option.splits if_splits)
  obtain b where "map_of (receipts s') (page_key pg) = Some (r\<lparr>cr_effects_applied := b\<rparr>)"
    using effects_map_of[OF assms(1) r(1)] by blast
  then show ?thesis using r(2-5) by (simp add: loadClientSyncPageReceipt_def clientSyncPageResult_def)
qed

lemma replayed_again: "loadClientSyncPageReceipt s u p g pg = Inr (Some (x, r)) \<Longrightarrow> x\<lparr>rr_replayed := True\<rparr> = x"
  by (auto simp: loadClientSyncPageReceipt_def clientSyncPageResult_def split: option.splits if_splits)

lemma replay_answers:
  assumes "loadClientSyncPageReceipt s u p g pg = Inr (Some (x, r))"
    and "applyClientSyncReceiptEffects env (page_key pg) s = (ok, s')"
  shows "receipt_answers s' u p g pg \<lparr>ir_inserted = rr_page_inserted x, ir_refreshed = 0, ir_page = Some x\<rparr>"
  using effects_load[OF assms(2,1)] replayed_again[OF assms(1)] by (auto simp: receipt_answers_def)

lemma persist_tx_receipt:
  assumes "persist_tx loc env u p g neu ids tmp pg s = Inr (pr, s1)"
  shows "\<exists>x r. loadClientSyncPageReceipt s1 u p g pg = Inr (Some (x, r)) \<and> pr\<lparr>rr_replayed := True\<rparr> = x
     \<and> rr_page_inserted pr = rr_page_inserted x"
proof (cases "loadClientSyncPageReceipt s u p g pg")
  case (Inl e)
  then show ?thesis using assms by (simp add: persist_tx_def)
next
  case (Inr o')
  show ?thesis
  proof (cases o')
    case (Some y)
    then show ?thesis using assms Inr replayed_again[of s u p g pg]
      by (cases y) (auto simp: persist_tx_def)
  next
    case None
    let ?r = "receipt_of env u p g neu tmp pg"
    have "pr = clientSyncPageResult ?r False \<and> (\<exists>rs. receipts s1 = (page_key pg, ?r) # rs)"
      using assms Inr None by (auto simp: persist_tx_def Let_def split: if_splits option.splits sum.splits)
    then show ?thesis
      by (auto simp: loadClientSyncPageReceipt_def receipt_of_def clientSyncPageResult_def Let_def)
  qed
qed

lemma persist_answers:
  assumes "persistClientSyncPage loc env u p g neu src tmp pg s = (Inr res, s1)"
  shows "receipt_answers s1 u p g pg res"
proof -
  let ?ids = "if src = [] then idsFromSubmitLogs tmp else src"
  show ?thesis
  proof (cases "persist_tx loc env u p g neu ?ids tmp pg s")
    case (Inl e)
    then show ?thesis using assms replay_answers[of s u p g pg _ _ env]
      by (auto simp: persistClientSyncPage_def Let_def split: sum.splits option.splits prod.splits if_splits)
  next
    case (Inr y)
    obtain pr s0 where y: "y = (pr, s0)" by fastforce
    obtain x r where x: "loadClientSyncPageReceipt s0 u p g pg = Inr (Some (x, r))" "pr\<lparr>rr_replayed := True\<rparr> = x"
      "rr_page_inserted pr = rr_page_inserted x"
      using persist_tx_receipt[OF Inr[unfolded y]] by blast
    obtain ok where e: "applyClientSyncReceiptEffects env (page_key pg) s0 = (ok, s1)"
      "res = \<lparr>ir_inserted = rr_page_inserted pr, ir_refreshed = 0, ir_page = Some pr\<rparr>"
      using assms Inr by (auto simp: persistClientSyncPage_def Let_def y split: prod.splits if_splits)
    show ?thesis using effects_load[OF e(1) x(1)] x(2,3) e(2) by (auto simp: receipt_answers_def)
  qed
qed

lemma import_page_answers:
  assumes "importSubmitLogs loc sh env u p0 g logs opts s = (Inr res, s1)" and "io_page opts = Some pg"
  shows "receipt_answers s1 u (trim_space p0) g pg res"
    and "0 < u" "trim_space p0 \<noteq> ''''" "cp_session pg \<noteq> ''''" "0 < cp_page pg" "cp_digest pg \<noteq> ''''"
proof -
  let ?p = "trim_space p0" and ?tmp = "prepare u (trim_space p0) logs"
  have body: "receipt_answers t u ?p g pg r" if "import_body loc sh env u ?p g ?tmp opts s = (Inr r, t)" for r t
    using that assms(2) persist_answers
    by (fastforce simp: import_body_def import_rows_def Let_def split: if_splits prod.splits bool.splits)
  show "receipt_answers s1 u ?p g pg res"
    using assms body replay_answers[of s u ?p g pg _ _ env]
    unfolding importSubmitLogs_def Let_def
    by (auto split: if_splits sum.splits option.splits prod.splits)
  show "0 < u" "?p \<noteq> ''''" "cp_session pg \<noteq> ''''" "0 < cp_page pg" "cp_digest pg \<noteq> ''''"
    using assms unfolding importSubmitLogs_def Let_def by (auto split: if_splits)
qed

text \<open>C14: A page of the browser synchronisation is applied once. After a page was imported, sending it again for the
  same binding (with whatever rows) returns the same counters, marked as replayed, and changes neither
  the submissions and statistics, nor the checkpoint, nor the post-processing job.\<close>

theorem page_replay_is_idempotent:
  assumes "importSubmitLogs loc sh env u p g logs opts s = (Inr res, s1)" and "io_page opts = Some pg"
    and "env_lock env2" and "env_generation env2 \<in> {None, Some (Some g)}" and "env_effects_ok env2"
  shows "\<exists>res2 s2. importSubmitLogs loc sh env2 u p g logs2 opts s1 = (Inr res2, s2)
     \<and> ir_inserted res2 = ir_inserted res
     \<and> ir_page res2 = map_option (\<lambda>x. x\<lparr>rr_replayed := True\<rparr>) (ir_page res)
     \<and> store s2 = store s1 \<and> checkpoints s2 = checkpoints s1 \<and> jobs s2 = jobs s1"
proof -
  note first = import_page_answers[OF assms(1,2)]
  obtain x r where x: "loadClientSyncPageReceipt s1 u (trim_space p) g pg = Inr (Some (x, r))"
    "ir_page res \<noteq> None" "(the (ir_page res))\<lparr>rr_replayed := True\<rparr> = x" "ir_inserted res = rr_page_inserted x"
    using first(1) by (auto simp: receipt_answers_def)
  obtain ok s2 where e0: "applyClientSyncReceiptEffects env2 (page_key pg) s1 = (ok, s2)" by fastforce
  then have "ok \<and> store s2 = store s1 \<and> checkpoints s2 = checkpoints s1 \<and> jobs s2 = jobs s1"
    using assms(5) by (auto simp: applyClientSyncReceiptEffects_def split: option.splits if_splits)
  with e0 have e: "applyClientSyncReceiptEffects env2 (page_key pg) s1 = (True, s2)"
    "store s2 = store s1" "checkpoints s2 = checkpoints s1" "jobs s2 = jobs s1" by simp_all
  have "importSubmitLogs loc sh env2 u p g logs2 opts s1
      = (Inr \<lparr>ir_inserted = rr_page_inserted x, ir_refreshed = 0, ir_page = Some x\<rparr>, s2)"
    using first(2-6) assms(2-4) x(1) e(1) unfolding importSubmitLogs_def Let_def by auto
  then show ?thesis using x(2-4) e(2-4) by auto
qed

definition demo_page :: ClientSyncPageImport where
  "demo_page = \<lparr>cp_session = ''s'', cp_restart = 0, cp_page = 1, cp_digest = ''d'', cp_first_submit_id = '''',
     cp_remote_count = 0, cp_per_page = 20, cp_inserted_before = 5, cp_processed_before = 0, cp_completion = '''',
     cp_next_available = 0, cp_completed_at = 0, cp_expires_at = 9\<rparr>"

abbreviation "demo_opts \<equiv> \<lparr>io_repair_required = False, io_complete = False, io_page = Some demo_page\<rparr>"

theorem page_replay_is_idempotent_witness:
  "\<exists>res s1. importSubmitLogs (\<lambda>t. 0) (\<lambda>t. 0) demo_env 7 ''LuoGu'' 4 [] demo_opts empty_sync = (Inr res, s1)
     \<and> (\<exists>res2 s2. importSubmitLogs (\<lambda>t. 0) (\<lambda>t. 0) demo_env 7 ''LuoGu'' 4 [demo_row] demo_opts s1 = (Inr res2, s2)
         \<and> ir_inserted res2 = ir_inserted res \<and> store s2 = store s1)"
proof -
  have "trim_space ''LuoGu'' = ''LuoGu''" by (simp add: trim_space_def trim_left_def is_space_def)
  then have "\<exists>res s1. importSubmitLogs (\<lambda>t. 0) (\<lambda>t. 0) demo_env 7 ''LuoGu'' 4 [] demo_opts empty_sync = (Inr res, s1)"
    by (simp add: importSubmitLogs_def prepare_def NormalizeSubmitIDs_def FillIsACBatch_def import_body_def
        persistClientSyncPage_def persist_tx_def loadClientSyncPageReceipt_def demo_env_def demo_page_def
        empty_sync_def hasSubmitOwnerConflict_def idsFromSubmitLogs_def reserveClientSyncReceipt_def Let_def
        clientSyncMaxReceiptsPerSession_def applyClientSyncReceiptEffects_def receipt_of_def page_key_def
        countRecentPendingSubmits_def)
  then obtain res s1 where r: "importSubmitLogs (\<lambda>t. 0) (\<lambda>t. 0) demo_env 7 ''LuoGu'' 4 [] demo_opts empty_sync = (Inr res, s1)"
    by blast
  then show ?thesis
    using page_replay_is_idempotent[OF r, of demo_page demo_env "[demo_row]"] by (auto simp: demo_env_def)
qed

end
