(* ===== verification/Redis.thy ===== *)
theory Redis
  imports Prelude
begin

text \<open>
  The Redis that several components share: keys with an optional expiry in milliseconds, calls that can fail
  before or after they take effect, \<^verbatim>\<open>SET NX PX\<close>, the two scripts "expire (delete) the key if it holds
  my token" that \<^verbatim>\<open>backupcoord/redis.go\<close>, \<^verbatim>\<open>task/ability_stats_refresher.go\<close> and
  \<^verbatim>\<open>biz/service/spider.go\<close> have in the same words, and the contract of a lock made of them as the
  locale \<open>token_lock\<close>.

  A key whose expiry has passed is absent. A call is \<open>Unreached e\<close> when the request does not arrive (a
  client that is not configured behaves the same way) and \<open>ReplyLost e\<close> when it is executed and the reply
  is lost; scripts run atomically.
\<close>

subsection \<open>Keys, expiry and failing calls\<close>

type_synonym 'v redis = "string \<rightharpoonup> 'v \<times> int option"

definition rget :: "int \<Rightarrow> 'v redis \<Rightarrow> string \<Rightarrow> 'v option" where
  "rget now r k = (case r k of None \<Rightarrow> None
     | Some (v, None) \<Rightarrow> Some v
     | Some (v, Some e) \<Rightarrow> if now < e then Some v else None)"

definition set_px :: "int \<Rightarrow> string \<Rightarrow> 'v \<Rightarrow> int \<Rightarrow> 'v redis \<Rightarrow> 'v redis" where
  "set_px now k v ttl r = r(k \<mapsto> (v, Some (now + ttl)))"

definition set_nx :: "int \<Rightarrow> string \<Rightarrow> 'v \<Rightarrow> int \<Rightarrow> 'v redis \<Rightarrow> 'v redis \<times> bool" where
  "set_nx now k v ttl r = (if rget now r k = None then (set_px now k v ttl r, True) else (r, False))"

definition cmp_pexpire :: "int \<Rightarrow> string \<Rightarrow> 'v \<Rightarrow> int \<Rightarrow> 'v redis \<Rightarrow> 'v redis \<times> int" where
  "cmp_pexpire now k v ttl r = (if rget now r k = Some v then (set_px now k v ttl r, 1) else (r, 0))"

definition cmp_del :: "int \<Rightarrow> string \<Rightarrow> 'v \<Rightarrow> 'v redis \<Rightarrow> 'v redis \<times> int" where
  "cmp_del now k v r = (if rget now r k = Some v then (r(k := None), 1) else (r, 0))"

datatype fault = Reached | Unreached string | ReplyLost string

definition rpc :: "fault \<Rightarrow> ('r \<Rightarrow> 'r \<times> 'a) \<Rightarrow> 'r \<Rightarrow> 'r \<times> (string + 'a)" where
  "rpc f op r = (case f of
       Reached \<Rightarrow> (fst (op r), Inr (snd (op r)))
     | Unreached e \<Rightarrow> (r, Inl e)
     | ReplyLost e \<Rightarrow> (fst (op r), Inl e))"

lemma rget_cong: "r k = r' k \<Longrightarrow> rget now r k = rget now r' k"
  by (simp add: rget_def)

lemma rget_live:
  "rget now r k = Some v \<longleftrightarrow> (\<exists>e. r k = Some (v, e) \<and> (case e of None \<Rightarrow> True | Some x \<Rightarrow> now < x))"
  by (auto simp: rget_def split: option.splits)

lemma rget_set_px [simp]:
  "0 < ttl \<Longrightarrow> rget now (set_px now k v ttl r) k = Some v"
  "k \<noteq> k' \<Longrightarrow> rget now' (set_px now k v ttl r) k' = rget now' r k'"
  by (simp_all add: set_px_def rget_def)

lemma set_px_other [simp]: "k \<noteq> k' \<Longrightarrow> set_px now k v ttl r k' = r k'"
  by (simp add: set_px_def)

lemma rget_del [simp]: "rget now (r(k := None)) k = None" "k \<noteq> k' \<Longrightarrow> rget now (r(k := x)) k' = rget now r k'"
  by (simp_all add: rget_def)

lemma set_nx_other [simp]: "k \<noteq> k' \<Longrightarrow> fst (set_nx now k v ttl r) k' = r k'"
  by (simp add: set_nx_def)

lemma cmp_other [simp]:
  "k \<noteq> k' \<Longrightarrow> fst (cmp_pexpire now k v ttl r) k' = r k'"
  "k \<noteq> k' \<Longrightarrow> fst (cmp_del now k v r) k' = r k'"
  by (simp_all add: cmp_pexpire_def cmp_del_def)

lemma rpc_cases:
  assumes "rpc f op r = (r', res)"
  obtains (reached) "f = Reached" "r' = fst (op r)" "res = Inr (snd (op r))"
    | (unreached) e where "f = Unreached e" "r' = r" "res = Inl e"
    | (lost) e where "f = ReplyLost e" "r' = fst (op r)" "res = Inl e"
  using assms by (cases f) (simp_all add: rpc_def)

lemma rpc_keeps: "(\<And>r. P r \<Longrightarrow> P (fst (op r))) \<Longrightarrow> P r \<Longrightarrow> P (fst (rpc f op r))"
  by (simp add: rpc_def split: fault.split)

subsection \<open>A lock with an owner's token\<close>

datatype 'v lock_call = Acquire 'v | Extend 'v | Release 'v

fun caller :: "'v lock_call \<Rightarrow> 'v" where
  "caller (Acquire t) = t"
| "caller (Extend t) = t"
| "caller (Release t) = t"

locale token_lock =
  fixes holder :: "int \<Rightarrow> 's \<Rightarrow> 'v option"
    and acquire :: "int \<Rightarrow> 'v \<Rightarrow> 's \<Rightarrow> 's \<times> bool"
    and extend :: "int \<Rightarrow> 'v \<Rightarrow> 's \<Rightarrow> 's \<times> bool"
    and release :: "int \<Rightarrow> 'v \<Rightarrow> 's \<Rightarrow> 's"
  assumes acquire_free: "holder now s = None \<Longrightarrow>
      snd (acquire now t s) \<and> holder now (fst (acquire now t s)) = Some t"
    and acquire_held: "holder now s \<noteq> None \<Longrightarrow> acquire now t s = (s, False)"
    and extend_own: "holder now s = Some t \<Longrightarrow>
      snd (extend now t s) \<and> holder now (fst (extend now t s)) = Some t"
    and extend_other: "holder now s \<noteq> Some t \<Longrightarrow> extend now t s = (s, False)"
    and release_own: "holder now s = Some t \<Longrightarrow> holder now (release now t s) = None"
    and release_other: "holder now s \<noteq> Some t \<Longrightarrow> release now t s = s"
begin

definition call :: "int \<Rightarrow> 'v lock_call \<Rightarrow> 's \<Rightarrow> 's" where
  "call now c s = (case c of Acquire t \<Rightarrow> fst (acquire now t s) | Extend t \<Rightarrow> fst (extend now t s)
     | Release t \<Rightarrow> release now t s)"

lemma others_keep:
  assumes "holder now s = Some t" and "\<forall>c\<in>set cs. caller c \<noteq> t"
  shows "holder now (fold (call now) cs s) = Some t"
  using assms
proof (induction cs arbitrary: s)
  case (Cons c cs)
  have "call now c s = s"
    using Cons.prems acquire_held[of now s] extend_other[of now s] release_other[of now s]
    by (cases c) (auto simp: call_def)
  then show ?case using Cons by simp
qed simp

lemma acquired_excludes:
  assumes "snd (acquire now t s)" and "\<forall>c\<in>set cs. caller c \<noteq> t"
  shows "holder now (fold (call now) cs (fst (acquire now t s))) = Some t
    \<and> \<not> snd (acquire now u (fold (call now) cs (fst (acquire now t s))))"
proof -
  have "holder now s = None" using assms(1) acquire_held[of now s t] by (cases "holder now s") auto
  then have "holder now (fst (acquire now t s)) = Some t" using acquire_free by blast
  then have k: "holder now (fold (call now) cs (fst (acquire now t s))) = Some t"
    using assms(2) by (rule others_keep)
  then show ?thesis using acquire_held[of now "fold (call now) cs (fst (acquire now t s))" u] by simp
qed

lemma release_frees: "holder now s = Some t \<Longrightarrow> snd (acquire now u (release now t s))"
  using release_own acquire_free by blast

end

text \<open>The three operations above on one key are such a lock.\<close>

lemma redis_token_lock:
  assumes "0 < ttl"
  shows "token_lock (\<lambda>now r. rget now r k) (\<lambda>now t. set_nx now k t ttl)
     (\<lambda>now t r. (fst (cmp_pexpire now k t ttl r), snd (cmp_pexpire now k t ttl r) = 1))
     (\<lambda>now t r. fst (cmp_del now k t r))"
  using assms
  by unfold_locales (auto simp: set_nx_def cmp_pexpire_def cmp_del_def)

end
