(* ===== verification/BackupCoord.thy ===== *)
theory BackupCoord
  imports Redis
begin

text \<open>
  The coordinator of database backups, \<^verbatim>\<open>internal/backupcoord/coordinator.go\<close> and \<^verbatim>\<open>redis.go\<close> of
  the service \<^verbatim>\<open>core_data\<close>: the Redis scripts that hold the lock, the status and the claimed days,
  the methods of the coordinator, and a step relation of several processes that share the Redis.

  \<^item> A Redis is a map from keys to values with an optional expiry (milliseconds); a key whose expiry has
    passed is absent. A script runs atomically.
  \<^item> A call can also fail: \<open>Unreached e\<close> when the request never arrives (an unconfigured client behaves
    the same way) and \<open>ReplyLost e\<close> when it is executed and the reply is lost.
  \<^item> The record \<open>Coordinator\<close> has the mutable fields of the Go struct; \<open>c_runs\<close> lists the goroutines
    started by \<^verbatim>\<open>go c.run(\<dots>)\<close>, named by their lock token, each with its place in the body of
    \<^verbatim>\<open>run\<close> and the state of its \<^verbatim>\<open>renewLease\<close> goroutine. \<open>c_cancel\<close> and \<open>c_done\<close> name the
    goroutine whose cancel function and channel the fields hold.
  \<^item> A method that holds \<^verbatim>\<open>c.mu\<close> is one step; \<^verbatim>\<open>run\<close> is cut where it releases the mutex or calls
    Redis, \<^verbatim>\<open>Status\<close> into its read and its write. The fields \<open>r_lease\<close>, \<open>r_due\<close> and
    \<open>r_stop\<close> record times for the proofs and are read by no operation.
\<close>

subsection \<open>Status, errors and the Redis store\<close>

datatype Trigger = TriggerManual | TriggerScheduled

datatype State = StateIdle | StateRunning | StateSucceeded | StateFailed | StateDisabled

fun state_str :: "State \<Rightarrow> string" where
  "state_str StateIdle = ''idle''"
| "state_str StateRunning = ''running''"
| "state_str StateSucceeded = ''succeeded''"
| "state_str StateFailed = ''failed''"
| "state_str StateDisabled = ''disabled''"

datatype CoordErr = ErrDisabled | ErrAlreadyRunning | ErrStopping | ErrOther string

fun err_text :: "CoordErr \<Rightarrow> string" where
  "err_text ErrDisabled = ''backup is disabled''"
| "err_text ErrAlreadyRunning = ''backup is already running''"
| "err_text ErrStopping = ''backup coordinator is stopping''"
| "err_text (ErrOther s) = s"

text \<open>An absent trigger and an absent time are \<open>None\<close> (the empty string and the zero time).\<close>

record Status =
  st_Enabled :: bool
  st_State :: State
  st_Trigger :: "Trigger option"
  st_Stage :: string
  st_Message :: string
  st_Error :: string
  st_StartedAt :: "int option"
  st_FinishedAt :: "int option"
  st_ArchiveKey :: string
  st_ArchiveSize :: int
  st_SHA256 :: string
  st_DatabaseCount :: int

definition blank_status :: "bool \<Rightarrow> State \<Rightarrow> Status" where
  "blank_status en s = \<lparr>st_Enabled = en, st_State = s, st_Trigger = None, st_Stage = state_str s,
     st_Message = '''', st_Error = '''', st_StartedAt = None, st_FinishedAt = None, st_ArchiveKey = '''',
     st_ArchiveSize = 0, st_SHA256 = '''', st_DatabaseCount = 0\<rparr>"

record BackupResult =
  br_ArchiveKey :: string
  br_SHA256 :: string
  br_Size :: int
  br_Databases :: int

datatype rval = RString string | RStatus Status

type_synonym token = string

type_synonym bredis = "rval redis"

definition backupLockKey :: string where "backupLockKey = ''core:backup:lock:v1''"
definition backupStatusKey :: string where "backupStatusKey = ''core:backup:status:v1''"
definition backupDayPrefix :: string where "backupDayPrefix = ''core:backup:scheduled-running:v2:''"
definition backupDonePrefix :: string where "backupDonePrefix = ''core:backup:scheduled-done:v2:''"

definition TryLock :: "int \<Rightarrow> fault \<Rightarrow> token \<Rightarrow> int \<Rightarrow> bredis \<Rightarrow> bredis \<times> (string + bool)" where
  "TryLock now f token lease = rpc f (set_nx now backupLockKey (RString token) lease)"

definition renewScript :: "int \<Rightarrow> token \<Rightarrow> int \<Rightarrow> bredis \<Rightarrow> bredis \<times> int" where
  "renewScript now token lease = cmp_pexpire now backupLockKey (RString token) lease"

definition Renew :: "int \<Rightarrow> fault \<Rightarrow> token \<Rightarrow> int \<Rightarrow> bredis \<Rightarrow> bredis \<times> (string + bool)" where
  "Renew now f token lease = rpc f (\<lambda>r.
     (fst (renewScript now token lease r), snd (renewScript now token lease r) = 1))"

definition unlockScript :: "int \<Rightarrow> token \<Rightarrow> bredis \<Rightarrow> bredis \<times> int" where
  "unlockScript now token = cmp_del now backupLockKey (RString token)"

definition Unlock :: "int \<Rightarrow> fault \<Rightarrow> token \<Rightarrow> bredis \<Rightarrow> bredis \<times> (string + unit)" where
  "Unlock now f token = rpc f (\<lambda>r. (fst (unlockScript now token r), ()))"

definition Load :: "int \<Rightarrow> fault \<Rightarrow> bredis \<Rightarrow> string + Status option" where
  "Load now f r = (case f of
       Reached \<Rightarrow> (case rget now r backupStatusKey of
           None \<Rightarrow> Inr None
         | Some (RStatus s) \<Rightarrow> Inr (Some s)
         | Some (RString _) \<Rightarrow> Inl ''invalid character'')
     | Unreached e \<Rightarrow> Inl e
     | ReplyLost e \<Rightarrow> Inl e)"

definition Save :: "fault \<Rightarrow> Status \<Rightarrow> bredis \<Rightarrow> bredis \<times> (string + unit)" where
  "Save f s = rpc f (\<lambda>r. (r(backupStatusKey \<mapsto> (RStatus s, None)), ()))"

definition claimDayScript :: "int \<Rightarrow> string \<Rightarrow> int \<Rightarrow> bredis \<Rightarrow> bredis \<times> int" where
  "claimDayScript now day ttl r =
     (if rget now r (backupDonePrefix @ day) \<noteq> None then (r, 0)
      else if rget now r (backupDayPrefix @ day) = None
      then (r(backupDayPrefix @ day \<mapsto> (RString ''1'', Some (now + ttl))), 1) else (r, 0))"

definition ClaimDay :: "int \<Rightarrow> fault \<Rightarrow> string \<Rightarrow> int \<Rightarrow> bredis \<Rightarrow> bredis \<times> (string + bool)" where
  "ClaimDay now f day ttl = rpc f (\<lambda>r.
     (fst (claimDayScript now day ttl r), snd (claimDayScript now day ttl r) = 1))"

definition completeDayScript :: "int \<Rightarrow> string \<Rightarrow> int \<Rightarrow> bredis \<Rightarrow> bredis" where
  "completeDayScript now day ttl r =
     (r(backupDonePrefix @ day \<mapsto> (RString ''1'', Some (now + ttl))))(backupDayPrefix @ day := None)"

definition CompleteDay :: "int \<Rightarrow> fault \<Rightarrow> string \<Rightarrow> int \<Rightarrow> bredis \<Rightarrow> bredis \<times> (string + unit)" where
  "CompleteDay now f day ttl = rpc f (\<lambda>r. (completeDayScript now day ttl r, ()))"

definition ReleaseDay :: "fault \<Rightarrow> string \<Rightarrow> bredis \<Rightarrow> bredis \<times> (string + unit)" where
  "ReleaseDay f day = rpc f (\<lambda>r. (r(backupDayPrefix @ day := None), ()))"

subsection \<open>The coordinator\<close>

definition lease_ms :: int where "lease_ms = 30 * 60 * 1000"
definition renewEvery_ms :: int where "renewEvery_ms = 10 * 60 * 1000"
definition done_ttl_ms :: int where "done_ttl_ms = 72 * 60 * 60 * 1000"

datatype phase =
    Running
  | DaySettled "CoordErr + BackupResult"
  | StatusSet Status
  | Saved
  | Closed

record backup_run =
  r_token :: token
  r_day :: string
  r_phase :: phase
  r_cancelled :: bool
  r_renewing :: bool
  r_lease :: int
  r_due :: int
  r_stop :: int

record Coordinator =
  c_status :: Status
  c_stopping :: bool
  c_cancel :: "token option"
  c_done :: "token option"
  c_configError :: string
  c_runs :: "backup_run list"

definition on_run :: "token \<Rightarrow> (backup_run \<Rightarrow> backup_run) \<Rightarrow> Coordinator \<Rightarrow> Coordinator" where
  "on_run t f c = c\<lparr>c_runs := map (\<lambda>x. if r_token x = t then f x else x) (c_runs c)\<rparr>"

definition interrupted :: string where "interrupted = ''backup interrupted by service restart''"

definition persistStartupStatus :: "fault \<Rightarrow> Coordinator \<Rightarrow> bredis \<Rightarrow> bredis" where
  "persistStartupStatus f c r = fst (Save f (c_status c) r)"

definition fresh_coordinator :: "string \<Rightarrow> Status \<Rightarrow> Coordinator" where
  "fresh_coordinator cfgErr s = \<lparr>c_status = s, c_stopping = False, c_cancel = None, c_done = None,
     c_configError = cfgErr, c_runs = []\<rparr>"

definition newCoordinatorDynamic ::
  "int \<Rightarrow> bool \<Rightarrow> string \<Rightarrow> fault \<Rightarrow> fault \<Rightarrow> bredis \<Rightarrow> bredis \<times> Coordinator" where
  "newCoordinatorDynamic now enabled cfgErr fload fsave r =
     (if \<not> enabled \<or> cfgErr \<noteq> '''' then
        (let reason = (if cfgErr = '''' then err_text ErrDisabled else cfgErr);
             c = fresh_coordinator cfgErr
                   (blank_status False StateDisabled\<lparr>st_Error := reason, st_Message := reason\<rparr>)
         in (persistStartupStatus fsave c r, c))
      else (case Load now fload r of
          Inr (Some saved) \<Rightarrow>
            (let s1 = saved\<lparr>st_Enabled := True\<rparr>;
                 s2 = (if st_State s1 = StateRunning
                       then s1\<lparr>st_State := StateFailed, st_Stage := state_str StateFailed,
                               st_Error := interrupted, st_FinishedAt := Some now\<rparr> else s1);
                 c = fresh_coordinator cfgErr s2
             in (if st_State s2 = StateFailed \<and> st_Error s2 = interrupted
                 then (persistStartupStatus fsave c r, c) else (r, c)))
        | _ \<Rightarrow> (r, fresh_coordinator cfgErr (blank_status True StateIdle))))"

text \<open>What a call of \<^verbatim>\<open>Trigger\<close> meets: the switch, the answer of the runner's \<^verbatim>\<open>Validate\<close>, the new UUID,
  the clock and the fate of its Redis calls.\<close>

record trigger_env =
  te_enabled :: bool
  te_validate :: "CoordErr option"
  te_token :: token
  te_now :: int
  te_lock :: fault
  te_save :: fault
  te_unlock :: fault

definition running_status :: "Trigger \<Rightarrow> int \<Rightarrow> Status" where
  "running_status kind now = (blank_status True StateRunning)
     \<lparr>st_Trigger := Some kind, st_Message := ''backup is running'', st_StartedAt := Some now\<rparr>"

definition started_run :: "token \<Rightarrow> string \<Rightarrow> int \<Rightarrow> backup_run" where
  "started_run t day now = \<lparr>r_token = t, r_day = day, r_phase = Running, r_cancelled = False,
     r_renewing = True, r_lease = now + lease_ms, r_due = now + renewEvery_ms, r_stop = now\<rparr>"

definition trigger ::
  "trigger_env \<Rightarrow> Trigger \<Rightarrow> string \<Rightarrow> bredis \<Rightarrow> Coordinator \<Rightarrow> bredis \<times> Coordinator \<times> CoordErr option" where
  "trigger e kind day r c =
     (if c_stopping c then (r, c, Some ErrStopping)
      else if \<not> te_enabled e \<or> c_configError c \<noteq> '''' then (r, c, Some ErrDisabled)
      else case te_validate e of Some x \<Rightarrow> (r, c, Some x)
      | None \<Rightarrow>
        if st_State (c_status c) = StateRunning then (r, c, Some ErrAlreadyRunning)
        else (case TryLock (te_now e) (te_lock e) (te_token e) lease_ms r of
            (r1, Inl x) \<Rightarrow> (r1, c, Some (ErrOther x))
          | (r1, Inr False) \<Rightarrow> (r1, c, Some ErrAlreadyRunning)
          | (r1, Inr True) \<Rightarrow>
             (case Save (te_save e) (running_status kind (te_now e)) r1 of
                (r2, Inl x) \<Rightarrow>
                  (fst (Unlock (te_now e) (te_unlock e) (te_token e) r2),
                   c\<lparr>c_cancel := None, c_done := None, c_status := blank_status True StateIdle\<rparr>, Some (ErrOther x))
              | (r2, Inr _) \<Rightarrow>
                  (r2, c\<lparr>c_cancel := Some (te_token e), c_done := Some (te_token e),
                        c_status := running_status kind (te_now e),
                        c_runs := started_run (te_token e) day (te_now e) # c_runs c\<rparr>, None))))"

definition Trigger_api ::
  "trigger_env \<Rightarrow> Trigger \<Rightarrow> bredis \<Rightarrow> Coordinator \<Rightarrow> bredis \<times> Coordinator \<times> CoordErr option" where
  "Trigger_api e kind r c = trigger e kind '''' r c"

text \<open>The goroutine \<^verbatim>\<open>run\<close>. \<^verbatim>\<open>runner.Run\<close> is a parameter: it returns any result at any time. After it
  the day is settled, then the status is written under the mutex, saved, and the lock released.\<close>

definition run_return ::
  "int \<Rightarrow> fault \<Rightarrow> (CoordErr + BackupResult) \<Rightarrow> backup_run \<Rightarrow> bredis \<Rightarrow> Coordinator \<Rightarrow> bredis \<times> Coordinator" where
  "run_return now f res x r c =
     (let r' = (if r_day x = '''' then r else
                  case res of Inl _ \<Rightarrow> fst (ReleaseDay f (r_day x) r)
                  | Inr _ \<Rightarrow> fst (CompleteDay now f (r_day x) done_ttl_ms r))
      in (r', on_run (r_token x) (\<lambda>y. y\<lparr>r_phase := DaySettled res, r_renewing := False,
              r_stop := (if r_renewing y then now else r_stop y)\<rparr>) c))"

definition final_status :: "int \<Rightarrow> (CoordErr + BackupResult) \<Rightarrow> Status \<Rightarrow> Status" where
  "final_status now res s0 =
     (let s = s0\<lparr>st_FinishedAt := Some now\<rparr> in
      case res of
        Inl e \<Rightarrow> s\<lparr>st_State := StateFailed, st_Stage := state_str StateFailed,
                   st_Message := ''backup failed'', st_Error := err_text e\<rparr>
      | Inr b \<Rightarrow> s\<lparr>st_State := StateSucceeded, st_Stage := state_str StateSucceeded,
                   st_Message := ''backup succeeded'', st_ArchiveKey := br_ArchiveKey b,
                   st_ArchiveSize := br_Size b, st_SHA256 := br_SHA256 b,
                   st_DatabaseCount := br_Databases b\<rparr>)"

definition run_status :: "int \<Rightarrow> (CoordErr + BackupResult) \<Rightarrow> backup_run \<Rightarrow> Coordinator \<Rightarrow> Coordinator" where
  "run_status now res x c =
     (let s = final_status now res (c_status c)
      in on_run (r_token x) (\<lambda>y. y\<lparr>r_phase := StatusSet s\<rparr>) (c\<lparr>c_status := s, c_cancel := None\<rparr>))"

definition run_save :: "fault \<Rightarrow> Status \<Rightarrow> backup_run \<Rightarrow> bredis \<Rightarrow> Coordinator \<Rightarrow> bredis \<times> Coordinator" where
  "run_save f s x r c = (fst (Save f s r), on_run (r_token x) (\<lambda>y. y\<lparr>r_phase := Saved\<rparr>) c)"

definition run_unlock :: "int \<Rightarrow> fault \<Rightarrow> backup_run \<Rightarrow> bredis \<Rightarrow> Coordinator \<Rightarrow> bredis \<times> Coordinator" where
  "run_unlock now f x r c =
     (fst (Unlock now f (r_token x) r), on_run (r_token x) (\<lambda>y. y\<lparr>r_phase := Closed\<rparr>) c)"

definition call_cancel :: "Coordinator \<Rightarrow> Coordinator" where
  "call_cancel c = (case c_cancel c of None \<Rightarrow> c
     | Some t \<Rightarrow> on_run t (\<lambda>y. y\<lparr>r_cancelled := True\<rparr>) c)"

text \<open>One tick of the goroutine \<^verbatim>\<open>renewLease\<close>, and its exit when the context is cancelled.\<close>

definition renew_tick :: "int \<Rightarrow> fault \<Rightarrow> token \<Rightarrow> bredis \<Rightarrow> Coordinator \<Rightarrow> bredis \<times> Coordinator" where
  "renew_tick now f t r c =
     (case Renew now f t lease_ms r of
        (r', Inr True) \<Rightarrow> (r', on_run t (\<lambda>y. y\<lparr>r_lease := now + lease_ms, r_due := now + renewEvery_ms\<rparr>) c)
      | (r', _) \<Rightarrow> (r', call_cancel (on_run t (\<lambda>y. y\<lparr>r_renewing := False, r_stop := now\<rparr>) c)))"

definition renew_exit :: "int \<Rightarrow> token \<Rightarrow> Coordinator \<Rightarrow> Coordinator" where
  "renew_exit now t c = on_run t (\<lambda>y. y\<lparr>r_renewing := False, r_stop := now\<rparr>) c"

text \<open>\<^verbatim>\<open>Status\<close>: the read of the persisted status, its assignment, and the answer computed from the field.\<close>

definition Status_read :: "int \<Rightarrow> bool \<Rightarrow> fault \<Rightarrow> bredis \<Rightarrow> Coordinator \<Rightarrow> Status option" where
  "Status_read now enabled f r c =
     (if enabled \<and> c_configError c = '''' then
        (case Load now f r of Inr (Some s) \<Rightarrow> Some (s\<lparr>st_Enabled := True\<rparr>) | _ \<Rightarrow> None)
      else None)"

definition Status_write :: "Status option \<Rightarrow> Coordinator \<Rightarrow> Coordinator" where
  "Status_write s c = (case s of None \<Rightarrow> c | Some s \<Rightarrow> c\<lparr>c_status := s\<rparr>)"

definition Status_view :: "bool \<Rightarrow> bool \<Rightarrow> Coordinator \<Rightarrow> Status" where
  "Status_view enabled running c =
     (let dyn = (enabled \<and> c_configError c = '''');
          s0 = (c_status c)\<lparr>st_Enabled := dyn\<rparr>;
          s1 = (if dyn \<and> st_State s0 = StateDisabled
                then s0\<lparr>st_State := StateIdle, st_Stage := state_str StateIdle,
                        st_Message := '''', st_Error := ''''\<rparr> else s0);
          err = (if enabled \<and> c_configError c \<noteq> '''' then c_configError c else err_text ErrDisabled)
      in if \<not> dyn \<and> \<not> running
         then s1\<lparr>st_State := StateDisabled, st_Stage := state_str StateDisabled,
                 st_Error := err, st_Message := err\<rparr>
         else s1)"

definition Coordinator_Status :: "int \<Rightarrow> bool \<Rightarrow> fault \<Rightarrow> bredis \<Rightarrow> Coordinator \<Rightarrow> Coordinator \<times> Status" where
  "Coordinator_Status now enabled f r c =
     (let running = (st_State (c_status c) = StateRunning);
          c' = Status_write (Status_read now enabled f r c) c
      in (c', Status_view enabled running c'))"

text \<open>\<^verbatim>\<open>Stop\<close> sets the flag, cancels and then waits for the channel in \<^verbatim>\<open>c.done\<close>.\<close>

definition Stop_begin :: "Coordinator \<Rightarrow> Coordinator \<times> token option" where
  "Stop_begin c = (call_cancel (c\<lparr>c_stopping := True\<rparr>), c_done c)"

definition Stop_returns :: "token option \<Rightarrow> Coordinator \<Rightarrow> bool" where
  "Stop_returns d c = (case d of None \<Rightarrow> True
     | Some t \<Rightarrow> \<not> list_ex (\<lambda>x. r_token x = t \<and> r_phase x \<noteq> Closed) (c_runs c))"

subsection \<open>The daily schedule\<close>

text \<open>\<^verbatim>\<open>time.Parse("15:04", v)\<close> and \<^verbatim>\<open>Format("15:04")\<close> on values of five bytes, the only ones that reach them.\<close>

definition two_digits :: "nat \<Rightarrow> string" where
  "two_digits n = [digit_char (n div 10), digit_char (n mod 10)]"

fun parse_clock :: "string \<Rightarrow> (nat \<times> nat) option" where
  "parse_clock [a, b, c, d, e] =
     (let h = digits_val [a, b]; m = digits_val [d, e] in
      if is_digit_char a \<and> is_digit_char b \<and> c = CHR '':'' \<and> is_digit_char d \<and> is_digit_char e
         \<and> h < 24 \<and> m < 60 then Some (h, m) else None)"
| "parse_clock _ = None"

definition format_clock :: "nat \<times> nat \<Rightarrow> string" where
  "format_clock t = two_digits (fst t) @ '':'' @ two_digits (snd t)"

definition ValidateBackupTime :: "string \<Rightarrow> bool" where
  "ValidateBackupTime v \<longleftrightarrow>
     length v = 5 \<and> v ! 2 = CHR '':'' \<and>
     (case parse_clock v of None \<Rightarrow> False | Some t \<Rightarrow> format_clock t = v)"

definition NormalizeBackupTime :: "string \<Rightarrow> string" where
  "NormalizeBackupTime v = (let v = trim_space v in if ValidateBackupTime v then v else ''02:00'')"

text \<open>\<^verbatim>\<open>Format("2006-01-02")\<close> of a day counted from the Unix epoch (years 0 to 9999).\<close>

definition civil_date :: "int \<Rightarrow> int \<times> int \<times> int" where
  "civil_date z =
     (let z' = z + 719468; era = z' div 146097; doe = z' mod 146097;
          yoe = (doe - doe div 1460 + doe div 36524 - doe div 146096) div 365;
          doy = doe - (365 * yoe + yoe div 4 - yoe div 100);
          mp = (5 * doy + 2) div 153;
          m = (if mp < 10 then mp + 3 else mp - 9)
      in (yoe + era * 400 + (if m \<le> 2 then 1 else 0), m, doy - (153 * mp + 2) div 5 + 1))"

definition format_day :: "int \<Rightarrow> string" where
  "format_day z = (case civil_date z of (y, m, d) \<Rightarrow>
     two_digits (nat y div 100) @ two_digits (nat y mod 100) @ ''-'' @ two_digits (nat m) @ ''-''
     @ two_digits (nat d))"

text \<open>\<open>sh\<close> is the offset of Asia/Shanghai at an instant, in milliseconds.\<close>

definition local_minutes :: "(int \<Rightarrow> int) \<Rightarrow> int \<Rightarrow> int" where
  "local_minutes sh now = ((now + sh now) mod 86400000) div 60000"

definition local_day :: "(int \<Rightarrow> int) \<Rightarrow> int \<Rightarrow> string" where
  "local_day sh now = format_day ((now + sh now) div 86400000)"

record sched_env =
  se_enabled :: bool
  se_time :: string
  se_claim :: fault
  se_release :: fault
  se_trigger :: trigger_env

definition RunScheduled ::
  "(int \<Rightarrow> int) \<Rightarrow> int \<Rightarrow> sched_env \<Rightarrow> bredis \<Rightarrow> Coordinator \<Rightarrow> bredis \<times> Coordinator" where
  "RunScheduled sh now e r c =
     (if \<not> se_enabled e then (r, c)
      else case parse_clock (NormalizeBackupTime (se_time e)) of None \<Rightarrow> (r, c)
      | Some (h, m) \<Rightarrow>
        if local_minutes sh now \<noteq> int (h * 60 + m) then (r, c)
        else (case ClaimDay now (se_claim e) (local_day sh now) lease_ms r of
            (r1, Inl _) \<Rightarrow> (r1, c)
          | (r1, Inr False) \<Rightarrow> (r1, c)
          | (r1, Inr True) \<Rightarrow>
             (case trigger (se_trigger e) TriggerScheduled (local_day sh now) r1 c of
                (r2, c2, None) \<Rightarrow> (r2, c2)
              | (r2, c2, Some _) \<Rightarrow> (fst (ReleaseDay (se_release e) (local_day sh now) r2), c2))))"

subsection \<open>Processes that share a Redis\<close>

text \<open>\<open>w_tokens\<close> holds every UUID generated so far (UUIDs do not repeat), \<open>w_loads\<close> the persisted
  statuses that calls of \<^verbatim>\<open>Status\<close> have read and not yet assigned.\<close>

record cluster =
  w_now :: int
  w_redis :: bredis
  w_coord :: "nat \<Rightarrow> Coordinator"
  w_tokens :: "token set"
  w_loads :: "(nat \<times> Status option) list"

definition put :: "nat \<Rightarrow> bredis \<times> Coordinator \<Rightarrow> cluster \<Rightarrow> cluster" where
  "put i rc w = w\<lparr>w_redis := fst rc, w_coord := (w_coord w)(i := snd rc)\<rparr>"

inductive cstep :: "(int \<Rightarrow> int) \<Rightarrow> cluster \<Rightarrow> cluster \<Rightarrow> bool" for sh where
  tick: "0 < d \<Longrightarrow> cstep sh w (w\<lparr>w_now := w_now w + d\<rparr>)"
| manual: "te_token e \<notin> w_tokens w \<Longrightarrow> te_now e = w_now w \<Longrightarrow>
    Trigger_api e kind (w_redis w) (w_coord w i) = (r', c', err) \<Longrightarrow>
    cstep sh w ((put i (r', c') w)\<lparr>w_tokens := insert (te_token e) (w_tokens w)\<rparr>)"
| scheduled: "te_token (se_trigger e) \<notin> w_tokens w \<Longrightarrow> te_now (se_trigger e) = w_now w \<Longrightarrow>
    cstep sh w ((put i (RunScheduled sh (w_now w) e (w_redis w) (w_coord w i)) w)
      \<lparr>w_tokens := insert (te_token (se_trigger e)) (w_tokens w)\<rparr>)"
| renew: "x \<in> set (c_runs (w_coord w i)) \<Longrightarrow> r_renewing x \<Longrightarrow>
    cstep sh w (put i (renew_tick (w_now w) f (r_token x) (w_redis w) (w_coord w i)) w)"
| renew_stop: "x \<in> set (c_runs (w_coord w i)) \<Longrightarrow> r_renewing x \<Longrightarrow> r_cancelled x \<Longrightarrow>
    cstep sh w (put i (w_redis w, renew_exit (w_now w) (r_token x) (w_coord w i)) w)"
| return: "x \<in> set (c_runs (w_coord w i)) \<Longrightarrow> r_phase x = Running \<Longrightarrow>
    cstep sh w (put i (run_return (w_now w) f res x (w_redis w) (w_coord w i)) w)"
| status_set: "x \<in> set (c_runs (w_coord w i)) \<Longrightarrow> r_phase x = DaySettled res \<Longrightarrow>
    cstep sh w (put i (w_redis w, run_status (w_now w) res x (w_coord w i)) w)"
| save: "x \<in> set (c_runs (w_coord w i)) \<Longrightarrow> r_phase x = StatusSet s \<Longrightarrow>
    cstep sh w (put i (run_save f s x (w_redis w) (w_coord w i)) w)"
| unlock: "x \<in> set (c_runs (w_coord w i)) \<Longrightarrow> r_phase x = Saved \<Longrightarrow>
    cstep sh w (put i (run_unlock (w_now w) f x (w_redis w) (w_coord w i)) w)"
| status_read: "Status_read (w_now w) en f (w_redis w) (w_coord w i) = s \<Longrightarrow>
    cstep sh w (w\<lparr>w_loads := (i, s) # w_loads w\<rparr>)"
| status_write: "(i, s) \<in> set (w_loads w) \<Longrightarrow>
    cstep sh w (put i (w_redis w, Status_write s (w_coord w i)) w)"
| stop: "cstep sh w (put i (w_redis w, fst (Stop_begin (w_coord w i))) w)"
| restart: "cstep sh w ((put i (newCoordinatorDynamic (w_now w) en cfgErr f g (w_redis w)) w)
      \<lparr>w_loads := filter (\<lambda>l. fst l \<noteq> i) (w_loads w)\<rparr>)"

text \<open>A cluster starts with an arbitrary Redis in which nobody is known to hold the lock, and processes
  that have not started a backup.\<close>

definition quiet :: "cluster \<Rightarrow> bool" where
  "quiet w \<longleftrightarrow> (\<forall>i. c_runs (w_coord w i) = [] \<and> c_cancel (w_coord w i) = None)
     \<and> (\<forall>t e. w_redis w backupLockKey = Some (RString t, e) \<longrightarrow> t \<in> w_tokens w)"

inductive reach :: "(int \<Rightarrow> int) \<Rightarrow> cluster \<Rightarrow> bool" for sh where
  start: "quiet w \<Longrightarrow> reach sh w"
| step: "reach sh w \<Longrightarrow> cstep sh w w' \<Longrightarrow> reach sh w'"

subsection \<open>What the Redis operations do to the lock\<close>

named_theorems lock_frame \<open>operations that leave the entry of the lock alone\<close>

lemma key_neq [simp]:
  "backupLockKey \<noteq> backupStatusKey" "backupStatusKey \<noteq> backupLockKey"
  "backupLockKey \<noteq> backupDayPrefix @ d" "backupDayPrefix @ d \<noteq> backupLockKey"
  "backupLockKey \<noteq> backupDonePrefix @ d" "backupDonePrefix @ d \<noteq> backupLockKey"
  "backupDayPrefix @ d \<noteq> backupDonePrefix @ d'" "backupDonePrefix @ d' \<noteq> backupDayPrefix @ d"
  "backupStatusKey \<noteq> backupDonePrefix @ d" "backupDonePrefix @ d \<noteq> backupStatusKey"
  by (simp_all add: backupLockKey_def backupStatusKey_def backupDayPrefix_def backupDonePrefix_def)

lemma Save_lock [lock_frame]: "fst (Save f s r) backupLockKey = r backupLockKey"
  by (simp add: Save_def rpc_def split: fault.split)

lemma ReleaseDay_lock [lock_frame]: "fst (ReleaseDay f d r) backupLockKey = r backupLockKey"
  by (simp add: ReleaseDay_def rpc_def split: fault.split)

lemma CompleteDay_lock [lock_frame]: "fst (CompleteDay now f d ttl r) backupLockKey = r backupLockKey"
  by (simp add: CompleteDay_def completeDayScript_def rpc_def split: fault.split)

lemma ClaimDay_lock [lock_frame]: "fst (ClaimDay now f d ttl r) backupLockKey = r backupLockKey"
  by (simp add: ClaimDay_def claimDayScript_def rpc_def split: fault.split)

lemma persist_lock [lock_frame]: "persistStartupStatus f c r backupLockKey = r backupLockKey"
  by (simp add: persistStartupStatus_def lock_frame)

lemma restart_lock [lock_frame]:
  "fst (newCoordinatorDynamic now en cfg f g r) backupLockKey = r backupLockKey"
  by (auto simp: newCoordinatorDynamic_def Let_def lock_frame split: sum.split option.split)

lemma restart_runs: "c_runs (snd (newCoordinatorDynamic now en cfg f g r)) = []"
  by (auto simp: newCoordinatorDynamic_def fresh_coordinator_def Let_def split: sum.split option.split)

lemma restart_cancel: "c_cancel (snd (newCoordinatorDynamic now en cfg f g r)) = None"
  by (auto simp: newCoordinatorDynamic_def fresh_coordinator_def Let_def split: sum.split option.split)

text \<open>The lock of the coordinator meets the contract of a token lock.\<close>

interpretation bl: token_lock "\<lambda>now r. rget now r backupLockKey" "\<lambda>now t. set_nx now backupLockKey t lease_ms"
  "\<lambda>now t r. (fst (cmp_pexpire now backupLockKey t lease_ms r), snd (cmp_pexpire now backupLockKey t lease_ms r) = 1)"
  "\<lambda>now t r. fst (cmp_del now backupLockKey t r)"
  by (rule redis_token_lock) (simp add: lease_ms_def)

lemma Unlock_lock:
  "fst (Unlock now f t r) backupLockKey = r backupLockKey
   \<or> fst (Unlock now f t r) backupLockKey = None \<and> rget now r backupLockKey = Some (RString t)"
proof (cases "rget now r backupLockKey = Some (RString t)")
  case True
  then show ?thesis by (simp add: Unlock_def unlockScript_def cmp_del_def rpc_def split: fault.split)
next
  case False
  then show ?thesis
    using bl.release_other[OF False] by (simp add: Unlock_def unlockScript_def rpc_def split: fault.split)
qed

lemma TryLock_cases:
  assumes "TryLock now f t lease_ms r = (r', res)"
  obtains (kept) "r' = r" "res \<noteq> Inr True"
    | (taken) "rget now r backupLockKey = None"
        "r' = r(backupLockKey \<mapsto> (RString t, Some (now + lease_ms)))" "\<And>b. res = Inr b \<Longrightarrow> b"
proof (cases "rget now r backupLockKey = None \<and> (\<forall>e. f \<noteq> Unreached e)")
  case True
  then show ?thesis using assms by (intro taken) (cases f; simp add: TryLock_def set_nx_def set_px_def rpc_def)+
next
  case False
  then show ?thesis
    using assms bl.acquire_held[of now r "RString t"] by (intro kept) (cases f; auto simp: TryLock_def rpc_def)+
qed

lemma Renew_cases:
  assumes "Renew now f t lease_ms r = (r', res)"
  obtains (kept) "r' = r" "res \<noteq> Inr True"
    | (renewed) "rget now r backupLockKey = Some (RString t)"
        "r' = r(backupLockKey \<mapsto> (RString t, Some (now + lease_ms)))" "res = Inr True \<or> (\<exists>e. res = Inl e)"
proof (cases "rget now r backupLockKey = Some (RString t) \<and> (\<forall>e. f \<noteq> Unreached e)")
  case True
  have "r' = r(backupLockKey \<mapsto> (RString t, Some (now + lease_ms))) \<and> (res = Inr True \<or> (\<exists>e. res = Inl e))"
    using assms True by (cases f) (auto simp: Renew_def renewScript_def cmp_pexpire_def set_px_def rpc_def)
  then show ?thesis using renewed True by blast
next
  case False
  then show ?thesis
    using assms bl.extend_other[of now r "RString t"]
    by (intro kept) (cases f; auto simp: Renew_def renewScript_def rpc_def)+
qed

text \<open>The four effects a call of \<^verbatim>\<open>trigger\<close> can have on the lock and the goroutines.\<close>

lemma trigger_cases:
  assumes "trigger e kind day r c = (r', c', err)"
  obtains (kept) "r' backupLockKey = r backupLockKey" "c_runs c' = c_runs c" "c_cancel c' = c_cancel c" "err \<noteq> None"
    | (orphan) "rget (te_now e) r backupLockKey = None" "c_runs c' = c_runs c" "err \<noteq> None"
        "r' backupLockKey = Some (RString (te_token e), Some (te_now e + lease_ms))"
    | (undone) "rget (te_now e) r backupLockKey = None" "c_runs c' = c_runs c" "err \<noteq> None"
        "r' backupLockKey = None"
    | (started) "rget (te_now e) r backupLockKey = None" "err = None"
        "c_runs c' = started_run (te_token e) day (te_now e) # c_runs c"
        "r' backupLockKey = Some (RString (te_token e), Some (te_now e + lease_ms))"
        "c_cancel c' = Some (te_token e)" "\<not> c_stopping c" "c_configError c = ''''" "te_enabled e"
proof (cases "c_stopping c \<or> \<not> te_enabled e \<or> c_configError c \<noteq> '''' \<or> te_validate e \<noteq> None
    \<or> st_State (c_status c) = StateRunning")
  case True
  with assms show ?thesis
    by (intro kept) (cases "te_validate e"; auto simp: trigger_def split: if_splits)+
next
  case go: False
  obtain r1 res where tl: "TryLock (te_now e) (te_lock e) (te_token e) lease_ms r = (r1, res)"
    by fastforce
  obtain r2 sv where sv: "Save (te_save e) (running_status kind (te_now e)) r1 = (r2, sv)" by fastforce
  have r2: "r2 backupLockKey = r1 backupLockKey" using Save_lock sv by (metis fst_conv)
  have rg2: "rget now r2 backupLockKey = rget now r1 backupLockKey" for now
    using r2 by (rule rget_cong)
  define r3 where "r3 = fst (Unlock (te_now e) (te_unlock e) (te_token e) r2)"
  have eqn: "(r', c', err) = (case res of Inl x \<Rightarrow> (r1, c, Some (ErrOther x))
      | Inr False \<Rightarrow> (r1, c, Some ErrAlreadyRunning)
      | Inr True \<Rightarrow> (case sv of
          Inl x \<Rightarrow> (r3, c\<lparr>c_cancel := None, c_done := None, c_status := blank_status True StateIdle\<rparr>, Some (ErrOther x))
        | Inr _ \<Rightarrow> (r2, c\<lparr>c_cancel := Some (te_token e), c_done := Some (te_token e),
                        c_status := running_status kind (te_now e),
                        c_runs := started_run (te_token e) day (te_now e) # c_runs c\<rparr>, None)))"
    using assms go by (simp add: trigger_def tl sv r3_def split: sum.splits bool.splits option.splits)
  from tl show ?thesis
  proof (cases rule: TryLock_cases)
    case k: kept
    with eqn show ?thesis by (intro kept) (auto split: sum.splits bool.splits)
  next
    case t: taken
    then have lk: "r2 backupLockKey = Some (RString (te_token e), Some (te_now e + lease_ms))"
      using r2 by simp
    show ?thesis
    proof (cases res)
      case (Inl x)
      with eqn t show ?thesis by (intro orphan) auto
    next
      case (Inr b)
      with t have res: "res = Inr True" by auto
      show ?thesis
      proof (cases sv)
        case (Inl x)
        then have "r' = r3" "c_runs c' = c_runs c" "err \<noteq> None" using eqn res by auto
        then show ?thesis
          using Unlock_lock[of "te_now e" "te_unlock e" "te_token e" r2] lk t(1) orphan undone
          unfolding r3_def by metis
      next
        case (Inr u)
        with eqn res have "r' = r2" "err = None"
          "c_runs c' = started_run (te_token e) day (te_now e) # c_runs c" "c_cancel c' = Some (te_token e)"
          by auto
        with lk t(1) go show ?thesis by (intro started) auto
      qed
    qed
  qed
qed

subsection \<open>The lock belongs to the run whose lease has not passed\<close>

abbreviation runs_of :: "cluster \<Rightarrow> nat \<Rightarrow> backup_run set" where
  "runs_of w i \<equiv> set (c_runs (w_coord w i))"

definition tokens_ok :: "cluster \<Rightarrow> bool" where
  "tokens_ok w \<longleftrightarrow>
     (\<forall>i x. x \<in> runs_of w i \<longrightarrow> r_token x \<in> w_tokens w)
     \<and> (\<forall>i j x y. x \<in> runs_of w i \<longrightarrow> y \<in> runs_of w j \<longrightarrow> r_token x = r_token y \<longrightarrow> i = j \<and> x = y)
     \<and> (\<forall>t e. w_redis w backupLockKey = Some (RString t, e) \<longrightarrow> t \<in> w_tokens w)"

definition holds_lease :: "cluster \<Rightarrow> backup_run \<Rightarrow> bool" where
  "holds_lease w x \<longleftrightarrow> r_phase x \<noteq> Closed \<and> w_now w < r_lease x"

definition lease_ok :: "cluster \<Rightarrow> bool" where
  "lease_ok w \<longleftrightarrow>
     (\<forall>i x. x \<in> runs_of w i \<longrightarrow> r_lease x \<le> w_now w + lease_ms)
     \<and> (\<forall>i x. x \<in> runs_of w i \<longrightarrow> holds_lease w x \<longrightarrow>
          (\<exists>e. w_redis w backupLockKey = Some (RString (r_token x), Some e) \<and> r_lease x \<le> e))"

definition cluster_inv :: "cluster \<Rightarrow> bool" where
  "cluster_inv w \<longleftrightarrow> tokens_ok w \<and> lease_ok w"

lemma holder_lock:
  assumes "cluster_inv w" "x \<in> runs_of w i" "holds_lease w x"
  shows "rget (w_now w) (w_redis w) backupLockKey = Some (RString (r_token x))"
proof -
  obtain e where "w_redis w backupLockKey = Some (RString (r_token x), Some e)" "r_lease x \<le> e"
    using assms unfolding cluster_inv_def lease_ok_def by blast
  with assms(3) show ?thesis by (auto simp: rget_def holds_lease_def)
qed

text \<open>A step that maps the goroutines of one process and does not give any of them a new lease.\<close>

definition tame :: "(backup_run \<Rightarrow> backup_run) \<Rightarrow> bool" where
  "tame g \<longleftrightarrow> (\<forall>x. r_token (g x) = r_token x \<and> r_lease (g x) = r_lease x
     \<and> (r_phase x = Closed \<longrightarrow> r_phase (g x) = Closed))"

lemma tame_id [simp]: "tame (\<lambda>x. x)" by (simp add: tame_def)

lemma on_run_runs: "c_runs (on_run t f c) = map (\<lambda>x. if r_token x = t then f x else x) (c_runs c)"
  by (simp add: on_run_def)

lemma put_simps [simp]:
  "w_now (put i rc w) = w_now w" "w_redis (put i rc w) = fst rc" "w_tokens (put i rc w) = w_tokens w"
  "w_coord (put i rc w) = (w_coord w)(i := snd rc)" "w_loads (put i rc w) = w_loads w"
  by (simp_all add: put_def)

text \<open>The origin of a goroutine after such a step.\<close>

lemma origin:
  assumes "c_runs c' = map g (c_runs (w_coord w i)) \<or> c_runs c' = []" and "x \<in> runs_of (put i (r', c') w) j"
  shows "\<exists>x0. x0 \<in> runs_of w j \<and> x = (if j = i then g x0 else x0)"
  using assms by (auto split: if_splits)

lemma map_tokens:
  assumes inv: "tokens_ok w" and g: "\<And>x. r_token (g x) = r_token x"
    and runs: "c_runs c' = map g (c_runs (w_coord w i)) \<or> c_runs c' = []"
    and sub: "w_tokens w \<subseteq> T"
    and lock: "\<And>t e. r' backupLockKey = Some (RString t, e) \<Longrightarrow> w_redis w backupLockKey = Some (RString t, e) \<or> t \<in> T"
  shows "tokens_ok ((put i (r', c') w)\<lparr>w_tokens := T\<rparr>)"
proof -
  define w' where "w' = (put i (r', c') w)\<lparr>w_tokens := T\<rparr>"
  have or: "\<exists>x0. x0 \<in> runs_of w j \<and> x = (if j = i then g x0 else x0)" if "x \<in> runs_of w' j" for x j
    by (rule origin[OF runs, of x r' j]) (use that in \<open>simp add: w'_def\<close>)
  have tk: "r_token (if j = i then g x0 else x0) = r_token x0" for j x0 using g by simp
  have "r_token x \<in> T" if "x \<in> runs_of w' j" for x j
    using or[OF that] tk inv sub unfolding tokens_ok_def by fastforce
  moreover have "j = k \<and> x = y"
    if x: "x \<in> runs_of w' j" and y: "y \<in> runs_of w' k" and eq: "r_token x = r_token y" for x y j k
  proof -
    obtain x0 where x0: "x0 \<in> runs_of w j" "x = (if j = i then g x0 else x0)" using or[OF x] by blast
    obtain y0 where y0: "y0 \<in> runs_of w k" "y = (if k = i then g y0 else y0)" using or[OF y] by blast
    have "r_token x0 = r_token y0" using eq unfolding x0(2) y0(2) tk .
    then have "j = k \<and> x0 = y0" using inv x0(1) y0(1) unfolding tokens_ok_def by blast
    then show ?thesis using x0(2) y0(2) by simp
  qed
  moreover have "t \<in> T" if "r' backupLockKey = Some (RString t, e)" for t e
    using lock[OF that] inv sub unfolding tokens_ok_def by blast
  moreover have "w_redis w' = r'" "w_tokens w' = T" by (simp_all add: w'_def)
  ultimately have "tokens_ok w'" unfolding tokens_ok_def by metis
  then show ?thesis by (simp add: w'_def)
qed

lemma tame_runs:
  assumes inv: "cluster_inv w" and g: "tame g"
    and runs: "c_runs c' = map g (c_runs (w_coord w i)) \<or> c_runs c' = []"
    and sub: "w_tokens w \<subseteq> T"
    and lock: "r' backupLockKey = w_redis w backupLockKey
      \<or> r' backupLockKey = None \<and> (\<forall>j x. x \<in> runs_of (put i (r', c') w) j \<longrightarrow> \<not> holds_lease w x)
      \<or> (\<exists>t e. r' backupLockKey = Some (RString t, Some e) \<and> t \<in> T
          \<and> (\<forall>j x. x \<in> runs_of (put i (r', c') w) j \<longrightarrow> holds_lease w x \<longrightarrow> r_token x = t \<and> r_lease x \<le> e))"
  shows "cluster_inv ((put i (r', c') w)\<lparr>w_tokens := T\<rparr>)"
proof -
  define w' where "w' = (put i (r', c') w)\<lparr>w_tokens := T\<rparr>"
  have or: "\<exists>x0. x0 \<in> runs_of w j \<and> x = (if j = i then g x0 else x0)" if "x \<in> runs_of w' j" for x j
    by (rule origin[OF runs, of x r' j]) (use that in \<open>simp add: w'_def\<close>)
  have tk: "r_token (if j = i then g x0 else x0) = r_token x0"
    and ls: "r_lease (if j = i then g x0 else x0) = r_lease x0"
    and hl: "holds_lease w (if j = i then g x0 else x0) \<Longrightarrow> holds_lease w x0" for j x0
    using g by (cases "j = i"; auto simp: tame_def holds_lease_def)+
  have l1: "r_lease x \<le> w_now w + lease_ms" if x: "x \<in> runs_of w' j" for x j
    using or[OF x] ls inv unfolding cluster_inv_def lease_ok_def by fastforce
  have l2: "\<exists>e. r' backupLockKey = Some (RString (r_token x), Some e) \<and> r_lease x \<le> e"
    if x: "x \<in> runs_of w' j" and h: "holds_lease w x" for x j
  proof -
    obtain x0 where x0: "x0 \<in> runs_of w j" "x = (if j = i then g x0 else x0)" using or[OF x] by blast
    have "holds_lease w x0" using h hl[of j x0] x0(2) by simp
    then have "\<exists>e. w_redis w backupLockKey = Some (RString (r_token x0), Some e) \<and> r_lease x0 \<le> e"
      using inv x0(1) unfolding cluster_inv_def lease_ok_def by blast
    then have old: "\<exists>e. w_redis w backupLockKey = Some (RString (r_token x), Some e) \<and> r_lease x \<le> e"
      using tk[of j x0] ls[of j x0] x0(2) by simp
    have x': "x \<in> runs_of (put i (r', c') w) j" using x unfolding w'_def by simp
    from lock show ?thesis
    proof (elim disjE)
      assume "r' backupLockKey = w_redis w backupLockKey"
      then show ?thesis using old by simp
    next
      assume "r' backupLockKey = None \<and> (\<forall>j x. x \<in> runs_of (put i (r', c') w) j \<longrightarrow> \<not> holds_lease w x)"
      then show ?thesis using x' h by blast
    next
      assume "\<exists>t e. r' backupLockKey = Some (RString t, Some e) \<and> t \<in> T
          \<and> (\<forall>j x. x \<in> runs_of (put i (r', c') w) j \<longrightarrow> holds_lease w x \<longrightarrow> r_token x = t \<and> r_lease x \<le> e)"
      then show ?thesis using x' h by blast
    qed
  qed
  have "tokens_ok w'"
    unfolding w'_def using inv g runs sub lock
    by (intro map_tokens) (auto simp: cluster_inv_def tame_def)
  moreover have "w_now w' = w_now w" "w_redis w' = r'" by (simp_all add: w'_def)
  moreover have "holds_lease w' x = holds_lease w x" for x by (simp add: w'_def holds_lease_def)
  ultimately have "cluster_inv w'"
    unfolding cluster_inv_def lease_ok_def using l1 l2 by metis
  then show ?thesis by (simp add: w'_def)
qed

definition trigger_effect ::
  "int \<Rightarrow> token \<Rightarrow> bredis \<Rightarrow> Coordinator \<Rightarrow> bredis \<Rightarrow> Coordinator \<Rightarrow> bool" where
  "trigger_effect now t r c r' c' \<longleftrightarrow>
     r' backupLockKey = r backupLockKey \<and> c_runs c' = c_runs c \<and> c_cancel c' = c_cancel c
   \<or> rget now r backupLockKey = None \<and> c_runs c' = c_runs c
       \<and> (r' backupLockKey = None \<or> r' backupLockKey = Some (RString t, Some (now + lease_ms)))
   \<or> rget now r backupLockKey = None \<and> (\<exists>day. c_runs c' = started_run t day now # c_runs c)
       \<and> r' backupLockKey = Some (RString t, Some (now + lease_ms)) \<and> c_cancel c' = Some t"

lemma trigger_effect:
  assumes "trigger e kind day r c = (r', c', err)"
  shows "trigger_effect (te_now e) (te_token e) r c r' c'"
  using assms by (cases rule: trigger_cases) (auto simp: trigger_effect_def)

lemma trigger_effect_cong:
  "trigger_effect now t r1 c r2 c' \<Longrightarrow> r1 backupLockKey = r backupLockKey
   \<Longrightarrow> r2 backupLockKey = r' backupLockKey \<Longrightarrow> trigger_effect now t r c r' c'"
  unfolding trigger_effect_def using rget_cong[of r1 backupLockKey r now] by simp

lemma trigger_effect_refl: "r' backupLockKey = r backupLockKey \<Longrightarrow> trigger_effect now t r c r' c"
  by (simp add: trigger_effect_def)

lemma scheduled_effect:
  assumes "RunScheduled sh now e r c = (r', c')" and now: "te_now (se_trigger e) = now"
  shows "trigger_effect now (te_token (se_trigger e)) r c r' c'"
proof -
  obtain r1 cl where cl: "ClaimDay now (se_claim e) (local_day sh now) lease_ms r = (r1, cl)" by fastforce
  obtain r2 c2 err where tr: "trigger (se_trigger e) TriggerScheduled (local_day sh now) r1 c = (r2, c2, err)"
    by (metis prod_cases3)
  have l1: "r1 backupLockKey = r backupLockKey" using ClaimDay_lock cl by (metis fst_conv)
  have eff: "trigger_effect now (te_token (se_trigger e)) r1 c r2 c2"
    using trigger_effect[OF tr] now by simp
  have "(r', c') = (r, c) \<or> (r', c') = (r1, c) \<or> (r', c') = (r2, c2)
      \<or> (r', c') = (fst (ReleaseDay (se_release e) (local_day sh now) r2), c2)"
    using assms(1) by (auto simp: RunScheduled_def cl tr split: if_splits option.splits sum.splits bool.splits)
  then show ?thesis
    using trigger_effect_cong[where r = r and ?r1.0 = r1 and ?r2.0 = r2 and r' = r', OF eff l1] trigger_effect_refl[of r' r now _ c] l1
      ReleaseDay_lock[of "se_release e" "local_day sh now" r2] by auto
qed

lemma started_inv:
  assumes inv: "cluster_inv w" and fresh: "t \<notin> w_tokens w"
    and free: "rget (w_now w) (w_redis w) backupLockKey = None"
    and runs: "c_runs c' = started_run t day (w_now w) # c_runs (w_coord w i)"
    and lock: "r' backupLockKey = Some (RString t, Some (w_now w + lease_ms))"
  shows "cluster_inv ((put i (r', c') w)\<lparr>w_tokens := insert t (w_tokens w)\<rparr>)"
proof -
  let ?n = "started_run t day (w_now w)"
  have nobody: "\<not> holds_lease w x" if "x \<in> runs_of w j" for x j
    using holder_lock[OF inv that] free by auto
  have n: "r_token ?n = t" "r_lease ?n = w_now w + lease_ms" by (simp_all add: started_run_def)
  define w' where "w' = (put i (r', c') w)\<lparr>w_tokens := insert t (w_tokens w)\<rparr>"
  have mem: "x \<in> runs_of w' j \<Longrightarrow> x \<in> runs_of w j \<or> j = i \<and> x = ?n" for x j
    using runs unfolding w'_def by (auto split: if_splits)
  have old: "r_token x \<in> w_tokens w" "r_token x \<noteq> t" if "x \<in> runs_of w j" for x j
    using inv that fresh unfolding cluster_inv_def tokens_ok_def by auto
  have "tokens_ok w'"
  proof -
    have "r_token x \<in> insert t (w_tokens w)" if "x \<in> runs_of w' j" for x j
      using mem[OF that] old n by blast
    moreover have "j = k \<and> x = y"
      if x: "x \<in> runs_of w' j" and y: "y \<in> runs_of w' k" and eq: "r_token x = r_token y" for x y j k
    proof (cases "x \<in> runs_of w j \<and> y \<in> runs_of w k")
      case True
      then show ?thesis using inv eq unfolding cluster_inv_def tokens_ok_def by blast
    next
      case False
      then have "x = ?n \<and> j = i \<or> y = ?n \<and> k = i" using mem[OF x] mem[OF y] by blast
      moreover have "r_token x = t \<Longrightarrow> x = ?n \<and> j = i" using mem[OF x] old(2) by blast
      moreover have "r_token y = t \<Longrightarrow> y = ?n \<and> k = i" using mem[OF y] old(2) by blast
      ultimately show ?thesis using eq n(1) by metis
    qed
    moreover have "u \<in> insert t (w_tokens w)" if "r' backupLockKey = Some (RString u, e)" for u e
      using that lock by simp
    moreover have "w_redis w' = r'" "w_tokens w' = insert t (w_tokens w)" by (simp_all add: w'_def)
    ultimately show ?thesis unfolding tokens_ok_def by metis
  qed
  moreover have "lease_ok w'"
  proof -
    have "r_lease x \<le> w_now w + lease_ms" if "x \<in> runs_of w' j" for x j
      using mem[OF that] n inv unfolding cluster_inv_def lease_ok_def by auto
    moreover have "\<exists>e. r' backupLockKey = Some (RString (r_token x), Some e) \<and> r_lease x \<le> e"
      if "x \<in> runs_of w' j" "holds_lease w' x" for x j
    proof -
      have "holds_lease w x" using that(2) by (simp add: w'_def holds_lease_def)
      then have "x = ?n" using mem[OF that(1)] nobody by blast
      then show ?thesis using lock n by simp
    qed
    moreover have "w_redis w' = r'" "w_now w' = w_now w" by (simp_all add: w'_def)
    ultimately show ?thesis unfolding lease_ok_def by metis
  qed
  ultimately show ?thesis by (simp add: cluster_inv_def w'_def)
qed

lemma trigger_effect_inv:
  assumes inv: "cluster_inv w" and fresh: "t \<notin> w_tokens w"
    and eff: "trigger_effect (w_now w) t (w_redis w) (w_coord w i) r' c'"
  shows "cluster_inv ((put i (r', c') w)\<lparr>w_tokens := insert t (w_tokens w)\<rparr>)"
proof (cases "c_runs c' = c_runs (w_coord w i)")
  case True
  then have runs: "c_runs c' = map (\<lambda>x. x) (c_runs (w_coord w i)) \<or> c_runs c' = []" by simp
  have same: "runs_of (put i (r', c') w) j = runs_of w j" for j using True by simp
  have "\<not> holds_lease w x" if "rget (w_now w) (w_redis w) backupLockKey = None" "x \<in> runs_of w j" for x j
    using holder_lock[OF inv that(2)] that(1) by auto
  then have "r' backupLockKey = w_redis w backupLockKey
      \<or> r' backupLockKey = None \<and> (\<forall>j x. x \<in> runs_of (put i (r', c') w) j \<longrightarrow> \<not> holds_lease w x)
      \<or> (\<exists>u e. r' backupLockKey = Some (RString u, Some e) \<and> u \<in> insert t (w_tokens w)
          \<and> (\<forall>j x. x \<in> runs_of (put i (r', c') w) j \<longrightarrow> holds_lease w x \<longrightarrow> r_token x = u \<and> r_lease x \<le> e))"
    using eff unfolding same trigger_effect_def True by auto
  from tame_runs[OF inv tame_id runs _ this] show ?thesis by blast
next
  case False
  then show ?thesis using eff started_inv[OF inv fresh] unfolding trigger_effect_def by auto
qed

lemma tame_same_lock:
  assumes "cluster_inv w" "tame g" "c_runs c' = map g (c_runs (w_coord w i)) \<or> c_runs c' = []"
    and "r' backupLockKey = w_redis w backupLockKey"
  shows "cluster_inv (put i (r', c') w)"
proof -
  have e: "(put i (r', c') w)\<lparr>w_tokens := w_tokens w\<rparr> = put i (r', c') w" by (simp add: put_def)
  have "cluster_inv ((put i (r', c') w)\<lparr>w_tokens := w_tokens w\<rparr>)"
    by (rule tame_runs[OF assms(1,2,3)]) (simp_all add: assms(4))
  then show ?thesis by (simp only: e)
qed

text \<open>Every coordinator method maps the goroutines of its process.\<close>

definition on_map :: "token \<Rightarrow> (backup_run \<Rightarrow> backup_run) \<Rightarrow> backup_run \<Rightarrow> backup_run" where
  "on_map t f x = (if r_token x = t then f x else x)"

lemma on_run_map: "c_runs (on_run t f c) = map (on_map t f) (c_runs c)"
  by (simp add: on_run_def on_map_def)

lemma tame_on_map:
  "(\<And>x. r_token (f x) = r_token x \<and> r_lease (f x) = r_lease x \<and> (r_phase x = Closed \<longrightarrow> r_phase (f x) = Closed))
   \<Longrightarrow> tame (on_map t f)"
  by (simp add: tame_def on_map_def)

lemma tame_comp: "tame f \<Longrightarrow> tame g \<Longrightarrow> tame (f \<circ> g)"
  by (simp add: tame_def)

lemma call_cancel_runs: "\<exists>g. tame g \<and> c_runs (call_cancel c) = map g (c_runs c)"
proof (cases "c_cancel c")
  case None
  then show ?thesis by (intro exI[of _ "\<lambda>x. x"]) (simp add: call_cancel_def)
next
  case (Some t)
  then show ?thesis
    by (intro exI[of _ "on_map t (\<lambda>y. y\<lparr>r_cancelled := True\<rparr>)"])
       (simp add: call_cancel_def on_run_map tame_on_map)
qed

lemma failed_renew_runs:
  "\<exists>g. tame g \<and> c_runs (call_cancel (on_run t (\<lambda>y. y\<lparr>r_renewing := False, r_stop := now\<rparr>) c)) = map g (c_runs c)"
proof -
  let ?f = "on_map t (\<lambda>y. y\<lparr>r_renewing := False, r_stop := now\<rparr>)"
  obtain g where "tame g" "c_runs (call_cancel (on_run t (\<lambda>y. y\<lparr>r_renewing := False, r_stop := now\<rparr>) c))
      = map g (map ?f (c_runs c))"
    using call_cancel_runs by (metis on_run_map)
  moreover have "tame (g \<circ> ?f)" using calculation(1) by (intro tame_comp tame_on_map) auto
  ultimately show ?thesis by (metis List.map.compositionality)
qed

lemma renewed_inv:
  assumes inv: "cluster_inv w" and mine: "rget (w_now w) (w_redis w) backupLockKey = Some (RString t)"
    and lock: "r' backupLockKey = Some (RString t, Some (w_now w + lease_ms))"
  shows "cluster_inv (put i (r', on_run t (\<lambda>y. y\<lparr>r_lease := w_now w + lease_ms, r_due := d\<rparr>) (w_coord w i)) w)"
proof -
  let ?g = "on_map t (\<lambda>y. y\<lparr>r_lease := w_now w + lease_ms, r_due := d\<rparr>)"
  define c' where "c' = on_run t (\<lambda>y. y\<lparr>r_lease := w_now w + lease_ms, r_due := d\<rparr>) (w_coord w i)"
  have runs: "c_runs c' = map ?g (c_runs (w_coord w i)) \<or> c_runs c' = []"
    unfolding c'_def on_run_map by simp
  have tk: "r_token (?g x) = r_token x" for x by (simp add: on_map_def)
  define w' where "w' = put i (r', c') w"
  obtain e where "w_redis w backupLockKey = Some (RString t, e)"
    using mine unfolding rget_live by (elim exE conjE)
  then have t: "t \<in> w_tokens w" using inv unfolding cluster_inv_def tokens_ok_def by blast
  have e: "(put i (r', c') w)\<lparr>w_tokens := w_tokens w\<rparr> = w'" by (simp add: put_def w'_def)
  have tok: "tokens_ok w'"
    unfolding e[symmetric] using inv tk runs t lock
    by (intro map_tokens) (auto simp: cluster_inv_def)
  have or: "\<exists>x0. x0 \<in> runs_of w j \<and> x = (if j = i then ?g x0 else x0)" if "x \<in> runs_of w' j" for x j
    by (rule origin[OF runs, of x r' j]) (use that in \<open>simp add: w'_def\<close>)
  have new: "r_lease x \<le> w_now w + lease_ms \<and> (holds_lease w x \<longrightarrow> r_token x = t)"
    if x: "x \<in> runs_of w' j" for x j
  proof -
    obtain x0 where x0: "x0 \<in> runs_of w j" "x = (if j = i then ?g x0 else x0)" using or[OF x] by blast
    have "r_lease x0 \<le> w_now w + lease_ms" using inv x0(1) unfolding cluster_inv_def lease_ok_def by blast
    moreover have "holds_lease w x0 \<Longrightarrow> r_token x0 = t" using holder_lock[OF inv x0(1)] mine by simp
    ultimately show ?thesis unfolding x0(2) on_map_def by (cases "j = i"; cases "r_token x0 = t") auto
  qed
  have "holds_lease w' x = holds_lease w x" for x by (simp add: w'_def holds_lease_def)
  then have "lease_ok w'" unfolding lease_ok_def using new lock by (simp add: w'_def)
  then show ?thesis using tok by (simp add: cluster_inv_def w'_def c'_def)
qed

lemma renew_tick_inv:
  assumes inv: "cluster_inv w"
  shows "cluster_inv (put i (renew_tick (w_now w) f t (w_redis w) (w_coord w i)) w)"
proof -
  obtain r' res where rn: "Renew (w_now w) f t lease_ms (w_redis w) = (r', res)" by fastforce
  define bad where "bad = call_cancel (on_run t (\<lambda>y. y\<lparr>r_renewing := False, r_stop := w_now w\<rparr>) (w_coord w i))"
  obtain g where g: "tame g" "c_runs bad = map g (c_runs (w_coord w i)) \<or> c_runs bad = []"
    using failed_renew_runs unfolding bad_def by metis
  have tk: "renew_tick (w_now w) f t (w_redis w) (w_coord w i) =
     (if res = Inr True then (r', on_run t (\<lambda>y. y\<lparr>r_lease := w_now w + lease_ms,
        r_due := w_now w + renewEvery_ms\<rparr>) (w_coord w i)) else (r', bad))"
    by (auto simp: renew_tick_def rn bad_def split: sum.split bool.split)
  from rn show ?thesis
  proof (cases rule: Renew_cases)
    case kept
    then show ?thesis using tame_same_lock[OF inv g] tk by simp
  next
    case r: renewed
    then have lock: "r' backupLockKey = Some (RString t, Some (w_now w + lease_ms))" by simp
    show ?thesis
    proof (cases "res = Inr True")
      case True
      then show ?thesis using renewed_inv[where r' = r', OF inv r(1) lock] tk by simp
    next
      case False
      have "r_token x = t \<and> r_lease x \<le> w_now w + lease_ms"
        if x: "x \<in> runs_of (put i (r', bad) w) j" and h: "holds_lease w x" for x j
      proof -
        obtain x0 where x0: "x0 \<in> runs_of w j" "x = (if j = i then g x0 else x0)"
          using origin[OF g(2) x] by blast
        then have "r_token x = r_token x0" "r_lease x = r_lease x0" "holds_lease w x0"
          using g(1) h by (cases "j = i"; auto simp: tame_def holds_lease_def)+
        then show ?thesis
          using holder_lock[OF inv x0(1)] r(1) inv x0(1) unfolding cluster_inv_def lease_ok_def by simp
      qed
      moreover have "t \<in> w_tokens w"
      proof -
        obtain e where "w_redis w backupLockKey = Some (RString t, e)"
          using r(1) unfolding rget_live by (elim exE conjE)
        then show ?thesis using inv unfolding cluster_inv_def tokens_ok_def by blast
      qed
      ultimately have "cluster_inv ((put i (r', bad) w)\<lparr>w_tokens := w_tokens w\<rparr>)"
        using lock by (intro tame_runs[OF inv g]) auto
      moreover have "(put i (r', bad) w)\<lparr>w_tokens := w_tokens w\<rparr> = put i (r', bad) w" by (simp add: put_def)
      ultimately show ?thesis using tk False by simp
    qed
  qed
qed

text \<open>\<open>run_return\<close>, \<open>run_status\<close> and \<open>run_save\<close> move a goroutine that is not closed; \<open>run_unlock\<close>
  closes it.\<close>

lemma on_run_inv:
  assumes inv: "cluster_inv w" and x: "x \<in> runs_of w i" and ph: "r_phase x \<noteq> Closed"
    and runs: "c_runs c' = c_runs (on_run (r_token x) f (w_coord w i))"
    and f: "\<And>y. r_token (f y) = r_token y \<and> r_lease (f y) = r_lease y"
    and lock: "r' backupLockKey = w_redis w backupLockKey"
  shows "cluster_inv (put i (r', c') w)"
proof -
  have same: "y = x" if "y \<in> runs_of w i" "r_token y = r_token x" for y
    using inv x that unfolding cluster_inv_def tokens_ok_def by blast
  let ?h = "\<lambda>y. if y = x then f x else y"
  have "c_runs c' = map ?h (c_runs (w_coord w i))"
    unfolding runs on_run_def using same by auto
  moreover have "tame ?h" using f ph by (simp add: tame_def)
  ultimately show ?thesis using inv lock by (intro tame_same_lock[where g = ?h]) auto
qed

lemma run_return_inv:
  assumes "cluster_inv w" "x \<in> runs_of w i" "r_phase x = Running"
  shows "cluster_inv (put i (run_return (w_now w) f res x (w_redis w) (w_coord w i)) w)"
  unfolding run_return_def Let_def
  by (rule on_run_inv[OF assms(1,2), of _ "\<lambda>y. y\<lparr>r_phase := DaySettled res, r_renewing := False,
        r_stop := (if r_renewing y then w_now w else r_stop y)\<rparr>"])
     (auto simp: assms(3) lock_frame split: sum.split)

lemma run_status_inv:
  assumes "cluster_inv w" "x \<in> runs_of w i" "r_phase x = DaySettled res"
  shows "cluster_inv (put i (w_redis w, run_status (w_now w) res x (w_coord w i)) w)"
  unfolding run_status_def Let_def
  by (rule on_run_inv[OF assms(1,2), of _ "\<lambda>y. y\<lparr>r_phase := StatusSet (final_status (w_now w) res (c_status (w_coord w i)))\<rparr>"])
     (auto simp: assms(3) on_run_def)

lemma run_save_inv:
  assumes "cluster_inv w" "x \<in> runs_of w i" "r_phase x = StatusSet s"
  shows "cluster_inv (put i (run_save f s x (w_redis w) (w_coord w i)) w)"
  unfolding run_save_def
  by (rule on_run_inv[OF assms(1,2), of _ "\<lambda>y. y\<lparr>r_phase := Saved\<rparr>"]) (auto simp: assms(3) lock_frame)

lemma run_unlock_inv:
  assumes inv: "cluster_inv w" and x: "x \<in> runs_of w i"
  shows "cluster_inv (put i (run_unlock (w_now w) f x (w_redis w) (w_coord w i)) w)"
proof -
  let ?g = "on_map (r_token x) (\<lambda>y. y\<lparr>r_phase := Closed\<rparr>)"
  define c' where "c' = on_run (r_token x) (\<lambda>y. y\<lparr>r_phase := Closed\<rparr>) (w_coord w i)"
  define r' where "r' = fst (Unlock (w_now w) f (r_token x) (w_redis w))"
  have g: "tame ?g" by (simp add: tame_on_map)
  have runs: "c_runs c' = map ?g (c_runs (w_coord w i)) \<or> c_runs c' = []"
    unfolding c'_def on_run_map by simp
  have nobody: "\<not> holds_lease w y"
    if mine: "rget (w_now w) (w_redis w) backupLockKey = Some (RString (r_token x))"
      and y: "y \<in> runs_of (put i (r', c') w) j" for y j
  proof
    assume h: "holds_lease w y"
    obtain y0 where y0: "y0 \<in> runs_of w j" "y = (if j = i then ?g y0 else y0)"
      using origin[OF runs y] by blast
    then have "holds_lease w y0" using h by (cases "j = i") (auto simp: holds_lease_def on_map_def split: if_splits)
    then have "r_token y0 = r_token x" using holder_lock[OF inv y0(1)] mine by simp
    then have "j = i" "y0 = x" using inv y0(1) x unfolding cluster_inv_def tokens_ok_def by blast+
    then show False using h y0(2) by (simp add: holds_lease_def on_map_def)
  qed
  have e: "(put i (r', c') w)\<lparr>w_tokens := w_tokens w\<rparr> = put i (r', c') w" by (simp add: put_def)
  have "r' backupLockKey = w_redis w backupLockKey
      \<or> r' backupLockKey = None \<and> (\<forall>j y. y \<in> runs_of (put i (r', c') w) j \<longrightarrow> \<not> holds_lease w y)"
    using Unlock_lock[of "w_now w" f "r_token x" "w_redis w"] nobody unfolding r'_def by blast
  then have "cluster_inv ((put i (r', c') w)\<lparr>w_tokens := w_tokens w\<rparr>)"
    by (intro tame_runs[OF inv g runs]) blast+
  then show ?thesis by (simp only: e) (simp add: run_unlock_def r'_def c'_def)
qed

lemma cluster_inv_frame:
  "cluster_inv w \<Longrightarrow> cluster_inv (w\<lparr>w_loads := l\<rparr>)"
  by (simp add: cluster_inv_def tokens_ok_def lease_ok_def holds_lease_def)

lemma tick_inv: "cluster_inv w \<Longrightarrow> 0 < d \<Longrightarrow> cluster_inv (w\<lparr>w_now := w_now w + d\<rparr>)"
  by (fastforce simp: cluster_inv_def tokens_ok_def lease_ok_def holds_lease_def)

lemma cstep_inv: "cstep sh w w' \<Longrightarrow> cluster_inv w \<Longrightarrow> cluster_inv w'"
proof (induction rule: cstep.induct)
  case (tick d w)
  then show ?case by (intro tick_inv)
next
  case (manual e w kind i r' c' err)
  then show ?case
    using trigger_effect_inv[of w "te_token e" i r' c'] trigger_effect[of e kind "''''" "w_redis w" "w_coord w i" r' c' err]
    by (simp add: Trigger_api_def)
next
  case (scheduled e w i)
  obtain r' c' where s: "RunScheduled sh (w_now w) e (w_redis w) (w_coord w i) = (r', c')" by fastforce
  show ?case
    using trigger_effect_inv[OF scheduled(3,1), of i r' c'] scheduled_effect[OF s scheduled(2)] s by simp
next
  case (renew x w i f)
  then show ?case by (intro renew_tick_inv)
next
  case (renew_stop x w i)
  show ?case unfolding renew_exit_def
    by (rule tame_same_lock[OF renew_stop(4), of "on_map (r_token x) (\<lambda>y. y\<lparr>r_renewing := False, r_stop := w_now w\<rparr>)"])
       (auto simp: on_run_map intro!: tame_on_map)
next
  case (return x w i f res)
  then show ?case by (intro run_return_inv)
next
  case (status_set x w i res)
  then show ?case by (intro run_status_inv)
next
  case (save x w i s f)
  then show ?case by (intro run_save_inv)
next
  case (unlock x w i f)
  then show ?case by (intro run_unlock_inv)
next
  case (status_read w en f i s)
  then show ?case by (intro cluster_inv_frame)
next
  case (status_write i s w)
  show ?case
    by (rule tame_same_lock[OF status_write(2) tame_id]) (auto simp: Status_write_def split: option.split)
next
  case (stop w i)
  obtain g where "tame g" "c_runs (fst (Stop_begin (w_coord w i))) = map g (c_runs (w_coord w i))"
    using call_cancel_runs[of "w_coord w i\<lparr>c_stopping := True\<rparr>"] unfolding Stop_begin_def by auto
  then show ?case using stop by (intro tame_same_lock[where g = g]) auto
next
  case (restart w i en cfgErr f g)
  have "cluster_inv (put i (newCoordinatorDynamic (w_now w) en cfgErr f g (w_redis w)) w)"
    using tame_same_lock[OF restart tame_id, of "snd (newCoordinatorDynamic (w_now w) en cfgErr f g (w_redis w))" i
        "fst (newCoordinatorDynamic (w_now w) en cfgErr f g (w_redis w))"]
    by (simp add: restart_runs lock_frame)
  then show ?case by (rule cluster_inv_frame)
qed

lemma quiet_inv: "quiet w \<Longrightarrow> cluster_inv w"
  by (auto simp: quiet_def cluster_inv_def tokens_ok_def lease_ok_def)

lemma reach_inv: "reach sh w \<Longrightarrow> cluster_inv w"
  by (induction rule: reach.induct) (auto intro: quiet_inv cstep_inv)

lemma lease_unique:
  assumes "cluster_inv w" "x \<in> runs_of w i" "y \<in> runs_of w j" "holds_lease w x" "holds_lease w y"
  shows "i = j \<and> x = y"
proof -
  have "r_token x = r_token y"
    using holder_lock[OF assms(1,2,4)] holder_lock[OF assms(1,3,5)] by simp
  then show ?thesis using assms(1-3) unfolding cluster_inv_def tokens_ok_def by blast
qed

subsection \<open>Timely executions\<close>

text \<open>An execution is timely when the renewal goroutine makes its call no later than \<open>renewEvery\<close> after the
  last one and a goroutine whose renewal has stopped (its backup has returned or is cancelled) is over within
  \<open>g\<close> milliseconds.\<close>

definition on_time :: "int \<Rightarrow> cluster \<Rightarrow> bool" where
  "on_time g w \<longleftrightarrow> (\<forall>i x. x \<in> runs_of w i \<longrightarrow> r_phase x \<noteq> Closed \<longrightarrow>
     w_now w \<le> (if r_renewing x then r_due x else r_stop x + g))"

inductive timely :: "(int \<Rightarrow> int) \<Rightarrow> int \<Rightarrow> cluster \<Rightarrow> bool" for sh g where
  start: "quiet w \<Longrightarrow> timely sh g w"
| step: "timely sh g w \<Longrightarrow> cstep sh w w' \<Longrightarrow> on_time g w' \<Longrightarrow> timely sh g w'"

definition well_timed :: "backup_run \<Rightarrow> bool" where
  "well_timed x \<longleftrightarrow> r_lease x = r_due x + (lease_ms - renewEvery_ms)
     \<and> (\<not> r_renewing x \<longrightarrow> r_stop x \<le> r_due x) \<and> (r_renewing x \<longrightarrow> r_phase x = Running)"

definition own_cancel :: "Coordinator \<Rightarrow> bool" where
  "own_cancel c \<longleftrightarrow> (\<forall>x\<in>set (c_runs c). r_phase x = Running \<longrightarrow> c_cancel c = Some (r_token x))"

definition timed_inv :: "cluster \<Rightarrow> bool" where
  "timed_inv w \<longleftrightarrow> (\<forall>i. (\<forall>x\<in>runs_of w i. well_timed x) \<and> own_cancel (w_coord w i))"

lemma open_holds:
  assumes "timed_inv w" "on_time g w" "g < lease_ms - renewEvery_ms" "x \<in> runs_of w i" "r_phase x \<noteq> Closed"
  shows "holds_lease w x"
proof -
  have "well_timed x" using assms(1,4) by (auto simp: timed_inv_def)
  moreover have "w_now w \<le> (if r_renewing x then r_due x else r_stop x + g)"
    using assms(2,4,5) unfolding on_time_def by blast
  ultimately show ?thesis
    using assms(3,5) by (auto simp: well_timed_def holds_lease_def lease_ms_def renewEvery_ms_def split: if_splits)
qed

lemma renewing_due: "on_time g w \<Longrightarrow> x \<in> runs_of w i \<Longrightarrow> well_timed x \<Longrightarrow> r_renewing x \<Longrightarrow> w_now w \<le> r_due x"
  unfolding on_time_def well_timed_def by fastforce

lemma timed_put:
  assumes "timed_inv w" "\<And>x. x \<in> set (c_runs c') \<Longrightarrow> well_timed x" "own_cancel c'"
  shows "timed_inv (put i (r', c') w)" "timed_inv ((put i (r', c') w)\<lparr>w_tokens := T\<rparr>)"
    "timed_inv ((put i (r', c') w)\<lparr>w_loads := l\<rparr>)"
  using assms by (auto simp: timed_inv_def)

text \<open>A step that maps the goroutines, keeps their times and moves none of them back to \<open>Running\<close>.\<close>

lemma timed_map:
  assumes inv: "timed_inv w" and runs: "c_runs c' = map g (c_runs (w_coord w i))"
    and can: "c_cancel c' = c_cancel (w_coord w i)"
    and wt: "\<And>x. x \<in> runs_of w i \<Longrightarrow> well_timed x \<Longrightarrow> well_timed (g x)"
    and tok: "\<And>x. r_token (g x) = r_token x" and ph: "\<And>x. r_phase (g x) = Running \<Longrightarrow> r_phase x = Running"
  shows "timed_inv (put i (r', c') w)"
proof (rule timed_put(1)[OF inv])
  show "well_timed x" if "x \<in> set (c_runs c')" for x
    using that inv wt unfolding runs by (auto simp: timed_inv_def)
  have "c_cancel (w_coord w i) = Some (r_token x)" if "x \<in> runs_of w i" "r_phase x = Running" for x
    using inv that unfolding timed_inv_def own_cancel_def by blast
  then show "own_cancel c'" unfolding own_cancel_def runs can by (auto simp: tok dest!: ph)
qed

lemma cancel_run_simps [simp]:
  "c_cancel (on_run t f c) = c_cancel c" "c_cancel (call_cancel c) = c_cancel c"
  by (simp_all add: on_run_def call_cancel_def split: option.split)

lemma well_timed_cancelled [simp]: "well_timed (y\<lparr>r_cancelled := b\<rparr>) = well_timed y"
  by (simp add: well_timed_def)

lemma call_cancel_map:
  "\<exists>g. c_runs (call_cancel c) = map g (c_runs c) \<and> (\<forall>x. r_token (g x) = r_token x \<and> r_phase (g x) = r_phase x
     \<and> well_timed (g x) = well_timed x)"
proof (cases "c_cancel c")
  case None
  then show ?thesis by (intro exI[of _ "\<lambda>x. x"]) (simp add: call_cancel_def)
next
  case (Some t)
  then show ?thesis
    by (intro exI[of _ "on_map t (\<lambda>y. y\<lparr>r_cancelled := True\<rparr>)"])
       (simp add: call_cancel_def on_run_map, simp add: on_map_def)
qed

lemma stopped_well_timed:
  "well_timed y \<Longrightarrow> now \<le> r_due y \<Longrightarrow> well_timed (y\<lparr>r_renewing := False, r_stop := now\<rparr>)"
  by (simp add: well_timed_def)

lemma same_run: "cluster_inv w \<Longrightarrow> x \<in> runs_of w i \<Longrightarrow> y \<in> runs_of w i \<Longrightarrow> r_token y = r_token x \<Longrightarrow> y = x"
  unfolding cluster_inv_def tokens_ok_def by blast

lemma trigger_effect_timed:
  assumes inv: "cluster_inv w" and ti: "timed_inv w" and op: "\<And>x j. x \<in> runs_of w j \<Longrightarrow> r_phase x \<noteq> Closed \<Longrightarrow> holds_lease w x"
    and eff: "trigger_effect (w_now w) t (w_redis w) (w_coord w i) r' c'"
  shows "timed_inv ((put i (r', c') w)\<lparr>w_tokens := T\<rparr>)"
proof (rule timed_put(2)[OF ti])
  have old: "well_timed x" if "x \<in> runs_of w i" for x using ti that by (simp add: timed_inv_def)
  have free: "r_phase x = Closed" if "rget (w_now w) (w_redis w) backupLockKey = None" "x \<in> runs_of w i" for x
    using holder_lock[OF inv that(2)] op[OF that(2)] that(1) by auto
  have new: "well_timed (started_run t day (w_now w))" for day by (simp add: well_timed_def started_run_def)
  show "well_timed x" if "x \<in> set (c_runs c')" for x
    using eff that old new unfolding trigger_effect_def by auto
  have "c_cancel (w_coord w i) = Some (r_token x)" if "x \<in> runs_of w i" "r_phase x = Running" for x
    using ti that unfolding timed_inv_def own_cancel_def by blast
  moreover have "r_token (started_run t day (w_now w)) = t" for day by (simp add: started_run_def)
  ultimately show "own_cancel c'"
    using eff free unfolding trigger_effect_def own_cancel_def by auto
qed

lemma renew_tick_timed:
  assumes inv: "cluster_inv w" and ti: "timed_inv w" and due: "w_now w \<le> r_due x"
    and x: "x \<in> runs_of w i" and rn: "r_renewing x"
  shows "timed_inv (put i (renew_tick (w_now w) f (r_token x) (w_redis w) (w_coord w i)) w)"
proof -
  define good where "good = on_run (r_token x)
     (\<lambda>y. y\<lparr>r_lease := w_now w + lease_ms, r_due := w_now w + renewEvery_ms\<rparr>) (w_coord w i)"
  define stopped where "stopped = on_run (r_token x) (\<lambda>y. y\<lparr>r_renewing := False, r_stop := w_now w\<rparr>) (w_coord w i)"
  obtain r' res where rn': "Renew (w_now w) f (r_token x) lease_ms (w_redis w) = (r', res)" by fastforce
  have r': "renew_tick (w_now w) f (r_token x) (w_redis w) (w_coord w i) \<in> {(r', good), (r', call_cancel stopped)}"
    by (simp add: renew_tick_def rn' good_def stopped_def split: sum.split bool.split)
  have is_x: "y = x" if "y \<in> runs_of w i" "r_token y = r_token x" for y
    using same_run[OF inv x that(1)] that(2) by simp
  have "timed_inv (put i (r', good) w)"
    by (rule timed_map[OF ti, where g = "on_map (r_token x)
          (\<lambda>y. y\<lparr>r_lease := w_now w + lease_ms, r_due := w_now w + renewEvery_ms\<rparr>)"])
       (use is_x rn in \<open>auto simp: good_def on_run_map on_map_def well_timed_def split: if_splits\<close>)
  moreover have "timed_inv (put i (r', call_cancel stopped) w)"
  proof -
    obtain g where g: "c_runs (call_cancel stopped) = map g (c_runs stopped)"
      "\<And>y. r_token (g y) = r_token y \<and> r_phase (g y) = r_phase y \<and> well_timed (g y) = well_timed y"
      using call_cancel_map by metis
    define h where "h = on_map (r_token x) (\<lambda>y. y\<lparr>r_renewing := False, r_stop := w_now w\<rparr>)"
    have h: "r_token (h y) = r_token y" "r_phase (h y) = r_phase y" for y by (auto simp: h_def on_map_def)
    have "well_timed (h y)" if "y \<in> runs_of w i" "well_timed y" for y
      using is_x[OF that(1)] that(2) due stopped_well_timed[OF that(2)] by (auto simp: h_def on_map_def)
    then show ?thesis
      by (intro timed_map[OF ti, where g = "g \<circ> h"])
         (use g h in \<open>auto simp: stopped_def on_run_map h_def[symmetric]\<close>)
  qed
  ultimately show ?thesis using r' by auto
qed

text \<open>A step of one goroutine that keeps its times in order.\<close>

lemma timed_on_run:
  assumes inv: "cluster_inv w" and ti: "timed_inv w" and x: "x \<in> runs_of w i"
    and runs: "c_runs c' = map (on_map (r_token x) f) (c_runs (w_coord w i))" and can: "c_cancel c' = c_cancel (w_coord w i)"
    and f: "well_timed (f x)" "r_token (f x) = r_token x" "r_phase (f x) = Running \<Longrightarrow> r_phase x = Running"
  shows "timed_inv (put i (r', c') w)"
proof (rule timed_put(1)[OF ti])
  have is_x: "y = x" if "y \<in> runs_of w i" "r_token y = r_token x" for y
    using same_run[OF inv x that(1)] that(2) by simp
  have old: "well_timed y" "r_phase y = Running \<Longrightarrow> c_cancel (w_coord w i) = Some (r_token y)" if "y \<in> runs_of w i" for y
    using ti that unfolding timed_inv_def own_cancel_def by blast+
  show "well_timed y" if "y \<in> set (c_runs c')" for y
    using that is_x old(1) f(1) unfolding runs by (auto simp: on_map_def)
  show "own_cancel c'"
    unfolding own_cancel_def runs can
  proof (intro ballI impI)
    fix y assume "y \<in> set (map (on_map (r_token x) f) (c_runs (w_coord w i)))" and ph: "r_phase y = Running"
    then obtain z where z: "z \<in> runs_of w i" "y = on_map (r_token x) f z" by auto
    show "c_cancel (w_coord w i) = Some (r_token y)"
      using z ph is_x[OF z(1)] old(2)[OF z(1)] old(2)[OF x] f(2,3) by (auto simp: on_map_def split: if_splits)
  qed
qed

text \<open>The step that sets the status clears the cancel function; no other backup of the process is running then.\<close>

lemma run_status_timed:
  assumes inv: "cluster_inv w" and ti: "timed_inv w" and ot: "on_time g w" and g: "g < lease_ms - renewEvery_ms"
    and x: "x \<in> runs_of w i" and ph: "r_phase x = DaySettled res"
  shows "timed_inv (put i (r', run_status (w_now w) res x (w_coord w i)) w)"
proof (rule timed_put(1)[OF ti])
  define s where "s = final_status (w_now w) res (c_status (w_coord w i))"
  have runs: "c_runs (run_status (w_now w) res x (w_coord w i))
      = map (on_map (r_token x) (\<lambda>y. y\<lparr>r_phase := StatusSet s\<rparr>)) (c_runs (w_coord w i))"
    by (simp add: run_status_def Let_def on_run_def on_map_def s_def)
  note op = open_holds[OF ti ot g]
  have is_x: "y = x" if "y \<in> runs_of w i" "r_token y = r_token x" for y
    using same_run[OF inv x that(1)] that(2) by simp
  have wt: "well_timed y" if "y \<in> runs_of w i" for y using ti that by (simp add: timed_inv_def)
  have nx: "\<not> r_renewing x" using wt[OF x] ph by (auto simp: well_timed_def)
  have "y = x" if "y \<in> runs_of w i" "r_phase y = Running" for y
    using lease_unique[OF inv that(1) x] op that x ph by simp
  then show "own_cancel (run_status (w_now w) res x (w_coord w i))"
    unfolding own_cancel_def runs using ph by (auto simp: on_map_def split: if_splits)
  have "well_timed (x\<lparr>r_phase := StatusSet s\<rparr>)" using wt[OF x] nx by (simp add: well_timed_def)
  then show "well_timed y" if "y \<in> set (c_runs (run_status (w_now w) res x (w_coord w i)))" for y
    using that wt is_x unfolding runs by (auto simp: on_map_def)
qed

lemma cstep_timed:
  assumes st: "cstep sh w w'" and inv: "cluster_inv w" and ti: "timed_inv w" and ot: "on_time g w"
    and g: "g < lease_ms - renewEvery_ms"
  shows "timed_inv w'"
proof -
  note op = open_holds[OF ti ot g] and one = timed_on_run[OF inv ti]
  have wt: "well_timed x" if "x \<in> runs_of w i" for x i using ti that by (simp add: timed_inv_def)
  have due: "w_now w \<le> r_due x" if "x \<in> runs_of w i" "r_renewing x" for x i
    using renewing_due[OF ot that(1) wt[OF that(1)] that(2)] .
  from st show ?thesis
  proof (cases rule: cstep.cases)
    case (manual e kind i r' c' err)
    then have eff: "trigger_effect (w_now w) (te_token e) (w_redis w) (w_coord w i) r' c'"
      using trigger_effect[of e kind "''''" "w_redis w" "w_coord w i" r' c' err] by (simp add: Trigger_api_def)
    show ?thesis unfolding manual(1) by (rule trigger_effect_timed[OF inv ti _ eff]) (rule op)
  next
    case (scheduled e i)
    obtain r' c' where s: "RunScheduled sh (w_now w) e (w_redis w) (w_coord w i) = (r', c')" by fastforce
    show ?thesis unfolding scheduled(1) s
      by (rule trigger_effect_timed[OF inv ti _ scheduled_effect[OF s scheduled(3)]]) (rule op)
  next
    case (renew x i f)
    then show ?thesis using renew_tick_timed[OF inv ti due[OF renew(2,3)] renew(2,3)] by simp
  next
    case (renew_stop x i)
    then show ?thesis unfolding renew_stop(1) renew_exit_def
      by (intro one[OF renew_stop(2) on_run_map]) (simp_all add: stopped_well_timed wt due)
  next
    case (return x i f res)
    then show ?thesis unfolding return(1) run_return_def Let_def
      by (intro one[OF return(2) on_run_map]) (use wt[OF return(2)] due[OF return(2)] in \<open>auto simp: well_timed_def\<close>)
  next
    case (status_set x i res)
    then show ?thesis using run_status_timed[OF inv ti ot g status_set(2,3)] by simp
  next
    case (save x i s f)
    then show ?thesis unfolding save(1) run_save_def
      by (intro one[OF save(2) on_run_map]) (use wt[OF save(2)] in \<open>auto simp: well_timed_def\<close>)
  next
    case (unlock x i f)
    then show ?thesis unfolding unlock(1) run_unlock_def
      by (intro one[OF unlock(2) on_run_map]) (use wt[OF unlock(2)] in \<open>auto simp: well_timed_def\<close>)
  next
    case (status_write i s)
    show ?thesis unfolding status_write(1)
      by (intro timed_map[OF ti, where g = "\<lambda>x. x"]) (auto simp: Status_write_def split: option.split)
  next
    case (stop i)
    obtain g where "c_runs (fst (Stop_begin (w_coord w i))) = map g (c_runs (w_coord w i))"
        "\<forall>x. r_token (g x) = r_token x \<and> r_phase (g x) = r_phase x \<and> well_timed (g x) = well_timed x"
      using call_cancel_map[of "w_coord w i\<lparr>c_stopping := True\<rparr>"] unfolding Stop_begin_def by auto
    then show ?thesis unfolding stop(1)
      by (intro timed_map[OF ti, where g = g]) (auto simp: Stop_begin_def)
  next
    case (restart i en cfgErr f g)
    obtain r' c' where rc: "newCoordinatorDynamic (w_now w) en cfgErr f g (w_redis w) = (r', c')" by fastforce
    then have "c_runs c' = []" using restart_runs by (metis snd_conv)
    then show ?thesis unfolding restart(1) rc by (intro timed_put(3)[OF ti]) (auto simp: own_cancel_def)
  qed (use ti in \<open>simp_all add: timed_inv_def\<close>)
qed

lemma quiet_timed: "quiet w \<Longrightarrow> timed_inv w \<and> on_time g w"
  by (auto simp: quiet_def timed_inv_def own_cancel_def on_time_def)

lemma timely_inv:
  "timely sh g w \<Longrightarrow> g < lease_ms - renewEvery_ms \<Longrightarrow> cluster_inv w \<and> timed_inv w \<and> on_time g w"
proof (induction rule: timely.induct)
  case (start w)
  then show ?case using quiet_inv quiet_timed by blast
next
  case (step w w')
  then show ?case using cstep_inv cstep_timed by metis
qed

subsection \<open>Mutual exclusion of backups\<close>

text \<open>A process that accepts a manual backup, used as the concrete case below.\<close>

definition demo_env :: trigger_env where
  "demo_env = \<lparr>te_enabled = True, te_validate = None, te_token = ''a'', te_now = 5, te_lock = Reached,
     te_save = Reached, te_unlock = Reached\<rparr>"

definition demo_idle :: cluster where
  "demo_idle = \<lparr>w_now = 5, w_redis = Map.empty,
     w_coord = (\<lambda>i. fresh_coordinator '''' (blank_status True StateIdle)), w_tokens = {}, w_loads = []\<rparr>"

definition demo_busy :: cluster where
  "demo_busy = (case Trigger_api demo_env TriggerManual (w_redis demo_idle) (w_coord demo_idle 0) of
     (r', c', _) \<Rightarrow> (put 0 (r', c') demo_idle)\<lparr>w_tokens := insert (te_token demo_env) (w_tokens demo_idle)\<rparr>)"

lemma demo_quiet: "quiet demo_idle"
  by (simp add: quiet_def demo_idle_def fresh_coordinator_def)

lemma demo_step: "cstep sh demo_idle demo_busy"
proof -
  obtain r' c' err where t: "Trigger_api demo_env TriggerManual (w_redis demo_idle) (w_coord demo_idle 0) = (r', c', err)"
    by (metis prod_cases3)
  show ?thesis unfolding demo_busy_def t prod.case
    by (rule cstep.manual[OF _ _ t]) (simp_all add: demo_idle_def demo_env_def)
qed

lemma demo_busy_eq:
  "w_now demo_busy = 5" "w_coord demo_busy 0 = \<lparr>c_status = running_status TriggerManual 5, c_stopping = False,
     c_cancel = Some ''a'', c_done = Some ''a'', c_configError = '''', c_runs = [started_run ''a'' '''' 5]\<rparr>"
  "w_redis demo_busy = [backupLockKey \<mapsto> (RString ''a'', Some (5 + lease_ms)),
     backupStatusKey \<mapsto> (RStatus (running_status TriggerManual 5), None)]"
  by (simp_all add: demo_busy_def Trigger_api_def trigger_def demo_env_def demo_idle_def TryLock_def set_nx_def set_px_def Save_def
      rpc_def rget_def fresh_coordinator_def blank_status_def)

lemma demo_other: "j \<noteq> 0 \<Longrightarrow> c_runs (w_coord demo_busy j) = []"
  by (simp add: demo_busy_def Trigger_api_def trigger_def demo_env_def demo_idle_def TryLock_def set_nx_def set_px_def Save_def
      rpc_def rget_def fresh_coordinator_def blank_status_def)

lemma demo_on_time: "on_time g demo_busy"
  unfolding on_time_def
proof (intro allI impI)
  fix i x assume x: "x \<in> runs_of demo_busy i"
  then have "i = 0" using demo_other by (cases "i = 0") auto
  then have "x = started_run ''a'' '''' 5" using x by (simp add: demo_busy_eq)
  then show "w_now demo_busy \<le> (if r_renewing x then r_due x else r_stop x + g)"
    by (simp add: started_run_def demo_busy_eq renewEvery_ms_def)
qed

lemma demo_timely: "timely sh g demo_busy"
  by (rule timely.step[OF timely.start[OF demo_quiet] demo_step demo_on_time])

lemma demo_run: "started_run ''a'' '''' 5 \<in> runs_of demo_busy 0"
  by (simp add: demo_busy_eq)

text \<open>C23: However slow the processes and whatever Redis calls fail, two backups whose lease has not passed are
  the same backup of the same process, and the lock in Redis carries its token.\<close>

theorem lease_exclusion:
  assumes "reach sh w" and "x \<in> runs_of w i" and "y \<in> runs_of w j"
    and "holds_lease w x" and "holds_lease w y"
  shows "i = j \<and> x = y \<and> rget (w_now w) (w_redis w) backupLockKey = Some (RString (r_token x))"
  using lease_unique[OF reach_inv[OF assms(1)] assms(2-5)] holder_lock[OF reach_inv[OF assms(1)] assms(2,4)]
  by blast

theorem lease_exclusion_witness:
  "rget (w_now demo_busy) (w_redis demo_busy) backupLockKey = Some (RString (r_token (started_run ''a'' '''' 5)))"
proof -
  have r: "reach (\<lambda>t. 0) demo_busy" by (rule reach.step[OF reach.start[OF demo_quiet] demo_step])
  have h: "holds_lease demo_busy (started_run ''a'' '''' 5)"
    by (simp add: holds_lease_def started_run_def demo_busy_eq lease_ms_def)
  show ?thesis using lease_exclusion[OF r demo_run demo_run h h] by blast
qed

text \<open>C3: In a timely execution whose cancelled backups end within the 20 minutes that a lease outlives a
  renewal, at most one backup is in progress in the whole cluster, and while it is, every process refuses
  every trigger.\<close>

theorem one_backup_at_a_time:
  assumes "timely sh g w" and "g < lease_ms - renewEvery_ms"
    and "x \<in> runs_of w i" and "r_phase x \<noteq> Closed"
    and "te_now e = w_now w"
  shows "(y \<in> runs_of w j \<longrightarrow> r_phase y \<noteq> Closed \<longrightarrow> i = j \<and> x = y)
    \<and> snd (snd (trigger e kind day (w_redis w) (w_coord w k))) \<noteq> None"
proof -
  have inv: "cluster_inv w" "timed_inv w" "on_time g w" using timely_inv assms(1,2) by blast+
  note op = open_holds[OF inv(2,3) assms(2)]
  have lock: "rget (w_now w) (w_redis w) backupLockKey \<noteq> None"
    using holder_lock[OF inv(1) assms(3) op[OF assms(3,4)]] by simp
  obtain r' c' err where t: "trigger e kind day (w_redis w) (w_coord w k) = (r', c', err)" by (metis prod_cases3)
  have "err \<noteq> None" using t by (cases rule: trigger_cases) (use lock assms(5) in auto)
  moreover have "i = j \<and> x = y" if "y \<in> runs_of w j" "r_phase y \<noteq> Closed"
    by (rule lease_unique[OF inv(1) assms(3) that(1) op[OF assms(3,4)] op[OF that]])
  ultimately show ?thesis unfolding t by simp
qed

theorem one_backup_at_a_time_witness:
  "snd (snd (trigger demo_env TriggerScheduled ''2026-01-01'' (w_redis demo_busy) (w_coord demo_busy 7))) \<noteq> None"
proof -
  have "r_phase (started_run ''a'' '''' 5) \<noteq> Closed" "te_now demo_env = w_now demo_busy"
    by (simp_all add: started_run_def demo_env_def demo_busy_eq)
  then show ?thesis
    using one_backup_at_a_time[OF demo_timely[of "\<lambda>t. 0" 0] _ demo_run, of demo_env undefined 0]
    by (simp add: lease_ms_def renewEvery_ms_def)
qed



subsection \<open>A scheduled day is backed up once\<close>

definition day_done :: "string \<Rightarrow> int \<Rightarrow> bredis \<Rightarrow> bool" where
  "day_done day until r \<longleftrightarrow> (\<exists>e. r (backupDonePrefix @ day) = Some (RString ''1'', Some e) \<and> until \<le> e)"

named_theorems day_frame \<open>operations that keep the mark of a completed day\<close>

lemma Save_day [day_frame]: "day_done d u r \<Longrightarrow> day_done d u (fst (Save f s r))"
  by (simp add: Save_def rpc_def day_done_def split: fault.split)

lemma ReleaseDay_day [day_frame]: "day_done d u r \<Longrightarrow> day_done d u (fst (ReleaseDay f d' r))"
  by (simp add: ReleaseDay_def rpc_def day_done_def split: fault.split)

lemma CompleteDay_day [day_frame]:
  "day_done d u r \<Longrightarrow> u \<le> now + ttl \<Longrightarrow> day_done d u (fst (CompleteDay now f d' ttl r))"
  by (simp add: CompleteDay_def completeDayScript_def rpc_def day_done_def split: fault.split)

lemma ClaimDay_day [day_frame]: "day_done d u r \<Longrightarrow> day_done d u (fst (ClaimDay now f d' ttl r))"
  by (simp add: ClaimDay_def claimDayScript_def rpc_def day_done_def split: fault.split)

lemma Unlock_day [day_frame]: "day_done d u r \<Longrightarrow> day_done d u (fst (Unlock now f t r))"
  by (simp add: Unlock_def unlockScript_def cmp_del_def rpc_def day_done_def split: fault.split)

lemma TryLock_day [day_frame]: "day_done d u r \<Longrightarrow> day_done d u (fst (TryLock now f t l r))"
  by (simp add: TryLock_def set_nx_def set_px_def rpc_def day_done_def split: fault.split)

lemma Renew_day [day_frame]: "day_done d u r \<Longrightarrow> day_done d u (fst (Renew now f t l r))"
  by (simp add: Renew_def renewScript_def cmp_pexpire_def set_px_def rpc_def day_done_def split: fault.split)

lemma trigger_redis:
  "fst (trigger e kind day r c) \<in> {r, fst (TryLock (te_now e) (te_lock e) (te_token e) lease_ms r),
     fst (Save (te_save e) (running_status kind (te_now e)) (fst (TryLock (te_now e) (te_lock e) (te_token e) lease_ms r))),
     fst (Unlock (te_now e) (te_unlock e) (te_token e)
       (fst (Save (te_save e) (running_status kind (te_now e)) (fst (TryLock (te_now e) (te_lock e) (te_token e) lease_ms r)))))}"
  by (simp add: trigger_def split: option.split prod.split sum.split bool.split)

lemma trigger_day [day_frame]: "day_done d u r \<Longrightarrow> day_done d u (fst (trigger e kind day r c))"
  using trigger_redis[of e kind day r c] by (auto intro!: day_frame)

lemma scheduled_redis:
  assumes d: "d = local_day sh now" and r1: "r1 = fst (ClaimDay now (se_claim e) d lease_ms r)"
    and r2: "r2 = fst (trigger (se_trigger e) TriggerScheduled d r1 c)"
  shows "fst (RunScheduled sh now e r c) \<in> {r, r1, r2, fst (ReleaseDay (se_release e) d r2)}"
  unfolding r2 r1 d
  by (simp add: RunScheduled_def split: option.split prod.split sum.split bool.split)

lemma scheduled_day [day_frame]: "day_done d u r \<Longrightarrow> day_done d u (fst (RunScheduled sh now e r c))"
  using scheduled_redis[OF refl refl refl, of sh now e r c] by (auto intro!: day_frame)

lemma renew_tick_day [day_frame]: "day_done d u r \<Longrightarrow> day_done d u (fst (renew_tick now f t r c))"
  using Renew_day[of d u r now f t lease_ms]
  by (cases "Renew now f t lease_ms r") (simp add: renew_tick_def split: sum.split bool.split)

lemma restart_day [day_frame]:
  "day_done d u r \<Longrightarrow> day_done d u (fst (newCoordinatorDynamic now en cfg f g r))"
  by (auto simp: newCoordinatorDynamic_def persistStartupStatus_def Let_def split: sum.split option.split
      intro!: day_frame)

lemma run_return_day [day_frame]:
  "day_done d u r \<Longrightarrow> u \<le> now + done_ttl_ms \<Longrightarrow> day_done d u (fst (run_return now f res x r c))"
  by (auto simp: run_return_def Let_def split: sum.split intro!: day_frame)

lemma cstep_day:
  "cstep sh w w' \<Longrightarrow> day_done d u (w_redis w) \<Longrightarrow> u \<le> w_now w + done_ttl_ms
   \<Longrightarrow> day_done d u (w_redis w') \<and> w_now w \<le> w_now w'"
proof (induction rule: cstep.induct)
  case (manual e w kind i r' c' err)
  then show ?case using trigger_day[of d u "w_redis w" e kind "''''" "w_coord w i"] by (simp add: Trigger_api_def)
qed (auto simp: run_save_def run_unlock_def intro!: day_frame)

lemma csteps_day:
  assumes "(cstep sh)\<^sup>*\<^sup>* w w'" "day_done d u (w_redis w)" "u \<le> w_now w + done_ttl_ms"
  shows "day_done d u (w_redis w') \<and> w_now w \<le> w_now w'"
  using assms(1)
proof (induction rule: rtranclp_induct)
  case base
  then show ?case using assms by simp
next
  case (step y z)
  then show ?case using cstep_day[of sh y z d u] assms(3) by fastforce
qed

text \<open>Once a scheduled backup has succeeded and Redis has recorded it, no process starts, claims or changes
  anything for that day during the next 72 hours, whatever happens in between.\<close>

theorem completed_day_not_repeated:
  assumes "x \<in> runs_of w0 i" and "r_phase x = Running" and "r_day x \<noteq> ''''"
    and "w = put i (run_return (w_now w0) Reached (Inr b) x (w_redis w0) (w_coord w0 i)) w0"
    and "(cstep sh)\<^sup>*\<^sup>* w w'" and "w_now w' < w_now w0 + done_ttl_ms"
    and "local_day sh (w_now w') = r_day x"
  shows "RunScheduled sh (w_now w') e (w_redis w') (w_coord w' j) = (w_redis w', w_coord w' j)"
proof -
  have "day_done (r_day x) (w_now w0 + done_ttl_ms) (w_redis w)"
    using assms(3,4) key_neq(8)[of "r_day x" "r_day x"]
    by (simp add: run_return_def CompleteDay_def rpc_def completeDayScript_def day_done_def
        backupDonePrefix_def backupDayPrefix_def)
  moreover have "w_now w = w_now w0" using assms(4) by simp
  ultimately have "day_done (r_day x) (w_now w0 + done_ttl_ms) (w_redis w')"
    using csteps_day[OF assms(5)] by fastforce
  then have "rget (w_now w') (w_redis w') (backupDonePrefix @ r_day x) \<noteq> None"
    using assms(6) by (auto simp: day_done_def rget_def)
  then have "claimDayScript (w_now w') (r_day x) lease_ms (w_redis w') = (w_redis w', 0)"
    by (simp add: claimDayScript_def)
  then show ?thesis using assms(7)
    by (cases "se_claim e") (simp_all add: RunScheduled_def ClaimDay_def rpc_def split: option.split prod.split)
qed

definition demo_sched :: cluster where
  "demo_sched = demo_idle\<lparr>w_coord := (w_coord demo_idle)(0 := (w_coord demo_idle 0)
     \<lparr>c_runs := [started_run ''a'' ''1970-01-01'' 5]\<rparr>)\<rparr>"

definition demo_sched_env :: sched_env where
  "demo_sched_env = \<lparr>se_enabled = True, se_time = ''00:00'', se_claim = Reached, se_release = Reached,
     se_trigger = demo_env\<rparr>"

theorem completed_day_not_repeated_witness:
  "RunScheduled (\<lambda>t. 0) 5 demo_sched_env (completeDayScript 5 ''1970-01-01'' done_ttl_ms Map.empty) (w_coord demo_sched 1)
     = (completeDayScript 5 ''1970-01-01'' done_ttl_ms Map.empty, w_coord demo_sched 1)"
proof -
  let ?x = "started_run ''a'' ''1970-01-01'' 5"
  let ?w = "put 0 (run_return (w_now demo_sched) Reached (Inr \<lparr>br_ArchiveKey = ''k'', br_SHA256 = ''s'', br_Size = 1,
      br_Databases = 1\<rparr>) ?x (w_redis demo_sched) (w_coord demo_sched 0)) demo_sched"
  have d: "local_day (\<lambda>t. 0) 5 = ''1970-01-01''" by code_simp
  have n: "w_now demo_sched = 5" "w_redis demo_sched = Map.empty" by (simp_all add: demo_sched_def demo_idle_def)
  have "RunScheduled (\<lambda>t. 0) (w_now ?w) demo_sched_env (w_redis ?w) (w_coord ?w 1) = (w_redis ?w, w_coord ?w 1)"
    by (rule completed_day_not_repeated[where ?w0.0 = demo_sched and x = ?x and i = 0, OF _ _ _ refl rtranclp.rtrancl_refl])
       (simp_all add: d n started_run_def done_ttl_ms_def, simp add: demo_sched_def started_run_def)
  then show ?thesis by (simp add: n run_return_def CompleteDay_def rpc_def started_run_def)
qed

subsection \<open>A final status that cannot be saved\<close>

text \<open>When Redis cannot be reached for the last write of a backup's status, the persisted status stays
  \<open>running\<close>; the next call of \<^verbatim>\<open>Status\<close> copies it back into the process, and from then on the
  process refuses every trigger although no backup runs and the lock is free.\<close>

theorem lost_final_save_blocks:
  assumes "rget now r backupStatusKey = Some (RStatus p)" and "st_State p = StateRunning"
    and "c_configError c = ''''" and "\<not> c_stopping c"
    and "run_save (Unreached lost) s x r c = (r1, c1)" and "run_unlock now Reached x r1 c1 = (r2, c2)"
    and "Coordinator_Status now True Reached r2 c2 = (c3, shown)"
    and "te_enabled e" and "te_validate e = None"
  shows "trigger e kind day r2 c3 = (r2, c3, Some ErrAlreadyRunning)
    \<and> rget now r2 backupLockKey \<noteq> Some (RString (r_token x)) \<and> st_State shown = StateRunning"
proof -
  have r1: "r1 = r" and c1: "c_configError c1 = ''''" "\<not> c_stopping c1"
    using assms(3-5) by (auto simp: run_save_def Save_def rpc_def on_run_def)
  have r2: "r2 = fst (unlockScript now (r_token x) r)" and c2: "c_configError c2 = ''''" "\<not> c_stopping c2"
    using assms(6) r1 c1 by (auto simp: run_unlock_def Unlock_def rpc_def on_run_def)
  have "rget now r2 backupStatusKey = Some (RStatus p)"
    using assms(1) r2 by (simp add: unlockScript_def cmp_del_def rget_def)
  then have "Status_read now True Reached r2 c2 = Some (p\<lparr>st_Enabled := True\<rparr>)"
    using c2(1) by (simp add: Status_read_def Load_def)
  then have c3: "c3 = c2\<lparr>c_status := p\<lparr>st_Enabled := True\<rparr>\<rparr>"
    and sh: "shown = Status_view True (st_State (c_status c2) = StateRunning) c3"
    using assms(7) by (auto simp: Coordinator_Status_def Let_def Status_write_def)
  have "trigger e kind day r2 c3 = (r2, c3, Some ErrAlreadyRunning)"
    using c2 assms(2,8,9) by (simp add: trigger_def c3)
  moreover have "rget now r2 backupLockKey \<noteq> Some (RString (r_token x))"
    using r2 by (auto simp: unlockScript_def cmp_del_def rget_def split: option.splits if_splits)
  moreover have "st_State shown = StateRunning"
    using sh c3 c2(1) assms(2) by (simp add: Status_view_def Let_def)
  ultimately show ?thesis by blast
qed

theorem lost_final_save_blocks_witness:
  "snd (snd (trigger demo_env TriggerManual '''' Map.empty (fst (Coordinator_Status 5 True Reached
     [backupStatusKey \<mapsto> (RStatus (running_status TriggerManual 5), None)] (fresh_coordinator '''' (blank_status True StateIdle))))))
   = Some ErrAlreadyRunning"
proof -
  let ?r = "[backupStatusKey \<mapsto> (RStatus (running_status TriggerManual 5), None)]"
  let ?c = "fresh_coordinator '''' (blank_status True StateIdle)"
  have c: "run_save (Unreached ''timeout'') (blank_status True StateSucceeded) (started_run ''a'' '''' 5) ?r ?c = (?r, ?c)"
    "run_unlock 5 Reached (started_run ''a'' '''' 5) ?r ?c = (?r, ?c)"
    by (simp_all add: run_save_def run_unlock_def Save_def Unlock_def unlockScript_def cmp_del_def rpc_def on_run_def
        fresh_coordinator_def rget_def)
  obtain c3 shown where s: "Coordinator_Status 5 True Reached ?r ?c = (c3, shown)" by fastforce
  have "trigger demo_env TriggerManual '''' ?r c3 = (?r, c3, Some ErrAlreadyRunning)
    \<and> rget 5 ?r backupLockKey \<noteq> Some (RString (r_token (started_run ''a'' '''' 5))) \<and> st_State shown = StateRunning"
    by (rule lost_final_save_blocks[where p = "running_status TriggerManual 5", OF _ _ _ _ c s])
       (simp_all add: rget_def running_status_def blank_status_def fresh_coordinator_def demo_env_def)
  moreover have "st_State (c_status c3) = StateRunning \<and> c_configError c3 = '''' \<and> \<not> c_stopping c3"
    using s by (auto simp: Coordinator_Status_def Let_def Status_write_def Status_read_def Load_def rget_def
        fresh_coordinator_def running_status_def blank_status_def)
  ultimately show ?thesis using s by (simp add: trigger_def demo_env_def)
qed

end
