(* ===== verification/ProfileCache.thy ===== *)
theory ProfileCache
  imports Redis
begin

text \<open>
  The cache of user profiles, \<^verbatim>\<open>biz/service/user_profile.go\<close> of \<^verbatim>\<open>core_data\<close>: generation counters
  (one per user, one global) that are odd while an invalidation is in progress, the scripts that begin,
  validate, finish, abandon and recover an invalidation, the guarded publication and reading of snapshots,
  the builder of the message queue and the order in which the read path looks for a profile. The last part
  lets builders, readers, invalidations and expiry interleave and shows that a snapshot served from the
  cache is the one that the current data give.

  Redis values are strings, counters and snapshots (the gob bytes); \<open>'p\<close> is the content of a snapshot
  (radar, platforms, difficulties, total), computed from the database by code that is a parameter here.
  \<^verbatim>\<open>tonumber\<close> is exact, as it is for counters below \<open>2\<^sup>5\<^sup>3\<close>. A client \<open>None\<close> is the
  nil \<^verbatim>\<open>*redis.Client\<close>; a pattern of \<^verbatim>\<open>SCAN\<close> has \<^verbatim>\<open>*\<close> as its only wildcard.
\<close>

subsection \<open>Keys and values\<close>

record 'p UserProfileSnapshot =
  SchemaVersion :: string
  ModelVersion :: nat
  EvidenceVersion :: string
  GlobalGeneration :: int
  UserGeneration :: int
  EmptyRadarVerified :: bool
  sn_body :: 'p
  BuiltAt :: int

datatype 'p pval = PStr string | PNum int | PSnap "'p UserProfileSnapshot"

type_synonym 'p predis = "'p pval redis"

record profileCacheGeneration =
  gen_Global :: int
  gen_User :: int

definition userProfileCacheSchema :: string where "userProfileCacheSchema = ''9''"

definition day_ms :: int where "day_ms = 24 * 60 * 60 * 1000"
definition userProfileLatestTTL :: int where "userProfileLatestTTL = 30 * day_ms"
definition userProfileExactTTL :: int where "userProfileExactTTL = 7 * day_ms"
definition profileInvalidationLeaseTTL :: int where "profileInvalidationLeaseTTL = 30 * 60 * 1000"

definition profileGlobalGenerationKey :: string where
  "profileGlobalGenerationKey = ''problem:user_profile:generation:global''"
definition profileUserGenerationPref :: string where
  "profileUserGenerationPref = ''problem:user_profile:generation:user:''"
definition userProfileFpPref :: string where "userProfileFpPref = ''user_profile:fp:''"

definition profileUserGenerationKey :: "int \<Rightarrow> string" where
  "profileUserGenerationKey u = profileUserGenerationPref @ int_str u"

definition userProfileFpKey :: "int \<Rightarrow> string" where
  "userProfileFpKey u = userProfileFpPref @ int_str u"

definition lease_key :: "string \<Rightarrow> string" where "lease_key k = k @ '':lease''"
definition intent_key :: "string \<Rightarrow> string" where "intent_key k = k @ '':current_intent''"

definition user_cache_pref :: "int \<Rightarrow> string" where
  "user_cache_pref u = ''problem:user_profile:s'' @ userProfileCacheSchema @ '':u'' @ int_str u @ '':''"

definition userProfileExactCacheKeyForGeneration ::
  "int \<Rightarrow> nat \<Rightarrow> string \<Rightarrow> profileCacheGeneration \<Rightarrow> string" where
  "userProfileExactCacheKeyForGeneration u m ev g =
     user_cache_pref u @ ''m'' @ nat_str m @ '':e'' @ (if ev = '''' then ''0'' else ev)
     @ '':g'' @ int_str (gen_Global g) @ '':u'' @ int_str (gen_User g)"

definition userProfileLatestKey :: "int \<Rightarrow> string" where
  "userProfileLatestKey u = user_cache_pref u @ ''latest''"

definition userProfileBuildVersion :: "nat \<Rightarrow> string \<Rightarrow> string" where
  "userProfileBuildVersion m ev = ''m'' @ nat_str m @ '':e'' @ ev"

definition userProfileBuildVersionAtGeneration :: "nat \<Rightarrow> string \<Rightarrow> profileCacheGeneration \<Rightarrow> string" where
  "userProfileBuildVersionAtGeneration m ev g =
     (if gen_Global g = 0 \<and> gen_User g = 0 then userProfileBuildVersion m ev
      else userProfileBuildVersion m ev @ '':g'' @ int_str (gen_Global g) @ '':u'' @ int_str (gen_User g))"

subsection \<open>The scripts\<close>

text \<open>\<^verbatim>\<open>tonumber(redis.call("GET", k) or "0")\<close>; a script that does arithmetic on another value fails,
  \<open>None\<close>.\<close>

definition lua_num :: "int \<Rightarrow> 'p predis \<Rightarrow> string \<Rightarrow> int option" where
  "lua_num now r k = (case rget now r k of None \<Rightarrow> Some 0 | Some (PNum n) \<Rightarrow> Some n | Some _ \<Rightarrow> None)"

definition incr :: "int \<Rightarrow> string \<Rightarrow> int \<Rightarrow> 'p predis \<Rightarrow> 'p predis" where
  "incr now k n r = r(k \<mapsto> (PNum (n + 1), case rget now r k of None \<Rightarrow> None | Some _ \<Rightarrow> snd (the (r k))))"

definition max_int64 :: int where "max_int64 = 9223372036854775807"

definition profileBeginInvalidationScript ::
  "int \<Rightarrow> string \<Rightarrow> string \<Rightarrow> int \<Rightarrow> string \<Rightarrow> 'p predis \<Rightarrow> 'p predis \<times> int option" where
  "profileBeginInvalidationScript now k lv ttl it r =
     (let intent = rget now r (intent_key k); lease = rget now r (lease_key k) in
      case lua_num now r k of None \<Rightarrow> (r, None) | Some current \<Rightarrow>
      if current mod 2 = 1 then
        (if intent \<noteq> Some (PStr it) then (r, Some (-2))
         else if lease = Some (PStr lv) then (set_px now (lease_key k) (PStr lv) ttl r, Some current)
         else if lease \<noteq> None then (r, Some (-1))
         else if \<not> snd (set_nx now (lease_key k) (PStr lv) ttl r) then (r, Some (-1))
         else (fst (set_nx now (lease_key k) (PStr lv) ttl r), Some current))
      else if intent \<noteq> None \<or> lease \<noteq> None then (r, Some (-3))
      else if rget now r k = Some (PNum max_int64) then (r, Some (-4))
      else (set_px now (lease_key k) (PStr lv) ttl
              ((incr now k current r)(intent_key k \<mapsto> (PStr it, None))), Some (current + 1)))"

text \<open>The test that the validating scripts share: the caller's lease and intent, and its odd generation.\<close>

definition owns :: "int \<Rightarrow> string \<Rightarrow> string \<Rightarrow> int \<Rightarrow> string \<Rightarrow> 'p predis \<Rightarrow> bool" where
  "owns now k lv g it r \<longleftrightarrow>
     rget now r (lease_key k) = Some (PStr lv) \<and> rget now r (intent_key k) = Some (PStr it)
     \<and> lua_num now r k = Some g \<and> g mod 2 = 1"

definition profileValidateInvalidationScript ::
  "int \<Rightarrow> string \<Rightarrow> string \<Rightarrow> int \<Rightarrow> int \<Rightarrow> string \<Rightarrow> 'p predis \<Rightarrow> 'p predis \<times> int" where
  "profileValidateInvalidationScript now k lv g ttl it r =
     (if owns now k lv g it r then (set_px now (lease_key k) (PStr lv) ttl r, 1) else (r, 0))"

definition profileFinishInvalidationScript ::
  "int \<Rightarrow> string \<Rightarrow> string \<Rightarrow> int \<Rightarrow> string \<Rightarrow> 'p predis \<Rightarrow> 'p predis \<times> int" where
  "profileFinishInvalidationScript now k lv g it r =
     (if owns now k lv g it r
      then ((incr now k g r)(lease_key k := None, intent_key k := None), g + 1) else (r, 0))"

definition profileAbandonInvalidationScript ::
  "int \<Rightarrow> string \<Rightarrow> string \<Rightarrow> int \<Rightarrow> string \<Rightarrow> 'p predis \<Rightarrow> 'p predis \<times> int" where
  "profileAbandonInvalidationScript now k lv g it r =
     (if owns now k lv g it r then (r(lease_key k := None), 1) else (r, 0))"

definition del_keys :: "string list \<Rightarrow> 'p predis \<Rightarrow> 'p predis" where
  "del_keys ks r = fold (\<lambda>k r. r(k := None)) ks r"

definition profileDeleteOwnedScript ::
  "int \<Rightarrow> string \<Rightarrow> string \<Rightarrow> int \<Rightarrow> string \<Rightarrow> int \<Rightarrow> string list \<Rightarrow> 'p predis \<Rightarrow> 'p predis \<times> int" where
  "profileDeleteOwnedScript now k lv g it ttl ks r =
     (if owns now k lv g it r
      then (let r1 = set_px now (lease_key k) (PStr lv) ttl r
            in (del_keys ks r1, int (length (filter (\<lambda>x. rget now r1 x \<noteq> None) (remdups ks)))))
      else (r, -1))"

definition profileIncrementGenerationOwnedScript ::
  "int \<Rightarrow> string \<Rightarrow> string \<Rightarrow> int \<Rightarrow> string \<Rightarrow> int \<Rightarrow> int \<Rightarrow> string \<Rightarrow> 'p predis \<Rightarrow> 'p predis \<times> int option" where
  "profileIncrementGenerationOwnedScript now k lv g it ttl tttl target r =
     (if owns now k lv g it r
      then (let r1 = set_px now (lease_key k) (PStr lv) ttl r in
            case lua_num now r1 target of None \<Rightarrow> (r1, None)
            | Some n \<Rightarrow> (set_px now target (PNum (n + 1)) tttl r1, Some (n + 1)))
      else (r, Some (-1)))"

definition same_even :: "int \<Rightarrow> string \<Rightarrow> int \<Rightarrow> int \<Rightarrow> 'p predis \<Rightarrow> bool" where
  "same_even now uk g u r \<longleftrightarrow>
     lua_num now r profileGlobalGenerationKey = Some g \<and> lua_num now r uk = Some u
     \<and> g mod 2 \<noteq> 1 \<and> u mod 2 \<noteq> 1"

definition profilePublishScript ::
  "int \<Rightarrow> string \<Rightarrow> string \<Rightarrow> string \<Rightarrow> string \<Rightarrow> int \<Rightarrow> int \<Rightarrow> 'p pval \<Rightarrow> int \<Rightarrow> int \<Rightarrow> string
   \<Rightarrow> 'p predis \<Rightarrow> 'p predis \<times> int" where
  "profilePublishScript now uk exact latest fp g u b ettl lttl ver r =
     (if same_even now uk g u r
      then ((set_px now latest b lttl (set_px now exact b ettl r))(fp \<mapsto> (PStr ver, None)), 1)
      else (r, 0))"

definition profileReadScript :: "int \<Rightarrow> string \<Rightarrow> string \<Rightarrow> int \<Rightarrow> int \<Rightarrow> 'p predis \<Rightarrow> 'p pval option" where
  "profileReadScript now uk k g u r = (if same_even now uk g u r then rget now r k else None)"

definition profileRecoverOrphanScript :: "int \<Rightarrow> string \<Rightarrow> 'p predis \<Rightarrow> 'p predis \<times> int option" where
  "profileRecoverOrphanScript now k r =
     (case lua_num now r k of None \<Rightarrow> (r, None) | Some current \<Rightarrow>
      if current mod 2 = 0 then (r, Some 0)
      else if rget now r (lease_key k) \<noteq> None then (r, Some 0)
      else ((incr now k current r)(intent_key k := None), Some 1))"

subsection \<open>Generations and tokens\<close>

datatype cache_err =
    InvalidationInProgress
  | OwnershipChanged
  | CacheErr string

fun of_redis :: "string + 'a \<Rightarrow> cache_err + 'a" where
  "of_redis (Inl e) = Inl (CacheErr e)"
| "of_redis (Inr x) = Inr x"

text \<open>\<^verbatim>\<open>fmt.Sscan\<close> of a counter into a \<^verbatim>\<open>uint64\<close>; other values and negative ones are errors.\<close>

fun parse_gen :: "'p pval option \<Rightarrow> int option" where
  "parse_gen None = Some 0"
| "parse_gen (Some (PNum n)) = (if 0 \<le> n then Some n else None)"
| "parse_gen (Some _) = None"

definition readProfileCacheGeneration ::
  "int \<Rightarrow> fault option \<Rightarrow> int \<Rightarrow> 'p predis \<Rightarrow> cache_err + profileCacheGeneration" where
  "readProfileCacheGeneration now cl u r =
     (case cl of None \<Rightarrow> Inr \<lparr>gen_Global = 0, gen_User = 0\<rparr>
      | Some f \<Rightarrow>
        (case snd (rpc f (\<lambda>r. (r, (rget now r profileGlobalGenerationKey, rget now r (profileUserGenerationKey u)))) r) of
           Inl e \<Rightarrow> Inl (CacheErr e)
         | Inr (gv, uv) \<Rightarrow>
            (case (parse_gen gv, parse_gen uv) of
               (Some g, Some n) \<Rightarrow>
                 (if g mod 2 = 1 \<or> n mod 2 = 1 then Inl InvalidationInProgress
                  else Inr \<lparr>gen_Global = g, gen_User = n\<rparr>)
             | _ \<Rightarrow> Inl (CacheErr ''expected integer''))))"

text \<open>A token has a heartbeat when the Redis client was there; \<open>hb_err\<close> is the first error the heartbeat met.\<close>

record heartbeat =
  hb_ttl :: int
  hb_err :: "cache_err option"

record ProfileInvalidationToken =
  tk_Generation :: int
  tk_IntentID :: string
  tk_Owner :: string
  tk_lease :: "heartbeat option"

definition lease_value :: "ProfileInvalidationToken \<Rightarrow> string" where
  "lease_value t = tk_IntentID t @ ''|'' @ tk_Owner t"

definition setError :: "cache_err \<Rightarrow> heartbeat \<Rightarrow> heartbeat" where
  "setError e h = (if hb_err h = None then h\<lparr>hb_err := Some e\<rparr> else h)"

definition leaseError :: "ProfileInvalidationToken \<Rightarrow> cache_err option" where
  "leaseError t = (case tk_lease t of None \<Rightarrow> None | Some h \<Rightarrow> hb_err h)"

definition token_ttl :: "ProfileInvalidationToken \<Rightarrow> int" where
  "token_ttl t = (case tk_lease t of None \<Rightarrow> profileInvalidationLeaseTTL | Some h \<Rightarrow> hb_ttl h)"

definition beginProfileInvalidationForAttemptWithTTL ::
  "int \<Rightarrow> fault option \<Rightarrow> string \<Rightarrow> string \<Rightarrow> string \<Rightarrow> int \<Rightarrow> 'p predis
   \<Rightarrow> 'p predis \<times> (cache_err + ProfileInvalidationToken)" where
  "beginProfileInvalidationForAttemptWithTTL now cl k it owner ttl r =
     (let t = \<lparr>tk_Generation = 0, tk_IntentID = it, tk_Owner = owner, tk_lease = None\<rparr> in
      if trim_space it = '''' then (r, Inl (CacheErr ''invalid profile invalidation intent''))
      else if trim_space owner = '''' then (r, Inl (CacheErr ''invalid profile invalidation owner''))
      else if ttl \<le> 0 then (r, Inl (CacheErr ''invalid profile invalidation lease TTL''))
      else case cl of None \<Rightarrow> (r, Inr t)
      | Some f \<Rightarrow>
        (case rpc f (profileBeginInvalidationScript now k (lease_value t) ttl it) r of
           (r', Inl e) \<Rightarrow> (r', Inl (CacheErr e))
         | (r', Inr None) \<Rightarrow> (r', Inl (CacheErr ''ERR script''))
         | (r', Inr (Some v)) \<Rightarrow>
            (if v < 0 then
               (r', Inl (if v = -2 then CacheErr ''profile invalidation intent changed''
                         else if v = -3 then CacheErr ''profile invalidation state corrupt''
                         else if v = -4 then CacheErr ''profile invalidation generation exhausted''
                         else CacheErr ''profile invalidation already in progress''))
             else (r', Inr (t\<lparr>tk_Generation := v, tk_lease := Some \<lparr>hb_ttl = ttl, hb_err = None\<rparr>\<rparr>)))))"

definition validateProfileInvalidation ::
  "int \<Rightarrow> fault option \<Rightarrow> string \<Rightarrow> ProfileInvalidationToken \<Rightarrow> 'p predis \<Rightarrow> 'p predis \<times> cache_err option" where
  "validateProfileInvalidation now cl k t r =
     (case cl of None \<Rightarrow> (r, None)
      | Some f \<Rightarrow>
        (case leaseError t of Some e \<Rightarrow> (r, Some e)
         | None \<Rightarrow>
           (case rpc f (profileValidateInvalidationScript now k (lease_value t) (tk_Generation t) (token_ttl t) (tk_IntentID t)) r of
              (r', Inl e) \<Rightarrow> (r', Some (CacheErr e))
            | (r', Inr v) \<Rightarrow> (r', if v = 1 then None else Some OwnershipChanged))))"

text \<open>One tick of the heartbeat; after an error it has stopped.\<close>

definition heartbeat_tick ::
  "int \<Rightarrow> fault \<Rightarrow> string \<Rightarrow> ProfileInvalidationToken \<Rightarrow> 'p predis \<Rightarrow> 'p predis \<times> ProfileInvalidationToken" where
  "heartbeat_tick now f k t r =
     (case tk_lease t of None \<Rightarrow> (r, t)
      | Some h \<Rightarrow> (if hb_err h \<noteq> None then (r, t)
          else (case validateProfileInvalidation now (Some f) k t r of
              (r', None) \<Rightarrow> (r', t)
            | (r', Some e) \<Rightarrow> (r', t\<lparr>tk_lease := Some (setError e h)\<rparr>))))"

definition incrementGenerationOwned ::
  "int \<Rightarrow> fault option \<Rightarrow> string \<Rightarrow> ProfileInvalidationToken \<Rightarrow> string \<Rightarrow> int \<Rightarrow> 'p predis
   \<Rightarrow> 'p predis \<times> (cache_err + int)" where
  "incrementGenerationOwned now cl k t target tttl r =
     (case cl of None \<Rightarrow> (r, Inl (CacheErr ''owned generation increment: redis unavailable''))
      | Some f \<Rightarrow>
        if trim_space k = '''' \<or> trim_space target = '''' \<or> tttl \<le> 0
        then (r, Inl (CacheErr ''owned generation increment: invalid target''))
        else (case leaseError t of Some e \<Rightarrow> (r, Inl e)
         | None \<Rightarrow>
           (case rpc f (profileIncrementGenerationOwnedScript now k (lease_value t) (tk_Generation t) (tk_IntentID t)
                          (token_ttl t) tttl target) r of
              (r', Inl e) \<Rightarrow> (r', Inl (CacheErr e))
            | (r', Inr None) \<Rightarrow> (r', Inl (CacheErr ''ERR script''))
            | (r', Inr (Some v)) \<Rightarrow> (r', if v < 0 then Inl OwnershipChanged else Inr v))))"

definition BumpUserProfileOwnedGeneration ::
  "int \<Rightarrow> fault option \<Rightarrow> int \<Rightarrow> ProfileInvalidationToken \<Rightarrow> string \<Rightarrow> int \<Rightarrow> 'p predis
   \<Rightarrow> 'p predis \<times> (cache_err + int)" where
  "BumpUserProfileOwnedGeneration now cl u t target tttl r =
     (if u \<le> 0 then (r, Inl (CacheErr ''invalid user_id''))
      else incrementGenerationOwned now cl (profileUserGenerationKey u) t target tttl r)"

definition finishProfileInvalidation ::
  "int \<Rightarrow> fault option \<Rightarrow> string \<Rightarrow> ProfileInvalidationToken \<Rightarrow> 'p predis \<Rightarrow> 'p predis \<times> cache_err option" where
  "finishProfileInvalidation now cl k t r =
     (case cl of None \<Rightarrow> (r, None)
      | Some f \<Rightarrow>
        (case rpc f (profileFinishInvalidationScript now k (lease_value t) (tk_Generation t) (tk_IntentID t)) r of
           (r', Inl e) \<Rightarrow> (r', Some (CacheErr e))
         | (r', Inr v) \<Rightarrow> (r', if v = tk_Generation t + 1 then None
                                else Some (CacheErr ''profile invalidation generation changed''))))"

definition abandonProfileInvalidation ::
  "int \<Rightarrow> fault option \<Rightarrow> string \<Rightarrow> ProfileInvalidationToken \<Rightarrow> 'p predis \<Rightarrow> 'p predis \<times> cache_err option" where
  "abandonProfileInvalidation now cl k t r =
     (case cl of None \<Rightarrow> (r, None)
      | Some f \<Rightarrow>
        (case rpc f (profileAbandonInvalidationScript now k (lease_value t) (tk_Generation t) (tk_IntentID t)) r of
           (r', Inl e) \<Rightarrow> (r', Some (CacheErr e))
         | (r', Inr v) \<Rightarrow> (r', if v = 1 then None else Some OwnershipChanged)))"

subsection \<open>Finishing an invalidation\<close>

definition deleteProfileKeysOwned ::
  "int \<Rightarrow> fault \<Rightarrow> string \<Rightarrow> ProfileInvalidationToken \<Rightarrow> string list \<Rightarrow> 'p predis \<Rightarrow> 'p predis \<times> cache_err option" where
  "deleteProfileKeysOwned now f k t ks r =
     (if ks = [] then (r, None)
      else (case rpc f (profileDeleteOwnedScript now k (lease_value t) (tk_Generation t) (tk_IntentID t) (token_ttl t) ks) r of
           (r', Inl e) \<Rightarrow> (r', Some (CacheErr e))
         | (r', Inr v) \<Rightarrow> (r', if v < 0 then Some OwnershipChanged else None)))"

fun glob :: "string \<Rightarrow> string \<Rightarrow> bool" where
  "glob [] s = (s = [])"
| "glob (p # ps) s = (if p = CHR ''*'' then
       glob ps s \<or> (case s of [] \<Rightarrow> False | c # s' \<Rightarrow> glob (p # ps) s')
     else (case s of [] \<Rightarrow> False | c # s' \<Rightarrow> p = c \<and> glob ps s'))"

text \<open>One element of \<open>scans\<close> per call of \<^verbatim>\<open>SCAN\<close>: the fates of the three calls of the round and the keys
  that the scan returns, of which those that match the pattern count; the last one has cursor 0.\<close>

fun deleteProfileCachePattern ::
  "int \<Rightarrow> string \<Rightarrow> ProfileInvalidationToken \<Rightarrow> string \<Rightarrow> (fault \<times> fault \<times> fault \<times> string list) list
   \<Rightarrow> 'p predis \<Rightarrow> 'p predis \<times> cache_err option" where
  "deleteProfileCachePattern now k t pat [] r = (r, None)"
| "deleteProfileCachePattern now k t pat ((f1, f2, f3, ks) # scans) r =
     (case validateProfileInvalidation now (Some f1) k t r of
        (r1, Some e) \<Rightarrow> (r1, Some e)
      | (r1, None) \<Rightarrow>
         (if f2 \<noteq> Reached then (r1, Some (CacheErr ''SCAN''))
          else (case deleteProfileKeysOwned now f3 k t (filter (glob pat) ks) r1 of
                  (r2, Some e) \<Rightarrow> (r2, Some e)
                | (r2, None) \<Rightarrow> deleteProfileCachePattern now k t pat scans r2)))"

definition pending_key :: "int \<Rightarrow> string" where "pending_key u = ''user_profile:pending:'' @ int_str u"
definition profile_key :: "int \<Rightarrow> string" where "profile_key u = ''user:'' @ int_str u @ '':profile''"

definition FinishUserProfileInvalidation ::
  "int \<Rightarrow> fault option \<Rightarrow> fault \<times> fault \<Rightarrow> (fault \<times> fault \<times> fault \<times> string list) list \<Rightarrow> int
   \<Rightarrow> ProfileInvalidationToken \<Rightarrow> 'p predis \<Rightarrow> 'p predis \<times> cache_err option" where
  "FinishUserProfileInvalidation now cl fs scans u t r =
     (case cl of None \<Rightarrow> (r, None)
      | Some f \<Rightarrow>
        (let k = profileUserGenerationKey u in
         case validateProfileInvalidation now (Some f) k t r of
           (r1, Some e) \<Rightarrow> (r1, Some e)
         | (r1, None) \<Rightarrow>
           (case deleteProfileCachePattern now k t (''problem:user_profile:s*:u'' @ int_str u @ '':*'') scans r1 of
              (r2, Some e) \<Rightarrow> (r2, Some e)
            | (r2, None) \<Rightarrow>
              (case deleteProfileKeysOwned now (fst fs) k t
                      [userProfileFpKey u, pending_key u, profile_key u] r2 of
                 (r3, Some e) \<Rightarrow> (r3, Some e)
               | (r3, None) \<Rightarrow> finishProfileInvalidation now (Some (snd fs)) k t r3))))"

fun delete_patterns ::
  "int \<Rightarrow> string \<Rightarrow> ProfileInvalidationToken \<Rightarrow> (string \<times> (fault \<times> fault \<times> fault \<times> string list) list) list
   \<Rightarrow> 'p predis \<Rightarrow> 'p predis \<times> cache_err option" where
  "delete_patterns now k t [] r = (r, None)"
| "delete_patterns now k t ((pat, scans) # ps) r =
     (case deleteProfileCachePattern now k t pat scans r of
        (r', Some e) \<Rightarrow> (r', Some e)
      | (r', None) \<Rightarrow> delete_patterns now k t ps r')"

definition FinishGlobalProfileInvalidation ::
  "int \<Rightarrow> fault option \<Rightarrow> fault \<Rightarrow> (fault \<times> fault \<times> fault \<times> string list) list
     \<times> (fault \<times> fault \<times> fault \<times> string list) list \<times> (fault \<times> fault \<times> fault \<times> string list) list
   \<Rightarrow> ProfileInvalidationToken \<Rightarrow> 'p predis \<Rightarrow> 'p predis \<times> cache_err option" where
  "FinishGlobalProfileInvalidation now cl f2 scans t r =
     (case cl of None \<Rightarrow> (r, None)
      | Some f \<Rightarrow>
        (let k = profileGlobalGenerationKey in
         case validateProfileInvalidation now (Some f) k t r of
           (r1, Some e) \<Rightarrow> (r1, Some e)
         | (r1, None) \<Rightarrow>
           (case delete_patterns now k t
                   [(''problem:user_profile:s*:u*:*'', fst scans), (userProfileFpPref @ ''*'', fst (snd scans)),
                     (''user_profile:pending:*'', snd (snd scans))] r1 of
              (r2, Some e) \<Rightarrow> (r2, Some e)
            | (r2, None) \<Rightarrow> finishProfileInvalidation now (Some f2) k t r2)))"

subsection \<open>Recovery of orphaned invalidations\<close>

text \<open>The keys that \<^verbatim>\<open>MGET\<close> saw with an odd counter are recovered one by one; an error on one is
  logged and the loop goes on.\<close>

fun recover_loop :: "int \<Rightarrow> fault list \<Rightarrow> (string \<times> 'p pval option) list \<Rightarrow> 'p predis \<Rightarrow> 'p predis" where
  "recover_loop now fs [] r = r"
| "recover_loop now fs ((k, v) # kvs) r =
     (case v of
        Some (PNum g) \<Rightarrow>
          (if g < 0 \<or> g mod 2 = 0 then recover_loop now fs kvs r
           else (case fs of
               [] \<Rightarrow> recover_loop now [] kvs (fst (rpc Reached (profileRecoverOrphanScript now k) r))
             | f # fs' \<Rightarrow> recover_loop now fs' kvs (fst (rpc f (profileRecoverOrphanScript now k) r))))
      | _ \<Rightarrow> recover_loop now fs kvs r)"

definition RecoverOrphanedProfileInvalidations ::
  "int \<Rightarrow> fault option \<Rightarrow> fault list \<Rightarrow> string list + string \<Rightarrow> 'p predis \<Rightarrow> 'p predis \<times> cache_err option" where
  "RecoverOrphanedProfileInvalidations now cl fs scanned r =
     (case cl of None \<Rightarrow> (r, None)
      | Some f \<Rightarrow>
        (case scanned of Inr e \<Rightarrow> (r, Some (CacheErr e))
         | Inl found \<Rightarrow>
            (let ks = profileGlobalGenerationKey #
                  filter (\<lambda>k. has_prefix k profileUserGenerationPref \<and> \<not> has_suffix k '':lease''
                     \<and> \<not> has_suffix k '':current_intent'') found
             in case snd (rpc f (\<lambda>r. (r, map (\<lambda>k. (k, rget now r k)) ks)) r) of
                  Inl e \<Rightarrow> (r, Some (CacheErr e))
                | Inr kvs \<Rightarrow> (recover_loop now fs kvs r, None))))"

subsection \<open>Publishing and reading\<close>

definition writeProfileCacheAtGeneration ::
  "int \<Rightarrow> fault option \<Rightarrow> int \<Rightarrow> nat \<Rightarrow> string \<Rightarrow> profileCacheGeneration \<Rightarrow> 'p UserProfileSnapshot
   \<Rightarrow> 'p predis \<Rightarrow> 'p predis \<times> cache_err option" where
  "writeProfileCacheAtGeneration now cl u m ev g snap r =
     (case cl of None \<Rightarrow> (r, None)
      | Some f \<Rightarrow>
        if u \<le> 0 then (r, None)
        else (let b = snap\<lparr>BuiltAt := (if BuiltAt snap = 0 then now else BuiltAt snap),
                 SchemaVersion := userProfileCacheSchema, ModelVersion := m, EvidenceVersion := ev,
                 GlobalGeneration := gen_Global g, UserGeneration := gen_User g\<rparr> in
           case rpc f (profilePublishScript now (profileUserGenerationKey u)
                  (userProfileExactCacheKeyForGeneration u m ev g) (userProfileLatestKey u) (userProfileFpKey u)
                  (gen_Global g) (gen_User g) (PSnap b) userProfileExactTTL userProfileLatestTTL
                  (userProfileBuildVersionAtGeneration m ev g)) r of
             (r', Inl e) \<Rightarrow> (r', Some (CacheErr e))
           | (r', Inr v) \<Rightarrow> (r', if v = 1 then None
                else Some (CacheErr ''user profile generation changed during publish''))))"

definition readProfileCacheAtGeneration ::
  "int \<Rightarrow> fault option \<Rightarrow> int \<Rightarrow> string \<Rightarrow> profileCacheGeneration \<Rightarrow> 'p predis \<Rightarrow> 'p UserProfileSnapshot option" where
  "readProfileCacheAtGeneration now cl u k g r =
     (case cl of None \<Rightarrow> None
      | Some f \<Rightarrow>
        if k = '''' then None
        else (case snd (rpc f (\<lambda>r. (r, profileReadScript now (profileUserGenerationKey u) k (gen_Global g) (gen_User g) r)) r) of
             Inr (Some (PSnap s)) \<Rightarrow> Some s
           | _ \<Rightarrow> None))"

text \<open>What \<^verbatim>\<open>UserProfile\<close> may return from the cache: the exact entry, or the latest one of this or an
  older model, each with the evidence and the generations of the reader.\<close>

definition exact_readable :: "nat \<Rightarrow> string \<Rightarrow> profileCacheGeneration \<Rightarrow> 'p UserProfileSnapshot \<Rightarrow> bool" where
  "exact_readable m ev g s \<longleftrightarrow> SchemaVersion s = userProfileCacheSchema \<and> ModelVersion s = m
     \<and> EvidenceVersion s = ev \<and> GlobalGeneration s = gen_Global g \<and> UserGeneration s = gen_User g"

definition latest_readable :: "nat \<Rightarrow> string \<Rightarrow> profileCacheGeneration \<Rightarrow> 'p UserProfileSnapshot \<Rightarrow> bool" where
  "latest_readable m ev g s \<longleftrightarrow> SchemaVersion s = userProfileCacheSchema \<and> 0 < ModelVersion s \<and> ModelVersion s \<le> m
     \<and> EvidenceVersion s = ev \<and> GlobalGeneration s = gen_Global g \<and> UserGeneration s = gen_User g"

datatype 'p profile_source = FromCache "'p UserProfileSnapshot" | FromDatabase nat string | FromFallback

text \<open>\<open>ident\<close> is the answer of \<^verbatim>\<open>ReadProfileCacheIdentity\<close>; the database view itself is computed by the
  caller from the chosen source.\<close>

definition UserProfile ::
  "int \<Rightarrow> fault option \<Rightarrow> fault option \<Rightarrow> fault option \<Rightarrow> int \<Rightarrow> (nat \<times> string) option \<Rightarrow> 'p predis \<Rightarrow> 'p profile_source" where
  "UserProfile now f1 f2 f3 u ident r =
     (case readProfileCacheGeneration now f1 u r of
        Inl _ \<Rightarrow> FromFallback
      | Inr g \<Rightarrow>
        (case ident of None \<Rightarrow> FromFallback
         | Some (m, ev) \<Rightarrow>
           (case readProfileCacheAtGeneration now f2 u (userProfileExactCacheKeyForGeneration u m ev g) g r of
              Some s \<Rightarrow> if exact_readable m ev g s then FromCache s
                else (case readProfileCacheAtGeneration now f3 u (userProfileLatestKey u) g r of
                    Some l \<Rightarrow> if latest_readable m ev g l then FromCache l else FromDatabase m ev
                  | None \<Rightarrow> FromDatabase m ev)
            | None \<Rightarrow>
                (case readProfileCacheAtGeneration now f3 u (userProfileLatestKey u) g r of
                    Some l \<Rightarrow> if latest_readable m ev g l then FromCache l else FromDatabase m ev
                  | None \<Rightarrow> FromDatabase m ev))))"

subsection \<open>The builder\<close>

text \<open>What the database answers to one build: the identity before and after, the failure of the rebuild of the
  tag aggregate, the snapshot and the failure of its computation.\<close>

record 'p build_env =
  be_identity :: "cache_err + nat \<times> string"
  be_rebuild :: "cache_err option"
  be_snap :: "'p UserProfileSnapshot"
  be_radar_empty :: bool
  be_compute :: "cache_err option"
  be_after :: "cache_err + nat \<times> string"

datatype 'p build_plan =
    BuildFails cache_err
  | BuildDone
  | BuildPublish nat string profileCacheGeneration "'p UserProfileSnapshot"

definition build_plan ::
  "bool \<Rightarrow> cache_err + profileCacheGeneration \<Rightarrow> 'p pval option \<Rightarrow> 'p build_env \<Rightarrow> 'p build_plan" where
  "build_plan force gen prev e =
     (case gen of Inl x \<Rightarrow> BuildFails x | Inr g \<Rightarrow>
      case be_identity e of Inl x \<Rightarrow> BuildFails x | Inr (m, ev) \<Rightarrow>
      if \<not> force \<and> prev = Some (PStr (userProfileBuildVersionAtGeneration m ev g)) then BuildDone
      else if force \<and> be_rebuild e \<noteq> None then BuildFails (the (be_rebuild e))
      else case be_after e of Inl x \<Rightarrow> BuildFails x | Inr after \<Rightarrow>
        if after \<noteq> (m, ev) then BuildFails (CacheErr ''user profile changed during build'')
        else case be_compute e of Some x \<Rightarrow> BuildFails x | None \<Rightarrow>
          if \<not> force then BuildDone
          else BuildPublish m ev g (be_snap e\<lparr>EmptyRadarVerified := be_radar_empty e\<rparr>))"

fun build_publish :: "int \<Rightarrow> fault option \<Rightarrow> int \<Rightarrow> 'p build_plan \<Rightarrow> 'p predis \<Rightarrow> 'p predis \<times> cache_err option" where
  "build_publish now cl u (BuildFails x) r = (r, Some x)"
| "build_publish now cl u BuildDone r = (r, None)"
| "build_publish now cl u (BuildPublish m ev g s) r = writeProfileCacheAtGeneration now cl u m ev g s r"

text \<open>The whole build under the mutex of the user; \<open>arrival\<close> is the counter of finished forced builds read
  before the mutex was taken, \<open>cur\<close> the one under it. The result is the Redis, the counter and the error.\<close>

definition BuildAndCacheUserProfile ::
  "int \<Rightarrow> fault option \<Rightarrow> fault \<Rightarrow> fault option \<Rightarrow> int \<Rightarrow> bool \<Rightarrow> nat \<Rightarrow> nat \<Rightarrow> 'p build_env \<Rightarrow> 'p predis
   \<Rightarrow> 'p predis \<times> nat \<times> cache_err option" where
  "BuildAndCacheUserProfile now f1 f2 f3 u force arrival cur e r =
     (if u \<le> 0 then (r, cur, Some (CacheErr ''invalid user_id''))
      else if force \<and> cur \<noteq> arrival then (r, cur, None)
      else (let prev = (if f1 = None \<or> f2 \<noteq> Reached then None else rget now r (userProfileFpKey u));
                plan = build_plan force (readProfileCacheGeneration now f1 u r) prev e
            in case build_publish now f3 u plan r of
                 (r', Some x) \<Rightarrow> (r', cur, Some x)
               | (r', None) \<Rightarrow> (r', if force then cur + 1 else cur, None)))"

subsection \<open>Builders, readers and invalidations interleaved\<close>

text \<open>The identity of a profile in the database (\<^verbatim>\<open>data/dal/profile_cache_identity.go\<close>): the active ability
  model, the revision of the data set and the revision of the user's evidence. The tables a profile is computed
  from are \<open>'f\<close>. Triggers (\<^verbatim>\<open>data/model/profile_evidence_revision.go\<close>) raise a revision in the
  transaction that writes: that of the user for a statement on \<^verbatim>\<open>submit_logs\<close>,
  \<^verbatim>\<open>user_ac_problems\<close> or \<^verbatim>\<open>platforms\<close>, that of the data set for one on
  \<^verbatim>\<open>problem_tags\<close>.\<close>

record 'f profile_db =
  pd_Model :: nat
  pd_Dataset :: nat
  pd_User :: "int \<Rightarrow> nat"
  pd_Ready :: bool
  pd_facts :: 'f

definition evidence_str :: "nat \<Rightarrow> nat \<Rightarrow> string" where
  "evidence_str d r = ''d'' @ nat_str d @ '':u'' @ nat_str r"

definition ReadProfileCacheIdentity :: "'f profile_db \<Rightarrow> int \<Rightarrow> (nat \<times> string) option" where
  "ReadProfileCacheIdentity db u =
     (if u \<le> 0 \<or> pd_Model db = 0 \<or> \<not> pd_Ready db then None
      else Some (pd_Model db, evidence_str (pd_Dataset db) (pd_User db u)))"

definition bump_user :: "int \<Rightarrow> 'f profile_db \<Rightarrow> 'f profile_db" where
  "bump_user u db = (if 0 < u then db\<lparr>pd_User := (pd_User db)(u := Suc (pd_User db u))\<rparr> else db)"

definition bump_dataset :: "'f profile_db \<Rightarrow> 'f profile_db" where
  "bump_dataset db = db\<lparr>pd_Dataset := Suc (pd_Dataset db)\<rparr>"

text \<open>A transaction that leaves the tables \<open>facts'\<close>, with the triggers of its statements: each names the users whose
  rows it touches, \<open>None\<close> is a statement on the tags of problems or a truncation.\<close>

fun fire :: "int list option \<Rightarrow> 'f profile_db \<Rightarrow> 'f profile_db" where
  "fire None db = bump_dataset db"
| "fire (Some us) db = fold bump_user us db"

definition transaction :: "'f \<Rightarrow> int list option list \<Rightarrow> 'f profile_db \<Rightarrow> 'f profile_db" where
  "transaction facts' sts db = fold fire sts (db\<lparr>pd_facts := facts'\<rparr>)"

text \<open>Whether the triggers fire for a user.\<close>

definition touched :: "int list option list \<Rightarrow> int \<Rightarrow> bool" where
  "touched sts u \<longleftrightarrow> list_ex (\<lambda>st. case st of None \<Rightarrow> True | Some us \<Rightarrow> u \<in> set us) sts"

text \<open>A build reads the generations, then the identity, then computes, then reads the identity again.\<close>

datatype 'p builder =
    GenRead int profileCacheGeneration
  | IdRead int profileCacheGeneration nat string
  | Computed int profileCacheGeneration nat string 'p
  | Planned int "'p build_plan"

record ('p, 'f) pworld =
  p_now :: int
  p_redis :: "'p predis"
  p_db :: "'f profile_db"
  p_builders :: "'p builder list"

definition is_fence :: "string \<Rightarrow> bool" where
  "is_fence k \<longleftrightarrow> k = profileGlobalGenerationKey \<or> (\<exists>u. k = profileUserGenerationKey u)"

definition counter :: "'p predis \<Rightarrow> string \<Rightarrow> int" where
  "counter r k = (case r k of Some (PNum n, _) \<Rightarrow> n | _ \<Rightarrow> 0)"

definition fenced :: "'p predis \<Rightarrow> int \<Rightarrow> bool" where
  "fenced r u \<longleftrightarrow> counter r profileGlobalGenerationKey mod 2 = 1 \<or> counter r (profileUserGenerationKey u) mod 2 = 1"

text \<open>\<open>compute u m facts\<close> is the content of a profile that a build for the model \<open>m\<close> computes. A transaction that
  changes it for a user either touches a table with a trigger for the user, as every import of submissions does
  (\<^verbatim>\<open>spider.go\<close>: it runs without a fence), or runs while the fence of the user or the global one is
  held, as the maintenance of bindings, tags and problems does. What depends on other columns is not part of the
  content meant here: no trigger watches the difficulty of a problem. The active model never goes
  back. The dependent counters that owners of a fence bump live outside \<^verbatim>\<open>problem:user_profile:\<close>.\<close>

inductive pstep :: "(int \<Rightarrow> nat \<Rightarrow> 'f \<Rightarrow> 'p) \<Rightarrow> ('p, 'f) pworld \<Rightarrow> ('p, 'f) pworld \<Rightarrow> bool" for compute where
  tick: "0 < d \<Longrightarrow> pstep compute w (w\<lparr>p_now := p_now w + d\<rparr>)"
| begin_inv: "is_fence k \<Longrightarrow>
    pstep compute w (w\<lparr>p_redis := fst (beginProfileInvalidationForAttemptWithTTL (p_now w) cl k it own ttl (p_redis w))\<rparr>)"
| validate: "is_fence k \<Longrightarrow>
    pstep compute w (w\<lparr>p_redis := fst (validateProfileInvalidation (p_now w) cl k t (p_redis w))\<rparr>)"
| beat: "is_fence k \<Longrightarrow>
    pstep compute w (w\<lparr>p_redis := fst (heartbeat_tick (p_now w) f k t (p_redis w))\<rparr>)"
| bump: "\<not> has_prefix target ''problem:user_profile:'' \<Longrightarrow>
    pstep compute w (w\<lparr>p_redis := fst (BumpUserProfileOwnedGeneration (p_now w) cl u t target ttl (p_redis w))\<rparr>)"
| finish_user:
    "pstep compute w (w\<lparr>p_redis := fst (FinishUserProfileInvalidation (p_now w) cl fs scans u t (p_redis w))\<rparr>)"
| finish_global:
    "pstep compute w (w\<lparr>p_redis := fst (FinishGlobalProfileInvalidation (p_now w) cl f gscans t (p_redis w))\<rparr>)"
| abandon: "is_fence k \<Longrightarrow>
    pstep compute w (w\<lparr>p_redis := fst (abandonProfileInvalidation (p_now w) cl k t (p_redis w))\<rparr>)"
| recover: "(\<forall>l. found = Inl l \<longrightarrow> (\<forall>k\<in>set l. is_fence k \<or> (\<exists>k'. is_fence k' \<and> k \<in> {lease_key k', intent_key k'}))) \<Longrightarrow>
    pstep compute w (w\<lparr>p_redis := fst (RecoverOrphanedProfileInvalidations (p_now w) cl rfs found (p_redis w))\<rparr>)"
| commit: "(\<forall>u>0. \<forall>m\<le>pd_Model (p_db w). compute u m facts' \<noteq> compute u m (pd_facts (p_db w))
      \<longrightarrow> touched sts u \<or> fenced (p_redis w) u) \<Longrightarrow>
    pstep compute w (w\<lparr>p_db := transaction facts' sts (p_db w)\<rparr>)"
| activate: "pd_Model (p_db w) \<le> m \<Longrightarrow> pstep compute w (w\<lparr>p_db := (p_db w)\<lparr>pd_Model := m, pd_Ready := rdy\<rparr>\<rparr>)"
| build_read: "readProfileCacheGeneration (p_now w) cl u (p_redis w) = Inr g \<Longrightarrow>
    pstep compute w (w\<lparr>p_builders := GenRead u g # p_builders w\<rparr>)"
| build_identity: "GenRead u g \<in> set (p_builders w) \<Longrightarrow> ReadProfileCacheIdentity (p_db w) u = Some (m, ev) \<Longrightarrow>
    pstep compute w (w\<lparr>p_builders := IdRead u g m ev # p_builders w\<rparr>)"
| build_compute: "IdRead u g m ev \<in> set (p_builders w) \<Longrightarrow>
    pstep compute w (w\<lparr>p_builders := Computed u g m ev (compute u m (pd_facts (p_db w))) # p_builders w\<rparr>)"
| build_after: "Computed u g m ev p \<in> set (p_builders w) \<Longrightarrow> be_identity e = Inr (m, ev) \<Longrightarrow> sn_body (be_snap e) = p \<Longrightarrow>
    be_after e = Inr id' \<longrightarrow> ReadProfileCacheIdentity (p_db w) u = Some id' \<Longrightarrow>
    pstep compute w (w\<lparr>p_builders := Planned u (build_plan force (Inr g) prev e) # p_builders w\<rparr>)"
| publish: "Planned u plan \<in> set (p_builders w) \<Longrightarrow>
    pstep compute w (w\<lparr>p_redis := fst (build_publish (p_now w) cl u plan (p_redis w))\<rparr>)"

inductive preach :: "(int \<Rightarrow> nat \<Rightarrow> 'f \<Rightarrow> 'p) \<Rightarrow> ('p, 'f) pworld \<Rightarrow> bool" for compute where
  start: "p_redis w = Map.empty \<Longrightarrow> p_builders w = [] \<Longrightarrow> preach compute w"
| step: "preach compute w \<Longrightarrow> pstep compute w w' \<Longrightarrow> preach compute w'"

subsection \<open>Keys do not collide\<close>

lemma int_str_no_colon [simp]: "CHR '':'' \<notin> set (int_str u)"
proof
  assume "CHR '':'' \<in> set (int_str u)"
  then have "\<exists>n. CHR '':'' \<in> set (nat_str n)" by (auto simp: int_str_def split: if_splits)
  then obtain n where "is_digit_char (CHR '':'')" using nat_str_digits by blast
  then show False by (simp add: is_digit_char_def)
qed

lemma colon_split:
  "CHR '':'' \<notin> set a \<Longrightarrow> CHR '':'' \<notin> set b \<Longrightarrow> a @ CHR '':'' # x = b @ CHR '':'' # y \<longleftrightarrow> a = b \<and> x = y"
proof (induction a arbitrary: b)
  case Nil
  then show ?case by (cases b) auto
next
  case (Cons c a)
  then show ?case by (cases b) auto
qed

lemma fence_chars: "is_fence k \<Longrightarrow> \<exists>s. k = ''problem:user_profile:generation:'' @ s \<and> (s = ''global'' \<or> (\<exists>u. s = ''user:'' @ int_str u))"
  by (auto simp: is_fence_def profileGlobalGenerationKey_def profileUserGenerationKey_def profileUserGenerationPref_def)

lemma fence_suffix:
  assumes "is_fence k" "x \<noteq> []" "hd x = CHR '':''"
  shows "\<not> is_fence (k @ x)"
proof
  assume kx: "is_fence (k @ x)"
  obtain y where x: "x = CHR '':'' # y" using assms(2,3) by (cases x) auto
  obtain s where s: "k = ''problem:user_profile:generation:'' @ s" "s = ''global'' \<or> (\<exists>u. s = ''user:'' @ int_str u)"
    using fence_chars[OF assms(1)] by blast
  obtain s' where s': "k @ x = ''problem:user_profile:generation:'' @ s'" "s' = ''global'' \<or> (\<exists>u. s' = ''user:'' @ int_str u)"
    using fence_chars[OF kx] by blast
  have eq: "s @ x = s'" using s(1) s'(1) by simp
  show False
  proof (cases "s = ''global''")
    case True
    then show False using eq s'(2) x by auto
  next
    case False
    then obtain u where u: "s = ''user:'' @ int_str u" using s(2) by blast
    then obtain v where "s' = ''user:'' @ int_str v" using eq s'(2) by auto
    then have "int_str u @ x = int_str v" using eq u by simp
    then have "CHR '':'' \<in> set (int_str v)" using x by (metis in_set_conv_decomp)
    then show False by simp
  qed
qed

lemma lease_not_fence [simp]: "is_fence k \<Longrightarrow> \<not> is_fence (lease_key k)" "is_fence k \<Longrightarrow> \<not> is_fence (intent_key k)"
  unfolding lease_key_def intent_key_def by (rule fence_suffix; simp)+

lemma lease_neq [simp]: "lease_key k \<noteq> k" "k \<noteq> lease_key k" "intent_key k \<noteq> k" "k \<noteq> intent_key k"
    "lease_key k \<noteq> intent_key k" "intent_key k \<noteq> lease_key k"
  by (simp_all add: lease_key_def intent_key_def)

lemma fence_gen_prefix: "is_fence k \<Longrightarrow> has_prefix k ''problem:user_profile:g''"
  by (drule fence_chars) auto

lemma not_fence_s: "has_prefix k ''problem:user_profile:s'' \<Longrightarrow> \<not> is_fence k"
  using fence_gen_prefix[of k] by (auto simp: has_prefix_iff)

lemma not_fence_u: "has_prefix k ''u'' \<Longrightarrow> \<not> is_fence k"
  using fence_gen_prefix[of k] by (auto simp: has_prefix_iff)

text \<open>The cache entries of a user, and of no other user.\<close>

definition entry_of :: "int \<Rightarrow> string \<Rightarrow> bool" where
  "entry_of u k \<longleftrightarrow> has_prefix k (user_cache_pref u)"

lemma user_cache_pref_cases: "user_cache_pref u = ''problem:user_profile:s'' @ ''9:u'' @ int_str u @ '':''"
  by (simp add: user_cache_pref_def userProfileCacheSchema_def)

lemma entry_unique: "entry_of u k \<Longrightarrow> entry_of v k \<Longrightarrow> u = v"
  unfolding entry_of_def has_prefix_iff user_cache_pref_cases using colon_split[of "int_str u" "int_str v"] by auto

lemma entry_not_fence: "entry_of u k \<Longrightarrow> \<not> is_fence k"
  unfolding entry_of_def by (rule not_fence_s) (auto simp: has_prefix_iff user_cache_pref_cases)

lemma entry_keys [simp]:
  "entry_of u (userProfileExactCacheKeyForGeneration u m ev g)" "entry_of u (userProfileLatestKey u)"
  by (simp_all add: entry_of_def userProfileExactCacheKeyForGeneration_def userProfileLatestKey_def)

lemma fp_not_fence [simp]: "\<not> is_fence (userProfileFpKey u)" "\<not> is_fence (pending_key u)" "\<not> is_fence (profile_key u)"
  by (rule not_fence_u; simp add: userProfileFpKey_def userProfileFpPref_def pending_key_def profile_key_def)+

lemma glob_prefix:
  "CHR ''*'' \<notin> set p \<Longrightarrow> glob (p @ q) s \<Longrightarrow> has_prefix s p"
  by (induction p arbitrary: s) (auto split: list.splits)

lemma pattern_not_fence:
  "glob (''problem:user_profile:s*:u'' @ x) k \<Longrightarrow> \<not> is_fence k"
  "glob (userProfileFpPref @ ''*'') k \<Longrightarrow> \<not> is_fence k"
  "glob (''user_profile:pending:*'') k \<Longrightarrow> \<not> is_fence k"
proof -
  assume "glob (''problem:user_profile:s*:u'' @ x) k"
  then have "glob (''problem:user_profile:s'' @ ''*:u'' @ x) k" by (simp only: append_Cons append_Nil)
  then show "\<not> is_fence k" by (intro not_fence_s glob_prefix) (simp, assumption)
next
  assume "glob (userProfileFpPref @ ''*'') k"
  then have "glob (''u'' @ ''ser_profile:fp:*'') k" by (simp add: userProfileFpPref_def)
  then show "\<not> is_fence k" by (intro not_fence_u glob_prefix) (simp, assumption)
next
  assume "glob (''user_profile:pending:*'') k"
  then have "glob (''u'' @ ''ser_profile:pending:*'') k" by (simp only: append_Cons append_Nil)
  then show "\<not> is_fence k" by (intro not_fence_u glob_prefix) (simp, assumption)
qed

subsection \<open>Scripts never lower a counter and never invent an entry\<close>

definition counters_ok :: "'p predis \<Rightarrow> bool" where
  "counters_ok r \<longleftrightarrow> (\<forall>k. is_fence k \<longrightarrow> r k = None \<or> (\<exists>n\<ge>0. r k = Some (PNum n, None)))"

definition guarded :: "'p predis \<Rightarrow> 'p predis \<Rightarrow> bool" where
  "guarded r r' \<longleftrightarrow> counters_ok r' \<and> (\<forall>k. is_fence k \<longrightarrow> counter r k \<le> counter r' k)
     \<and> (\<forall>k s e. r' k = Some (PSnap s, e) \<longrightarrow> (\<exists>e. r k = Some (PSnap s, e)))"

lemma guarded_refl [simp]: "counters_ok r \<Longrightarrow> guarded r r"
  by (auto simp: guarded_def)

lemma guarded_trans: "guarded r1 r2 \<Longrightarrow> guarded r2 r3 \<Longrightarrow> guarded r1 r3"
  unfolding guarded_def by (meson order_trans)

lemma guarded_ok: "guarded r r' \<Longrightarrow> counters_ok r'"
  by (simp add: guarded_def)

lemma counters_num: "counters_ok r \<Longrightarrow> is_fence k \<Longrightarrow> lua_num now r k = Some (counter r k)"
  unfolding counters_ok_def lua_num_def counter_def rget_def by fastforce

lemma counter_nonneg: "counters_ok r \<Longrightarrow> is_fence k \<Longrightarrow> 0 \<le> counter r k"
  unfolding counters_ok_def counter_def by fastforce

lemma fence_keys [simp]: "is_fence profileGlobalGenerationKey" "is_fence (profileUserGenerationKey u)"
  by (auto simp: is_fence_def)

text \<open>Writing a string or a counter, or deleting, at a key that is no fence.\<close>

lemma guarded_upd:
  assumes "counters_ok r" and "\<not> is_fence k" and "\<And>s e. x \<noteq> Some (PSnap s, e)"
  shows "guarded r (r(k := x))"
  using assms unfolding guarded_def counters_ok_def counter_def by auto

lemma guarded_set_px:
  "counters_ok r \<Longrightarrow> \<not> is_fence k \<Longrightarrow> guarded r (set_px now k (PStr s) ttl r)"
  "counters_ok r \<Longrightarrow> \<not> is_fence k \<Longrightarrow> guarded r (set_px now k (PNum n) ttl r)"
  unfolding set_px_def by (rule guarded_upd; simp)+

lemma guarded_incr:
  assumes ok: "counters_ok r" and k: "is_fence k" and n: "lua_num now r k = Some n"
  shows "guarded r (incr now k n r)"
proof -
  have c: "n = counter r k" using counters_num[OF ok k] n by simp
  have "(case rget now r k of None \<Rightarrow> None | Some _ \<Rightarrow> snd (the (r k))) = None"
    using ok k unfolding counters_ok_def rget_def by fastforce
  then have i: "incr now k n r = r(k \<mapsto> (PNum (n + 1), None))" by (simp add: incr_def)
  have "0 \<le> n" using counter_nonneg[OF ok k] c by simp
  then show ?thesis using ok c unfolding i guarded_def counters_ok_def counter_def by auto
qed

lemma guarded_del: "counters_ok r \<Longrightarrow> \<forall>k\<in>set ks. \<not> is_fence k \<Longrightarrow> guarded r (del_keys ks r)"
proof (induction ks arbitrary: r)
  case Nil
  then show ?case by (simp add: del_keys_def)
next
  case (Cons k ks)
  have g: "guarded r (r(k := None))" using Cons.prems by (intro guarded_upd) auto
  have "guarded (r(k := None)) (del_keys ks (r(k := None)))" using Cons g guarded_ok by auto
  then show ?case using guarded_trans[OF g] by (simp add: del_keys_def)
qed

lemma rpc_guarded:
  "counters_ok r \<Longrightarrow> guarded r (fst (op r)) \<Longrightarrow> guarded r (fst (rpc f op r))"
  by (simp add: rpc_def split: fault.split)

lemma begin_guarded:
  assumes ok: "counters_ok r" and k: "is_fence k"
  shows "guarded r (fst (profileBeginInvalidationScript now k lv ttl it r))"
proof -
  have num: "lua_num now r k = Some (counter r k)" by (rule counters_num[OF ok k])
  have inc: "guarded r (incr now k (counter r k) r)" by (rule guarded_incr[OF ok k num])
  have int: "guarded r ((incr now k (counter r k) r)(intent_key k \<mapsto> (PStr it, None)))"
    using guarded_trans[OF inc guarded_upd[OF guarded_ok[OF inc], of "intent_key k"]] k by simp
  have "guarded r (set_px now (lease_key k) (PStr lv) ttl ((incr now k (counter r k) r)(intent_key k \<mapsto> (PStr it, None))))"
    using guarded_trans[OF int guarded_set_px(1)[OF guarded_ok[OF int], of "lease_key k"]] k by simp
  then show ?thesis
    using ok k guarded_set_px(1)[OF ok, of "lease_key k"]
    by (simp add: profileBeginInvalidationScript_def Let_def num set_nx_def)
qed

lemma validate_guarded:
  "counters_ok r \<Longrightarrow> is_fence k \<Longrightarrow> guarded r (fst (profileValidateInvalidationScript now k lv g ttl it r))"
  by (simp add: profileValidateInvalidationScript_def guarded_set_px)

lemma finish_guarded:
  assumes ok: "counters_ok r" and k: "is_fence k"
  shows "guarded r (fst (profileFinishInvalidationScript now k lv g it r))"
proof (cases "owns now k lv g it r")
  case True
  then have "lua_num now r k = Some g" by (simp add: owns_def)
  then have inc: "guarded r (incr now k g r)" by (rule guarded_incr[OF ok k])
  have l: "guarded r ((incr now k g r)(lease_key k := None))"
    using guarded_trans[OF inc guarded_upd[OF guarded_ok[OF inc], of "lease_key k"]] k by simp
  have "guarded r ((incr now k g r)(lease_key k := None, intent_key k := None))"
    using guarded_trans[OF l guarded_upd[OF guarded_ok[OF l], of "intent_key k"]] k by simp
  with True show ?thesis by (simp add: profileFinishInvalidationScript_def)
qed (simp add: profileFinishInvalidationScript_def ok)

lemma abandon_guarded:
  "counters_ok r \<Longrightarrow> is_fence k \<Longrightarrow> guarded r (fst (profileAbandonInvalidationScript now k lv g it r))"
  by (simp add: profileAbandonInvalidationScript_def guarded_upd)

lemma delete_owned_guarded:
  assumes ok: "counters_ok r" and k: "is_fence k" and ks: "\<forall>x\<in>set ks. \<not> is_fence x"
  shows "guarded r (fst (profileDeleteOwnedScript now k lv g it ttl ks r))"
proof -
  have l: "guarded r (set_px now (lease_key k) (PStr lv) ttl r)" using ok k by (simp add: guarded_set_px)
  have "guarded r (del_keys ks (set_px now (lease_key k) (PStr lv) ttl r))"
    using guarded_trans[OF l guarded_del[OF guarded_ok[OF l] ks]] .
  then show ?thesis using ok by (simp add: profileDeleteOwnedScript_def Let_def)
qed

lemma increment_owned_guarded:
  assumes ok: "counters_ok r" and k: "is_fence k" and t: "\<not> is_fence target"
  shows "guarded r (fst (profileIncrementGenerationOwnedScript now k lv g it ttl tttl target r))"
proof -
  have l: "guarded r (set_px now (lease_key k) (PStr lv) ttl r)" using ok k by (simp add: guarded_set_px)
  have "guarded r (set_px now target (PNum n) tttl (set_px now (lease_key k) (PStr lv) ttl r))" for n
    using guarded_trans[OF l guarded_set_px(2)[OF guarded_ok[OF l] t]] .
  then show ?thesis using ok l
    by (simp add: profileIncrementGenerationOwnedScript_def Let_def split: option.split)
qed

lemma recover_guarded:
  assumes ok: "counters_ok r" and k: "is_fence k"
  shows "guarded r (fst (profileRecoverOrphanScript now k r))"
proof -
  have num: "lua_num now r k = Some (counter r k)" by (rule counters_num[OF ok k])
  have inc: "guarded r (incr now k (counter r k) r)" by (rule guarded_incr[OF ok k num])
  have "guarded r ((incr now k (counter r k) r)(intent_key k := None))"
    using guarded_trans[OF inc guarded_upd[OF guarded_ok[OF inc], of "intent_key k"]] k by simp
  then show ?thesis using ok by (simp add: profileRecoverOrphanScript_def num)
qed

named_theorems guard_intros \<open>the operations that are guarded\<close>

lemma begin_op_guarded [guard_intros]:
  assumes "counters_ok r" "is_fence k"
  shows "guarded r (fst (beginProfileInvalidationForAttemptWithTTL now cl k it own ttl r))"
proof (cases cl)
  case (Some f)
  define t :: ProfileInvalidationToken
    where "t = \<lparr>tk_Generation = 0, tk_IntentID = it, tk_Owner = own, tk_lease = None\<rparr>"
  obtain r' v where rv: "rpc f (profileBeginInvalidationScript now k (lease_value t) ttl it) r = (r', v)" by fastforce
  have "guarded r (fst (rpc f (profileBeginInvalidationScript now k (lease_value t) ttl it) r))"
    by (intro rpc_guarded begin_guarded assms)
  then have "guarded r r'" by (simp add: rv)
  then show ?thesis using Some assms(1)
    by (simp add: beginProfileInvalidationForAttemptWithTTL_def Let_def t_def[symmetric] rv split: option.split sum.split)
qed (simp add: beginProfileInvalidationForAttemptWithTTL_def Let_def assms)

lemma validate_op_guarded [guard_intros]:
  assumes "counters_ok r" "is_fence k"
  shows "guarded r (fst (validateProfileInvalidation now cl k t r))"
proof (cases "cl = None \<or> leaseError t \<noteq> None")
  case True
  then show ?thesis using assms by (auto simp: validateProfileInvalidation_def split: option.split)
next
  case False
  then obtain f where f: "cl = Some f" "leaseError t = None" by auto
  define rr where "rr = rpc f (profileValidateInvalidationScript now k (lease_value t) (tk_Generation t) (token_ttl t) (tk_IntentID t)) r"
  have "guarded r (fst rr)" unfolding rr_def by (intro rpc_guarded validate_guarded assms)
  then show ?thesis
    using f by (cases rr) (simp add: validateProfileInvalidation_def rr_def[symmetric] split: sum.split)
qed

lemma beat_guarded [guard_intros]:
  assumes "counters_ok r" "is_fence k"
  shows "guarded r (fst (heartbeat_tick now f k t r))"
proof -
  obtain r' v where rv: "validateProfileInvalidation now (Some f) k t r = (r', v)" by fastforce
  then show ?thesis using validate_op_guarded[OF assms, of now "Some f" t] assms(1)
    by (simp add: heartbeat_tick_def split: option.split)
qed

lemma finish_op_guarded [guard_intros]:
  assumes "counters_ok r" "is_fence k"
  shows "guarded r (fst (finishProfileInvalidation now cl k t r))"
proof (cases cl)
  case (Some f)
  define rr where "rr = rpc f (profileFinishInvalidationScript now k (lease_value t) (tk_Generation t) (tk_IntentID t)) r"
  have "guarded r (fst rr)" unfolding rr_def by (intro rpc_guarded finish_guarded assms)
  then show ?thesis
    using Some by (cases rr) (simp add: finishProfileInvalidation_def rr_def[symmetric] split: sum.split)
qed (simp add: finishProfileInvalidation_def assms)

lemma abandon_op_guarded [guard_intros]:
  assumes "counters_ok r" "is_fence k"
  shows "guarded r (fst (abandonProfileInvalidation now cl k t r))"
proof (cases cl)
  case (Some f)
  define rr where "rr = rpc f (profileAbandonInvalidationScript now k (lease_value t) (tk_Generation t) (tk_IntentID t)) r"
  have "guarded r (fst rr)" unfolding rr_def by (intro rpc_guarded abandon_guarded assms)
  then show ?thesis
    using Some by (cases rr) (simp add: abandonProfileInvalidation_def rr_def[symmetric] split: sum.split)
qed (simp add: abandonProfileInvalidation_def assms)

lemma bump_guarded [guard_intros]:
  assumes "counters_ok r" "\<not> has_prefix target ''problem:user_profile:''"
  shows "guarded r (fst (BumpUserProfileOwnedGeneration now cl u t target tttl r))"
proof -
  have tf: "\<not> is_fence target"
  proof
    assume "is_fence target"
    then have "has_prefix target ''problem:user_profile:g''" by (rule fence_gen_prefix)
    then have "has_prefix target (''problem:user_profile:'' @ ''g'')" by simp
    then show False using has_prefix_trans assms(2) by blast
  qed
  have "guarded r (fst (incrementGenerationOwned now cl (profileUserGenerationKey u) t target tttl r))"
  proof (cases cl)
    case (Some f)
    obtain r' v where rv: "rpc f (profileIncrementGenerationOwnedScript now (profileUserGenerationKey u) (lease_value t)
      (tk_Generation t) (tk_IntentID t) (token_ttl t) tttl target) r = (r', v)" by fastforce
    have "guarded r (fst (rpc f (profileIncrementGenerationOwnedScript now (profileUserGenerationKey u) (lease_value t)
      (tk_Generation t) (tk_IntentID t) (token_ttl t) tttl target) r))"
      by (intro rpc_guarded increment_owned_guarded assms(1) tf fence_keys)
    then have "guarded r r'" by (simp add: rv)
    then show ?thesis
      using Some assms(1) by (simp add: incrementGenerationOwned_def rv split: option.split sum.split)
  qed (simp add: incrementGenerationOwned_def assms)
  then show ?thesis using assms(1) by (simp add: BumpUserProfileOwnedGeneration_def)
qed

lemma delete_op_guarded [guard_intros]:
  assumes "counters_ok r" "is_fence k" "\<forall>x\<in>set ks. \<not> is_fence x"
  shows "guarded r (fst (deleteProfileKeysOwned now f k t ks r))"
proof -
  define rr where "rr = rpc f (profileDeleteOwnedScript now k (lease_value t) (tk_Generation t) (tk_IntentID t) (token_ttl t) ks) r"
  have "guarded r (fst rr)" unfolding rr_def by (intro rpc_guarded delete_owned_guarded assms)
  then show ?thesis
    using assms(1) by (cases rr) (simp add: deleteProfileKeysOwned_def rr_def[symmetric] split: sum.split)
qed

lemma delete_pattern_guarded [guard_intros]:
  assumes "counters_ok r" "is_fence k" "\<And>x. glob pat x \<Longrightarrow> \<not> is_fence x"
  shows "guarded r (fst (deleteProfileCachePattern now k t pat scans r))"
  using assms(1)
proof (induction scans arbitrary: r)
  case (Cons s scans)
  obtain f1 f2 f3 ks where s: "s = (f1, f2, f3, ks)" by (metis prod_cases4)
  obtain r1 v where v: "validateProfileInvalidation now (Some f1) k t r = (r1, v)" by fastforce
  have g1: "guarded r r1" using validate_op_guarded[OF Cons.prems assms(2), of now "Some f1" t] v by simp
  obtain r2 d where d: "deleteProfileKeysOwned now f3 k t (filter (glob pat) ks) r1 = (r2, d)" by fastforce
  have g2: "guarded r r2"
    using guarded_trans[OF g1] delete_op_guarded[OF guarded_ok[OF g1] assms(2), of "filter (glob pat) ks" now f3 t] d assms(3)
    by simp
  have "guarded r (fst (deleteProfileCachePattern now k t pat scans r2))"
    using guarded_trans[OF g2 Cons.IH[OF guarded_ok[OF g2]]] .
  then show ?case using g1 g2 by (simp add: s v d split: option.split)
qed simp

lemma finish_user_guarded [guard_intros]:
  assumes ok: "counters_ok r"
  shows "guarded r (fst (FinishUserProfileInvalidation now cl fs scans u t r))"
proof (cases cl)
  case (Some f)
  let ?k = "profileUserGenerationKey u"
  let ?pat = "''problem:user_profile:s*:u'' @ int_str u @ '':*''"
  obtain r1 v where v: "validateProfileInvalidation now (Some f) ?k t r = (r1, v)" by fastforce
  have g1: "guarded r r1" using validate_op_guarded[OF ok fence_keys(2), of now "Some f" u t] v by simp
  obtain r2 d where d: "deleteProfileCachePattern now ?k t ?pat scans r1 = (r2, d)" by fastforce
  have g2: "guarded r r2"
  proof -
    have "guarded r1 (fst (deleteProfileCachePattern now ?k t ?pat scans r1))"
      by (rule delete_pattern_guarded[OF guarded_ok[OF g1] fence_keys(2)])
         (rule pattern_not_fence(1)[of "int_str u @ '':*''"], simp)
    then show ?thesis unfolding d fst_conv by (rule guarded_trans[OF g1])
  qed
  obtain r3 e where e: "deleteProfileKeysOwned now (fst fs) ?k t [userProfileFpKey u, pending_key u, profile_key u] r2 = (r3, e)"
    by fastforce
  have g3: "guarded r r3"
    using guarded_trans[OF g2] delete_op_guarded[OF guarded_ok[OF g2] fence_keys(2),
        of "[userProfileFpKey u, pending_key u, profile_key u]" now "fst fs" u t] e by simp
  have "guarded r (fst (finishProfileInvalidation now (Some (snd fs)) ?k t r3))"
    using guarded_trans[OF g3 finish_op_guarded[OF guarded_ok[OF g3] fence_keys(2)]] .
  then show ?thesis using Some g1 g2 g3
    unfolding FinishUserProfileInvalidation_def Let_def option.case
    by (simp only: option.case v prod.case d e split: option.split) simp
qed (simp add: FinishUserProfileInvalidation_def ok)

lemma delete_patterns_guarded:
  assumes "counters_ok r" "is_fence k" "\<forall>(pat, scans)\<in>set ps. \<forall>x. glob pat x \<longrightarrow> \<not> is_fence x"
  shows "guarded r (fst (delete_patterns now k t ps r))"
  using assms(1,3)
proof (induction ps arbitrary: r)
  case (Cons p ps)
  obtain pat scans where p: "p = (pat, scans)" by fastforce
  obtain r1 v where v: "deleteProfileCachePattern now k t pat scans r = (r1, v)" by fastforce
  have g1: "guarded r r1"
    using delete_pattern_guarded[OF Cons.prems(1) assms(2), of pat now t scans] Cons.prems(2) p v by simp
  have "guarded r (fst (delete_patterns now k t ps r1))"
    using guarded_trans[OF g1] Cons.IH[OF guarded_ok[OF g1]] Cons.prems(2) by simp
  then show ?case using g1 by (simp add: p v split: option.split)
qed simp

lemma finish_global_guarded [guard_intros]:
  assumes ok: "counters_ok r"
  shows "guarded r (fst (FinishGlobalProfileInvalidation now cl f2 scans t r))"
proof (cases cl)
  case (Some f)
  let ?k = "profileGlobalGenerationKey"
  let ?ps = "[(''problem:user_profile:s*:u*:*'', fst scans), (userProfileFpPref @ ''*'', fst (snd scans)),
                     (''user_profile:pending:*'', snd (snd scans))]"
  obtain r1 v where v: "validateProfileInvalidation now (Some f) ?k t r = (r1, v)" by fastforce
  have g1: "guarded r r1" using validate_op_guarded[OF ok fence_keys(1), of now "Some f" t] v by simp
  obtain r2 d where d: "delete_patterns now ?k t ?ps r1 = (r2, d)" by fastforce
  have "\<forall>(pat, scans)\<in>set ?ps. \<forall>x. glob pat x \<longrightarrow> \<not> is_fence x"
    using pattern_not_fence(1)[of "''*:*''"] pattern_not_fence(2,3) by auto
  then have g2: "guarded r r2"
    using guarded_trans[OF g1] delete_patterns_guarded[OF guarded_ok[OF g1] fence_keys(1), of ?ps now t] d by simp
  have "guarded r (fst (finishProfileInvalidation now (Some f2) ?k t r2))"
    using guarded_trans[OF g2 finish_op_guarded[OF guarded_ok[OF g2] fence_keys(1)]] .
  then show ?thesis using Some g1 g2
    unfolding FinishGlobalProfileInvalidation_def Let_def
    by (simp only: option.case v prod.case d split: option.split) simp
qed (simp add: FinishGlobalProfileInvalidation_def ok)

lemma recover_loop_guarded:
  "counters_ok r \<Longrightarrow> (\<And>k v. (k, v) \<in> set kvs \<Longrightarrow> is_fence k) \<Longrightarrow> guarded r (recover_loop now fs kvs r)"
proof (induction kvs arbitrary: fs r)
  case (Cons kv kvs)
  obtain k v where kv: "kv = (k, v)" by fastforce
  have k: "is_fence k" using Cons.prems(2)[of k v] kv by simp
  have step: "guarded r (fst (rpc f (profileRecoverOrphanScript now k) r))" for f
    by (intro rpc_guarded recover_guarded Cons.prems(1) k)
  have rest: "guarded r' (recover_loop now fs' kvs r')" if "counters_ok r'" for r' fs'
    by (rule Cons.IH[OF that Cons.prems(2)]) (rule list.set_intros(2))
  have go: "guarded r (recover_loop now fs' kvs (fst (rpc f (profileRecoverOrphanScript now k) r)))" for f fs'
    by (rule guarded_trans[OF step rest[OF guarded_ok[OF step]]])
  show ?case
    using rest[OF Cons.prems(1)] go by (auto simp: kv split: option.split pval.split list.split)
qed simp

lemma suffix_keys [simp]: "has_suffix (lease_key k) '':lease''" "has_suffix (intent_key k) '':current_intent''"
  by (simp_all add: has_suffix_def lease_key_def intent_key_def del: has_prefix.simps)
     (simp_all add: has_prefix_iff)

lemma recover_op_guarded [guard_intros]:
  assumes ok: "counters_ok r"
    and f: "\<forall>l. found = Inl l \<longrightarrow> (\<forall>k\<in>set l. is_fence k \<or> (\<exists>k'. is_fence k' \<and> k \<in> {lease_key k', intent_key k'}))"
  shows "guarded r (fst (RecoverOrphanedProfileInvalidations now cl rfs found r))"
proof (cases "cl = None \<or> (\<exists>e. found = Inr e)")
  case True
  then show ?thesis using ok by (auto simp: RecoverOrphanedProfileInvalidations_def split: option.split)
next
  case False
  then obtain f l where fl: "cl = Some f" "found = Inl l" by (cases cl; cases found) auto
  define ks where "ks = profileGlobalGenerationKey #
                  filter (\<lambda>k. has_prefix k profileUserGenerationPref \<and> \<not> has_suffix k '':lease''
                     \<and> \<not> has_suffix k '':current_intent'') l"
  have "is_fence k" if "k \<in> set ks" for k
    using that f fl(2) unfolding ks_def by auto
  then have "guarded r (recover_loop now rfs (map (\<lambda>k. (k, rget now r k)) ks) r)"
    by (intro recover_loop_guarded ok) auto
  moreover have "snd (rpc f (\<lambda>r. (r, map (\<lambda>k. (k, rget now r k)) ks)) r) \<in>
      {Inr (map (\<lambda>k. (k, rget now r k)) ks)} \<union> range Inl" by (cases f) (auto simp: rpc_def)
  ultimately show ?thesis using ok fl
    by (auto simp: RecoverOrphanedProfileInvalidations_def Let_def ks_def[symmetric])
qed

subsection \<open>Coherence\<close>

lemma evidence_inj [simp]: "evidence_str d r = evidence_str d' r' \<longleftrightarrow> d = d' \<and> r = r'"
proof -
  have "CHR '':'' \<notin> set (nat_str n)" for n using nat_str_digits[of "CHR '':''" n] by (auto simp: is_digit_char_def)
  then show ?thesis using colon_split[of "nat_str d" "nat_str d'" "''u'' @ nat_str r" "''u'' @ nat_str r'"]
    by (simp add: evidence_str_def)
qed

definition evidence_of :: "'f profile_db \<Rightarrow> int \<Rightarrow> string" where
  "evidence_of db u = evidence_str (pd_Dataset db) (pd_User db u)"

text \<open>Evidence that the database has now or had before.\<close>

definition past :: "'f profile_db \<Rightarrow> int \<Rightarrow> string \<Rightarrow> bool" where
  "past db u ev \<longleftrightarrow> (\<exists>d\<le>pd_Dataset db. \<exists>r\<le>pd_User db u. ev = evidence_str d r)"

lemma fold_bump_user:
  "pd_Model (fold bump_user us db) = pd_Model db" "pd_Dataset (fold bump_user us db) = pd_Dataset db"
  "pd_facts (fold bump_user us db) = pd_facts db" "pd_User db u \<le> pd_User (fold bump_user us db) u"
  "0 < u \<Longrightarrow> u \<in> set us \<Longrightarrow> pd_User db u < pd_User (fold bump_user us db) u"
proof (induction us arbitrary: db)
  case (Cons a us)
  { case 4 show ?case using Cons.IH(4)[of "bump_user a db"] by (auto simp: bump_user_def split: if_splits) }
  { case 5
    show ?case
    proof (cases "a = u")
      case True
      have "pd_User (bump_user a db) u \<le> pd_User (fold bump_user us (bump_user a db)) u" by (rule Cons.IH(4))
      moreover have "pd_User db u < pd_User (bump_user a db) u" using 5 True by (simp add: bump_user_def)
      ultimately show ?thesis by simp
    next
      case False
      then have "pd_User (bump_user a db) u < pd_User (fold bump_user us (bump_user a db)) u"
        using 5 by (intro Cons.IH(5)) auto
      moreover have "pd_User (bump_user a db) u = pd_User db u" using False by (simp add: bump_user_def)
      ultimately show ?thesis by simp
    qed }
qed (use bump_user_def in \<open>auto simp: bump_user_def\<close>)

lemma fire_revisions:
  "pd_Model (fire st db) = pd_Model db" "pd_facts (fire st db) = pd_facts db"
  "pd_Dataset db \<le> pd_Dataset (fire st db)" "pd_User db u \<le> pd_User (fire st db) u"
  "0 < u \<Longrightarrow> touched [st] u \<Longrightarrow> pd_Dataset db < pd_Dataset (fire st db) \<or> pd_User db u < pd_User (fire st db) u"
  by (cases st; simp add: fold_bump_user bump_dataset_def touched_def)+

lemma transaction_revisions:
  "pd_Model (transaction f sts db) = pd_Model db" "pd_facts (transaction f sts db) = f"
  "pd_Dataset db \<le> pd_Dataset (transaction f sts db)" "pd_User db u \<le> pd_User (transaction f sts db) u"
  "0 < u \<Longrightarrow> touched sts u \<Longrightarrow> pd_Dataset db < pd_Dataset (transaction f sts db) \<or> pd_User db u < pd_User (transaction f sts db) u"
proof -
  have "pd_Model (fold fire sts db) = pd_Model db \<and> pd_facts (fold fire sts db) = pd_facts db
      \<and> pd_Dataset db \<le> pd_Dataset (fold fire sts db) \<and> pd_User db u \<le> pd_User (fold fire sts db) u
      \<and> (0 < u \<longrightarrow> touched sts u \<longrightarrow> pd_Dataset db < pd_Dataset (fold fire sts db) \<or> pd_User db u < pd_User (fold fire sts db) u)"
    for db :: "'a profile_db"
  proof (induction sts arbitrary: db)
    case (Cons st sts)
    have "touched (st # sts) u \<longleftrightarrow> touched [st] u \<or> touched sts u" by (simp add: touched_def)
    then show ?case using Cons.IH[of "fire st db"] fire_revisions(1-3)[where st = st and db = db] fire_revisions(4,5)[where u = u and db = db and st = st] by force
  qed (simp add: touched_def)
  from this[of "db\<lparr>pd_facts := f\<rparr>"] show
    "pd_Model (transaction f sts db) = pd_Model db" "pd_facts (transaction f sts db) = f"
    "pd_Dataset db \<le> pd_Dataset (transaction f sts db)" "pd_User db u \<le> pd_User (transaction f sts db) u"
    "0 < u \<Longrightarrow> touched sts u \<Longrightarrow> pd_Dataset db < pd_Dataset (transaction f sts db) \<or> pd_User db u < pd_User (transaction f sts db) u"
    by (simp_all add: transaction_def)
qed

text \<open>A snapshot taken at generations that are not beyond the counters and at evidence that is not beyond the
  revisions; if they still are the counters and even, and the evidence still is that of the user, its content is
  current.\<close>

definition current_at ::
  "(int \<Rightarrow> nat \<Rightarrow> 'f \<Rightarrow> 'p) \<Rightarrow> 'p predis \<Rightarrow> 'f profile_db \<Rightarrow> int \<Rightarrow> nat \<Rightarrow> string \<Rightarrow> int \<Rightarrow> int \<Rightarrow> 'p \<Rightarrow> bool" where
  "current_at compute r db u m ev g n p \<longleftrightarrow>
     g \<le> counter r profileGlobalGenerationKey \<and> n \<le> counter r (profileUserGenerationKey u)
     \<and> 0 < u \<and> m \<le> pd_Model db \<and> past db u ev
     \<and> (g = counter r profileGlobalGenerationKey \<and> n = counter r (profileUserGenerationKey u)
         \<and> \<not> fenced r u \<and> ev = evidence_of db u \<longrightarrow> p = compute u m (pd_facts db))"

definition coherent :: "(int \<Rightarrow> nat \<Rightarrow> 'f \<Rightarrow> 'p) \<Rightarrow> ('p, 'f) pworld \<Rightarrow> bool" where
  "coherent compute w \<longleftrightarrow> counters_ok (p_redis w)
     \<and> (\<forall>u k s e. entry_of u k \<longrightarrow> p_redis w k = Some (PSnap s, e) \<longrightarrow>
          current_at compute (p_redis w) (p_db w) u (ModelVersion s) (EvidenceVersion s)
            (GlobalGeneration s) (UserGeneration s) (sn_body s))
     \<and> (\<forall>u g. GenRead u g \<in> set (p_builders w) \<longrightarrow>
          gen_Global g \<le> counter (p_redis w) profileGlobalGenerationKey
          \<and> gen_User g \<le> counter (p_redis w) (profileUserGenerationKey u))
     \<and> (\<forall>u g m ev. IdRead u g m ev \<in> set (p_builders w) \<longrightarrow>
          gen_Global g \<le> counter (p_redis w) profileGlobalGenerationKey
          \<and> gen_User g \<le> counter (p_redis w) (profileUserGenerationKey u)
          \<and> 0 < u \<and> m \<le> pd_Model (p_db w) \<and> past (p_db w) u ev)
     \<and> (\<forall>u g m ev p. Computed u g m ev p \<in> set (p_builders w) \<longrightarrow>
          current_at compute (p_redis w) (p_db w) u m ev (gen_Global g) (gen_User g) p)
     \<and> (\<forall>u m ev g s. Planned u (BuildPublish m ev g s) \<in> set (p_builders w) \<longrightarrow>
          current_at compute (p_redis w) (p_db w) u m ev (gen_Global g) (gen_User g) (sn_body s))"

lemma current_at_mono:
  assumes "current_at compute r db u m ev g n p" and "guarded r r'"
  shows "current_at compute r' db u m ev g n p"
proof -
  have le: "counter r profileGlobalGenerationKey \<le> counter r' profileGlobalGenerationKey"
    "counter r (profileUserGenerationKey u) \<le> counter r' (profileUserGenerationKey u)"
    using assms(2) by (simp_all add: guarded_def)
  have "\<not> fenced r u" if "counter r' profileGlobalGenerationKey = counter r profileGlobalGenerationKey"
      "counter r' (profileUserGenerationKey u) = counter r (profileUserGenerationKey u)" "\<not> fenced r' u"
    using that by (simp add: fenced_def)
  then show ?thesis using assms(1) le unfolding current_at_def by fastforce
qed

lemma guarded_coherent:
  assumes c: "coherent compute w" and g: "guarded (p_redis w) r'"
  shows "coherent compute (w\<lparr>p_redis := r'\<rparr>)"
proof -
  have le: "counter (p_redis w) k \<le> counter r' k" if "is_fence k" for k using g that by (simp add: guarded_def)
  have sub: "\<exists>e. p_redis w k = Some (PSnap s, e)" if "r' k = Some (PSnap s, e)" for k s e
    using g that by (simp add: guarded_def)
  have "current_at compute r' (p_db w) u (ModelVersion s) (EvidenceVersion s) (GlobalGeneration s) (UserGeneration s) (sn_body s)"
    if k: "entry_of u k" "r' k = Some (PSnap s, e)" for u k s e
  proof -
    obtain e' where e': "p_redis w k = Some (PSnap s, e')" using sub[OF k(2)] by (elim exE)
    have "current_at compute (p_redis w) (p_db w) u (ModelVersion s) (EvidenceVersion s) (GlobalGeneration s)
        (UserGeneration s) (sn_body s)" using c k(1) e' unfolding coherent_def by blast
    then show ?thesis by (rule current_at_mono[OF _ g])
  qed
  moreover have "current_at compute r' (p_db w) u m ev (gen_Global h) (gen_User h) (sn_body s)"
    if "Planned u (BuildPublish m ev h s) \<in> set (p_builders w)" for u m ev h s
  proof -
    have "current_at compute (p_redis w) (p_db w) u m ev (gen_Global h) (gen_User h) (sn_body s)"
      using c that unfolding coherent_def by blast
    then show ?thesis by (rule current_at_mono[OF _ g])
  qed
  moreover have "current_at compute r' (p_db w) u m ev (gen_Global h) (gen_User h) p"
    if "Computed u h m ev p \<in> set (p_builders w)" for u m ev h p
  proof -
    have "current_at compute (p_redis w) (p_db w) u m ev (gen_Global h) (gen_User h) p"
      using c that unfolding coherent_def by blast
    then show ?thesis by (rule current_at_mono[OF _ g])
  qed
  moreover have "gen_Global h \<le> counter r' profileGlobalGenerationKey \<and> gen_User h \<le> counter r' (profileUserGenerationKey u)"
    if "GenRead u h \<in> set (p_builders w)" for u h
    using c that le[OF fence_keys(1)] le[OF fence_keys(2), of u] unfolding coherent_def by fastforce
  moreover have "gen_Global h \<le> counter r' profileGlobalGenerationKey \<and> gen_User h \<le> counter r' (profileUserGenerationKey u)
      \<and> 0 < u \<and> m \<le> pd_Model (p_db w) \<and> past (p_db w) u ev"
    if "IdRead u h m ev \<in> set (p_builders w)" for u h m ev
    using c that le[OF fence_keys(1)] le[OF fence_keys(2), of u] unfolding coherent_def by (meson order_trans)
  ultimately show ?thesis using guarded_ok[OF g] unfolding coherent_def by simp
qed


lemma fresh_identity: "coherent compute w \<Longrightarrow> counters_ok (p_redis w)"
  by (simp add: coherent_def)

text \<open>What a publication writes is an entry of its own user, at the current generations.\<close>

lemma publish_coherent:
  assumes c: "coherent compute w" and p: "Planned u plan \<in> set (p_builders w)"
  shows "coherent compute (w\<lparr>p_redis := fst (build_publish now cl u plan (p_redis w))\<rparr>)"
proof (cases "fst (build_publish now cl u plan (p_redis w)) = p_redis w")
  case True
  then show ?thesis using c by simp
next
  case False
  let ?r = "p_redis w"
  note ok = fresh_identity[OF c]
  obtain m ev g s where plan: "plan = BuildPublish m ev g s" using False by (cases plan) auto
  obtain f where cl: "cl = Some f" and u: "0 < u"
    using False by (auto simp: plan writeProfileCacheAtGeneration_def split: option.splits if_splits)
  define b where "b = s\<lparr>BuiltAt := (if BuiltAt s = 0 then now else BuiltAt s),
                 SchemaVersion := userProfileCacheSchema, ModelVersion := m, EvidenceVersion := ev,
                 GlobalGeneration := gen_Global g, UserGeneration := gen_User g\<rparr>"
  define ex where "ex = userProfileExactCacheKeyForGeneration u m ev g"
  define r' where "r' = (set_px now (userProfileLatestKey u) (PSnap b) userProfileLatestTTL
      (set_px now ex (PSnap b) userProfileExactTTL ?r))(userProfileFpKey u \<mapsto> (PStr (userProfileBuildVersionAtGeneration m ev g), None))"
  define sc where "sc = profilePublishScript now (profileUserGenerationKey u) ex (userProfileLatestKey u) (userProfileFpKey u)
                  (gen_Global g) (gen_User g) (PSnap b) userProfileExactTTL userProfileLatestTTL
                  (userProfileBuildVersionAtGeneration m ev g)"
  have "fst (build_publish now cl u plan ?r) = fst (rpc f sc ?r)"
    using u unfolding plan cl
    by (cases "rpc f sc ?r") (simp add: writeProfileCacheAtGeneration_def Let_def b_def[symmetric] ex_def[symmetric]
        sc_def[symmetric] split: sum.split)
  moreover have "fst (rpc f sc ?r) \<in> {?r, fst (sc ?r)}" by (simp add: rpc_def split: fault.split)
  ultimately have res: "fst (build_publish now cl u plan ?r) = fst (sc ?r)" "fst (sc ?r) \<noteq> ?r" using False by auto
  have now_even: "same_even now (profileUserGenerationKey u) (gen_Global g) (gen_User g) ?r"
    using res(2) unfolding sc_def profilePublishScript_def by (auto split: if_splits)
  have r': "fst (sc ?r) = r'" using now_even by (simp add: sc_def profilePublishScript_def r'_def)
  have fk: "r' k = ?r k" if "is_fence k" for k
    using that entry_not_fence[OF entry_keys(1)[of u m ev g]] entry_not_fence[OF entry_keys(2)[of u]] fp_not_fence(1)[of u]
    unfolding r'_def set_px_def ex_def by auto
  have cnt: "counter r' k = counter ?r k" if "is_fence k" for k using fk[OF that] by (simp add: counter_def)
  have fen: "fenced r' v = fenced ?r v" for v by (simp add: fenced_def cnt)
  have cur: "current_at compute r' db v m' ev' g' n' p' = current_at compute ?r db v m' ev' g' n' p'" for db v m' ev' g' n' p'
    by (simp add: current_at_def cnt fen)
  have mine: "current_at compute ?r (p_db w) u m ev (gen_Global g) (gen_User g) (sn_body s)"
    using c p plan unfolding coherent_def by blast
  have new: "?r k = Some (PSnap t, e) \<or> t = b \<and> (k = ex \<or> k = userProfileLatestKey u)" if "r' k = Some (PSnap t, e)" for k t e
    using that unfolding r'_def set_px_def by (auto split: if_splits)
  have "current_at compute r' (p_db w) v (ModelVersion t) (EvidenceVersion t) (GlobalGeneration t) (UserGeneration t) (sn_body t)"
    if k: "entry_of v k" "r' k = Some (PSnap t, e)" for v k t e
  proof (cases "?r k = Some (PSnap t, e)")
    case True
    then show ?thesis using c k(1) unfolding coherent_def cur by blast
  next
    case False
    then have t: "t = b" "k = ex \<or> k = userProfileLatestKey u" using new[OF k(2)] by blast+
    then have "entry_of u k" by (auto simp: ex_def)
    then have "v = u" using entry_unique k(1) by blast
    then show ?thesis using mine unfolding cur t(1) b_def by simp
  qed
  moreover have "counters_ok r'" using ok fk unfolding counters_ok_def by metis
  ultimately have "coherent compute (w\<lparr>p_redis := r'\<rparr>)"
    using c unfolding coherent_def by (simp add: cur cnt)
  then show ?thesis using res(1) r' by simp
qed

text \<open>A change of the database with which the revisions and the model do not go back, and the content of a profile
  changes only with the evidence of the user or under a fence.\<close>

lemma db_coherent:
  assumes c: "coherent compute w"
    and model: "pd_Model (p_db w) \<le> pd_Model db'" and rev: "pd_Dataset (p_db w) \<le> pd_Dataset db'"
      "\<And>u. pd_User (p_db w) u \<le> pd_User db' u"
    and keep: "\<And>u m. 0 < u \<Longrightarrow> m \<le> pd_Model (p_db w) \<Longrightarrow> pd_Dataset db' = pd_Dataset (p_db w) \<Longrightarrow>
      pd_User db' u = pd_User (p_db w) u \<Longrightarrow> \<not> fenced (p_redis w) u \<Longrightarrow>
      compute u m (pd_facts db') = compute u m (pd_facts (p_db w))"
  shows "coherent compute (w\<lparr>p_db := db'\<rparr>)"
proof -
  have pst: "past db' u ev" if "past (p_db w) u ev" for u ev
    using that rev(1) order_trans[OF _ rev(2)[of u]] unfolding past_def by (metis order_trans)
  have same: "ev = evidence_of (p_db w) u \<and> pd_Dataset db' = pd_Dataset (p_db w) \<and> pd_User db' u = pd_User (p_db w) u"
    if "past (p_db w) u ev" "ev = evidence_of db' u" for u ev
    using that rev(1) rev(2)[of u] unfolding past_def evidence_of_def by auto
  have "current_at compute (p_redis w) db' u m ev g n p" if "current_at compute (p_redis w) (p_db w) u m ev g n p" for u m ev g n p
    using that pst same[of u ev] keep[of u m] model unfolding current_at_def by auto
  then show ?thesis using c pst model unfolding coherent_def by (simp, meson order_trans)
qed

lemma read_generation:
  assumes "readProfileCacheGeneration now cl u r = Inr g" and ok: "counters_ok r"
  shows "gen_Global g \<le> counter r profileGlobalGenerationKey \<and> gen_User g \<le> counter r (profileUserGenerationKey u)"
proof (cases cl)
  case None
  then show ?thesis using assms(1) counter_nonneg[OF ok fence_keys(1)] counter_nonneg[OF ok fence_keys(2)]
    by (auto simp: readProfileCacheGeneration_def)
next
  case (Some f)
  have p: "parse_gen (rget now r k) = Some (counter r k)" if "is_fence k" for k
    using ok that unfolding counters_ok_def rget_def counter_def by fastforce
  show ?thesis using assms(1) Some p[OF fence_keys(1)] p[OF fence_keys(2), of u]
    by (cases f) (auto simp: readProfileCacheGeneration_def rpc_def split: if_splits)
qed

lemma build_plan_publish:
  assumes "build_plan force (Inr g) prev e = BuildPublish m ev g' s"
  shows "g' = g \<and> be_identity e = Inr (m, ev) \<and> sn_body s = sn_body (be_snap e)"
  using assms by (auto simp: build_plan_def split: sum.splits prod.splits if_splits option.splits)

lemma pstep_coherent: "pstep compute w w' \<Longrightarrow> coherent compute w \<Longrightarrow> coherent compute w'"
proof (induction rule: pstep.induct)
  case (tick d w)
  then show ?case by (simp add: coherent_def)
next
  case (commit w facts' sts)
  show ?case
  proof (rule db_coherent[OF commit(2)])
    fix u m assume "0 < u" "m \<le> pd_Model (p_db w)" "pd_Dataset (transaction facts' sts (p_db w)) = pd_Dataset (p_db w)"
      "pd_User (transaction facts' sts (p_db w)) u = pd_User (p_db w) u" "\<not> fenced (p_redis w) u"
    then show "compute u m (pd_facts (transaction facts' sts (p_db w))) = compute u m (pd_facts (p_db w))"
      using commit(1) transaction_revisions(5)[of u sts "p_db w" facts'] by (auto simp: transaction_revisions)
  qed (simp_all add: transaction_revisions)
next
  case (activate w m rdy)
  then show ?case by (intro db_coherent) simp_all
next
  case (build_read w cl u g)
  then show ?case using read_generation[OF build_read(1)] unfolding coherent_def by auto
next
  case (build_identity u g w m ev)
  have "gen_Global g \<le> counter (p_redis w) profileGlobalGenerationKey
      \<and> gen_User g \<le> counter (p_redis w) (profileUserGenerationKey u)"
    using build_identity(1,3) unfolding coherent_def by blast
  moreover have "0 < u \<and> m \<le> pd_Model (p_db w) \<and> past (p_db w) u ev"
    using build_identity(2) by (auto simp: ReadProfileCacheIdentity_def past_def split: if_splits)
  ultimately show ?case using build_identity(3) unfolding coherent_def by auto
next
  case (build_compute u g m ev w)
  have "gen_Global g \<le> counter (p_redis w) profileGlobalGenerationKey
      \<and> gen_User g \<le> counter (p_redis w) (profileUserGenerationKey u) \<and> 0 < u \<and> m \<le> pd_Model (p_db w) \<and> past (p_db w) u ev"
    using build_compute(1,2) unfolding coherent_def by blast
  then have "current_at compute (p_redis w) (p_db w) u m ev (gen_Global g) (gen_User g) (compute u m (pd_facts (p_db w)))"
    by (simp add: current_at_def)
  then show ?case using build_compute(2) unfolding coherent_def by auto
next
  case (build_after u g m ev p w e id' force prev)
  have c: "current_at compute (p_redis w) (p_db w) u m ev (gen_Global g) (gen_User g) p"
    using build_after(1,5) unfolding coherent_def by blast
  have "current_at compute (p_redis w) (p_db w) u m' ev' (gen_Global h) (gen_User h) (sn_body s)"
    if "build_plan force (Inr g) prev e = BuildPublish m' ev' h s" for m' ev' h s
    using build_plan_publish[OF that] build_after(2,3) c by simp
  then show ?case using build_after(5) unfolding coherent_def by auto
next
  case (publish u plan w cl)
  then show ?case by (intro publish_coherent)
qed (auto intro!: guarded_coherent guard_intros dest: fresh_identity)

lemma preach_coherent: "preach compute w \<Longrightarrow> coherent compute w"
proof (induction rule: preach.induct)
  case (start w)
  then show ?case by (auto simp: coherent_def counters_ok_def)
next
  case (step w w')
  then show ?case using pstep_coherent by blast
qed




text \<open>The content is the number of solved problems; user 1 has 7. The profile is built and published; an import
  without a fence then makes it 8, and the snapshot is not served any more.\<close>

definition demo_compute :: "int \<Rightarrow> nat \<Rightarrow> nat \<Rightarrow> nat" where
  "demo_compute u m facts = (if u = 1 then facts else 0)"

definition demo_db :: "nat profile_db" where
  "demo_db = \<lparr>pd_Model = 3, pd_Dataset = 2, pd_User = (\<lambda>_. 5), pd_Ready = True, pd_facts = 7\<rparr>"

definition demo_snap :: "nat UserProfileSnapshot" where
  "demo_snap = \<lparr>SchemaVersion = '''', ModelVersion = 0, EvidenceVersion = '''', GlobalGeneration = 0,
     UserGeneration = 0, EmptyRadarVerified = False, sn_body = 7, BuiltAt = 1\<rparr>"

definition demo_ev :: string where "demo_ev = evidence_str 2 5"

definition demo_build :: "nat build_env" where
  "demo_build = \<lparr>be_identity = Inr (3, demo_ev), be_rebuild = None, be_snap = demo_snap, be_radar_empty = False,
     be_compute = None, be_after = Inr (3, demo_ev)\<rparr>"

definition demo_gen :: profileCacheGeneration where "demo_gen = \<lparr>gen_Global = 0, gen_User = 0\<rparr>"

definition demo_w :: "nat builder list \<Rightarrow> (nat, nat) pworld" where
  "demo_w bs = \<lparr>p_now = 5, p_redis = Map.empty, p_db = demo_db, p_builders = bs\<rparr>"

definition demo_published :: "(nat, nat) pworld" where
  "demo_published = (demo_w [Planned 1 (build_plan True (Inr demo_gen) None demo_build), Computed 1 demo_gen 3 demo_ev 7,
     IdRead 1 demo_gen 3 demo_ev, GenRead 1 demo_gen])\<lparr>p_redis := fst (build_publish 5 (Some Reached) 1
     (build_plan True (Inr demo_gen) None demo_build) Map.empty)\<rparr>"

definition demo_imported :: "(nat, nat) pworld" where
  "demo_imported = demo_published\<lparr>p_db := transaction 8 [Some [1], Some [1]] (p_db demo_published)\<rparr>"

lemma demo_identity: "ReadProfileCacheIdentity demo_db 1 = Some (3, demo_ev)"
  by (simp add: ReadProfileCacheIdentity_def demo_db_def demo_ev_def)

lemma demo_reach: "preach demo_compute demo_published"
proof -
  have next_builder: "preach demo_compute (demo_w (x # bs))"
    if "preach demo_compute (demo_w bs)" "pstep demo_compute (demo_w bs) ((demo_w bs)\<lparr>p_builders := x # p_builders (demo_w bs)\<rparr>)" for x bs
    using preach.step[OF that] by (simp add: demo_w_def)
  have r0: "preach demo_compute (demo_w [])" by (rule preach.start) (simp_all add: demo_w_def)
  have r1: "preach demo_compute (demo_w [GenRead 1 demo_gen])"
    by (rule next_builder[OF r0]) (rule pstep.build_read[of _ None], simp add: readProfileCacheGeneration_def demo_gen_def)
  have r2: "preach demo_compute (demo_w [IdRead 1 demo_gen 3 demo_ev, GenRead 1 demo_gen])"
    by (rule next_builder[OF r1]) (rule pstep.build_identity, simp_all add: demo_w_def demo_identity)
  have "compute_now = 7" if "compute_now = demo_compute 1 3 (pd_facts (p_db (demo_w bs)))" for compute_now bs
    using that by (simp add: demo_compute_def demo_w_def demo_db_def)
  then have r3: "preach demo_compute (demo_w [Computed 1 demo_gen 3 demo_ev 7, IdRead 1 demo_gen 3 demo_ev, GenRead 1 demo_gen])"
    using next_builder[OF r2 pstep.build_compute[of 1 demo_gen 3 demo_ev]] by (simp add: demo_w_def demo_compute_def demo_db_def)
  have r4: "preach demo_compute (demo_w [Planned 1 (build_plan True (Inr demo_gen) None demo_build),
      Computed 1 demo_gen 3 demo_ev 7, IdRead 1 demo_gen 3 demo_ev, GenRead 1 demo_gen])"
    by (rule next_builder[OF r3], rule pstep.build_after[where id' = "(3, demo_ev)" and ev = demo_ev and m = 3])
       (simp_all add: demo_w_def demo_build_def demo_snap_def demo_identity)
  let ?w = "demo_w [Planned 1 (build_plan True (Inr demo_gen) None demo_build),
      Computed 1 demo_gen 3 demo_ev 7, IdRead 1 demo_gen 3 demo_ev, GenRead 1 demo_gen]"
  have "pstep demo_compute ?w (?w\<lparr>p_redis := fst (build_publish (p_now ?w) (Some Reached) 1
     (build_plan True (Inr demo_gen) None demo_build) (p_redis ?w))\<rparr>)"
    by (rule pstep.publish) (simp add: demo_w_def)
  then show ?thesis using preach.step[OF r4] by (simp add: demo_published_def demo_w_def)
qed

lemma import_hides_snapshot:
  "preach demo_compute demo_imported"
  "case ReadProfileCacheIdentity (p_db demo_imported) 1 of None \<Rightarrow> False | Some (m, ev) \<Rightarrow>
     (case UserProfile 5 (Some Reached) (Some Reached) (Some Reached) 1 (Some (m, ev)) (p_redis demo_imported) of
        FromDatabase _ _ \<Rightarrow> True | _ \<Rightarrow> False)"
proof -
  have "pstep demo_compute demo_published demo_imported"
    unfolding demo_imported_def
    by (rule pstep.commit) (simp add: demo_compute_def demo_published_def demo_w_def demo_db_def touched_def)
  then show "preach demo_compute demo_imported" by (rule preach.step[OF demo_reach])
  show "case ReadProfileCacheIdentity (p_db demo_imported) 1 of None \<Rightarrow> False | Some (m, ev) \<Rightarrow>
     (case UserProfile 5 (Some Reached) (Some Reached) (Some Reached) 1 (Some (m, ev)) (p_redis demo_imported) of
        FromDatabase _ _ \<Rightarrow> True | _ \<Rightarrow> False)" by code_simp
qed


subsection \<open>Ownership and recovery of a fence\<close>

lemma owner_unique: "owns now k lv g it r \<Longrightarrow> owns now k lv' g' it' r \<Longrightarrow> lv = lv' \<and> g = g' \<and> it = it'"
  by (simp add: owns_def)

text \<open>What a successful \<^verbatim>\<open>Begin\<dots>\<close> establishes: its token owns the fence, so no other token validates.\<close>

lemma begin_owns:
  assumes "beginProfileInvalidationForAttemptWithTTL now (Some Reached) k it own ttl r = (r', Inr t)"
    and k: "is_fence k" and ok: "counters_ok r"
  shows "owns now k (lease_value t) (tk_Generation t) (tk_IntentID t) r'"
proof -
  define lv where "lv = it @ ''|'' @ own"
  have num: "lua_num now r k = Some (counter r k)" by (rule counters_num[OF ok k])
  have nn: "0 \<le> counter r k" by (rule counter_nonneg[OF ok k])
  obtain v where sc: "profileBeginInvalidationScript now k lv ttl it r = (r', Some v)" and v: "0 \<le> v" "0 < ttl"
    and t: "tk_Generation t = v" "tk_IntentID t = it" "lease_value t = lv"
  proof -
    obtain r1 o1 where s: "profileBeginInvalidationScript now k lv ttl it r = (r1, o1)" by fastforce
    show thesis
      using assms(1) s that unfolding beginProfileInvalidationForAttemptWithTTL_def
      by (auto simp: Let_def lease_value_def lv_def[symmetric] lv_def rpc_def split: if_splits option.splits)
  qed
  have inc: "rget now ((incr now k (counter r k) r)(intent_key k \<mapsto> (PStr it, None))) k = Some (PNum (counter r k + 1))"
    using ok k by (auto simp: rget_def incr_def counters_ok_def split: option.split)
  show ?thesis
  proof (cases "counter r k mod 2 = 1")
    case True
    then have "rget now r (intent_key k) = Some (PStr it) \<and> v = counter r k \<and> r' = set_px now (lease_key k) (PStr lv) ttl r"
      using sc v by (simp add: profileBeginInvalidationScript_def Let_def num set_nx_def split: if_splits)
    then show ?thesis
      using True num v t by (simp add: owns_def lua_num_def)
  next
    case False
    then have r': "v = counter r k + 1 \<and> r' = set_px now (lease_key k) (PStr lv) ttl
        ((incr now k (counter r k) r)(intent_key k \<mapsto> (PStr it, None)))"
      using sc v by (simp add: profileBeginInvalidationScript_def Let_def num split: if_splits)
    moreover have "v mod 2 = 1" using False r' by presburger
    moreover have "rget now r' (intent_key k) = Some (PStr it)" using r' by (simp add: rget_def)
    ultimately show ?thesis using v t inc by (simp add: owns_def lua_num_def)
  qed
qed

text \<open>At most one invalidation owns a fence: after a successful begin, every operation with another lease value
  (begin, validate, finish, abandon, delete, bump) fails and leaves Redis as it is.\<close>

theorem one_invalidation_per_fence:
  assumes "counters_ok r" and "is_fence k"
    and "beginProfileInvalidationForAttemptWithTTL now (Some Reached) k it own ttl r = (r', Inr t)"
    and "lease_value t2 \<noteq> lease_value t" and "0 \<le> tk_Generation t2" and "ks \<noteq> []"
  shows "(\<exists>e. validateProfileInvalidation now (Some Reached) k t2 r' = (r', Some e))
    \<and> (\<exists>e. finishProfileInvalidation now (Some Reached) k t2 r' = (r', Some e))
    \<and> (\<exists>e. abandonProfileInvalidation now (Some Reached) k t2 r' = (r', Some e))
    \<and> (\<exists>e. deleteProfileKeysOwned now Reached k t2 ks r' = (r', Some e))
    \<and> (\<exists>e. incrementGenerationOwned now (Some Reached) k t2 target tttl r' = (r', Inl e))
    \<and> (\<exists>e. beginProfileInvalidationForAttemptWithTTL now (Some Reached) k (tk_IntentID t2) (tk_Owner t2) ttl r' = (r', Inl e))"
proof -
  have ow: "owns now k (lease_value t) (tk_Generation t) (tk_IntentID t) r'" by (rule begin_owns[OF assms(3,2,1)])
  have no: "\<not> owns now k (lease_value t2) g i r'" for g i using ow assms(4) by (simp add: owns_def)
  have lv: "lease_value t2 = tk_IntentID t2 @ ''|'' @ tk_Owner t2" by (simp add: lease_value_def)
  have odd: "lua_num now r' k = Some (tk_Generation t)" "tk_Generation t mod 2 = 1" using ow by (simp_all add: owns_def)
  have sc: "profileBeginInvalidationScript now k (lease_value t2) ttl (tk_IntentID t2) r' \<in> {(r', Some (-2)), (r', Some (-1))}"
    using ow assms(4) odd by (simp add: profileBeginInvalidationScript_def Let_def owns_def)
  then have "\<exists>e. beginProfileInvalidationForAttemptWithTTL now (Some Reached) k (tk_IntentID t2) (tk_Owner t2) ttl r' = (r', Inl e)"
    by (auto simp: beginProfileInvalidationForAttemptWithTTL_def Let_def rpc_def lease_value_def)
  moreover have "\<exists>e. incrementGenerationOwned now (Some Reached) k t2 target tttl r' = (r', Inl e)"
    using no by (simp add: incrementGenerationOwned_def rpc_def profileIncrementGenerationOwnedScript_def split: option.split)
  moreover have "\<exists>e. validateProfileInvalidation now (Some Reached) k t2 r' = (r', Some e)"
    using no by (simp add: validateProfileInvalidation_def rpc_def profileValidateInvalidationScript_def split: option.split)
  ultimately show ?thesis
    using no assms(5,6) by (simp add: finishProfileInvalidation_def abandonProfileInvalidation_def deleteProfileKeysOwned_def
        rpc_def profileFinishInvalidationScript_def profileAbandonInvalidationScript_def profileDeleteOwnedScript_def)
qed

theorem one_invalidation_per_fence_witness:
  "\<exists>t r'. beginProfileInvalidationForAttemptWithTTL 0 (Some Reached) profileGlobalGenerationKey ''i'' ''o'' 9 (Map.empty :: nat predis)
      = (r', Inr t)
    \<and> (\<exists>e. finishProfileInvalidation 0 (Some Reached) profileGlobalGenerationKey (t\<lparr>tk_Owner := ''p''\<rparr>) r' = (r', Some e))"
proof -
  define r' where "r' = fst (beginProfileInvalidationForAttemptWithTTL 0 (Some Reached) profileGlobalGenerationKey ''i'' ''o'' 9 (Map.empty :: nat predis))"
  define t where "t = \<lparr>tk_Generation = 1, tk_IntentID = ''i'', tk_Owner = ''o'', tk_lease = Some \<lparr>hb_ttl = 9, hb_err = None\<rparr>\<rparr>"
  have b: "beginProfileInvalidationForAttemptWithTTL 0 (Some Reached) profileGlobalGenerationKey ''i'' ''o'' 9 (Map.empty :: nat predis) = (r', Inr t)"
    unfolding r'_def t_def
    by (simp add: beginProfileInvalidationForAttemptWithTTL_def Let_def rpc_def profileBeginInvalidationScript_def
        lua_num_def rget_def trim_space_def trim_left_def is_space_def)
  have "\<exists>e. finishProfileInvalidation 0 (Some Reached) profileGlobalGenerationKey (t\<lparr>tk_Owner := ''p''\<rparr>) r' = (r', Some e)"
    using one_invalidation_per_fence[OF _ fence_keys(1) b, of "t\<lparr>tk_Owner := ''p''\<rparr>" "[''x'']" "''x''" 1]
    by (simp add: counters_ok_def t_def lease_value_def)
  then show ?thesis using b by blast
qed

lemma digit_not_suffix: "\<not> has_suffix (profileUserGenerationKey u) '':lease''"
    "\<not> has_suffix (profileUserGenerationKey u) '':current_intent''"
proof -
  have ne: "nat_str n \<noteq> []" for n by (subst nat_str.simps) simp
  have "is_digit_char (last (nat_str n))" for n using nat_str_digits last_in_set[OF ne] by blast
  then have d: "is_digit_char (last (profileUserGenerationKey u))"
    using ne by (auto simp: profileUserGenerationKey_def int_str_def)
  have suf: "last w = last p" if suffix: "has_suffix w p" "p \<noteq> []" for w p :: string
  proof -
    obtain x where "rev w = rev p @ x" using suffix(1) by (auto simp: has_suffix_def has_prefix_iff)
    then have "w = rev x @ p" by (metis rev_append rev_rev_ident)
    then show ?thesis using suffix(2) by simp
  qed
  show "\<not> has_suffix (profileUserGenerationKey u) '':lease''"
    "\<not> has_suffix (profileUserGenerationKey u) '':current_intent''"
    using d suf[of "profileUserGenerationKey u" "'':lease''"] suf[of "profileUserGenerationKey u" "'':current_intent''"]
    by (auto simp: is_digit_char_def)
qed

lemma recover_script_even:
  assumes ok: "counters_ok r" and k: "is_fence k" and free: "rget now r (lease_key k) = None"
  shows "counter (fst (profileRecoverOrphanScript now k r)) k mod 2 = 0"
proof -
  have num: "lua_num now r k = Some (counter r k)" by (rule counters_num[OF ok k])
  show ?thesis
  proof (cases "counter r k mod 2 = 0")
    case True
    then show ?thesis by (simp add: profileRecoverOrphanScript_def num)
  next
    case False
    have "counter ((incr now k (counter r k) r)(intent_key k := None)) k = counter r k + 1"
      by (simp add: counter_def incr_def)
    then show ?thesis using False free by (simp add: profileRecoverOrphanScript_def num) presburger
  qed
qed

lemma fence_distinct [simp]: "profileGlobalGenerationKey \<noteq> profileUserGenerationKey u"
  "profileUserGenerationKey u \<noteq> profileGlobalGenerationKey"
  by (simp_all add: profileGlobalGenerationKey_def profileUserGenerationKey_def profileUserGenerationPref_def)

lemma recover_other:
  assumes "is_fence k" "is_fence k'" "k' \<noteq> k"
  shows "fst (profileRecoverOrphanScript now k r) k' = r k'"
  using assms lease_not_fence(2)[OF assms(1)]
  by (auto simp: profileRecoverOrphanScript_def incr_def split: option.split)

lemma lease_key_inj [simp]: "lease_key k = lease_key k' \<longleftrightarrow> k = k'"
  by (simp add: lease_key_def)

lemma lease_neq_intent [simp]: "lease_key k \<noteq> intent_key k'" "intent_key k' \<noteq> lease_key k"
proof -
  have "last (lease_key k) \<noteq> last (intent_key k')" by (simp add: lease_key_def intent_key_def)
  then show "lease_key k \<noteq> intent_key k'" "intent_key k' \<noteq> lease_key k" by auto
qed

lemma recover_lease: "is_fence k \<Longrightarrow> is_fence k' \<Longrightarrow>
  fst (profileRecoverOrphanScript now k r) (lease_key k') = r (lease_key k')"
  using lease_not_fence(1)[of k'] by (auto simp: profileRecoverOrphanScript_def incr_def split: option.split)

lemma recover_one:
  assumes ok: "counters_ok r" and k: "is_fence k" and free: "rget now r (lease_key k) = None"
  shows "recover_loop now [] ((k, rget now r k) # kvs) r
      = recover_loop now [] kvs (fst (profileRecoverOrphanScript now k r))"
proof -
  have num: "lua_num now r k = Some (counter r k)" by (rule counters_num[OF ok k])
  have g: "rget now r k = None \<and> counter r k = 0 \<or> rget now r k = Some (PNum (counter r k)) \<and> 0 \<le> counter r k"
    using ok k unfolding counters_ok_def rget_def counter_def by fastforce
  have "counter r k mod 2 = 0 \<Longrightarrow> fst (profileRecoverOrphanScript now k r) = r"
    by (simp add: profileRecoverOrphanScript_def num)
  then show ?thesis using g by (auto simp: rpc_def)
qed

text \<open>A fence whose holder has died does not close the cache for ever: once the leases have run out, a recovery
  whose scan finds the user's counter makes both counters even, and readers get their generation again.\<close>

theorem orphan_recovery_reopens:
  assumes "preach compute w"
    and "rget (p_now w) (p_redis w) (lease_key profileGlobalGenerationKey) = None"
    and "rget (p_now w) (p_redis w) (lease_key (profileUserGenerationKey u)) = None"
  shows "\<exists>r' g. RecoverOrphanedProfileInvalidations (p_now w) (Some Reached) [] (Inl [profileUserGenerationKey u]) (p_redis w) = (r', None)
    \<and> readProfileCacheGeneration (p_now w) (Some Reached) u r' = Inr g"
proof -
  let ?r = "p_redis w" let ?now = "p_now w" let ?G = profileGlobalGenerationKey let ?U = "profileUserGenerationKey u"
  have ok: "counters_ok ?r" using fresh_identity preach_coherent assms(1) by blast
  define r1 where "r1 = fst (profileRecoverOrphanScript ?now ?G ?r)"
  define r2 where "r2 = fst (profileRecoverOrphanScript ?now ?U r1)"
  have g1: "guarded ?r r1" unfolding r1_def by (rule recover_guarded[OF ok fence_keys(1)])
  have g2: "guarded r1 r2" unfolding r2_def by (rule recover_guarded[OF guarded_ok[OF g1] fence_keys(2)])
  have u1: "rget ?now r1 ?U = rget ?now ?r ?U" unfolding r1_def by (rule rget_cong) (simp add: recover_other)
  have l1: "rget ?now r1 (lease_key ?U) = None"
    using assms(3) rget_cong[of r1 "lease_key ?U" ?r ?now] by (simp add: r1_def recover_lease)
  have ks: "has_prefix ?U profileUserGenerationPref" by (simp add: profileUserGenerationKey_def)
  have rec: "RecoverOrphanedProfileInvalidations ?now (Some Reached) [] (Inl [?U]) ?r
      = (recover_loop ?now [] [(?G, rget ?now ?r ?G), (?U, rget ?now ?r ?U)] ?r, None)"
    using ks digit_not_suffix by (simp add: RecoverOrphanedProfileInvalidations_def rpc_def)
  have loop: "recover_loop ?now [] [(?G, rget ?now ?r ?G), (?U, rget ?now ?r ?U)] ?r = r2"
    using recover_one[OF ok fence_keys(1) assms(2)] recover_one[OF guarded_ok[OF g1] fence_keys(2) l1, of "[]"]
    by (simp only: r1_def[symmetric] u1 r2_def[symmetric]) simp
  have e1: "counter r1 ?G mod 2 = 0" unfolding r1_def by (rule recover_script_even[OF ok fence_keys(1) assms(2)])
  have e2: "counter r2 ?U mod 2 = 0" unfolding r2_def by (rule recover_script_even[OF guarded_ok[OF g1] fence_keys(2) l1])
  have e3: "counter r2 ?G = counter r1 ?G" unfolding r2_def by (simp add: counter_def recover_other)
  have p: "parse_gen (rget ?now r2 k) = Some (counter r2 k)" if "is_fence k" for k
    using guarded_ok[OF g2] that unfolding counters_ok_def rget_def counter_def by fastforce
  have "\<exists>g. readProfileCacheGeneration ?now (Some Reached) u r2 = Inr g"
    using e1 e2 e3 by (simp add: readProfileCacheGeneration_def rpc_def p)
  then show ?thesis using rec loop by auto
qed

text \<open>A process that begins an invalidation of user 1 and dies; its lease of 9 milliseconds runs out.\<close>

definition demo_begun :: "(nat, nat) pworld" where
  "demo_begun = \<lparr>p_now = 0, p_redis = fst (beginProfileInvalidationForAttemptWithTTL 0 (Some Reached)
     (profileUserGenerationKey 1) ''i'' ''o'' 9 Map.empty), p_db = demo_db, p_builders = []\<rparr>"

definition demo_orphan :: "(nat, nat) pworld" where
  "demo_orphan = demo_begun\<lparr>p_now := p_now demo_begun + 10\<rparr>"

lemma demo_orphan_reach: "preach demo_compute demo_orphan"
proof -
  define w0 :: "(nat, nat) pworld" where "w0 = \<lparr>p_now = 0, p_redis = Map.empty, p_db = demo_db, p_builders = []\<rparr>"
  have r0: "preach demo_compute w0" by (rule preach.start) (simp_all add: w0_def)
  have "pstep demo_compute w0 (w0\<lparr>p_redis := fst (beginProfileInvalidationForAttemptWithTTL (p_now w0) (Some Reached)
      (profileUserGenerationKey 1) ''i'' ''o'' 9 (p_redis w0))\<rparr>)"
    by (rule pstep.begin_inv) simp
  then have r1: "preach demo_compute demo_begun"
    using preach.step[OF r0] by (simp add: w0_def demo_begun_def)
  have "pstep demo_compute demo_begun demo_orphan" unfolding demo_orphan_def by (rule pstep.tick) simp
  then show ?thesis by (rule preach.step[OF r1])
qed

theorem orphan_recovery_reopens_witness:
  "readProfileCacheGeneration 10 (Some Reached) 1 (p_redis demo_orphan) = Inl InvalidationInProgress
   \<and> (\<exists>r' g. RecoverOrphanedProfileInvalidations 10 (Some Reached) [] (Inl [profileUserGenerationKey 1]) (p_redis demo_orphan) = (r', None)
     \<and> readProfileCacheGeneration 10 (Some Reached) 1 r' = Inr g)"
proof -
  have n: "p_now demo_orphan = 10" by (simp add: demo_orphan_def demo_begun_def)
  have "case readProfileCacheGeneration 10 (Some Reached) 1 (p_redis demo_orphan) of Inl InvalidationInProgress \<Rightarrow> True | _ \<Rightarrow> False"
    by code_simp
  then have "readProfileCacheGeneration 10 (Some Reached) 1 (p_redis demo_orphan) = Inl InvalidationInProgress"
    by (auto split: sum.splits cache_err.splits)
  moreover have "rget (p_now demo_orphan) (p_redis demo_orphan) (lease_key profileGlobalGenerationKey) = None" by code_simp
  moreover have "rget (p_now demo_orphan) (p_redis demo_orphan) (lease_key (profileUserGenerationKey 1)) = None" by code_simp
  ultimately show ?thesis using orphan_recovery_reopens[OF demo_orphan_reach] n by simp
qed

end
