(* ===== verification/ProfileQueue.thy ===== *)
theory ProfileQueue
  imports Redis
begin

text \<open>
  The queue of profile rebuilds: \<^verbatim>\<open>task/user_profile.go\<close> (the claim of a user's pending rebuild in Redis,
  publication, release and clearing) and the handler of \<^verbatim>\<open>biz/service/user_profile_consumer.go\<close>.

  A claim is a string under the user's key: \<^verbatim>\<open>state:publishing:token\<close> while its publisher works and
  \<^verbatim>\<open>state:published:token\<close> afterwards, \<^verbatim>\<open>state\<close> being \<^verbatim>\<open>normal\<close> or \<^verbatim>\<open>force\<close>. The last part lets any
  number of publishers and consumers interleave and shows what a request that was answered "already
  pending" can rely on. Publication and the rebuild itself are outcomes given to the operations.
\<close>

subsection \<open>The claim scripts\<close>

definition userProfilePendingTTL :: int where "userProfilePendingTTL = 30 * 60 * 1000"
definition userProfilePendingPref :: string where "userProfilePendingPref = ''user_profile:pending:''"
definition userProfilePendingNormal :: string where "userProfilePendingNormal = ''normal''"
definition userProfilePendingForce :: string where "userProfilePendingForce = ''force''"

definition userProfilePendingKey :: "int \<Rightarrow> string" where
  "userProfilePendingKey u = userProfilePendingPref @ int_str u"

definition publishing :: "string \<Rightarrow> string \<Rightarrow> string" where
  "publishing st t = st @ '':publishing:'' @ t"

definition published :: "string \<Rightarrow> string \<Rightarrow> string" where
  "published st t = st @ '':published:'' @ t"

definition userProfileClaimScript :: "int \<Rightarrow> string \<Rightarrow> string \<Rightarrow> int \<Rightarrow> string \<Rightarrow> string redis \<Rightarrow> string redis \<times> int" where
  "userProfileClaimScript now k desired ttl t r =
     (let tentative = publishing desired t in
      case rget now r k of
        None \<Rightarrow> (set_px now k tentative ttl r, 1)
      | Some current \<Rightarrow>
         if desired = ''force'' then
           (if current = ''force'' \<or> current = ''force:published'' \<or> has_prefix current ''force:published:''
            then (r, 0) else (set_px now k tentative ttl r, 2))
         else if desired = ''normal'' \<and> has_prefix current ''normal:publishing:''
         then (set_px now k tentative ttl r, 2)
         else if desired = ''normal'' \<and> has_prefix current ''force:publishing:''
         then (set_px now k (publishing ''force'' t) ttl r, 3)
         else (r, 0))"

definition userProfileReleaseClaimScript :: "int \<Rightarrow> string \<Rightarrow> string \<Rightarrow> string redis \<Rightarrow> string redis \<times> int" where
  "userProfileReleaseClaimScript now k v r = cmp_del now k v r"

definition userProfilePublishClaimScript ::
  "int \<Rightarrow> string \<Rightarrow> string \<Rightarrow> string \<Rightarrow> int \<Rightarrow> string redis \<Rightarrow> string redis \<times> int" where
  "userProfilePublishClaimScript now k v v' ttl r =
     (if rget now r k = Some v then (set_px now k v' ttl r, 1) else (r, 0))"

definition userProfileClearClaimScript :: "int \<Rightarrow> string \<Rightarrow> string \<Rightarrow> string \<Rightarrow> string redis \<Rightarrow> string redis \<times> int" where
  "userProfileClearClaimScript now k st t r =
     (case rget now r k of None \<Rightarrow> (r, 0)
      | Some current \<Rightarrow>
         if t = '''' then (if current = st @ '':published'' then (r(k := None), 1) else (r, 0))
         else if current = publishing st t \<or> current = published st t then (r(k := None), 1) else (r, 0))"

subsection \<open>Publishing\<close>

record UserProfileEvent =
  ev_UserId :: int
  ev_Force :: bool
  ev_ClaimToken :: string
  ev_IntentID :: string

datatype EnqueueResult = Published | Deduped | Failed

definition KeepClaim :: "EnqueueResult \<Rightarrow> bool" where
  "KeepClaim res \<longleftrightarrow> res = Published \<or> res = Deduped"

definition ClearPending :: "int \<Rightarrow> fault option \<Rightarrow> int \<Rightarrow> bool \<Rightarrow> string \<Rightarrow> string redis \<Rightarrow> string redis \<times> string option" where
  "ClearPending now rdb u force t r =
     (case rdb of None \<Rightarrow> (r, None)
      | Some f \<Rightarrow> if u \<le> 0 then (r, None)
         else (case rpc f (userProfileClearClaimScript now (userProfilePendingKey u)
                   (if force then userProfilePendingForce else userProfilePendingNormal) t) r of
             (r', Inl e) \<Rightarrow> (r', Some e)
           | (r', Inr _) \<Rightarrow> (r', None)))"

definition releaseClaim :: "int \<Rightarrow> fault option \<Rightarrow> int \<Rightarrow> string \<Rightarrow> string redis \<Rightarrow> string redis" where
  "releaseClaim now rdb u st r =
     (case rdb of None \<Rightarrow> r
      | Some f \<Rightarrow> if u \<le> 0 \<or> st = '''' then r
         else fst (rpc f (userProfileReleaseClaimScript now (userProfilePendingKey u) st) r))"

definition publishClaim :: "int \<Rightarrow> fault option \<Rightarrow> int \<Rightarrow> string \<Rightarrow> string \<Rightarrow> string redis \<Rightarrow> string redis" where
  "publishClaim now rdb u st st' r =
     (case rdb of None \<Rightarrow> r
      | Some f \<Rightarrow> if u \<le> 0 \<or> st = '''' \<or> st' = '''' then r
         else fst (rpc f (userProfilePublishClaimScript now (userProfilePendingKey u) st st' userProfilePendingTTL) r))"

text \<open>The first half of \<^verbatim>\<open>do\<close>: the claim. \<open>Go st f\<close> goes on to publish a message with \<^verbatim>\<open>Force = f\<close> under
  the pending state \<open>st\<close>.\<close>

datatype claim_step = Stop EnqueueResult | Go string bool

definition do_claim ::
  "int \<Rightarrow> bool \<Rightarrow> fault option \<Rightarrow> int \<Rightarrow> bool \<Rightarrow> string \<Rightarrow> string redis \<Rightarrow> string redis \<times> claim_step" where
  "do_claim now mq rdb u force t r =
     (if u \<le> 0 \<or> \<not> mq then (r, Stop Failed)
      else (let st = (if force then userProfilePendingForce else userProfilePendingNormal) in
        case rdb of None \<Rightarrow> (r, Go st force)
        | Some f \<Rightarrow>
          (case rpc f (userProfileClaimScript now (userProfilePendingKey u) st userProfilePendingTTL t) r of
             (r', Inl _) \<Rightarrow> (r', Go st force)
           | (r', Inr c) \<Rightarrow>
              (if c = 0 then (r', Stop Deduped)
               else if c = 3 then (r', Go userProfilePendingForce True) else (r', Go st force)))))"

text \<open>The second half, after \<^verbatim>\<open>Publish\<close> has answered.\<close>

definition do_settle :: "int \<Rightarrow> fault option \<Rightarrow> int \<Rightarrow> string \<Rightarrow> string \<Rightarrow> bool \<Rightarrow> string redis \<Rightarrow> string redis \<times> EnqueueResult" where
  "do_settle now rdb u st t ok r =
     (if ok then (publishClaim now rdb u (publishing st t) (published st t) r, Published)
      else (releaseClaim now rdb u (publishing st t) r, Failed))"

text \<open>The queue holds the messages that RabbitMQ accepted; \<open>ok\<close> is what \<^verbatim>\<open>Publish\<close> returned.\<close>

definition do_enqueue ::
  "int \<Rightarrow> bool \<Rightarrow> fault option \<Rightarrow> fault option \<Rightarrow> bool \<Rightarrow> int \<Rightarrow> bool \<Rightarrow> string
   \<Rightarrow> string redis \<times> UserProfileEvent list \<Rightarrow> (string redis \<times> UserProfileEvent list) \<times> EnqueueResult" where
  "do_enqueue now mq f1 f2 ok u force t rq =
     (case do_claim now mq f1 u force t (fst rq) of
        (r1, Stop res) \<Rightarrow> ((r1, snd rq), res)
      | (r1, Go st pf) \<Rightarrow>
         (let q = (if ok then snd rq @ [\<lparr>ev_UserId = u, ev_Force = pf, ev_ClaimToken = t, ev_IntentID = ''''\<rparr>] else snd rq)
          in case do_settle now f2 u st t ok r1 of (r2, res) \<Rightarrow> ((r2, q), res)))"

definition DoMaintenanceForce :: "bool \<Rightarrow> bool \<Rightarrow> int \<Rightarrow> string \<Rightarrow> UserProfileEvent list \<Rightarrow> UserProfileEvent list \<times> EnqueueResult" where
  "DoMaintenanceForce mq ok u intent q =
     (if u \<le> 0 \<or> intent = '''' \<or> \<not> mq then (q, Failed)
      else if ok then (q @ [\<lparr>ev_UserId = u, ev_Force = True, ev_ClaimToken = '''', ev_IntentID = intent\<rparr>], Published)
      else (q, Failed))"

fun DoBatch ::
  "int \<Rightarrow> bool \<Rightarrow> bool \<Rightarrow> (int \<times> string \<times> fault option \<times> fault option \<times> bool) list
   \<Rightarrow> string redis \<times> UserProfileEvent list \<Rightarrow> (string redis \<times> UserProfileEvent list) \<times> nat \<times> nat \<times> nat" where
  "DoBatch now mq force [] rq = (rq, 0, 0, 0)"
| "DoBatch now mq force ((u, t, f1, f2, ok) # us) rq =
     (case do_enqueue now mq f1 f2 ok u force t rq of (rq1, res) \<Rightarrow>
      (case DoBatch now mq force us rq1 of (rq2, p, d, f) \<Rightarrow>
        (rq2, if res = Published then (Suc p, d, f) else if res = Deduped then (p, Suc d, f) else (p, d, Suc f))))"

subsection \<open>The consumer\<close>

text \<open>\<open>msg\<close> is the decoded body (\<open>None\<close> when it is not JSON); \<open>build\<close> is the outcome of
  \<^verbatim>\<open>BuildAndCacheUserProfile\<close>, an error with its transience; \<open>conf\<close> and \<open>due\<close> those of the two
  maintenance calls of the problem use case.\<close>

record consume_env =
  ce_task :: bool
  ce_problem :: bool
  ce_rdb :: "fault option"
  ce_build :: "(string \<times> bool) option"
  ce_confirm :: "string option"
  ce_due :: "string option"

definition handleExhausted ::
  "int \<Rightarrow> consume_env \<Rightarrow> UserProfileEvent option \<Rightarrow> string redis \<Rightarrow> string redis \<times> string option" where
  "handleExhausted now e msg r =
     (case msg of None \<Rightarrow> (r, None)
      | Some m \<Rightarrow>
        if ev_UserId m \<le> 0 then (r, None)
        else if ev_IntentID m = '''' then
          (if \<not> ce_task e then (r, Some ''user_profile pending dependency unavailable'')
           else ClearPending now (ce_rdb e) (ev_UserId m) (ev_Force m) (ev_ClaimToken m) r)
        else if \<not> ce_problem e then (r, Some ''user_profile builder dependency unavailable'')
        else (r, ce_due e))"

definition handle ::
  "int \<Rightarrow> consume_env \<Rightarrow> UserProfileEvent option \<Rightarrow> string redis \<Rightarrow> string redis \<times> string option" where
  "handle now e msg r =
     (case msg of None \<Rightarrow> (r, Some ''bad json'')
      | Some m \<Rightarrow>
        if ev_UserId m \<le> 0 then (r, None)
        else if \<not> ce_problem e then (r, Some ''user_profile builder dependency unavailable'')
        else if ev_IntentID m = '''' \<and> \<not> ce_task e then (r, Some ''user_profile pending dependency unavailable'')
        else (case ce_build e of
            Some (err, transient) \<Rightarrow> if transient then handleExhausted now e msg r else (r, Some err)
          | None \<Rightarrow>
              (if ev_IntentID m \<noteq> '''' then (r, ce_confirm e)
               else if ce_task e then ClearPending now (ce_rdb e) (ev_UserId m) (ev_Force m) (ev_ClaimToken m) r
               else (r, None))))"


subsection \<open>What one call does to the claims\<close>

definition is_state :: "string \<Rightarrow> bool" where
  "is_state st \<longleftrightarrow> st = userProfilePendingNormal \<or> st = userProfilePendingForce"

abbreviation state_of :: "bool \<Rightarrow> string" where
  "state_of force \<equiv> (if force then userProfilePendingForce else userProfilePendingNormal)"

lemmas pending_names = userProfilePendingNormal_def userProfilePendingForce_def

lemma userProfilePendingKey_inject [simp]: "userProfilePendingKey u = userProfilePendingKey v \<longleftrightarrow> u = v"
  by (simp add: userProfilePendingKey_def)

lemma claim_values:
  assumes "is_state st" and "is_state st'"
  shows "publishing st t = publishing st' t' \<longleftrightarrow> st = st' \<and> t = t'"
    and "published st t = published st' t' \<longleftrightarrow> st = st' \<and> t = t'"
    and "publishing st t \<noteq> published st' t'" and "published st' t' \<noteq> publishing st t"
  using assms by (auto simp: is_state_def pending_names publishing_def published_def)

lemma is_state_of [simp]: "is_state (state_of f)"
  by (simp add: is_state_def)

lemma claim_script_cases:
  assumes "userProfileClaimScript now k (state_of f) ttl t r = (r', c)"
  obtains (dup) current where "c = 0" "r' = r" "rget now r k = Some current"
      "f \<Longrightarrow> current = ''force'' \<or> current = ''force:published'' \<or> has_prefix current ''force:published:''"
      "\<not> f \<Longrightarrow> \<not> has_prefix current ''normal:publishing:'' \<and> \<not> has_prefix current ''force:publishing:''"
    | (own) "c = 1 \<or> c = 2" "r' = set_px now k (publishing (state_of f) t) ttl r"
    | (take_over) "c = 3" "\<not> f" "r' = set_px now k (publishing userProfilePendingForce t) ttl r"
  using assms unfolding userProfileClaimScript_def Let_def
  by (cases f; auto simp: pending_names split: option.splits if_splits)

lemma clear_script_effect:
  "fst (userProfileClearClaimScript now k st t r) =
     (case rget now r k of None \<Rightarrow> r
      | Some c \<Rightarrow> if (t = '''' \<and> c = st @ '':published'') \<or> (t \<noteq> '''' \<and> (c = publishing st t \<or> c = published st t))
          then r(k := None) else r)"
  by (simp add: userProfileClearClaimScript_def split: option.split)

lemma do_claim_cases:
  assumes "do_claim now mq rdb u force t r = (r', res)"
  obtains (failed) "res = Stop Failed" "r' = r"
    | (dup) current where "res = Stop Deduped" "r' = r" "0 < u" "rget now r (userProfilePendingKey u) = Some current"
      "force \<Longrightarrow> current = ''force'' \<or> current = ''force:published'' \<or> has_prefix current ''force:published:''"
      "\<not> force \<Longrightarrow> \<not> has_prefix current ''normal:publishing:'' \<and> \<not> has_prefix current ''force:publishing:''"
    | (go) f st where "res = Go (state_of f) f" "force \<longrightarrow> f" "0 < u" "is_state st"
      "r' = r \<or> r' = set_px now (userProfilePendingKey u) (publishing st t) userProfilePendingTTL r"
proof (cases "u \<le> 0 \<or> \<not> mq")
  case True
  then show ?thesis using assms failed by (auto simp: do_claim_def)
next
  case False
  show ?thesis
  proof (cases rdb)
    case None
    then show ?thesis using assms False go[of force userProfilePendingNormal] by (auto simp: do_claim_def is_state_def)
  next
    case (Some f)
    obtain r1 c where s: "userProfileClaimScript now (userProfilePendingKey u) (state_of force) userProfilePendingTTL t r = (r1, c)"
      by fastforce
    have e: "(r', res) = (case rpc f (userProfileClaimScript now (userProfilePendingKey u) (state_of force) userProfilePendingTTL t) r of
         (r', Inl _) \<Rightarrow> (r', Go (state_of force) force)
       | (r', Inr c) \<Rightarrow> (if c = 0 then (r', Stop Deduped)
            else if c = 3 then (r', Go userProfilePendingForce True) else (r', Go (state_of force) force)))"
      using assms False Some unfolding do_claim_def Let_def by simp
    have u: "0 < u" using False by simp
    from s show ?thesis
    proof (cases rule: claim_script_cases)
      case (dup current)
      have "(res = Stop Deduped \<or> res = Go (state_of force) force) \<and> r' = r"
        using e s dup(1,2) by (auto simp: rpc_def split: fault.splits)
      then show ?thesis
        using that(2)[of current] dup(3-5) go[of force userProfilePendingNormal] u by (auto simp: is_state_def)
    next
      case own
      have "res = Go (state_of force) force \<and> (r' = r \<or> r' = r1)"
        using e s own(1) by (auto simp: rpc_def split: fault.splits)
      then show ?thesis using own(2) go[of force "state_of force"] u by auto
    next
      case take_over
      have "(res = Go (state_of force) force \<or> res = Go (state_of True) True) \<and> (r' = r \<or> r' = r1)"
        using e s take_over(1) by (auto simp: rpc_def split: fault.splits)
      then show ?thesis
        using take_over go[of force "userProfilePendingForce"] go[of True "userProfilePendingForce"] u
        by (auto simp: is_state_def)
    qed
  qed
qed


lemma ClearPending_effect:
  assumes "ClearPending now rdb u force t r = (r', res)"
  shows "r' = r \<or> r' = fst (userProfileClearClaimScript now (userProfilePendingKey u) (state_of force) t r)"
    and "\<lbrakk>res = None; rdb \<noteq> None; 0 < u\<rbrakk> \<Longrightarrow>
      r' = fst (userProfileClearClaimScript now (userProfilePendingKey u) (state_of force) t r)"
  using assms by (auto simp: ClearPending_def rpc_def split: option.splits if_splits fault.splits)

text \<open>The consumer touches a claim only through a message's own token, and answers "done" on an ordinary
  message only after it has done so.\<close>

lemma handleExhausted_effect:
  assumes "handleExhausted now e (Some m) r = (r', res)" and "0 < ev_UserId m"
  defines "cleared \<equiv> fst (userProfileClearClaimScript now (userProfilePendingKey (ev_UserId m))
             (state_of (ev_Force m)) (ev_ClaimToken m) r)"
  shows "r' = r \<or> ev_IntentID m = '''' \<and> r' = cleared"
    and "\<lbrakk>res = None; ce_rdb e \<noteq> None; ev_IntentID m = ''''\<rbrakk> \<Longrightarrow> r' = cleared"
proof -
  note cp = ClearPending_effect[of now "ce_rdb e" "ev_UserId m" "ev_Force m" "ev_ClaimToken m" r r' res]
  show "r' = r \<or> ev_IntentID m = '''' \<and> r' = cleared"
    using assms cp(1) by (auto simp: handleExhausted_def split: if_splits)
  show "\<lbrakk>res = None; ce_rdb e \<noteq> None; ev_IntentID m = ''''\<rbrakk> \<Longrightarrow> r' = cleared"
    using assms cp(2) by (auto simp: handleExhausted_def split: if_splits)
qed

lemma handle_effect:
  assumes "handle now e (Some m) r = (r', res)" and "0 < ev_UserId m"
  defines "cleared \<equiv> fst (userProfileClearClaimScript now (userProfilePendingKey (ev_UserId m))
             (state_of (ev_Force m)) (ev_ClaimToken m) r)"
  shows "r' = r \<or> ev_IntentID m = '''' \<and> r' = cleared"
    and "\<lbrakk>res = None; ce_rdb e \<noteq> None; ev_IntentID m = ''''\<rbrakk> \<Longrightarrow> r' = cleared"
proof -
  note cp = ClearPending_effect[of now "ce_rdb e" "ev_UserId m" "ev_Force m" "ev_ClaimToken m" r r' res]
  note ex = handleExhausted_effect[of now e m r r' res, folded cleared_def]
  have "(r', res) = handleExhausted now e (Some m) r \<or> r' = r \<and> (res \<noteq> None \<or> ev_IntentID m \<noteq> '''')
      \<or> ev_IntentID m = '''' \<and> (r', res) = ClearPending now (ce_rdb e) (ev_UserId m) (ev_Force m) (ev_ClaimToken m) r"
    using assms(1,2) unfolding handle_def
    by (auto split: option.splits if_splits prod.splits)
  then show "r' = r \<or> ev_IntentID m = '''' \<and> r' = cleared"
    and "\<lbrakk>res = None; ce_rdb e \<noteq> None; ev_IntentID m = ''''\<rbrakk> \<Longrightarrow> r' = cleared"
    using ex cp assms(2) unfolding cleared_def by auto
qed

subsection \<open>Publishers and consumers interleaved\<close>

text \<open>
  \<open>w_sent\<close> collects the messages the broker has accepted and \<open>w_settled\<close> those a handler has answered
  without an error, after which the broker drops them. A publisher takes its claim, publishes (the broker
  may have accepted a message whose publication it reports as failed) and settles, in three steps with
  anything in between; stopping half way is never taking the next step. Tokens are not reused.
\<close>

record world =
  w_now :: int
  w_redis :: "string redis"
  w_used :: "string set"
  w_claimed :: "(int \<times> bool \<times> string) set"
  w_answered :: "(int \<times> bool \<times> string \<times> bool) set"
  w_sent :: "UserProfileEvent set"
  w_settled :: "UserProfileEvent set"

definition message :: "int \<Rightarrow> bool \<Rightarrow> string \<Rightarrow> UserProfileEvent" where
  "message u f t = \<lparr>ev_UserId = u, ev_Force = f, ev_ClaimToken = t, ev_IntentID = ''''\<rparr>"

inductive qstep :: "world \<Rightarrow> world \<Rightarrow> bool" where
  tick: "0 < d \<Longrightarrow> qstep w (w\<lparr>w_now := w_now w + d\<rparr>)"
| claim_stop: "t \<notin> w_used w \<Longrightarrow> t \<noteq> '''' \<Longrightarrow> do_claim (w_now w) mq rdb u force t (w_redis w) = (r', Stop res) \<Longrightarrow>
    qstep w (w\<lparr>w_redis := r', w_used := insert t (w_used w)\<rparr>)"
| claim_go: "t \<notin> w_used w \<Longrightarrow> t \<noteq> '''' \<Longrightarrow> do_claim (w_now w) mq rdb u force t (w_redis w) = (r', Go st f) \<Longrightarrow>
    qstep w (w\<lparr>w_redis := r', w_used := insert t (w_used w), w_claimed := insert (u, f, t) (w_claimed w)\<rparr>)"
| publish: "(u, f, t) \<in> w_claimed w \<Longrightarrow> ok \<longrightarrow> accepted \<Longrightarrow>
    qstep w (w\<lparr>w_answered := insert (u, f, t, ok) (w_answered w),
               w_sent := (if accepted then insert (message u f t) (w_sent w) else w_sent w)\<rparr>)"
| settle: "(u, f, t, ok) \<in> w_answered w \<Longrightarrow>
    do_settle (w_now w) rdb u (state_of f) t ok (w_redis w) = (r', res) \<Longrightarrow> qstep w (w\<lparr>w_redis := r'\<rparr>)"
| maintenance: "0 < u \<Longrightarrow> intent \<noteq> '''' \<Longrightarrow>
    qstep w (w\<lparr>w_sent := insert \<lparr>ev_UserId = u, ev_Force = True, ev_ClaimToken = '''', ev_IntentID = intent\<rparr> (w_sent w)\<rparr>)"
| consume: "m \<in> w_sent w \<Longrightarrow> ce_rdb e \<noteq> None \<Longrightarrow> op = handle \<or> op = handleExhausted \<Longrightarrow>
    op (w_now w) e (Some m) (w_redis w) = (r', res) \<Longrightarrow>
    qstep w (w\<lparr>w_redis := r', w_settled := (if res = None then insert m (w_settled w) else w_settled w)\<rparr>)"

inductive qreach :: "world \<Rightarrow> bool" where
  start: "w_redis w = Map.empty \<Longrightarrow> w_used w = {} \<Longrightarrow> w_claimed w = {} \<Longrightarrow> w_answered w = {} \<Longrightarrow>
    w_sent w = {} \<Longrightarrow> w_settled w = {} \<Longrightarrow> qreach w"
| step: "qreach w \<Longrightarrow> qstep w w' \<Longrightarrow> qreach w'"

text \<open>A published claim always points to a message that was accepted and is not settled; a tentative one to
  a message that is not settled.\<close>

definition claim_ok :: "world \<Rightarrow> int \<Rightarrow> string \<Rightarrow> bool" where
  "claim_ok w u v \<longleftrightarrow> (\<exists>f t. t \<in> w_used w \<and> t \<noteq> '''' \<and> message u f t \<notin> w_settled w \<and>
     (v = publishing (state_of f) t \<or> v = published (state_of f) t \<and> message u f t \<in> w_sent w))"

definition claims_ok :: "world \<Rightarrow> string redis \<Rightarrow> bool" where
  "claims_ok w r \<longleftrightarrow> (\<forall>u v. rget (w_now w) r (userProfilePendingKey u) = Some v \<longrightarrow> claim_ok w u v)"

definition wf_world :: "world \<Rightarrow> bool" where
  "wf_world w \<longleftrightarrow> claims_ok w (w_redis w)
     \<and> (\<forall>u f t. (u, f, t) \<in> w_claimed w \<longrightarrow> 0 < u \<and> t \<in> w_used w \<and> t \<noteq> '''')
     \<and> (\<forall>u f t ok. (u, f, t, ok) \<in> w_answered w \<longrightarrow> (u, f, t) \<in> w_claimed w \<and> (ok \<longrightarrow> message u f t \<in> w_sent w))
     \<and> (\<forall>m\<in>w_sent w. 0 < ev_UserId m \<and> (ev_IntentID m = '''' \<longrightarrow> ev_ClaimToken m \<in> w_used w \<and> ev_ClaimToken m \<noteq> ''''))
     \<and> w_settled w \<subseteq> w_sent w"

lemma message_inject [simp]: "message u f t = message u' f' t' \<longleftrightarrow> u = u' \<and> f = f' \<and> t = t'"
  by (simp add: message_def)

lemma message_sel [simp]:
  "ev_UserId (message u f t) = u" "ev_Force (message u f t) = f" "ev_ClaimToken (message u f t) = t"
  "ev_IntentID (message u f t) = ''''"
  by (simp_all add: message_def)

lemma message_self: "ev_IntentID m = '''' \<Longrightarrow> m = message (ev_UserId m) (ev_Force m) (ev_ClaimToken m)"
  by (simp add: message_def)

lemma claim_ok_mono:
  assumes "claim_ok w u v" and "w_used w \<subseteq> w_used w'" and "w_sent w \<subseteq> w_sent w'" and "w_settled w' = w_settled w"
  shows "claim_ok w' u v"
  using assms unfolding claim_ok_def by blast

lemma rget_later: "rget now' r k = Some v \<Longrightarrow> now \<le> now' \<Longrightarrow> rget now r k = Some v"
  by (auto simp: rget_def split: option.splits if_splits)

lemma claims_ok_mono:
  assumes "claims_ok w r" and "w_now w \<le> w_now w'" and "w_used w \<subseteq> w_used w'" and "w_sent w \<subseteq> w_sent w'"
    and "w_settled w' = w_settled w"
  shows "claims_ok w' r"
  unfolding claims_ok_def
proof (intro allI impI)
  fix u v assume "rget (w_now w') r (userProfilePendingKey u) = Some v"
  then have "rget (w_now w) r (userProfilePendingKey u) = Some v" using assms(2) by (rule rget_later)
  then have "claim_ok w u v" using assms(1) by (simp add: claims_ok_def)
  then show "claim_ok w' u v" using assms(3-5) by (rule claim_ok_mono)
qed

lemma claims_ok_set:
  "claims_ok w r \<Longrightarrow> claim_ok w u v \<Longrightarrow> claims_ok w (set_px (w_now w) (userProfilePendingKey u) v ttl r)"
  by (auto simp: claims_ok_def set_px_def rget_def split: if_splits)

lemma claims_ok_del: "claims_ok w r \<Longrightarrow> claims_ok w (r(k := None))"
  by (auto simp: claims_ok_def rget_def)

text \<open>Settling a message removes its claim, whether it was published or still tentative.\<close>

lemma cleared_gone:
  assumes "t \<noteq> ''''"
    and "rget now (fst (userProfileClearClaimScript now k (state_of f) t r)) k = Some v"
  shows "v \<noteq> publishing (state_of f) t \<and> v \<noteq> published (state_of f) t"
  using assms by (auto simp: clear_script_effect split: option.splits if_splits)

lemma claims_ok_clear: "claims_ok w r \<Longrightarrow> claims_ok w (fst (userProfileClearClaimScript now k st t r))"
  by (simp add: clear_script_effect claims_ok_del split: option.split)


lemma do_settle_effect:
  assumes "do_settle now rdb u (state_of f) t ok r = (r', res)"
  obtains "r' = r"
    | "r' = r(userProfilePendingKey u := None)"
    | "ok" "rget now r (userProfilePendingKey u) = Some (publishing (state_of f) t)"
      "r' = set_px now (userProfilePendingKey u) (published (state_of f) t) userProfilePendingTTL r"
proof -
  let ?k = "userProfilePendingKey u"
  have rel: "fst (rpc fl (userProfileReleaseClaimScript now ?k v) r) \<in> {r, r(?k := None)}" for fl v
    by (auto simp: rpc_def cmp_del_def userProfileReleaseClaimScript_def split: fault.split)
  have pub: "fst (rpc fl (userProfilePublishClaimScript now ?k v v' ttl) r) = r
    \<or> rget now r ?k = Some v \<and> fst (rpc fl (userProfilePublishClaimScript now ?k v v' ttl) r) = set_px now ?k v' ttl r" for fl v v' ttl
    by (auto simp: rpc_def userProfilePublishClaimScript_def split: fault.split)
  show ?thesis
  proof (cases ok)
    case True
    then have "r' = publishClaim now rdb u (publishing (state_of f) t) (published (state_of f) t) r"
      using assms by (simp add: do_settle_def)
    then have "r' = r \<or> (\<exists>fl. r' = fst (rpc fl (userProfilePublishClaimScript now ?k (publishing (state_of f) t)
        (published (state_of f) t) userProfilePendingTTL) r))"
      unfolding publishClaim_def by (auto split: option.splits)
    then show ?thesis using that(1,3) True pub by blast
  next
    case False
    then have "r' = releaseClaim now rdb u (publishing (state_of f) t) r"
      using assms by (simp add: do_settle_def)
    then have "r' = r \<or> (\<exists>fl v. r' = fst (rpc fl (userProfileReleaseClaimScript now ?k v) r))"
      unfolding releaseClaim_def by (auto split: option.splits)
    then show ?thesis using that(1,2) rel by blast
  qed
qed

lemma wf_claim:
  assumes "wf_world w" and "t \<notin> w_used w" and "t \<noteq> ''''" and "do_claim (w_now w) mq rdb u force t (w_redis w) = (r', res)"
    and "w' = w\<lparr>w_redis := r', w_used := insert t (w_used w), w_claimed := C\<rparr>"
    and "C = w_claimed w \<or> (\<exists>st f. res = Go st f \<and> C = insert (u, f, t) (w_claimed w))"
  shows "wf_world w'"
proof -
  have fresh: "message u f t \<notin> w_settled w" for u f
  proof
    assume "message u f t \<in> w_settled w"
    then have "message u f t \<in> w_sent w" using assms(1) by (auto simp: wf_world_def)
    then have "t \<in> w_used w" using assms(1) unfolding wf_world_def by (metis message_sel(3,4))
    then show False using assms(2) by simp
  qed
  have m: "claims_ok w' (w_redis w)"
    by (rule claims_ok_mono[of w]) (use assms(1,5) in \<open>auto simp: wf_world_def\<close>)
  have "claims_ok w' r' \<and> (res \<noteq> Stop Failed \<longrightarrow> 0 < u)"
    using assms(4)
  proof (cases rule: do_claim_cases)
    case (go f st)
    obtain f' where "st = state_of f'" using go(4) by (auto simp: is_state_def intro: that[of False] that[of True])
    then have "claim_ok w' u (publishing st t)"
      using fresh assms(3,5) unfolding claim_ok_def by auto
    then have "claims_ok w' (set_px (w_now w') (userProfilePendingKey u) (publishing st t) userProfilePendingTTL (w_redis w))"
      using m claims_ok_set by blast
    then show ?thesis using go m assms(5) by auto
  qed (use m in auto)
  then show ?thesis using assms(1,3,5,6) unfolding wf_world_def by auto
qed

lemma wf_settle:
  assumes "wf_world w" and "(u, f, t, ok) \<in> w_answered w"
    and "do_settle (w_now w) rdb u (state_of f) t ok (w_redis w) = (r', res)"
  shows "wf_world (w\<lparr>w_redis := r'\<rparr>)"
proof -
  let ?k = "userProfilePendingKey u"
  have c: "claims_ok w (w_redis w)" using assms(1) by (simp add: wf_world_def)
  have "claims_ok w r'"
    using assms(3)
  proof (cases rule: do_settle_effect)
    case 3
    have "claim_ok w u (publishing (state_of f) t)" using c 3(2) unfolding claims_ok_def by blast
    then have "message u f t \<notin> w_settled w" "t \<in> w_used w" "t \<noteq> ''''"
      by (auto simp: claim_ok_def claim_values pending_names split: if_splits)
    then have "claim_ok w u (published (state_of f) t)"
      using assms(1,2) 3(1) unfolding claim_ok_def wf_world_def by blast
    then show ?thesis using c 3(3) claims_ok_set by blast
  qed (use c claims_ok_del in auto)
  then have "claims_ok (w\<lparr>w_redis := r'\<rparr>) r'" by (rule claims_ok_mono) auto
  then show ?thesis using assms(1) unfolding wf_world_def by auto
qed

lemma wf_consume:
  assumes "wf_world w" and "m \<in> w_sent w" and "ce_rdb e \<noteq> None" and "op = handle \<or> op = handleExhausted"
    and "op (w_now w) e (Some m) (w_redis w) = (r', res)"
  shows "wf_world (w\<lparr>w_redis := r', w_settled := (if res = None then insert m (w_settled w) else w_settled w)\<rparr>)"
    (is "wf_world ?w")
proof -
  let ?u = "ev_UserId m" and ?t = "ev_ClaimToken m"
  let ?clr = "fst (userProfileClearClaimScript (w_now w) (userProfilePendingKey ?u) (state_of (ev_Force m)) ?t (w_redis w))"
  have u: "0 < ?u" and tok: "ev_IntentID m = '''' \<Longrightarrow> ?t \<noteq> ''''"
    using assms(1,2) by (auto simp: wf_world_def)
  have eff: "r' = w_redis w \<or> ev_IntentID m = '''' \<and> r' = ?clr"
    and done': "\<lbrakk>res = None; ev_IntentID m = ''''\<rbrakk> \<Longrightarrow> r' = ?clr"
    using assms(3-5) u handle_effect[of "w_now w" e m "w_redis w" r' res]
      handleExhausted_effect[of "w_now w" e m "w_redis w" r' res] by auto
  have c: "claims_ok w (w_redis w)" using assms(1) by (simp add: wf_world_def)
  have c': "claims_ok w r'" using eff c claims_ok_clear by auto
  have "claims_ok ?w r'"
    unfolding claims_ok_def
  proof (intro allI impI)
    fix u v assume v: "rget (w_now ?w) r' (userProfilePendingKey u) = Some v"
    then have "claim_ok w u v" using c' by (simp add: claims_ok_def)
    then obtain f t where ft: "t \<in> w_used w" "t \<noteq> ''''" "message u f t \<notin> w_settled w"
      "v = publishing (state_of f) t \<or> v = published (state_of f) t \<and> message u f t \<in> w_sent w"
      unfolding claim_ok_def by blast
    have "message u f t \<noteq> m" if "res = None"
    proof
      assume m: "message u f t = m"
      then have "ev_IntentID m = ''''" "?u = u" "?t = t" "ev_Force m = f" by auto
      then have "r' = fst (userProfileClearClaimScript (w_now w) (userProfilePendingKey u) (state_of f) t (w_redis w))"
        using done' that by simp
      then show False using cleared_gone[OF ft(2)] v ft(4) by fastforce
    qed
    then show "claim_ok ?w u v" unfolding claim_ok_def using ft by (intro exI[of _ f] exI[of _ t]) auto
  qed
  then show ?thesis using assms(1,2) unfolding wf_world_def by auto
qed

lemma wf_qstep:
  assumes "qstep w w'" and "wf_world w"
  shows "wf_world w'"
proof -
  have c: "claims_ok w (w_redis w)" using assms(2) by (simp add: wf_world_def)
  from assms(1) show ?thesis
  proof (cases rule: qstep.cases)
  case (tick d)
  then have "claims_ok w' (w_redis w)" by (intro claims_ok_mono[OF c]) simp_all
  then show ?thesis using assms(2) tick unfolding wf_world_def by simp
next
  case (claim_stop t mq rdb u force r' res)
  then show ?thesis using assms(2) by (intro wf_claim[OF assms(2) claim_stop(2-4), of _ "w_claimed w"]) auto
next
  case (claim_go t mq rdb u force r' st f)
  then show ?thesis
    by (intro wf_claim[OF assms(2) claim_go(2-4), of _ "insert (u, f, t) (w_claimed w)"]) auto
next
  case (publish u f t ok accepted)
  then have "claims_ok w' (w_redis w)" by (intro claims_ok_mono[OF c]) auto
  then show ?thesis using assms(2) publish unfolding wf_world_def by (auto split: if_splits)
next
  case (settle u f t ok rdb r' res)
  then show ?thesis using wf_settle assms(2) by blast
next
  case (maintenance u intent)
  then have "claims_ok w' (w_redis w)" by (intro claims_ok_mono[OF c]) auto
  then show ?thesis using assms(2) maintenance unfolding wf_world_def by auto
next
  case (consume m e op r' res)
  then show ?thesis using wf_consume[OF assms(2)] by blast
  qed
qed

lemma wf_qreach: "qreach w \<Longrightarrow> wf_world w"
  by (induction rule: qreach.induct) (auto simp: wf_qstep, auto simp: wf_world_def claims_ok_def rget_def)


lemma published_claim_covers:
  assumes "wf_world w" and "rget (w_now w) (w_redis w) (userProfilePendingKey u) = Some c"
    and "force \<Longrightarrow> c = ''force'' \<or> c = ''force:published'' \<or> has_prefix c ''force:published:''"
    and "\<not> force \<Longrightarrow> \<not> has_prefix c ''normal:publishing:'' \<and> \<not> has_prefix c ''force:publishing:''"
  obtains m where "m \<in> w_sent w - w_settled w" "ev_UserId m = u" "force \<longrightarrow> ev_Force m"
proof -
  have "claim_ok w u c" using assms(1,2) by (simp add: wf_world_def claims_ok_def)
  then obtain f t where ft: "message u f t \<notin> w_settled w"
      "c = publishing (state_of f) t \<or> c = published (state_of f) t \<and> message u f t \<in> w_sent w"
    unfolding claim_ok_def by blast
  have np: "c \<noteq> publishing (state_of f) t"
    using assms(3,4) by (cases f; cases force; auto simp: publishing_def pending_names str_simps)
  then have "force \<longrightarrow> f" using ft(2) assms(3) by (auto simp: published_def pending_names str_simps split: if_splits)
  then show ?thesis using that[of "message u f t"] ft np by auto
qed

definition pending_world :: world where
  "pending_world = \<lparr>w_now = 0,
     w_redis = [userProfilePendingKey 7 \<mapsto> (published userProfilePendingNormal ''a'', Some userProfilePendingTTL)],
     w_used = {''a''}, w_claimed = {(7, False, ''a'')}, w_answered = {(7, False, ''a'', True)},
     w_sent = {message 7 False ''a''}, w_settled = {}\<rparr>"

lemma pending_world_reach: "qreach pending_world"
proof -
  let ?w0 = "\<lparr>w_now = 0, w_redis = Map.empty, w_used = {}, w_claimed = {}, w_answered = {}, w_sent = {}, w_settled = {}\<rparr>"
  let ?r1 = "[userProfilePendingKey 7 \<mapsto> (publishing userProfilePendingNormal ''a'', Some userProfilePendingTTL)]"
  let ?w1 = "?w0\<lparr>w_redis := ?r1, w_used := {''a''}, w_claimed := {(7, False, ''a'')}\<rparr>"
  let ?w2 = "?w1\<lparr>w_answered := {(7, False, ''a'', True)}, w_sent := {message 7 False ''a''}\<rparr>"
  have "qreach ?w0" by (rule qreach.start) simp_all
  moreover have "qstep ?w0 ?w1"
    using qstep.claim_go[of "''a''" ?w0 True "Some Reached" 7 False ?r1 userProfilePendingNormal False]
    by (simp add: do_claim_def rpc_def userProfileClaimScript_def rget_def set_px_def Let_def pending_names)
  ultimately have "qreach ?w1" by (rule qreach.step)
  moreover have "qstep ?w1 ?w2" using qstep.publish[of 7 False "''a''" ?w1 True True] by simp
  ultimately have "qreach ?w2" by (rule qreach.step)
  moreover have "qstep ?w2 pending_world"
    using qstep.settle[of 7 False "''a''" True ?w2 "Some Reached" "w_redis pending_world" Published]
    by (simp add: pending_world_def do_settle_def publishClaim_def rpc_def userProfilePublishClaimScript_def
        rget_def set_px_def pending_names publishing_def published_def userProfilePendingTTL_def)
  ultimately show ?thesis by (rule qreach.step)
qed

text \<open>C35: no request is swallowed by deduplication. However publishers and consumers interleave and
  whichever Redis calls and publications fail, a request that \<^verbatim>\<open>UserProfileTask.do\<close> answers with "already
  pending" leaves claim and queue untouched, and there is a message for the same user, forced if the
  request was, that the broker accepted and no consumer has settled yet.\<close>

theorem deduped_request_is_covered:
  assumes "qreach w"
    and "do_enqueue (w_now w) mq f1 f2 ok u force t (w_redis w, q) = (rq, Deduped)"
  shows "rq = (w_redis w, q) \<and> (\<exists>m. m \<in> w_sent w - w_settled w \<and> ev_UserId m = u \<and> (force \<longrightarrow> ev_Force m))"
proof -
  have wf: "wf_world w" using assms(1) by (rule wf_qreach)
  obtain r1 s where d: "do_claim (w_now w) mq f1 u force t (w_redis w) = (r1, s)" by fastforce
  then have s: "s = Stop Deduped \<and> rq = (r1, q)"
    using assms(2) by (auto simp: do_enqueue_def Let_def do_settle_def split: claim_step.splits if_splits prod.splits)
  from d show ?thesis
  proof (cases rule: do_claim_cases)
    case (dup current)
    show ?thesis using published_claim_covers[OF wf dup(4-6)] dup(2) s by metis
  qed (use s in auto)
qed

lemma deduped_request_is_covered_witness:
  "\<exists>m. m \<in> w_sent pending_world - w_settled pending_world \<and> ev_UserId m = 7"
proof -
  have "do_enqueue (w_now pending_world) True (Some Reached) (Some Reached) True 7 False ''b'' (w_redis pending_world, [])
      = ((w_redis pending_world, []), Deduped)"
    by (simp add: pending_world_def do_enqueue_def do_claim_def rpc_def userProfileClaimScript_def rget_def
        pending_names published_def userProfilePendingTTL_def)
  from deduped_request_is_covered[OF pending_world_reach this] show ?thesis by blast
qed

end
