(* ===== verification/MqRetry.thy ===== *)
theory MqRetry
  imports Prelude
begin

text \<open>
  The consumer loop of \<^verbatim>\<open>common/utils/mqconsume/loop.go\<close>: retry counters in message headers, republication,
  the delay queues of exhausted messages, acknowledgement, concurrency settings and the loop itself.

  The broker is a map of queues; a delivery being handled is outside of it until it is settled. What the
  handler, the exhaustion callback and the broker answer are outcomes given to the operations. The last part
  shows that a failing message is never lost before its retries are used up, how often a handler is called,
  and what delays an exhausted message meets.
\<close>

subsection \<open>Headers\<close>

text \<open>The dynamic types a header value can have. Go's \<^verbatim>\<open>int\<close> has 64 bits; a float out of its range is
  converted to the least value, as amd64 does.\<close>

datatype aval = ANil | AInt int | AInt32 int | AInt64 int | AFloat64 rat | AStr string | ABytes string | AJson string | AOther

type_synonym table = "string \<rightharpoonup> aval"

definition RetryHeader :: string where "RetryHeader = ''x-retry''"
definition exhaustedRetryHeader :: string where "exhaustedRetryHeader = ''x-exhausted-retry''"

fun header_int :: "aval \<Rightarrow> int" where
  "header_int (AInt i) = i"
| "header_int (AInt32 i) = i"
| "header_int (AInt64 i) = i"
| "header_int (AFloat64 q) = int64_of q"
| "header_int (AStr s) = atoi_value s"
| "header_int (ABytes s) = atoi_value s"
| "header_int (AJson s) = atoi_value s"
| "header_int ANil = 0"
| "header_int AOther = 0"

definition headerRetry :: "table \<Rightarrow> int" where
  "headerRetry h = (case h RetryHeader of None \<Rightarrow> 0 | Some v \<Rightarrow> header_int v)"

text \<open>\<^verbatim>\<open>headerRetry(amqp.Table{RetryHeader: h[exhaustedRetryHeader]})\<close>\<close>

definition exhaustedRetries :: "table \<Rightarrow> int" where
  "exhaustedRetries h = headerRetry [RetryHeader \<mapsto> (case h exhaustedRetryHeader of None \<Rightarrow> ANil | Some v \<Rightarrow> v)]"

subsection \<open>Settings\<close>

definition ConcurrencyFromEnv :: "string \<Rightarrow> int \<Rightarrow> int" where
  "ConcurrencyFromEnv env d =
     (let d = (if d \<le> 0 then 1 else d); v = trim_space env
      in if v = '''' then d
         else (case atoi v of None \<Rightarrow> d | Some n \<Rightarrow> if n \<le> 0 then d else if n > 32 then 32 else n))"

definition normalizeConcurrency :: "int \<Rightarrow> int \<Rightarrow> int" where
  "normalizeConcurrency v fallback = (if v < 1 then fallback else if v > 32 then 32 else v)"


subsection \<open>Deliveries, the broker and its answers\<close>

record delivery =
  dl_ContentType :: string
  dl_Body :: string
  dl_Headers :: table
  dl_ContentEncoding :: string
  dl_Priority :: nat
  dl_CorrelationId :: string
  dl_ReplyTo :: string
  dl_Expiration :: string
  dl_MessageId :: string
  dl_Timestamp :: int
  dl_Type :: string
  dl_UserId :: string
  dl_AppId :: string

type_synonym queues = "string \<Rightarrow> delivery list"

text \<open>What a call of \<^verbatim>\<open>Publish\<close> comes to: its error, and how many copies the broker has taken (the
  publisher tries twice, so two are possible, and so is one despite an error).\<close>

record publication =
  pb_err :: "string option"
  pb_copies :: nat

definition honest :: "publication \<Rightarrow> bool" where
  "honest p \<longleftrightarrow> pb_err p \<noteq> None \<or> 0 < pb_copies p"

definition Publish :: "publication \<Rightarrow> string \<Rightarrow> delivery \<Rightarrow> queues \<Rightarrow> queues \<times> string option" where
  "Publish p q d qs = (qs(q := qs q @ replicate (pb_copies p) d), pb_err p)"

datatype fate = Acked | Requeued | Dropped

datatype handler_result = HOk | HErr string | HPanic

record outcome =
  oc_handler :: handler_result
  oc_exhausted :: "string option"
  oc_declare :: "string option"
  oc_publish :: publication

record options =
  op_Queue :: string
  op_MaxRetry :: int
  op_Concurrency :: int
  op_DeclareOnMissing :: bool
  op_OnExhausted :: bool
  op_ShouldRequeue :: "(string \<Rightarrow> bool) option"
  op_Backoff :: "(int \<Rightarrow> int) option"

subsection \<open>The delay of an exhausted message\<close>

definition ms :: int where "ms = 1000000"

function backoff_loop :: "int \<Rightarrow> int \<Rightarrow> int \<Rightarrow> int" where
  "backoff_loop retry step delay =
     (if step < retry \<and> delay < 2000 * ms then backoff_loop retry (step + 1) (delay * 2) else delay)"
  by pat_completeness auto
termination by (relation "measure (\<lambda>(retry, step, delay). nat (retry - step))") auto

declare backoff_loop.simps [simp del]

definition exhaustedRetryBackoff :: "options \<Rightarrow> int \<Rightarrow> int" where
  "exhaustedRetryBackoff opts retry =
     (case op_Backoff opts of Some f \<Rightarrow> f retry
      | None \<Rightarrow> (let delay = backoff_loop retry 0 (250 * ms)
                in if delay > 2000 * ms then 2000 * ms else delay))"

definition delayQueue :: "string \<Rightarrow> int \<Rightarrow> string" where
  "delayQueue q delay = q @ ''.exhausted.'' @ int_str (delay div ms) @ ''ms''"

definition message_ttl :: "int \<Rightarrow> int" where
  "message_ttl delay = wrap32 (delay div ms)"

text \<open>A delivery arrives from a queue, so \<^verbatim>\<open>queue == ""\<close> and a missing broker are one refusal here.\<close>

definition settleExhaustedRetry ::
  "outcome \<Rightarrow> string \<Rightarrow> delivery \<Rightarrow> int \<Rightarrow> queues \<Rightarrow> queues \<times> string option" where
  "settleExhaustedRetry e queue d delay qs =
     (if queue = '''' then (qs, Some ''exhausted retry broker unavailable'')
      else (let delay = (if delay \<le> 0 then ms else delay) in
        case oc_declare e of Some err \<Rightarrow> (qs, Some err)
        | None \<Rightarrow> Publish (oc_publish e) (delayQueue queue delay)
            (d\<lparr>dl_Headers := (dl_Headers d)(exhaustedRetryHeader \<mapsto> AInt (wrap64 (exhaustedRetries (dl_Headers d) + 1)))\<rparr>) qs))"

subsection \<open>After a failure, and one delivery\<close>

text \<open>The republished message carries the body, the content type and the headers of the original only.\<close>

definition republished :: "delivery \<Rightarrow> int \<Rightarrow> delivery" where
  "republished d retry = \<lparr>dl_ContentType = dl_ContentType d, dl_Body = dl_Body d,
     dl_Headers = (dl_Headers d)(RetryHeader \<mapsto> AInt (wrap64 (retry + 1))),
     dl_ContentEncoding = '''', dl_Priority = 0, dl_CorrelationId = '''', dl_ReplyTo = '''', dl_Expiration = '''',
     dl_MessageId = '''', dl_Timestamp = zero_time, dl_Type = '''', dl_UserId = '''', dl_AppId = ''''\<rparr>"

definition handleFail :: "options \<Rightarrow> outcome \<Rightarrow> delivery \<Rightarrow> queues \<Rightarrow> queues \<times> fate" where
  "handleFail opts e d qs =
     (let retry = headerRetry (dl_Headers d) in
      if retry \<ge> op_MaxRetry opts then
        (if op_OnExhausted opts \<and> oc_exhausted e \<noteq> None then
           (let delay = exhaustedRetryBackoff opts (exhaustedRetries (dl_Headers d)) in
            case settleExhaustedRetry e (op_Queue opts) d delay qs of
              (qs', None) \<Rightarrow> (qs', Acked)
            | (qs', Some _) \<Rightarrow> (qs', Requeued))
         else (qs, Dropped))
      else (case Publish (oc_publish e) (op_Queue opts) (republished d retry) qs of
              (qs', Some _) \<Rightarrow> (qs', Requeued)
            | (qs', None) \<Rightarrow> (qs', Acked)))"

definition process :: "options \<Rightarrow> outcome \<Rightarrow> delivery \<Rightarrow> queues \<Rightarrow> queues \<times> fate" where
  "process opts e d qs =
     (case oc_handler e of
        HOk \<Rightarrow> (qs, Acked)
      | HErr err \<Rightarrow> (if (case op_ShouldRequeue opts of None \<Rightarrow> False | Some f \<Rightarrow> f err) then (qs, Requeued)
                    else handleFail opts e d qs)
      | HPanic \<Rightarrow> handleFail opts e d qs)"


subsection \<open>The loop\<close>

text \<open>The set-up of \<^verbatim>\<open>runOnce\<close>: eight broker calls in order, each with its error. It answers
  \<open>None\<close> once a consumer is open.\<close>

record setup_env =
  se_declare :: "string option"
  se_open :: "string option"
  se_qos :: "string option"
  se_consume :: "string option"
  se_open2 :: "string option"
  se_declare2 :: "string option"
  se_qos2 :: "string option"
  se_consume2 :: "string option"

fun first_error :: "string option list \<Rightarrow> string option" where
  "first_error [] = None"
| "first_error (Some e # es) = Some e"
| "first_error (None # es) = first_error es"

definition runOnce_open :: "options \<Rightarrow> setup_env \<Rightarrow> string option" where
  "runOnce_open opts s =
     (case first_error [if op_DeclareOnMissing opts then se_declare s else None, se_open s, se_qos s] of
        Some e \<Rightarrow> Some e
      | None \<Rightarrow> (case se_consume s of None \<Rightarrow> None
         | Some e \<Rightarrow> if op_DeclareOnMissing opts
             then first_error [se_open2 s, se_declare2 s, se_qos2 s, se_consume2 s] else Some e))"

text \<open>The events of the \<^verbatim>\<open>select\<close>: a reload tick with the value of \<^verbatim>\<open>ConcurrencySource\<close>, a delivery, the
  closing of the channel, the stop signal. The worker pool runs at most \<^verbatim>\<open>Concurrency\<close> deliveries at a
  time, each to its own end; here they run one after another.\<close>

datatype event = Reload int | Delivery delivery outcome | ChannelClosed | StopSignal

datatype run_end = Stopped | Closed | ConcurrencyChanged | SetupFailed string | Waiting

fun select_loop :: "options \<Rightarrow> event list \<Rightarrow> queues \<Rightarrow> queues \<times> fate list \<times> run_end" where
  "select_loop opts [] qs = (qs, [], Waiting)"
| "select_loop opts (StopSignal # evs) qs = (qs, [], Stopped)"
| "select_loop opts (ChannelClosed # evs) qs = (qs, [], Closed)"
| "select_loop opts (Reload v # evs) qs =
     (if normalizeConcurrency v (op_Concurrency opts) \<noteq> op_Concurrency opts then (qs, [], ConcurrencyChanged)
      else select_loop opts evs qs)"
| "select_loop opts (Delivery d e # evs) qs =
     (case process opts e d qs of (qs1, f) \<Rightarrow>
       case select_loop opts evs qs1 of (qs2, fs, r) \<Rightarrow> (qs2, f # fs, r))"

definition runOnce :: "options \<Rightarrow> setup_env \<Rightarrow> event list \<Rightarrow> queues \<Rightarrow> queues \<times> fate list \<times> run_end" where
  "runOnce opts s evs qs = (case runOnce_open opts s of Some e \<Rightarrow> (qs, [], SetupFailed e)
     | None \<Rightarrow> select_loop opts evs qs)"

text \<open>\<^verbatim>\<open>Run\<close> over a finite number of rounds; a round is what \<^verbatim>\<open>ConcurrencySource\<close> gives, whether the stop
  signal is there before it and during the pause after it, and what \<^verbatim>\<open>runOnce\<close> meets. The flag tells
  whether the loop has ended.\<close>

record round =
  rd_source :: "int option"
  rd_stop :: bool
  rd_stop_after :: bool
  rd_setup :: setup_env
  rd_events :: "event list"

definition run_defaults :: "options \<Rightarrow> options" where
  "run_defaults opts = opts\<lparr>op_Concurrency := (if op_Concurrency opts \<le> 0 then 2 else op_Concurrency opts),
     op_MaxRetry := (if op_MaxRetry opts \<le> 0 then 3 else op_MaxRetry opts)\<rparr>"

fun run_loop :: "options \<Rightarrow> round list \<Rightarrow> queues \<Rightarrow> queues \<times> bool" where
  "run_loop opts [] qs = (qs, False)"
| "run_loop opts (rd # rds) qs =
     (let opts = (case rd_source rd of None \<Rightarrow> opts
          | Some v \<Rightarrow> opts\<lparr>op_Concurrency := normalizeConcurrency v (op_Concurrency opts)\<rparr>)
      in if rd_stop rd then (qs, True)
         else (case runOnce opts (rd_setup rd) (rd_events rd) qs of (qs', _, r) \<Rightarrow>
           if r = ConcurrencyChanged then run_loop opts rds qs'
           else if rd_stop_after rd then (qs', True) else run_loop opts rds qs'))"

definition Run :: "options \<Rightarrow> round list \<Rightarrow> queues \<Rightarrow> queues \<times> bool" where
  "Run opts = run_loop (run_defaults opts)"

subsection \<open>Where a failing message goes\<close>

lemma exhaustedRetries_eq: "exhaustedRetries h = (case h exhaustedRetryHeader of None \<Rightarrow> 0 | Some v \<Rightarrow> header_int v)"
  by (simp add: exhaustedRetries_def headerRetry_def split: option.split)

lemma header_names [simp]: "RetryHeader \<noteq> exhaustedRetryHeader" "exhaustedRetryHeader \<noteq> RetryHeader"
  by (simp_all add: RetryHeader_def exhaustedRetryHeader_def)

lemma headerRetry_upd [simp]:
  "headerRetry (h(RetryHeader \<mapsto> v)) = header_int v" "headerRetry (h(exhaustedRetryHeader \<mapsto> v)) = headerRetry h"
  "exhaustedRetries (h(exhaustedRetryHeader \<mapsto> v)) = header_int v"
  by (simp_all add: headerRetry_def exhaustedRetries_eq)

definition queued :: "queues \<Rightarrow> string \<Rightarrow> delivery \<Rightarrow> queues \<Rightarrow> bool" where
  "queued qs q d qs' \<longleftrightarrow> (\<exists>n>0. qs' = qs(q := qs q @ replicate n d))"

lemma Publish_queued: "honest p \<Longrightarrow> Publish p q d qs = (qs', None) \<Longrightarrow> queued qs q d qs'"
  by (auto simp: Publish_def honest_def queued_def)

definition delayed :: "options \<Rightarrow> delivery \<Rightarrow> queues \<Rightarrow> queues \<Rightarrow> bool" where
  "delayed opts d qs qs' \<longleftrightarrow> (\<exists>delay d'. 0 < delay \<and> queued qs (delayQueue (op_Queue opts) delay) d' qs' \<and>
     dl_Body d' = dl_Body d \<and> headerRetry (dl_Headers d') = headerRetry (dl_Headers d) \<and>
     exhaustedRetries (dl_Headers d') = wrap64 (exhaustedRetries (dl_Headers d) + 1))"

lemma settle_delayed:
  assumes "honest (oc_publish e)" and "settleExhaustedRetry e (op_Queue opts) d delay qs = (qs', None)"
  shows "delayed opts d qs qs'"
proof -
  let ?d = "d\<lparr>dl_Headers := (dl_Headers d)(exhaustedRetryHeader \<mapsto> AInt (wrap64 (exhaustedRetries (dl_Headers d) + 1)))\<rparr>"
  let ?delay = "if delay \<le> 0 then ms else delay"
  have "0 < ?delay" and "Publish (oc_publish e) (delayQueue (op_Queue opts) ?delay) ?d qs = (qs', None)"
    using assms(2) by (simp add: ms_def, simp add: settleExhaustedRetry_def Let_def split: if_splits option.splits)
  then show ?thesis
    unfolding delayed_def using Publish_queued[OF assms(1)] by (intro exI[of _ ?delay] exI[of _ ?d]) simp
qed

text \<open>C36: nothing but exhaustion drops a message. A delivery whose handler failed or panicked is
  dropped only with its retries used up and the exhaustion callback absent or successful; if it is acknowledged instead,
  a message with its body is in the consumer's queue with the retry counter one higher, or in a delay queue
  with the retry counter unchanged and the exhaustion counter one higher. In every other case the broker
  gets the original back.\<close>

theorem failed_message_survives:
  assumes "honest (oc_publish e)" and "oc_handler e \<noteq> HOk" and "process opts e d qs = (qs', fate)"
  shows "case fate of
      Dropped \<Rightarrow> qs' = qs \<and> op_MaxRetry opts \<le> headerRetry (dl_Headers d) \<and> (op_OnExhausted opts \<longrightarrow> oc_exhausted e = None)
    | Acked \<Rightarrow> (headerRetry (dl_Headers d) < op_MaxRetry opts \<and>
          queued qs (op_Queue opts) (republished d (headerRetry (dl_Headers d))) qs')
        \<or> delayed opts d qs qs'
    | Requeued \<Rightarrow> True"
proof -
  have "process opts e d qs = (qs, Requeued) \<or> process opts e d qs = handleFail opts e d qs"
    using assms(2) by (auto simp: process_def split: handler_result.split option.split)
  then show ?thesis
  proof
    assume p: "process opts e d qs = handleFail opts e d qs"
    show ?thesis
    proof (cases "headerRetry (dl_Headers d) \<ge> op_MaxRetry opts")
      case True
      then show ?thesis
        using p assms(3) settle_delayed[OF assms(1)]
        by (auto simp: handleFail_def Let_def split: if_splits prod.splits option.splits)
    next
      case False
      then show ?thesis
        using p assms(3) Publish_queued[OF assms(1)]
        by (auto simp: handleFail_def Let_def split: prod.splits option.splits)
    qed
  qed (use assms(3) in auto)
qed


definition blank :: delivery where
  "blank = \<lparr>dl_ContentType = '''', dl_Body = ''m'', dl_Headers = Map.empty, dl_ContentEncoding = '''', dl_Priority = 0,
     dl_CorrelationId = '''', dl_ReplyTo = '''', dl_Expiration = '''', dl_MessageId = '''', dl_Timestamp = zero_time,
     dl_Type = '''', dl_UserId = '''', dl_AppId = ''''\<rparr>"

definition fine :: publication where "fine = \<lparr>pb_err = None, pb_copies = 1\<rparr>"

definition failing :: outcome where
  "failing = \<lparr>oc_handler = HErr ''x'', oc_exhausted = None, oc_declare = None, oc_publish = fine\<rparr>"

definition demo_options :: options where
  "demo_options = \<lparr>op_Queue = ''user_profile'', op_MaxRetry = 3, op_Concurrency = 1, op_DeclareOnMissing = True,
     op_OnExhausted = True, op_ShouldRequeue = None, op_Backoff = None\<rparr>"

lemma failed_message_survives_witness:
  "queued (\<lambda>_. []) ''user_profile'' (republished blank 0) ((\<lambda>_. [])(''user_profile'' := [republished blank 0]))"
proof -
  have p: "process demo_options failing blank (\<lambda>_. []) = ((\<lambda>_. [])(''user_profile'' := [republished blank 0]), Acked)"
    by (simp add: process_def handleFail_def Publish_def failing_def fine_def demo_options_def blank_def headerRetry_def)
  have nd: "\<not> delayed demo_options blank (\<lambda>_. []) ((\<lambda>_. [])(''user_profile'' := [republished blank 0]))"
  proof
    assume "delayed demo_options blank (\<lambda>_. []) ((\<lambda>_. [])(''user_profile'' := [republished blank 0]))"
    then obtain delay d' n where q: "0 < n" "(\<lambda>_. [])(''user_profile'' := [republished blank 0])
        = (\<lambda>_. [])(delayQueue ''user_profile'' delay := replicate n d')"
      unfolding delayed_def queued_def by (auto simp: demo_options_def)
    have "delayQueue ''user_profile'' delay \<noteq> ''user_profile''" by (simp add: delayQueue_def)
    then show False using fun_cong[OF q(2), of "delayQueue ''user_profile'' delay"] q(1) by simp
  qed
  show ?thesis
    using failed_message_survives[OF _ _ p] nd
    by (simp add: honest_def failing_def fine_def blank_def headerRetry_def demo_options_def)
qed

subsection \<open>The delays\<close>

lemma backoff_loop_eq: "0 < delay \<Longrightarrow> delay \<le> 2000 * ms \<Longrightarrow> 2000 * ms = delay * 2 ^ k \<Longrightarrow> step \<le> retry \<Longrightarrow>
    backoff_loop retry step delay = delay * 2 ^ min k (nat (retry - step))"
proof (induction retry step delay arbitrary: k rule: backoff_loop.induct)
  case (1 retry step delay)
  show ?case
  proof (cases "step < retry \<and> delay < 2000 * ms")
    case True
    then obtain k' where k: "k = Suc k'" using "1.prems"(3) by (cases k) auto
    have lt: "step < retry" using True by blast
    then have n: "nat (retry - step) = Suc (nat (retry - (step + 1)))" by arith
    have b: "2 * delay \<le> 2000 * ms" using "1.prems"(1,3) k
      by simp
    have "backoff_loop retry (step + 1) (delay * 2) = delay * 2 * 2 ^ min k' (nat (retry - (step + 1)))"
      using "1.IH"[OF True, of k'] "1.prems"(1,3) lt k b by simp
    then show ?thesis using True k n by (subst backoff_loop.simps) simp
  next
    case False
    have "delay < 2000 * ms \<or> k = 0"
    proof (cases k)
      case (Suc n)
      have "delay * 1 \<le> delay * 2 ^ n" using "1.prems"(1) by (intro mult_left_mono) simp_all
      moreover have "2000 * ms = 2 * (delay * 2 ^ n)" using "1.prems"(3) Suc by simp
      ultimately have "delay < 2000 * ms" using "1.prems"(1) by linarith
      then show ?thesis by simp
    qed simp
    then show ?thesis using False "1.prems" by (subst backoff_loop.simps) auto
  qed
qed


lemma default_backoff:
  assumes "op_Backoff opts = None"
  shows "exhaustedRetryBackoff opts retry = 250 * ms * 2 ^ min 3 (nat retry)"
proof -
  have "backoff_loop retry 0 (250 * ms) = 250 * ms * 2 ^ min 3 (nat retry)"
  proof (cases "0 \<le> retry")
    case True
    then show ?thesis using backoff_loop_eq[of "250 * ms" 3 0 retry] by (simp add: ms_def)
  next
    case False
    then show ?thesis by (subst backoff_loop.simps) simp
  qed
  moreover have "250 * ms * 2 ^ min 3 (nat retry) \<le> 2000 * ms"
    using power_increasing[of "min 3 (nat retry)" 3 "2::int"] by (simp add: ms_def)
  ultimately show ?thesis using assms by (simp add: exhaustedRetryBackoff_def Let_def)
qed

text \<open>the default delay of an exhausted message is 250 ms doubled with every round, at most 2 s: the
  loop computes exactly that for every counter, negative ones included, the message TTL does not wrap at 32 bits, and only four
  delay queues ever exist for a queue.\<close>

theorem exhausted_backoff_bounds:
  assumes "op_Backoff opts = None"
  shows "exhaustedRetryBackoff opts retry = min (2000 * ms) (250 * ms * 2 ^ nat retry)
    \<and> message_ttl (exhaustedRetryBackoff opts retry) = min 2000 (250 * 2 ^ nat retry)
    \<and> delayQueue q (exhaustedRetryBackoff opts retry) \<in> {q @ ''.exhausted.'' @ n @ ''ms'' | n. n \<in> {''250'', ''500'', ''1000'', ''2000''}}"
proof -
  have m: "250 * c * 2 ^ min 3 n = min (2000 * c) (250 * c * 2 ^ n)" if "0 < c" for c :: int and n
  proof (cases "n \<le> 3")
    case True
    then show ?thesis using that power_increasing[of n 3 "2::int"] by (simp add: min_def)
  next
    case False
    then show ?thesis using that power_increasing[of 3 n "2::int"] by (simp add: min_def)
  qed
  have k: "min 3 (nat retry) \<in> {0, 1, 2, 3}" by auto
  have d: "exhaustedRetryBackoff opts retry = ms * (250 * 2 ^ min 3 (nat retry))"
    using default_backoff[OF assms] by simp
  have t: "message_ttl (exhaustedRetryBackoff opts retry) = 250 * 2 ^ min 3 (nat retry)"
    using k unfolding d message_ttl_def by (auto simp: ms_def wrap32_def)
  have ns: "nat_str 250 = ''250''" "nat_str 500 = ''500''" "nat_str 1000 = ''1000''" "nat_str 2000 = ''2000''"
    by code_simp+
  have "delayQueue q (exhaustedRetryBackoff opts retry) = q @ ''.exhausted.'' @ int_str (250 * 2 ^ min 3 (nat retry)) @ ''ms''"
    unfolding d delayQueue_def by (simp add: ms_def)
  moreover have "int_str (250 * 2 ^ min 3 (nat retry)) \<in> {''250'', ''500'', ''1000'', ''2000''}"
    using k by (auto simp: int_str_def ns)
  ultimately show ?thesis using t m[of ms "nat retry"] m[of 1 "nat retry"] default_backoff[OF assms, of retry]
    by (auto simp: ms_def)
qed

lemma exhausted_backoff_bounds_witness: "exhaustedRetryBackoff demo_options 2 = 1000 * ms"
  using exhausted_backoff_bounds[of demo_options 2 "''q''"] by (simp add: demo_options_def ms_def)


subsection \<open>How often a handler is called\<close>

text \<open>A message comes back from the broker with its headers encoded and decoded again; \<open>wire\<close> is what that
  does to a value.\<close>

definition delivered :: "(aval \<Rightarrow> aval) \<Rightarrow> delivery \<Rightarrow> delivery" where
  "delivered wire d = d\<lparr>dl_Headers := (\<lambda>k. map_option wire (dl_Headers d k))\<rparr>"

text \<open>The queue worked off front to back with the outcomes of the attempts in \<open>env\<close>; the result is the
  queues and the number of deliveries handled, or nothing when the fuel does not suffice.\<close>

fun drain :: "nat \<Rightarrow> (aval \<Rightarrow> aval) \<Rightarrow> options \<Rightarrow> (nat \<Rightarrow> outcome) \<Rightarrow> queues \<Rightarrow> (queues \<times> nat) option" where
  "drain 0 wire opts env qs = (if qs (op_Queue opts) = [] then Some (qs, 0) else None)"
| "drain (Suc n) wire opts env qs =
     (case qs (op_Queue opts) of [] \<Rightarrow> Some (qs, 0)
      | d # rest \<Rightarrow>
        (case process opts (env 0) (delivered wire d) (qs(op_Queue opts := rest)) of (qs1, f) \<Rightarrow>
          map_option (apsnd Suc) (drain n wire opts (\<lambda>i. env (Suc i))
            (if f = Requeued then qs1(op_Queue opts := qs1 (op_Queue opts) @ [d]) else qs1))))"

definition attempts_left :: "(aval \<Rightarrow> aval) \<Rightarrow> options \<Rightarrow> delivery \<Rightarrow> nat" where
  "attempts_left wire opts d = nat (op_MaxRetry opts - headerRetry (dl_Headers (delivered wire d))) + 1"

definition workload :: "(aval \<Rightarrow> aval) \<Rightarrow> options \<Rightarrow> delivery list \<Rightarrow> nat" where
  "workload wire opts ds = sum_list (map (attempts_left wire opts) ds)"

text \<open>The broker works: publications arrive once, the exhaustion callback succeeds, no error asks for an immediate requeue.\<close>

definition smooth :: "options \<Rightarrow> outcome \<Rightarrow> bool" where
  "smooth opts e \<longleftrightarrow> oc_publish e = fine \<and> (op_OnExhausted opts \<longrightarrow> oc_exhausted e = None) \<and>
     (case op_ShouldRequeue opts of None \<Rightarrow> True | Some f \<Rightarrow> (case oc_handler e of HErr err \<Rightarrow> \<not> f err | _ \<Rightarrow> True))"

definition small_retry :: "delivery \<Rightarrow> bool" where
  "small_retry d \<longleftrightarrow> 0 \<le> headerRetry (dl_Headers d)"

lemma workload_simps [simp]:
  "workload wire opts [] = 0" "workload wire opts (d # ds) = attempts_left wire opts d + workload wire opts ds"
  "workload wire opts (ds @ ds') = workload wire opts ds + workload wire opts ds'"
  by (simp_all add: workload_def)

text \<open>One attempt takes one unit off the workload, at least; exactly one if the handler fails.\<close>

lemma smooth_attempt:
  assumes s: "smooth opts e" and "small_retry (delivered wire d)" and m: "op_MaxRetry opts < 2 ^ 31"
    and w: "\<And>i. 0 \<le> i \<Longrightarrow> i < 2 ^ 31 \<Longrightarrow> header_int (wire (AInt i)) = i"
    and "process opts e (delivered wire d) (qs(op_Queue opts := rest)) = (qs1, f)"
  obtains "f \<noteq> Requeued" "qs1 (op_Queue opts) = rest"
      "oc_handler e = HOk \<or> attempts_left wire opts d = 1"
    | d' where "f \<noteq> Requeued" "qs1 (op_Queue opts) = rest @ [d']" "small_retry (delivered wire d')"
      "attempts_left wire opts d = Suc (attempts_left wire opts d')"
proof -
  let ?r = "headerRetry (dl_Headers (delivered wire d))"
  have r: "0 \<le> ?r" using assms(2) by (simp add: small_retry_def)
  consider (ok) "oc_handler e = HOk" | (fail) "oc_handler e \<noteq> HOk"
      "(qs1, f) = handleFail opts e (delivered wire d) (qs(op_Queue opts := rest))"
    using assms(5) s by (cases "oc_handler e") (auto simp: process_def smooth_def split: option.splits if_splits)
  then show ?thesis
  proof cases
    case ok
    then show ?thesis using assms(5) that(1) by (auto simp: process_def)
  next
    case fail
    show ?thesis
    proof (cases "op_MaxRetry opts \<le> ?r")
      case True
      then have "qs1 = qs(op_Queue opts := rest) \<and> f = Dropped"
        using fail(2) s by (auto simp: handleFail_def smooth_def)
      then show ?thesis using True that(1) by (simp add: attempts_left_def)
    next
      case False
      let ?d = "republished (delivered wire d) ?r"
      have e: "qs1 = qs(op_Queue opts := rest @ [?d]) \<and> f = Acked"
        using fail(2) s False by (simp add: handleFail_def smooth_def Publish_def fine_def Let_def)
      have "wrap64 (?r + 1) = ?r + 1"
        using r False m by (intro wrap64_id) (simp_all add: int64_min_def int64_max_def)
      then have h: "headerRetry (dl_Headers (delivered wire ?d)) = ?r + 1"
        using w[of "?r + 1"] r False m by (simp add: delivered_def republished_def headerRetry_def)
      then show ?thesis
        using e r False by (intro that(2)[of ?d]) (simp_all add: small_retry_def attempts_left_def nat_diff_distrib')
    qed
  qed
qed


lemma drain_ends:
  assumes "\<And>i. smooth opts (env i)" and "\<forall>d\<in>set (qs (op_Queue opts)). small_retry (delivered wire d)"
    and "op_MaxRetry opts < 2 ^ 31" and "\<And>i. 0 \<le> i \<Longrightarrow> i < 2 ^ 31 \<Longrightarrow> header_int (wire (AInt i)) = i"
    and "workload wire opts (qs (op_Queue opts)) \<le> n"
  shows "\<exists>qs' c. drain n wire opts env qs = Some (qs', c) \<and> qs' (op_Queue opts) = []
    \<and> c \<le> workload wire opts (qs (op_Queue opts))
    \<and> ((\<forall>i. oc_handler (env i) \<noteq> HOk) \<longrightarrow> c = workload wire opts (qs (op_Queue opts)))"
  using assms(1,2,5)
proof (induction n arbitrary: env qs)
  case 0
  then have "qs (op_Queue opts) = []" by (cases "qs (op_Queue opts)") (auto simp: attempts_left_def)
  then show ?case by simp
next
  case (Suc n)
  show ?case
  proof (cases "qs (op_Queue opts)")
    case (Cons d rest)
    obtain qs1 f where p: "process opts (env 0) (delivered wire d) (qs(op_Queue opts := rest)) = (qs1, f)"
      by fastforce
    have s: "small_retry (delivered wire d)" "\<forall>d\<in>set rest. small_retry (delivered wire d)"
      using Suc.prems(2) Cons by simp_all
    have one: "0 < attempts_left wire opts d" by (simp add: attempts_left_def)
    have "f \<noteq> Requeued \<and> (\<forall>d\<in>set (qs1 (op_Queue opts)). small_retry (delivered wire d)) \<and>
        workload wire opts (qs1 (op_Queue opts)) < workload wire opts (d # rest) \<and>
        (oc_handler (env 0) = HOk \<or> Suc (workload wire opts (qs1 (op_Queue opts))) = workload wire opts (d # rest))"
      by (rule smooth_attempt[OF Suc.prems(1)[of 0] s(1) assms(3,4) p]) (use s(2) one in \<open>auto simp del: fun_upd_apply\<close>)
    then have a: "f \<noteq> Requeued" "\<forall>d\<in>set (qs1 (op_Queue opts)). small_retry (delivered wire d)"
        "workload wire opts (qs1 (op_Queue opts)) < workload wire opts (qs (op_Queue opts))"
        "oc_handler (env 0) = HOk \<or> Suc (workload wire opts (qs1 (op_Queue opts))) = workload wire opts (qs (op_Queue opts))"
      unfolding Cons by blast+
    have "workload wire opts (qs1 (op_Queue opts)) \<le> n" using a(3) Suc.prems(3) by simp
    from Suc.IH[of "\<lambda>i. env (Suc i)" qs1, OF Suc.prems(1) a(2) this]
    obtain qs' c where r: "drain n wire opts (\<lambda>i. env (Suc i)) qs1 = Some (qs', c)" "qs' (op_Queue opts) = []"
      "c \<le> workload wire opts (qs1 (op_Queue opts))"
      "(\<forall>i. oc_handler (env (Suc i)) \<noteq> HOk) \<longrightarrow> c = workload wire opts (qs1 (op_Queue opts))" by blast
    have "drain (Suc n) wire opts env qs = Some (qs', Suc c)" using Cons p a(1) r(1) by simp
    moreover have "c < workload wire opts (qs (op_Queue opts))" using a(3) r(3) by simp
    moreover have "Suc c = workload wire opts (qs (op_Queue opts))" if "\<forall>i. oc_handler (env i) \<noteq> HOk"
      using a(4) r(4) that by metis
    ultimately show ?thesis using r(2) by (metis Suc_leI)
  qed simp
qed

text \<open>C37: retries end. If publications reach the broker and the exhaustion callback succeeds, the
  consumer's queue is empty after finitely many deliveries, whatever the handler does, and the handler has
  been called for each message at most \<^verbatim>\<open>MaxRetry\<close> times more than its retry counter leaves, plus once;
  exactly so often if it always fails.\<close>

theorem retries_end:
  assumes "\<And>i. smooth opts (env i)" and "\<forall>d\<in>set (qs (op_Queue opts)). small_retry (delivered wire d)"
    and "op_MaxRetry opts < 2 ^ 31" and "\<And>i. 0 \<le> i \<Longrightarrow> i < 2 ^ 31 \<Longrightarrow> header_int (wire (AInt i)) = i"
  shows "\<exists>n qs' c. drain n wire opts env qs = Some (qs', c) \<and> qs' (op_Queue opts) = []
    \<and> c \<le> workload wire opts (qs (op_Queue opts))
    \<and> ((\<forall>i. oc_handler (env i) \<noteq> HOk) \<longrightarrow> c = workload wire opts (qs (op_Queue opts)))"
  by (intro exI[of _ "workload wire opts (qs (op_Queue opts))"] drain_ends assms order_refl)

lemma retries_end_witness:
  "\<exists>n qs'. drain n (\<lambda>v. case v of AInt i \<Rightarrow> AInt32 i | _ \<Rightarrow> v) demo_options (\<lambda>_. failing)
     (\<lambda>q. if q = ''user_profile'' then [blank, blank] else []) = Some (qs', 8)"
proof -
  have "workload (\<lambda>v. case v of AInt i \<Rightarrow> AInt32 i | _ \<Rightarrow> v) demo_options [blank, blank] = 8"
    by (simp add: attempts_left_def delivered_def blank_def demo_options_def headerRetry_def)
  then show ?thesis
    using retries_end[of demo_options "\<lambda>_. failing" "\<lambda>q. if q = ''user_profile'' then [blank, blank] else []"
        "\<lambda>v. case v of AInt i \<Rightarrow> AInt32 i | _ \<Rightarrow> v"]
    by (fastforce simp: smooth_def failing_def small_retry_def delivered_def blank_def demo_options_def headerRetry_def)
qed

end
