(* ===== verification/OrgModel.thy ===== *)
theory OrgModel
  imports Auth
begin

text \<open>
  Organisations: the roles of \<^verbatim>\<open>user/internal/data/model/org.go\<close> and their ranks, the tables the services of
  organisations, roles and squads share, and the queries and writes on them.

  A table is the list of its rows in the order of the primary key; \<^verbatim>\<open>First\<close> is the first row that matches
  and fails only when there is none. Every write has a label and takes effect unless \<open>fails\<close> names it; what the
  code does with the error is in the operations. \<open>d_now\<close> is the time at which a request is handled. Timestamps
  of rows are left out, and so are notifications and the caches in Redis, which no decision here reads
  (the plan of a subscription is cached for five minutes and dropped from the cache when it is edited).
\<close>

subsection \<open>Roles\<close>

abbreviation "OrgRoleMember \<equiv> RoleMember"
abbreviation "OrgRoleCaptain \<equiv> RoleCaptain"
abbreviation "OrgRoleGroupLeader \<equiv> RoleGroupLeader"
abbreviation "OrgRoleCoach \<equiv> RoleCoach"
abbreviation "OrgRoleOrgAdmin \<equiv> RoleOrgAdmin"
abbreviation "OrgJoinAuto \<equiv> ''auto''"
abbreviation "OrgJoinReview \<equiv> ''review''"
abbreviation "OrgStatusActive \<equiv> ''active''"
abbreviation "OrgStatusSuspended \<equiv> ''suspended''"
abbreviation "PublicOrgSlug \<equiv> ''public''"
abbreviation "Pending \<equiv> ''pending''"
abbreviation "Approved \<equiv> ''approved''"
abbreviation "Accepted \<equiv> ''accepted''"
abbreviation "Rejected \<equiv> ''rejected''"
abbreviation "Cancelled \<equiv> ''cancelled''"
abbreviation "ScopeTypeGroup \<equiv> ''group''"
abbreviation "ScopeTypeSquad \<equiv> ''squad''"

definition ValidOrgRole :: "string \<Rightarrow> bool" where
  "ValidOrgRole role \<longleftrightarrow> role = OrgRoleMember \<or> role = OrgRoleCaptain \<or> role = OrgRoleGroupLeader
     \<or> role = OrgRoleCoach \<or> role = OrgRoleOrgAdmin"

definition OrgRoleRank :: "string \<Rightarrow> int" where
  "OrgRoleRank role =
     (if role = OrgRoleOrgAdmin then 40 else if role = OrgRoleCoach then 30
      else if role = OrgRoleGroupLeader then 20 else if role = OrgRoleCaptain then 10 else 0)"

definition IsOrgStaffRole :: "string \<Rightarrow> bool" where
  "IsOrgStaffRole role \<longleftrightarrow> role = OrgRoleCoach \<or> role = OrgRoleGroupLeader \<or> role = OrgRoleCaptain \<or> role = OrgRoleOrgAdmin"

definition IsOrgFullScopeRole :: "string \<Rightarrow> bool" where
  "IsOrgFullScopeRole role \<longleftrightarrow> role = OrgRoleOrgAdmin \<or> role = OrgRoleCoach"

definition RoleNeedsScope :: "string \<Rightarrow> string \<times> bool" where
  "RoleNeedsScope role = (if role = OrgRoleCaptain then (ScopeTypeSquad, True)
     else if role = OrgRoleGroupLeader then (ScopeTypeGroup, True) else ('''', False))"

definition ValidScopeType :: "string \<Rightarrow> bool" where
  "ValidScopeType t \<longleftrightarrow> t = ScopeTypeGroup \<or> t = ScopeTypeSquad"

definition CanAppointOrgRole :: "string \<Rightarrow> string \<Rightarrow> string \<Rightarrow> bool" where
  "CanAppointOrgRole actorRole targetCurrentRole newRole =
     (let ar = OrgRoleRank actorRole; tr = OrgRoleRank targetCurrentRole in
      if ar < 20 then False
      else if OrgRoleRank newRole > ar then False
      else if tr > ar then False
      else if tr = ar \<and> OrgRoleRank newRole < ar then False
      else True)"

definition EffectiveRoleFromGrants :: "string \<Rightarrow> bool \<Rightarrow> bool \<Rightarrow> string" where
  "EffectiveRoleFromGrants cur hasGroup hasSquad =
     (if cur = OrgRoleOrgAdmin \<or> cur = OrgRoleCoach then cur
      else if hasGroup then OrgRoleGroupLeader
      else if hasSquad then OrgRoleCaptain
      else if cur = OrgRoleGroupLeader \<or> cur = OrgRoleCaptain then OrgRoleMember
      else if cur = '''' then OrgRoleMember
      else cur)"

subsection \<open>Tables\<close>

record org =
  o_ID :: nat
  o_Name :: string
  o_Slug :: string
  o_SeatLimit :: int
  o_Status :: string
  o_IsSystem :: bool
  o_BrandTitle :: string
  o_BrandLogo :: string
  o_BrandFavicon :: string
  o_JoinMode :: string
  o_InviteCode :: string
  o_EnableAIEmail :: bool
  o_EnableAIWeeklyEmail :: bool
  o_EnableSpider :: bool
  o_SpiderIntervalMin :: int
  o_AIEmailSchedule :: string
  o_EnableFetchProblem :: bool
  o_EnableAiAnalyze :: bool
  o_ForceSync :: bool

record member =
  mb_Org :: nat
  mb_User :: nat
  mb_Role :: string
  mb_Group :: "nat option"
  mb_Display :: string

record user =
  u_ID :: nat
  u_Username :: string
  u_Name :: string
  u_IsSiteAdmin :: bool
  u_RoleID :: int
  u_CurrentOrgID :: nat
  u_GroupId :: nat
  u_WeeklyEmail :: bool
  u_SubTier :: string
  u_SubExpireAt :: "int option"
  u_SubSource :: string
  u_SubPendingTier :: string
  u_SubPendingDays :: int
  u_SubPendingSource :: string
  u_SubReminded :: int
  u_FetchOverride :: "bool option"
  u_AiOverride :: "bool option"

text \<open>The plans of personal subscriptions (\<^verbatim>\<open>model/subscription.go\<close>).\<close>

record plan_features =
  pf_Plan :: string
  pf_PriceCents :: int
  pf_ManualRefreshDaily :: int
  pf_SyncIntervalMin :: int
  pf_AiAnalyzeMonth :: int
  pf_EnableFetchProblem :: bool
  pf_EnableAiAnalyze :: bool
  pf_EnableAiDaily :: bool
  pf_EnableRegularDaily :: bool
  pf_Days :: int
  pf_Enabled :: bool

record group =
  g_ID :: nat
  g_Org :: nat
  g_Name :: "string option"

record squad =
  sq_ID :: nat
  sq_Org :: nat
  sq_Group :: nat
  sq_Name :: string
  sq_Describe :: string

record grant =
  gr_Org :: nat
  gr_User :: nat
  gr_Type :: string
  gr_Scope :: nat

record join_request =
  jr_ID :: nat
  jr_Org :: nat
  jr_User :: nat
  jr_Status :: string
  jr_Code :: string
  jr_Display :: string
  jr_ReviewedBy :: "nat option"

record invite =
  iv_ID :: nat
  iv_Org :: nat
  iv_User :: nat
  iv_Inviter :: nat
  iv_Status :: string
  iv_Role :: string
  iv_Display :: string

record role =
  ro_ID :: nat
  ro_Code :: string
  ro_Name :: string
  ro_Description :: string
  ro_Scope :: string
  ro_Org :: nat
  ro_IsSystem :: bool

record user_role =
  ur_User :: nat
  ur_Role :: nat
  ur_Org :: nat

record db =
  d_orgs :: "org list"
  d_members :: "member list"
  d_users :: "user list"
  d_groups :: "group list"
  d_squads :: "squad list"
  d_squad_members :: "(nat \<times> nat) list"
  d_grants :: "grant list"
  d_requests :: "join_request list"
  d_invites :: "invite list"
  d_roles :: "role list"
  d_role_perms :: "(nat \<times> string) list"
  d_org_role_perms :: "(nat \<times> string \<times> string) list"
  d_user_roles :: "user_role list"
  d_plans :: "plan_features list"
  d_seq :: nat
  d_now :: int

type_synonym fails = "string \<Rightarrow> bool"

definition exec :: "fails \<Rightarrow> string \<Rightarrow> ('d \<Rightarrow> 'd) \<Rightarrow> 'd \<Rightarrow> 'd \<times> bool" where
  "exec fl lbl f d = (if fl lbl then (d, False) else (f d, True))"

abbreviation put :: "fails \<Rightarrow> string \<Rightarrow> ('d \<Rightarrow> 'd) \<Rightarrow> 'd \<Rightarrow> 'd" where
  "put fl lbl f d \<equiv> fst (exec fl lbl f d)"

text \<open>Primary keys are drawn from a counter and never used again; one counter serves all tables.\<close>

definition next_id :: "db \<Rightarrow> nat" where
  "next_id d = Suc (d_seq d)"

definition drawn :: "db \<Rightarrow> db" where
  "drawn d = d\<lparr>d_seq := Suc (d_seq d)\<rparr>"

definition DefaultGroupName :: string where
  "DefaultGroupName = [CHR 0xE9, CHR 0xBB, CHR 0x98, CHR 0xE8, CHR 0xAE, CHR 0xA4,
     CHR 0xE5, CHR 0x88, CHR 0x86, CHR 0xE7, CHR 0xBB, CHR 0x84]"

definition UngroupedName :: string where
  "UngroupedName = [CHR 0xE6, CHR 0x9C, CHR 0xAA, CHR 0xE5, CHR 0x88, CHR 0x86, CHR 0xE7, CHR 0xBB, CHR 0x84]"

definition IsDefaultGroup :: "group \<Rightarrow> bool" where
  "IsDefaultGroup g = (case g_Name g of None \<Rightarrow> False | Some n \<Rightarrow> n = DefaultGroupName \<or> n = UngroupedName)"

subsection \<open>Queries\<close>

definition find_org :: "db \<Rightarrow> nat \<Rightarrow> org option" where
  "find_org d i = find (\<lambda>r. o_ID r = i) (d_orgs d)"

definition public_org :: "db \<Rightarrow> org option" where
  "public_org d = find (\<lambda>r. o_Slug r = PublicOrgSlug) (d_orgs d)"

definition find_member :: "db \<Rightarrow> nat \<Rightarrow> nat \<Rightarrow> member option" where
  "find_member d oid uid = find (\<lambda>m. mb_Org m = oid \<and> mb_User m = uid) (d_members d)"

definition loadUser :: "db \<Rightarrow> nat \<Rightarrow> user option" where
  "loadUser d i = find (\<lambda>r. u_ID r = i) (d_users d)"

definition isMemberDB :: "db \<Rightarrow> nat \<Rightarrow> nat \<Rightarrow> bool" where
  "isMemberDB d uid oid \<longleftrightarrow> (\<exists>m\<in>set (d_members d). mb_Org m = oid \<and> mb_User m = uid)"

definition isOrgAdminDB :: "db \<Rightarrow> nat \<Rightarrow> nat \<Rightarrow> bool" where
  "isOrgAdminDB d uid oid \<longleftrightarrow> (\<exists>m\<in>set (d_members d). mb_Org m = oid \<and> mb_User m = uid \<and> mb_Role m = OrgRoleOrgAdmin)"

definition admins :: "db \<Rightarrow> nat \<Rightarrow> nat" where
  "admins d oid = length (filter (\<lambda>m. mb_Org m = oid \<and> mb_Role m = OrgRoleOrgAdmin) (d_members d))"



definition is_public :: "org \<Rightarrow> bool" where
  "is_public r \<longleftrightarrow> o_IsSystem r \<or> o_Slug r = PublicOrgSlug"

subsection \<open>Writes\<close>

definition upd_member :: "nat \<Rightarrow> nat \<Rightarrow> (member \<Rightarrow> member) \<Rightarrow> db \<Rightarrow> db" where
  "upd_member oid uid f d = d\<lparr>d_members := map (\<lambda>m. if mb_Org m = oid \<and> mb_User m = uid then f m else m) (d_members d)\<rparr>"

definition del_member :: "nat \<Rightarrow> nat \<Rightarrow> db \<Rightarrow> db" where
  "del_member oid uid d = d\<lparr>d_members := filter (\<lambda>m. \<not> (mb_Org m = oid \<and> mb_User m = uid)) (d_members d)\<rparr>"

definition set_role :: "nat \<Rightarrow> nat \<Rightarrow> string \<Rightarrow> db \<Rightarrow> db" where
  "set_role oid uid role = upd_member oid uid (\<lambda>m. m\<lparr>mb_Role := role\<rparr>)"

definition upd_user :: "nat \<Rightarrow> (user \<Rightarrow> user) \<Rightarrow> db \<Rightarrow> db" where
  "upd_user uid f d = d\<lparr>d_users := map (\<lambda>u. if u_ID u = uid then f u else u) (d_users d)\<rparr>"

definition upd_org :: "nat \<Rightarrow> (org \<Rightarrow> org) \<Rightarrow> db \<Rightarrow> db" where
  "upd_org oid f d = d\<lparr>d_orgs := map (\<lambda>r. if o_ID r = oid then f r else r) (d_orgs d)\<rparr>"

definition upd_request :: "nat \<Rightarrow> (join_request \<Rightarrow> join_request) \<Rightarrow> db \<Rightarrow> db" where
  "upd_request i f d = d\<lparr>d_requests := map (\<lambda>r. if jr_ID r = i then f r else r) (d_requests d)\<rparr>"

definition upd_invite :: "nat \<Rightarrow> (invite \<Rightarrow> invite) \<Rightarrow> db \<Rightarrow> db" where
  "upd_invite i f d = d\<lparr>d_invites := map (\<lambda>r. if iv_ID r = i then f r else r) (d_invites d)\<rparr>"


subsection \<open>The roles of an organisation\<close>

text \<open>What the memberships come to: who has which role where. \<open>uniq\<close> is the unique index on
  \<^verbatim>\<open>org_members\<close>.\<close>

definition uniq :: "db \<Rightarrow> bool" where
  "uniq d \<longleftrightarrow> distinct (map (\<lambda>m. (mb_Org m, mb_User m)) (d_members d))"

definition roles :: "db \<Rightarrow> nat \<times> nat \<rightharpoonup> string" where
  "roles d = (\<lambda>(oid, uid). map_option mb_Role (find_member d oid uid))"

definition has_admin :: "db \<Rightarrow> nat \<Rightarrow> bool" where
  "has_admin d oid \<longleftrightarrow> (\<exists>u. roles d (oid, u) = Some OrgRoleOrgAdmin)"

named_theorems org_frame \<open>what an operation leaves alone\<close>

lemma put_cases: obtains "put fl lbl f d = d" | "put fl lbl f d = f d"
  by (cases "fl lbl") (auto simp: exec_def)

lemma put_keeps [org_frame]: "(\<And>d. g (f d) = g d) \<Longrightarrow> g (put fl lbl f d) = g d"
  by (simp add: exec_def)

lemma exec_eq: "exec fl lbl f d = (d', ok) \<longleftrightarrow> (if fl lbl then d' = d \<and> \<not> ok else d' = f d \<and> ok)"
  by (auto simp: exec_def)

lemma find_member_Some:
  "find_member d oid uid = Some m \<Longrightarrow> m \<in> set (d_members d) \<and> mb_Org m = oid \<and> mb_User m = uid"
  by (auto simp: find_member_def find_Some_iff)

lemma find_member_None: "find_member d oid uid = None \<longleftrightarrow> \<not> isMemberDB d uid oid"
  by (auto simp: find_member_def find_None_iff isMemberDB_def)

lemma find_member_in:
  assumes "uniq d" and "m \<in> set (d_members d)"
  shows "find_member d (mb_Org m) (mb_User m) = Some m"
proof -
  obtain n where n: "find_member d (mb_Org m) (mb_User m) = Some n"
    using assms(2) find_member_None by (fastforce simp: isMemberDB_def)
  have "m = n" using assms find_member_Some[OF n]
    unfolding uniq_def by (metis (mono_tags, lifting) distinct_map inj_onD)
  then show ?thesis using n by simp
qed

lemma roles_eq: "d_members d' = d_members d \<Longrightarrow> roles d' = roles d"
  by (simp add: roles_def find_member_def fun_eq_iff)

lemma uniq_eq: "d_members d' = d_members d \<Longrightarrow> uniq d' = uniq d"
  by (simp add: uniq_def)

lemma find_map_member:
  "(\<And>m. mb_Org (f m) = mb_Org m \<and> mb_User (f m) = mb_User m) \<Longrightarrow>
   find (\<lambda>m. mb_Org m = oid \<and> mb_User m = uid) (map f ms) = map_option f (find (\<lambda>m. mb_Org m = oid \<and> mb_User m = uid) ms)"
  by (induction ms) auto

text \<open>The four changes of the table of members.\<close>

lemma upd_member_simps [simp]:
  "d_orgs (upd_member oid uid f d) = d_orgs d" "d_users (upd_member oid uid f d) = d_users d"
  "d_grants (upd_member oid uid f d) = d_grants d"
  by (simp_all add: upd_member_def)

lemma upd_member_uniq:
  assumes "\<And>m. mb_Org (f m) = mb_Org m \<and> mb_User (f m) = mb_User m"
  shows "uniq (upd_member oid uid f d) = uniq d"
proof -
  have "map (\<lambda>m. (mb_Org m, mb_User m)) (d_members (upd_member oid uid f d)) = map (\<lambda>m. (mb_Org m, mb_User m)) (d_members d)"
    using assms by (simp add: upd_member_def)
  then show ?thesis by (simp only: uniq_def)
qed

lemma upd_member_roles:
  assumes "\<And>m. mb_Org (f m) = mb_Org m \<and> mb_User (f m) = mb_User m \<and> mb_Role (f m) = mb_Role m"
  shows "roles (upd_member oid uid f d) = roles d"
proof -
  have "find_member (upd_member oid uid f d) o' u' = map_option (\<lambda>m. if mb_Org m = oid \<and> mb_User m = uid then f m else m)
      (find_member d o' u')" for o' u'
    using assms unfolding find_member_def upd_member_def by (simp add: find_map_member)
  then show ?thesis
    using assms by (auto simp: roles_def fun_eq_iff option.map_comp comp_def intro!: option.map_cong)
qed

lemma set_role_roles: "roles (set_role oid uid r d) =
    (if roles d (oid, uid) = None then roles d else (roles d)((oid, uid) \<mapsto> r))"
proof -
  have f: "find_member (set_role oid uid r d) o' u' = map_option (\<lambda>m. if mb_Org m = oid \<and> mb_User m = uid then m\<lparr>mb_Role := r\<rparr> else m)
      (find_member d o' u')" for o' u'
    unfolding find_member_def set_role_def upd_member_def by (simp add: find_map_member)
  show ?thesis
  proof (rule ext, clarify)
    fix o' u'
    show "roles (set_role oid uid r d) (o', u') = (if roles d (oid, uid) = None then roles d else (roles d)((oid, uid) \<mapsto> r)) (o', u')"
      using find_member_Some[of d o' u']
      by (cases "find_member d o' u'"; cases "o' = oid \<and> u' = uid") (auto simp: roles_def f)
  qed
qed

lemma set_role_uniq [simp]: "uniq (set_role oid uid r d) = uniq d"
  by (simp add: set_role_def upd_member_uniq)

lemma find_filter_other:
  "(\<And>x. P x \<Longrightarrow> Q x) \<Longrightarrow> find P (filter Q xs) = find P xs"
  by (induction xs) auto

lemma del_member_roles: "roles (del_member oid uid d) = (roles d)((oid, uid) := None)"
proof (rule ext, clarify)
  fix o' u'
  have "find_member (del_member oid uid d) o' u' = (if o' = oid \<and> u' = uid then None else find_member d o' u')"
    unfolding find_member_def del_member_def by (auto simp: find_None_iff intro!: find_filter_other)
  then show "roles (del_member oid uid d) (o', u') = ((roles d)((oid, uid) := None)) (o', u')"
    by (auto simp: roles_def)
qed

lemma del_member_uniq: "uniq d \<Longrightarrow> uniq (del_member oid uid d)"
  by (simp add: uniq_def del_member_def distinct_map_filter)

lemma roles_None: "roles d (oid, uid) = None \<longleftrightarrow> find_member d oid uid = None"
  by (simp add: roles_def)

lemma roles_Some: "roles d (oid, uid) = Some r \<longleftrightarrow> (\<exists>m. find_member d oid uid = Some m \<and> mb_Role m = r)"
  by (auto simp: roles_def)

text \<open>The count the handlers test: with more than one administrator there is another one.\<close>

lemma another_admin:
  assumes "uniq d" and "roles d (oid, uid) = Some OrgRoleOrgAdmin" and "1 < admins d oid"
  shows "\<exists>v. v \<noteq> uid \<and> roles d (oid, v) = Some OrgRoleOrgAdmin"
proof -
  let ?A = "filter (\<lambda>m. mb_Org m = oid \<and> mb_Role m = OrgRoleOrgAdmin) (d_members d)"
  have "\<exists>m\<in>set ?A. mb_User m \<noteq> uid"
  proof (rule ccontr)
    assume a: "\<not> ?thesis"
    obtain m n rest where A: "?A = m # n # rest"
      using assms(3) unfolding admins_def by (cases ?A; cases "tl ?A") auto
    have "distinct (map (\<lambda>m. (mb_Org m, mb_User m)) ?A)"
      using assms(1) unfolding uniq_def by (rule distinct_map_filter)
    then have "(mb_Org m, mb_User m) \<noteq> (mb_Org n, mb_User n)" using A by simp
    moreover have "m \<in> set ?A" "n \<in> set ?A" using A by simp_all
    ultimately show False using a by auto
  qed
  then obtain m where m: "m \<in> set (d_members d)" "mb_Org m = oid" "mb_Role m = OrgRoleOrgAdmin" "mb_User m \<noteq> uid"
    by auto
  then show ?thesis using find_member_in[OF assms(1) m(1)] by (auto simp: roles_Some)
qed

end
