(* ===== verification/OrgRbac.thy ===== *)
theory OrgRbac
  imports OrgModel
begin

text \<open>
  \<^verbatim>\<open>user/internal/service/rbac.go\<close> and \<^verbatim>\<open>jwt_issue.go\<close>: permissions of a user in an organisation as the
  database has them, the mirror of memberships in \<^verbatim>\<open>user_roles\<close>, custom roles and the organisation's
  overrides of built-in ones, and the claims of an issued token. OrgPerms compares
  the two ways a permission is checked.
\<close>

subsection \<open>Permissions in the database\<close>

fun split_comma :: "string \<Rightarrow> string list" where
  "split_comma [] = [[]]"
| "split_comma (c # s) = (if c = CHR '','' then [] # split_comma s
     else (case split_comma s of [] \<Rightarrow> [[c]] | w # ws \<Rightarrow> (c # w) # ws))"

definition splitPermCodes :: "string \<Rightarrow> string list" where
  "splitPermCodes s = filter (\<lambda>c. c \<noteq> '''' \<and> Valid c) (map trim_space (split_comma s))"

definition orgRoleOverride :: "db \<Rightarrow> nat \<Rightarrow> string \<Rightarrow> string list option" where
  "orgRoleOverride d oid roleCode =
     (if oid = 0 \<or> \<not> OrgEditableSystemRole roleCode then None
      else (case find (\<lambda>(o', c, _). o' = oid \<and> c = roleCode) (d_org_role_perms d) of
          None \<Rightarrow> None
        | Some (_, _, codes) \<Rightarrow> Some (splitPermCodes codes)))"

definition orgRolePerms :: "db \<Rightarrow> nat \<Rightarrow> string \<Rightarrow> string list" where
  "orgRolePerms d oid roleCode =
     (case orgRoleOverride d oid roleCode of
        Some perms \<Rightarrow> perms
      | None \<Rightarrow> (case SystemRoleByCode roleCode of Some sr \<Rightarrow> r_perms sr | None \<Rightarrow> []))"

definition orgTemplateHas :: "db \<Rightarrow> nat \<Rightarrow> string \<Rightarrow> string \<Rightarrow> bool" where
  "orgTemplateHas d oid roleCode perm \<longleftrightarrow> roleCode \<noteq> '''' \<and> perm \<in> set (orgRolePerms d oid roleCode)"

text \<open>The join of \<^verbatim>\<open>user_roles\<close>, custom \<^verbatim>\<open>roles\<close> and \<^verbatim>\<open>role_permissions\<close>.\<close>

definition custom_perm :: "db \<Rightarrow> (user_role \<Rightarrow> role \<Rightarrow> bool) \<Rightarrow> string \<Rightarrow> bool" where
  "custom_perm d cond code \<longleftrightarrow> (\<exists>ur\<in>set (d_user_roles d). \<exists>r\<in>set (d_roles d).
     ro_ID r = ur_Role ur \<and> \<not> ro_IsSystem r \<and> cond ur r \<and> (ro_ID r, code) \<in> set (d_role_perms d))"

definition is_site_admin_row :: "user \<Rightarrow> bool" where
  "is_site_admin_row u \<longleftrightarrow> u_IsSiteAdmin u \<or> u_RoleID u = RoleAdmin"

definition hasPermInOrgDB :: "db \<Rightarrow> nat \<Rightarrow> nat \<Rightarrow> string \<Rightarrow> bool" where
  "hasPermInOrgDB d uid oid code =
     (if uid = 0 \<or> oid = 0 then False
      else if (case loadUser d uid of None \<Rightarrow> False | Some u \<Rightarrow> is_site_admin_row u) then True
      else if (case find_member d oid uid of None \<Rightarrow> False | Some m \<Rightarrow> orgTemplateHas d oid (mb_Role m) code) then True
      else custom_perm d (\<lambda>ur r. ur_User ur = uid \<and> ur_Org ur = oid) code)"

definition verifyOrgPerm :: "JwtPayload option \<Rightarrow> db \<Rightarrow> nat \<Rightarrow> nat \<Rightarrow> string \<Rightarrow> bool" where
  "verifyOrgPerm pd d uid oid code \<longleftrightarrow> HasOrgPerm pd oid code \<or> hasPermInOrgDB d uid oid code"

text \<open>The codes a token is minted with: the code collects them in a map and lists it in no fixed order; here
  in the order of the registry.\<close>

definition collectUserPerms :: "db \<Rightarrow> user \<Rightarrow> nat \<Rightarrow> string \<Rightarrow> string list" where
  "collectUserPerms d u oid orgRole =
     (if is_site_admin_row u then AllCodes
      else filter (\<lambda>c. orgRole \<noteq> '''' \<and> c \<in> set (orgRolePerms d oid orgRole)
          \<or> custom_perm d (\<lambda>ur r. ur_User ur = u_ID u \<and> (ur_Org ur = 0 \<and> ro_Scope r = ScopeSite \<or> ur_Org ur = oid)) c)
        (filter Valid AllCodes))"

subsection \<open>Mirrors in user_roles\<close>

definition del_user_roles :: "(user_role \<Rightarrow> bool) \<Rightarrow> db \<Rightarrow> db" where
  "del_user_roles P d = d\<lparr>d_user_roles := filter (\<lambda>ur. \<not> P ur) (d_user_roles d)\<rparr>"

definition add_user_role :: "nat \<Rightarrow> nat \<Rightarrow> nat \<Rightarrow> db \<Rightarrow> db" where
  "add_user_role uid rid oid d = (if \<lparr>ur_User = uid, ur_Role = rid, ur_Org = oid\<rparr> \<in> set (d_user_roles d) then d
     else d\<lparr>d_user_roles := d_user_roles d @ [\<lparr>ur_User = uid, ur_Role = rid, ur_Org = oid\<rparr>]\<rparr>)"

definition roleIDByCode :: "db \<Rightarrow> string \<Rightarrow> nat" where
  "roleIDByCode d code = (case find (\<lambda>r. ro_Code r = code) (d_roles d) of None \<Rightarrow> 0 | Some r \<Rightarrow> ro_ID r)"

definition syncOrgMemberSystemRole :: "fails \<Rightarrow> nat \<Rightarrow> nat \<Rightarrow> db \<Rightarrow> db" where
  "syncOrgMemberSystemRole fl oid uid d =
     (if oid = 0 \<or> uid = 0 then d
      else (let roleCode = (case find_member d oid uid of None \<Rightarrow> '''' | Some m \<Rightarrow> mb_Role m) in
        if roleCode = '''' then put fl ''user_roles.clear'' (del_user_roles (\<lambda>ur. ur_User ur = uid \<and> ur_Org ur = oid)) d
        else (let sysRoles = filter (\<lambda>r. ro_IsSystem r \<and> ro_Scope r = ScopeOrg) (d_roles d);
                  ids = map ro_ID sysRoles;
                  keepID = fold (\<lambda>r k. if ro_Code r = roleCode then ro_ID r else k) sysRoles 0;
                  d1 = (if ids = [] then d
                    else put fl ''user_roles.trim'' (del_user_roles (\<lambda>ur. ur_User ur = uid \<and> ur_Org ur = oid
                      \<and> ur_Role ur \<in> set ids \<and> (keepID > 0 \<longrightarrow> ur_Role ur \<noteq> keepID))) d)
              in if keepID > 0 then put fl ''user_roles.add'' (add_user_role uid keepID oid) d1 else d1)))"

definition syncSiteSystemRole :: "fails \<Rightarrow> nat \<Rightarrow> string \<Rightarrow> bool \<Rightarrow> db \<Rightarrow> db" where
  "syncSiteSystemRole fl uid roleCode has d =
     (if uid = 0 \<or> roleIDByCode d roleCode = 0 then d
      else if has then put fl ''user_roles.site'' (add_user_role uid (roleIDByCode d roleCode) 0) d
      else put fl ''user_roles.site'' (del_user_roles (\<lambda>ur. ur_User ur = uid
        \<and> ur_Role ur = roleIDByCode d roleCode \<and> ur_Org ur = 0)) d)"


subsection \<open>Custom roles\<close>

text \<open>Refusals carry a short name of the message; \<open>d\<close> is returned unchanged with them unless a write came
  first.\<close>

definition canViewOrgRoles :: "JwtPayload option \<Rightarrow> db \<Rightarrow> nat \<Rightarrow> nat \<Rightarrow> bool" where
  "canViewOrgRoles pd d uid oid \<longleftrightarrow> VerifySiteAdmin pd
     \<or> verifyOrgPerm pd d uid oid ''org.role.manage'' \<or> verifyOrgPerm pd d uid oid ''org.member.role''"

definition canManageOrgRoles :: "JwtPayload option \<Rightarrow> db \<Rightarrow> nat \<Rightarrow> nat \<Rightarrow> bool" where
  "canManageOrgRoles pd d uid oid \<longleftrightarrow> VerifySiteAdmin pd \<or> verifyOrgPerm pd d uid oid ''org.role.manage''"

fun validate_loop :: "string \<Rightarrow> string list \<Rightarrow> string list \<Rightarrow> string + string list" where
  "validate_loop scope [] out = Inr out"
| "validate_loop scope (p # ps) out =
     (let c = trim_space p in
      if c = '''' \<or> c \<in> set out then validate_loop scope ps out
      else (case ByCode c of
          None \<Rightarrow> Inl ''unknown permission''
        | Some q \<Rightarrow> if p_scope q \<noteq> scope then Inl ''scope mismatch'' else validate_loop scope ps (out @ [c])))"

definition validateRolePerms :: "string \<Rightarrow> string list \<Rightarrow> string + string list" where
  "validateRolePerms scope perms = validate_loop scope perms []"

fun create_perms :: "fails \<Rightarrow> nat \<Rightarrow> string list \<Rightarrow> db \<Rightarrow> db" where
  "create_perms fl rid [] d = d"
| "create_perms fl rid (c # cs) d = create_perms fl rid cs
     (put fl (''role_permissions.create:'' @ c)
       (\<lambda>d. if (rid, c) \<in> set (d_role_perms d) then d else d\<lparr>d_role_perms := d_role_perms d @ [(rid, c)]\<rparr>) d)"

text \<open>\<open>code\<close> is the random identifier of the new role.\<close>

definition RoleCreate ::
  "JwtPayload option \<Rightarrow> string \<Rightarrow> string \<Rightarrow> string \<Rightarrow> nat \<Rightarrow> string list \<Rightarrow> string \<Rightarrow> fails \<Rightarrow> db \<Rightarrow> db \<times> (string + nat)" where
  "RoleCreate pd scope name desc reqOrg perms code fl d =
     (case pd of None \<Rightarrow> (d, Inl ''login'')
      | Some p \<Rightarrow>
        (let scope = (if scope = '''' then ScopeOrg else scope);
             name = trim_space name;
             oid = (if scope = ScopeOrg then if reqOrg = 0 then OrgID p else reqOrg else 0)
         in if name = '''' then (d, Inl ''name missing'')
            else if rune_count name > 32 then (d, Inl ''name too long'')
            else if scope = ScopeSite \<and> \<not> PayloadHasPerm pd ''site.role.manage'' then (d, Inl ''forbidden'')
            else if scope = ScopeOrg \<and> oid = 0 then (d, Inl ''org missing'')
            else if scope = ScopeOrg \<and> find_org d oid = None then (d, Inl ''no such org'')
            else if scope = ScopeOrg \<and> \<not> canManageOrgRoles pd d (UserID p) oid then (d, Inl ''forbidden'')
            else if scope \<noteq> ScopeSite \<and> scope \<noteq> ScopeOrg then (d, Inl ''bad scope'')
            else (case validateRolePerms scope perms of Inl e \<Rightarrow> (d, Inl e)
              | Inr ps \<Rightarrow>
                 (let rid = next_id d;
                      r = \<lparr>ro_ID = rid, ro_Code = ''c_'' @ to_lower code, ro_Name = name, ro_Description = trim_space desc,
                           ro_Scope = scope, ro_Org = oid, ro_IsSystem = False\<rparr>
                  in case exec fl ''roles.create'' (\<lambda>d. drawn d\<lparr>d_roles := d_roles d @ [r]\<rparr>) d of
                      (d1, False) \<Rightarrow> (d1, Inl ''create failed'')
                    | (d1, True) \<Rightarrow> (create_perms fl rid ps d1, Inr rid)))))"

definition find_role :: "db \<Rightarrow> nat \<Rightarrow> role option" where
  "find_role d rid = find (\<lambda>r. ro_ID r = rid) (d_roles d)"

definition loadEditableRole :: "JwtPayload \<Rightarrow> db \<Rightarrow> nat \<Rightarrow> string + role" where
  "loadEditableRole p d rid =
     (case find_role d rid of None \<Rightarrow> Inl ''no such role''
      | Some r \<Rightarrow> if ro_IsSystem r then Inl ''built-in role''
         else if ro_Scope r = ScopeSite then
           (if PayloadHasPerm (Some p) ''site.role.manage'' then Inr r else Inl ''forbidden'')
         else if canManageOrgRoles (Some p) d (UserID p) (ro_Org r) then Inr r else Inl ''forbidden'')"

definition join_comma :: "string list \<Rightarrow> string" where
  "join_comma ws = (case ws of [] \<Rightarrow> '''' | w # ws \<Rightarrow> w @ concat (map (\<lambda>v. CHR '','' # v) ws))"

definition set_override :: "nat \<Rightarrow> string \<Rightarrow> string \<Rightarrow> db \<Rightarrow> db" where
  "set_override oid code codes d =
     (if list_ex (\<lambda>(o', c, _). o' = oid \<and> c = code) (d_org_role_perms d)
      then d\<lparr>d_org_role_perms := map (\<lambda>(o', c, x). if o' = oid \<and> c = code then (o', c, codes) else (o', c, x)) (d_org_role_perms d)\<rparr>
      else d\<lparr>d_org_role_perms := d_org_role_perms d @ [(oid, code, codes)]\<rparr>)"

text \<open>The result is \<open>None\<close> when the role is not built in and the caller goes on.\<close>

definition updateSystemOrgRolePerms ::
  "JwtPayload \<Rightarrow> nat \<Rightarrow> nat \<Rightarrow> string list option \<Rightarrow> bool \<Rightarrow> bool \<Rightarrow> fails \<Rightarrow> db \<Rightarrow> (db \<times> (string + unit)) option" where
  "updateSystemOrgRolePerms p rid reqOrg perms reset metaChange fl d =
     (case find_role d rid of None \<Rightarrow> None
      | Some r \<Rightarrow> if \<not> ro_IsSystem r then None
         else Some (if ro_Scope r \<noteq> ScopeOrg \<or> \<not> OrgEditableSystemRole (ro_Code r) then (d, Inl ''fixed role'')
           else if metaChange then (d, Inl ''built-in name'')
           else (let oid = (if reqOrg = 0 then OrgID p else reqOrg) in
             if oid = 0 then (d, Inl ''org missing'')
             else if \<not> canManageOrgRoles (Some p) d (UserID p) oid then (d, Inl ''forbidden'')
             else if reset then
               (put fl ''org_role_perms.delete'' (\<lambda>d. d\<lparr>d_org_role_perms :=
                  filter (\<lambda>(o', c, _). \<not> (o' = oid \<and> c = ro_Code r)) (d_org_role_perms d)\<rparr>) d, Inr ())
             else (case perms of None \<Rightarrow> (d, Inl ''bad request'')
               | Some ps \<Rightarrow> (case validateRolePerms ScopeOrg ps of Inl e \<Rightarrow> (d, Inl e)
                   | Inr cs \<Rightarrow> (case exec fl ''org_role_perms.save'' (set_override oid (ro_Code r) (join_comma cs)) d of
                        (d1, ok) \<Rightarrow> (d1, if ok then Inr () else Inl ''save failed'')))))))"

definition syncRolePermsService :: "fails \<Rightarrow> nat \<Rightarrow> string list \<Rightarrow> db \<Rightarrow> db" where
  "syncRolePermsService fl rid want d =
     create_perms fl rid (filter (\<lambda>c. (rid, c) \<notin> set (d_role_perms d)) (remdups want))
       (d\<lparr>d_role_perms := filter (\<lambda>(r, c). \<not> (r = rid \<and> c \<notin> set want \<and> \<not> fl (''role_permissions.delete:'' @ c))) (d_role_perms d)\<rparr>)"

definition RoleUpdate ::
  "JwtPayload option \<Rightarrow> nat \<Rightarrow> nat \<Rightarrow> string option \<Rightarrow> string option \<Rightarrow> string list option \<Rightarrow> bool \<Rightarrow> fails \<Rightarrow> db \<Rightarrow> db \<times> (string + unit)" where
  "RoleUpdate pd rid reqOrg name desc perms reset fl d =
     (case pd of None \<Rightarrow> (d, Inl ''login'')
      | Some p \<Rightarrow> if rid = 0 then (d, Inl ''bad request'')
        else (case updateSystemOrgRolePerms p rid reqOrg perms reset (name \<noteq> None \<or> desc \<noteq> None) fl d of
          Some res \<Rightarrow> res
        | None \<Rightarrow> (case loadEditableRole p d rid of Inl e \<Rightarrow> (d, Inl e)
          | Inr r \<Rightarrow>
            (let nm = map_option trim_space name; ds = map_option trim_space desc in
             if nm = Some '''' then (d, Inl ''name missing'')
             else if (case nm of None \<Rightarrow> False | Some s \<Rightarrow> rune_count s > 32) then (d, Inl ''name too long'')
             else (case (if nm = None \<and> ds = None then (d, True)
                  else exec fl ''roles.update'' (\<lambda>d. d\<lparr>d_roles := map (\<lambda>x. if ro_ID x = rid then
                     x\<lparr>ro_Name := (case nm of None \<Rightarrow> ro_Name x | Some s \<Rightarrow> s),
                       ro_Description := (case ds of None \<Rightarrow> ro_Description x | Some s \<Rightarrow> s)\<rparr> else x) (d_roles d)\<rparr>) d) of
                (d1, False) \<Rightarrow> (d1, Inl ''save failed'')
              | (d1, True) \<Rightarrow> (case perms of None \<Rightarrow> (d1, Inr ())
                  | Some ps \<Rightarrow> (case validateRolePerms (ro_Scope r) ps of Inl e \<Rightarrow> (d1, Inl e)
                      | Inr cs \<Rightarrow> (syncRolePermsService fl rid cs d1, Inr ()))))))))"

definition RoleDelete :: "JwtPayload option \<Rightarrow> nat \<Rightarrow> fails \<Rightarrow> db \<Rightarrow> db \<times> (string + unit)" where
  "RoleDelete pd rid fl d =
     (case pd of None \<Rightarrow> (d, Inl ''login'')
      | Some p \<Rightarrow> if rid = 0 then (d, Inl ''bad request'')
        else (case loadEditableRole p d rid of Inl e \<Rightarrow> (d, Inl e)
          | Inr r \<Rightarrow> (case exec fl ''roles.delete'' (\<lambda>d. d\<lparr>
                d_user_roles := filter (\<lambda>ur. ur_Role ur \<noteq> rid) (d_user_roles d),
                d_role_perms := filter (\<lambda>(x, _). x \<noteq> rid) (d_role_perms d),
                d_roles := filter (\<lambda>x. ro_ID x \<noteq> rid) (d_roles d)\<rparr>) d of
              (d1, ok) \<Rightarrow> (d1, if ok then Inr () else Inl ''delete failed''))))"

definition loadAssignableRole :: "JwtPayload \<Rightarrow> db \<Rightarrow> nat \<Rightarrow> string + role \<times> nat" where
  "loadAssignableRole p d rid =
     (case find_role d rid of None \<Rightarrow> Inl ''no such role''
      | Some r \<Rightarrow> if ro_IsSystem r then Inl ''built-in role''
         else if ro_Scope r = ScopeOrg then
           (if canManageOrgRoles (Some p) d (UserID p) (ro_Org r) then Inr (r, ro_Org r) else Inl ''forbidden'')
         else if PayloadHasPerm (Some p) ''site.role.manage'' then Inr (r, 0) else Inl ''forbidden'')"

text \<open>The loop of \<^verbatim>\<open>RoleAssign\<close> over the requested users: the number added and the ids skipped.\<close>

fun assign_loop :: "fails \<Rightarrow> role \<Rightarrow> nat \<Rightarrow> nat list \<Rightarrow> db \<Rightarrow> db \<times> nat \<times> nat list" where
  "assign_loop fl r oid [] d = (d, 0, [])"
| "assign_loop fl r oid (uid # us) d =
     (if uid = 0 then assign_loop fl r oid us d
      else if loadUser d uid = None \<or> ro_Scope r = ScopeOrg \<and> \<not> isMemberDB d uid oid then
        (case assign_loop fl r oid us d of (d', n, sk) \<Rightarrow> (d', n, uid # sk))
      else (case (if \<lparr>ur_User = uid, ur_Role = ro_ID r, ur_Org = oid\<rparr> \<in> set (d_user_roles d) then (d, True)
            else exec fl (''user_roles.create:'' @ nat_str uid) (add_user_role uid (ro_ID r) oid) d) of
          (d1, ok) \<Rightarrow> (case assign_loop fl r oid us d1 of (d', n, sk) \<Rightarrow>
             (d', if ok then (Suc n, sk) else (n, uid # sk)))))"

definition RoleAssign :: "JwtPayload option \<Rightarrow> nat \<Rightarrow> nat list \<Rightarrow> fails \<Rightarrow> db \<Rightarrow> db \<times> (string + nat \<times> nat list)" where
  "RoleAssign pd rid uids fl d =
     (case pd of None \<Rightarrow> (d, Inl ''login'')
      | Some p \<Rightarrow> if rid = 0 \<or> uids = [] then (d, Inl ''bad request'')
        else (case loadAssignableRole p d rid of Inl e \<Rightarrow> (d, Inl e)
          | Inr (r, oid) \<Rightarrow> (case assign_loop fl r oid uids d of (d', n, sk) \<Rightarrow> (d', Inr (n, sk)))))"

definition RoleUnassign :: "JwtPayload option \<Rightarrow> nat \<Rightarrow> nat list \<Rightarrow> fails \<Rightarrow> db \<Rightarrow> db \<times> (string + unit)" where
  "RoleUnassign pd rid uids fl d =
     (case pd of None \<Rightarrow> (d, Inl ''login'')
      | Some p \<Rightarrow> if rid = 0 \<or> uids = [] then (d, Inl ''bad request'')
        else (case loadAssignableRole p d rid of Inl e \<Rightarrow> (d, Inl e)
          | Inr (r, oid) \<Rightarrow> (case exec fl ''user_roles.unassign'' (del_user_roles
                (\<lambda>ur. ur_Role ur = ro_ID r \<and> ur_Org ur = oid \<and> ur_User ur \<in> set uids)) d of
              (d1, ok) \<Rightarrow> (d1, if ok then Inr () else Inl ''remove failed''))))"

definition UserRoles :: "JwtPayload option \<Rightarrow> db \<Rightarrow> nat \<Rightarrow> string + nat list" where
  "UserRoles pd d uid =
     (if pd = None then Inl ''login''
      else if \<not> PayloadHasPerm pd ''site.role.manage'' \<and> \<not> PayloadHasPerm pd ''site.user.list'' then Inl ''forbidden''
      else if uid = 0 then Inl ''user missing''
      else Inr (sort (map ur_Role (filter (\<lambda>ur. ur_User ur = uid \<and> ur_Org ur = 0) (d_user_roles d)))))"

definition MyPermissions :: "JwtPayload option \<Rightarrow> db \<Rightarrow> string + string list \<times> string" where
  "MyPermissions pd d =
     (case pd of None \<Rightarrow> Inl ''login''
      | Some p \<Rightarrow> (case loadUser d (UserID p) of None \<Rightarrow> Inl ''no such user''
        | Some u \<Rightarrow> (let oid = OrgID p;
              orgRole = (if oid > 0 then (case find_member d oid (UserID p) of None \<Rightarrow> '''' | Some m \<Rightarrow> mb_Role m) else '''')
            in Inr (collectUserPerms d u oid orgRole, orgRole))))"

subsection \<open>Issuing a token\<close>

text \<open>The claims of \<^verbatim>\<open>IssueJWT\<close> as the payload they are parsed into, for a signing that succeeds, and the
  database after the fallback to the public organisation.\<close>

definition member_role :: "db \<Rightarrow> nat \<Rightarrow> nat \<Rightarrow> string option" where
  "member_role d oid uid = map_option mb_Role (find_member d oid uid)"

definition token_org :: "fails \<Rightarrow> user \<Rightarrow> db \<Rightarrow> db \<times> nat \<times> string" where
  "token_org fl u d =
     (let oid = (if u_CurrentOrgID u = 0 then (case public_org d of Some p \<Rightarrow> o_ID p | None \<Rightarrow> 0) else u_CurrentOrgID u)
      in if oid = 0 then (d, 0, '''')
         else (case member_role d oid (u_ID u) of Some r \<Rightarrow> (d, oid, r)
           | None \<Rightarrow> (case public_org d of None \<Rightarrow> (d, oid, '''')
              | Some p \<Rightarrow> (put fl ''users.current_org'' (upd_user (u_ID u) (\<lambda>x. x\<lparr>u_CurrentOrgID := o_ID p\<rparr>)) d, o_ID p,
                  case member_role d (o_ID p) (u_ID u) of Some r \<Rightarrow> r | None \<Rightarrow> ''''))))"

definition IssueJWT :: "fails \<Rightarrow> int \<Rightarrow> user \<Rightarrow> db \<Rightarrow> db \<times> JwtPayload" where
  "IssueJWT fl now u d =
     (case token_org fl u d of (d', oid, orgRole) \<Rightarrow>
       (d', \<lparr>UserID = u_ID u, Username = u_Username u, Name = u_Name u, Email = '''',
          RoleID = (if u_IsSiteAdmin u then 1 else if u_RoleID u = 1 then 0 else u_RoleID u),
          IsSiteAdmin = u_IsSiteAdmin u, OrgID = oid, OrgRole = orgRole,
          Pm = Encode (collectUserPerms d' u oid orgRole), ExpiresAt = Some (now + 7 * 24 * 3600)\<rparr>))"

end
