(* ===== verification/OrgService.thy ===== *)
theory OrgService
  imports OrgRbac
begin

text \<open>
  The handlers of \<^verbatim>\<open>user/internal/service/org.go\<close> that change memberships, roles, invitations, join
  requests and organisations. The permission context of a request is the payload of its token (\<open>None\<close> when
  not logged in); results are a refusal or a success with what the answer carries.
\<close>

subsection \<open>Seats, groups and membership\<close>

definition DefaultSeatLimit :: int where "DefaultSeatLimit = 50"

definition effectiveSeatLimit :: "int \<Rightarrow> int" where
  "effectiveSeatLimit limit = (if limit \<le> 0 then DefaultSeatLimit else limit)"

definition known_user :: "db \<Rightarrow> nat \<Rightarrow> bool" where
  "known_user d uid \<longleftrightarrow> uid \<in> u_ID ` set (d_users d)"

definition countOrgSeats :: "db \<Rightarrow> org \<Rightarrow> nat" where
  "countOrgSeats d r =
     (if is_public r then length (filter (\<lambda>m. mb_Org m = o_ID r \<and> known_user d (mb_User m)
          \<and> \<not> list_ex (\<lambda>m2. mb_User m2 = mb_User m \<and> mb_Org m2 \<noteq> mb_Org m) (d_members d)) (d_members d))
      else length (filter (\<lambda>m. mb_Org m = o_ID r \<and> known_user d (mb_User m)) (d_members d)))"

definition seatFull :: "db \<Rightarrow> org \<Rightarrow> bool" where
  "seatFull d r \<longleftrightarrow> effectiveSeatLimit (o_SeatLimit r) \<le> int (countOrgSeats d r)"

definition default_group :: "db \<Rightarrow> nat \<Rightarrow> group option" where
  "default_group d oid = find (\<lambda>g. g_Org g = oid \<and> IsDefaultGroup g) (d_groups d)"

definition add_group :: "nat \<Rightarrow> string \<Rightarrow> db \<Rightarrow> db" where
  "add_group oid name d = drawn d\<lparr>d_groups := d_groups d @ [\<lparr>g_ID = next_id d, g_Org = oid, g_Name = Some name\<rparr>]\<rparr>"

text \<open>\<^verbatim>\<open>ensureDefaultGroupID\<close>: 0 when the group could not be created.\<close>

definition ensureDefaultGroupID :: "fails \<Rightarrow> nat \<Rightarrow> db \<Rightarrow> db \<times> nat" where
  "ensureDefaultGroupID fl oid d =
     (case default_group d oid of
        Some g \<Rightarrow> ((if g_Name g = Some UngroupedName then put fl ''groups.rename'' (\<lambda>d. d\<lparr>d_groups :=
             map (\<lambda>x. if g_ID x = g_ID g then x\<lparr>g_Name := Some DefaultGroupName\<rparr> else x) (d_groups d)\<rparr>) d else d), g_ID g)
      | None \<Rightarrow> (case exec fl ''groups.create'' (add_group oid DefaultGroupName) d of
           (d1, ok) \<Rightarrow> (d1, if ok then next_id d else 0)))"

definition setDefaultOrg :: "fails \<Rightarrow> nat \<Rightarrow> nat \<Rightarrow> db \<Rightarrow> db" where
  "setDefaultOrg fl uid oid d =
     (if uid = 0 \<or> oid = 0 then d else put fl ''users.default_org'' (upd_user uid (\<lambda>u. u\<lparr>u_CurrentOrgID := oid\<rparr>)) d)"

definition fallbackDefaultOrgIf :: "fails \<Rightarrow> nat \<Rightarrow> nat \<Rightarrow> db \<Rightarrow> db" where
  "fallbackDefaultOrgIf fl uid oid d =
     (if uid = 0 \<or> oid = 0 then d
      else (case loadUser d uid of None \<Rightarrow> d
        | Some u \<Rightarrow> if u_CurrentOrgID u \<noteq> oid then d
           else (case public_org d of None \<Rightarrow> d
             | Some p \<Rightarrow> put fl ''users.fallback_org'' (upd_user uid (\<lambda>u. u\<lparr>u_CurrentOrgID := o_ID p\<rparr>)) d)))"

text \<open>The personal switches for fetching and analysing problems mirror what a user is entitled to by a
  subscription or by an organisation (\<^verbatim>\<open>data/dal/profile.go\<close>): for one user, and for a list of users in a single
  statement.\<close>

definition plan_enables :: "(plan_features \<Rightarrow> bool) \<Rightarrow> db \<Rightarrow> bool" where
  "plan_enables f d = (case find (\<lambda>p. pf_Plan p = ''pro'') (d_plans d) of None \<Rightarrow> False | Some p \<Rightarrow> f p)"

definition org_enables :: "(org \<Rightarrow> bool) \<Rightarrow> db \<Rightarrow> nat \<Rightarrow> bool" where
  "org_enables f d uid \<longleftrightarrow> list_ex (\<lambda>m. mb_User m = uid
     \<and> list_ex (\<lambda>r. o_ID r = mb_Org m \<and> \<not> is_public r \<and> f r) (d_orgs d)) (d_members d)"

definition not_expired :: "int \<Rightarrow> user \<Rightarrow> bool" where
  "not_expired now u = (case u_SubExpireAt u of None \<Rightarrow> True | Some t \<Rightarrow> now < t)"

definition sub_active :: "db \<Rightarrow> nat \<Rightarrow> bool" where
  "sub_active d uid = (case loadUser d uid of None \<Rightarrow> False
     | Some u \<Rightarrow> trim_space (u_SubTier u) \<noteq> '''' \<and> not_expired (d_now d) u)"

definition mirror :: "bool \<Rightarrow> bool option" where
  "mirror on = (if on then Some True else None)"

definition SyncProblemPipelineOverrides :: "fails \<Rightarrow> nat \<Rightarrow> db \<Rightarrow> db" where
  "SyncProblemPipelineOverrides fl uid d =
     (if uid = 0 then d
      else (let fetchOn = sub_active d uid \<and> plan_enables pf_EnableFetchProblem d \<or> org_enables o_EnableFetchProblem d uid;
                aiOn = sub_active d uid \<and> plan_enables pf_EnableAiAnalyze d \<or> org_enables o_EnableAiAnalyze d uid
            in put fl ''users.pipeline'' (upd_user uid (\<lambda>u. u\<lparr>u_FetchOverride := mirror fetchOn, u_AiOverride := mirror aiOn\<rparr>)) d))"

definition batch_row :: "db \<Rightarrow> user \<Rightarrow> user" where
  "batch_row d u = u\<lparr>
     u_FetchOverride := mirror (u_SubTier u = ''pro'' \<and> not_expired (d_now d) u
         \<and> list_ex (\<lambda>p. pf_Plan p = ''pro'' \<and> pf_EnableFetchProblem p) (d_plans d)
       \<or> org_enables o_EnableFetchProblem d (u_ID u)),
     u_AiOverride := mirror (u_SubTier u = ''pro'' \<and> not_expired (d_now d) u
         \<and> list_ex (\<lambda>p. pf_Plan p = ''pro'' \<and> pf_EnableAiAnalyze p) (d_plans d)
       \<or> org_enables o_EnableAiAnalyze d (u_ID u))\<rparr>"

definition SyncProblemPipelineOverridesBatch :: "fails \<Rightarrow> nat list \<Rightarrow> db \<Rightarrow> db" where
  "SyncProblemPipelineOverridesBatch fl uids = put fl ''users.pipeline_batch''
     (\<lambda>d. d\<lparr>d_users := map (\<lambda>u. if uids = [] \<or> u_ID u \<in> set uids then batch_row d u else u) (d_users d)\<rparr>)"

definition add_member :: "member \<Rightarrow> db \<Rightarrow> db" where
  "add_member m d = d\<lparr>d_members := d_members d @ [m]\<rparr>"

text \<open>The transaction of \<^verbatim>\<open>addOrgMemberAtomic\<close>: the organisation's row is locked, so two of them do not
  overlap; any failing statement takes all of it back. The second step needs the group.\<close>

definition join_group :: "fails \<Rightarrow> nat \<Rightarrow> (nat \<Rightarrow> db \<Rightarrow> db \<times> (string + unit)) \<Rightarrow> db \<Rightarrow> db \<times> (string + unit)" where
  "join_group fl oid k d =
     (case default_group d oid of
        Some g \<Rightarrow> k (g_ID g) d
      | None \<Rightarrow> (case exec fl ''groups.create'' (add_group oid DefaultGroupName) d of
           (d1, False) \<Rightarrow> (d, Inl ''db'')
         | (d1, True) \<Rightarrow> (case k (next_id d) d1 of (d2, Inl e) \<Rightarrow> (d, Inl e) | (d2, Inr ()) \<Rightarrow> (d2, Inr ()))))"

definition add_member_tx :: "fails \<Rightarrow> nat \<Rightarrow> nat \<Rightarrow> string \<Rightarrow> string \<Rightarrow> db \<Rightarrow> db \<times> (string + unit)" where
  "add_member_tx fl oid uid role display d =
     (case find_org d oid of None \<Rightarrow> (d, Inl ''no such org'')
      | Some r \<Rightarrow>
         if o_Status r \<noteq> OrgStatusActive then (d, Inl ''suspended'')
         else (case find_member d oid uid of
             Some m \<Rightarrow> if mb_Group m = None \<or> mb_Group m = Some 0
                then join_group fl oid (\<lambda>gid d. case exec fl ''members.group''
                       (upd_member oid uid (\<lambda>x. x\<lparr>mb_Group := Some gid\<rparr>)) d of
                     (d1, ok) \<Rightarrow> (d1, if ok then Inr () else Inl ''db'')) d
                else (d, Inr ())
           | None \<Rightarrow> if seatFull d r then (d, Inl ''seats full'')
                else join_group fl oid (\<lambda>gid d. case exec fl ''members.create''
                       (add_member \<lparr>mb_Org = oid, mb_User = uid, mb_Role = (if ValidOrgRole role then role else OrgRoleMember),
                         mb_Group = Some gid, mb_Display = trim_space display\<rparr>) d of
                     (d1, ok) \<Rightarrow> (d1, if ok then Inr () else Inl ''db'')) d))"

definition addOrgMemberAtomic :: "fails \<Rightarrow> nat \<Rightarrow> nat \<Rightarrow> string \<Rightarrow> string \<Rightarrow> db \<Rightarrow> db \<times> (string + unit)" where
  "addOrgMemberAtomic fl oid uid role display d =
     (case add_member_tx fl oid uid role display d of
        (d1, Inl e) \<Rightarrow> (d1, Inl e)
      | (d1, Inr ()) \<Rightarrow> (SyncProblemPipelineOverrides fl uid (syncOrgMemberSystemRole fl oid uid d1), Inr ()))"


subsection \<open>Creating, deleting and configuring an organisation\<close>

definition display_name :: "db \<Rightarrow> nat \<Rightarrow> string" where
  "display_name d uid = (case loadUser d uid of None \<Rightarrow> ''''
     | Some u \<Rightarrow> if trim_space (u_Name u) = '''' then u_Username u else trim_space (u_Name u))"

text \<open>\<open>inv1\<close> and \<open>inv2\<close> are the two random codes; a slug or a code that is taken violates a unique index,
  which is one way for the transaction to fail.\<close>

record create_req =
  cr_Name :: string
  cr_Slug :: string
  cr_JoinMode :: string
  cr_SeatLimit :: "int option"
  cr_AdminUser :: nat

definition new_org :: "nat \<Rightarrow> string \<Rightarrow> string \<Rightarrow> int \<Rightarrow> string \<Rightarrow> string \<Rightarrow> org" where
  "new_org i name slug limit mode code = \<lparr>o_ID = i, o_Name = name, o_Slug = slug, o_SeatLimit = limit,
     o_Status = OrgStatusActive, o_IsSystem = False, o_BrandTitle = '''', o_BrandLogo = '''', o_BrandFavicon = '''',
     o_JoinMode = mode, o_InviteCode = code, o_EnableAIEmail = True, o_EnableAIWeeklyEmail = True, o_EnableSpider = True,
     o_SpiderIntervalMin = 60, o_AIEmailSchedule = ''30 7 * * *'', o_EnableFetchProblem = True, o_EnableAiAnalyze = True,
     o_ForceSync = False\<rparr>"

definition create_tx :: "org \<Rightarrow> nat \<Rightarrow> string \<Rightarrow> db \<Rightarrow> db" where
  "create_tx r uid display d =
     (let d1 = drawn d\<lparr>d_orgs := d_orgs d @ [r]\<rparr>;
          gid = next_id d1;
          d2 = add_group (o_ID r) DefaultGroupName d1;
          d3 = add_member \<lparr>mb_Org = o_ID r, mb_User = uid, mb_Role = OrgRoleOrgAdmin, mb_Group = Some gid, mb_Display = display\<rparr> d2
      in upd_user uid (\<lambda>u. u\<lparr>u_CurrentOrgID := o_ID r\<rparr>) d3)"

definition create_org :: "fails \<Rightarrow> org \<Rightarrow> nat \<Rightarrow> db \<Rightarrow> db \<times> (string + org)" where
  "create_org fl r uid d =
     (case exec fl ''orgs.create'' (create_tx r uid (display_name d uid)) d of
        (d1, False) \<Rightarrow> (d1, Inl ''create failed'')
      | (d1, True) \<Rightarrow> (syncOrgMemberSystemRole fl (o_ID r) uid d1, Inr r))"

definition Create :: "JwtPayload option \<Rightarrow> create_req \<Rightarrow> string \<Rightarrow> string \<Rightarrow> fails \<Rightarrow> db \<Rightarrow> db \<times> (string + org)" where
  "Create pd req inv1 inv2 fl d =
     (case pd of None \<Rightarrow> (d, Inl ''forbidden'')
      | Some p \<Rightarrow>
        if \<not> PayloadHasPerm pd ''site.org.create'' then (d, Inl ''forbidden'')
        else (let name = trim_space (cr_Name req);
                  slug = to_lower (if trim_space (cr_Slug req) = '''' then ''org-'' @ inv1 else trim_space (cr_Slug req));
                  mode = (if cr_JoinMode req \<noteq> OrgJoinReview then OrgJoinAuto else cr_JoinMode req);
                  limit = (case cr_SeatLimit req of None \<Rightarrow> DefaultSeatLimit | Some n \<Rightarrow> n);
                  adminUID = (if cr_AdminUser req = 0 then UserID p else cr_AdminUser req)
          in if name = '''' then (d, Inl ''name missing'')
             else if slug = PublicOrgSlug then (d, Inl ''slug reserved'')
             else if limit < 1 then (d, Inl ''seat limit'')
             else if loadUser d adminUID = None then (d, Inl ''no such admin'')
             else create_org fl (new_org (next_id d) name slug limit mode inv2) adminUID d))"

definition delete_tx :: "nat \<Rightarrow> nat \<Rightarrow> nat \<Rightarrow> db \<Rightarrow> db" where
  "delete_tx oid pub pubDef d =
     (let gids = g_ID ` set (filter (\<lambda>g. g_Org g = oid) (d_groups d));
          rids = ro_ID ` set (filter (\<lambda>r. ro_Org r = oid) (d_roles d))
      in d\<lparr>d_users := map (\<lambda>u. u\<lparr>u_CurrentOrgID := (if u_CurrentOrgID u = oid then pub else u_CurrentOrgID u),
                               u_GroupId := (if u_GroupId u \<in> gids then pubDef else u_GroupId u)\<rparr>) (d_users d),
           d_members := filter (\<lambda>m. mb_Org m \<noteq> oid) (d_members d),
           d_requests := filter (\<lambda>r. jr_Org r \<noteq> oid) (d_requests d),
           d_groups := filter (\<lambda>g. g_Org g \<noteq> oid) (d_groups d),
           d_user_roles := filter (\<lambda>ur. ur_Org ur \<noteq> oid) (d_user_roles d),
           d_role_perms := filter (\<lambda>(r, _). r \<notin> rids) (d_role_perms d),
           d_roles := filter (\<lambda>r. ro_Org r \<noteq> oid) (d_roles d),
           d_orgs := filter (\<lambda>r. o_ID r \<noteq> oid) (d_orgs d)\<rparr>)"

definition Delete :: "JwtPayload option \<Rightarrow> nat \<Rightarrow> fails \<Rightarrow> db \<Rightarrow> db \<times> (string + unit)" where
  "Delete pd oid fl d =
     (if pd = None \<or> \<not> PayloadHasPerm pd ''site.org.delete'' then (d, Inl ''forbidden'')
      else if oid = 0 then (d, Inl ''bad request'')
      else (case find_org d oid of None \<Rightarrow> (d, Inl ''no such org'')
        | Some r \<Rightarrow> if is_public r then (d, Inl ''public org'')
           else (case public_org d of None \<Rightarrow> (d, Inl ''no public org'')
             | Some pub \<Rightarrow> (case ensureDefaultGroupID fl (o_ID pub) d of (d1, g0) \<Rightarrow>
                 (let gid = (case find (\<lambda>g. g_Org g = o_ID pub \<and> IsDefaultGroup g \<and> g_ID g > 0) (d_groups d1) of
                        Some g \<Rightarrow> g_ID g | None \<Rightarrow> g0)
                  in case exec fl ''orgs.delete'' (delete_tx oid (o_ID pub) gid) d1 of
                       (d2, ok) \<Rightarrow> (d2, if ok then Inr () else Inl ''delete failed''))))))"

record update_req =
  up_BrandTitle :: "string option"
  up_BrandLogo :: "string option"
  up_BrandFavicon :: "string option"
  up_JoinMode :: "string option"
  up_Name :: "string option"
  up_EnableAIEmail :: "bool option"
  up_EnableAIWeeklyEmail :: "bool option"
  up_EnableSpider :: "bool option"
  up_Status :: "string option"
  up_SpiderIntervalMin :: "int option"
  up_AIEmailSchedule :: "string option"
  up_SeatLimit :: "int option"
  up_ForceSync :: "bool option"
  up_EnableFetchProblem :: "bool option"
  up_EnableAiAnalyze :: "bool option"

definition opt_upd :: "'a option \<Rightarrow> ('a \<Rightarrow> 'b \<Rightarrow> 'b) \<Rightarrow> 'b \<Rightarrow> 'b" where
  "opt_upd v f x = (case v of None \<Rightarrow> x | Some a \<Rightarrow> f a x)"

definition info_updates :: "update_req \<Rightarrow> bool \<Rightarrow> org \<Rightarrow> org" where
  "info_updates q canSitePolicy r =
     opt_upd (up_Name q) (\<lambda>v x. if trim_space v \<noteq> '''' \<and> (\<not> o_IsSystem r \<or> canSitePolicy) then x\<lparr>o_Name := trim_space v\<rparr> else x)
     (opt_upd (up_JoinMode q) (\<lambda>v x. if v = OrgJoinAuto \<or> v = OrgJoinReview then x\<lparr>o_JoinMode := v\<rparr> else x)
     (opt_upd (up_BrandFavicon q) (\<lambda>v x. x\<lparr>o_BrandFavicon := trim_space v\<rparr>)
     (opt_upd (up_BrandLogo q) (\<lambda>v x. x\<lparr>o_BrandLogo := trim_space v\<rparr>)
     (opt_upd (up_BrandTitle q) (\<lambda>v x. x\<lparr>o_BrandTitle := trim_space v\<rparr>) r))))"

definition toggle_updates :: "update_req \<Rightarrow> org \<Rightarrow> org" where
  "toggle_updates q r =
     opt_upd (up_EnableSpider q) (\<lambda>v x. x\<lparr>o_EnableSpider := v\<rparr>)
     (opt_upd (up_EnableAIWeeklyEmail q) (\<lambda>v x. x\<lparr>o_EnableAIWeeklyEmail := v\<rparr>)
     (opt_upd (up_EnableAIEmail q) (\<lambda>v x. x\<lparr>o_EnableAIEmail := v\<rparr>) r))"

definition policy_updates :: "update_req \<Rightarrow> org \<Rightarrow> string + org" where
  "policy_updates q r =
     (if (case up_SpiderIntervalMin q of None \<Rightarrow> False | Some v \<Rightarrow> v < 5 \<or> v > 7 * 24 * 60) then Inl ''interval''
      else if (case up_SeatLimit q of None \<Rightarrow> False | Some v \<Rightarrow> v < 1) then Inl ''seat limit''
      else Inr
       (opt_upd (up_EnableAiAnalyze q) (\<lambda>v x. x\<lparr>o_EnableAiAnalyze := v\<rparr>)
       (opt_upd (up_EnableFetchProblem q) (\<lambda>v x. x\<lparr>o_EnableFetchProblem := v\<rparr>)
       (opt_upd (up_ForceSync q) (\<lambda>v x. x\<lparr>o_ForceSync := v\<rparr>)
       (opt_upd (up_SeatLimit q) (\<lambda>v x. x\<lparr>o_SeatLimit := v\<rparr>)
       (opt_upd (up_AIEmailSchedule q) (\<lambda>v x. if trim_space v \<noteq> '''' then x\<lparr>o_AIEmailSchedule := trim_space v\<rparr> else x)
       (opt_upd (up_SpiderIntervalMin q) (\<lambda>v x. x\<lparr>o_SpiderIntervalMin := v\<rparr>)
       (opt_upd (up_Status q) (\<lambda>v x. if (v = OrgStatusActive \<or> v = OrgStatusSuspended) \<and> \<not> o_IsSystem r
            then x\<lparr>o_Status := v\<rparr> else x) r))))))))"

definition weekly_granted :: "db \<Rightarrow> nat \<Rightarrow> bool" where
  "weekly_granted d uid \<longleftrightarrow> list_ex (\<lambda>m. mb_User m = uid \<and> IsOrgStaffRole (mb_Role m)
     \<and> list_ex (\<lambda>r. o_ID r = mb_Org m \<and> o_Status r = OrgStatusActive \<and> o_EnableAIWeeklyEmail r) (d_orgs d)) (d_members d)"

definition forceOffWeeklyEmailWithoutOrgGrant :: "fails \<Rightarrow> nat \<Rightarrow> db \<Rightarrow> db" where
  "forceOffWeeklyEmailWithoutOrgGrant fl oid d = put fl ''users.weekly'' (\<lambda>d. d\<lparr>d_users :=
     map (\<lambda>u. if u_WeeklyEmail u \<and> isMemberDB d (u_ID u) oid \<and> \<not> weekly_granted d (u_ID u)
       then u\<lparr>u_WeeklyEmail := False\<rparr> else u) (d_users d)\<rparr>) d"

definition resync :: "fails \<Rightarrow> nat \<Rightarrow> update_req \<Rightarrow> db \<Rightarrow> db" where
  "resync fl oid q d =
     (let memberIDs = map mb_User (filter (\<lambda>m. mb_Org m = oid) (d_members d)) in
      if (up_EnableFetchProblem q \<noteq> None \<or> up_EnableAiAnalyze q \<noteq> None) \<and> memberIDs \<noteq> []
      then SyncProblemPipelineOverridesBatch fl memberIDs d else d)"

definition Update :: "JwtPayload option \<Rightarrow> nat \<Rightarrow> update_req \<Rightarrow> fails \<Rightarrow> db \<Rightarrow> db \<times> (string + unit)" where
  "Update pd oid q fl d =
     (case pd of None \<Rightarrow> (d, Inl ''login'')
      | Some p \<Rightarrow> if oid = 0 then (d, Inl ''bad request'')
        else (case find_org d oid of None \<Rightarrow> (d, Inl ''no such org'')
          | Some r \<Rightarrow>
            (let canInfo = verifyOrgPerm pd d (UserID p) oid ''org.info.write'';
                 canToggle = verifyOrgPerm pd d (UserID p) oid ''org.policy.toggle'';
                 canSitePolicy = PayloadHasPerm pd ''site.org.policy'';
                 r1 = (if canInfo then info_updates q canSitePolicy r else r);
                 r2 = (if canToggle then toggle_updates q r1 else r1)
             in if \<not> canInfo \<and> \<not> canToggle \<and> \<not> canSitePolicy then (d, Inl ''forbidden'')
                else (case (if canSitePolicy then policy_updates q r2 else Inr r2) of Inl e \<Rightarrow> (d, Inl e)
                  | Inr r3 \<Rightarrow> (case exec fl ''orgs.update'' (upd_org oid (\<lambda>_. r3)) d of
                       (d1, False) \<Rightarrow> (d1, Inl ''save failed'')
                     | (d1, True) \<Rightarrow> (resync fl oid q (if up_EnableAIWeeklyEmail q = Some False
                           then forceOffWeeklyEmailWithoutOrgGrant fl oid d1 else d1), Inr ()))))))"

definition Switch :: "JwtPayload option \<Rightarrow> nat \<Rightarrow> int \<Rightarrow> fails \<Rightarrow> db \<Rightarrow> db \<times> (string + JwtPayload)" where
  "Switch pd oid now fl d =
     (case pd of None \<Rightarrow> (d, Inl ''login'')
      | Some p \<Rightarrow> if oid = 0 then (d, Inl ''bad request'')
        else if \<not> isMemberDB d (UserID p) oid then (d, Inl ''not a member'')
        else if (case find_org d oid of None \<Rightarrow> True | Some r \<Rightarrow> o_Status r \<noteq> OrgStatusActive) then (d, Inl ''suspended'')
        else (case loadUser d (UserID p) of None \<Rightarrow> (d, Inl ''no such user'')
          | Some u \<Rightarrow>
             (let d1 = put fl ''users.switch'' (upd_user (u_ID u) (\<lambda>x. x\<lparr>u_CurrentOrgID := oid\<rparr>)) d;
                  (d2, tok) = IssueJWT fl now (u\<lparr>u_CurrentOrgID := oid\<rparr>) d1
              in (d2, Inr tok))))"


subsection \<open>Joining and leaving\<close>

definition org_by_code :: "db \<Rightarrow> string \<Rightarrow> org option" where
  "org_by_code d code = find (\<lambda>r. to_upper (o_InviteCode r) = code \<and> o_Status r = OrgStatusActive) (d_orgs d)"

definition find_request :: "db \<Rightarrow> nat \<Rightarrow> nat \<Rightarrow> join_request option" where
  "find_request d oid uid = find (\<lambda>r. jr_Org r = oid \<and> jr_User r = uid) (d_requests d)"

definition add_request :: "nat \<Rightarrow> nat \<Rightarrow> string \<Rightarrow> string \<Rightarrow> db \<Rightarrow> db" where
  "add_request oid uid code display d = drawn d\<lparr>d_requests := d_requests d @
     [\<lparr>jr_ID = next_id d, jr_Org = oid, jr_User = uid, jr_Status = Pending, jr_Code = code, jr_Display = display, jr_ReviewedBy = None\<rparr>]\<rparr>"

definition reopen_request :: "join_request \<Rightarrow> string \<Rightarrow> string \<Rightarrow> db \<Rightarrow> db" where
  "reopen_request r code display = upd_request (jr_ID r)
     (\<lambda>x. x\<lparr>jr_Status := Pending, jr_Code := code, jr_Display := display, jr_ReviewedBy := None\<rparr>)"

datatype join_answer = Already | Requested | Joined

definition Join :: "JwtPayload option \<Rightarrow> string \<Rightarrow> string \<Rightarrow> fails \<Rightarrow> db \<Rightarrow> db \<times> (string + join_answer)" where
  "Join pd reqCode reqName fl d =
     (case pd of None \<Rightarrow> (d, Inl ''login'')
      | Some p \<Rightarrow>
        (let code = trim_space (to_upper reqCode); name = trim_space reqName in
         if code = '''' then (d, Inl ''code missing'')
         else if name = '''' then (d, Inl ''name missing'')
         else if rune_count name > 32 then (d, Inl ''name too long'')
         else (case org_by_code d code of None \<Rightarrow> (d, Inl ''bad code'')
           | Some r \<Rightarrow>
              if isMemberDB d (UserID p) (o_ID r) then (d, Inr Already)
              else if o_JoinMode r = OrgJoinReview then
                (case find_request d (o_ID r) (UserID p) of
                   Some q \<Rightarrow> if jr_Status q \<noteq> Pending
                      then (case exec fl ''requests.reopen'' (reopen_request q code name) d of
                          (d1, ok) \<Rightarrow> (d1, if ok then Inr Requested else Inl ''submit failed''))
                      else (d, Inr Requested)
                 | None \<Rightarrow> (case exec fl ''requests.create'' (add_request (o_ID r) (UserID p) code name) d of
                          (d1, ok) \<Rightarrow> (d1, if ok then Inr Requested else Inl ''submit failed'')))
              else (case addOrgMemberAtomic fl (o_ID r) (UserID p) OrgRoleMember name d of
                  (d1, Inl e) \<Rightarrow> (d1, Inl e) | (d1, Inr ()) \<Rightarrow> (d1, Inr Joined)))))"

text \<open>Joining by a code given at registration. The name is cut to 32 characters by the caller's
  \<open>first32\<close>; the answer is the note shown to the user.\<close>

datatype register_note = NoNote | BadCode | AlreadyIn | SubmitFailed | Submitted | NotJoined string | JoinedNote

definition applyInviteOnRegister ::
  "(string \<Rightarrow> string) \<Rightarrow> nat \<Rightarrow> string \<Rightarrow> string \<Rightarrow> fails \<Rightarrow> db \<Rightarrow> db \<times> register_note" where
  "applyInviteOnRegister first32 uid reqCode reqName fl d =
     (let code = trim_space (to_upper reqCode); nm = trim_space reqName;
          name = (if rune_count nm > 32 then first32 nm else nm) in
      if code = '''' \<or> uid = 0 \<or> nm = '''' then (d, NoNote)
      else (case org_by_code d code of None \<Rightarrow> (d, BadCode)
        | Some r \<Rightarrow>
           if is_public r then (d, NoNote)
           else if find_member d (o_ID r) uid \<noteq> None then
             (put fl ''users.default_org'' (upd_user uid (\<lambda>u. u\<lparr>u_CurrentOrgID := o_ID r\<rparr>)) d, AlreadyIn)
           else if o_JoinMode r = OrgJoinReview then
             (case find_request d (o_ID r) uid of
                Some q \<Rightarrow> (if jr_Status q \<noteq> Pending then put fl ''requests.reopen'' (reopen_request q code name) d else d, Submitted)
              | None \<Rightarrow> (case exec fl ''requests.create'' (add_request (o_ID r) uid code name) d of
                    (d1, ok) \<Rightarrow> (d1, if ok then Submitted else SubmitFailed)))
           else if o_Status r \<noteq> OrgStatusActive then (d, NotJoined ''suspended'')
           else if seatFull d r then (d, NotJoined ''seats full'')
           else (case join_group fl (o_ID r) (\<lambda>gid d. case exec fl ''members.create''
                      (\<lambda>d. upd_user uid (\<lambda>u. u\<lparr>u_CurrentOrgID := o_ID r\<rparr>) (add_member \<lparr>mb_Org = o_ID r, mb_User = uid,
                         mb_Role = OrgRoleMember, mb_Group = Some gid, mb_Display = name\<rparr> d)) d of
                    (d1, ok) \<Rightarrow> (d1, if ok then Inr () else Inl ''db'')) d of
                 (d1, Inl e) \<Rightarrow> (d1, NotJoined e) | (d1, Inr ()) \<Rightarrow> (d1, JoinedNote))))"

definition switch_to_public :: "fails \<Rightarrow> nat \<Rightarrow> nat \<Rightarrow> int \<Rightarrow> db \<Rightarrow> db \<times> JwtPayload option" where
  "switch_to_public fl oid uid now d =
     (case loadUser d uid of None \<Rightarrow> (d, None)
      | Some u \<Rightarrow> if u_CurrentOrgID u \<noteq> oid then (d, None)
         else (case public_org d of None \<Rightarrow> (d, None)
           | Some pub \<Rightarrow>
              (case IssueJWT fl now (u\<lparr>u_CurrentOrgID := o_ID pub\<rparr>)
                  (put fl ''users.leave_org'' (upd_user (u_ID u) (\<lambda>x. x\<lparr>u_CurrentOrgID := o_ID pub\<rparr>)) d) of
                (d1, tok) \<Rightarrow> (d1, Some tok))))"

definition Leave :: "JwtPayload option \<Rightarrow> nat \<Rightarrow> int \<Rightarrow> fails \<Rightarrow> db \<Rightarrow> db \<times> (string + JwtPayload option)" where
  "Leave pd oid now fl d =
     (case pd of None \<Rightarrow> (d, Inl ''login'')
      | Some p \<Rightarrow> if oid = 0 then (d, Inl ''bad request'')
        else (case find_org d oid of None \<Rightarrow> (d, Inl ''no such org'')
          | Some r \<Rightarrow>
             if is_public r then (d, Inl ''public org'')
             else if (case find_member d oid (UserID p) of None \<Rightarrow> False | Some m \<Rightarrow> mb_Role m = OrgRoleOrgAdmin)
                  \<and> admins d oid \<le> 1 then (d, Inl ''last admin'')
             else (case exec fl ''members.delete'' (del_member oid (UserID p)) d of
                (d1, False) \<Rightarrow> (d1, Inl ''leave failed'')
              | (d1, True) \<Rightarrow>
                 (case switch_to_public fl oid (UserID p) now
                    (syncOrgMemberSystemRole fl oid (UserID p) (SyncProblemPipelineOverrides fl (UserID p) d1)) of
                    (d2, tok) \<Rightarrow> (d2, Inr tok)))))"

text \<open>The user named in a request: by id, by user name, or by the database's \<^verbatim>\<open>LIKE\<close> on the nickname.\<close>

definition resolve_user :: "(string \<Rightarrow> string \<Rightarrow> bool) \<Rightarrow> db \<Rightarrow> nat \<Rightarrow> string \<Rightarrow> string + nat" where
  "resolve_user like d reqUser reqName =
     (let uname = trim_space reqName in
      if reqUser = 0 \<and> uname \<noteq> '''' then
        (case find (\<lambda>u. u_Username u = uname) (d_users d) of Some u \<Rightarrow> Inr (u_ID u)
         | None \<Rightarrow> (case find (\<lambda>u. like (u_Name u) (''%'' @ uname @ ''%'')) (d_users d) of Some u \<Rightarrow> Inr (u_ID u)
            | None \<Rightarrow> Inl ''no such user''))
      else if reqUser = 0 then Inl ''user missing'' else Inr reqUser)"

definition given_name :: "db \<Rightarrow> nat \<Rightarrow> string \<Rightarrow> string" where
  "given_name d uid display = (if trim_space display = '''' then display_name d uid else trim_space display)"

definition valid_role :: "string \<Rightarrow> string" where
  "valid_role role = (if ValidOrgRole role then role else OrgRoleMember)"

definition AddMember ::
  "(string \<Rightarrow> string \<Rightarrow> bool) \<Rightarrow> JwtPayload option \<Rightarrow> nat \<Rightarrow> nat \<Rightarrow> string \<Rightarrow> string \<Rightarrow> string \<Rightarrow> fails \<Rightarrow> db \<Rightarrow> db \<times> (string + nat)" where
  "AddMember like pd oid reqUser reqName role display fl d =
     (case pd of None \<Rightarrow> (d, Inl ''login'')
      | Some p \<Rightarrow> if oid = 0 then (d, Inl ''bad request'')
        else if \<not> PayloadHasPerm pd ''site.org.list'' then (d, Inl ''forbidden'')
        else (case resolve_user like d reqUser reqName of Inl e \<Rightarrow> (d, Inl e)
          | Inr uid \<Rightarrow>
             if uid = 0 then (d, Inl ''user missing'')
             else if isMemberDB d uid oid then (d, Inr uid)
             else if find_org d oid = None then (d, Inl ''no such org'')
             else (case addOrgMemberAtomic fl oid uid (valid_role role) (given_name d uid display) d of
                 (d1, Inl e) \<Rightarrow> (d1, Inl e)
               | (d1, Inr ()) \<Rightarrow> (setDefaultOrg fl uid oid d1, Inr uid))))"

subsection \<open>Invitations and join requests\<close>

definition add_invite :: "nat \<Rightarrow> nat \<Rightarrow> nat \<Rightarrow> string \<Rightarrow> string \<Rightarrow> db \<Rightarrow> db" where
  "add_invite oid uid inviter role display d = drawn d\<lparr>d_invites := d_invites d @
     [\<lparr>iv_ID = next_id d, iv_Org = oid, iv_User = uid, iv_Inviter = inviter, iv_Status = Pending, iv_Role = role, iv_Display = display\<rparr>]\<rparr>"

definition InviteUser ::
  "(string \<Rightarrow> string \<Rightarrow> bool) \<Rightarrow> JwtPayload option \<Rightarrow> nat \<Rightarrow> nat \<Rightarrow> string \<Rightarrow> string \<Rightarrow> string \<Rightarrow> fails \<Rightarrow> db \<Rightarrow> db \<times> (string + nat)" where
  "InviteUser like pd oid reqUser reqName role display fl d =
     (case pd of None \<Rightarrow> (d, Inl ''login'')
      | Some p \<Rightarrow> if oid = 0 then (d, Inl ''bad request'')
        else if \<not> verifyOrgPerm pd d (UserID p) oid ''org.member.add'' then (d, Inl ''forbidden'')
        else (case resolve_user like d reqUser reqName of Inl e \<Rightarrow> (d, Inl e)
          | Inr uid \<Rightarrow>
             if uid = 0 then (d, Inl ''user missing'')
             else if find_org d oid = None then (d, Inl ''no such org'')
             else if isMemberDB d uid oid then (d, Inl ''already a member'')
             else if list_ex (\<lambda>v. iv_Org v = oid \<and> iv_User v = uid \<and> iv_Status v = Pending) (d_invites d)
               then (d, Inl ''already invited'')
             else (case exec fl ''invites.create'' (add_invite oid uid (UserID p) (valid_role role) (given_name d uid display)) d of
                 (d1, ok) \<Rightarrow> (d1, if ok then Inr (next_id d) else Inl ''send failed''))))"

definition find_invite :: "db \<Rightarrow> nat \<Rightarrow> invite option" where
  "find_invite d i = find (\<lambda>v. iv_ID v = i) (d_invites d)"

definition accept_invite :: "fails \<Rightarrow> invite \<Rightarrow> db \<Rightarrow> db \<times> (string + unit)" where
  "accept_invite fl v d =
     (case addOrgMemberAtomic fl (iv_Org v) (iv_User v) (iv_Role v) (iv_Display v) d of
        (d1, Inl e) \<Rightarrow> (d1, Inl e)
      | (d1, Inr ()) \<Rightarrow>
         (put fl ''invites.update'' (upd_invite (iv_ID v) (\<lambda>x. x\<lparr>iv_Status := Accepted\<rparr>))
            (setDefaultOrg fl (iv_User v) (iv_Org v) d1), Inr ()))"

definition InviteReview :: "JwtPayload option \<Rightarrow> nat \<Rightarrow> bool \<Rightarrow> fails \<Rightarrow> db \<Rightarrow> db \<times> (string + unit)" where
  "InviteReview pd i approve fl d =
     (case pd of None \<Rightarrow> (d, Inl ''login'')
      | Some p \<Rightarrow> if i = 0 then (d, Inl ''bad request'')
        else (case find_invite d i of None \<Rightarrow> (d, Inl ''no such invite'')
          | Some v \<Rightarrow>
             if iv_User v \<noteq> UserID p then (d, Inl ''not yours'')
             else if iv_Status v \<noteq> Pending then (d, Inl ''already handled'')
             else if approve then accept_invite fl v d
             else (put fl ''invites.update'' (upd_invite i (\<lambda>x. x\<lparr>iv_Status := Rejected\<rparr>)) d, Inr ())))"

definition InviteCancel :: "JwtPayload option \<Rightarrow> nat \<Rightarrow> fails \<Rightarrow> db \<Rightarrow> db \<times> (string + unit)" where
  "InviteCancel pd i fl d =
     (case pd of None \<Rightarrow> (d, Inl ''login'')
      | Some p \<Rightarrow> if i = 0 then (d, Inl ''bad request'')
        else (case find_invite d i of None \<Rightarrow> (d, Inl ''no such invite'')
          | Some v \<Rightarrow>
             if \<not> verifyOrgPerm pd d (UserID p) (iv_Org v) ''org.member.add'' then (d, Inl ''forbidden'')
             else if iv_Status v \<noteq> Pending then (d, Inl ''already handled'')
             else (put fl ''invites.update'' (upd_invite i (\<lambda>x. x\<lparr>iv_Status := Cancelled\<rparr>)) d, Inr ())))"

definition review_request :: "fails \<Rightarrow> nat \<Rightarrow> nat \<Rightarrow> string \<Rightarrow> db \<Rightarrow> db" where
  "review_request fl i reviewer st =
     put fl ''requests.review'' (upd_request i (\<lambda>x. x\<lparr>jr_Status := st, jr_ReviewedBy := Some reviewer\<rparr>))"

definition admit_request :: "fails \<Rightarrow> nat \<Rightarrow> join_request \<Rightarrow> db \<Rightarrow> db \<times> (string + unit)" where
  "admit_request fl reviewer q d =
     (case addOrgMemberAtomic fl (jr_Org q) (jr_User q) OrgRoleMember (given_name d (jr_User q) (jr_Display q)) d of
        (d1, Inl e) \<Rightarrow> (d1, Inl e)
      | (d1, Inr ()) \<Rightarrow>
         (review_request fl (jr_ID q) reviewer Approved (setDefaultOrg fl (jr_User q) (jr_Org q) d1), Inr ()))"

definition JoinReview :: "JwtPayload option \<Rightarrow> nat \<Rightarrow> bool \<Rightarrow> fails \<Rightarrow> db \<Rightarrow> db \<times> (string + unit)" where
  "JoinReview pd i approve fl d =
     (case pd of None \<Rightarrow> (d, Inl ''login'')
      | Some p \<Rightarrow> if i = 0 then (d, Inl ''bad request'')
        else (case find (\<lambda>r. jr_ID r = i) (d_requests d) of None \<Rightarrow> (d, Inl ''no such request'')
          | Some q \<Rightarrow>
             if \<not> verifyOrgPerm pd d (UserID p) (jr_Org q) ''org.join.review'' then (d, Inl ''forbidden'')
             else if \<not> approve then (review_request fl i (UserID p) Rejected d, Inr ())
             else if isMemberDB d (jr_User q) (jr_Org q) then (review_request fl i (UserID p) Approved d, Inr ())
             else if find_org d (jr_Org q) = None then (d, Inl ''no such org'')
             else admit_request fl (UserID p) q d))"

definition InviteRotate :: "JwtPayload option \<Rightarrow> nat \<Rightarrow> string \<Rightarrow> fails \<Rightarrow> db \<Rightarrow> db \<times> (string + string)" where
  "InviteRotate pd reqOrg code fl d =
     (case pd of None \<Rightarrow> (d, Inl ''login'')
      | Some p \<Rightarrow>
        (let oid = (if reqOrg = 0 then OrgID p else reqOrg) in
         if \<not> verifyOrgPerm pd d (UserID p) oid ''org.invite.rotate'' then (d, Inl ''forbidden'')
         else (case exec fl ''orgs.invite_code'' (upd_org oid (\<lambda>r. r\<lparr>o_InviteCode := code\<rparr>)) d of
           (d1, ok) \<Rightarrow> (d1, if ok then Inr code else Inl ''update failed''))))"

definition SetDisplayName :: "JwtPayload option \<Rightarrow> nat \<Rightarrow> nat \<Rightarrow> string \<Rightarrow> fails \<Rightarrow> db \<Rightarrow> db \<times> (string + unit)" where
  "SetDisplayName pd oid reqUser reqName fl d =
     (case pd of None \<Rightarrow> (d, Inl ''login'')
      | Some p \<Rightarrow>
        (let uid = (if reqUser = 0 then UserID p else reqUser); name = trim_space reqName in
         if oid = 0 then (d, Inl ''bad request'')
         else if name = '''' then (d, Inl ''name missing'')
         else if rune_count name > 32 then (d, Inl ''name too long'')
         else if uid \<noteq> UserID p \<and> \<not> verifyOrgPerm pd d (UserID p) oid ''org.member.display-name'' then (d, Inl ''forbidden'')
         else if \<not> isMemberDB d uid oid then (d, Inl ''not a member'')
         else (case exec fl ''members.display'' (upd_member oid uid (\<lambda>m. m\<lparr>mb_Display := name\<rparr>)) d of
             (d1, False) \<Rightarrow> (d1, Inl ''save failed'')
           | (d1, True) \<Rightarrow> (if (case find_org d1 oid of None \<Rightarrow> False | Some r \<Rightarrow> is_public r)
                then put fl ''users.name'' (upd_user uid (\<lambda>u. u\<lparr>u_Name := name\<rparr>)) d1 else d1, Inr ()))))"


subsection \<open>Appointments\<close>

definition addUserScopeGrant :: "fails \<Rightarrow> nat \<Rightarrow> nat \<Rightarrow> string \<Rightarrow> nat \<Rightarrow> db \<Rightarrow> db \<times> bool" where
  "addUserScopeGrant fl oid uid st sid d =
     (if list_ex (\<lambda>g. gr_Org g = oid \<and> gr_User g = uid \<and> gr_Type g = st \<and> gr_Scope g = sid) (d_grants d) then (d, True)
      else exec fl ''grants.create'' (\<lambda>d. d\<lparr>d_grants := d_grants d @ [\<lparr>gr_Org = oid, gr_User = uid, gr_Type = st, gr_Scope = sid\<rparr>]\<rparr>) d)"

definition has_grant :: "db \<Rightarrow> nat \<Rightarrow> nat \<Rightarrow> string \<Rightarrow> bool" where
  "has_grant d oid uid st \<longleftrightarrow> list_ex (\<lambda>g. gr_Org g = oid \<and> gr_User g = uid \<and> gr_Type g = st) (d_grants d)"

definition current_role :: "db \<Rightarrow> nat \<Rightarrow> nat \<Rightarrow> string \<Rightarrow> string" where
  "current_role d oid uid hint =
     (let scanned = (case find_member d oid uid of None \<Rightarrow> '''' | Some m \<Rightarrow> mb_Role m)
      in if scanned = '''' then hint else scanned)"

definition syncRoleFromGrants :: "fails \<Rightarrow> nat \<Rightarrow> nat \<Rightarrow> string \<Rightarrow> db \<Rightarrow> db \<times> string" where
  "syncRoleFromGrants fl oid uid hint d =
     (let cur = current_role d oid uid hint;
          final = EffectiveRoleFromGrants cur (has_grant d oid uid ScopeTypeGroup) (has_grant d oid uid ScopeTypeSquad);
          d1 = (if final \<noteq> cur then put fl ''members.role'' (set_role oid uid final) d else d)
      in (syncOrgMemberSystemRole fl oid uid d1, final))"

definition actorControlsGroup :: "db \<Rightarrow> nat \<Rightarrow> nat \<Rightarrow> nat \<Rightarrow> bool" where
  "actorControlsGroup d oid uid gid \<longleftrightarrow>
     gid \<noteq> 0 \<and> uid \<noteq> 0 \<and>
     (IsOrgFullScopeRole (case find_member d oid uid of None \<Rightarrow> '''' | Some m \<Rightarrow> mb_Role m)
      \<or> list_ex (\<lambda>g. gr_Org g = oid \<and> gr_User g = uid \<and> gr_Type g = ScopeTypeGroup \<and> gr_Scope g = gid) (d_grants d))"

definition del_grants :: "(grant \<Rightarrow> bool) \<Rightarrow> db \<Rightarrow> db" where
  "del_grants P d = d\<lparr>d_grants := filter (\<lambda>g. \<not> P g) (d_grants d)\<rparr>"

definition replaceUserScopeGrants :: "fails \<Rightarrow> nat \<Rightarrow> nat \<Rightarrow> (string \<times> nat) list \<Rightarrow> db \<Rightarrow> db" where
  "replaceUserScopeGrants fl oid uid gs = put fl ''grants.replace'' (\<lambda>d. d\<lparr>d_grants :=
     filter (\<lambda>g. \<not> (gr_Org g = oid \<and> gr_User g = uid)) (d_grants d)
     @ map (\<lambda>(t, i). \<lparr>gr_Org = oid, gr_User = uid, gr_Type = t, gr_Scope = i\<rparr>) gs\<rparr>)"

definition find_squad_in :: "db \<Rightarrow> nat \<Rightarrow> nat \<Rightarrow> squad option" where
  "find_squad_in d sid oid = find (\<lambda>s. sq_ID s = sid \<and> sq_Org s = oid) (d_squads d)"

definition group_in_org :: "db \<Rightarrow> nat \<Rightarrow> nat \<Rightarrow> bool" where
  "group_in_org d gid oid \<longleftrightarrow> list_ex (\<lambda>g. g_ID g = gid \<and> g_Org g = oid) (d_groups d)"

definition add_squad_member :: "nat \<Rightarrow> nat \<Rightarrow> db \<Rightarrow> db" where
  "add_squad_member sid uid d = (if (sid, uid) \<in> set (d_squad_members d) then d
     else d\<lparr>d_squad_members := d_squad_members d @ [(sid, uid)]\<rparr>)"

record set_role_req =
  sr_Org :: nat
  sr_User :: nat
  sr_Role :: string
  sr_Remove :: bool
  sr_ScopeType :: string
  sr_Scope :: nat

text \<open>Taking one scope away from a leader.\<close>

definition remove_scope :: "JwtPayload \<Rightarrow> set_role_req \<Rightarrow> bool \<Rightarrow> string \<Rightarrow> string \<Rightarrow> bool \<Rightarrow> fails \<Rightarrow> db \<Rightarrow> db \<times> (string + string)" where
  "remove_scope p q isSite actorRole targetCurrent inOrg fl d =
     (let st = trim_space (sr_ScopeType q); oid = sr_Org q; uid = sr_User q in
      if \<not> ValidScopeType st \<or> sr_Scope q = 0 then (d, Inl ''scope missing'')
      else if \<not> inOrg then (d, Inl ''not a member'')
      else if \<not> isSite \<and> OrgRoleRank targetCurrent \<ge> OrgRoleRank actorRole then (d, Inl ''same or higher rank'')
      else if st = ScopeTypeSquad \<and> (case find_squad_in d (sr_Scope q) oid of None \<Rightarrow> False
          | Some s \<Rightarrow> \<not> isSite \<and> actorRole = OrgRoleGroupLeader \<and> \<not> actorControlsGroup d oid (UserID p) (sq_Group s))
        then (d, Inl ''not your group'')
      else (case syncRoleFromGrants fl oid uid targetCurrent (put fl ''grants.delete''
              (del_grants (\<lambda>g. gr_Org g = oid \<and> gr_User g = uid \<and> gr_Type g = st \<and> gr_Scope g = sr_Scope q)) d) of
          (d1, final) \<Rightarrow> (d1, Inr final)))"

text \<open>Entering the organisation first, when the user is not yet in it.\<close>

definition enter :: "bool \<Rightarrow> fails \<Rightarrow> nat \<Rightarrow> nat \<Rightarrow> string \<Rightarrow> db \<Rightarrow> db \<times> (string + unit)" where
  "enter inOrg fl oid uid role d = (if inOrg then (d, Inr ())
     else (case addOrgMemberAtomic fl oid uid role (display_name d uid) d of
       (d1, Inl e) \<Rightarrow> (d1, Inl e) | (d1, Inr ()) \<Rightarrow> (setDefaultOrg fl uid oid d1, Inr ())))"

text \<open>Appointing a captain or a group leader of one scope. A captain also joins the squad.\<close>

definition join_squad :: "fails \<Rightarrow> set_role_req \<Rightarrow> db \<Rightarrow> db" where
  "join_squad fl q d = (if sr_Role q = OrgRoleCaptain \<and> list_ex (\<lambda>s. sq_ID s = sr_Scope q) (d_squads d)
     then put fl ''squad_members.create'' (add_squad_member (sr_Scope q) (sr_User q)) d else d)"

definition base_role :: "set_role_req \<Rightarrow> string \<Rightarrow> string" where
  "base_role q tc = (if tc = OrgRoleMember \<or> tc = OrgRoleCaptain \<or> tc = OrgRoleGroupLeader then sr_Role q else tc)"

definition give_scope :: "fails \<Rightarrow> set_role_req \<Rightarrow> string \<Rightarrow> string \<Rightarrow> db \<Rightarrow> db \<times> (string + string)" where
  "give_scope fl q st tc d =
     (case addUserScopeGrant fl (sr_Org q) (sr_User q) st (sr_Scope q) d of
        (d1, False) \<Rightarrow> (d1, Inl ''scope failed'')
      | (d1, True) \<Rightarrow>
          (case syncRoleFromGrants fl (sr_Org q) (sr_User q) (base_role q tc) (join_squad fl q d1) of
             (d2, final) \<Rightarrow> (d2, Inr final)))"

definition appoint_scoped :: "JwtPayload \<Rightarrow> set_role_req \<Rightarrow> bool \<Rightarrow> string \<Rightarrow> string \<Rightarrow> bool \<Rightarrow> fails \<Rightarrow> db \<Rightarrow> db \<times> (string + string)" where
  "appoint_scoped p q isSite actorRole targetCurrent inOrg fl d =
     (let need = fst (RoleNeedsScope (sr_Role q)); oid = sr_Org q; uid = sr_User q; sid = sr_Scope q;
          st = (if trim_space (sr_ScopeType q) = '''' then need else trim_space (sr_ScopeType q)) in
      if st \<noteq> need \<or> sid = 0 then (d, Inl ''scope missing'')
      else if st = ScopeTypeGroup \<and> \<not> group_in_org d sid oid then (d, Inl ''no such group'')
      else if st \<noteq> ScopeTypeGroup \<and> find_squad_in d sid oid = None then (d, Inl ''no such squad'')
      else if st \<noteq> ScopeTypeGroup \<and> (case find_squad_in d sid oid of None \<Rightarrow> False
          | Some s \<Rightarrow> \<not> isSite \<and> actorRole = OrgRoleGroupLeader \<and> \<not> actorControlsGroup d oid (UserID p) (sq_Group s))
        then (d, Inl ''not your group'')
      else (case enter inOrg fl oid uid OrgRoleMember d of
          (d1, Inl e) \<Rightarrow> (d1, Inl e)
        | (d1, Inr ()) \<Rightarrow> give_scope fl q st targetCurrent d1))"

text \<open>Appointing a coach, an administrator or a plain member.\<close>

definition appoint_plain :: "set_role_req \<Rightarrow> bool \<Rightarrow> fails \<Rightarrow> db \<Rightarrow> db \<times> (string + string)" where
  "appoint_plain q inOrg fl d =
     (let oid = sr_Org q; uid = sr_User q in
      case (if inOrg then
              (case exec fl ''members.role'' (set_role oid uid (sr_Role q)) d of
                 (d1, False) \<Rightarrow> (d1, Inl ''role failed'')
               | (d1, True) \<Rightarrow> (syncOrgMemberSystemRole fl oid uid d1, Inr ()))
            else enter False fl oid uid (sr_Role q) d) of
        (d1, Inl e) \<Rightarrow> (d1, Inl e)
      | (d1, Inr ()) \<Rightarrow> (replaceUserScopeGrants fl oid uid [] d1, Inr (sr_Role q)))"

definition SetRole :: "JwtPayload option \<Rightarrow> set_role_req \<Rightarrow> fails \<Rightarrow> db \<Rightarrow> db \<times> (string + string)" where
  "SetRole pd q fl d =
     (case pd of None \<Rightarrow> (d, Inl ''login'')
      | Some p \<Rightarrow>
        (let oid = sr_Org q; uid = sr_User q; isSite = VerifySiteAdmin pd;
             actorRole = (if isSite then OrgRoleOrgAdmin
               else (case find_member d oid (UserID p) of Some a \<Rightarrow> mb_Role a | None \<Rightarrow> OrgRoleMember));
             inOrg = (find_member d oid uid \<noteq> None);
             targetCurrent = (case find_member d oid uid of Some m \<Rightarrow> mb_Role m | None \<Rightarrow> OrgRoleMember)
         in if oid = 0 \<or> uid = 0 then (d, Inl ''bad request'')
            else if \<not> ValidOrgRole (sr_Role q) then (d, Inl ''bad role'')
            else if \<not> isSite \<and> \<not> verifyOrgPerm pd d (UserID p) oid ''org.member.role'' then (d, Inl ''forbidden'')
            else if \<not> isSite \<and> \<not> CanAppointOrgRole actorRole targetCurrent (sr_Role q)
                \<and> \<not> (sr_Remove q \<and> CanAppointOrgRole actorRole OrgRoleMember (sr_Role q))
                \<and> (\<not> sr_Remove q \<or> \<not> CanAppointOrgRole actorRole targetCurrent OrgRoleCaptain
                      \<and> \<not> CanAppointOrgRole actorRole targetCurrent OrgRoleGroupLeader)
              then (d, Inl ''may not appoint'')
            else if sr_Role q \<noteq> OrgRoleOrgAdmin \<and> targetCurrent = OrgRoleOrgAdmin \<and> admins d oid \<le> 1
              then (d, Inl ''last admin'')
            else if sr_Remove q then remove_scope p q isSite actorRole targetCurrent inOrg fl d
            else if snd (RoleNeedsScope (sr_Role q)) then appoint_scoped p q isSite actorRole targetCurrent inOrg fl d
            else appoint_plain q inOrg fl d))"

definition RemoveMember :: "JwtPayload option \<Rightarrow> nat \<Rightarrow> nat \<Rightarrow> fails \<Rightarrow> db \<Rightarrow> db \<times> (string + unit)" where
  "RemoveMember pd oid uid fl d =
     (case pd of None \<Rightarrow> (d, Inl ''login'')
      | Some p \<Rightarrow> if oid = 0 \<or> uid = 0 then (d, Inl ''bad request'')
        else (case find_org d oid of None \<Rightarrow> (d, Inl ''no such org'')
          | Some r \<Rightarrow>
             (let targetRole = (case find_member d oid uid of None \<Rightarrow> '''' | Some m \<Rightarrow> mb_Role m);
                  actorRole = (case find_member d oid (UserID p) of None \<Rightarrow> OrgRoleMember | Some a \<Rightarrow> mb_Role a) in
              if o_IsSystem r then (d, Inl ''public org'')
              else if \<not> verifyOrgPerm pd d (UserID p) oid ''org.member.remove'' then (d, Inl ''forbidden'')
              else if targetRole = OrgRoleOrgAdmin \<and> admins d oid \<le> 1 then (d, Inl ''last admin'')
              else if \<not> VerifySiteAdmin pd \<and> targetRole \<noteq> '''' \<and> OrgRoleRank targetRole \<ge> OrgRoleRank actorRole
                then (d, Inl ''same or higher rank'')
              else (case exec fl ''members.delete'' (del_member oid uid) d of
                 (d1, False) \<Rightarrow> (d1, Inl ''remove failed'')
               | (d1, True) \<Rightarrow>
                  (SyncProblemPipelineOverrides fl uid
                    (fallbackDefaultOrgIf fl uid oid (syncOrgMemberSystemRole fl oid uid d1)), Inr ())))))"

definition site_admins :: "db \<Rightarrow> nat" where
  "site_admins d = length (filter u_IsSiteAdmin (d_users d))"

definition SetSiteAdmin :: "JwtPayload option \<Rightarrow> nat \<Rightarrow> bool \<Rightarrow> fails \<Rightarrow> db \<Rightarrow> db \<times> (string + unit)" where
  "SetSiteAdmin pd uid flag fl d =
     (if \<not> PayloadHasPerm pd ''site.appoint.admin'' then (d, Inl ''forbidden'')
      else if uid = 0 then (d, Inl ''bad request'')
      else if \<not> flag \<and> (case loadUser d uid of None \<Rightarrow> False | Some u \<Rightarrow> u_IsSiteAdmin u) \<and> site_admins d \<le> 1
        then (d, Inl ''last site admin'')
      else (case exec fl ''users.site_admin'' (upd_user uid (\<lambda>u. u\<lparr>u_IsSiteAdmin := flag, u_RoleID := (if flag then 1 else 0)\<rparr>)) d of
          (d1, False) \<Rightarrow> (d1, Inl ''update failed'')
        | (d1, True) \<Rightarrow> (syncSiteSystemRole fl uid RoleSiteAdmin flag d1, Inr ())))"

end
