(* ===== verification/OrgSquads.thy ===== *)
theory OrgSquads
  imports OrgService
begin

text \<open>
  Groups and squads of an organisation: \<^verbatim>\<open>user/internal/service/squad.go\<close>, \<^verbatim>\<open>group.go\<close> and the deletion of
  a group in \<^verbatim>\<open>data/dal/group.go\<close>, which dissolves its squads and dismisses their captains and its leaders.
  Every listed handler that writes is here; the listings are not.
\<close>

subsection \<open>Who may write\<close>

definition currentOrgID :: "JwtPayload option \<Rightarrow> nat \<Rightarrow> nat" where
  "currentOrgID pd reqOrg = (if reqOrg > 0 then reqOrg else (case pd of None \<Rightarrow> 0 | Some p \<Rightarrow> OrgID p))"

definition orgActorRole :: "JwtPayload option \<Rightarrow> db \<Rightarrow> nat \<Rightarrow> string" where
  "orgActorRole pd d oid = (case pd of None \<Rightarrow> ''''
     | Some p \<Rightarrow> (case find_member d oid (UserID p) of None \<Rightarrow> '''' | Some m \<Rightarrow> mb_Role m))"

definition canManageSquads :: "JwtPayload option \<Rightarrow> nat \<Rightarrow> bool" where
  "canManageSquads pd oid \<longleftrightarrow> VerifySiteAdmin pd \<or> HasOrgPerm pd oid ''org.group.manage''
     \<or> HasOrgPerm pd oid ''org.member.role'' \<or> HasOrgPerm pd oid ''org.report.view''"

definition canWriteSquadStructure :: "JwtPayload option \<Rightarrow> db \<Rightarrow> nat \<Rightarrow> nat \<Rightarrow> bool" where
  "canWriteSquadStructure pd d oid gid \<longleftrightarrow> VerifySiteAdmin pd \<or> HasOrgPerm pd oid ''org.group.manage''
     \<or> (orgActorRole pd d oid = OrgRoleGroupLeader \<and> gid > 0
        \<and> (case pd of None \<Rightarrow> False | Some p \<Rightarrow> actorControlsGroup d oid (UserID p) gid))"

definition canWriteSquadMembers :: "JwtPayload option \<Rightarrow> db \<Rightarrow> nat \<Rightarrow> squad \<Rightarrow> bool" where
  "canWriteSquadMembers pd d oid sq \<longleftrightarrow> VerifySiteAdmin pd \<or> HasOrgPerm pd oid ''org.group.manage''
     \<or> (case pd of None \<Rightarrow> False | Some p \<Rightarrow>
          (let role = orgActorRole pd d oid in
           if role = OrgRoleGroupLeader then actorControlsGroup d oid (UserID p) (sq_Group sq)
           else if role = OrgRoleCaptain then list_ex (\<lambda>g. gr_Org g = oid \<and> gr_User g = UserID p
               \<and> gr_Type g = ScopeTypeSquad \<and> gr_Scope g = sq_ID sq) (d_grants d)
           else False))"

subsection \<open>Squads\<close>

definition find_squad :: "db \<Rightarrow> nat \<Rightarrow> squad option" where
  "find_squad d i = find (\<lambda>s. sq_ID s = i) (d_squads d)"

definition SquadCreate :: "JwtPayload option \<Rightarrow> nat \<Rightarrow> nat \<Rightarrow> string \<Rightarrow> string \<Rightarrow> fails \<Rightarrow> db \<Rightarrow> db \<times> (string + nat)" where
  "SquadCreate pd reqOrg gid reqName desc fl d =
     (let oid = (if reqOrg = 0 then (case pd of None \<Rightarrow> 0 | Some p \<Rightarrow> OrgID p) else reqOrg); name = trim_space reqName in
      if oid = 0 \<or> gid = 0 \<or> name = '''' then (d, Inl ''bad request'')
      else if \<not> group_in_org d gid oid then (d, Inl ''no such group'')
      else if \<not> canWriteSquadStructure pd d oid gid then (d, Inl ''forbidden'')
      else (case exec fl ''squads.create'' (\<lambda>d. drawn d\<lparr>d_squads := d_squads d
               @ [\<lparr>sq_ID = next_id d, sq_Org = oid, sq_Group = gid, sq_Name = name, sq_Describe = trim_space desc\<rparr>]\<rparr>) d of
          (d1, ok) \<Rightarrow> (d1, if ok then Inr (next_id d) else Inl ''create failed'')))"

definition SquadUpdate :: "JwtPayload option \<Rightarrow> nat \<Rightarrow> nat \<Rightarrow> string \<Rightarrow> string \<Rightarrow> fails \<Rightarrow> db \<Rightarrow> db \<times> (string + unit)" where
  "SquadUpdate pd i reqGroup reqName desc fl d =
     (case find_squad d i of None \<Rightarrow> (d, Inl ''no such squad'')
      | Some s \<Rightarrow>
         (let target = (if reqGroup > 0 then reqGroup else sq_Group s);
              name = (if trim_space reqName \<noteq> '''' then trim_space reqName else sq_Name s) in
          if \<not> canWriteSquadStructure pd d (sq_Org s) target then (d, Inl ''forbidden'')
          else if reqGroup > 0 \<and> reqGroup \<noteq> sq_Group s \<and> \<not> group_in_org d reqGroup (sq_Org s) then (d, Inl ''no such group'')
          else (case exec fl ''squads.save'' (\<lambda>d. d\<lparr>d_squads := map (\<lambda>x. if sq_ID x = i
                  then x\<lparr>sq_Name := name, sq_Describe := trim_space desc, sq_Group := target\<rparr> else x) (d_squads d)\<rparr>) d of
              (d1, ok) \<Rightarrow> (d1, if ok then Inr () else Inl ''save failed''))))"

text \<open>Dismissing: those with one of the given squad (group) scopes who are captains (leaders) become
  members.\<close>

definition holders :: "db \<Rightarrow> nat \<Rightarrow> string \<Rightarrow> nat set \<Rightarrow> nat set" where
  "holders d oid st ids = gr_User ` set (filter (\<lambda>g. gr_Org g = oid \<and> gr_Type g = st \<and> gr_Scope g \<in> ids) (d_grants d))"

definition dismiss :: "nat \<Rightarrow> nat set \<Rightarrow> string \<Rightarrow> db \<Rightarrow> db" where
  "dismiss oid uids r d = d\<lparr>d_members := map (\<lambda>m. if mb_Org m = oid \<and> mb_User m \<in> uids \<and> mb_Role m = r
     then m\<lparr>mb_Role := OrgRoleMember\<rparr> else m) (d_members d)\<rparr>"

definition squad_delete_tx :: "squad \<Rightarrow> db \<Rightarrow> db" where
  "squad_delete_tx s d =
     (let d1 = dismiss (sq_Org s) (holders d (sq_Org s) ScopeTypeSquad {sq_ID s}) OrgRoleCaptain d
      in d1\<lparr>d_squad_members := filter (\<lambda>(x, _). x \<noteq> sq_ID s) (d_squad_members d1),
            d_grants := filter (\<lambda>g. \<not> (gr_Type g = ScopeTypeSquad \<and> gr_Scope g = sq_ID s \<and> gr_Org g = sq_Org s)) (d_grants d1),
            d_squads := filter (\<lambda>x. sq_ID x \<noteq> sq_ID s) (d_squads d1)\<rparr>)"

definition SquadDelete :: "JwtPayload option \<Rightarrow> nat \<Rightarrow> fails \<Rightarrow> db \<Rightarrow> db \<times> (string + unit)" where
  "SquadDelete pd i fl d =
     (case find_squad d i of None \<Rightarrow> (d, Inl ''no such squad'')
      | Some s \<Rightarrow> if \<not> canWriteSquadStructure pd d (sq_Org s) (sq_Group s) then (d, Inl ''forbidden'')
         else (put fl ''squads.delete'' (squad_delete_tx s) d, Inr ()))"

definition SquadMemberSet :: "JwtPayload option \<Rightarrow> nat \<Rightarrow> nat \<Rightarrow> bool \<Rightarrow> fails \<Rightarrow> db \<Rightarrow> db \<times> (string + unit)" where
  "SquadMemberSet pd i uid inn fl d =
     (case find_squad d i of None \<Rightarrow> (d, Inl ''bad request'')
      | Some s \<Rightarrow> if uid = 0 then (d, Inl ''bad request'')
         else if \<not> canWriteSquadMembers pd d (sq_Org s) s then (d, Inl ''forbidden'')
         else if \<not> isMemberDB d uid (sq_Org s) then (d, Inl ''not a member'')
         else if inn then
           (let d1 = put fl ''members.group'' (upd_member (sq_Org s) uid (\<lambda>m.
                 if mb_Group m = None \<or> mb_Group m = Some 0 then m\<lparr>mb_Group := Some (sq_Group s)\<rparr> else m)) d
            in case exec fl ''squad_members.create'' (add_squad_member (sq_ID s) uid) d1 of
                 (d2, ok) \<Rightarrow> (d2, if ok then Inr () else Inl ''join failed''))
         else (put fl ''squad_members.delete'' (\<lambda>d. d\<lparr>d_squad_members :=
              filter (\<lambda>x. x \<noteq> (sq_ID s, uid)) (d_squad_members d)\<rparr>) d, Inr ()))"

text \<open>The scopes of a request, duplicates and scopes outside the organisation dropped.\<close>

fun scope_rows :: "db \<Rightarrow> nat \<Rightarrow> (string \<times> nat) list \<Rightarrow> (string \<times> nat) set \<Rightarrow> (string \<times> nat) list" where
  "scope_rows d oid [] seen = []"
| "scope_rows d oid ((t, i) # gs) seen =
     (if \<not> ValidScopeType t \<or> i = 0 then scope_rows d oid gs seen
      else if (t, i) \<in> seen then scope_rows d oid gs seen
      else if (if t = ScopeTypeGroup then group_in_org d i oid else find_squad_in d i oid \<noteq> None)
        then (t, i) # scope_rows d oid gs (insert (t, i) seen)
      else scope_rows d oid gs (insert (t, i) seen))"

definition ScopeSet :: "JwtPayload option \<Rightarrow> nat \<Rightarrow> nat \<Rightarrow> (string \<times> nat) list \<Rightarrow> fails \<Rightarrow> db \<Rightarrow> db \<times> (string + nat)" where
  "ScopeSet pd reqOrg uid gs fl d =
     (let oid = (if reqOrg = 0 then (case pd of None \<Rightarrow> 0 | Some p \<Rightarrow> OrgID p) else reqOrg) in
      if oid = 0 \<or> uid = 0 then (d, Inl ''bad request'')
      else if \<not> VerifySiteAdmin pd \<and> orgActorRole pd d oid \<noteq> OrgRoleOrgAdmin then (d, Inl ''forbidden'')
      else (case find_member d oid uid of None \<Rightarrow> (d, Inl ''not a member'')
        | Some m \<Rightarrow>
           if IsOrgFullScopeRole (mb_Role m) then
             (if gs \<noteq> [] then (d, Inl ''full scope'') else (replaceUserScopeGrants fl oid uid [] d, Inr 0))
           else (let rows = scope_rows d oid gs {} in (replaceUserScopeGrants fl oid uid rows d, Inr (length rows)))))"

subsection \<open>Groups\<close>

definition find_group :: "db \<Rightarrow> nat \<Rightarrow> group option" where
  "find_group d i = find (\<lambda>g. g_ID g = i) (d_groups d)"

definition EnsureDefaultGroup :: "fails \<Rightarrow> nat \<Rightarrow> db \<Rightarrow> db \<times> nat option" where
  "EnsureDefaultGroup fl oid d =
     (if oid = 0 then (d, None)
      else (case ensureDefaultGroupID fl oid d of (d1, g) \<Rightarrow> (d1, if default_group d oid = None \<and> g = 0 then None else Some g)))"

definition group_delete_tx :: "group \<Rightarrow> nat \<Rightarrow> db \<Rightarrow> db" where
  "group_delete_tx g defaultID d =
     (let oid = g_Org g; gid = g_ID g;
          d1 = d\<lparr>d_members := map (\<lambda>m. if mb_Group m = Some gid then m\<lparr>mb_Group := Some defaultID\<rparr> else m) (d_members d)\<rparr>;
          sids = sq_ID ` set (filter (\<lambda>s. sq_Group s = gid \<and> sq_Org s = oid) (d_squads d1));
          d2 = (dismiss oid (holders d1 oid ScopeTypeSquad sids) OrgRoleCaptain d1);
          d3 = d2\<lparr>d_squad_members := filter (\<lambda>(x, _). x \<notin> sids) (d_squad_members d2),
                  d_grants := filter (\<lambda>x. \<not> (gr_Org x = oid \<and> gr_Type x = ScopeTypeSquad \<and> gr_Scope x \<in> sids)) (d_grants d2),
                  d_squads := filter (\<lambda>s. sq_ID s \<notin> sids) (d_squads d2)\<rparr>;
          d4 = dismiss oid (holders d3 oid ScopeTypeGroup {gid}) OrgRoleGroupLeader d3
      in d4\<lparr>d_grants := filter (\<lambda>x. \<not> (gr_Org x = oid \<and> gr_Type x = ScopeTypeGroup \<and> gr_Scope x = gid)) (d_grants d4),
            d_groups := filter (\<lambda>x. g_ID x \<noteq> gid) (d_groups d4)\<rparr>)"

definition dal_Delete :: "nat \<Rightarrow> fails \<Rightarrow> db \<Rightarrow> db \<times> (string + unit)" where
  "dal_Delete i fl d =
     (case find_group d i of None \<Rightarrow> (d, Inl ''no such group'')
      | Some g \<Rightarrow> if IsDefaultGroup g then (d, Inl ''default group'')
         else (case EnsureDefaultGroup fl (g_Org g) d of
             (d1, None) \<Rightarrow> (d1, Inl ''default group failed'')
           | (d1, Some def) \<Rightarrow> (case exec fl ''groups.delete'' (group_delete_tx g def) d1 of
               (d2, ok) \<Rightarrow> (d2, if ok then Inr () else Inl ''delete failed''))))"

definition assertGroupInCurrentOrg :: "JwtPayload option \<Rightarrow> nat \<Rightarrow> db \<Rightarrow> string + unit" where
  "assertGroupInCurrentOrg pd i d =
     (case pd of None \<Rightarrow> Inl ''no org''
      | Some p \<Rightarrow> if OrgID p = 0 then Inl ''no org''
         else (case find_group d i of None \<Rightarrow> Inl ''no such group''
           | Some g \<Rightarrow> if g_Org g \<noteq> OrgID p then Inl ''other org'' else Inr ()))"

definition GroupCreate :: "JwtPayload option \<Rightarrow> string \<Rightarrow> fails \<Rightarrow> db \<Rightarrow> db \<times> (string + nat)" where
  "GroupCreate pd name fl d =
     (let oid = (case pd of None \<Rightarrow> 0 | Some p \<Rightarrow> OrgID p) in
      if \<not> PayloadHasPerm pd ''org.group.manage'' then (d, Inl ''forbidden'')
      else if name = '''' then (d, Inl ''name missing'')
      else if oid = 0 then (d, Inl ''no org'')
      else (case exec fl ''groups.create'' (add_group oid name) d of
          (d1, ok) \<Rightarrow> (d1, if ok then Inr (next_id d) else Inl ''create failed'')))"

definition GroupDelete :: "JwtPayload option \<Rightarrow> nat \<Rightarrow> fails \<Rightarrow> db \<Rightarrow> db \<times> (string + unit)" where
  "GroupDelete pd i fl d =
     (if \<not> PayloadHasPerm pd ''org.group.manage'' then (d, Inl ''forbidden'')
      else if i = 0 then (d, Inl ''bad request'')
      else (case assertGroupInCurrentOrg pd i d of Inl e \<Rightarrow> (d, Inl e)
        | Inr () \<Rightarrow> (case dal_Delete i fl d of (d1, Inl e) \<Rightarrow> (d1, Inl ''delete failed'') | (d1, Inr ()) \<Rightarrow> (d1, Inr ()))))"

definition GroupUpdate :: "JwtPayload option \<Rightarrow> nat \<Rightarrow> string \<Rightarrow> string \<Rightarrow> fails \<Rightarrow> db \<Rightarrow> db \<times> (string + unit)" where
  "GroupUpdate pd i name desc fl d =
     (if \<not> PayloadHasPerm pd ''org.group.manage'' then (d, Inl ''forbidden'')
      else if i = 0 then (d, Inl ''bad request'')
      else (case assertGroupInCurrentOrg pd i d of Inl e \<Rightarrow> (d, Inl e)
        | Inr () \<Rightarrow>
           if name = '''' \<and> desc = '''' then (d, Inl ''nothing to update'')
           else (case exec fl ''groups.update'' (\<lambda>d. d\<lparr>d_groups := map (\<lambda>g. if g_ID g = i \<and> name \<noteq> ''''
                  then g\<lparr>g_Name := Some name\<rparr> else g) (d_groups d)\<rparr>) d of
              (d1, ok) \<Rightarrow> (d1, if ok then Inr () else Inl ''update failed''))))"

end
