(* ===== verification/OrgSpec.thy ===== *)
theory OrgSpec
  imports OrgSquads
begin

text \<open>
  What the handlers of organisations, groups and squads may do to memberships, roles and seats, in two steps:
  \<open>role_move\<close> is the abstract specification on the map from organisation and user to role, \<open>change\<close> the
  list of the changes of the tables from which every handler is composed. Each \<open>change\<close> keeps the database
  well formed, is a \<open>role_move\<close> of its roles and takes no seat beyond the limit; \<open>moved\<close> is any number of
  them. The theory OrgSafety shows that every handler is \<open>moved\<close>.
\<close>

subsection \<open>What the helpers leave alone\<close>

definition same_core :: "db \<Rightarrow> db \<Rightarrow> bool" where
  "same_core d d' \<longleftrightarrow> d_members d' = d_members d \<and> d_orgs d' = d_orgs d \<and> map u_ID (d_users d') = map u_ID (d_users d)
     \<and> d_seq d \<le> d_seq d'"

lemma same_core_refl [intro, simp]: "same_core d d"
  by (simp add: same_core_def)

lemma same_core_trans: "same_core d d' \<Longrightarrow> same_core d' d'' \<Longrightarrow> same_core d d''"
  by (simp add: same_core_def)

lemma same_core_put [intro]: "same_core d (f d) \<Longrightarrow> same_core d (put fl lbl f d)"
  by (simp add: exec_def)

lemma same_core_exec: "exec fl lbl f d = (d', ok) \<Longrightarrow> same_core d (f d) \<Longrightarrow> same_core d d'"
  by (auto simp: exec_eq split: if_splits)

lemma same_core_simple [simp]:
  "same_core d (del_user_roles P d)" "same_core d (add_user_role u r i d)" "same_core d (add_group i n d)"
  "same_core d (upd_request i fq d)" "same_core d (upd_invite i fv d)" "same_core d (add_request i u c n d)"
  "same_core d (add_invite i u v ro n d)" "same_core d (del_grants Q d)" "same_core d (add_squad_member s u d)"
  "same_core d (drawn d\<lparr>d_squads := x1\<rparr>)" "same_core d (d\<lparr>d_squads := x1\<rparr>)" "same_core d (d\<lparr>d_squad_members := x2\<rparr>)"
  "same_core d (d\<lparr>d_grants := x3\<rparr>)" "same_core d (d\<lparr>d_groups := x4\<rparr>)" "same_core d (reopen_request q c n d)"
  by (simp_all add: same_core_def del_user_roles_def add_user_role_def add_group_def upd_request_def upd_invite_def
      add_request_def add_invite_def del_grants_def add_squad_member_def drawn_def reopen_request_def)

lemma same_core_upd_user: "(\<And>u. u_ID (f u) = u_ID u) \<Longrightarrow> same_core d (upd_user i f d)"
  by (simp add: same_core_def upd_user_def)

lemma same_core_sync [simp]: "same_core d (syncOrgMemberSystemRole fl oid uid d)"
proof -
  have del: "same_core d (put fl l (del_user_roles P) d)" for l P by (rule same_core_put) simp
  then have trim: "same_core d (if b then d else put fl l (del_user_roles P) d)" for b l P by simp
  have "same_core d (put fl l (add_user_role u r i) d')" if "same_core d d'" for l u r i d'
    by (rule same_core_trans[OF that]) (rule same_core_put, simp)
  then show ?thesis
    unfolding syncOrgMemberSystemRole_def Let_def using del trim by simp
qed

lemma same_core_sync_site [simp]: "same_core d (syncSiteSystemRole fl uid rc has d)"
  unfolding syncSiteSystemRole_def by (auto intro!: same_core_put)

lemma same_core_default [simp]: "same_core d (setDefaultOrg fl uid oid d)" "same_core d (fallbackDefaultOrgIf fl uid oid d)"
  by (auto simp: setDefaultOrg_def fallbackDefaultOrgIf_def intro!: same_core_put same_core_upd_user split: option.split)

lemma same_core_overrides [simp]:
  "same_core d (SyncProblemPipelineOverrides fl uid d)" "same_core d (SyncProblemPipelineOverridesBatch fl uids d)"
proof -
  have "same_core d (put fl l (upd_user uid (\<lambda>u. u\<lparr>u_FetchOverride := a, u_AiOverride := b\<rparr>)) d)" for l a b
    by (rule same_core_put) (simp add: same_core_upd_user)
  then show "same_core d (SyncProblemPipelineOverrides fl uid d)" by (simp add: SyncProblemPipelineOverrides_def Let_def)
  have "same_core d (d\<lparr>d_users := map (\<lambda>u. if P u then batch_row d u else u) (d_users d)\<rparr>)" for P
    by (simp add: same_core_def batch_row_def)
  then show "same_core d (SyncProblemPipelineOverridesBatch fl uids d)"
    unfolding SyncProblemPipelineOverridesBatch_def by (rule same_core_put)
qed

lemma same_core_replace [simp]: "same_core d (replaceUserScopeGrants fl oid uid gs d)"
  unfolding replaceUserScopeGrants_def by (rule same_core_put) simp

lemma same_core_grant: "addUserScopeGrant fl oid uid st sid d = (d', ok) \<Longrightarrow> same_core d d'"
  by (auto simp: addUserScopeGrant_def split: if_splits dest!: same_core_exec)

lemma same_core_ensure: "ensureDefaultGroupID fl oid d = (d', g) \<Longrightarrow> same_core d d'"
  by (auto simp: ensureDefaultGroupID_def split: option.splits if_splits prod.splits intro!: same_core_put dest!: same_core_exec)

lemma same_core_issue: "IssueJWT fl now u d = (d', tok) \<Longrightarrow> same_core d d'"
proof -
  assume i: "IssueJWT fl now u d = (d', tok)"
  have u: "same_core d (put fl l (upd_user i (\<lambda>x. x\<lparr>u_CurrentOrgID := c\<rparr>)) d)" for l i c
    by (rule same_core_put) (simp add: same_core_upd_user)
  have "same_core d (fst (token_org fl u d))"
    unfolding token_org_def Let_def using u by (simp split: option.split)
  then show ?thesis using i by (auto simp: IssueJWT_def split: prod.splits)
qed


subsection \<open>The abstract specification\<close>

text \<open>One move of the roles of all organisations: nobody moves, somebody joins, a role changes, somebody
  leaves; an administrator steps down or leaves only when another one stays.\<close>

inductive role_move :: "(nat \<times> nat \<rightharpoonup> string) \<Rightarrow> (nat \<times> nat \<rightharpoonup> string) \<Rightarrow> bool" where
  stay: "role_move f f"
| join: "f (oid, uid) = None \<Longrightarrow> role_move f (f((oid, uid) \<mapsto> r))"
| change: "f (oid, uid) = Some r \<Longrightarrow>
    r = OrgRoleOrgAdmin \<longrightarrow> r' = OrgRoleOrgAdmin \<or> (\<exists>v. v \<noteq> uid \<and> f (oid, v) = Some OrgRoleOrgAdmin) \<Longrightarrow>
    role_move f (f((oid, uid) \<mapsto> r'))"
| leave: "f (oid, uid) = Some r \<Longrightarrow>
    r = OrgRoleOrgAdmin \<longrightarrow> (\<exists>v. v \<noteq> uid \<and> f (oid, v) = Some OrgRoleOrgAdmin) \<Longrightarrow>
    role_move f (f((oid, uid) := None))"
| dismissed: "(\<And>oid uid. f' (oid, uid) \<noteq> f (oid, uid) \<Longrightarrow> f (oid, uid) \<in> {Some OrgRoleCaptain, Some OrgRoleGroupLeader}
    \<and> f' (oid, uid) = Some OrgRoleMember) \<Longrightarrow> role_move f f'"

lemma role_move_admin:
  assumes "role_move f f'" and "f (oid, u) = Some OrgRoleOrgAdmin"
  shows "\<exists>v. f' (oid, v) = Some OrgRoleOrgAdmin"
  using assms
proof (cases rule: role_move.cases)
  case (join o' uid r)
  then show ?thesis using assms(2) by (cases "o' = oid \<and> uid = u") auto
next
  case (change o' uid r r')
  then show ?thesis using assms(2) by (cases "o' = oid \<and> uid = u") auto
next
  case (leave o' uid r)
  then show ?thesis using assms(2) by (cases "o' = oid \<and> uid = u") auto
next
  case dismissed
  have "f' (oid, u) = f (oid, u)" by (rule ccontr) (use dismissed[of oid u] assms(2) in auto)
  then show ?thesis using assms(2) by auto
qed auto

subsection \<open>Changes of the tables\<close>

text \<open>Organisation ids are a primary key drawn from the sequence, and a membership is unique per organisation
  and user.\<close>

definition wf_db :: "db \<Rightarrow> bool" where
  "wf_db d \<longleftrightarrow> uniq d \<and> distinct (map o_ID (d_orgs d)) \<and> (\<forall>r\<in>set (d_orgs d). o_ID r \<le> d_seq d)
     \<and> (\<forall>m\<in>set (d_members d). mb_Org m \<le> d_seq d)"

inductive change :: "db \<Rightarrow> db \<Rightarrow> bool" where
  aside: "same_core d d' \<Longrightarrow> change d d'"
| enrol: "find_org d (mb_Org m) = Some r \<Longrightarrow> find_member d (mb_Org m) (mb_User m) = None \<Longrightarrow> \<not> seatFull d r \<Longrightarrow>
    change d (add_member m d)"
| edit: "(\<And>m. mb_Org (f m) = mb_Org m \<and> mb_User (f m) = mb_User m \<and> mb_Role (f m) = mb_Role m) \<Longrightarrow>
    change d (d\<lparr>d_members := map f (d_members d)\<rparr>)"
| appoint: "(roles d (oid, uid) = Some OrgRoleOrgAdmin \<Longrightarrow> r = OrgRoleOrgAdmin \<or> 1 < admins d oid) \<Longrightarrow>
    change d (set_role oid uid r d)"
| expel: "(roles d (oid, uid) = Some OrgRoleOrgAdmin \<Longrightarrow> 1 < admins d oid) \<Longrightarrow> change d (del_member oid uid d)"
| dismissal: "r \<in> {OrgRoleCaptain, OrgRoleGroupLeader} \<Longrightarrow> change d (dismiss oid uids r d)"
| configure: "(\<And>r. r \<in> set (d_orgs d) \<Longrightarrow> o_ID (f r) = o_ID r \<and> is_public (f r) = is_public r \<and> o_SeatLimit (f r) = o_SeatLimit r) \<Longrightarrow>
    change d (d\<lparr>d_orgs := map f (d_orgs d)\<rparr>)"
| found: "o_ID r = next_id d \<Longrightarrow> \<not> is_public r \<Longrightarrow> change d (create_tx r uid nm d)"

lemma uniq_keys: "map (\<lambda>m. (mb_Org m, mb_User m)) (d_members d') = map (\<lambda>m. (mb_Org m, mb_User m)) (d_members d) \<Longrightarrow>
    uniq d' = uniq d"
  by (simp only: uniq_def)

lemma add_member_roles:
  assumes "find_member d (mb_Org m) (mb_User m) = None"
  shows "roles (add_member m d) = (roles d)((mb_Org m, mb_User m) \<mapsto> mb_Role m)"
proof (rule ext, clarify)
  fix o' u'
  have "find P (xs @ [m]) = (case find P xs of None \<Rightarrow> if P m then Some m else None | Some x \<Rightarrow> Some x)" for P xs
    by (induction xs) auto
  then show "roles (add_member m d) (o', u') = ((roles d)((mb_Org m, mb_User m) \<mapsto> mb_Role m)) (o', u')"
    using assms by (auto simp: roles_def find_member_def add_member_def split: option.splits)
qed

lemma find_map: "find P (map f xs) = map_option f (find (\<lambda>x. P (f x)) xs)"
  by (induction xs) auto

lemma dismiss_roles:
  "roles (dismiss oid uids r d) (o', u') = (if o' = oid \<and> u' \<in> uids \<and> roles d (o', u') = Some r
     then Some OrgRoleMember else roles d (o', u'))"
proof -
  let ?f = "\<lambda>m. if mb_Org m = oid \<and> mb_User m \<in> uids \<and> mb_Role m = r then m\<lparr>mb_Role := OrgRoleMember\<rparr> else m"
  have P: "(\<lambda>x. mb_Org (?f x) = o' \<and> mb_User (?f x) = u') = (\<lambda>x. mb_Org x = o' \<and> mb_User x = u')"
    by (auto simp: fun_eq_iff)
  have "find_member (dismiss oid uids r d) o' u' = map_option ?f (find_member d o' u')"
    unfolding find_member_def dismiss_def by (simp add: find_map P)
  then show ?thesis using find_member_Some[of d o' u']
    by (cases "find_member d o' u'") (auto simp: roles_def)
qed


lemma map_member_roles:
  assumes "\<And>m. mb_Org (f m) = mb_Org m \<and> mb_User (f m) = mb_User m \<and> mb_Role (f m) = mb_Role m"
  shows "roles (d\<lparr>d_members := map f (d_members d)\<rparr>) = roles d"
proof -
  have "find_member (d\<lparr>d_members := map f (d_members d)\<rparr>) o' u' = map_option f (find_member d o' u')" for o' u'
    using assms by (simp add: find_member_def find_map)
  then show ?thesis
    using assms by (auto simp: roles_def fun_eq_iff option.map_comp comp_def intro!: option.map_cong)
qed

lemma same_core_roles: "same_core d d' \<Longrightarrow> roles d' = roles d"
  using roles_eq[of d' d] by (simp add: same_core_def)

lemma same_core_wf: "same_core d d' \<Longrightarrow> wf_db d \<Longrightarrow> wf_db d'"
  using uniq_eq[of d' d] by (fastforce simp: same_core_def wf_db_def)

lemma same_core_queries:
  "same_core d d' \<Longrightarrow> find_org d' oid = find_org d oid" "same_core d d' \<Longrightarrow> find_member d' oid uid = find_member d oid uid"
  by (simp_all add: same_core_def find_org_def find_member_def)

lemma same_core_seats:
  assumes "same_core d d'"
  shows "seatFull d' r = seatFull d r"
proof -
  have "known_user d' = known_user d" using assms unfolding known_user_def same_core_def by (metis set_map)
  then show ?thesis using assms by (simp add: same_core_def seatFull_def countOrgSeats_def)
qed

lemma create_tx_tables [simp]:
  "d_members (create_tx r uid nm d) = d_members d @
     [\<lparr>mb_Org = o_ID r, mb_User = uid, mb_Role = OrgRoleOrgAdmin, mb_Group = Some (next_id (drawn d)), mb_Display = nm\<rparr>]"
  "d_orgs (create_tx r uid nm d) = d_orgs d @ [r]" "d_seq (create_tx r uid nm d) = Suc (Suc (d_seq d))"
  "map u_ID (d_users (create_tx r uid nm d)) = map u_ID (d_users d)"
  by (simp_all add: create_tx_def Let_def add_group_def add_member_def upd_user_def drawn_def next_id_def)

lemma find_org_Some: "find_org d oid = Some r \<Longrightarrow> r \<in> set (d_orgs d) \<and> o_ID r = oid"
  by (auto simp: find_org_def find_Some_iff)

lemma fresh_org: "wf_db d \<Longrightarrow> find_member d (next_id d) uid = None"
  by (force simp: find_member_None isMemberDB_def next_id_def wf_db_def)

lemma change_uniq:
  assumes "change d d'" and "wf_db d"
  shows "uniq d'"
  using assms(1)
proof cases
  case (enrol m r)
  then have "(mb_Org m, mb_User m) \<notin> (\<lambda>m. (mb_Org m, mb_User m)) ` set (d_members d)"
    by (auto simp: find_member_None isMemberDB_def)
  then show ?thesis using assms(2) enrol by (simp add: wf_db_def uniq_def add_member_def)
next
  case (found r uid nm)
  then have "(o_ID r, uid) \<notin> (\<lambda>m. (mb_Org m, mb_User m)) ` set (d_members d)"
    using fresh_org[OF assms(2), of uid] by (fastforce simp: find_member_None isMemberDB_def)
  then show ?thesis using assms(2) found by (simp add: wf_db_def uniq_def)
next
  case (edit f)
  then have "map (\<lambda>m. (mb_Org m, mb_User m)) (d_members d') = map (\<lambda>m. (mb_Org m, mb_User m)) (d_members d)" by simp
  then have "uniq d' = uniq d" by (rule uniq_keys)
  then show ?thesis using assms(2) by (simp add: wf_db_def)
next
  case (dismissal r oid uids)
  then have "map (\<lambda>m. (mb_Org m, mb_User m)) (d_members d') = map (\<lambda>m. (mb_Org m, mb_User m)) (d_members d)"
    by (simp add: dismiss_def)
  then have "uniq d' = uniq d" by (rule uniq_keys)
  then show ?thesis using assms(2) by (simp add: wf_db_def)
next
  case aside
  then show ?thesis using assms(2) uniq_eq[of d' d] by (simp add: wf_db_def same_core_def)
next
  case configure
  then show ?thesis using assms(2) uniq_eq[of d' d] by (simp add: wf_db_def)
qed (use assms(2) in \<open>simp_all add: wf_db_def del_member_uniq\<close>)

lemma change_wf: "change d d' \<Longrightarrow> wf_db d \<Longrightarrow> wf_db d'"
proof -
  assume c: "change d d'" and w: "wf_db d"
  have "distinct (map o_ID (d_orgs d')) \<and> (\<forall>r\<in>set (d_orgs d'). o_ID r \<le> d_seq d')"
    using c
  proof cases
    case (configure f)
    then have "map o_ID (d_orgs d') = map o_ID (d_orgs d)" by simp
    then show ?thesis using w configure by (simp only: wf_db_def) auto
  qed (use w in \<open>force simp: wf_db_def same_core_def add_member_def set_role_def upd_member_def del_member_def dismiss_def next_id_def\<close>)+
  moreover have "\<forall>m\<in>set (d_members d'). mb_Org m \<le> d_seq d'"
    using c
  proof cases
    case (enrol m r)
    then show ?thesis using w find_org_Some[OF enrol(2)] by (auto simp: wf_db_def add_member_def)
  qed (use w in \<open>force simp: wf_db_def same_core_def set_role_def upd_member_def del_member_def dismiss_def next_id_def\<close>)+
  ultimately show ?thesis using change_uniq[OF c w] by (simp add: wf_db_def)
qed

lemma change_roles:
  assumes "change d d'" and "wf_db d"
  shows "role_move (roles d) (roles d')"
  using assms(1)
proof cases
  case (enrol m r)
  then show ?thesis by (auto simp: add_member_roles roles_None intro: role_move.join)
next
  case (appoint oid uid r)
  show ?thesis
  proof (cases "roles d (oid, uid)")
    case None
    then show ?thesis by (simp add: appoint set_role_roles role_move.stay)
  next
    case (Some s)
    have "role_move (roles d) ((roles d)((oid, uid) \<mapsto> r))"
      by (rule role_move.change[where r = s]) (use Some appoint(2) assms(2) another_admin in \<open>auto simp: wf_db_def\<close>)
    then show ?thesis using Some by (simp add: appoint set_role_roles)
  qed
next
  case (expel oid uid)
  show ?thesis
  proof (cases "roles d (oid, uid)")
    case None
    then have "roles d' = roles d" by (simp add: expel del_member_roles fun_upd_idem)
    then show ?thesis by (simp add: role_move.stay)
  next
    case (Some s)
    show ?thesis unfolding expel(1) del_member_roles
      by (rule role_move.leave[where r = s]) (use Some expel(2) assms(2) another_admin in \<open>auto simp: wf_db_def\<close>)
  qed
next
  case (dismissal r oid uids)
  show ?thesis by (rule role_move.dismissed) (use dismissal in \<open>auto simp: dismiss_roles split: if_splits\<close>)
next
  case (found r uid nm)
  let ?m = "\<lparr>mb_Org = o_ID r, mb_User = uid, mb_Role = OrgRoleOrgAdmin, mb_Group = Some (next_id (drawn d)), mb_Display = nm\<rparr>"
  have none: "find_member d (o_ID r) uid = None" using fresh_org[OF assms(2)] found by simp
  have "roles d' = roles (add_member ?m d)" unfolding found(1) by (rule roles_eq) (simp add: add_member_def)
  then show ?thesis using add_member_roles[of d ?m] none by (auto simp: roles_None intro: role_move.join)
next
  case aside
  then show ?thesis by (simp add: same_core_roles role_move.stay)
next
  case (edit f)
  then show ?thesis by (simp add: map_member_roles role_move.stay)
next
  case (configure f)
  have "roles d' = roles d" unfolding configure(1) by (rule roles_eq) simp
  then show ?thesis by (simp add: role_move.stay)
qed

subsection \<open>Seats\<close>

lemma seats_members_users:
  assumes "map (\<lambda>m. (mb_Org m, mb_User m)) (d_members d') = map (\<lambda>m. (mb_Org m, mb_User m)) (d_members d)"
    and "map u_ID (d_users d') = map u_ID (d_users d)" and "\<not> is_public r"
  shows "countOrgSeats d' r = countOrgSeats d r"
proof -
  have c: "countOrgSeats d r = length (filter (\<lambda>(i, u). i = o_ID r \<and> u \<in> set (map u_ID (d_users d)))
      (map (\<lambda>m. (mb_Org m, mb_User m)) (d_members d)))" for d
    using assms(3) by (simp add: countOrgSeats_def filter_map comp_def known_user_def)
  show ?thesis unfolding c assms(1,2) by (rule refl)
qed

lemma seats_key: "o_ID r' = o_ID r \<Longrightarrow> is_public r' = is_public r \<Longrightarrow> countOrgSeats d r' = countOrgSeats d r"
  by (simp add: countOrgSeats_def)

lemma seats_filter:
  "\<not> is_public r \<Longrightarrow> map u_ID (d_users d') = map u_ID (d_users d) \<Longrightarrow> d_members d' = filter P (d_members d) \<Longrightarrow>
   countOrgSeats d' r \<le> countOrgSeats d r"
proof -
  assume "\<not> is_public r" "map u_ID (d_users d') = map u_ID (d_users d)" and m: "d_members d' = filter P (d_members d)"
  moreover have "known_user d' = known_user d" using calculation(2) unfolding known_user_def by (metis set_map)
  moreover have "length (filter Q (filter P xs)) \<le> length (filter Q xs)" for Q and xs :: "member list"
    by (induction xs) auto
  ultimately show ?thesis by (simp add: countOrgSeats_def)
qed

text \<open>The limit of an organisation that is neither public nor new, and its seats after a change.\<close>

definition limit_kept :: "db \<Rightarrow> db \<Rightarrow> bool" where
  "limit_kept d d' \<longleftrightarrow> (\<forall>r\<in>set (d_orgs d). \<not> is_public r \<longrightarrow>
     (\<exists>r'\<in>set (d_orgs d'). o_ID r' = o_ID r \<and> \<not> is_public r' \<and> o_SeatLimit r' = o_SeatLimit r)
     \<and> int (countOrgSeats d' r) \<le> max (int (countOrgSeats d r)) (effectiveSeatLimit (o_SeatLimit r)))"

lemma limit_keptD:
  assumes "limit_kept d d'" and "r \<in> set (d_orgs d)" and "\<not> is_public r"
  obtains r' where "r' \<in> set (d_orgs d')" "o_ID r' = o_ID r" "\<not> is_public r'" "o_SeatLimit r' = o_SeatLimit r"
    "int (countOrgSeats d' r) \<le> max (int (countOrgSeats d r)) (effectiveSeatLimit (o_SeatLimit r))"
  using assms unfolding limit_kept_def by blast

lemma limit_kept_trans:
  assumes "limit_kept d d'" and "limit_kept d' d''"
  shows "limit_kept d d''"
  unfolding limit_kept_def
proof (intro ballI impI)
  fix r assume r: "r \<in> set (d_orgs d)" "\<not> is_public r"
  obtain r' where r': "r' \<in> set (d_orgs d')" "o_ID r' = o_ID r" "\<not> is_public r'" "o_SeatLimit r' = o_SeatLimit r"
      "int (countOrgSeats d' r) \<le> max (int (countOrgSeats d r)) (effectiveSeatLimit (o_SeatLimit r))"
    by (rule limit_keptD[OF assms(1) r])
  obtain r'' where r'': "r'' \<in> set (d_orgs d'')" "o_ID r'' = o_ID r'" "\<not> is_public r''" "o_SeatLimit r'' = o_SeatLimit r'"
      "int (countOrgSeats d'' r') \<le> max (int (countOrgSeats d' r')) (effectiveSeatLimit (o_SeatLimit r'))"
    by (rule limit_keptD[OF assms(2) r'(1,3)])
  have "countOrgSeats d'' r' = countOrgSeats d'' r" "countOrgSeats d' r' = countOrgSeats d' r"
    by (rule seats_key; use r' r in simp)+
  then show "(\<exists>r'\<in>set (d_orgs d''). o_ID r' = o_ID r \<and> \<not> is_public r' \<and> o_SeatLimit r' = o_SeatLimit r)
      \<and> int (countOrgSeats d'' r) \<le> max (int (countOrgSeats d r)) (effectiveSeatLimit (o_SeatLimit r))"
    using r' r'' by auto
qed

lemma limit_kept_same:
  "(\<And>r. \<not> is_public r \<Longrightarrow> countOrgSeats d' r \<le> countOrgSeats d r) \<Longrightarrow> set (d_orgs d) \<subseteq> set (d_orgs d') \<Longrightarrow> limit_kept d d'"
  by (fastforce simp: limit_kept_def)

lemma limit_kept_keys:
  "map (\<lambda>m. (mb_Org m, mb_User m)) (d_members d') = map (\<lambda>m. (mb_Org m, mb_User m)) (d_members d) \<Longrightarrow>
   map u_ID (d_users d') = map u_ID (d_users d) \<Longrightarrow> set (d_orgs d) \<subseteq> set (d_orgs d') \<Longrightarrow> limit_kept d d'"
  by (rule limit_kept_same) (auto dest: seats_members_users)

lemma seats_enrol:
  "\<not> is_public r \<Longrightarrow> countOrgSeats (add_member m d) r \<le> countOrgSeats d r + (if mb_Org m = o_ID r then 1 else 0)"
  by (simp add: countOrgSeats_def add_member_def known_user_def)

lemma change_limit:
  assumes "change d d'" and "wf_db d"
  shows "limit_kept d d'"
  using assms(1)
proof cases
  case aside
  then show ?thesis by (intro limit_kept_keys) (simp_all add: same_core_def)
next
  case (enrol m r0)
  have r0: "r0 \<in> set (d_orgs d)" "o_ID r0 = mb_Org m" using find_org_Some[OF enrol(2)] by simp_all
  have "int (countOrgSeats d' r) \<le> max (int (countOrgSeats d r)) (effectiveSeatLimit (o_SeatLimit r))"
    if r: "r \<in> set (d_orgs d)" "\<not> is_public r" for r
  proof (cases "mb_Org m = o_ID r")
    case True
    then have "r = r0" using r0 r(1) assms(2) unfolding wf_db_def by (metis distinct_map inj_onD)
    then show ?thesis using seats_enrol[OF r(2), of m d] True enrol(1,4) by (simp add: seatFull_def)
  qed (use seats_enrol[OF r(2), of m d] enrol(1) in simp)
  then show ?thesis using enrol(1) unfolding limit_kept_def by (auto simp: add_member_def)
next
  case (edit f)
  then show ?thesis by (intro limit_kept_keys) simp_all
next
  case (appoint oid uid r)
  then show ?thesis by (intro limit_kept_keys) (simp_all add: set_role_def upd_member_def)
next
  case (expel oid uid)
  then show ?thesis by (intro limit_kept_same seats_filter) (simp_all add: del_member_def)
next
  case (dismissal r oid uids)
  then show ?thesis by (intro limit_kept_keys) (simp_all add: dismiss_def)
next
  case (configure f)
  have "countOrgSeats d' r = countOrgSeats d r" if "\<not> is_public r" for r
    by (rule seats_members_users) (use that configure(1) in simp_all)
  then show ?thesis using configure unfolding limit_kept_def by (auto intro!: bexI)
next
  case (found r0 uid nm)
  let ?m = "\<lparr>mb_Org = o_ID r0, mb_User = uid, mb_Role = OrgRoleOrgAdmin, mb_Group = Some (next_id (drawn d)), mb_Display = nm\<rparr>"
  have "countOrgSeats d' r = countOrgSeats (add_member ?m d) r" if "\<not> is_public r" for r
    by (rule seats_members_users) (use that found(1) in \<open>simp_all add: add_member_def\<close>)
  moreover have "o_ID r \<noteq> o_ID r0" if "r \<in> set (d_orgs d)" for r
    using assms(2) that found(2) by (force simp: wf_db_def next_id_def)
  ultimately have "countOrgSeats d' r \<le> countOrgSeats d r" if "\<not> is_public r" "r \<in> set (d_orgs d)" for r
    using seats_enrol[OF that(1), of ?m d] that by force
  then show ?thesis using found(1) unfolding limit_kept_def by (fastforce intro!: bexI)
qed

end
