(* ===== verification/OrgSafety.thy ===== *)
theory OrgSafety
  imports OrgSpec
begin

text \<open>
  Every handler of organisations, groups and squads is a sequence of changes (\<open>moved\<close>); the deletion of an
  organisation and the change of its configuration, which can lower the seat limit, are treated on their own.
  A step of the system is one handler with any arguments and any failing writes.
\<close>

subsection \<open>Sequences of changes\<close>

definition moved :: "db \<Rightarrow> db \<Rightarrow> bool" where
  "moved d d' \<longleftrightarrow> wf_db d' \<and> change\<^sup>*\<^sup>* d d'"

lemma moved_change: "change d d' \<Longrightarrow> wf_db d \<Longrightarrow> moved d d'"
  by (simp add: moved_def change_wf r_into_rtranclp)

lemma moved_id [intro, simp]: "wf_db d \<Longrightarrow> moved d d"
  by (simp add: moved_def)

lemma moved_core: "same_core d d' \<Longrightarrow> wf_db d \<Longrightarrow> moved d d'"
  by (blast intro: moved_change change.aside)

lemma moved_trans: "moved d d' \<Longrightarrow> moved d' d'' \<Longrightarrow> moved d d''"
  by (auto simp: moved_def)

lemma moved_wf: "moved d d' \<Longrightarrow> wf_db d'"
  by (simp add: moved_def)

lemma moved_then_core: "moved d d' \<Longrightarrow> same_core d' d'' \<Longrightarrow> moved d d''"
  using moved_trans moved_core moved_wf by blast

lemma upd_member_moved:
  assumes "\<And>m. mb_Org (f m) = mb_Org m \<and> mb_User (f m) = mb_User m \<and> mb_Role (f m) = mb_Role m" and "wf_db d"
  shows "moved d (upd_member oid uid f d)"
  unfolding upd_member_def by (intro moved_change change.edit assms(2)) (use assms(1) in auto)

lemma set_role_moved:
  "wf_db d \<Longrightarrow> (roles d (oid, uid) = Some OrgRoleOrgAdmin \<Longrightarrow> r = OrgRoleOrgAdmin \<or> 1 < admins d oid) \<Longrightarrow>
   moved d (set_role oid uid r d)"
  by (blast intro: moved_change change.appoint)

lemma del_member_moved:
  "wf_db d \<Longrightarrow> (roles d (oid, uid) = Some OrgRoleOrgAdmin \<Longrightarrow> 1 < admins d oid) \<Longrightarrow> moved d (del_member oid uid d)"
  by (blast intro: moved_change change.expel)

lemma add_member_moved:
  "wf_db d \<Longrightarrow> find_org d (mb_Org m) = Some r \<Longrightarrow> find_member d (mb_Org m) (mb_User m) = None \<Longrightarrow> \<not> seatFull d r \<Longrightarrow>
   moved d (add_member m d)"
  by (blast intro: moved_change change.enrol)

lemma upd_org_moved:
  assumes "wf_db d" and "\<And>r. r \<in> set (d_orgs d) \<Longrightarrow> o_ID r = oid \<Longrightarrow>
      o_ID (f r) = o_ID r \<and> is_public (f r) = is_public r \<and> o_SeatLimit (f r) = o_SeatLimit r"
  shows "moved d (upd_org oid f d)"
  unfolding upd_org_def by (intro moved_change change.configure assms(1)) (use assms(2) in auto)

lemma exec_moved: "exec fl lbl f d = (d', ok) \<Longrightarrow> wf_db d \<Longrightarrow> moved d (f d) \<Longrightarrow> moved d d'"
  by (auto simp: exec_eq split: if_splits)

lemma put_moved: "wf_db d \<Longrightarrow> moved d (f d) \<Longrightarrow> moved d (put fl lbl f d)"
  by (simp add: exec_def)

lemma join_group_moved:
  assumes "join_group fl oid k d = (d', res)" and "wf_db d"
    and "\<And>gid d1 d2 res. same_core d d1 \<Longrightarrow> k gid d1 = (d2, res) \<Longrightarrow> moved d1 d2"
  shows "moved d d'"
proof (cases "default_group d oid")
  case (Some g)
  then show ?thesis using assms(1) assms(3)[of d "g_ID g" d' res] by (simp add: join_group_def)
next
  case None
  obtain d1 ok where e: "exec fl ''groups.create'' (add_group oid DefaultGroupName) d = (d1, ok)" by fastforce
  have c: "same_core d d1" by (rule same_core_exec[OF e]) simp
  show ?thesis
  proof (cases ok)
    case True
    obtain d2 r2 where k: "k (next_id d) d1 = (d2, r2)" by fastforce
    have "moved d d2" using moved_trans[OF moved_core[OF c assms(2)] assms(3)[OF c k]] .
    then show ?thesis using assms(1,2) None e True k by (cases r2) (simp_all add: join_group_def case_unit_Unity)
  next
    case False
    then show ?thesis using assms(1,2) None e by (simp add: join_group_def)
  qed
qed

lemma add_member_tx_moved:
  assumes "add_member_tx fl oid uid role display d = (d', res)" and "wf_db d"
  shows "moved d d'"
proof -
  have g: "moved d1 d2" if "(case exec fl ''members.group'' (upd_member oid uid (\<lambda>x. x\<lparr>mb_Group := Some gid\<rparr>)) d1 of
       (d1, ok) \<Rightarrow> (d1, if ok then Inr () else Inl ''db'')) = (d2, res)" "same_core d d1" for gid d1 d2 res
  proof -
    have "wf_db d1" using same_core_wf[OF that(2) assms(2)] .
    then show ?thesis using that(1) exec_moved upd_member_moved by (fastforce split: prod.splits)
  qed
  have c: "moved d1 d2" if "(case exec fl ''members.create'' (add_member \<lparr>mb_Org = oid, mb_User = uid, mb_Role = rl,
         mb_Group = Some gid, mb_Display = nm\<rparr>) d1 of (d1, ok) \<Rightarrow> (d1, if ok then Inr () else Inl ''db'')) = (d2, res)"
      "same_core d d1" "find_member d oid uid = None" "find_org d oid = Some r" "\<not> seatFull d r" for rl nm gid d1 d2 res r
  proof -
    have u: "wf_db d1" using same_core_wf[OF that(2) assms(2)] .
    have "moved d1 (add_member \<lparr>mb_Org = oid, mb_User = uid, mb_Role = rl, mb_Group = Some gid, mb_Display = nm\<rparr> d1)"
      by (rule add_member_moved[OF u, of _ r]) (use that same_core_queries[OF that(2)] same_core_seats[OF that(2)] in simp_all)
    then show ?thesis using that(1) exec_moved[OF _ u] by (auto split: prod.splits)
  qed
  show ?thesis
    using assms unfolding add_member_tx_def
    by (auto split: option.splits if_splits elim!: join_group_moved intro: g c)
qed

lemma addOrgMemberAtomic_moved:
  assumes "addOrgMemberAtomic fl oid uid role display d = (d', res)" and "wf_db d"
  shows "moved d d'"
proof -
  obtain d1 r1 where t: "add_member_tx fl oid uid role display d = (d1, r1)" by fastforce
  have m: "moved d d1" using add_member_tx_moved[OF t assms(2)] .
  then have "moved d (SyncProblemPipelineOverrides fl uid (syncOrgMemberSystemRole fl oid uid d1))"
    using moved_then_core same_core_trans[OF same_core_sync same_core_overrides(1)] by blast
  then show ?thesis using assms(1) t m by (cases r1) (auto simp: addOrgMemberAtomic_def case_unit_Unity)
qed


lemma moved_exec_core:
  "exec fl lbl f d = (d', ok) \<Longrightarrow> same_core d (f d) \<Longrightarrow> wf_db d \<Longrightarrow> moved d d'"
  using same_core_exec moved_core by blast

lemma Create_moved:
  assumes "Create pd req i1 i2 fl d = (d', res)" and "wf_db d"
  shows "moved d d'"
proof (cases "d' = d")
  case False
  then obtain r uid where c: "create_org fl r uid d = (d', res)" and r: "o_ID r = next_id d" "\<not> is_public r"
    using assms(1) unfolding Create_def Let_def
    by (auto simp: new_org_def is_public_def split: option.splits if_split_asm)
  have "moved d (create_tx r uid (display_name d uid) d)" by (intro moved_change change.found r assms(2))
  then show ?thesis using c assms(2) moved_then_core
    by (auto simp: create_org_def exec_eq split: prod.splits bool.splits if_splits)
qed (use assms(2) in simp)

lemma Join_moved:
  assumes "Join pd c n fl d = (d', res)" and "wf_db d"
  shows "moved d d'"
proof (cases "d' = d")
  case False
  then consider (req) f lbl ok where "exec fl lbl f d = (d', ok)" "same_core d (f d)"
    | (add) oid uid nm r where "addOrgMemberAtomic fl oid uid OrgRoleMember nm d = (d', r)"
    using assms(1) unfolding Join_def Let_def
    by (fastforce split: option.splits if_splits prod.splits sum.splits unit.splits)
  then show ?thesis using moved_exec_core addOrgMemberAtomic_moved assms(2) by cases blast+
qed (use assms(2) in simp)

lemma same_core_public: "switch_to_public fl oid uid now d = (d', tok) \<Longrightarrow> same_core d d'"
proof -
  assume s: "switch_to_public fl oid uid now d = (d', tok)"
  have u: "same_core d (put fl l (upd_user i (\<lambda>x. x\<lparr>u_CurrentOrgID := c\<rparr>)) d)" for l i c
    by (rule same_core_put) (simp add: same_core_upd_user)
  then have "same_core d (fst (IssueJWT fl now v (put fl l (upd_user i (\<lambda>x. x\<lparr>u_CurrentOrgID := c\<rparr>)) d)))" for l i c v
    using same_core_trans[OF u same_core_issue] by (metis surjective_pairing)
  then show ?thesis
    using s unfolding switch_to_public_def by (auto split: option.splits if_splits prod.splits) (metis fst_conv)+
qed

text \<open>Deleting a membership that may be deleted.\<close>

lemma delete_moved:
  assumes "exec fl lbl (del_member oid uid) d = (d', ok)" and "wf_db d"
    and "(case find_member d oid uid of None \<Rightarrow> False | Some m \<Rightarrow> mb_Role m = OrgRoleOrgAdmin) \<Longrightarrow> 1 < admins d oid"
  shows "moved d d'"
  by (rule exec_moved[OF assms(1,2)], rule del_member_moved[OF assms(2)]) (use assms(3) in \<open>auto simp: roles_Some\<close>)

lemma Leave_moved:
  assumes "Leave pd oid now fl d = (d', res)" and "wf_db d"
  shows "moved d d'"
proof (cases "d' = d")
  case False
  obtain p where p: "pd = Some p" using False assms(1) by (cases pd) (auto simp: Leave_def)
  obtain d1 ok where e: "exec fl ''members.delete'' (del_member oid (UserID p)) d = (d1, ok)" by fastforce
  obtain d2 tok where s: "switch_to_public fl oid (UserID p) now (syncOrgMemberSystemRole fl oid (UserID p)
      (SyncProblemPipelineOverrides fl (UserID p) d1)) = (d2, tok)"
    by fastforce
  have g: "(case find_member d oid (UserID p) of None \<Rightarrow> False | Some m \<Rightarrow> mb_Role m = OrgRoleOrgAdmin) \<Longrightarrow> 1 < admins d oid"
    and d': "d' = d1 \<or> d' = d2"
    using assms(1) False p e s unfolding Leave_def by (auto simp: not_le split: option.splits if_split_asm bool.splits)
  have m: "moved d d1" using delete_moved[OF e assms(2)] g by blast
  then have "moved d d2" using moved_then_core same_core_trans[OF same_core_overrides(1) same_core_trans[OF same_core_sync same_core_public[OF s]]] by blast
  then show ?thesis using d' m by blast
qed (use assms(2) in simp)


lemma find_org_same: "wf_db d \<Longrightarrow> find_org d oid = Some r \<Longrightarrow> x \<in> set (d_orgs d) \<Longrightarrow> o_ID x = oid \<Longrightarrow> x = r"
  using find_org_Some[of d oid r] unfolding wf_db_def by (auto simp: distinct_map dest: inj_onD)

lemma find_org_in: "wf_db d \<Longrightarrow> r \<in> set (d_orgs d) \<Longrightarrow> find_org d (o_ID r) = Some r"
  using find_org_same[of d "o_ID r"] by (cases "find_org d (o_ID r)") (auto simp: find_org_def find_None_iff)

lemma org_by_code_found: "wf_db d \<Longrightarrow> org_by_code d c = Some r \<Longrightarrow> find_org d (o_ID r) = Some r"
  by (rule find_org_in) (auto simp: org_by_code_def find_Some_iff)

lemma applyInviteOnRegister_moved:
  assumes "applyInviteOnRegister f32 uid c n fl d = (d', res)" and "wf_db d"
  shows "moved d d'"
proof (cases "d' = d")
  case False
  have k: "moved d1 d2" if "(case exec fl lbl (\<lambda>d. upd_user uid (\<lambda>u. u\<lparr>u_CurrentOrgID := i\<rparr>) (add_member
         \<lparr>mb_Org = i, mb_User = uid, mb_Role = rl, mb_Group = Some gid, mb_Display = nm\<rparr> d)) d1 of
         (d1, ok) \<Rightarrow> (d1, if ok then Inr () else Inl ''db'')) = (d2, r2)"
      "same_core d d1" "find_member d i uid = None" "find_org d i = Some r" "\<not> seatFull d r" for lbl rl i nm gid d1 d2 r2 r
  proof -
    let ?m = "\<lparr>mb_Org = i, mb_User = uid, mb_Role = rl, mb_Group = Some gid, mb_Display = nm\<rparr>"
    have u: "wf_db d1" using same_core_wf[OF that(2) assms(2)] .
    have "moved d1 (add_member ?m d1)"
      by (rule add_member_moved[OF u, of _ r]) (use that same_core_queries[OF that(2)] same_core_seats[OF that(2)] in simp_all)
    then have "moved d1 (upd_user uid (\<lambda>u. u\<lparr>u_CurrentOrgID := i\<rparr>) (add_member ?m d1))"
      by (rule moved_then_core) (simp add: same_core_upd_user)
    then show ?thesis using that(1) exec_moved[OF _ u] by (auto split: prod.splits)
  qed
  have j: "moved d d'" if "join_group fl i (\<lambda>gid d. case exec fl lbl (\<lambda>d. upd_user uid (\<lambda>u. u\<lparr>u_CurrentOrgID := i\<rparr>) (add_member
         \<lparr>mb_Org = i, mb_User = uid, mb_Role = rl, mb_Group = Some gid, mb_Display = nm\<rparr> d)) d of
         (d1, ok) \<Rightarrow> (d1, if ok then Inr () else Inl ''db'')) d = (d', res)" "find_member d i uid = None" "find_org d i = Some r" "\<not> seatFull d r" for lbl rl i nm res r
    by (rule join_group_moved[OF that(1) assms(2)]) (use k that(2-) in blast)
  have s: "same_core d (put fl l (upd_user uid (\<lambda>u. u\<lparr>u_CurrentOrgID := c\<rparr>)) d)" "same_core d (put fl l (reopen_request q cc nn) d)" for l c q cc nn
    by (rule same_core_put, simp add: same_core_upd_user)+
  note cases = option.splits if_split_asm prod.splits sum.splits unit.splits
  show ?thesis
    using assms False unfolding applyInviteOnRegister_def Let_def
    by (auto split: cases intro: moved_core[OF s(1)] moved_core[OF s(2)] j org_by_code_found dest!: moved_exec_core)
qed (use assms(2) in simp)

text \<open>A membership and whatever follows it that touches neither memberships nor organisations.\<close>

lemma add_then_core:
  assumes "(case addOrgMemberAtomic fl oid uid rl nm d of (d1, Inl e) \<Rightarrow> (d1, Inl e) | (d1, Inr ()) \<Rightarrow> (g d1, Inr x)) = (d', res)"
    and "wf_db d" and "\<And>d1. same_core d1 (g d1)"
  shows "moved d d'"
proof -
  obtain d1 r where a: "addOrgMemberAtomic fl oid uid rl nm d = (d1, r)" by fastforce
  have "moved d d1" using addOrgMemberAtomic_moved[OF a assms(2)] .
  then have "moved d d1 \<and> moved d (g d1)" using moved_then_core assms(3) by blast
  then show ?thesis using assms(1) a by (cases r) (auto simp: case_unit_Unity)
qed

lemma AddMember_moved:
  assumes "AddMember like pd oid u n role nm fl d = (d', res)" and "wf_db d"
  shows "moved d d'"
proof (cases "d' = d")
  case False
  then obtain uid where a: "(case addOrgMemberAtomic fl oid uid (valid_role role) (given_name d uid nm) d of
       (d1, Inl e) \<Rightarrow> (d1, Inl e) | (d1, Inr ()) \<Rightarrow> (setDefaultOrg fl uid oid d1, Inr uid)) = (d', res)"
    using assms(1) unfolding AddMember_def by (cases pd; cases "resolve_user like d u n") (auto split: if_split_asm)
  show ?thesis by (rule add_then_core[OF a assms(2)]) simp
qed (use assms(2) in simp)

lemma InviteUser_moved: "InviteUser like pd oid u n role nm fl d = (d', res) \<Longrightarrow> wf_db d \<Longrightarrow> moved d d'"
  unfolding InviteUser_def Let_def
  by (auto split: option.splits if_split_asm prod.splits sum.splits dest!: moved_exec_core)

lemma same_core_put_invite: "same_core d (put fl l (upd_invite i f) d)" "same_core d (put fl l (upd_request i g) d)"
  by (rule same_core_put, simp)+

lemma accept_invite_moved: "accept_invite fl v d = (d', res) \<Longrightarrow> wf_db d \<Longrightarrow> moved d d'"
  unfolding accept_invite_def
  by (erule add_then_core) (auto intro: same_core_trans[OF same_core_default(1) same_core_put_invite(1)])

lemma InviteReview_moved: "InviteReview pd i ok fl d = (d', res) \<Longrightarrow> wf_db d \<Longrightarrow> moved d d'"
  using moved_core[OF same_core_put_invite(1)] accept_invite_moved unfolding InviteReview_def
  by (fastforce split: option.splits if_split_asm)

lemma InviteCancel_moved: "InviteCancel pd i fl d = (d', res) \<Longrightarrow> wf_db d \<Longrightarrow> moved d d'"
  using moved_core[OF same_core_put_invite(1)] unfolding InviteCancel_def
  by (auto split: option.splits if_split_asm)

lemma same_core_review: "same_core d (review_request fl i u st d)"
  unfolding review_request_def by (rule same_core_put_invite)

lemma admit_request_moved: "admit_request fl u q d = (d', res) \<Longrightarrow> wf_db d \<Longrightarrow> moved d d'"
  unfolding admit_request_def
  by (erule add_then_core) (auto intro: same_core_trans[OF same_core_default(1) same_core_review])

lemma JoinReview_moved: "JoinReview pd i ok fl d = (d', res) \<Longrightarrow> wf_db d \<Longrightarrow> moved d d'"
  using moved_core[OF same_core_review] admit_request_moved unfolding JoinReview_def
  by (fastforce split: option.splits if_split_asm)

lemma InviteRotate_moved: "InviteRotate pd o' c fl d = (d', res) \<Longrightarrow> wf_db d \<Longrightarrow> moved d d'"
  using exec_moved upd_org_moved[of d o' "\<lambda>r. r\<lparr>o_InviteCode := c\<rparr>"] upd_org_moved[of d _ "\<lambda>r. r\<lparr>o_InviteCode := c\<rparr>"]
  unfolding InviteRotate_def Let_def
  by (fastforce simp: is_public_def split: option.splits if_split_asm prod.splits)

lemma SetDisplayName_moved:
  assumes "SetDisplayName pd oid u n fl d = (d', res)" and "wf_db d"
  shows "moved d d'"
proof (cases "d' = d")
  case False
  then obtain uid name d1 ok where e: "exec fl ''members.display'' (upd_member oid uid (\<lambda>m. m\<lparr>mb_Display := name\<rparr>)) d = (d1, ok)"
      and d': "d' = d1 \<or> d' = put fl ''users.name'' (upd_user uid (\<lambda>u. u\<lparr>u_Name := name\<rparr>)) d1"
    using assms(1) unfolding SetDisplayName_def Let_def
    by (auto split: option.splits if_split_asm prod.splits bool.splits)
  have m: "moved d d1" by (rule exec_moved[OF e assms(2)], rule upd_member_moved) (use assms(2) in simp_all)
  have "same_core d1 (put fl ''users.name'' (upd_user uid (\<lambda>u. u\<lparr>u_Name := name\<rparr>)) d1)"
    by (rule same_core_put) (simp add: same_core_upd_user)
  then show ?thesis using d' m moved_then_core by blast
qed (use assms(2) in simp)

lemma SetSiteAdmin_moved:
  assumes "SetSiteAdmin pd u flag fl d = (d', res)" and "wf_db d"
  shows "moved d d'"
proof -
  have "same_core d (upd_user u (\<lambda>x. x\<lparr>u_IsSiteAdmin := flag, u_RoleID := r\<rparr>) d)" for r
    by (rule same_core_upd_user) simp
  then have "same_core d d'"
    using assms(1) unfolding SetSiteAdmin_def
    by (auto split: if_split_asm prod.splits bool.splits dest!: same_core_exec intro: same_core_trans)
  then show ?thesis using assms(2) by (rule moved_core)
qed


subsection \<open>Appointments, removals, groups and squads\<close>

lemma sync_roles:
  assumes "syncRoleFromGrants fl oid uid hint d = (d', final)" and "wf_db d"
  shows "moved d d'"
proof -
  let ?cur = "current_role d oid uid hint"
  let ?f = "EffectiveRoleFromGrants ?cur (has_grant d oid uid ScopeTypeGroup) (has_grant d oid uid ScopeTypeSquad)"
  have "moved d (set_role oid uid ?f d)"
    by (rule set_role_moved[OF assms(2)]) (auto simp: roles_Some EffectiveRoleFromGrants_def current_role_def)
  then have "moved d (if ?f \<noteq> ?cur then put fl ''members.role'' (set_role oid uid ?f) d else d)"
    using put_moved[OF assms(2)] assms(2) by simp
  moreover have "d' = syncOrgMemberSystemRole fl oid uid (if ?f \<noteq> ?cur then put fl ''members.role'' (set_role oid uid ?f) d else d)"
    using assms(1) unfolding syncRoleFromGrants_def Let_def by blast
  ultimately show ?thesis using moved_then_core by simp
qed

lemma remove_scope_moved:
  assumes "remove_scope p q site ar tc inOrg fl d = (d', res)" and "wf_db d"
  shows "moved d d'"
proof (cases "d' = d")
  case False
  then obtain P where s: "\<exists>final. syncRoleFromGrants fl (sr_Org q) (sr_User q) tc (put fl ''grants.delete'' (del_grants P) d) = (d', final)"
    using assms(1) unfolding remove_scope_def Let_def by (auto split: if_split_asm prod.splits)
  have c: "same_core d (put fl ''grants.delete'' (del_grants P) d)" by (rule same_core_put) simp
  have "wf_db (put fl ''grants.delete'' (del_grants P) d)" using same_core_wf[OF c assms(2)] .
  then show ?thesis using s sync_roles moved_trans[OF moved_core[OF c assms(2)]] by blast
qed (use assms(2) in simp)

lemma enter_moved: "enter inOrg fl oid uid role d = (d', res) \<Longrightarrow> wf_db d \<Longrightarrow> moved d d'"
  unfolding enter_def by (cases inOrg) (auto intro: add_then_core)

lemma give_scope_cases:
  assumes "give_scope fl q st tc d = (d', res)"
  obtains (failed) "same_core d d'"
    | (given) d1 d2 final where "addUserScopeGrant fl (sr_Org q) (sr_User q) st (sr_Scope q) d = (d1, True)"
      "d2 = join_squad fl q d1" "syncRoleFromGrants fl (sr_Org q) (sr_User q) (base_role q tc) d2 = (d', final)"
proof -
  obtain d1 ok where g: "addUserScopeGrant fl (sr_Org q) (sr_User q) st (sr_Scope q) d = (d1, ok)" by fastforce
  show ?thesis
  proof (cases ok)
    case True
    then show ?thesis using assms g given by (auto simp: give_scope_def split: prod.splits)
  next
    case False
    then show ?thesis using assms g failed same_core_grant[OF g] by (simp add: give_scope_def)
  qed
qed

lemma same_core_join_squad [simp]: "same_core d (join_squad fl q d)"
  unfolding join_squad_def by (auto intro: same_core_put)

lemma give_scope_moved:
  assumes "give_scope fl q st tc d = (d', res)" and "wf_db d"
  shows "moved d d'"
  using assms(1)
proof (cases rule: give_scope_cases)
  case failed
  then show ?thesis using assms(2) moved_core by blast
next
  case (given d1 d2 final)
  have "same_core d d2" using same_core_trans[OF same_core_grant[OF given(1)]] given(2) by simp
  then have m: "moved d d2" using assms(2) by (rule moved_core)
  show ?thesis using moved_trans[OF m sync_roles[OF given(3) moved_wf[OF m]]] .
qed

lemma appoint_scoped_moved:
  assumes "appoint_scoped p q site ar tc inOrg fl d = (d', res)" and "wf_db d"
  shows "moved d d'"
proof -
  obtain d1 r1 where e: "enter inOrg fl (sr_Org q) (sr_User q) OrgRoleMember d = (d1, r1)" by fastforce
  have m: "moved d d1" using enter_moved[OF e assms(2)] .
  have "d' = d \<or> d' = d1 \<or> (\<exists>st r. give_scope fl q st tc d1 = (d', r))"
    using assms(1) e unfolding appoint_scoped_def Let_def
    by (cases r1) (auto simp: case_unit_Unity split: if_split_asm)
  then show ?thesis using assms(2) m moved_trans[OF m give_scope_moved] moved_wf[OF m] by blast
qed

lemma appoint_plain_moved:
  assumes "appoint_plain q inOrg fl d = (d', res)" and "wf_db d"
    and "roles d (sr_Org q, sr_User q) = Some OrgRoleOrgAdmin \<Longrightarrow> sr_Role q = OrgRoleOrgAdmin \<or> 1 < admins d (sr_Org q)"
  shows "moved d d'"
proof -
  let ?oid = "sr_Org q" and ?uid = "sr_User q"
  obtain d1 ok where x: "exec fl ''members.role'' (set_role ?oid ?uid (sr_Role q)) d = (d1, ok)" by fastforce
  obtain d2 r2 where a: "enter inOrg fl ?oid ?uid (sr_Role q) d = (d2, r2)" by fastforce
  have m1: "moved d d1" by (rule exec_moved[OF x assms(2)], rule set_role_moved[OF assms(2)]) (rule assms(3))
  have m2: "moved d d2" using enter_moved[OF a assms(2)] .
  have m1': "moved d (syncOrgMemberSystemRole fl ?oid ?uid d1)" using moved_then_core[OF m1] by simp
  have m1'': "moved d (replaceUserScopeGrants fl ?oid ?uid [] (syncOrgMemberSystemRole fl ?oid ?uid d1))"
    using moved_then_core[OF m1'] by simp
  have m2': "moved d (replaceUserScopeGrants fl ?oid ?uid [] d2)" using moved_then_core[OF m2] by simp
  show ?thesis
  proof (cases inOrg)
    case True
    then show ?thesis using assms(1) x m1 m1'' unfolding appoint_plain_def Let_def
      by (cases ok) (simp_all add: case_unit_Unity)
  next
    case False
    have "d' = d2 \<or> d' = replaceUserScopeGrants fl ?oid ?uid [] d2"
      using assms(1) False a unfolding appoint_plain_def Let_def
      by (cases r2) (auto simp: case_unit_Unity)
    then show ?thesis using m2 m2' by blast
  qed
qed

lemma SetRole_moved:
  assumes "SetRole pd q fl d = (d', res)" and "wf_db d"
  shows "moved d d'"
proof (cases "d' = d")
  case False
  have g: "roles d (sr_Org q, sr_User q) = Some OrgRoleOrgAdmin \<Longrightarrow> sr_Role q = OrgRoleOrgAdmin \<or> 1 < admins d (sr_Org q)"
    using assms(1) False unfolding SetRole_def Let_def
    by (cases pd) (auto simp: roles_Some not_le simp del: split_paired_Ex split: if_split_asm)
  then show ?thesis
    using assms False remove_scope_moved[OF _ assms(2)] appoint_scoped_moved[OF _ assms(2)] appoint_plain_moved[OF _ assms(2) g]
    unfolding SetRole_def Let_def by (cases pd) (auto split: if_split_asm)
qed (use assms(2) in simp)

lemma RemoveMember_moved:
  assumes "RemoveMember pd oid uid fl d = (d', res)" and "wf_db d"
  shows "moved d d'"
proof (cases "d' = d")
  case False
  obtain d1 ok where e: "exec fl ''members.delete'' (del_member oid uid) d = (d1, ok)" by fastforce
  have g: "(case find_member d oid uid of None \<Rightarrow> False | Some m \<Rightarrow> mb_Role m = OrgRoleOrgAdmin) \<Longrightarrow> 1 < admins d oid"
    and d': "d' = d1 \<or> d' = SyncProblemPipelineOverrides fl uid (fallbackDefaultOrgIf fl uid oid (syncOrgMemberSystemRole fl oid uid d1))"
    using assms(1) False e unfolding RemoveMember_def Let_def
    by (auto simp: not_le split: option.splits if_split_asm bool.splits)
  have m: "moved d d1" using delete_moved[OF e assms(2)] g by blast
  then have "moved d (SyncProblemPipelineOverrides fl uid (fallbackDefaultOrgIf fl uid oid (syncOrgMemberSystemRole fl oid uid d1)))"
    using moved_then_core same_core_trans[OF same_core_sync same_core_trans[OF same_core_default(2) same_core_overrides(1)]] by blast
  then show ?thesis using d' m by blast
qed (use assms(2) in simp)


lemma opt_upd_keeps: "(\<And>v x. g (f v x) = g x) \<Longrightarrow> g (opt_upd w f x) = g x"
  by (cases w) (simp_all add: opt_upd_def)

lemma org_updates_key:
  "o_ID (opt_upd w f x) = o_ID x" if "\<And>v x. o_ID (f v x) = o_ID x" for f :: "'a \<Rightarrow> org \<Rightarrow> org"
  using that by (rule opt_upd_keeps)

lemma org_updates_public:
  "is_public (opt_upd w f x) = is_public x" if "\<And>v x. is_public (f v x) = is_public x" for f :: "'a \<Rightarrow> org \<Rightarrow> org"
  using that by (rule opt_upd_keeps)

lemma is_public_simps:
  "is_public (x\<lparr>o_Name := s1\<rparr>) = is_public x" "is_public (x\<lparr>o_JoinMode := s2\<rparr>) = is_public x"
  "is_public (x\<lparr>o_BrandFavicon := s3\<rparr>) = is_public x" "is_public (x\<lparr>o_BrandLogo := s4\<rparr>) = is_public x"
  "is_public (x\<lparr>o_BrandTitle := s5\<rparr>) = is_public x" "is_public (x\<lparr>o_EnableSpider := b1\<rparr>) = is_public x"
  "is_public (x\<lparr>o_EnableAIWeeklyEmail := b2\<rparr>) = is_public x" "is_public (x\<lparr>o_EnableAIEmail := b3\<rparr>) = is_public x"
  "is_public (x\<lparr>o_EnableAiAnalyze := b4\<rparr>) = is_public x" "is_public (x\<lparr>o_EnableFetchProblem := b5\<rparr>) = is_public x"
  "is_public (x\<lparr>o_ForceSync := b6\<rparr>) = is_public x" "is_public (x\<lparr>o_SeatLimit := i1\<rparr>) = is_public x"
  "is_public (x\<lparr>o_AIEmailSchedule := s6\<rparr>) = is_public x" "is_public (x\<lparr>o_SpiderIntervalMin := i2\<rparr>) = is_public x"
  "is_public (x\<lparr>o_Status := s7\<rparr>) = is_public x"
  by (simp_all add: is_public_def)

lemma info_updates_key: "o_ID (info_updates q c r) = o_ID r \<and> is_public (info_updates q c r) = is_public r"
  by (simp add: info_updates_def org_updates_key org_updates_public is_public_simps)

lemma toggle_updates_key: "o_ID (toggle_updates q r) = o_ID r \<and> is_public (toggle_updates q r) = is_public r"
  by (simp add: toggle_updates_def org_updates_key org_updates_public is_public_simps)

lemma policy_updates_key: "policy_updates q r = Inr r' \<Longrightarrow> o_ID r' = o_ID r \<and> is_public r' = is_public r"
  unfolding policy_updates_def
  by (simp split: if_split_asm, erule subst) (simp add: org_updates_key org_updates_public is_public_simps)

lemma same_core_weekly [simp]: "same_core d (forceOffWeeklyEmailWithoutOrgGrant fl oid d)"
  unfolding forceOffWeeklyEmailWithoutOrgGrant_def by (rule same_core_put) (simp add: same_core_def)

lemma Switch_moved:
  assumes "Switch pd oid now fl d = (d', res)" and "wf_db d"
  shows "moved d d'"
proof -
  have u: "same_core d (put fl l (upd_user i (\<lambda>x. x\<lparr>u_CurrentOrgID := c\<rparr>)) d)" for l i c
    by (rule same_core_put) (simp add: same_core_upd_user)
  have "same_core d d'"
    using assms(1) same_core_trans[OF u same_core_issue] unfolding Switch_def Let_def
    by (auto split: option.splits if_split_asm prod.splits)
  then show ?thesis using assms(2) by (rule moved_core)
qed

lemma dismiss_moved: "wf_db d \<Longrightarrow> r \<in> {OrgRoleCaptain, OrgRoleGroupLeader} \<Longrightarrow> moved d (dismiss oid uids r d)"
  by (blast intro: moved_change change.dismissal)

lemma SquadDelete_moved:
  assumes "SquadDelete pd i fl d = (d', res)" and "wf_db d"
  shows "moved d d'"
proof -
  have "moved d (squad_delete_tx s d)" for s
  proof -
    let ?d = "dismiss (sq_Org s) (holders d (sq_Org s) ScopeTypeSquad {sq_ID s}) OrgRoleCaptain d"
    have "same_core ?d (squad_delete_tx s d)" by (simp add: same_core_def squad_delete_tx_def Let_def)
    then show ?thesis using moved_then_core[OF dismiss_moved[OF assms(2)]] by blast
  qed
  then have "moved d (put fl ''squads.delete'' (squad_delete_tx s) d)" for s using put_moved[OF assms(2)] by blast
  then show ?thesis using assms unfolding SquadDelete_def by (auto split: option.splits if_split_asm)
qed

lemma group_delete_moved:
  assumes "wf_db d"
  shows "moved d (group_delete_tx g def d)"
proof -
  define d1 where "d1 = d\<lparr>d_members := map (\<lambda>m. if mb_Group m = Some (g_ID g) then m\<lparr>mb_Group := Some def\<rparr> else m) (d_members d)\<rparr>"
  have m1: "moved d d1" unfolding d1_def by (intro moved_change change.edit assms) simp
  define sids where "sids = sq_ID ` set (filter (\<lambda>s. sq_Group s = g_ID g \<and> sq_Org s = g_Org g) (d_squads d1))"
  define d2 where "d2 = dismiss (g_Org g) (holders d1 (g_Org g) ScopeTypeSquad sids) OrgRoleCaptain d1"
  have m2: "moved d d2" unfolding d2_def using moved_trans[OF m1 dismiss_moved[OF moved_wf[OF m1]]] by simp
  define d3 where "d3 = d2\<lparr>d_squad_members := filter (\<lambda>(x, _). x \<notin> sids) (d_squad_members d2),
    d_grants := filter (\<lambda>x. \<not> (gr_Org x = g_Org g \<and> gr_Type x = ScopeTypeSquad \<and> gr_Scope x \<in> sids)) (d_grants d2),
    d_squads := filter (\<lambda>s. sq_ID s \<notin> sids) (d_squads d2)\<rparr>"
  have m3: "moved d d3" using moved_then_core[OF m2, of d3] by (simp add: d3_def same_core_def)
  define d4 where "d4 = dismiss (g_Org g) (holders d3 (g_Org g) ScopeTypeGroup {g_ID g}) OrgRoleGroupLeader d3"
  have m4: "moved d d4" unfolding d4_def using moved_trans[OF m3 dismiss_moved[OF moved_wf[OF m3]]] by simp
  show ?thesis
    using moved_then_core[OF m4] unfolding group_delete_tx_def Let_def d1_def[symmetric] sids_def[symmetric]
      d2_def[symmetric] d3_def[symmetric] d4_def[symmetric] by (simp add: same_core_def)
qed

lemma GroupDelete_moved:
  assumes "GroupDelete pd i fl d = (d', res)" and "wf_db d"
  shows "moved d d'"
proof -
  have dal: "moved d d1" if del: "dal_Delete i fl d = (d1, r)" for d1 r
  proof (cases "d1 = d")
    case False
    then obtain g where g: "find_group d i = Some g" "\<not> IsDefaultGroup g"
      using del unfolding dal_Delete_def by (auto split: option.splits if_split_asm)
    obtain e g' where e: "EnsureDefaultGroup fl (g_Org g) d = (e, g')" by fastforce
    have d1: "d1 = e \<or> (\<exists>def ok. exec fl ''groups.delete'' (group_delete_tx g def) e = (d1, ok))"
      using del g e unfolding dal_Delete_def by (auto split: option.splits prod.splits)
    have "same_core d e" using e same_core_ensure by (auto simp: EnsureDefaultGroup_def split: if_splits prod.splits)
    then have m: "moved d e" using assms(2) by (rule moved_core)
    have "moved e d1" if "exec fl ''groups.delete'' (group_delete_tx g def) e = (d1, ok)" for def ok
      by (rule exec_moved[OF that moved_wf[OF m]], rule group_delete_moved[OF moved_wf[OF m]])
    then show ?thesis using d1 m moved_trans by blast
  qed (use assms(2) in simp)
  show ?thesis using assms dal unfolding GroupDelete_def
    by (auto split: if_split_asm sum.splits prod.splits unit.splits)
qed

subsection \<open>Configuration and deletion\<close>

text \<open>A change of the configuration touches no membership; it keeps who the organisations are and which are
  public, not their seat limits.\<close>

definition retuned :: "db \<Rightarrow> db \<Rightarrow> bool" where
  "retuned d d' \<longleftrightarrow> d_members d' = d_members d \<and> map u_ID (d_users d') = map u_ID (d_users d) \<and> d_seq d \<le> d_seq d'
     \<and> map (\<lambda>r. (o_ID r, is_public r)) (d_orgs d') = map (\<lambda>r. (o_ID r, is_public r)) (d_orgs d)"

lemma retuned_refl [simp]: "retuned d d"
  by (simp add: retuned_def)

lemma retuned_core: "retuned d d' \<Longrightarrow> same_core d' d'' \<Longrightarrow> retuned d d''"
  by (simp add: retuned_def same_core_def)

lemma retuned_upd:
  assumes "\<And>x. x \<in> set (d_orgs d) \<Longrightarrow> o_ID x = oid \<Longrightarrow> o_ID (f x) = o_ID x \<and> is_public (f x) = is_public x"
  shows "retuned d (upd_org oid f d)"
  using assms by (simp add: retuned_def upd_org_def)

lemma same_core_resync [simp]: "same_core d (resync fl oid q d)"
  by (simp add: resync_def Let_def)

lemma Update_retuned:
  assumes "Update pd oid q fl d = (d', res)" and "wf_db d"
  shows "retuned d d'"
proof (cases "d' = d")
  case False
  then obtain p r where p: "pd = Some p" "find_org d oid = Some r"
    using assms(1) unfolding Update_def by (cases pd) (auto split: if_split_asm option.splits)
  define r2 where "r2 = (let r1 = (if verifyOrgPerm pd d (UserID p) oid ''org.info.write''
      then info_updates q (PayloadHasPerm pd ''site.org.policy'') r else r)
    in if verifyOrgPerm pd d (UserID p) oid ''org.policy.toggle'' then toggle_updates q r1 else r1)"
  have k2: "o_ID r2 = o_ID r \<and> is_public r2 = is_public r"
    unfolding r2_def Let_def using info_updates_key toggle_updates_key by simp
  obtain r3 d1 ok where x: "exec fl ''orgs.update'' (upd_org oid (\<lambda>_. r3)) d = (d1, ok)"
      and r3: "(if PayloadHasPerm pd ''site.org.policy'' then policy_updates q r2 else Inr r2) = Inr r3"
      and d': "d' = d1 \<or> d' = resync fl oid q d1 \<or> d' = resync fl oid q (forceOffWeeklyEmailWithoutOrgGrant fl oid d1)"
    using assms(1) False p unfolding Update_def Let_def r2_def
    by (simp only: option.case) (auto split: if_split_asm sum.splits prod.splits bool.splits)
  have k3: "o_ID r3 = o_ID r \<and> is_public r3 = is_public r"
    using r3 k2 policy_updates_key by (auto split: if_splits)
  have "retuned d (upd_org oid (\<lambda>_. r3) d)"
    by (rule retuned_upd) (use k3 find_org_same[OF assms(2) p(2)] in auto)
  then have m: "retuned d d1" using x by (auto simp: exec_eq split: if_splits)
  then have "retuned d (resync fl oid q d1)" "retuned d (resync fl oid q (forceOffWeeklyEmailWithoutOrgGrant fl oid d1))"
    using retuned_core same_core_resync same_core_trans[OF same_core_weekly same_core_resync] by blast+
  then show ?thesis using d' m by blast
qed simp

lemma retuned_wf: "retuned d d' \<Longrightarrow> wf_db d \<Longrightarrow> wf_db d'"
proof -
  assume r: "retuned d d'" and w: "wf_db d"
  have "map fst (map (\<lambda>r. (o_ID r, is_public r)) (d_orgs d')) = map fst (map (\<lambda>r. (o_ID r, is_public r)) (d_orgs d))"
    using r by (simp only: retuned_def)
  then have k: "map o_ID (d_orgs d') = map o_ID (d_orgs d)" unfolding map_map comp_def fst_conv .
  have "set (map o_ID (d_orgs d')) = set (map o_ID (d_orgs d))" unfolding k ..
  then have ids: "o_ID ` set (d_orgs d') = o_ID ` set (d_orgs d)" by simp
  have s: "d_seq d \<le> d_seq d'" "d_members d' = d_members d" using r by (simp_all add: retuned_def)
  have "o_ID x \<le> d_seq d'" if "x \<in> set (d_orgs d')" for x
  proof -
    have "o_ID x \<in> o_ID ` set (d_orgs d)" using that ids by (metis imageI)
    then obtain y where "y \<in> set (d_orgs d)" "o_ID x = o_ID y" by blast
    then have "o_ID x \<le> d_seq d" using w by (simp add: wf_db_def)
    then show ?thesis using s(1) by simp
  qed
  moreover have "mb_Org m \<le> d_seq d'" if "m \<in> set (d_members d')" for m
    using w s that unfolding wf_db_def by (metis order_trans)
  moreover have "distinct (map o_ID (d_orgs d'))" unfolding k using w by (simp add: wf_db_def)
  ultimately show "wf_db d'" using w uniq_eq[OF s(2)] by (simp add: wf_db_def)
qed

text \<open>A deletion takes one organisation away, with its memberships.\<close>

definition dissolved :: "nat \<Rightarrow> db \<Rightarrow> db \<Rightarrow> bool" where
  "dissolved oid d d' \<longleftrightarrow> d_members d' = filter (\<lambda>m. mb_Org m \<noteq> oid) (d_members d) \<and> map u_ID (d_users d') = map u_ID (d_users d)
     \<and> d_seq d \<le> d_seq d' \<and> d_orgs d' = filter (\<lambda>r. o_ID r \<noteq> oid) (d_orgs d)"

lemma Delete_cases:
  assumes "Delete pd oid fl d = (d', res)"
  obtains "same_core d d'" | "dissolved oid d d'" "pd \<noteq> None" "PayloadHasPerm pd ''site.org.delete''"
    "\<And>r. find_org d oid = Some r \<Longrightarrow> \<not> is_public r"
proof (cases "d' = d")
  case False
  then obtain r pub where c: "find_org d oid = Some r" "\<not> is_public r" "public_org d = Some pub" "pd \<noteq> None"
      "PayloadHasPerm pd ''site.org.delete''"
    using assms unfolding Delete_def by (auto split: if_split_asm option.splits)
  obtain d1 g0 where e: "ensureDefaultGroupID fl (o_ID pub) d = (d1, g0)" by fastforce
  have s: "same_core d d1" using same_core_ensure[OF e] .
  obtain g where "\<exists>ok. exec fl ''orgs.delete'' (delete_tx oid (o_ID pub) g) d1 = (d', ok)"
    using assms c e False unfolding Delete_def by (auto simp: Let_def split: if_split_asm prod.splits)
  then consider "d' = d1" | "d' = delete_tx oid (o_ID pub) g d1" by (auto simp: exec_eq split: if_splits)
  then show ?thesis
  proof cases
    case 2
    then have "dissolved oid d d'"
      using s by (simp add: dissolved_def same_core_def delete_tx_def Let_def comp_def)
    then show ?thesis using that(2) c by simp
  qed (use that(1) s in simp)
qed (use that(1) in simp)

lemma dissolved_wf: "dissolved oid d d' \<Longrightarrow> wf_db d \<Longrightarrow> wf_db d'"
  by (fastforce simp: dissolved_def wf_db_def uniq_def distinct_map_filter)

lemma dissolved_roles: "dissolved oid d d' \<Longrightarrow> roles d' = (\<lambda>(o', u). if o' = oid then None else roles d (o', u))"
proof -
  assume "dissolved oid d d'"
  then have "find_member d' o' u = (if o' = oid then None else find_member d o' u)" for o' u
    unfolding find_member_def dissolved_def by (auto simp: find_None_iff intro!: find_filter_other)
  then show ?thesis by (auto simp: roles_def fun_eq_iff)
qed

end
