(* ===== verification/OrgAccounts.thy ===== *)
theory OrgAccounts
  imports OrgSafety
begin

text \<open>
  The handlers of accounts that touch the tables of organisations: an account is registered into the public
  organisation (\<^verbatim>\<open>user/internal/service/auth.go\<close>), a member is moved to another group, an account is
  deleted with all its memberships (\<^verbatim>\<open>service/profile.go\<close>, \<^verbatim>\<open>data/dal/profile.go\<close>). Tables that
  no other definition reads (device authorisations, followings, pastes) are left out.
\<close>

subsection \<open>Registration\<close>

text \<open>The id of a new account is above every id that was drawn or is mentioned in a membership.\<close>

definition new_user_id :: "db \<Rightarrow> nat" where
  "new_user_id d = Suc (fold (\<lambda>m k. max (mb_User m) k) (d_members d) (d_seq d))"

definition new_user :: "nat \<Rightarrow> string \<Rightarrow> string \<Rightarrow> nat \<Rightarrow> nat \<Rightarrow> user" where
  "new_user i username name gid oid = \<lparr>u_ID = i, u_Username = username, u_Name = name, u_IsSiteAdmin = False, u_RoleID = 0,
     u_CurrentOrgID = oid, u_GroupId = gid, u_WeeklyEmail = False, u_SubTier = '''', u_SubExpireAt = None, u_SubSource = '''',
     u_SubPendingTier = '''', u_SubPendingDays = 0, u_SubPendingSource = '''', u_SubReminded = 0,
     u_FetchOverride = None, u_AiOverride = None\<rparr>"

definition register_tx :: "nat \<Rightarrow> string \<Rightarrow> string \<Rightarrow> db \<Rightarrow> db" where
  "register_tx oid username name d =
     (let (gid, d1) = (case default_group d oid of Some g \<Rightarrow> (g_ID g, d)
             | None \<Rightarrow> (next_id d, add_group oid DefaultGroupName d));
          uid = new_user_id d1
      in d1\<lparr>d_users := d_users d1 @ [new_user uid username name gid oid],
            d_members := d_members d1 @ [\<lparr>mb_Org = oid, mb_User = uid, mb_Role = OrgRoleMember, mb_Group = Some gid,
              mb_Display = name\<rparr>], d_seq := uid\<rparr>)"

text \<open>The handler. \<open>checks\<close> is the outcome of the checks of the form: its formats and the code sent by e-mail.
  The user table refuses a name that is taken.\<close>

definition Register :: "(string \<Rightarrow> string) \<Rightarrow> bool \<Rightarrow> string \<Rightarrow> string \<Rightarrow> string \<Rightarrow> fails \<Rightarrow> db \<Rightarrow> db \<times> (string + register_note)" where
  "Register first32 checks username0 name0 inviteCode fl d =
     (let username = trim_space username0; name = trim_space name0 in
      if username = '''' \<or> name = '''' \<or> \<not> checks then (d, Inl ''invalid form'')
      else (case public_org d of None \<Rightarrow> (d, Inl ''register failed'')
        | Some r \<Rightarrow>
            if seatFull d r then (d, Inl ''seats full'')
            else if list_ex (\<lambda>u. u_Username u = username) (d_users d) then (d, Inl ''taken'')
            else (case exec fl ''users.register'' (register_tx (o_ID r) username name) d of
                (d1, False) \<Rightarrow> (d1, Inl ''register failed'')
              | (d1, True) \<Rightarrow> (case applyInviteOnRegister first32 (d_seq d1) inviteCode name fl d1 of
                    (d2, note) \<Rightarrow> (d2, Inr note)))))"

subsection \<open>Moving a member to another group\<close>

text \<open>The transaction: the new group, out of every squad of the organisation, and a captain with a squad outside
  the new group is dismissed and loses all scopes there.\<close>

definition strays :: "db \<Rightarrow> nat \<Rightarrow> nat \<Rightarrow> nat \<Rightarrow> bool" where
  "strays d uid gid oid \<longleftrightarrow> list_ex (\<lambda>g. gr_Org g = oid \<and> gr_User g = uid \<and> gr_Type g = ScopeTypeSquad
     \<and> (case find_squad d (gr_Scope g) of None \<Rightarrow> True | Some s \<Rightarrow> gid \<noteq> sq_Group s)) (d_grants d)"

definition leave_squads :: "nat \<Rightarrow> nat \<Rightarrow> db \<Rightarrow> db" where
  "leave_squads uid oid d = d\<lparr>d_squad_members := filter (\<lambda>(s, u).
     \<not> (u = uid \<and> list_ex (\<lambda>x. sq_ID x = s \<and> sq_Org x = oid) (d_squads d))) (d_squad_members d)\<rparr>"

definition move_group_tx :: "nat \<Rightarrow> nat \<Rightarrow> nat \<Rightarrow> db \<Rightarrow> db" where
  "move_group_tx uid gid oid d =
     (let d1 = leave_squads uid oid (upd_member oid uid (\<lambda>m. m\<lparr>mb_Group := Some gid\<rparr>) d) in
      if map_option mb_Role (find_member d1 oid uid) = Some OrgRoleCaptain \<and> strays d1 uid gid oid
      then del_grants (\<lambda>g. gr_Org g = oid \<and> gr_User g = uid) (set_role oid uid OrgRoleMember d1)
      else d1)"

text \<open>The handler: group 0 (a negative id is treated the same) is the default group of the organisation, created
  when it is missing.\<close>

definition MoveGroup :: "JwtPayload option \<Rightarrow> nat \<Rightarrow> nat \<Rightarrow> fails \<Rightarrow> db \<Rightarrow> db \<times> (string + unit)" where
  "MoveGroup pd uid gid0 fl d =
     (if \<not> PayloadHasPerm pd ''org.group.manage'' then (d, Inl ''forbidden'')
      else (case pd of None \<Rightarrow> (d, Inl ''no organisation'')
        | Some p \<Rightarrow>
            if OrgID p = 0 then (d, Inl ''no organisation'')
            else if \<not> isMemberDB d uid (OrgID p) then (d, Inl ''not a member'')
            else if gid0 \<noteq> 0 \<and> \<not> group_in_org d gid0 (OrgID p) then (d, Inl ''foreign group'')
            else (case (if gid0 = 0 then ensureDefaultGroupID fl (OrgID p) d else (d, gid0)) of
                (d1, gid) \<Rightarrow> (case exec fl ''members.move'' (move_group_tx uid gid (OrgID p)) d1 of
                    (d2, ok) \<Rightarrow> (d2, if ok then Inr () else Inl ''db'')))))"

subsection \<open>Deleting an account\<close>

text \<open>The transaction deletes the memberships and join requests of the user, then the user. Nothing asks whether
  the user is the last administrator of an organisation.\<close>

definition purge_tx :: "nat \<Rightarrow> db \<Rightarrow> db" where
  "purge_tx uid d = d\<lparr>d_members := filter (\<lambda>m. mb_User m \<noteq> uid) (d_members d),
     d_requests := filter (\<lambda>q. jr_User q \<noteq> uid) (d_requests d), d_users := filter (\<lambda>u. u_ID u \<noteq> uid) (d_users d)\<rparr>"

definition dal_DeleteUser :: "nat \<Rightarrow> fails \<Rightarrow> db \<Rightarrow> db \<times> bool" where
  "dal_DeleteUser uid fl d = (if loadUser d uid = None then (d, False) else exec fl ''users.delete'' (purge_tx uid) d)"

text \<open>The handler. The row of the user is read through a cache, \<open>cached\<close> is what it holds; \<open>purged\<close> is the
  answer of the training data service, asked to forget the user first.\<close>

definition DeleteUser :: "JwtPayload option \<Rightarrow> nat \<Rightarrow> user option \<Rightarrow> bool \<Rightarrow> fails \<Rightarrow> db \<Rightarrow> db \<times> (string + unit)" where
  "DeleteUser pd uid cached purged fl d =
     (if \<not> PayloadHasPerm pd ''site.user.delete'' then (d, Inl ''forbidden'')
      else if uid = 0 then (d, Inl ''bad request'')
      else if GetCurrentUserId pd = uid then (d, Inl ''self'')
      else (case (case cached of None \<Rightarrow> loadUser d uid | Some u \<Rightarrow> Some u) of
          None \<Rightarrow> (d, Inl ''no such user'')
        | Some u \<Rightarrow>
            if is_site_admin_row u then (d, Inl ''site admin'')
            else if \<not> purged then (d, Inl ''purge failed'')
            else (case dal_DeleteUser uid fl d of (d1, ok) \<Rightarrow> (d1, if ok then Inr () else Inl ''db''))))"

subsection \<open>What they do to memberships\<close>

lemma same_core_leave_squads [simp]: "same_core d (leave_squads uid oid d)"
  by (simp add: leave_squads_def)

lemma move_group_moved:
  assumes "wf_db d"
  shows "moved d (move_group_tx uid gid oid d)"
proof -
  define d1 where "d1 = leave_squads uid oid (upd_member oid uid (\<lambda>m. m\<lparr>mb_Group := Some gid\<rparr>) d)"
  have m: "moved d (upd_member oid uid (\<lambda>m. m\<lparr>mb_Group := Some gid\<rparr>) d)" by (rule upd_member_moved) (simp_all add: assms)
  then have m1: "moved d d1" unfolding d1_def by (rule moved_then_core) simp
  show ?thesis
  proof (cases "map_option mb_Role (find_member d1 oid uid) = Some OrgRoleCaptain \<and> strays d1 uid gid oid")
    case True
    then have r: "roles d1 (oid, uid) = Some OrgRoleCaptain" by (simp add: roles_def)
    have "moved d1 (set_role oid uid OrgRoleMember d1)"
      by (rule set_role_moved[OF moved_wf[OF m1]]) (simp add: r)
    then have "moved d (set_role oid uid OrgRoleMember d1)" by (rule moved_trans[OF m1])
    then have "moved d (del_grants (\<lambda>g. gr_Org g = oid \<and> gr_User g = uid) (set_role oid uid OrgRoleMember d1))"
      by (rule moved_then_core) simp
    then show ?thesis unfolding move_group_tx_def Let_def d1_def[symmetric] if_P[OF True] .
  next
    case False
    show ?thesis using m1 unfolding move_group_tx_def Let_def d1_def[symmetric] if_not_P[OF False] .
  qed
qed

lemma MoveGroup_moved:
  assumes "MoveGroup pd uid gid0 fl d = (d', res)" and "wf_db d"
  shows "moved d d'"
proof (cases "d' = d")
  case False
  then obtain p where p: "pd = Some p" using assms(1) by (cases pd) (auto simp: MoveGroup_def split: if_split_asm)
  obtain d1 gid where e: "(if gid0 = 0 then ensureDefaultGroupID fl (OrgID p) d else (d, gid0)) = (d1, gid)" by fastforce
  have c: "same_core d d1" using e same_core_ensure by (auto split: if_split_asm)
  obtain d2 ok where x: "exec fl ''members.move'' (move_group_tx uid gid (OrgID p)) d1 = (d2, ok)" by fastforce
  have "d' = d2" using assms(1) False x unfolding MoveGroup_def p option.case e prod.case by (auto split: if_split_asm)
  moreover have "moved d1 d2" by (rule exec_moved[OF x same_core_wf[OF c assms(2)] move_group_moved[OF same_core_wf[OF c assms(2)]]])
  ultimately show ?thesis using moved_trans[OF moved_core[OF c assms(2)]] by simp
qed (use assms(2) in simp)

text \<open>A registration adds one user, a member of the public organisation only.\<close>

definition registered :: "db \<Rightarrow> db \<Rightarrow> bool" where
  "registered d d' \<longleftrightarrow> d_orgs d' = d_orgs d \<and> d_seq d \<le> d_seq d' \<and> (\<exists>m. d_members d' = d_members d @ [m]
     \<and> map u_ID (d_users d') = map u_ID (d_users d) @ [mb_User m] \<and> mb_User m \<notin> mb_User ` set (d_members d)
     \<and> (\<exists>r\<in>set (d_orgs d). is_public r \<and> o_ID r = mb_Org m))"

lemma new_user_id_fresh: "d_seq d < new_user_id d \<and> (\<forall>m\<in>set (d_members d). mb_User m < new_user_id d)"
proof -
  have "k \<le> fold (\<lambda>m k. max (mb_User m) k) ms k \<and> (\<forall>m\<in>set ms. mb_User m \<le> fold (\<lambda>m k. max (mb_User m) k) ms k)"
    for ms :: "member list" and k
  proof (induction ms arbitrary: k)
    case (Cons a ms)
    from Cons.IH[of "max (mb_User a) k"] show ?case by auto
  qed simp
  then show ?thesis unfolding new_user_id_def less_Suc_eq_le by blast
qed

lemma register_tx_registered:
  assumes "public_org d = Some r"
  shows "registered d (register_tx (o_ID r) username name d)"
proof -
  have r: "r \<in> set (d_orgs d)" "is_public r"
    using assms by (auto simp: public_org_def find_Some_iff is_public_def)
  obtain gid d1 where e: "(case default_group d (o_ID r) of Some g \<Rightarrow> (g_ID g, d)
      | None \<Rightarrow> (next_id d, add_group (o_ID r) DefaultGroupName d)) = (gid, d1)" by fastforce
  have c: "same_core d d1" "d_users d1 = d_users d" using e by (auto simp: add_group_def drawn_def same_core_def split: option.splits)
  have f: "d_seq d1 < new_user_id d1" "new_user_id d1 \<notin> mb_User ` set (d_members d1)"
    using new_user_id_fresh[of d1] by auto
  show ?thesis
    unfolding register_tx_def e prod.case Let_def registered_def
    using c f r by (auto simp: same_core_def new_user_def)
qed

lemma Register_cases:
  assumes "Register first32 checks u n code fl d = (d', res)" and "wf_db d"
  obtains "d' = d" | d1 d2 nt where "registered d d1" "applyInviteOnRegister first32 (d_seq d1) code (trim_space n) fl d1 = (d2, nt)"
    "d' = d2"
proof (cases "d' = d")
  case False
  then obtain r where r: "public_org d = Some r" using assms(1)
    by (auto simp: Register_def Let_def split: if_split_asm option.splits)
  obtain d1 ok where e: "exec fl ''users.register'' (register_tx (o_ID r) (trim_space u) (trim_space n)) d = (d1, ok)" by fastforce
  obtain d2 nt where a: "applyInviteOnRegister first32 (d_seq d1) code (trim_space n) fl d1 = (d2, nt)" by fastforce
  have ok: "ok \<Longrightarrow> registered d d1" "\<not> ok \<Longrightarrow> d1 = d"
    using e register_tx_registered[OF r] by (auto simp: exec_eq split: if_split_asm)
  have "registered d d1 \<and> d' = d2"
    using assms(1) False ok a e unfolding Register_def Let_def r option.case e prod.case
    by (auto split: if_split_asm bool.splits)
  then show ?thesis using that(2) a by blast
qed (use that(1) in blast)

lemma registered_wf:
  assumes "registered d d'" and "wf_db d"
  shows "wf_db d'"
proof -
  obtain m r where m: "d_members d' = d_members d @ [m]" "mb_User m \<notin> mb_User ` set (d_members d)"
      "r \<in> set (d_orgs d)" "o_ID r = mb_Org m" "d_orgs d' = d_orgs d" "d_seq d \<le> d_seq d'"
    using assms(1) unfolding registered_def by blast
  have "uniq d'" using assms(2) m(1,2) by (auto simp: wf_db_def uniq_def)
  moreover have "mb_Org m \<le> d_seq d'" using assms(2) m(3,4,6) unfolding wf_db_def by (metis order_trans)
  ultimately show ?thesis using assms(2) m unfolding wf_db_def by (auto intro: order_trans)
qed

lemma registered_roles:
  assumes "registered d d'"
  shows "role_move (roles d) (roles d')"
proof -
  obtain m where m: "d_members d' = d_members d @ [m]" "mb_User m \<notin> mb_User ` set (d_members d)"
    using assms unfolding registered_def by blast
  have n: "find_member d (mb_Org m) (mb_User m) = None" using m(2) unfolding find_member_None isMemberDB_def by (metis imageI)
  have "roles d' = roles (add_member m d)" by (rule roles_eq) (simp add: m(1) add_member_def)
  then have "roles d' = (roles d)((mb_Org m, mb_User m) \<mapsto> mb_Role m)" using add_member_roles[OF n] by simp
  then show ?thesis using role_move.join[of "roles d" "mb_Org m" "mb_User m" "mb_Role m"] n by (simp add: roles_def)
qed

lemma registered_limit:
  assumes "registered d d'" and "wf_db d"
  shows "limit_kept d d'"
proof -
  obtain m r0 where m: "d_members d' = d_members d @ [m]" "map u_ID (d_users d') = map u_ID (d_users d) @ [mb_User m]"
      "mb_User m \<notin> mb_User ` set (d_members d)" "r0 \<in> set (d_orgs d)" "is_public r0" "o_ID r0 = mb_Org m"
      "d_orgs d' = d_orgs d"
    using assms(1) unfolding registered_def by blast
  have "set (map u_ID (d_users d')) = insert (mb_User m) (set (map u_ID (d_users d)))" unfolding m(2) by simp
  then have k: "known_user d' x \<longleftrightarrow> x = mb_User m \<or> known_user d x" for x by (auto simp: known_user_def)
  have ne: "mb_User x \<noteq> mb_User m" if "x \<in> set (d_members d)" for x using m(3) that by (metis imageI)
  have "countOrgSeats d' r = countOrgSeats d r" if r: "r \<in> set (d_orgs d)" "\<not> is_public r" for r
  proof -
    have "o_ID r \<noteq> mb_Org m" using r m(4-6) assms(2) unfolding wf_db_def by (metis distinct_map inj_onD)
    moreover have "filter (\<lambda>x. mb_Org x = o_ID r \<and> known_user d' (mb_User x)) (d_members d)
        = filter (\<lambda>x. mb_Org x = o_ID r \<and> known_user d (mb_User x)) (d_members d)"
      by (rule filter_cong) (use k ne in auto)
    ultimately show ?thesis using r(2) by (simp add: countOrgSeats_def m(1))
  qed
  then show ?thesis unfolding limit_kept_def m(7) by auto
qed

text \<open>The deletion of an account takes away its memberships, in every organisation.\<close>

definition purged :: "nat \<Rightarrow> db \<Rightarrow> db \<Rightarrow> bool" where
  "purged uid d d' \<longleftrightarrow> d_orgs d' = d_orgs d \<and> d_seq d' = d_seq d \<and> d_members d' = filter (\<lambda>m. mb_User m \<noteq> uid) (d_members d)
     \<and> d_users d' = filter (\<lambda>u. u_ID u \<noteq> uid) (d_users d)"

lemma DeleteUser_cases:
  assumes "DeleteUser pd uid cached ok fl d = (d', res)"
  obtains "d' = d" | "purged uid d d'" "PayloadHasPerm pd ''site.user.delete''" "GetCurrentUserId pd \<noteq> uid"
proof (cases "d' = d")
  case False
  have "purged uid d (purge_tx uid d)" by (simp add: purged_def purge_tx_def)
  then have "purged uid d d' \<and> PayloadHasPerm pd ''site.user.delete'' \<and> GetCurrentUserId pd \<noteq> uid"
    using assms False unfolding DeleteUser_def dal_DeleteUser_def
    by (auto simp: exec_eq split: if_split_asm option.splits prod.splits)
  then show ?thesis using that(2) by blast
qed (use that(1) in blast)

lemma purged_wf: "purged uid d d' \<Longrightarrow> wf_db d \<Longrightarrow> wf_db d'"
  by (auto simp: purged_def wf_db_def uniq_def distinct_map_filter)

lemma purged_roles: "purged uid d d' \<Longrightarrow> roles d' = (\<lambda>(o', u). if u = uid then None else roles d (o', u))"
proof -
  assume "purged uid d d'"
  then have "find_member d' o' u = (if u = uid then None else find_member d o' u)" for o' u
    unfolding find_member_def purged_def by (auto simp: find_None_iff intro!: find_filter_other)
  then show ?thesis by (auto simp: roles_def fun_eq_iff)
qed

lemma purged_limit: "purged uid d d' \<Longrightarrow> limit_kept d d'"
proof -
  assume p: "purged uid d d'"
  have "countOrgSeats d' r \<le> countOrgSeats d r" if "\<not> is_public r" for r
  proof -
    have k: "known_user d' u \<longleftrightarrow> u \<noteq> uid \<and> known_user d u" for u using p by (auto simp: purged_def known_user_def)
    have "d_members d' = filter (\<lambda>m. mb_User m \<noteq> uid) (d_members d)" using p by (simp add: purged_def)
    then have "filter (\<lambda>m. mb_Org m = o_ID r \<and> known_user d' (mb_User m)) (d_members d')
        = filter (\<lambda>m. mb_User m \<noteq> uid) (filter (\<lambda>m. mb_Org m = o_ID r \<and> known_user d (mb_User m)) (d_members d))"
      unfolding k by (simp add: conj_ac)
    then have "length (filter (\<lambda>m. mb_Org m = o_ID r \<and> known_user d' (mb_User m)) (d_members d'))
        \<le> length (filter (\<lambda>m. mb_Org m = o_ID r \<and> known_user d (mb_User m)) (d_members d))"
      by (simp only: length_filter_le)
    then show ?thesis using that by (simp add: countOrgSeats_def)
  qed
  then show ?thesis using p by (intro limit_kept_same) (simp_all add: purged_def)
qed

end
