(* ===== verification/OrgSystem.thy ===== *)
theory OrgSystem
  imports OrgAccounts
begin

text \<open>
  The system of organisations: a request is one call of a handler with its arguments, \<open>serve\<close> runs it, \<open>run\<close>
  runs a sequence of them, each with its own failing writes. The properties hold for every sequence: the roles
  move only as the abstract specification allows, an organisation keeps an administrator until the account of its
  only one is deleted, the seats of an organisation stay within its limit. The requests are those that write
  memberships, organisations, groups, squads, scopes and roles, and the two that add and delete users.

  Requests are atomic here. The handlers themselves read the count of administrators and write afterwards
  without a lock, so two administrators who leave at the same moment are not covered.
\<close>

subsection \<open>Requests\<close>

datatype request =
    QCreate "JwtPayload option" create_req string string
  | QDelete "JwtPayload option" nat
  | QUpdate "JwtPayload option" nat update_req
  | QSwitch "JwtPayload option" nat int
  | QJoin "JwtPayload option" string string
  | QRegister bool string string string
  | QMoveGroup "JwtPayload option" nat nat
  | QDeleteUser "JwtPayload option" nat "user option" bool
  | QLeave "JwtPayload option" nat int
  | QAddMember "JwtPayload option" nat nat string string string
  | QInviteUser "JwtPayload option" nat nat string string string
  | QInviteReview "JwtPayload option" nat bool
  | QInviteCancel "JwtPayload option" nat
  | QJoinReview "JwtPayload option" nat bool
  | QInviteRotate "JwtPayload option" nat string
  | QSetDisplayName "JwtPayload option" nat nat string
  | QSetRole "JwtPayload option" set_role_req
  | QRemoveMember "JwtPayload option" nat nat
  | QSetSiteAdmin "JwtPayload option" nat bool
  | QRoleCreate "JwtPayload option" string string string nat "string list" string
  | QRoleUpdate "JwtPayload option" nat nat "string option" "string option" "string list option" bool
  | QRoleDelete "JwtPayload option" nat
  | QRoleAssign "JwtPayload option" nat "nat list"
  | QRoleUnassign "JwtPayload option" nat "nat list"
  | QSquadCreate "JwtPayload option" nat nat string string
  | QSquadUpdate "JwtPayload option" nat nat string string
  | QSquadDelete "JwtPayload option" nat
  | QSquadMemberSet "JwtPayload option" nat nat bool
  | QScopeSet "JwtPayload option" nat nat "(string \<times> nat) list"
  | QGroupCreate "JwtPayload option" string
  | QGroupDelete "JwtPayload option" nat
  | QGroupUpdate "JwtPayload option" nat string string
  | QTime int

text \<open>\<open>QTime\<close> is the clock moving on. \<open>like\<close> is the database's pattern match on nicknames, \<open>first32\<close> the cut of a name to 32 characters.\<close>

fun serve :: "(string \<Rightarrow> string \<Rightarrow> bool) \<Rightarrow> (string \<Rightarrow> string) \<Rightarrow> request \<Rightarrow> fails \<Rightarrow> db \<Rightarrow> db" where
  "serve like first32 (QCreate pd req c1 c2) fl d = fst (Create pd req c1 c2 fl d)"
| "serve like first32 (QDelete pd oid) fl d = fst (Delete pd oid fl d)"
| "serve like first32 (QUpdate pd oid q) fl d = fst (Update pd oid q fl d)"
| "serve like first32 (QSwitch pd oid now) fl d = fst (Switch pd oid now fl d)"
| "serve like first32 (QJoin pd code nm) fl d = fst (Join pd code nm fl d)"
| "serve like first32 (QRegister checks u nm code) fl d = fst (Register first32 checks u nm code fl d)"
| "serve like first32 (QMoveGroup pd u g) fl d = fst (MoveGroup pd u g fl d)"
| "serve like first32 (QDeleteUser pd u c ok) fl d = fst (DeleteUser pd u c ok fl d)"
| "serve like first32 (QLeave pd oid now) fl d = fst (Leave pd oid now fl d)"
| "serve like first32 (QAddMember pd oid u n r s) fl d = fst (AddMember like pd oid u n r s fl d)"
| "serve like first32 (QInviteUser pd oid u n r s) fl d = fst (InviteUser like pd oid u n r s fl d)"
| "serve like first32 (QInviteReview pd i ok) fl d = fst (InviteReview pd i ok fl d)"
| "serve like first32 (QInviteCancel pd i) fl d = fst (InviteCancel pd i fl d)"
| "serve like first32 (QJoinReview pd i ok) fl d = fst (JoinReview pd i ok fl d)"
| "serve like first32 (QInviteRotate pd oid c) fl d = fst (InviteRotate pd oid c fl d)"
| "serve like first32 (QSetDisplayName pd oid u n) fl d = fst (SetDisplayName pd oid u n fl d)"
| "serve like first32 (QSetRole pd q) fl d = fst (SetRole pd q fl d)"
| "serve like first32 (QRemoveMember pd oid u) fl d = fst (RemoveMember pd oid u fl d)"
| "serve like first32 (QSetSiteAdmin pd u b) fl d = fst (SetSiteAdmin pd u b fl d)"
| "serve like first32 (QRoleCreate pd sc n ds oid ps c) fl d = fst (RoleCreate pd sc n ds oid ps c fl d)"
| "serve like first32 (QRoleUpdate pd i oid n ds ps b) fl d = fst (RoleUpdate pd i oid n ds ps b fl d)"
| "serve like first32 (QRoleDelete pd i) fl d = fst (RoleDelete pd i fl d)"
| "serve like first32 (QRoleAssign pd i us) fl d = fst (RoleAssign pd i us fl d)"
| "serve like first32 (QRoleUnassign pd i us) fl d = fst (RoleUnassign pd i us fl d)"
| "serve like first32 (QSquadCreate pd oid g n ds) fl d = fst (SquadCreate pd oid g n ds fl d)"
| "serve like first32 (QSquadUpdate pd i g n ds) fl d = fst (SquadUpdate pd i g n ds fl d)"
| "serve like first32 (QSquadDelete pd i) fl d = fst (SquadDelete pd i fl d)"
| "serve like first32 (QSquadMemberSet pd i u b) fl d = fst (SquadMemberSet pd i u b fl d)"
| "serve like first32 (QScopeSet pd oid u gs) fl d = fst (ScopeSet pd oid u gs fl d)"
| "serve like first32 (QGroupCreate pd n) fl d = fst (GroupCreate pd n fl d)"
| "serve like first32 (QGroupDelete pd i) fl d = fst (GroupDelete pd i fl d)"
| "serve like first32 (QGroupUpdate pd i n ds) fl d = fst (GroupUpdate pd i n ds fl d)"
| "serve like first32 (QTime t) fl d = d\<lparr>d_now := t\<rparr>"

fun run :: "(string \<Rightarrow> string \<Rightarrow> bool) \<Rightarrow> (string \<Rightarrow> string) \<Rightarrow> (request \<times> fails) list \<Rightarrow> db \<Rightarrow> db" where
  "run like first32 [] d = d"
| "run like first32 ((q, fl) # qs) d = run like first32 qs (serve like first32 q fl d)"

subsection \<open>The handlers that touch no membership\<close>

lemma same_core_tables:
  "same_core d (d\<lparr>d_roles := a\<rparr>)" "same_core d (d\<lparr>d_role_perms := b\<rparr>)" "same_core d (d\<lparr>d_org_role_perms := c\<rparr>)"
  "same_core d (d\<lparr>d_user_roles := e, d_role_perms := b, d_roles := a\<rparr>)" "same_core d (drawn d\<lparr>d_roles := a\<rparr>)"
  "same_core d (d\<lparr>d_now := t\<rparr>)"
  by (simp_all add: same_core_def drawn_def)

lemma same_core_put': "same_core d (f d) \<Longrightarrow> same_core d (put fl lbl f d)"
  by (rule same_core_put)

lemma same_core_create_perms [simp]: "same_core d (create_perms fl rid cs d)"
proof (induction cs arbitrary: d)
  case (Cons c cs)
  show ?case by (simp only: create_perms.simps, rule same_core_trans[OF same_core_put Cons.IH]) (simp add: same_core_tables)
qed simp

lemma same_core_sync_perms [simp]: "same_core d (syncRolePermsService fl rid cs d)"
  unfolding syncRolePermsService_def
  by (rule same_core_trans[OF _ same_core_create_perms]) (simp add: same_core_tables)

lemma same_core_set_override: "same_core d (set_override oid c x d)"
  by (simp add: set_override_def same_core_tables)

lemma RoleCreate_core:
  assumes "RoleCreate pd sc n ds oid ps c fl d = (d', res)"
  shows "same_core d d'"
proof -
  have "same_core d (create_perms fl rid cs (drawn d\<lparr>d_roles := x\<rparr>))" for rid cs x
    by (rule same_core_trans[OF _ same_core_create_perms]) (rule same_core_tables)
  then show ?thesis
    using assms unfolding RoleCreate_def Let_def
    by (auto simp: exec_eq split: option.splits if_split_asm sum.splits prod.splits bool.splits)
qed

lemma system_role_core:
  assumes "updateSystemOrgRolePerms p rid oid ps reset mc fl d = Some (d', res)"
  shows "same_core d d'"
proof -
  have e: "same_core d d1" if "exec fl l (set_override i c x) d = (d1, ok)" for l i c x d1 ok
    by (rule same_core_exec[OF that]) (rule same_core_set_override)
  have p: "same_core d (put fl l (\<lambda>d. d\<lparr>d_org_role_perms := filter P (d_org_role_perms d)\<rparr>) d)" for l P
    by (rule same_core_put) (rule same_core_tables)
  show ?thesis
    using assms e p unfolding updateSystemOrgRolePerms_def Let_def
    by (auto split: option.splits if_split_asm sum.splits prod.splits)
qed

lemma RoleUpdate_core:
  assumes "RoleUpdate pd rid oid n ds ps reset fl d = (d', res)"
  shows "same_core d d'"
proof (cases "d' = d")
  case False
  then obtain p where p: "pd = Some p" using assms by (cases pd) (auto simp: RoleUpdate_def)
  show ?thesis
  proof (cases "updateSystemOrgRolePerms p rid oid ps reset (n \<noteq> None \<or> ds \<noteq> None) fl d")
    case (Some r)
    then show ?thesis using assms False p system_role_core[of p rid oid ps reset _ fl d d' res]
      by (auto simp: RoleUpdate_def split: if_split_asm)
  next
    case None
    obtain d1 ok where e: "(if map_option trim_space n = None \<and> map_option trim_space ds = None then (d, True)
        else exec fl ''roles.update'' (\<lambda>d. d\<lparr>d_roles := map (\<lambda>x. if ro_ID x = rid then
           x\<lparr>ro_Name := (case map_option trim_space n of None \<Rightarrow> ro_Name x | Some s \<Rightarrow> s),
             ro_Description := (case map_option trim_space ds of None \<Rightarrow> ro_Description x | Some s \<Rightarrow> s)\<rparr> else x) (d_roles d)\<rparr>) d) = (d1, ok)"
      by fastforce
    have c: "same_core d d1" using e by (auto simp: exec_eq same_core_tables split: if_split_asm)
    obtain r where r: "loadEditableRole p d rid = Inr r"
      using assms False p None by (cases "loadEditableRole p d rid") (auto simp: RoleUpdate_def split: if_split_asm)
    have "d' = d \<or> d' = d1 \<or> (\<exists>cs. d' = syncRolePermsService fl rid cs d1)"
      using assms unfolding RoleUpdate_def Let_def p option.case None r sum.case e prod.case
      by (auto split: if_split_asm bool.splits option.splits sum.splits)
    then show ?thesis using c same_core_trans[OF c same_core_sync_perms] by auto
  qed
qed simp

lemma RoleDelete_core: "RoleDelete pd rid fl d = (d', res) \<Longrightarrow> same_core d d'"
  unfolding RoleDelete_def
  by (auto simp: exec_eq same_core_tables split: option.splits if_split_asm sum.splits prod.splits)

lemma assign_loop_core: "assign_loop fl r oid us d = (d', res) \<Longrightarrow> same_core d d'"
proof (induction us arbitrary: d d' res)
  case (Cons u us)
  obtain d1 ok where e: "(if \<lparr>ur_User = u, ur_Role = ro_ID r, ur_Org = oid\<rparr> \<in> set (d_user_roles d) then (d, True)
      else exec fl (''user_roles.create:'' @ nat_str u) (add_user_role u (ro_ID r) oid) d) = (d1, ok)" by fastforce
  have c: "same_core d d1" using e by (auto simp: exec_eq split: if_split_asm)
  have "(\<exists>x. assign_loop fl r oid us d = (d', x)) \<or> (\<exists>x. assign_loop fl r oid us d1 = (d', x))"
    using Cons.prems unfolding assign_loop.simps e prod.case by (auto split: if_split_asm prod.splits)
  then show ?case using Cons.IH same_core_trans[OF c] by blast
qed simp

lemma RoleAssign_core: "RoleAssign pd rid us fl d = (d', res) \<Longrightarrow> same_core d d'"
  unfolding RoleAssign_def by (auto dest: assign_loop_core split: option.splits if_split_asm sum.splits prod.splits)

lemma RoleUnassign_core: "RoleUnassign pd rid us fl d = (d', res) \<Longrightarrow> same_core d d'"
  unfolding RoleUnassign_def
  by (auto simp: exec_eq split: option.splits if_split_asm sum.splits prod.splits)

lemma SquadCreate_core: "SquadCreate pd oid g n ds fl d = (d', res) \<Longrightarrow> same_core d d'"
  unfolding SquadCreate_def Let_def by (auto simp: exec_eq split: if_split_asm prod.splits)

lemma SquadUpdate_core: "SquadUpdate pd i g n ds fl d = (d', res) \<Longrightarrow> same_core d d'"
  unfolding SquadUpdate_def Let_def by (auto simp: exec_eq split: option.splits if_split_asm prod.splits)

lemma SquadMemberSet_moved:
  assumes "SquadMemberSet pd i u b fl d = (d', res)" and "wf_db d"
  shows "moved d d'"
proof (cases "d' = d")
  case False
  then obtain s where s: "find_squad d i = Some s" using assms(1) by (auto simp: SquadMemberSet_def split: option.splits)
  let ?f = "\<lambda>m. if mb_Group m = None \<or> mb_Group m = Some 0 then m\<lparr>mb_Group := Some (sq_Group s)\<rparr> else m"
  have m: "moved d (put fl l (upd_member (sq_Org s) u ?f) d)" for l
    by (rule put_moved[OF assms(2)], rule upd_member_moved) (use assms(2) in simp_all)
  obtain d2 ok where e: "exec fl ''squad_members.create'' (add_squad_member (sq_ID s) u) (put fl ''members.group'' (upd_member (sq_Org s) u ?f) d) = (d2, ok)"
    by fastforce
  have c: "same_core (put fl ''members.group'' (upd_member (sq_Org s) u ?f) d) d2" by (rule same_core_exec[OF e]) simp
  have del: "same_core d (put fl l (\<lambda>d. d\<lparr>d_squad_members := filter P (d_squad_members d)\<rparr>) d)" for l P
    by (rule same_core_put) simp
  have "d' = d2 \<or> (\<exists>l P. d' = put fl l (\<lambda>d. d\<lparr>d_squad_members := filter P (d_squad_members d)\<rparr>) d)"
    using assms(1) False s e unfolding SquadMemberSet_def Let_def by (auto split: if_split_asm)
  then show ?thesis using moved_then_core[OF m c] moved_core[OF del assms(2)] by blast
qed (use assms(2) in simp)

lemma ScopeSet_core: "ScopeSet pd oid u gs fl d = (d', res) \<Longrightarrow> same_core d d'"
  unfolding ScopeSet_def Let_def by (auto split: option.splits if_split_asm)

lemma GroupCreate_core: "GroupCreate pd n fl d = (d', res) \<Longrightarrow> same_core d d'"
  unfolding GroupCreate_def Let_def by (auto simp: exec_eq split: if_split_asm prod.splits)

lemma GroupUpdate_core: "GroupUpdate pd i n ds fl d = (d', res) \<Longrightarrow> same_core d d'"
  unfolding GroupUpdate_def by (auto simp: exec_eq split: if_split_asm prod.splits sum.splits unit.splits)

subsection \<open>What one request does\<close>

lemma serve_cases:
  assumes "wf_db d"
  obtains "moved d (serve like first32 q fl d)"
    | pd oid u where "q = QUpdate pd oid u" "retuned d (serve like first32 q fl d)"
    | pd oid where "q = QDelete pd oid" "dissolved oid d (serve like first32 q fl d)"
        "pd \<noteq> None" "PayloadHasPerm pd ''site.org.delete''" "\<And>r. find_org d oid = Some r \<Longrightarrow> \<not> is_public r"
    | pd u c ok where "q = QDeleteUser pd u c ok" "purged u d (serve like first32 q fl d)" "PayloadHasPerm pd ''site.user.delete''"
    | d1 where "registered d d1" "moved d1 (serve like first32 q fl d)"
proof -
  note m = Create_moved Join_moved Leave_moved MoveGroup_moved AddMember_moved InviteUser_moved
    InviteReview_moved InviteCancel_moved JoinReview_moved InviteRotate_moved SetDisplayName_moved SetSiteAdmin_moved
    SetRole_moved RemoveMember_moved Switch_moved SquadDelete_moved GroupDelete_moved SquadMemberSet_moved
  note c = RoleCreate_core RoleUpdate_core RoleDelete_core RoleAssign_core RoleUnassign_core SquadCreate_core
    SquadUpdate_core ScopeSet_core GroupCreate_core GroupUpdate_core
  have f: "moved d (fst x)" if "\<And>d' res. x = (d', res) \<Longrightarrow> moved d d'" for x :: "db \<times> 'b"
    using that[of "fst x" "snd x"] by simp
  have g: "moved d (fst x)" if "\<And>d' res. x = (d', res) \<Longrightarrow> same_core d d'" for x :: "db \<times> 'b"
    using that[of "fst x" "snd x"] moved_core assms by simp
  have upd: "retuned d (fst (Update pd oid u fl d))" for pd oid u
    using Update_retuned[of pd oid u fl d] assms by (metis surjective_pairing)
  have del: "same_core d (fst (Delete pd oid fl d)) \<or> (dissolved oid d (fst (Delete pd oid fl d)) \<and> pd \<noteq> None
      \<and> PayloadHasPerm pd ''site.org.delete'' \<and> (\<forall>r. find_org d oid = Some r \<longrightarrow> \<not> is_public r))" for pd oid
    by (rule Delete_cases[of pd oid fl d "fst (Delete pd oid fl d)" "snd (Delete pd oid fl d)"]) auto
  have reg: "fst (Register first32 c u n i fl d) = d \<or> (\<exists>d1. registered d d1 \<and> moved d1 (fst (Register first32 c u n i fl d)))"
    for c u n i
  proof -
    obtain d' res where e: "Register first32 c u n i fl d = (d', res)" by fastforce
    from e assms show ?thesis by (rule Register_cases) (use e applyInviteOnRegister_moved registered_wf assms in auto)
  qed
  show ?thesis
  proof (cases q)
    case (QUpdate pd oid u)
    then show ?thesis using that(2) upd by simp
  next
    case (QRegister c u n i)
    then show ?thesis using that(1,5) reg[of c u n i] assms by auto
  next
    case (QDeleteUser pd u c ok)
    obtain d' res where e: "DeleteUser pd u c ok fl d = (d', res)" by fastforce
    then show ?thesis by (rule DeleteUser_cases) (use e QDeleteUser that(1,4) assms in auto)
  next
    case (QDelete pd oid)
    then show ?thesis using that(1,3) del[of pd oid] moved_core[OF _ assms] by auto
  next
    case (QTime t)
    then show ?thesis using that(1) moved_core[OF same_core_tables(6) assms] by simp
  qed (rule that(1), simp, (rule f, erule m, rule assms) | (rule that(1), simp, rule g, erule c))+
qed

subsection \<open>Roles, administrators and seats over any sequence of requests\<close>


text \<open>Every organisation other than the public one has an administrator, those of \<open>X\<close> excepted.\<close>

definition admins_except :: "nat set \<Rightarrow> db \<Rightarrow> bool" where
  "admins_except X d \<longleftrightarrow> wf_db d \<and> (\<forall>r\<in>set (d_orgs d). \<not> is_public r \<and> o_ID r \<notin> X \<longrightarrow> has_admin d (o_ID r))"

definition org_inv :: "db \<Rightarrow> bool" where
  "org_inv = admins_except {}"

text \<open>The user is the only administrator of the organisation.\<close>

definition only_admin :: "db \<Rightarrow> nat \<Rightarrow> nat \<Rightarrow> bool" where
  "only_admin d oid uid \<longleftrightarrow> isOrgAdminDB d uid oid \<and> admins d oid = 1"

lemma changes_induct [consumes 2, case_names refl step]:
  assumes "change\<^sup>*\<^sup>* d d'" and "wf_db d" and "P d"
    and "\<And>d1 d2. wf_db d1 \<Longrightarrow> change d1 d2 \<Longrightarrow> P d1 \<Longrightarrow> P d2"
  shows "P d'"
proof -
  have "wf_db d' \<and> P d'"
    using assms(1) by (induction rule: rtranclp_induct) (use assms change_wf in blast)+
  then show ?thesis ..
qed


lemma moved_limit: "moved d d' \<Longrightarrow> wf_db d \<Longrightarrow> limit_kept d d'"
  unfolding moved_def
proof (elim conjE, erule changes_induct)
  show "limit_kept d d" by (rule limit_kept_same) simp_all
qed (use change_limit limit_kept_trans in blast)+

lemma change_orgs:
  assumes "change d d'" and "r' \<in> set (d_orgs d')"
  shows "(\<exists>r\<in>set (d_orgs d). o_ID r = o_ID r' \<and> is_public r = is_public r')
    \<or> (\<exists>uid nm. d' = create_tx r' uid nm d \<and> o_ID r' = next_id d)"
  using assms(1)
proof cases
  case (found r uid nm)
  then show ?thesis using assms(2) by auto
qed (use assms(2) in \<open>auto simp: same_core_def add_member_def set_role_def upd_member_def del_member_def dismiss_def\<close>)

lemma change_keeps:
  assumes "change d d'" and "admins_except X d"
  shows "admins_except X d'"
proof -
  have w: "wf_db d" using assms(2) by (simp add: admins_except_def)
  have "has_admin d' (o_ID r')" if r': "r' \<in> set (d_orgs d')" "\<not> is_public r'" "o_ID r' \<notin> X" for r'
    using change_orgs[OF assms(1) r'(1)]
  proof
    assume "\<exists>r\<in>set (d_orgs d). o_ID r = o_ID r' \<and> is_public r = is_public r'"
    then obtain r where "r \<in> set (d_orgs d)" "o_ID r = o_ID r'" "\<not> is_public r" using r'(2) by auto
    then have "has_admin d (o_ID r')" using assms(2) r'(3) by (metis admins_except_def)
    then show ?thesis unfolding has_admin_def using role_move_admin[OF change_roles[OF assms(1) w]] by blast
  next
    assume "\<exists>uid nm. d' = create_tx r' uid nm d \<and> o_ID r' = next_id d"
    then obtain uid nm where c: "d' = create_tx r' uid nm d" "o_ID r' = next_id d" by blast
    let ?m = "\<lparr>mb_Org = o_ID r', mb_User = uid, mb_Role = OrgRoleOrgAdmin, mb_Group = Some (next_id (drawn d)), mb_Display = nm\<rparr>"
    have "roles d' = roles (add_member ?m d)" unfolding c(1) by (rule roles_eq) (simp add: add_member_def)
    then show ?thesis unfolding has_admin_def using add_member_roles[of d ?m] fresh_org[OF w, of uid] c(2) by auto
  qed
  then show ?thesis using change_wf[OF assms(1) w] by (simp add: admins_except_def)
qed

lemma moved_keeps: "moved d d' \<Longrightarrow> admins_except X d \<Longrightarrow> admins_except X d'"
  unfolding moved_def
  by (elim conjE, erule changes_induct) (use change_keeps in \<open>auto simp: admins_except_def\<close>)

lemma retuned_keeps:
  assumes "retuned d d'" and "admins_except X d"
  shows "admins_except X d'"
proof -
  have r: "roles d' = roles d" using assms(1) by (intro roles_eq) (simp add: retuned_def)
  have "set (map (\<lambda>r. (o_ID r, is_public r)) (d_orgs d')) = set (map (\<lambda>r. (o_ID r, is_public r)) (d_orgs d))"
    using assms(1) by (simp only: retuned_def)
  then have k: "(\<lambda>r. (o_ID r, is_public r)) ` set (d_orgs d') = (\<lambda>r. (o_ID r, is_public r)) ` set (d_orgs d)" by simp
  have "has_admin d' (o_ID x)" if "x \<in> set (d_orgs d')" "\<not> is_public x" "o_ID x \<notin> X" for x
  proof -
    have "(o_ID x, is_public x) \<in> (\<lambda>r. (o_ID r, is_public r)) ` set (d_orgs d)" using that(1) k by blast
    then obtain y where "y \<in> set (d_orgs d)" "o_ID x = o_ID y" "is_public x = is_public y" by auto
    then show ?thesis using assms(2) that(2,3) r by (simp add: admins_except_def has_admin_def)
  qed
  then show ?thesis using retuned_wf[OF assms(1)] assms(2) by (simp add: admins_except_def)
qed

lemma dissolved_keeps: "dissolved oid d d' \<Longrightarrow> admins_except X d \<Longrightarrow> admins_except X d'"
  using dissolved_wf dissolved_roles by (fastforce simp: admins_except_def has_admin_def dissolved_def)

lemma registered_keeps:
  assumes "registered d d'" and "admins_except X d"
  shows "admins_except X d'"
proof -
  have w: "wf_db d'" using registered_wf[OF assms(1)] assms(2) by (simp add: admins_except_def)
  have o: "d_orgs d' = d_orgs d" using assms(1) by (simp add: registered_def)
  have "has_admin d' oid" if "has_admin d oid" for oid
    using role_move_admin[OF registered_roles[OF assms(1)]] that unfolding has_admin_def by blast
  then show ?thesis using assms(2) w unfolding admins_except_def o by blast
qed

lemma has_admin_iff: "uniq d \<Longrightarrow> roles d (oid, uid) = Some OrgRoleOrgAdmin \<longleftrightarrow> isOrgAdminDB d uid oid"
  unfolding roles_def isOrgAdminDB_def by (auto dest: find_member_Some) (auto dest!: find_member_in)

text \<open>What the deletion of an account can take: the organisations whose only administrator it is.\<close>

lemma purged_admin:
  assumes "purged uid d d'" and "uniq d" and "has_admin d oid" and "\<not> only_admin d oid uid"
  shows "has_admin d' oid"
proof -
  obtain v where v: "roles d (oid, v) = Some OrgRoleOrgAdmin" using assms(3) by (auto simp: has_admin_def)
  have "\<exists>w. w \<noteq> uid \<and> roles d (oid, w) = Some OrgRoleOrgAdmin"
  proof (cases "v = uid")
    case True
    have i: "isOrgAdminDB d uid oid" using v has_admin_iff[OF assms(2)] True by blast
    then have "filter (\<lambda>m. mb_Org m = oid \<and> mb_Role m = OrgRoleOrgAdmin) (d_members d) \<noteq> []"
      by (auto simp: isOrgAdminDB_def filter_empty_conv)
    then have "0 < admins d oid" by (simp add: admins_def)
    then have "1 < admins d oid" using i assms(4) by (simp add: only_admin_def)
    then show ?thesis using another_admin[OF assms(2)] v True by blast
  qed (use v in blast)
  then show ?thesis using purged_roles[OF assms(1)] by (auto simp: has_admin_def)
qed

lemma purged_keeps:
  "purged uid d d' \<Longrightarrow> admins_except X d \<Longrightarrow> admins_except (X \<union> {oid. only_admin d oid uid}) d'"
  using purged_wf purged_admin by (fastforce simp: admins_except_def wf_db_def purged_def)

text \<open>Organisations orphaned by a run: one of its requests is the deletion of the account of the only
  administrator at that moment, and it is carried out.\<close>

fun orphaned :: "(string \<Rightarrow> string \<Rightarrow> bool) \<Rightarrow> (string \<Rightarrow> string) \<Rightarrow> (request \<times> fails) list \<Rightarrow> db \<Rightarrow> nat \<Rightarrow> bool" where
  "orphaned like first32 [] d oid \<longleftrightarrow> False"
| "orphaned like first32 ((q, fl) # qs) d oid \<longleftrightarrow>
     (case q of QDeleteUser pd uid c ok \<Rightarrow> PayloadHasPerm pd ''site.user.delete'' \<and> only_admin d oid uid
          \<and> \<not> isMemberDB (serve like first32 q fl d) uid oid | _ \<Rightarrow> False)
     \<or> orphaned like first32 qs (serve like first32 q fl d) oid"

lemma admins_except_mono: "admins_except X d \<Longrightarrow> X \<subseteq> Y \<Longrightarrow> admins_except Y d"
  by (auto simp: admins_except_def)

lemma serve_keeps:
  assumes "admins_except X d"
  shows "admins_except (X \<union> {oid. orphaned like first32 [(q, fl)] d oid}) (serve like first32 q fl d)"
proof -
  have w: "wf_db d" using assms by (simp add: admins_except_def)
  have up: "admins_except X d' \<Longrightarrow> ?thesis" if "d' = serve like first32 q fl d" for d'
    unfolding that by (erule admins_except_mono) blast
  show ?thesis
    using w
  proof (cases rule: serve_cases[of d like first32 q fl])
    case 1
    show ?thesis by (rule up[OF refl]) (rule moved_keeps[OF 1 assms])
  next
    case (2 pd oid u)
    show ?thesis by (rule up[OF refl]) (rule retuned_keeps[OF 2(2) assms])
  next
    case (3 pd oid)
    show ?thesis by (rule up[OF refl]) (rule dissolved_keeps[OF 3(2) assms])
  next
    case (4 pd u c ok)
    have "\<not> isMemberDB (serve like first32 q fl d) u oid" for oid using 4(2) by (auto simp: isMemberDB_def purged_def)
    then show ?thesis using purged_keeps[OF 4(2) assms] 4(1,3) by simp
  next
    case (5 d1)
    show ?thesis by (rule up[OF refl]) (rule moved_keeps[OF 5(2) registered_keeps[OF 5(1) assms]])
  qed
qed

lemma run_keeps:
  "admins_except X d \<Longrightarrow> admins_except (X \<union> {oid. orphaned like first32 qs d oid}) (run like first32 qs d)"
proof (induction qs arbitrary: d X)
  case (Cons x qs)
  obtain q fl where x: "x = (q, fl)" by fastforce
  let ?Y = "X \<union> {oid. orphaned like first32 [(q, fl)] d oid}" and ?d = "serve like first32 q fl d"
  have "admins_except (?Y \<union> {oid. orphaned like first32 qs ?d oid}) (run like first32 qs ?d)"
    by (rule Cons.IH[OF serve_keeps[OF Cons.prems]])
  moreover have "?Y \<union> {oid. orphaned like first32 qs ?d oid} = X \<union> {oid. orphaned like first32 (x # qs) d oid}"
    unfolding x by auto
  ultimately show ?case unfolding x by simp
next
  case Nil
  have "X \<union> {oid. orphaned like first32 [] d oid} = X" by simp
  then show ?case using Nil by (simp only: run.simps)
qed

text \<open>C4: The deletion of an account is the only request that can take the last administrator from an
  organisation. After any sequence of requests, whatever writes fail, an organisation other than the public one has
  a member who is its administrator as long as its row exists; or the sequence holds a request, sent with the
  permission to delete accounts, that deletes the account of the user who is its only administrator at that moment.
  No request of the organisation service itself does: leaving, removal, appointment, deletion of squads and groups.\<close>

theorem organisation_keeps_admin:
  assumes "org_inv d" and "r \<in> set (d_orgs (run like first32 qs d))" and "\<not> is_public r"
  shows "(\<exists>u. roles (run like first32 qs d) (o_ID r, u) = Some OrgRoleOrgAdmin) \<or> orphaned like first32 qs d (o_ID r)"
  using run_keeps[of "{}" d like first32 qs] assms by (auto simp: org_inv_def admins_except_def has_admin_def)



text \<open>C18: No request lets an organisation other than the public one grow beyond its seat limit: afterwards it has
  at most as many seats taken as its limit allows, or as were taken before. (The seats of the public organisation
  count the users who are in no other one; they grow when somebody leaves another organisation.)\<close>

theorem seats_within_limit:
  assumes "wf_db d" and "r \<in> set (d_orgs d)" and "\<not> is_public r"
  shows "int (countOrgSeats (serve like first32 q fl d) r) \<le> max (int (countOrgSeats d r)) (effectiveSeatLimit (o_SeatLimit r))"
  using assms(1)
proof (cases rule: serve_cases[of d like first32 q fl])
  case 1
  show ?thesis by (rule limit_keptD[OF moved_limit[OF 1 assms(1)] assms(2,3)])
next
  case (2 pd oid u)
  have "countOrgSeats (serve like first32 q fl d) r = countOrgSeats d r"
    by (rule seats_members_users) (use 2(2) assms(3) in \<open>simp_all add: retuned_def\<close>)
  then show ?thesis by simp
next
  case (3 pd oid)
  have "countOrgSeats (serve like first32 q fl d) r \<le> countOrgSeats d r"
    by (rule seats_filter[OF assms(3)]) (use 3(2) in \<open>simp_all add: dissolved_def\<close>)
  then show ?thesis by simp
next
  case (4 pd u c ok)
  show ?thesis by (rule limit_keptD[OF purged_limit[OF 4(2)] assms(2,3)])
next
  case (5 d1)
  have "limit_kept d (serve like first32 q fl d)"
    by (rule limit_kept_trans[OF registered_limit[OF 5(1) assms(1)] moved_limit[OF 5(2) registered_wf[OF 5(1) assms(1)]]])
  then show ?thesis by (rule limit_keptD[OF _ assms(2,3)])
qed

subsection \<open>A small organisation\<close>

text \<open>Organisation 1 with two seats, the administrator 7 and the member 8; the public organisation 2; user 9 is
  in neither.\<close>

definition ex_org :: org where
  "ex_org = new_org 1 ''acme'' ''acme'' 2 OrgJoinAuto ''ABCD2345''"

definition ex_public :: org where
  "ex_public = (new_org 2 ''public'' PublicOrgSlug 50 OrgJoinAuto ''PPPP2345'')\<lparr>o_IsSystem := True\<rparr>"

definition ex_user :: "nat \<Rightarrow> string \<Rightarrow> user" where
  "ex_user i n = \<lparr>u_ID = i, u_Username = n, u_Name = n, u_IsSiteAdmin = False, u_RoleID = 0, u_CurrentOrgID = 2,
     u_GroupId = 0, u_WeeklyEmail = False, u_SubTier = '''', u_SubExpireAt = None,
     u_SubSource = '''', u_SubPendingTier = '''', u_SubPendingDays = 0, u_SubPendingSource = '''', u_SubReminded = 0,
     u_FetchOverride = None, u_AiOverride = None\<rparr>"

definition ex_member :: "nat \<Rightarrow> nat \<Rightarrow> string \<Rightarrow> member" where
  "ex_member oid i r = \<lparr>mb_Org = oid, mb_User = i, mb_Role = r, mb_Group = Some 3, mb_Display = ''x''\<rparr>"

definition ex_db :: db where
  "ex_db = \<lparr>d_orgs = [ex_org, ex_public], d_members = [ex_member 1 7 OrgRoleOrgAdmin, ex_member 1 8 OrgRoleMember],
     d_users = [ex_user 7 ''ann'', ex_user 8 ''bob'', ex_user 9 ''cyd''],
     d_groups = [\<lparr>g_ID = 3, g_Org = 1, g_Name = Some DefaultGroupName\<rparr>, \<lparr>g_ID = 4, g_Org = 1, g_Name = Some ''seniors''\<rparr>],
     d_squads = [\<lparr>sq_ID = 5, sq_Org = 1, sq_Group = 4, sq_Name = ''s'', sq_Describe = ''''\<rparr>],
     d_squad_members = [], d_grants = [], d_requests = [], d_invites = [], d_roles = [], d_role_perms = [],
     d_org_role_perms = [], d_user_roles = [], d_plans = [], d_seq = 10, d_now = 0\<rparr>"

definition ex_as :: "nat \<Rightarrow> JwtPayload option" where
  "ex_as i = Some (zero_payload\<lparr>UserID := i, OrgID := 1\<rparr>)"

definition no_fail :: fails where "no_fail = (\<lambda>_. False)"

definition ex_set_role :: "nat \<Rightarrow> string \<Rightarrow> set_role_req" where
  "ex_set_role u r = \<lparr>sr_Org = 1, sr_User = u, sr_Role = r, sr_Remove = False, sr_ScopeType = '''', sr_Scope = 0\<rparr>"

definition ex_requests :: "(request \<times> fails) list" where
  "ex_requests = map (\<lambda>q. (q, no_fail)) [QLeave (ex_as 7) 1 0, QSetRole (ex_as 7) (ex_set_role 8 OrgRoleOrgAdmin), QLeave (ex_as 7) 1 0]"

lemma ex_wf: "wf_db ex_db"
  by code_simp

lemma ex_inv: "org_inv ex_db"
proof -
  have "roles ex_db (1, 7) = Some OrgRoleOrgAdmin" by code_simp
  then have "has_admin ex_db 1" unfolding has_admin_def by blast
  moreover have "o_ID ex_org = 1" "is_public ex_public" "set (d_orgs ex_db) = {ex_org, ex_public}"
    by (code_simp, code_simp, simp add: ex_db_def)
  ultimately show ?thesis using ex_wf by (auto simp: org_inv_def admins_except_def)
qed


theorem organisation_keeps_admin_witness:
  "\<exists>u. u \<noteq> 7 \<and> roles (run (\<lambda>_ _. False) (take 32) ex_requests ex_db) (o_ID ex_org, u) = Some OrgRoleOrgAdmin"
proof -
  have "ex_org \<in> set (d_orgs (run (\<lambda>_ _. False) (take 32) ex_requests ex_db))" "\<not> is_public ex_org" by code_simp+
  from organisation_keeps_admin[OF ex_inv this]
  have "(\<exists>u. roles (run (\<lambda>_ _. False) (take 32) ex_requests ex_db) (o_ID ex_org, u) = Some OrgRoleOrgAdmin)
      \<or> orphaned (\<lambda>_ _. False) (take 32) ex_requests ex_db (o_ID ex_org)" .
  moreover have "\<not> orphaned (\<lambda>_ _. False) (take 32) ex_requests ex_db (o_ID ex_org)" by code_simp
  ultimately obtain u where "roles (run (\<lambda>_ _. False) (take 32) ex_requests ex_db) (o_ID ex_org, u) = Some OrgRoleOrgAdmin" by blast
  moreover have "roles (run (\<lambda>_ _. False) (take 32) ex_requests ex_db) (o_ID ex_org, 7) = None" by code_simp
  ultimately show ?thesis by (intro exI[of _ u]) auto
qed

theorem seats_within_limit_witness:
  "countOrgSeats (serve (\<lambda>_ _. False) (take 32) (QJoin (ex_as 9) ''abcd2345'' ''Cyd'') no_fail ex_db) ex_org \<le> 2"
proof -
  have "ex_org \<in> set (d_orgs ex_db)" "\<not> is_public ex_org" by code_simp+
  from seats_within_limit[OF ex_wf this, of "\<lambda>_ _. False" "take 32" "QJoin (ex_as 9) ''abcd2345'' ''Cyd''" no_fail]
  have "int (countOrgSeats (serve (\<lambda>_ _. False) (take 32) (QJoin (ex_as 9) ''abcd2345'' ''Cyd'') no_fail ex_db) ex_org)
      \<le> max (int (countOrgSeats ex_db ex_org)) (effectiveSeatLimit (o_SeatLimit ex_org))" .
  moreover have "countOrgSeats ex_db ex_org = 2" "effectiveSeatLimit (o_SeatLimit ex_org) = 2" by code_simp+
  ultimately show ?thesis by simp
qed

text \<open>The deletion of an account asks for the permission, not for another administrator: when the account of user 7
  is deleted, organisation 1 keeps its row and its member 8, and nobody administers it.\<close>

definition ex_deletion :: "(request \<times> fails) list" where
  "ex_deletion = [(QDeleteUser (Some (zero_payload\<lparr>UserID := 3, IsSiteAdmin := True\<rparr>)) 7 None True, no_fail)]"

lemma account_deletion_orphans:
  "map o_ID (d_orgs (run (\<lambda>_ _. False) (take 32) ex_deletion ex_db)) = [1, 2]"
  "map (\<lambda>m. (mb_User m, mb_Role m)) (d_members (run (\<lambda>_ _. False) (take 32) ex_deletion ex_db)) = [(8, OrgRoleMember)]"
  "orphaned (\<lambda>_ _. False) (take 32) ex_deletion ex_db 1"
  by code_simp+

end
