(* ===== verification/OrgPerms.thy ===== *)
theory OrgPerms
  imports OrgSystem
begin

text \<open>
  Permissions in an organisation: the custom roles in the database only ever hold permissions of their own
  scope, and under that a permission check on a freshly issued token gives the same answer as the check in the
  database.
\<close>

subsection \<open>Custom roles are well scoped\<close>

definition roles_ok :: "db \<Rightarrow> bool" where
  "roles_ok d \<longleftrightarrow> distinct (map ro_ID (d_roles d)) \<and> (\<forall>r\<in>set (d_roles d). ro_ID r \<le> d_seq d)
     \<and> (\<forall>(rid, c)\<in>set (d_role_perms d). rid \<le> d_seq d
         \<and> (\<forall>r\<in>set (d_roles d). ro_ID r = rid \<and> \<not> ro_IsSystem r \<longrightarrow> ScopeOf c = ro_Scope r))"

lemma ByCode_scope: "ByCode c = Some p \<Longrightarrow> ScopeOf c = p_scope p"
  by (simp add: ByCode_def ScopeOf_def split: option.splits)

lemma validate_loop_scope:
  "validate_loop scope ps out = Inr cs \<Longrightarrow> \<forall>c\<in>set out. ScopeOf c = scope \<Longrightarrow> \<forall>c\<in>set cs. ScopeOf c = scope"
proof (induction scope ps out arbitrary: cs rule: validate_loop.induct)
  case (2 scope p ps out)
  let ?c = "trim_space p"
  show ?case
  proof (cases "?c = '''' \<or> ?c \<in> set out")
    case True
    then show ?thesis using "2.IH"(1)[OF refl True, of cs] "2.prems" by auto
  next
    case False
    then obtain q where q: "ByCode ?c = Some q" "p_scope q = scope" "validate_loop scope ps (out @ [?c]) = Inr cs"
      using "2.prems"(1) by (auto simp: Let_def split: option.splits if_split_asm)
    then show ?thesis using "2.IH"(2)[OF refl False q(1), of cs] "2.prems"(2) ByCode_scope[OF q(1)] by auto
  qed
qed simp

lemma validated_scope: "validateRolePerms scope ps = Inr cs \<Longrightarrow> c \<in> set cs \<Longrightarrow> ScopeOf c = scope"
  unfolding validateRolePerms_def using validate_loop_scope[of scope ps "[]" cs] by simp

lemma roles_ok_create_perms:
  assumes "roles_ok d" and "rid \<le> d_seq d" and "\<And>r c. r \<in> set (d_roles d) \<Longrightarrow> ro_ID r = rid \<Longrightarrow> c \<in> set cs \<Longrightarrow> ScopeOf c = ro_Scope r"
  shows "roles_ok (create_perms fl rid cs d)"
  using assms
proof (induction cs arbitrary: d)
  case (Cons c cs)
  let ?f = "\<lambda>d. if (rid, c) \<in> set (d_role_perms d) then d else d\<lparr>d_role_perms := d_role_perms d @ [(rid, c)]\<rparr>"
  let ?d = "put fl (''role_permissions.create:'' @ c) ?f d"
  have t: "d_roles ?d = d_roles d" "d_seq ?d = d_seq d" "set (d_role_perms ?d) \<subseteq> insert (rid, c) (set (d_role_perms d))"
    by (auto simp: exec_def)
  have "roles_ok ?d" using Cons.prems t unfolding roles_ok_def by fastforce
  then show ?case using Cons.IH[of ?d] Cons.prems(2,3) t by simp
qed simp

lemma roles_ok_map:
  assumes "roles_ok d" and "\<And>r. ro_ID (f r) = ro_ID r \<and> ro_Scope (f r) = ro_Scope r \<and> ro_IsSystem (f r) = ro_IsSystem r"
  shows "roles_ok (d\<lparr>d_roles := map f (d_roles d)\<rparr>)"
  using assms unfolding roles_ok_def by (auto simp: comp_def)

lemma roles_ok_same:
  "d_roles d' = d_roles d \<Longrightarrow> d_role_perms d' = d_role_perms d \<Longrightarrow> d_seq d' = d_seq d \<Longrightarrow> roles_ok d' = roles_ok d"
  by (simp add: roles_ok_def)

lemma roles_ok_RoleCreate:
  assumes "roles_ok d" and "RoleCreate pd scope name desc oid perms code fl d = (d', res)"
  shows "roles_ok d'"
proof -
  have old: "ro_ID x \<noteq> next_id d" if "x \<in> set (d_roles d)" for x
    using assms(1) that by (force simp: roles_ok_def next_id_def)
  have oldp: "rid \<noteq> next_id d" if "(rid, c) \<in> set (d_role_perms d)" for rid c
    using assms(1) that by (force simp: roles_ok_def next_id_def)
  have A: "roles_ok (drawn d\<lparr>d_roles := d_roles d @ [r]\<rparr>)" if "ro_ID r = next_id d" for r
    using assms(1) that old oldp by (fastforce simp: roles_ok_def drawn_def next_id_def)
  have B: "roles_ok (create_perms fl (next_id d) cs (drawn d\<lparr>d_roles := d_roles d @ [r]\<rparr>))"
    if "ro_ID r = next_id d" "validateRolePerms (ro_Scope r) perms = Inr cs" for r cs
    by (rule roles_ok_create_perms[OF A[OF that(1)]])
      (use that(1) old validated_scope[OF that(2)] in \<open>auto simp: drawn_def next_id_def\<close>)
  show ?thesis
    using assms unfolding RoleCreate_def Let_def
    by (auto simp: exec_eq A B split: option.splits if_split_asm sum.splits prod.splits bool.splits)
qed

lemma roles_ok_sync:
  assumes "roles_ok d" and "r \<in> set (d_roles d)" and "\<And>c. c \<in> set cs \<Longrightarrow> ScopeOf c = ro_Scope r"
  shows "roles_ok (syncRolePermsService fl (ro_ID r) cs d)"
  unfolding syncRolePermsService_def
proof (rule roles_ok_create_perms)
  have one: "x = r" if "x \<in> set (d_roles d)" "ro_ID x = ro_ID r" for x
    using that assms(1,2) by (auto simp: roles_ok_def distinct_map dest: inj_onD)
  show "roles_ok (d\<lparr>d_role_perms := filter P (d_role_perms d)\<rparr>)" for P
    using assms(1) by (auto simp: roles_ok_def)
  show "ScopeOf c = ro_Scope x" if "x \<in> set (d_roles (d\<lparr>d_role_perms := ps\<rparr>))" "ro_ID x = ro_ID r"
      "c \<in> set (filter Q (remdups cs))" for x c ps Q
    using one[of x] that assms(3) by simp
qed (use assms(1,2) in \<open>simp add: roles_ok_def\<close>)

lemma roles_ok_RoleUpdate:
  assumes "roles_ok d" and "RoleUpdate pd rid oid nm ds ps reset fl d = (d', res)"
  shows "roles_ok d'"
proof (cases "d' = d")
  case False
  then obtain p where p: "pd = Some p" using assms(2) by (cases pd) (auto simp: RoleUpdate_def)
  show ?thesis
  proof (cases "updateSystemOrgRolePerms p rid oid ps reset (nm \<noteq> None \<or> ds \<noteq> None) fl d")
    case (Some x)
    then have "updateSystemOrgRolePerms p rid oid ps reset (nm \<noteq> None \<or> ds \<noteq> None) fl d = Some (d', res)"
      using assms(2) False p by (auto simp: RoleUpdate_def split: if_split_asm)
    then have "d_roles d' = d_roles d \<and> d_role_perms d' = d_role_perms d \<and> d_seq d' = d_seq d"
      unfolding updateSystemOrgRolePerms_def Let_def
      by (auto simp: exec_eq set_override_def exec_def split: option.splits if_split_asm sum.splits prod.splits)
    then show ?thesis using roles_ok_same assms(1) by blast
  next
    case None
    let ?up = "\<lambda>x. if ro_ID x = rid then x\<lparr>ro_Name := (case map_option trim_space nm of None \<Rightarrow> ro_Name x | Some s \<Rightarrow> s),
             ro_Description := (case map_option trim_space ds of None \<Rightarrow> ro_Description x | Some s \<Rightarrow> s)\<rparr> else x"
    obtain d1 ok where e: "(if map_option trim_space nm = None \<and> map_option trim_space ds = None then (d, True)
        else exec fl ''roles.update'' (\<lambda>d. d\<lparr>d_roles := map ?up (d_roles d)\<rparr>) d) = (d1, ok)"
      by fastforce
    have ok2: "roles_ok (d\<lparr>d_roles := map ?up (d_roles d)\<rparr>)" by (rule roles_ok_map) (use assms(1) in simp_all)
    then have ok1: "roles_ok d1" using e assms(1) by (auto simp: exec_eq split: if_split_asm)
    obtain r where r: "loadEditableRole p d rid = Inr r"
      using assms(2) False p None by (cases "loadEditableRole p d rid") (auto simp: RoleUpdate_def split: if_split_asm)
    then have f: "r \<in> set (d_roles d)" "ro_ID r = rid"
      unfolding loadEditableRole_def find_role_def by (auto simp: find_Some_iff split: option.splits if_split_asm)
    obtain r1 where r1: "r1 \<in> set (d_roles d1)" "ro_ID r1 = rid" "ro_Scope r1 = ro_Scope r"
    proof -
      have m: "?up r \<in> set (map ?up (d_roles d))" using f(1) by (simp only: set_map) (rule imageI)
      have "d1 = d \<or> d_roles d1 = map ?up (d_roles d)" using e by (auto simp: exec_eq split: if_split_asm)
      then show ?thesis
      proof
        assume "d_roles d1 = map ?up (d_roles d)"
        then have "?up r \<in> set (d_roles d1)" using m by simp
        then show ?thesis using that[of "?up r"] f(2) by simp
      qed (use that f in blast)
    qed
    have "d' = d \<or> d' = d1 \<or> (\<exists>cs qs. validateRolePerms (ro_Scope r) qs = Inr cs \<and> d' = syncRolePermsService fl rid cs d1)"
      using assms(2) unfolding RoleUpdate_def Let_def p option.case None r sum.case e prod.case
      by (auto split: if_split_asm bool.splits option.splits sum.splits)
    then show ?thesis using assms(1) ok1 roles_ok_sync[OF ok1 r1(1)] validated_scope r1(2,3) by metis
  qed
qed (use assms(1) in simp)

lemma roles_ok_filter:
  "roles_ok d \<Longrightarrow> roles_ok (d\<lparr>d_user_roles := us, d_role_perms := filter P (d_role_perms d), d_roles := filter Q (d_roles d)\<rparr>)"
  by (fastforce simp: roles_ok_def distinct_map_filter)

lemma roles_ok_RoleDelete: "roles_ok d \<Longrightarrow> RoleDelete pd rid fl d = (d', res) \<Longrightarrow> roles_ok d'"
  unfolding RoleDelete_def
  by (auto simp: exec_eq roles_ok_filter split: option.splits if_split_asm sum.splits prod.splits)

text \<open>C20: A custom role holds permissions of its own scope only, site or organisation, whatever is requested
  when it is created or edited; the well-formedness of the tables of roles survives creating, editing and
  deleting roles.\<close>

theorem custom_roles_well_scoped:
  assumes "roles_ok d"
  shows "roles_ok (fst (RoleCreate pd scope name desc oid perms code fl d))
    \<and> roles_ok (fst (RoleUpdate pd rid oid nm ds ps reset fl d)) \<and> roles_ok (fst (RoleDelete pd rid fl d))"
  using roles_ok_RoleCreate[OF assms] roles_ok_RoleUpdate[OF assms] roles_ok_RoleDelete[OF assms]
  by (metis surjective_pairing)

subsection \<open>The token and the database\<close>

lemma token_org_role:
  assumes "token_org fl u d = (d', oid, role)" and "oid \<noteq> 0"
  shows "role = (case find_member d oid (u_ID u) of None \<Rightarrow> '''' | Some m \<Rightarrow> mb_Role m)"
    and "d' = d \<or> (\<exists>i. d' = upd_user (u_ID u) (\<lambda>x. x\<lparr>u_CurrentOrgID := i\<rparr>) d)"
  using assms
  by (auto simp: token_org_def Let_def member_role_def exec_def split: option.splits if_split_asm)

lemma loadUser_upd:
  "loadUser d uid = Some u \<Longrightarrow> (\<And>x. u_ID (f x) = u_ID x) \<Longrightarrow> loadUser (upd_user uid f d) uid = Some (f u)"
proof -
  assume l: "loadUser d uid = Some u" and f: "\<And>x. u_ID (f x) = u_ID x"
  have P: "(\<lambda>x. u_ID (if u_ID x = uid then f x else x) = uid) = (\<lambda>x. u_ID x = uid)" using f by auto
  have "u_ID u = uid" using l by (auto simp: loadUser_def find_Some_iff)
  then show "loadUser (upd_user uid f d) uid = Some (f u)"
    using l by (simp add: loadUser_def upd_user_def find_map P)
qed

lemma scope_neq: "ScopeSite \<noteq> ScopeOrg" "ScopeOrg \<noteq> ''''"
  by code_simp+

lemma Valid_scope: "ScopeOf c = ScopeOrg \<Longrightarrow> Valid c"
  using scope_neq(2) by (auto simp: ScopeOf_def Valid_def split: option.splits)

lemma Valid_AllCodes: "Valid c \<longleftrightarrow> c \<in> set AllCodes"
  by (auto simp: Valid_iff AllCodes_def)

lemma site_role_no_org_perm:
  assumes "roles_ok d" and "ScopeOf c = ScopeOrg"
  shows "custom_perm d (\<lambda>ur r. ur_User ur = uid \<and> (ur_Org ur = 0 \<and> ro_Scope r = ScopeSite \<or> ur_Org ur = oid)) c
    = custom_perm d (\<lambda>ur r. ur_User ur = uid \<and> ur_Org ur = oid) c"
  using assms scope_neq(1) unfolding custom_perm_def roles_ok_def by fastforce

text \<open>C15: The two ways the services check a permission of organisation scope agree on a freshly issued token:
  the bit mask in the token grants it in the token's organisation exactly when the database grants it to that
  user there, through the built-in role with the organisation's override, a custom role or site
  administration.\<close>

theorem token_agrees_with_database:
  assumes "IssueJWT fl now u d = (d', tok)" and "loadUser d (u_ID u) = Some u" and "u_ID u \<noteq> 0" and "OrgID tok \<noteq> 0"
    and "roles_ok d" and "ScopeOf c = ScopeOrg"
  shows "HasOrgPerm (Some tok) (OrgID tok) c = hasPermInOrgDB d' (u_ID u) (OrgID tok) c"
proof -
  obtain oid role where t: "token_org fl u d = (d', oid, role)"
    using assms(1) by (auto simp: IssueJWT_def split: prod.splits)
  then have tok: "tok = \<lparr>UserID = u_ID u, Username = u_Username u, Name = u_Name u, Email = '''',
      RoleID = (if u_IsSiteAdmin u then 1 else if u_RoleID u = 1 then 0 else u_RoleID u),
      IsSiteAdmin = u_IsSiteAdmin u, OrgID = oid, OrgRole = role,
      Pm = Encode (collectUserPerms d' u oid role), ExpiresAt = Some (now + 7 * 24 * 3600)\<rparr>"
    using assms(1) by (simp add: IssueJWT_def)
  then have oid: "oid \<noteq> 0" "OrgID tok = oid" using assms(4) by simp_all
  note r = token_org_role[OF t oid(1)]
  have same: "find_member d' = find_member d" "d_roles d' = d_roles d" "d_role_perms d' = d_role_perms d" "d_seq d' = d_seq d"
    using r(2) by (auto simp: find_member_def upd_user_def fun_eq_iff)
  obtain v where v: "loadUser d' (u_ID u) = Some v" "u_IsSiteAdmin v = u_IsSiteAdmin u" "u_RoleID v = u_RoleID u"
    using r(2) assms(2) loadUser_upd[OF assms(2)] by fastforce
  have ok: "roles_ok d'" using assms(5) same by (simp add: roles_ok_def)
  have pm: "PayloadHasPerm (Some tok) c \<longleftrightarrow> u_IsSiteAdmin u \<or> c \<in> set (collectUserPerms d' u oid role)"
    using mask_has_encode Valid_scope[OF assms(6)] by (auto simp: tok PayloadHasPerm_def RoleAdmin_def split: prod.splits)
  have has: "HasOrgPerm (Some tok) (OrgID tok) c \<longleftrightarrow> u_IsSiteAdmin u \<or> c \<in> set (collectUserPerms d' u oid role)"
    using pm oid by (auto simp: HasOrgPerm_def tok RoleAdmin_def)
  show ?thesis
  proof (cases "is_site_admin_row u")
    case True
    then show ?thesis using has v oid assms(3) Valid_scope[OF assms(6)] Valid_AllCodes
      by (auto simp: hasPermInOrgDB_def is_site_admin_row_def collectUserPerms_def)
  next
    case False
    have "c \<in> set (collectUserPerms d' u oid role) \<longleftrightarrow>
        (role \<noteq> '''' \<and> c \<in> set (orgRolePerms d' oid role)) \<or> custom_perm d' (\<lambda>ur r. ur_User ur = u_ID u \<and> ur_Org ur = oid) c"
      using False Valid_scope[OF assms(6)] Valid_AllCodes site_role_no_org_perm[OF ok assms(6)]
      by (simp add: collectUserPerms_def)
    moreover have "hasPermInOrgDB d' (u_ID u) oid c \<longleftrightarrow>
        (role \<noteq> '''' \<and> c \<in> set (orgRolePerms d' oid role)) \<or> custom_perm d' (\<lambda>ur r. ur_User ur = u_ID u \<and> ur_Org ur = oid) c"
      using False v r(1) same(1) oid assms(3)
      by (auto simp: hasPermInOrgDB_def is_site_admin_row_def orgTemplateHas_def split: option.splits)
    ultimately show ?thesis using has False oid by (auto simp: is_site_admin_row_def)
  qed
qed

subsection \<open>The small organisation\<close>

lemma ex_roles_ok: "roles_ok ex_db"
  by code_simp

theorem custom_roles_well_scoped_witness:
  "roles_ok (fst (RoleCreate (ex_as 7) '''' ''scribe'' '''' 1 [''org.member.add'', '' org.member.role ''] ''K'' no_fail ex_db))
   \<and> d_role_perms (fst (RoleCreate (ex_as 7) '''' ''scribe'' '''' 1 [''org.member.add'', '' org.member.role ''] ''K'' no_fail ex_db))
       = [(11, ''org.member.add''), (11, ''org.member.role'')]
   \<and> RoleCreate (ex_as 7) '''' ''scribe'' '''' 1 [''site.user.delete''] ''K'' no_fail ex_db = (ex_db, Inl ''scope mismatch'')"
proof (intro conjI)
  show "roles_ok (fst (RoleCreate (ex_as 7) '''' ''scribe'' '''' 1 [''org.member.add'', '' org.member.role ''] ''K'' no_fail ex_db))"
    using custom_roles_well_scoped[OF ex_roles_ok] by blast
qed code_simp+

definition ex_db_switched :: db where
  "ex_db_switched = upd_user 7 (\<lambda>u. u\<lparr>u_CurrentOrgID := 1\<rparr>) ex_db"

definition ex_switched :: user where
  "ex_switched = (ex_user 7 ''ann'')\<lparr>u_CurrentOrgID := 1\<rparr>"

theorem token_agrees_with_database_witness:
  "HasOrgPerm (Some (snd (IssueJWT no_fail 0 ex_switched ex_db_switched))) 1 ''org.member.role''"
proof -
  let ?r = "IssueJWT no_fail 0 ex_switched ex_db_switched"
  have r: "?r = (fst ?r, snd ?r)" by simp
  have u: "loadUser ex_db_switched (u_ID ex_switched) = Some ex_switched" "u_ID ex_switched \<noteq> 0"
    by (simp add: loadUser_def ex_db_switched_def ex_switched_def upd_user_def ex_db_def ex_user_def, code_simp)
  have t: "token_org no_fail ex_switched ex_db_switched = (ex_db_switched, 1, OrgRoleOrgAdmin)" by code_simp
  then have o': "OrgID (snd ?r) = 1" "fst ?r = ex_db_switched" by (simp_all add: IssueJWT_def)
  have ok: "roles_ok ex_db_switched" "ScopeOf ''org.member.role'' = ScopeOrg" by code_simp+
  have "hasPermInOrgDB ex_db_switched (u_ID ex_switched) 1 ''org.member.role''" by code_simp
  then show ?thesis using token_agrees_with_database[OF r u _ ok] o' by simp
qed

end
