(* ===== verification/OrgRanks.thy ===== *)
theory OrgRanks
  imports OrgSystem
begin

text \<open>
  Appointments and the ranks of the roles: what a \<open>SetRole\<close> by somebody who is not a site administrator can
  change, and the ways around it: an invitation hands out any role, and the scopes of somebody who left are
  still there when they come back.
\<close>

subsection \<open>Ranks\<close>

definition rank :: "string option \<Rightarrow> int" where
  "rank r = (case r of None \<Rightarrow> 0 | Some s \<Rightarrow> OrgRoleRank s)"

lemma rank_simps [simp]: "rank None = 0" "rank (Some r) = OrgRoleRank r"
  by (simp_all add: rank_def)

lemma rank_bounds: "0 \<le> OrgRoleRank r" "OrgRoleRank r \<le> 40"
  by (simp_all add: OrgRoleRank_def)

lemma rank_values [simp]: "OrgRoleRank OrgRoleMember = 0" "OrgRoleRank OrgRoleCaptain = 10"
  "OrgRoleRank OrgRoleGroupLeader = 20" "OrgRoleRank OrgRoleCoach = 30" "OrgRoleRank OrgRoleOrgAdmin = 40"
  "OrgRoleRank '''' = 0"
  by code_simp+

text \<open>A role computed from scopes is the old one, or ranks at most as a group leader's when the old one does.\<close>

lemma effective_rank:
  "EffectiveRoleFromGrants c g s = c \<or> OrgRoleRank (EffectiveRoleFromGrants c g s) \<le> 20 \<and> OrgRoleRank c \<le> 20"
  by (auto simp: EffectiveRoleFromGrants_def OrgRoleRank_def)

text \<open>What recomputing a role from scopes does to the roles.\<close>

lemma sync_roles_effect:
  assumes "syncRoleFromGrants fl oid uid hint d = (d', final)"
  shows "roles d' = roles d \<or> (\<exists>c. roles d (oid, uid) = Some c \<and> roles d' = (roles d)((oid, uid) \<mapsto> final)
    \<and> final = EffectiveRoleFromGrants (if c = '''' then hint else c) (has_grant d oid uid ScopeTypeGroup) (has_grant d oid uid ScopeTypeSquad))"
proof -
  let ?cur = "current_role d oid uid hint"
  let ?f = "EffectiveRoleFromGrants ?cur (has_grant d oid uid ScopeTypeGroup) (has_grant d oid uid ScopeTypeSquad)"
  define d1 where "d1 = (if ?f \<noteq> ?cur then put fl ''members.role'' (set_role oid uid ?f) d else d)"
  have "d' = syncOrgMemberSystemRole fl oid uid d1" and f: "final = ?f"
    using assms unfolding syncRoleFromGrants_def Let_def d1_def by auto
  then have r: "roles d' = roles d1" using same_core_roles same_core_sync by blast
  show ?thesis
  proof (cases "roles d (oid, uid)")
    case None
    then show ?thesis using r by (auto simp: d1_def exec_def set_role_roles)
  next
    case (Some c)
    then have "?cur = (if c = '''' then hint else c)" by (auto simp: current_role_def roles_Some)
    then show ?thesis using r Some f by (auto simp: d1_def exec_def set_role_roles)
  qed
qed

lemma grant_roles: "addUserScopeGrant fl oid uid st sid d = (d', ok) \<Longrightarrow> roles d' = roles d"
  using same_core_roles same_core_grant by blast

lemma grant_given: "addUserScopeGrant fl oid uid st sid d = (d', True) \<Longrightarrow> has_grant d' oid uid st"
  by (auto simp: addUserScopeGrant_def has_grant_def list_ex_iff exec_eq split: if_split_asm)

lemma enter_roles:
  assumes "enter inOrg fl oid uid role d = (d', res)"
  shows "roles d' = roles d \<or> \<not> inOrg \<and> roles d (oid, uid) = None \<and>
    roles d' = (roles d)((oid, uid) \<mapsto> (if ValidOrgRole role then role else OrgRoleMember))"
proof -
  have join: "roles d2 = roles d1 \<or> roles d2 = (roles d1)((oid, uid) \<mapsto> (if ValidOrgRole role then role else OrgRoleMember))"
    if "(case exec fl ''members.create'' (add_member \<lparr>mb_Org = oid, mb_User = uid, mb_Role = (if ValidOrgRole role then role else OrgRoleMember),
           mb_Group = Some gid, mb_Display = nm\<rparr>) d1 of (d1, ok) \<Rightarrow> (d1, if ok then Inr () else Inl ''db'')) = (d2, r2)"
      "find_member d1 oid uid = None" for d1 d2 gid nm and r2 :: "string + unit"
    using that by (auto simp: exec_eq add_member_roles split: prod.splits if_split_asm)
  have grp: "roles d2 = roles d1" if "(case exec fl ''members.group'' (upd_member oid uid (\<lambda>x. x\<lparr>mb_Group := Some gid\<rparr>)) d1 of
       (d1, ok) \<Rightarrow> (d1, if ok then Inr () else Inl ''db'')) = (d2, r2)" for d1 d2 gid and r2 :: "string + unit"
    using that by (auto simp: exec_eq upd_member_roles split: prod.splits if_split_asm)
  have jg: "\<exists>d1 gid r. same_core d d1 \<and> (d2 = d \<or> k gid d1 = (d2, r))" if "join_group fl oid k d = (d2, r2)" for k d2 r2
  proof (cases "default_group d oid")
    case None
    obtain d1 ok where e: "exec fl ''groups.create'' (add_group oid DefaultGroupName) d = (d1, ok)" by fastforce
    have "same_core d d1" by (rule same_core_exec[OF e]) simp
    then show ?thesis using that None e unfolding join_group_def
      by (cases ok; cases "k (next_id d) d1"; cases "snd (k (next_id d) d1)") (auto simp: case_unit_Unity)
  qed (use that in \<open>auto simp: join_group_def\<close>)
  obtain d1 r1 where t: "add_member_tx fl oid uid role (display_name d uid) d = (d1, r1)" by fastforce
  have "roles d1 = roles d \<or> roles d (oid, uid) = None \<and>
      roles d1 = (roles d)((oid, uid) \<mapsto> (if ValidOrgRole role then role else OrgRoleMember))"
  proof (cases "find_member d oid uid")
    case (Some m)
    then show ?thesis using t grp jg same_core_roles unfolding add_member_tx_def
      by (auto split: option.splits if_split_asm dest!: jg)
  next
    case None
    let ?k = "\<lambda>gid e. case exec fl ''members.create'' (add_member \<lparr>mb_Org = oid, mb_User = uid,
        mb_Role = (if ValidOrgRole role then role else OrgRoleMember), mb_Group = Some gid, mb_Display = trim_space (display_name d uid)\<rparr>) e of
        (d1, ok) \<Rightarrow> (d1, if ok then Inr () else Inl ''db'')"
    have "d1 = d \<or> join_group fl oid ?k d = (d1, r1)"
      using t None unfolding add_member_tx_def by (auto split: option.splits if_split_asm)
    then show ?thesis
    proof
      assume "join_group fl oid ?k d = (d1, r1)"
      from jg[OF this] obtain e gid r where e: "same_core d e" "d1 = d \<or> ?k gid e = (d1, r)" by blast
      have "find_member e oid uid = None" using same_core_queries(2)[OF e(1)] None by simp
      then show ?thesis using e join[of gid "trim_space (display_name d uid)" e d1 r] same_core_roles[OF e(1)] None
        by (auto simp: roles_None)
    qed simp
  qed
  then show ?thesis
    using assms t same_core_roles[OF same_core_trans[OF same_core_sync same_core_overrides(1)]] same_core_roles[OF same_core_default(1)]
    unfolding enter_def addOrgMemberAtomic_def
    by (cases inOrg; cases r1) (auto simp: case_unit_Unity)
qed

subsection \<open>Appointments\<close>

lemma can_appoint:
  "CanAppointOrgRole a t n \<Longrightarrow> 20 \<le> OrgRoleRank a \<and> OrgRoleRank n \<le> OrgRoleRank a \<and> OrgRoleRank t \<le> OrgRoleRank a
     \<and> (OrgRoleRank t = OrgRoleRank a \<longrightarrow> OrgRoleRank n = OrgRoleRank a)"
  by (auto simp: CanAppointOrgRole_def Let_def split: if_split_asm)

text \<open>The promise: a change concerns the named user only, takes nobody of a higher rank, gives no higher rank,
  and leaves somebody of the same rank at it.\<close>

definition rank_ok :: "nat \<Rightarrow> nat \<Rightarrow> int \<Rightarrow> db \<Rightarrow> db \<Rightarrow> bool" where
  "rank_ok oid uid a d d' \<longleftrightarrow> roles d' = roles d \<or>
     (\<exists>r. roles d' = (roles d)((oid, uid) \<mapsto> r) \<and> OrgRoleRank r \<le> a \<and> rank (roles d (oid, uid)) \<le> a
        \<and> (rank (roles d (oid, uid)) = a \<longrightarrow> OrgRoleRank r = a))"

lemma remove_scope_rank:
  assumes "remove_scope p q False ar tc inOrg fl d = (d', res)" and "20 \<le> OrgRoleRank ar"
    and "tc = (case roles d (sr_Org q, sr_User q) of None \<Rightarrow> OrgRoleMember | Some r \<Rightarrow> r)"
  shows "rank_ok (sr_Org q) (sr_User q) (OrgRoleRank ar) d d'"
proof (cases "d' = d")
  case False
  then obtain P where s: "\<exists>final. syncRoleFromGrants fl (sr_Org q) (sr_User q) tc (put fl ''grants.delete'' (del_grants P) d) = (d', final)"
      and lt: "OrgRoleRank tc < OrgRoleRank ar"
    using assms(1) unfolding remove_scope_def Let_def by (auto split: if_split_asm prod.splits)
  let ?e = "put fl ''grants.delete'' (del_grants P) d"
  have re: "roles ?e = roles d" by (rule same_core_roles, rule same_core_put) simp
  obtain final where f: "syncRoleFromGrants fl (sr_Org q) (sr_User q) tc ?e = (d', final)" using s by blast
  show ?thesis
  proof (cases "roles d' = roles d")
    case False
    then obtain c where c: "roles d (sr_Org q, sr_User q) = Some c" "roles d' = (roles d)((sr_Org q, sr_User q) \<mapsto> final)"
        and fin: "\<exists>g s. final = EffectiveRoleFromGrants (if c = '''' then tc else c) g s"
      using sync_roles_effect[OF f] re by auto
    have "tc = c" using assms(3) c(1) by simp
    then obtain g s where "final = EffectiveRoleFromGrants c g s" using fin by auto
    then show ?thesis using c lt assms(2) \<open>tc = c\<close> effective_rank[of c g s] unfolding rank_ok_def by auto
  qed (simp add: rank_ok_def)
qed (simp add: rank_ok_def)

lemma give_scope_rank:
  assumes "give_scope fl q st tc d = (d', res)"
    and "tc = (case roles d (sr_Org q, sr_User q) of None \<Rightarrow> OrgRoleMember | Some r \<Rightarrow> r)"
    and "RoleNeedsScope (sr_Role q) = (st, True)" and "CanAppointOrgRole ar tc (sr_Role q)"
  shows "rank_ok (sr_Org q) (sr_User q) (OrgRoleRank ar) d d'"
  using assms(1)
proof (cases rule: give_scope_cases)
  case failed
  then show ?thesis by (simp add: rank_ok_def same_core_roles)
next
  case (given d1 d2 final)
  have r2: "roles d2 = roles d" using grant_roles[OF given(1)] same_core_roles[OF same_core_join_squad] given(2) by simp
  have g2: "has_grant d2 (sr_Org q) (sr_User q) st"
    using grant_given[OF given(1)] given(2) by (simp add: join_squad_def has_grant_def exec_def add_squad_member_def)
  have ca: "20 \<le> OrgRoleRank ar" "OrgRoleRank tc \<le> OrgRoleRank ar"
      "OrgRoleRank tc = OrgRoleRank ar \<Longrightarrow> OrgRoleRank (sr_Role q) = OrgRoleRank ar"
    using can_appoint[OF assms(4)] by blast+
  show ?thesis
  proof (cases "roles d' = roles d")
    case False
    then obtain c where c: "roles d (sr_Org q, sr_User q) = Some c" "roles d' = (roles d)((sr_Org q, sr_User q) \<mapsto> final)"
        and fin: "final = EffectiveRoleFromGrants (if c = '''' then base_role q tc else c)
           (has_grant d2 (sr_Org q) (sr_User q) ScopeTypeGroup) (has_grant d2 (sr_Org q) (sr_User q) ScopeTypeSquad)"
      using sync_roles_effect[OF given(3)] r2 by auto
    have tc: "tc = c" using assms(2) c(1) by simp
    have b: "(if c = '''' then base_role q tc else c) = c" by (simp add: tc base_role_def)
    have need: "sr_Role q = OrgRoleCaptain \<or> sr_Role q = OrgRoleGroupLeader \<and> st = ScopeTypeGroup"
      using assms(3) by (auto simp: RoleNeedsScope_def split: if_split_asm)
    have "OrgRoleRank final = OrgRoleRank ar" if "OrgRoleRank c = OrgRoleRank ar"
    proof -
      have "OrgRoleRank (sr_Role q) = OrgRoleRank ar" using ca(3) tc that by simp
      then have gl: "OrgRoleRank ar = 20" "st = ScopeTypeGroup" using need ca(1) by auto
      have "OrgRoleRank c = 20" using that gl(1) by simp
      then have "c = OrgRoleGroupLeader" unfolding OrgRoleRank_def by (simp split: if_split_asm)
      then show ?thesis using fin b g2 gl by (simp add: EffectiveRoleFromGrants_def)
    qed
    moreover have "final = c \<or> OrgRoleRank final \<le> 20" unfolding fin b using effective_rank by blast
    ultimately show ?thesis using c ca tc unfolding rank_ok_def by auto
  qed (simp add: rank_ok_def)
qed

lemma enter_rank:
  assumes "enter inOrg fl oid uid OrgRoleMember d = (d', res)"
  shows "roles d' = roles d \<or> \<not> inOrg \<and> roles d (oid, uid) = None \<and> roles d' = (roles d)((oid, uid) \<mapsto> OrgRoleMember)"
  using enter_roles[OF assms] by (simp add: ValidOrgRole_def)

lemma appoint_scoped_rank:
  assumes "appoint_scoped p q False ar tc inOrg fl d = (d', res)"
    and "tc = (case roles d (sr_Org q, sr_User q) of None \<Rightarrow> OrgRoleMember | Some r \<Rightarrow> r)"
    and "snd (RoleNeedsScope (sr_Role q))" and "CanAppointOrgRole ar tc (sr_Role q)"
  shows "rank_ok (sr_Org q) (sr_User q) (OrgRoleRank ar) d d'"
proof -
  let ?k = "(sr_Org q, sr_User q)" and ?st = "fst (RoleNeedsScope (sr_Role q))"
  have a: "20 \<le> OrgRoleRank ar" using can_appoint[OF assms(4)] by blast
  obtain d1 r1 where e: "enter inOrg fl (sr_Org q) (sr_User q) OrgRoleMember d = (d1, r1)" by fastforce
  note er = enter_rank[OF e]
  have "d' = d \<or> d' = d1 \<or> (\<exists>r. give_scope fl q ?st tc d1 = (d', r))"
    using assms(1) e unfolding appoint_scoped_def Let_def
    by (cases r1) (auto simp: case_unit_Unity split: if_split_asm)
  then consider "d' = d" | "d' = d1" | r where "give_scope fl q ?st tc d1 = (d', r)" by blast
  then show ?thesis
  proof cases
    case 2
    then show ?thesis using er a unfolding rank_ok_def by auto
  next
    case (3 r)
    have need: "RoleNeedsScope (sr_Role q) = (?st, True)" using assms(3) by (metis prod.collapse)
    have tc: "tc = (case roles d1 ?k of None \<Rightarrow> OrgRoleMember | Some r \<Rightarrow> r)" using er assms(2) by (auto split: option.splits)
    have "rank_ok (sr_Org q) (sr_User q) (OrgRoleRank ar) d1 d'" by (rule give_scope_rank[OF 3 tc need assms(4)])
    then show ?thesis using er a unfolding rank_ok_def by auto
  qed (simp add: rank_ok_def)
qed

lemma appoint_plain_rank:
  assumes "appoint_plain q inOrg fl d = (d', res)" and "inOrg = (roles d (sr_Org q, sr_User q) \<noteq> None)"
    and "tc = (case roles d (sr_Org q, sr_User q) of None \<Rightarrow> OrgRoleMember | Some r \<Rightarrow> r)"
    and "ValidOrgRole (sr_Role q)" and "CanAppointOrgRole ar tc (sr_Role q)"
  shows "rank_ok (sr_Org q) (sr_User q) (OrgRoleRank ar) d d'"
proof -
  let ?oid = "sr_Org q" and ?uid = "sr_User q"
  obtain d1 ok where x: "exec fl ''members.role'' (set_role ?oid ?uid (sr_Role q)) d = (d1, ok)" by fastforce
  obtain d2 r2 where a: "enter False fl ?oid ?uid (sr_Role q) d = (d2, r2)" by fastforce
  have keep: "roles (replaceUserScopeGrants fl ?oid ?uid [] e) = roles e" "roles (syncOrgMemberSystemRole fl ?oid ?uid e) = roles e" for e
    by (rule same_core_roles, simp)+
  have "roles d' = roles d \<or> roles d' = (roles d)((?oid, ?uid) \<mapsto> sr_Role q)"
  proof (cases inOrg)
    case True
    have "roles d1 = roles d \<or> roles d1 = (roles d)((?oid, ?uid) \<mapsto> sr_Role q)"
      using x by (auto simp: exec_eq set_role_roles split: if_split_asm)
    moreover have "roles d' = roles d1" using assms(1) True x keep unfolding appoint_plain_def Let_def
      by (cases ok) (auto simp: case_unit_Unity)
    ultimately show ?thesis by simp
  next
    case False
    have "roles d2 = roles d \<or> roles d2 = (roles d)((?oid, ?uid) \<mapsto> sr_Role q)"
      using enter_roles[OF a] assms(4) by auto
    moreover have "roles d' = roles d2" using assms(1) False a keep unfolding appoint_plain_def Let_def
      by (cases r2) (auto simp: case_unit_Unity)
    ultimately show ?thesis by simp
  qed
  moreover have "rank (roles d (?oid, ?uid)) = OrgRoleRank tc" using assms(3) by (auto split: option.splits)
  ultimately show ?thesis using can_appoint[OF assms(5)] unfolding rank_ok_def by auto
qed

text \<open>C9: An appointment by a member who is not a site administrator changes the role of the named user only,
  and only when the actor ranks at least as a group leader; it touches nobody who ranks above the actor, gives
  no role above the actor's, and takes nobody of the actor's own rank below it.\<close>

theorem appointment_respects_rank:
  assumes "SetRole (Some p) q fl d = (d', res)" and "\<not> VerifySiteAdmin (Some p)"
    and "roles d' (oid, uid) \<noteq> roles d (oid, uid)"
  shows "oid = sr_Org q \<and> uid = sr_User q \<and> 20 \<le> rank (roles d (oid, UserID p))
    \<and> rank (roles d (oid, uid)) \<le> rank (roles d (oid, UserID p))
    \<and> rank (roles d' (oid, uid)) \<le> rank (roles d (oid, UserID p))
    \<and> (rank (roles d (oid, uid)) = rank (roles d (oid, UserID p)) \<longrightarrow> rank (roles d' (oid, uid)) = rank (roles d (oid, UserID p)))"
proof -
  let ?o = "sr_Org q" and ?u = "sr_User q"
  define ar where "ar = (case find_member d ?o (UserID p) of Some a \<Rightarrow> mb_Role a | None \<Rightarrow> OrgRoleMember)"
  define tc where "tc = (case find_member d ?o ?u of Some m \<Rightarrow> mb_Role m | None \<Rightarrow> OrgRoleMember)"
  define inOrg where "inOrg = (find_member d ?o ?u \<noteq> None)"
  have ne: "d' \<noteq> d" using assms(3) by auto
  have tc': "tc = (case roles d (?o, ?u) of None \<Rightarrow> OrgRoleMember | Some r \<Rightarrow> r)"
    unfolding tc_def roles_def by (simp split: option.split)
  have ra: "rank (roles d (?o, UserID p)) = OrgRoleRank ar"
    unfolding ar_def roles_def by (simp split: option.split)
  have can: "ValidOrgRole (sr_Role q)" "\<not> sr_Remove q \<Longrightarrow> CanAppointOrgRole ar tc (sr_Role q)" "20 \<le> OrgRoleRank ar"
    and path: "sr_Remove q \<and> remove_scope p q False ar tc inOrg fl d = (d', res)
      \<or> \<not> sr_Remove q \<and> snd (RoleNeedsScope (sr_Role q)) \<and> appoint_scoped p q False ar tc inOrg fl d = (d', res)
      \<or> \<not> sr_Remove q \<and> \<not> snd (RoleNeedsScope (sr_Role q)) \<and> appoint_plain q inOrg fl d = (d', res)"
    using assms(1,2) ne can_appoint[of ar] unfolding SetRole_def Let_def ar_def tc_def inOrg_def
    by (auto split: if_split_asm)
  have "rank_ok ?o ?u (OrgRoleRank ar) d d'"
    using path remove_scope_rank[OF _ can(3) tc'] appoint_scoped_rank[OF _ tc' _ can(2)]
      appoint_plain_rank[OF _ _ tc' can(1) can(2)] by (auto simp: inOrg_def roles_None)
  then obtain r where r: "roles d' = (roles d)((?o, ?u) \<mapsto> r)" "OrgRoleRank r \<le> OrgRoleRank ar"
      "rank (roles d (?o, ?u)) \<le> OrgRoleRank ar" "rank (roles d (?o, ?u)) = OrgRoleRank ar \<longrightarrow> OrgRoleRank r = OrgRoleRank ar"
    using assms(3) unfolding rank_ok_def by auto
  moreover have "oid = ?o \<and> uid = ?u" using assms(3) r(1) by (auto split: if_split_asm)
  ultimately show ?thesis using can(3) ra by auto
qed

text \<open>The small organisation with a third seat, 8 its coach, and the coach's role widened to inviting.\<close>

definition ex_open_org :: org where
  "ex_open_org = new_org 1 ''acme'' ''acme'' 3 OrgJoinAuto ''ABCD2345''"

definition ex_open :: db where
  "ex_open = set_role 1 8 OrgRoleCoach (ex_db\<lparr>d_orgs := [ex_open_org, ex_public],
     d_org_role_perms := [(1, OrgRoleCoach, ''org.member.role,org.member.add'')]\<rparr>)"

definition ex_p :: "nat \<Rightarrow> JwtPayload" where
  "ex_p i = zero_payload\<lparr>UserID := i, OrgID := 1\<rparr>"

text \<open>The coach appoints the outsider 9 captain of squad 5.\<close>

theorem appointment_respects_rank_witness:
  "roles (fst (SetRole (Some (ex_p 8)) (ex_set_role 9 OrgRoleCaptain\<lparr>sr_Scope := 5\<rparr>) no_fail ex_open)) (1, 9) = Some OrgRoleCaptain
   \<and> rank (roles (fst (SetRole (Some (ex_p 8)) (ex_set_role 9 OrgRoleCaptain\<lparr>sr_Scope := 5\<rparr>) no_fail ex_open)) (1, 9))
       \<le> rank (roles ex_open (1, 8))"
proof -
  let ?r = "SetRole (Some (ex_p 8)) (ex_set_role 9 OrgRoleCaptain\<lparr>sr_Scope := 5\<rparr>) no_fail ex_open"
  have s: "?r = (fst ?r, snd ?r)" by simp
  have r: "roles (fst ?r) (1, 9) = Some OrgRoleCaptain" by code_simp
  have o': "roles ex_open (1, 9) = None" "\<not> VerifySiteAdmin (Some (ex_p 8))" "UserID (ex_p 8) = 8" by code_simp+
  have "rank (roles (fst ?r) (1, 9)) \<le> rank (roles ex_open (1, 8))"
    using appointment_respects_rank[OF s o'(2), of 1 9] r o'(1,3) by (simp add: ex_set_role_def)
  then show ?thesis using r by simp
qed

subsection \<open>Ways around\<close>

lemma add_succeeds:
  assumes "find_org d oid = Some r" and "o_Status r = OrgStatusActive" and "find_member d oid uid = None" and "\<not> seatFull d r"
  obtains d' where "addOrgMemberAtomic no_fail oid uid role nm d = (d', Inr ())"
    "roles d' = (roles d)((oid, uid) \<mapsto> (if ValidOrgRole role then role else OrgRoleMember))"
proof -
  let ?m = "\<lambda>gid. \<lparr>mb_Org = oid, mb_User = uid, mb_Role = (if ValidOrgRole role then role else OrgRoleMember),
      mb_Group = Some gid, mb_Display = trim_space nm\<rparr>"
  have "\<exists>e gid. same_core d e \<and> add_member_tx no_fail oid uid role nm d = (add_member (?m gid) e, Inr ())"
  proof (cases "default_group d oid")
    case None
    then have "add_member_tx no_fail oid uid role nm d = (add_member (?m (next_id d)) (add_group oid DefaultGroupName d), Inr ())"
      using assms by (simp add: add_member_tx_def join_group_def exec_def no_fail_def case_unit_Unity)
    then show ?thesis using same_core_simple(3) by blast
  next
    case (Some g)
    then have "add_member_tx no_fail oid uid role nm d = (add_member (?m (g_ID g)) d, Inr ())"
      using assms by (simp add: add_member_tx_def join_group_def exec_def no_fail_def case_unit_Unity)
    then show ?thesis using same_core_refl by blast
  qed
  then obtain e gid where e: "same_core d e" "add_member_tx no_fail oid uid role nm d = (add_member (?m gid) e, Inr ())" by blast
  have "find_member e oid uid = None" using same_core_queries(2)[OF e(1)] assms(3) by simp
  then have "roles (add_member (?m gid) e) = (roles d)((oid, uid) \<mapsto> (if ValidOrgRole role then role else OrgRoleMember))"
    using add_member_roles[of e "?m gid"] same_core_roles[OF e(1)] by simp
  then show ?thesis
    using that[of "SyncProblemPipelineOverrides no_fail uid (syncOrgMemberSystemRole no_fail oid uid (add_member (?m gid) e))"] e(2)
      same_core_roles[OF same_core_trans[OF same_core_sync same_core_overrides(1)]]
    by (simp add: addOrgMemberAtomic_def case_unit_Unity)
qed

text \<open>An invitation is not bound by the ranks of appointments: whoever may invite into an active organisation
  with a free seat can name any role, that of an administrator included, and the invited user has exactly that
  role once they accept.\<close>

theorem invitation_hands_out_role:
  assumes "verifyOrgPerm (Some p) d (UserID p) oid ''org.member.add''" and "ValidOrgRole role"
    and "find_org d oid = Some r" and "o_Status r = OrgStatusActive" and "\<not> seatFull d r"
    and "oid \<noteq> 0" and "uid \<noteq> 0" and "find_member d oid uid = None"
    and "\<not> list_ex (\<lambda>v. iv_Org v = oid \<and> iv_User v = uid \<and> iv_Status v = Pending) (d_invites d)"
    and "find_invite d (next_id d) = None" and "UserID p' = uid"
  shows "roles (fst (InviteReview (Some p') (next_id d) True no_fail (fst (InviteUser like (Some p) oid uid '''' role nm no_fail d))))
    (oid, uid) = Some role"
proof -
  let ?v = "\<lparr>iv_ID = next_id d, iv_Org = oid, iv_User = uid, iv_Inviter = UserID p, iv_Status = Pending, iv_Role = role,
      iv_Display = given_name d uid nm\<rparr>"
  let ?d = "add_invite oid uid (UserID p) role (given_name d uid nm) d"
  have i: "fst (InviteUser like (Some p) oid uid '''' role nm no_fail d) = ?d"
    using assms by (simp add: InviteUser_def resolve_user_def trim_space_def isMemberDB_def[symmetric] find_member_None
        exec_def no_fail_def valid_role_def)
  have find_last: "find P xs = None \<Longrightarrow> P y \<Longrightarrow> find P (xs @ [y]) = Some y" for P xs and y :: invite
    by (induction xs) auto
  have v: "find_invite ?d (next_id d) = Some ?v"
    unfolding find_invite_def add_invite_def using find_last[OF assms(10)[unfolded find_invite_def], of ?v] by (simp add: drawn_def)
  have c: "same_core d ?d" by simp
  have q: "find_org ?d oid = Some r" "find_member ?d oid uid = None" "\<not> seatFull ?d r"
    using assms(3,5,8) same_core_queries[OF c] same_core_seats[OF c] by simp_all
  obtain d2 where a: "addOrgMemberAtomic no_fail oid uid role (given_name d uid nm) ?d = (d2, Inr ())"
      "roles d2 = (roles ?d)((oid, uid) \<mapsto> (if ValidOrgRole role then role else OrgRoleMember))"
    by (rule add_succeeds[OF q(1) assms(4) q(2,3)])
  have "roles (put no_fail l (upd_invite i f) (setDefaultOrg no_fail uid oid d2)) = roles d2" for l i f
    by (rule same_core_roles, rule same_core_trans[OF same_core_default(1) same_core_put_invite(1)])
  then show ?thesis
    unfolding i using a v assms(2,11) by (simp add: InviteReview_def accept_invite_def next_id_def case_unit_Unity)
qed

theorem invitation_hands_out_role_witness:
  "roles (fst (InviteReview (Some (ex_p 9)) (next_id ex_open) True no_fail
      (fst (InviteUser (\<lambda>_ _. False) (Some (ex_p 8)) 1 9 '''' OrgRoleOrgAdmin '''' no_fail ex_open)))) (1, 9) = Some OrgRoleOrgAdmin
   \<and> \<not> CanAppointOrgRole OrgRoleCoach OrgRoleMember OrgRoleOrgAdmin"
proof -
  have o': "find_org ex_open 1 = Some ex_open_org" by (simp add: find_org_def ex_open_def set_role_def ex_open_org_def new_org_def)
  have h: "verifyOrgPerm (Some (ex_p 8)) ex_open (UserID (ex_p 8)) 1 ''org.member.add''" "ValidOrgRole OrgRoleOrgAdmin" by code_simp+
  have q: "o_Status ex_open_org = OrgStatusActive" "\<not> seatFull ex_open ex_open_org" by code_simp+
  have m: "find_member ex_open 1 9 = None" "\<not> list_ex (\<lambda>v. iv_Org v = 1 \<and> iv_User v = 9 \<and> iv_Status v = Pending) (d_invites ex_open)"
      "find_invite ex_open (next_id ex_open) = None"
    by (simp add: ex_open_def ex_db_def ex_member_def find_member_def set_role_def upd_member_def,
        simp_all add: ex_open_def ex_db_def find_invite_def set_role_def upd_member_def)
  have "\<not> CanAppointOrgRole OrgRoleCoach OrgRoleMember OrgRoleOrgAdmin" "UserID (ex_p 9) = 9" by code_simp+
  then show ?thesis
    using invitation_hands_out_role[OF h o' q _ _ m, of "ex_p 9" "\<lambda>_ _. False" "''''"] by simp
qed

text \<open>Leaving and being removed do not touch the scopes, and the role of a captain appointed later is computed
  from all of them.\<close>

lemma sync_keeps_grants [simp]: "d_grants (syncOrgMemberSystemRole fl oid uid d) = d_grants d"
  by (simp add: syncOrgMemberSystemRole_def Let_def exec_def del_user_roles_def add_user_role_def)

lemma overrides_keep_grants [simp]: "d_grants (SyncProblemPipelineOverrides fl uid d) = d_grants d"
  by (simp add: SyncProblemPipelineOverrides_def Let_def exec_def upd_user_def)

lemma default_keeps_grants [simp]: "d_grants (fallbackDefaultOrgIf fl uid oid d) = d_grants d"
  by (simp add: fallbackDefaultOrgIf_def exec_def upd_user_def split: option.split)

lemma issue_keeps_grants: "IssueJWT fl now u d = (d', tok) \<Longrightarrow> d_grants d' = d_grants d"
  by (auto simp: IssueJWT_def token_org_def Let_def exec_def upd_user_def split: prod.splits option.splits if_split_asm)

lemma public_keeps_grants: "switch_to_public fl oid uid now d = (d', tok) \<Longrightarrow> d_grants d' = d_grants d"
  by (auto simp: switch_to_public_def exec_def upd_user_def dest!: issue_keeps_grants split: option.splits if_split_asm prod.splits)

lemma scopes_survive_leaving:
  "d_grants (fst (Leave pd oid now fl d)) = d_grants d" "d_grants (fst (RemoveMember pd oid uid fl d)) = d_grants d"
  by (auto simp: Leave_def RemoveMember_def Let_def exec_def del_member_def dest!: public_keeps_grants
      split: option.splits prod.splits bool.splits)

lemma captain_becomes_leader:
  assumes "give_scope fl q st tc d = (d', Inr final)" and "has_grant d (sr_Org q) (sr_User q) ScopeTypeGroup"
    and "find_member d (sr_Org q) (sr_User q) = Some m" and "mb_Role m = OrgRoleMember"
  shows "final = OrgRoleGroupLeader"
  using assms(1)
proof (cases rule: give_scope_cases)
  case failed
  obtain d1 ok where g: "addUserScopeGrant fl (sr_Org q) (sr_User q) st (sr_Scope q) d = (d1, ok)" by fastforce
  have ok: "ok" using assms(1) g by (cases ok) (simp_all add: give_scope_def)
  have m: "find_member (join_squad fl q d1) (sr_Org q) (sr_User q) = Some m"
    using same_core_queries(2)[OF same_core_trans[OF same_core_grant[OF g] same_core_join_squad]] assms(3) by simp
  have "has_grant (join_squad fl q d1) (sr_Org q) (sr_User q) ScopeTypeGroup"
    using g assms(2) by (auto simp: join_squad_def has_grant_def exec_def add_squad_member_def addUserScopeGrant_def list_ex_iff split: if_split_asm)
  then show ?thesis using assms(1,4) g ok m
    by (auto simp: give_scope_def syncRoleFromGrants_def Let_def current_role_def EffectiveRoleFromGrants_def)
next
  case (given d1 d2 f2)
  have m: "find_member d2 (sr_Org q) (sr_User q) = Some m"
    using same_core_queries(2)[OF same_core_trans[OF same_core_grant[OF given(1)] same_core_join_squad]] given(2) assms(3) by simp
  have "has_grant d2 (sr_Org q) (sr_User q) ScopeTypeGroup"
    using given(1,2) assms(2) by (auto simp: join_squad_def has_grant_def exec_def add_squad_member_def addUserScopeGrant_def list_ex_iff split: if_split_asm)
  then show ?thesis using assms(1,4) given m
    by (auto simp: give_scope_def syncRoleFromGrants_def Let_def current_role_def EffectiveRoleFromGrants_def)
qed

text \<open>The permission to change a squad is asked for the group it moves to only, so a group leader can take a
  squad out of a group that is not theirs.\<close>

lemma leader_takes_squad:
  assumes "find_squad d i = Some s" and "g \<noteq> sq_Group s" and "g > 0"
    and "orgActorRole (Some p) d (sq_Org s) = OrgRoleGroupLeader" and "actorControlsGroup d (sq_Org s) (UserID p) g"
    and "group_in_org d g (sq_Org s)"
  shows "snd (SquadUpdate (Some p) i g name desc no_fail d) = Inr ()"
    and "map_option sq_Group (find_squad (fst (SquadUpdate (Some p) i g name desc no_fail d)) i) = Some g"
proof -
  have w: "canWriteSquadStructure (Some p) d (sq_Org s) g" using assms(3-5) by (simp add: canWriteSquadStructure_def)
  then show "snd (SquadUpdate (Some p) i g name desc no_fail d) = Inr ()"
    using assms(1-3,6) by (simp add: SquadUpdate_def Let_def exec_def no_fail_def)
  let ?n = "if trim_space name \<noteq> '''' then trim_space name else sq_Name s"
  let ?f = "\<lambda>x. if sq_ID x = i then x\<lparr>sq_Name := ?n, sq_Describe := trim_space desc, sq_Group := g\<rparr> else x"
  have "d_squads (fst (SquadUpdate (Some p) i g name desc no_fail d)) = map ?f (d_squads d)"
    using assms(1-3,6) w by (simp add: SquadUpdate_def Let_def exec_def no_fail_def)
  moreover have "(\<lambda>x. sq_ID (?f x) = i) = (\<lambda>x. sq_ID x = i)" by auto
  ultimately have "find_squad (fst (SquadUpdate (Some p) i g name desc no_fail d)) i = map_option ?f (find_squad d i)"
    unfolding find_squad_def by (simp add: find_map)
  moreover have "sq_ID s = i" using assms(1) by (auto simp: find_squad_def find_Some_iff)
  ultimately show "map_option sq_Group (find_squad (fst (SquadUpdate (Some p) i g name desc no_fail d)) i) = Some g"
    using assms(1) by simp
qed

end
