(* ===== verification/OrgSwitches.thy ===== *)
theory OrgSwitches
  imports OrgSystem
begin

text \<open>
  The personal switches for problem texts and their analysis: the statement that recomputes them for a list of
  users and the function that does it for one user are compared. They agree as long as nobody holds the cheaper
  plan; for its subscribers they do not.
\<close>

lemma mirror_eq [simp]: "mirror a = mirror b \<longleftrightarrow> a = b"
  by (simp add: mirror_def)

lemma loadUser_in: "distinct (map u_ID (d_users d)) \<Longrightarrow> u \<in> set (d_users d) \<Longrightarrow> loadUser d (u_ID u) = Some u"
proof -
  assume a: "distinct (map u_ID (d_users d))" "u \<in> set (d_users d)"
  obtain v where v: "loadUser d (u_ID u) = Some v" using a(2) by (cases "loadUser d (u_ID u)") (auto simp: loadUser_def find_None_iff)
  then have "v \<in> set (d_users d)" "u_ID v = u_ID u" by (auto simp: loadUser_def find_Some_iff)
  then show ?thesis using a v by (auto simp: distinct_map dest: inj_onD)
qed

lemma plan_enables_ex:
  "distinct (map pf_Plan (d_plans d)) \<Longrightarrow> plan_enables f d = list_ex (\<lambda>p. pf_Plan p = ''pro'' \<and> f p) (d_plans d)"
proof -
  have "distinct (map pf_Plan ps) \<Longrightarrow> (case find (\<lambda>p. pf_Plan p = ''pro'') ps of None \<Rightarrow> False | Some p \<Rightarrow> f p)
      = list_ex (\<lambda>p. pf_Plan p = ''pro'' \<and> f p) ps" for ps
    by (induction ps) (force simp: list_ex_iff)+
  then show "distinct (map pf_Plan (d_plans d)) \<Longrightarrow> ?thesis" by (simp add: plan_enables_def)
qed

text \<open>The tables the switches are computed from: plans with different names, users with different ids, and
  nobody with a plan other than \<^verbatim>\<open>pro\<close>.\<close>

definition only_pro :: "db \<Rightarrow> bool" where
  "only_pro d \<longleftrightarrow> distinct (map u_ID (d_users d)) \<and> distinct (map pf_Plan (d_plans d))
     \<and> (\<forall>u\<in>set (d_users d). u_SubTier u = '''' \<or> u_SubTier u = ''pro'')"

definition recomputed :: "nat set \<Rightarrow> db \<Rightarrow> db" where
  "recomputed S d = d\<lparr>d_users := map (\<lambda>u. if u_ID u \<in> S then batch_row d u else u) (d_users d)\<rparr>"

lemma batch_row_id [simp]: "u_ID (batch_row d u) = u_ID u"
  by (simp add: batch_row_def)

lemma batch_row_again: "batch_row (recomputed S d) u = batch_row d u" "batch_row d (batch_row d u) = batch_row d u"
  by (simp_all add: batch_row_def recomputed_def org_enables_def not_expired_def)

lemma only_pro_recomputed: "only_pro d \<Longrightarrow> only_pro (recomputed S d)"
  by (auto simp: only_pro_def recomputed_def comp_def batch_row_def if_distrib[of u_ID] cong: if_cong)

lemma single_row:
  assumes "only_pro d" and "uid \<noteq> 0"
  shows "SyncProblemPipelineOverrides no_fail uid d = recomputed {uid} d"
proof -
  have "batch_row d u = u\<lparr>
      u_FetchOverride := mirror (sub_active d uid \<and> plan_enables pf_EnableFetchProblem d \<or> org_enables o_EnableFetchProblem d uid),
      u_AiOverride := mirror (sub_active d uid \<and> plan_enables pf_EnableAiAnalyze d \<or> org_enables o_EnableAiAnalyze d uid)\<rparr>"
    if u: "u \<in> set (d_users d)" "u_ID u = uid" for u
  proof -
    have "loadUser d uid = Some u" using loadUser_in u assms(1) by (auto simp: only_pro_def)
    moreover have "trim_space (u_SubTier u) \<noteq> '''' \<longleftrightarrow> u_SubTier u = ''pro''"
      using assms(1) u by (auto simp: only_pro_def) code_simp+
    ultimately show ?thesis
      using plan_enables_ex assms(1) u(2) by (simp add: batch_row_def sub_active_def only_pro_def)
  qed
  then show ?thesis
    using assms(2) by (simp add: SyncProblemPipelineOverrides_def Let_def recomputed_def exec_def no_fail_def upd_user_def)
qed

lemma recomputed_more: "recomputed T (recomputed S d) = recomputed (S \<union> T) d"
  using batch_row_again by (auto simp: recomputed_def)

text \<open>C24: Recomputing the switches of a list of users in one statement, as an organisation's change of
  configuration and the nightly job do, has the same result as recomputing them one user after the other, as
  joining and leaving do, as long as every subscriber holds the plan \<^verbatim>\<open>pro\<close>.\<close>

theorem batch_agrees_with_single:
  assumes "only_pro d" and "uids \<noteq> []" and "0 \<notin> set uids"
  shows "SyncProblemPipelineOverridesBatch no_fail uids d = fold (SyncProblemPipelineOverrides no_fail) uids d"
proof -
  have "fold (SyncProblemPipelineOverrides no_fail) us (recomputed S d) = recomputed (S \<union> set us) d" if "0 \<notin> set us" for us S
    using that
  proof (induction us arbitrary: S)
    case (Cons u us)
    have "SyncProblemPipelineOverrides no_fail u (recomputed S d) = recomputed (S \<union> {u}) d"
      using single_row[OF only_pro_recomputed[OF assms(1)], of u S] Cons.prems recomputed_more by simp
    then show ?case using Cons.IH[of "S \<union> {u}"] Cons.prems by simp
  qed simp
  from this[OF assms(3), of "{}"] have "fold (SyncProblemPipelineOverrides no_fail) uids d = recomputed (set uids) d"
    by (simp add: recomputed_def)
  then show ?thesis
    using assms(2) by (simp add: SyncProblemPipelineOverridesBatch_def recomputed_def exec_def no_fail_def)
qed

text \<open>For a subscriber of the cheaper plan they disagree: one user at a time, the features of \<^verbatim>\<open>pro\<close> are switched
  on; by the list they are taken away.\<close>

lemma cheaper_plan_disagrees:
  assumes "distinct (map u_ID (d_users d))" and "u \<in> set (d_users d)" and "u_SubTier u = ''plus''" and "not_expired (d_now d) u"
    and "plan_enables pf_EnableFetchProblem d" and "\<not> org_enables o_EnableFetchProblem d (u_ID u)" and "u_ID u \<noteq> 0"
  shows "map_option u_FetchOverride (loadUser (SyncProblemPipelineOverrides no_fail (u_ID u) d) (u_ID u)) = Some (Some True)"
    and "map_option u_FetchOverride (loadUser (SyncProblemPipelineOverridesBatch no_fail [u_ID u] d) (u_ID u)) = Some None"
proof -
  have l: "loadUser d (u_ID u) = Some u" by (rule loadUser_in[OF assms(1,2)])
  have t: "trim_space ''plus'' \<noteq> ''''" by code_simp
  have P: "(\<lambda>x. u_ID (if u_ID x = u_ID u then f x else x) = u_ID u) = (\<lambda>x. u_ID x = u_ID u)" if "\<And>x. u_ID (f x) = u_ID x" for f
    using that by auto
  have f: "find (\<lambda>x. u_ID x = u_ID u) (map (\<lambda>x. if u_ID x = u_ID u then f x else x) (d_users d)) = Some (f u)"
    if "\<And>x. u_ID (f x) = u_ID x" for f
    using l that by (simp add: loadUser_def find_map P)
  show "map_option u_FetchOverride (loadUser (SyncProblemPipelineOverrides no_fail (u_ID u) d) (u_ID u)) = Some (Some True)"
    using assms(3-5,7) l t f
    by (simp add: SyncProblemPipelineOverrides_def Let_def exec_def no_fail_def upd_user_def loadUser_def sub_active_def mirror_def)
  show "map_option u_FetchOverride (loadUser (SyncProblemPipelineOverridesBatch no_fail [u_ID u] d) (u_ID u)) = Some None"
    using assms(3,6) f[of "batch_row d"]
    by (simp add: SyncProblemPipelineOverridesBatch_def exec_def no_fail_def loadUser_def batch_row_def mirror_def)
qed

theorem batch_agrees_with_single_witness:
  "SyncProblemPipelineOverridesBatch no_fail [7, 9] ex_db = fold (SyncProblemPipelineOverrides no_fail) [7, 9] ex_db
   \<and> map u_FetchOverride (d_users (SyncProblemPipelineOverridesBatch no_fail [7, 9] ex_db)) = [Some True, None, None]"
proof -
  have "only_pro ex_db" by code_simp
  then have "SyncProblemPipelineOverridesBatch no_fail [7, 9] ex_db = fold (SyncProblemPipelineOverrides no_fail) [7, 9] ex_db"
    by (rule batch_agrees_with_single) simp_all
  moreover have "map u_FetchOverride (d_users (SyncProblemPipelineOverridesBatch no_fail [7, 9] ex_db)) = [Some True, None, None]"
    by code_simp
  ultimately show ?thesis by blast
qed

end
