(* ===== verification/PayGateway.thy ===== *)
theory PayGateway
  imports Prelude "HOL-Library.Log_Nat"
begin

text \<open>
  The payment gateway (\<^verbatim>\<open>user/internal/external/payment/payment.go\<close>): amounts in yuan, the order sent to the
  payment platform, and the check of its notifications.

  The digest of \<^verbatim>\<open>crypto/md5\<close> in hexadecimal is the argument \<open>md5\<close>, the platform's answer to an order is
  \<open>platform\<close>, and \<open>local_time\<close> is the parser of a time in the zone of the server.

  A \<^verbatim>\<open>float64\<close> is the rational it stands for, and every operation on it rounds the exact result to 53
  significant bits, ties to even. Exponents have no lower bound (the results here do not depend on
  subnormal numbers). Amounts are read in decimal notation and as the infinities and NaN; a spelling in
  hexadecimal, which \<^verbatim>\<open>ParseFloat\<close> also takes, is an error here.
\<close>

subsection \<open>Double precision\<close>

definition round_even :: "rat \<Rightarrow> int" where
  "round_even y = (let f = \<lfloor>y\<rfloor>; r = y - of_int f in
     if r < 1 / 2 then f else if 1 / 2 < r then f + 1 else if even f then f else f + 1)"

text \<open>The binary exponent of a positive number, and of the last of its 53 bits.\<close>

definition bin_exp :: "rat \<Rightarrow> int" where
  "bin_exp x = (case quotient_of x of (p, q) \<Rightarrow>
     (let k = int (floorlog 2 (nat p)) - int (floorlog 2 (nat q)) in if 2 powi k \<le> x then k else k - 1))"

definition double :: "rat \<Rightarrow> rat" where
  "double x = (if x = 0 then 0
     else (let u = 2 powi (bin_exp \<bar>x\<bar> - 52) in sgn x * (of_int (round_even (\<bar>x\<bar> / u)) * u)))"

subsection \<open>Amounts\<close>

text \<open>\<^verbatim>\<open>FormatFloat(v, 'f', 2, 64)\<close>: the exact value, rounded to hundredths.\<close>

definition fixed2 :: "rat \<Rightarrow> string" where
  "fixed2 v = (let n = nat (round_even (\<bar>v\<bar> * 100)) in
     (if v < 0 then ''-'' else '''') @ nat_str (n div 100) @ ''.'' @ [digit_char (n div 10 mod 10), digit_char (n mod 10)])"

definition FormatCents :: "int \<Rightarrow> string" where
  "FormatCents cents = fixed2 (double (double (of_int cents) / 100))"

text \<open>The decimal notation of \<^verbatim>\<open>ParseFloat\<close>: a sign, digits with at most one point, an exponent.\<close>

definition split_sign :: "string \<Rightarrow> bool \<times> string" where
  "split_sign s = (case s of [] \<Rightarrow> (False, [])
     | c # cs \<Rightarrow> if c = CHR ''-'' then (True, cs) else if c = CHR ''+'' then (False, cs) else (False, s))"

definition exponent :: "string \<Rightarrow> int option" where
  "exponent s = (case s of [] \<Rightarrow> Some 0
     | c # cs \<Rightarrow> if c \<noteq> CHR ''e'' \<and> c \<noteq> CHR ''E'' then None
         else (case split_sign cs of (neg, ds) \<Rightarrow> if ds = [] \<or> \<not> list_all is_digit_char ds then None
           else Some (if neg then - int (digits_val ds) else int (digits_val ds))))"

definition decimal :: "string \<Rightarrow> rat option" where
  "decimal s =
     (case split_sign s of (neg, b) \<Rightarrow>
        (let ip = takeWhile is_digit_char b; r = dropWhile is_digit_char b;
             point = (r \<noteq> [] \<and> hd r = CHR ''.'');
             fp = (if point then takeWhile is_digit_char (tl r) else []);
             ex = (if point then dropWhile is_digit_char (tl r) else r)
         in if ip = [] \<and> fp = [] then None
            else map_option (\<lambda>e. (if neg then -1 else 1) * of_nat (digits_val (ip @ fp)) * 10 powi (e - int (length fp)))
                   (exponent ex)))"

datatype float_text = Finite rat | Infinite bool | NotANumber | Malformed

definition ParseFloat :: "string \<Rightarrow> float_text" where
  "ParseFloat s =
     (case decimal s of
        Some v \<Rightarrow> if 2 ^ 1024 \<le> \<bar>double v\<bar> then Malformed else Finite (double v)
      | None \<Rightarrow> (let t = to_lower s in
          if t \<in> {''inf'', ''+inf'', ''infinity'', ''+infinity''} then Infinite False
          else if t \<in> {''-inf'', ''-infinity''} then Infinite True
          else if t = ''nan'' then NotANumber else Malformed))"

definition ParseYuanStringToCents :: "string \<Rightarrow> string + int" where
  "ParseYuanStringToCents s0 =
     (let s = trim_space s0 in
      if s = '''' then Inl ''empty amount''
      else (case ParseFloat s of
          Malformed \<Rightarrow> Inl ''bad amount''
        | Infinite True \<Rightarrow> Inl ''negative amount''
        | Infinite False \<Rightarrow> Inr int64_min
        | NotANumber \<Rightarrow> Inr int64_min
        | Finite f \<Rightarrow> if f < 0 then Inl ''negative amount'' else Inr (int64_of (double (double (f * 100) + 1 / 2)))))"

subsection \<open>The gateway\<close>

record pay_conf =
  pc_ApiBase :: string
  pc_MerchantNo :: string
  pc_Secret :: string
  pc_PayType :: string

record gateway =
  g_apiBase :: string
  g_merchantNo :: string
  g_secret :: string
  g_payType :: string
  g_notifyURL :: string

definition PayFmConf :: "pay_conf option \<Rightarrow> pay_conf \<times> bool" where
  "PayFmConf rt = (case rt of None \<Rightarrow> (\<lparr>pc_ApiBase = '''', pc_MerchantNo = '''', pc_Secret = '''', pc_PayType = ''''\<rparr>, False)
     | Some c \<Rightarrow> (let c' = \<lparr>pc_ApiBase = trim_space (pc_ApiBase c), pc_MerchantNo = trim_space (pc_MerchantNo c),
            pc_Secret = trim_space (pc_Secret c), pc_PayType = trim_space (pc_PayType c)\<rparr>
          in (c', pc_ApiBase c' \<noteq> '''' \<and> pc_MerchantNo c' \<noteq> '''' \<and> pc_Secret c' \<noteq> '''')))"

definition NewPayFmGateway :: "string \<Rightarrow> string \<Rightarrow> string \<Rightarrow> string \<Rightarrow> string \<Rightarrow> string + gateway" where
  "NewPayFmGateway apiBase merchantNo secret payType notifyURL =
     (let a = trim_space apiBase; m = trim_space merchantNo; s = trim_space secret; p = trim_space payType in
      if a = '''' \<or> m = '''' \<or> s = '''' then Inl ''payment not configured''
      else Inr \<lparr>g_apiBase = rev (dropWhile (\<lambda>c. c = CHR ''/'') (rev a)), g_merchantNo = m, g_secret = s,
             g_payType = (if p = '''' then ''aloop'' else p), g_notifyURL = trim_space notifyURL\<rparr>)"

definition paymentGateway :: "pay_conf option \<Rightarrow> string \<Rightarrow> string + gateway" where
  "paymentGateway rt url = (case PayFmConf rt of (c, configured) \<Rightarrow>
     if \<not> configured then Inl ''payment not configured''
     else NewPayFmGateway (pc_ApiBase c) (pc_MerchantNo c) (pc_Secret c) (pc_PayType c) url)"

text \<open>An order sent to the platform: its parameters, and the link in the answer. No answer stands for a
  failed request or one that does not decode.\<close>

record answer =
  an_Success :: bool
  an_Code :: int
  an_Msg :: string
  an_PayURL :: string

type_synonym platform = "string \<Rightarrow> (string \<times> string) list \<Rightarrow> answer option"

definition order_params :: "(string \<Rightarrow> string) \<Rightarrow> gateway \<Rightarrow> string \<Rightarrow> string \<Rightarrow> string \<Rightarrow> (string \<times> string) list" where
  "order_params md5 g orderNo amount subject =
     [(''merchantNum'', g_merchantNo g), (''orderNo'', orderNo), (''amount'', amount), (''notifyUrl'', g_notifyURL g),
      (''payType'', g_payType g)]
     @ (if trim_space subject \<noteq> '''' then [(''subject'', subject)] else [])
     @ [(''returnType'', ''json''), (''sign'', md5 (g_merchantNo g @ orderNo @ amount @ g_notifyURL g @ g_secret g))]"

definition gatewayCreateOrder ::
  "(string \<Rightarrow> string) \<Rightarrow> platform \<Rightarrow> gateway \<Rightarrow> string \<Rightarrow> int \<Rightarrow> string \<Rightarrow> string + string" where
  "gatewayCreateOrder md5 platform g orderNo amountCents subject =
     (if g_apiBase g = '''' then Inl ''gateway not initialised''
      else (case platform (g_apiBase g @ ''/startOrder'') (order_params md5 g orderNo (FormatCents amountCents) subject) of
          None \<Rightarrow> Inl ''request failed''
        | Some a \<Rightarrow> if \<not> an_Success a \<or> an_Code a \<noteq> 200 \<or> trim_space (an_PayURL a) = ''''
            then Inl (if trim_space (an_Msg a) = '''' then ''unknown error'' else trim_space (an_Msg a))
            else Inr (an_PayURL a)))"

record notification =
  n_OrderNo :: string
  n_PlatformOrderNo :: string
  n_Amount :: string
  n_PayTime :: int

type_synonym form = "(string \<times> string list) list"

text \<open>The values of a form: the first of each parameter; one that is missing reads as the empty string.\<close>

definition form_value :: "form \<Rightarrow> string \<Rightarrow> string" where
  "form_value fm k = (case map_of fm k of Some (v # _) \<Rightarrow> v | _ \<Rightarrow> '''')"

definition signed_text :: "gateway \<Rightarrow> (string \<Rightarrow> string) \<Rightarrow> string" where
  "signed_text g v = v ''state'' @ v ''merchantNum'' @ v ''orderNo'' @ v ''amount'' @ g_secret g"

definition ParseNotification ::
  "(string \<Rightarrow> string) \<Rightarrow> (string \<Rightarrow> int option) \<Rightarrow> gateway \<Rightarrow> (string \<Rightarrow> string) \<Rightarrow> string + notification" where
  "ParseNotification md5 local_time g v =
     (if g_secret g = '''' then Inl ''gateway not initialised''
      else if v ''state'' = '''' \<or> v ''merchantNum'' = '''' \<or> v ''orderNo'' = '''' \<or> v ''amount'' = '''' \<or> v ''sign'' = ''''
        then Inl ''missing parameter''
      else if v ''merchantNum'' \<noteq> g_merchantNo g then Inl ''other merchant''
      else if v ''state'' \<noteq> ''1'' then Inl ''not paid''
      else if md5 (signed_text g v) \<noteq> to_lower (trim_space (v ''sign'')) then Inl ''bad signature''
      else Inr \<lparr>n_OrderNo = v ''orderNo'', n_PlatformOrderNo = v ''platformOrderNo'', n_Amount = v ''amount'',
             n_PayTime = (case local_time (v ''payTime'') of Some t \<Rightarrow> t | None \<Rightarrow> zero_time)\<rparr>)"

subsection \<open>Rounding errors\<close>

lemma round_even_error: "\<bar>of_int (round_even y) - y\<bar> \<le> 1 / 2"
proof -
  have "of_int \<lfloor>y\<rfloor> \<le> y" "y < of_int \<lfloor>y\<rfloor> + 1" by linarith+
  then show ?thesis by (auto simp: round_even_def Let_def)
qed

lemma round_even_near: "\<bar>y - of_int n\<bar> < 1 / 2 \<Longrightarrow> round_even y = n"
proof -
  assume "\<bar>y - of_int n\<bar> < 1 / 2"
  then have "\<bar>of_int (round_even y) - of_int n :: rat\<bar> < 1" using round_even_error[of y] by linarith
  then have "\<bar>round_even y - n\<bar> < 1" by (metis of_int_abs of_int_diff of_int_less_1_iff)
  then show ?thesis by simp
qed

lemma floorlog_powi:
  assumes "0 < (n::int)"
  shows "2 powi (int (floorlog 2 (nat n)) - 1) \<le> (of_int n :: rat)" "(of_int n :: rat) < 2 powi int (floorlog 2 (nat n))"
proof -
  have n: "0 < nat n" using assms by simp
  have b: "2 ^ (floorlog 2 (nat n) - 1) \<le> nat n \<and> nat n < 2 ^ floorlog 2 (nat n)"
    using floorlog_bounds[of "nat n" 2] n by simp
  have p: "0 < floorlog 2 (nat n)" using n by (simp add: floorlog_def)
  have "(2::int) ^ (floorlog 2 (nat n) - 1) \<le> n" using b assms
    by (metis int_nat_eq le_nat_iff numeral_power_le_nat_cancel_iff order_less_imp_le of_nat_le_iff of_nat_numeral of_nat_power)
  then have "(2::rat) ^ (floorlog 2 (nat n) - 1) \<le> of_int n" by (metis of_int_le_iff of_int_numeral of_int_power)
  moreover have "int (floorlog 2 (nat n)) - 1 = int (floorlog 2 (nat n) - 1)" using p by simp
  ultimately show "2 powi (int (floorlog 2 (nat n)) - 1) \<le> (of_int n :: rat)" by (metis power_int_of_nat)
  have "n < (2::int) ^ floorlog 2 (nat n)" using b assms by (metis int_nat_eq of_nat_less_iff of_nat_numeral of_nat_power order_less_imp_le)
  then have "of_int n < (2::rat) ^ floorlog 2 (nat n)" by (metis of_int_less_iff of_int_numeral of_int_power)
  then show "(of_int n :: rat) < 2 powi int (floorlog 2 (nat n))" by simp
qed

lemma bin_exp_le: assumes "0 < x" shows "2 powi bin_exp x \<le> x"
proof -
  obtain p q where pq: "quotient_of x = (p, q)" by fastforce
  have q: "0 < q" using quotient_of_denom_pos[OF pq] .
  have x: "x = of_int p / of_int q" using quotient_of_div[OF pq] .
  have p: "0 < p" using assms x q by (simp add: zero_less_divide_iff)
  define a b where "a = int (floorlog 2 (nat p))" and "b = int (floorlog 2 (nat q))"
  have "2 powi (a - 1 - b) * of_int q \<le> (of_int p :: rat)"
  proof -
    have "2 powi (a - 1 - b) * of_int q \<le> 2 powi (a - 1 - b) * (2 powi b :: rat)"
      using floorlog_powi(2)[OF q] b_def by (simp add: less_imp_le)
    also have "\<dots> = 2 powi (a - 1)" by (simp flip: power_int_add)
    also have "\<dots> \<le> of_int p" using floorlog_powi(1)[OF p] a_def by simp
    finally show ?thesis .
  qed
  then have "2 powi (a - 1 - b) \<le> x" unfolding x using q by (simp only: pos_le_divide_eq of_int_0_less_iff)
  then have "2 powi (a - b - 1) \<le> x" by (simp add: algebra_simps)
  then show ?thesis by (simp add: bin_exp_def pq Let_def a_def b_def)
qed

lemma double_error: "0 \<le> x \<Longrightarrow> \<bar>double x - x\<bar> \<le> x / 2 ^ 53"
proof (cases "x = 0")
  case False
  assume "0 \<le> x"
  with False have x: "0 < x" by simp
  define u :: rat where "u = 2 powi (bin_exp x - 52)"
  have u: "0 < u" by (simp add: u_def)
  have d: "double x = of_int (round_even (x / u)) * u" using x by (simp add: double_def u_def Let_def)
  have "\<bar>double x - x\<bar> = \<bar>(of_int (round_even (x / u)) - x / u) * u\<bar>"
    using u by (simp add: d left_diff_distrib)
  also have "\<dots> = \<bar>of_int (round_even (x / u)) - x / u\<bar> * u" using u by (simp add: abs_mult)
  also have "\<dots> \<le> 1 / 2 * u" using round_even_error u by (intro mult_right_mono) auto
  also have "\<dots> = 2 powi bin_exp x / 2 ^ 53" by (simp add: u_def power_int_diff)
  also have "\<dots> \<le> x / 2 ^ 53" using bin_exp_le[OF x] by (simp add: divide_right_mono)
  finally show ?thesis .
qed (simp add: double_def)

lemma double_near: "0 \<le> x \<Longrightarrow> \<bar>double x - x\<bar> \<le> x / 9007199254740992"
  using double_error[of x] by simp

lemma double_nonneg: "0 \<le> x \<Longrightarrow> 0 \<le> double x"
  using double_near[of x] by linarith

text \<open>Printing an amount and reading it back.\<close>

lemma cents_rat:
  assumes "0 \<le> c" and "c \<le> 10 ^ 14"
  shows "0 \<le> (of_int c :: rat)" "of_int c \<le> (100000000000000 :: rat)"
  using assms by (simp_all add: of_int_le_numeral_iff)

lemma round_cents:
  assumes "0 \<le> c" and "c \<le> 10 ^ 14"
  shows "0 \<le> double (double (of_int c) / 100)" and "round_even (\<bar>double (double (of_int c) / 100)\<bar> * 100) = c"
proof -
  define d where "d = double (of_int c)"
  define v where "v = double (d / 100)"
  have c: "0 \<le> (of_int c :: rat)" "of_int c \<le> (100000000000000 :: rat)" by (rule cents_rat[OF assms])+
  have d: "\<bar>d - of_int c\<bar> \<le> of_int c / 9007199254740992" "0 \<le> d"
    unfolding d_def using double_near double_nonneg c(1) by blast+
  have v: "\<bar>v - d / 100\<bar> \<le> d / 100 / 9007199254740992" "0 \<le> v"
    unfolding v_def using double_near[of "d / 100"] double_nonneg[of "d / 100"] d(2) by simp_all
  have "\<bar>v * 100 - of_int c\<bar> < 1 / 2" using c d v by linarith
  then have "round_even (v * 100) = c" by (rule round_even_near)
  then show "0 \<le> double (double (of_int c) / 100)" and "round_even (\<bar>double (double (of_int c) / 100)\<bar> * 100) = c"
    using v(2) by (simp_all flip: d_def v_def)
qed

lemma decimal_fixed2:
  "decimal (nat_str (n div 100) @ CHR ''.'' # [digit_char (n div 10 mod 10), digit_char (n mod 10)]) = Some (of_nat n / 100)"
proof -
  let ?a = "nat_str (n div 100)" and ?f = "[digit_char (n div 10 mod 10), digit_char (n mod 10)]"
  have dig: "\<And>c. c \<in> set ?a \<Longrightarrow> is_digit_char c" by (rule nat_str_digits)
  have dc: "d < 10 \<Longrightarrow> is_digit_char (digit_char d)" for d by (simp add: is_digit_char_def digit_char_val)
  have f: "takeWhile is_digit_char ?f = ?f" "dropWhile is_digit_char ?f = []" using dc by (simp_all)
  have pt: "\<not> is_digit_char CHR ''.''" by (simp add: is_digit_char_def)
  have ne: "?a \<noteq> []" by (subst nat_str.simps) simp
  then obtain x xs where x: "?a = x # xs" by (cases ?a) auto
  have "is_digit_char x" using dig x by simp
  then have sg: "x \<noteq> CHR ''-''" "x \<noteq> CHR ''+''" by (auto simp: is_digit_char_def)
  have sp: "split_sign (?a @ CHR ''.'' # ?f) = (False, ?a @ CHR ''.'' # ?f)"
    using sg by (simp add: split_sign_def x)
  have tk: "takeWhile is_digit_char (?a @ CHR ''.'' # ?f) = ?a" "dropWhile is_digit_char (?a @ CHR ''.'' # ?f) = CHR ''.'' # ?f"
    using dig pt by (simp_all add: takeWhile_append2 dropWhile_append2)
  have m: "n div 10 mod 10 < 10" "n mod 10 < 10" by simp_all
  have "digits_val (?a @ ?f) = digits_val ((?a @ [digit_char (n div 10 mod 10)]) @ [digit_char (n mod 10)])" by simp
  also have "\<dots> = n"
    unfolding digits_val_snoc digits_val_nat_str digit_char_val[OF m(1)] digit_char_val[OF m(2)]
    using div_mult2_eq[of n 10 10] by simp
  finally have val: "digits_val (?a @ ?f) = n" .
  show ?thesis
    using ne f by (simp add: decimal_def sp tk val[simplified] exponent_def Let_def power_int_minus power2_eq_square)
qed

lemma trim_fixed2: "trim_space (nat_str a @ CHR ''.'' # [digit_char b, digit_char (n mod 10)]) =
    nat_str a @ CHR ''.'' # [digit_char b, digit_char (n mod 10)]"
proof (rule trim_space_id)
  have sp: "is_digit_char c \<Longrightarrow> \<not> is_space c" for c by (auto simp: is_digit_char_def is_space_def)
  have dc: "is_digit_char (digit_char (n mod 10))" by (simp add: is_digit_char_def digit_char_val)
  have ne: "nat_str a \<noteq> []" by (subst nat_str.simps) simp
  have "is_digit_char (hd (nat_str a))" using nat_str_digits ne by (metis hd_in_set)
  then show "nat_str a @ CHR ''.'' # [digit_char b, digit_char (n mod 10)] = [] \<or>
      \<not> is_space (hd (nat_str a @ CHR ''.'' # [digit_char b, digit_char (n mod 10)]))
      \<and> \<not> is_space (last (nat_str a @ CHR ''.'' # [digit_char b, digit_char (n mod 10)]))"
    using sp dc ne by simp
qed

lemma FormatCents_text:
  assumes "0 \<le> c" and "c \<le> 10 ^ 14"
  shows "decimal (FormatCents c) = Some (of_int c / 100)" "trim_space (FormatCents c) = FormatCents c" "FormatCents c \<noteq> ''''"
proof -
  let ?n = "nat c"
  have f: "FormatCents c = nat_str (?n div 100) @ CHR ''.'' # [digit_char (?n div 10 mod 10), digit_char (?n mod 10)]"
    using round_cents[OF assms] by (simp add: FormatCents_def fixed2_def Let_def)
  show "decimal (FormatCents c) = Some (of_int c / 100)"
    unfolding f decimal_fixed2 using assms(1) by simp
  show "trim_space (FormatCents c) = FormatCents c" unfolding f by (rule trim_fixed2)
  show "FormatCents c \<noteq> ''''" unfolding f by simp
qed

text \<open>C21: The amount of an order survives the way to the payment platform and back: printed in yuan through a
  \<^verbatim>\<open>float64\<close> and read again through another, it is the same number of cents, for every amount up to a
  hundred million million cents.\<close>

theorem amount_survives_printing:
  assumes "0 \<le> c" and "c \<le> 10 ^ 14"
  shows "ParseYuanStringToCents (FormatCents c) = Inr c"
proof -
  have c: "0 \<le> (of_int c :: rat)" "of_int c \<le> (100000000000000 :: rat)" by (rule cents_rat[OF assms])+
  define f g h where "f = double (of_int c / 100)" and "g = double (f * 100)" and "h = double (g + 1 / 2)"
  have f: "\<bar>f - of_int c / 100\<bar> \<le> of_int c / 100 / 9007199254740992" "0 \<le> f"
    unfolding f_def using double_near[of "of_int c / 100"] double_nonneg[of "of_int c / 100"] c(1) by simp_all
  have g: "\<bar>g - f * 100\<bar> \<le> f * 100 / 9007199254740992" "0 \<le> g"
    unfolding g_def using double_near[of "f * 100"] double_nonneg[of "f * 100"] f(2) by simp_all
  have gc: "\<bar>g - of_int c\<bar> \<le> 1 / 8" using c f g by linarith
  have h: "\<bar>h - (g + 1 / 2)\<bar> \<le> (g + 1 / 2) / 9007199254740992" "0 \<le> h"
    unfolding h_def using double_near[of "g + 1 / 2"] double_nonneg[of "g + 1 / 2"] g(2) by simp_all
  have "g \<le> 200000000000000" using c gc by linarith
  then have "(g + 1 / 2) / 9007199254740992 \<le> 1 / 8" by simp
  then have "\<bar>h - (g + 1 / 2)\<bar> \<le> 1 / 8" using h(1) by linarith
  then have "of_int c \<le> h" "h < of_int c + 1" using gc by linarith+
  then have t: "trunc_rat h = c" using h(2) by (simp add: trunc_rat_def floor_eq_iff)
  have "f \<le> 10000000000000" using c f by linarith
  then have "\<bar>f\<bar> < 2 ^ 1024" using f(2) by simp
  moreover have "int64_min \<le> c" "c \<le> int64_max" using assms by (simp_all add: int64_min_def int64_max_def)
  ultimately show ?thesis
    using f(2) t by (simp add: ParseYuanStringToCents_def FormatCents_text[OF assms] ParseFloat_def Let_def int64_of_def
        flip: f_def g_def h_def)
qed

theorem amount_survives_printing_witness:
  "ParseYuanStringToCents (FormatCents 1990) = Inr 1990 \<and> FormatCents 1990 = ''19.90''"
proof -
  have "FormatCents 1990 = ''19.90''" by code_simp
  then show ?thesis using amount_survives_printing[of 1990] by simp
qed

text \<open>C39: A signature of the platform vouches for one payment. Order numbers of a shop have one length; two
  notifications that carry the same signature and order numbers of the same length, both accepted by the
  gateway, are about the same order and the same amount, unless two texts with the same digest were found.\<close>

theorem signature_binds_payment:
  assumes "ParseNotification md5 lt g v = Inr n" and "ParseNotification md5 lt g w = Inr m"
    and "v ''sign'' = w ''sign''" and "length (n_OrderNo n) = length (n_OrderNo m)"
    and "md5 (signed_text g v) = md5 (signed_text g w) \<Longrightarrow> signed_text g v = signed_text g w"
  shows "n_OrderNo n = n_OrderNo m \<and> n_Amount n = n_Amount m"
  using assms by (auto simp: ParseNotification_def signed_text_def split: if_splits)

definition ex_gateway :: gateway where
  "ex_gateway = \<lparr>g_apiBase = ''https://pay'', g_merchantNo = ''42'', g_secret = ''key'', g_payType = ''aloop'', g_notifyURL = ''''\<rparr>"

definition ex_form :: "string \<Rightarrow> string \<Rightarrow> string \<Rightarrow> string \<Rightarrow> string" where
  "ex_form orderNo amount plat = form_value [(''state'', [''1'']), (''merchantNum'', [''42'']), (''orderNo'', [orderNo]),
     (''amount'', [amount]), (''platformOrderNo'', [plat]), (''sign'', [''142s12.00key''])]"

theorem signature_binds_payment_witness:
  "\<exists>n m. ParseNotification to_lower (\<lambda>_. None) ex_gateway (ex_form ''S1'' ''2.00'' ''A'') = Inr n
     \<and> ParseNotification to_lower (\<lambda>_. None) ex_gateway (ex_form ''S1'' ''2.00'' ''B'') = Inr m
     \<and> n \<noteq> m \<and> n_OrderNo n = n_OrderNo m \<and> n_Amount n = n_Amount m"
proof -
  have a: "ParseNotification to_lower (\<lambda>_. None) ex_gateway (ex_form ''S1'' ''2.00'' p) = Inr \<lparr>n_OrderNo = ''S1'',
     n_PlatformOrderNo = p, n_Amount = ''2.00'', n_PayTime = zero_time\<rparr>" if "p = ''A'' \<or> p = ''B''" for p
    using that by (elim disjE; simp only:) code_simp+
  have "to_lower (signed_text ex_gateway (ex_form ''S1'' ''2.00'' ''A'')) = to_lower (signed_text ex_gateway (ex_form ''S1'' ''2.00'' ''B'')) \<Longrightarrow>
      signed_text ex_gateway (ex_form ''S1'' ''2.00'' ''A'') = signed_text ex_gateway (ex_form ''S1'' ''2.00'' ''B'')"
    and "ex_form ''S1'' ''2.00'' ''A'' ''sign'' = ex_form ''S1'' ''2.00'' ''B'' ''sign''" by code_simp+
  from signature_binds_payment[OF a a _ _ this(1)] this(2) a show ?thesis by simp
qed

text \<open>The order numbers must have one length: without separators in the signed text, a shorter order number
  lets the same signature vouch for a larger amount.\<close>

lemma signature_spliced:
  "map (\<lambda>(ord, amt). case ParseNotification to_lower (\<lambda>_. None) ex_gateway (ex_form ord amt []) of Inl e \<Rightarrow> e | Inr n \<Rightarrow> n_Amount n)
     [(''S1'', ''2.00''), (''S'', ''12.00''), (''S1'', ''9.00'')] = [''2.00'', ''12.00'', ''bad signature'']"
  by code_simp

end
