(* ===== verification/Subscription.thy ===== *)
theory Subscription
  imports OrgService PayGateway
begin

text \<open>
  Personal subscriptions: the rules by which purchases stack (\<^verbatim>\<open>user/internal/data/dal/subscription.go\<close>), the
  orders with the payment callback (\<^verbatim>\<open>user/internal/service/subscription.go\<close>), and the sweep that reminds of
  an expiry (\<^verbatim>\<open>service/subscription_mail.go\<close>).

  Times are nanoseconds. \<^verbatim>\<open>AddDate(0, 0, n)\<close> and the interval of the database are \<open>n\<close> times 24 hours: the
  server's zone has a fixed offset. Day counts stay far below the range of an \<^verbatim>\<open>int\<close> (a purchase has at
  most 365 times 12 days), so they are not wrapped; amounts, which the site's staff can set to any
  non-negative \<^verbatim>\<open>int64\<close>, are.

  A transaction is one step that runs completely or not at all: the rows it locks are those it changes.
  Its failures are those of \<open>fails\<close>, \<open>''commit''\<close> among them. Mails are left out; \<open>delivers\<close> says which
  reminders the mail server takes.
\<close>

subsection \<open>How purchases stack\<close>

abbreviation (input) "day_ns \<equiv> (86400000000000::int)"

definition AddDays :: "int \<Rightarrow> int \<Rightarrow> int" where
  "AddDays t n = t + n * day_ns"

text \<open>\<^verbatim>\<open>time.Time.Sub\<close> stays within the range of a duration.\<close>

definition time_sub :: "int \<Rightarrow> int \<Rightarrow> int" where
  "time_sub a b = max int64_min (min int64_max (a - b))"

definition subActive :: "int \<Rightarrow> user \<Rightarrow> bool" where
  "subActive now u \<longleftrightarrow> u_SubTier u \<noteq> '''' \<and> (case u_SubExpireAt u of None \<Rightarrow> True | Some t \<Rightarrow> now < t)"

definition ceilDays :: "int \<Rightarrow> int" where
  "ceilDays d = (if d \<le> 0 then 0 else d div day_ns + (if d mod day_ns \<noteq> 0 then 1 else 0))"

definition promoteInPlace :: "int \<Rightarrow> user \<Rightarrow> user \<times> bool" where
  "promoteInPlace now u =
     (if u_SubTier u = '''' \<or> u_SubPendingTier u = '''' then (u, False)
      else if (case u_SubExpireAt u of None \<Rightarrow> False | Some t \<Rightarrow> now < t) then (u, False)
      else (let days = (if u_SubPendingDays u < 1 then 1 else u_SubPendingDays u) in
        (u\<lparr>u_SubTier := u_SubPendingTier u, u_SubExpireAt := Some (AddDays now days), u_SubSource := u_SubPendingSource u,
           u_SubPendingTier := '''', u_SubPendingDays := 0, u_SubPendingSource := '''', u_SubReminded := 0\<rparr>, True)))"

definition stack_base :: "int \<Rightarrow> user \<Rightarrow> int" where
  "stack_base now u = (case u_SubExpireAt u of Some t \<Rightarrow> if now < t then t else now | None \<Rightarrow> now)"

definition applyPurchase :: "string \<Rightarrow> int \<Rightarrow> string \<Rightarrow> int \<Rightarrow> user \<Rightarrow> user" where
  "applyPurchase tier days source now u =
     (if days < 1 then u
      else (if \<not> subActive now u then
              u\<lparr>u_SubTier := tier, u_SubExpireAt := Some (AddDays now days), u_SubSource := source,
                u_SubPendingTier := '''', u_SubPendingDays := 0, u_SubPendingSource := ''''\<rparr>
            else if u_SubTier u = tier then u\<lparr>u_SubExpireAt := Some (AddDays (stack_base now u) days)\<rparr>
            else if u_SubTier u = ''pro'' \<and> tier = ''plus'' then
              u\<lparr>u_SubPendingTier := ''plus'', u_SubPendingDays := u_SubPendingDays u + days,
                u_SubPendingSource := (if u_SubPendingSource u = '''' then source else u_SubPendingSource u)\<rparr>
            else if u_SubTier u = ''plus'' \<and> tier = ''pro'' then
              (let remaining = (case u_SubExpireAt u of Some t \<Rightarrow> if now < t then ceilDays (time_sub t now) else 0 | None \<Rightarrow> 0);
                   v = u\<lparr>u_SubTier := ''pro'', u_SubExpireAt := Some (AddDays now days), u_SubSource := source\<rparr>
               in if u_SubPendingTier u = ''plus'' then v\<lparr>u_SubPendingDays := u_SubPendingDays u + remaining\<rparr>
                  else v\<lparr>u_SubPendingTier := ''plus'', u_SubPendingDays := remaining, u_SubPendingSource := u_SubSource u\<rparr>)
            else u\<lparr>u_SubExpireAt := Some (AddDays (stack_base now u) days), u_SubTier := tier, u_SubSource := source\<rparr>)
          \<lparr>u_SubReminded := 0\<rparr>)"

text \<open>The seven columns a change of a subscription writes, and the common part of the three transactions that
  add to one: read the row, promote what is due, stack, write.\<close>

definition sub_columns :: "user \<Rightarrow> user \<Rightarrow> user" where
  "sub_columns u v = v\<lparr>u_SubTier := u_SubTier u, u_SubExpireAt := u_SubExpireAt u, u_SubSource := u_SubSource u,
     u_SubPendingTier := u_SubPendingTier u, u_SubPendingDays := u_SubPendingDays u,
     u_SubPendingSource := u_SubPendingSource u, u_SubReminded := u_SubReminded u\<rparr>"

definition stacked :: "string \<Rightarrow> int \<Rightarrow> string \<Rightarrow> int \<Rightarrow> user \<Rightarrow> user" where
  "stacked tier days source now u = applyPurchase tier days source now (fst (promoteInPlace now u))"

definition add_to_subscription :: "fails \<Rightarrow> nat \<Rightarrow> string \<Rightarrow> int \<Rightarrow> string \<Rightarrow> db \<Rightarrow> string + db" where
  "add_to_subscription fl uid tier days source d =
     (case loadUser d uid of None \<Rightarrow> Inl ''not found''
      | Some u \<Rightarrow> (case exec fl ''users.subscription'' (upd_user uid (sub_columns (stacked tier days source (d_now d) u))) d of
           (d1, ok) \<Rightarrow> if ok then Inr d1 else Inl ''db''))"

subsection \<open>Plans\<close>

definition ListPlans :: "bool \<Rightarrow> db \<Rightarrow> plan_features list" where
  "ListPlans onlyEnabled d = (if onlyEnabled then filter pf_Enabled (d_plans d) else d_plans d)"

definition PlanByTier :: "string \<Rightarrow> db \<Rightarrow> string + plan_features" where
  "PlanByTier tier d = (case find (\<lambda>p. pf_Plan p = trim_space tier) (d_plans d) of None \<Rightarrow> Inl ''no such plan'' | Some p \<Rightarrow> Inr p)"

definition UpsertPlan :: "fails \<Rightarrow> plan_features \<Rightarrow> db \<Rightarrow> db \<times> bool" where
  "UpsertPlan fl p = exec fl ''plans.upsert'' (\<lambda>d. d\<lparr>d_plans :=
     (if list_ex (\<lambda>x. pf_Plan x = pf_Plan p) (d_plans d) then map (\<lambda>x. if pf_Plan x = pf_Plan p then p else x) (d_plans d)
      else d_plans d @ [p])\<rparr>)"

subsection \<open>Orders\<close>

abbreviation "OrderStatusPending \<equiv> ''pending''"
abbreviation "OrderStatusPaid \<equiv> ''paid''"
abbreviation "OrderStatusClosed \<equiv> ''closed''"

record payment_order =
  po_ID :: nat
  po_OrderNo :: string
  po_UserID :: nat
  po_Plan :: string
  po_Months :: int
  po_AmountCents :: int
  po_Status :: string
  po_PlatformOrderNo :: string
  po_PaidAt :: "int option"
  po_CreatedAt :: int

record sponsor_order =
  so_ID :: nat
  so_OrderNo :: string
  so_UserID :: nat
  so_Nickname :: string
  so_AmountCents :: int
  so_Message :: string
  so_Status :: string
  so_GiftTier :: string
  so_PlatformOrderNo :: string
  so_PaidAt :: "int option"
  so_CreatedAt :: int

record sponsor_expense =
  se_ID :: nat
  se_AmountCents :: int
  se_Note :: string
  se_Kind :: string
  se_SpentAt :: int
  se_CreatedBy :: nat

record sponsor_setting =
  ss_Membership :: bool
  ss_Donation :: bool
  ss_Intro :: string

text \<open>The tables of the shop beside those of the site.\<close>

record shop =
  s_db :: db
  s_orders :: "payment_order list"
  s_donations :: "sponsor_order list"
  s_expenses :: "sponsor_expense list"
  s_setting :: "sponsor_setting option"

definition find_order :: "shop \<Rightarrow> string \<Rightarrow> payment_order option" where
  "find_order s no = find (\<lambda>r. po_OrderNo r = no) (s_orders s)"

definition upd_order :: "nat \<Rightarrow> (payment_order \<Rightarrow> payment_order) \<Rightarrow> shop \<Rightarrow> shop" where
  "upd_order i f s = s\<lparr>s_orders := map (\<lambda>r. if po_ID r = i then f r else r) (s_orders s)\<rparr>"

definition new_order :: "string \<Rightarrow> nat \<Rightarrow> string \<Rightarrow> int \<Rightarrow> int \<Rightarrow> shop \<Rightarrow> payment_order" where
  "new_order orderNo uid plan months amountCents s =
     \<lparr>po_ID = next_id (s_db s), po_OrderNo = orderNo, po_UserID = uid, po_Plan = plan,
      po_Months = (if months < 1 then 1 else months), po_AmountCents = amountCents, po_Status = OrderStatusPending,
      po_PlatformOrderNo = '''', po_PaidAt = None, po_CreatedAt = d_now (s_db s)\<rparr>"

text \<open>The order number has a unique index: a second insert fails, and the first order is returned.\<close>

definition dalCreateOrder :: "fails \<Rightarrow> string \<Rightarrow> nat \<Rightarrow> string \<Rightarrow> int \<Rightarrow> int \<Rightarrow> shop \<Rightarrow> shop \<times> (string + payment_order)" where
  "dalCreateOrder fl orderNo uid plan months amountCents s =
     (let r = new_order orderNo uid plan months amountCents s in
      if fl ''orders.create'' \<or> find_order s orderNo \<noteq> None
      then (s, case find_order s orderNo of Some dup \<Rightarrow> Inr dup | None \<Rightarrow> Inl ''db'')
      else (s\<lparr>s_orders := s_orders s @ [r], s_db := drawn (s_db s)\<rparr>, Inr r))"

definition GetOrderByNo :: "string \<Rightarrow> shop \<Rightarrow> string + payment_order" where
  "GetOrderByNo orderNo s = (case find_order s (trim_space orderNo) of None \<Rightarrow> Inl ''no such order'' | Some r \<Rightarrow> Inr r)"

definition close_order :: "payment_order \<Rightarrow> payment_order" where
  "close_order r = (if po_Status r = OrderStatusPending then r\<lparr>po_Status := OrderStatusClosed\<rparr> else r)"

definition MarkOrderClosed :: "fails \<Rightarrow> nat \<Rightarrow> shop \<Rightarrow> shop \<times> (string + bool)" where
  "MarkOrderClosed fl i s = (case exec fl ''orders.close'' (upd_order i close_order) s of
     (s1, ok) \<Rightarrow> (s1, if ok then Inr (list_ex (\<lambda>r. po_ID r = i \<and> po_Status r = OrderStatusPending) (s_orders s)) else Inl ''db''))"

definition CloseStalePendingOrders :: "fails \<Rightarrow> int \<Rightarrow> shop \<Rightarrow> shop \<times> (string + nat)" where
  "CloseStalePendingOrders fl olderThan s =
     (let stale = (\<lambda>r. po_Status r = OrderStatusPending \<and> po_CreatedAt r < d_now (s_db s) - olderThan) in
      case exec fl ''orders.close_stale'' (\<lambda>s. s\<lparr>s_orders := map (\<lambda>r. if stale r then close_order r else r) (s_orders s)\<rparr>) s of
        (s1, ok) \<Rightarrow> (s1, if ok then Inr (length (filter stale (s_orders s))) else Inl ''db''))"

definition pay_order :: "string \<Rightarrow> int \<Rightarrow> payment_order \<Rightarrow> payment_order" where
  "pay_order platformOrderNo paidAt r =
     r\<lparr>po_Status := OrderStatusPaid, po_PlatformOrderNo := platformOrderNo, po_PaidAt := Some paidAt\<rparr>"

definition ClaimAndFulfillPaidOrder ::
  "fails \<Rightarrow> string \<Rightarrow> string \<Rightarrow> int \<Rightarrow> nat \<Rightarrow> string \<Rightarrow> int \<Rightarrow> shop \<Rightarrow> shop \<times> (string + payment_order \<times> bool)" where
  "ClaimAndFulfillPaidOrder fl orderNo platformOrderNo paidAt uid tier days s =
     (if days < 1 then (s, Inl ''bad days'')
      else (case find_order s orderNo of None \<Rightarrow> (s, Inl ''no such order'')
        | Some r \<Rightarrow>
            if po_Status r = OrderStatusPaid then (s, Inr (r, False))
            else (case exec fl ''orders.save'' (upd_order (po_ID r) (\<lambda>_. pay_order platformOrderNo paidAt r)) s of
                (s1, False) \<Rightarrow> (s, Inl ''db'')
              | (s1, True) \<Rightarrow>
                 (case add_to_subscription fl uid tier days ''payfm'' (s_db s1) of
                    Inl e \<Rightarrow> (s, Inl (if e = ''not found'' then ''no such order'' else e))
                  | Inr d1 \<Rightarrow> if fl ''commit'' then (s, Inl ''db'')
                      else (s1\<lparr>s_db := d1\<rparr>, Inr (pay_order platformOrderNo paidAt r, True))))))"

subsection \<open>Reading, granting and revoking a subscription\<close>

text \<open>The transaction in which a read promotes the queued tier; \<open>None\<close> when it failed.\<close>

definition promote_tx :: "fails \<Rightarrow> nat \<Rightarrow> db \<Rightarrow> db \<times> user option" where
  "promote_tx fl uid d =
     (case loadUser d uid of None \<Rightarrow> (d, None)
      | Some u \<Rightarrow> (case promoteInPlace (d_now d) u of
            (_, False) \<Rightarrow> (d, if fl ''commit'' then None else Some u)
          | (v, True) \<Rightarrow> if fl ''users.subscription'' \<or> fl ''commit'' then (d, None)
              else (upd_user uid (sub_columns v) d, Some v)))"

definition expired_at :: "int \<Rightarrow> user \<Rightarrow> bool" where
  "expired_at now u \<longleftrightarrow> (case u_SubExpireAt u of None \<Rightarrow> False | Some t \<Rightarrow> \<not> now < t)"

text \<open>The clock is read again after the transaction: \<open>later\<close>.\<close>

definition UserSubscription ::
  "fails \<Rightarrow> nat \<Rightarrow> int \<Rightarrow> db \<Rightarrow> db \<times> (string \<times> int option \<times> string \<times> string \<times> int)" where
  "UserSubscription fl uid later d =
     (case promote_tx fl uid d of
        (d1, None) \<Rightarrow> (d1, ('''', None, '''', '''', 0))
      | (d1, Some u) \<Rightarrow>
          let tier = trim_space (u_SubTier u) in
          if tier = '''' \<or> expired_at later u then (d1, ('''', None, '''', '''', 0))
          else (d1, (tier, u_SubExpireAt u, u_SubSource u, trim_space (u_SubPendingTier u),
                     if u_SubPendingDays u < 0 then 0 else u_SubPendingDays u)))"

text \<open>\<^verbatim>\<open>SubscriptionTier\<close> of \<^verbatim>\<open>dal/profile.go\<close>: a transaction only when something is due.\<close>

definition SubscriptionTier :: "fails \<Rightarrow> nat \<Rightarrow> int \<Rightarrow> db \<Rightarrow> db \<times> (string \<times> bool)" where
  "SubscriptionTier fl uid later d =
     (if uid = 0 then (d, ('''', False))
      else (case loadUser d uid of None \<Rightarrow> (d, ('''', False))
        | Some u \<Rightarrow>
           if trim_space (u_SubTier u) = '''' then (d, ('''', False))
           else if \<not> expired_at (d_now d) u then (d, (trim_space (u_SubTier u), True))
           else if trim_space (u_SubPendingTier u) = '''' then (d, ('''', False))
           else (case promote_tx fl uid d of
               (d1, None) \<Rightarrow> (d1, ('''', False))
             | (d1, Some v) \<Rightarrow> if trim_space (u_SubTier v) = '''' \<or> expired_at later v then (d1, ('''', False))
                 else (d1, (trim_space (u_SubTier v), True)))))"

definition Grant :: "fails \<Rightarrow> nat \<Rightarrow> string \<Rightarrow> int \<Rightarrow> db \<Rightarrow> db \<times> (string + unit)" where
  "Grant fl uid tier days d =
     (if days < 1 \<or> 365 < days then (d, Inl ''days out of range'')
      else (case add_to_subscription fl uid tier days ''manager'' d of
          Inl e \<Rightarrow> (d, Inl e) | Inr d1 \<Rightarrow> if fl ''commit'' then (d, Inl ''db'') else (d1, Inr ())))"

definition no_subscription :: "user \<Rightarrow> user" where
  "no_subscription u = u\<lparr>u_SubTier := '''', u_SubExpireAt := None, u_SubSource := '''', u_SubPendingTier := '''',
     u_SubPendingDays := 0, u_SubPendingSource := '''', u_SubReminded := 0\<rparr>"

definition Revoke :: "fails \<Rightarrow> nat \<Rightarrow> db \<Rightarrow> db \<times> (string + unit)" where
  "Revoke fl uid d = (case exec fl ''users.subscription'' (upd_user uid no_subscription) d of
     (d1, ok) \<Rightarrow> (d1, if ok then Inr () else Inl ''db''))"

text \<open>The statement that promotes everybody who is due.\<close>

definition due :: "int \<Rightarrow> user \<Rightarrow> bool" where
  "due now u \<longleftrightarrow> u_SubTier u \<noteq> '''' \<and> u_SubExpireAt u \<noteq> None \<and> the (u_SubExpireAt u) \<le> now \<and> u_SubPendingTier u \<noteq> ''''"

definition promote_row :: "int \<Rightarrow> user \<Rightarrow> user" where
  "promote_row now u = u\<lparr>u_SubTier := u_SubPendingTier u, u_SubExpireAt := Some (AddDays now (u_SubPendingDays u)),
     u_SubSource := u_SubPendingSource u, u_SubPendingTier := '''', u_SubPendingDays := 0, u_SubPendingSource := '''',
     u_SubReminded := 0\<rparr>"

definition PromoteDue :: "fails \<Rightarrow> db \<Rightarrow> db \<times> (string + nat)" where
  "PromoteDue fl d =
     (case exec fl ''users.promote_due'' (\<lambda>d. d\<lparr>d_users := map (\<lambda>u. if due (d_now d) u then promote_row (d_now d) u else u) (d_users d)\<rparr>) d of
        (d1, ok) \<Rightarrow> (d1, if ok then Inr (length (filter (due (d_now d)) (d_users d))) else Inl ''db''))"

subsection \<open>Reminders of an expiry\<close>

definition ListExpiringSoon :: "int \<Rightarrow> db \<Rightarrow> user list" where
  "ListExpiringSoon windowDays d =
     (let w = (if windowDays < 1 then 1 else windowDays) in
      filter (\<lambda>u. u_SubTier u \<noteq> '''' \<and> (case u_SubExpireAt u of None \<Rightarrow> False
           | Some t \<Rightarrow> d_now d < t \<and> t \<le> AddDays (d_now d) w) \<and> u_SubReminded u < 3) (d_users d))"

definition MarkReminded :: "fails \<Rightarrow> nat \<Rightarrow> int \<Rightarrow> db \<Rightarrow> db" where
  "MarkReminded fl uid window = put fl (''users.reminded.'' @ nat_str uid) (upd_user uid (\<lambda>u. u\<lparr>u_SubReminded := window\<rparr>))"

definition subscriptionReminderWindowDays :: int where "subscriptionReminderWindowDays = 3"

text \<open>Which reminder is due; 0 for none. The quotient of \<^verbatim>\<open>Hours\<close> by 24 is at most 1 or 3 exactly when the
  duration is at most that many days: the nearest larger duration, a nanosecond more, is told apart in double
  precision.\<close>

definition reminder_window :: "int \<Rightarrow> user \<Rightarrow> int" where
  "reminder_window now u = (case u_SubExpireAt u of None \<Rightarrow> 0
     | Some t \<Rightarrow> if t - now \<le> day_ns \<and> u_SubReminded u \<noteq> 1 then 1
         else if t - now \<le> subscriptionReminderWindowDays * day_ns \<and> u_SubReminded u < 3 then 3 else 0)"

fun remind_users :: "fails \<Rightarrow> (user \<Rightarrow> int \<Rightarrow> bool) \<Rightarrow> user list \<Rightarrow> db \<Rightarrow> db \<times> (nat \<times> int) list" where
  "remind_users fl delivers [] d = (d, [])"
| "remind_users fl delivers (u # us) d =
     (let w = reminder_window (d_now d) u in
      if w = 0 \<or> \<not> delivers u w then remind_users fl delivers us d
      else (case remind_users fl delivers us (MarkReminded fl (u_ID u) w d) of (d1, ms) \<Rightarrow> (d1, (u_ID u, w) # ms)))"

definition sweep :: "fails \<Rightarrow> (user \<Rightarrow> int \<Rightarrow> bool) \<Rightarrow> bool \<Rightarrow> db \<Rightarrow> db \<times> (nat \<times> int) list" where
  "sweep fl delivers locked d =
     (if \<not> locked then (d, [])
      else (case PromoteDue fl d of (d1, _) \<Rightarrow>
        remind_users fl delivers (ListExpiringSoon subscriptionReminderWindowDays d1) d1))"

subsection \<open>The handlers\<close>

definition tierName :: "string \<Rightarrow> string" where
  "tierName tier = (if tier = ''plus'' then ''Plus'' else if tier = ''pro'' then ''Pro'' else tier)"

definition order_subject :: "string \<Rightarrow> int \<Rightarrow> string" where
  "order_subject plan months = ''GoAlgo '' @ tierName plan
     @ [CHR '' '', CHR 0xE4, CHR 0xBC, CHR 0x9A, CHR 0xE5, CHR 0x91, CHR 0x98, CHR 0xEF, CHR 0xBC, CHR 0x88] @ int_str months
     @ [CHR '' '', CHR 0xE4, CHR 0xB8, CHR 0xAA, CHR 0xE6, CHR 0x9C, CHR 0x88, CHR 0xEF, CHR 0xBC, CHR 0x89]"

definition is_tier :: "string \<Rightarrow> bool" where
  "is_tier t \<longleftrightarrow> t = ''plus'' \<or> t = ''pro''"

text \<open>What does not change between requests: the digest, the clock's zone, the payment platform, the
  configuration of the gateway and the address of its notifications.\<close>

record env =
  e_md5 :: "string \<Rightarrow> string"
  e_local_time :: "string \<Rightarrow> int option"
  e_platform :: platform
  e_conf :: "pay_conf option"
  e_url :: string

text \<open>The answer to an order: its number, the link, the amount, the months and the days.\<close>

definition CreateOrder ::
  "env \<Rightarrow> JwtPayload option \<Rightarrow> string \<Rightarrow> int \<Rightarrow> fails \<Rightarrow> shop \<Rightarrow> shop \<times> (string + string \<times> string \<times> int \<times> int \<times> int)" where
  "CreateOrder e pd reqPlan reqMonths fl s =
     (if pd = None \<or> UserID (the pd) = 0 then (s, Inl ''login'')
      else let plan = trim_space reqPlan; months = (if reqMonths < 1 then 1 else reqMonths) in
        if \<not> is_tier plan then (s, Inl ''bad plan'')
        else if 12 < months then (s, Inl ''too many months'')
        else (case PlanByTier plan (s_db s) of Inl _ \<Rightarrow> (s, Inl ''no such plan'')
          | Inr p \<Rightarrow> if \<not> pf_Enabled p \<or> pf_PriceCents p \<le> 0 then (s, Inl ''not for sale'')
            else (case paymentGateway (e_conf e) (e_url e) of Inl m \<Rightarrow> (s, Inl m)
              | Inr g \<Rightarrow>
                 let amountCents = wrap64 (pf_PriceCents p * months); orderNo = ''S'' @ int_str (d_now (s_db s)) in
                 (case dalCreateOrder fl orderNo (UserID (the pd)) plan months amountCents s of
                    (s1, Inl _) \<Rightarrow> (s1, Inl ''order failed'')
                  | (s1, Inr ord) \<Rightarrow>
                     (case gatewayCreateOrder (e_md5 e) (e_platform e) g orderNo amountCents (order_subject plan months) of
                        Inl m \<Rightarrow> (fst (MarkOrderClosed fl (po_ID ord) s1), Inl m)
                      | Inr url \<Rightarrow> (s1, Inr (orderNo, url, amountCents, months, pf_Days p * months)))))))"

definition GetOrder :: "JwtPayload option \<Rightarrow> string \<Rightarrow> shop \<Rightarrow> string + string \<times> string \<times> int option" where
  "GetOrder pd reqNo s =
     (if pd = None \<or> UserID (the pd) = 0 then Inl ''login''
      else if trim_space reqNo = '''' then Inl ''order number missing''
      else (case GetOrderByNo (trim_space reqNo) s of Inl _ \<Rightarrow> Inl ''no such order''
        | Inr r \<Rightarrow> if po_UserID r \<noteq> UserID (the pd) \<and> \<not> PayloadHasPerm pd ''site.user.sync'' then Inl ''not yours''
            else Inr (po_OrderNo r, po_Status r, po_PaidAt r)))"

text \<open>The payment callback in two parts: what it reads and checks, and what it commits. Between the two
  other requests may run. No form stands for a request without one.\<close>

record claim =
  cl_OrderNo :: string
  cl_PlatformOrderNo :: string
  cl_PaidAt :: int
  cl_User :: nat
  cl_Tier :: string
  cl_Days :: int

definition notify_check :: "env \<Rightarrow> form option \<Rightarrow> shop \<Rightarrow> string + claim" where
  "notify_check e fm s =
     (case fm of None \<Rightarrow> Inl ''bad form''
      | Some f \<Rightarrow> (case paymentGateway (e_conf e) (e_url e) of Inl m \<Rightarrow> Inl m
        | Inr g \<Rightarrow> (case ParseNotification (e_md5 e) (e_local_time e) g (form_value f) of Inl m \<Rightarrow> Inl m
          | Inr n \<Rightarrow> (case ParseYuanStringToCents (n_Amount n) of Inl m \<Rightarrow> Inl m
            | Inr paidCents \<Rightarrow> (case GetOrderByNo (n_OrderNo n) s of Inl m \<Rightarrow> Inl m
              | Inr r \<Rightarrow> if paidCents \<noteq> po_AmountCents r then Inl ''wrong amount''
                 else (case PlanByTier (po_Plan r) (s_db s) of Inl m \<Rightarrow> Inl m
                   | Inr p \<Rightarrow> if pf_Days p < 1 \<or> pf_Days p * po_Months r < 1 then Inl ''bad days''
                       else Inr \<lparr>cl_OrderNo = n_OrderNo n, cl_PlatformOrderNo = n_PlatformOrderNo n, cl_PaidAt = n_PayTime n,
                              cl_User = po_UserID r, cl_Tier = po_Plan r, cl_Days = pf_Days p * po_Months r\<rparr>))))))"

definition notify_claim :: "fails \<Rightarrow> claim \<Rightarrow> shop \<Rightarrow> shop \<times> bool \<times> bool" where
  "notify_claim fl c s =
     (case ClaimAndFulfillPaidOrder fl (cl_OrderNo c) (cl_PlatformOrderNo c) (cl_PaidAt c) (cl_User c) (cl_Tier c) (cl_Days c) s of
        (s1, Inl _) \<Rightarrow> (s1, False, False)
      | (s1, Inr (_, False)) \<Rightarrow> (s1, True, False)
      | (s1, Inr (r, True)) \<Rightarrow> (s1\<lparr>s_db := SyncProblemPipelineOverrides fl (po_UserID r) (s_db s1)\<rparr>, True, True))"

definition NotifyHTTP :: "env \<Rightarrow> form option \<Rightarrow> fails \<Rightarrow> shop \<Rightarrow> shop \<times> bool" where
  "NotifyHTTP e fm fl s = (case notify_check e fm s of Inl _ \<Rightarrow> (s, False)
     | Inr c \<Rightarrow> (case notify_claim fl c s of (s1, ack, _) \<Rightarrow> (s1, ack)))"

text \<open>The days left, rounded down by the conversion to \<^verbatim>\<open>int32\<close>.\<close>

definition MySubscription ::
  "JwtPayload option \<Rightarrow> fails \<Rightarrow> int \<Rightarrow> db \<Rightarrow> db \<times> (string + string \<times> string \<times> (int \<times> int) option \<times> (string \<times> int) option)" where
  "MySubscription pd fl later d =
     (if pd = None \<or> UserID (the pd) = 0 then (d, Inl ''login'')
      else (case UserSubscription fl (UserID (the pd)) later d of (d1, tier, expireAt, source, pendingTier, pendingDays) \<Rightarrow>
        (d1, Inr (tier, source,
           (case expireAt of Some t \<Rightarrow> if tier \<noteq> '''' then Some (t, max 0 ((t - later) div day_ns)) else None | None \<Rightarrow> None),
           (if pendingTier \<noteq> '''' then Some (pendingTier, pendingDays) else None)))))"

definition orgAiAnalyzeUnlimited :: "db \<Rightarrow> nat \<Rightarrow> bool" where
  "orgAiAnalyzeUnlimited d uid \<longleftrightarrow> list_ex (\<lambda>m. mb_User m = uid \<and> list_ex (\<lambda>r. o_ID r = mb_Org m \<and> o_Slug r \<noteq> PublicOrgSlug
     \<and> \<not> o_IsSystem r \<and> o_Status r = OrgStatusActive \<and> o_EnableAiAnalyze r) (d_orgs d)) (d_members d)"

text \<open>The plan a subscriber has, as the quota and the status read it.\<close>

definition active_plan :: "fails \<Rightarrow> nat \<Rightarrow> int \<Rightarrow> db \<Rightarrow> db \<times> bool \<times> plan_features option" where
  "active_plan fl uid later d =
     (case SubscriptionTier fl uid later d of (d1, tier, active) \<Rightarrow>
        if active \<and> tier = ''pro'' then (d1, True, case PlanByTier tier d1 of Inr p \<Rightarrow> Some p | Inl _ \<Rightarrow> None) else (d1, False, None))"

definition GetAiAnalyzeQuota :: "fails \<Rightarrow> nat \<Rightarrow> int \<Rightarrow> db \<Rightarrow> db \<times> bool \<times> int" where
  "GetAiAnalyzeQuota fl uid later d =
     (if uid = 0 then (d, False, 0)
      else if orgAiAnalyzeUnlimited d uid then (d, True, 0)
      else (case active_plan fl uid later d of
          (d1, _, Some p) \<Rightarrow> (d1, False, if pf_EnableAiAnalyze p then pf_AiAnalyzeMonth p else 0)
        | (d1, _, None) \<Rightarrow> (d1, False, 0)))"

definition resolveAiAnalyzeStatus :: "bool \<Rightarrow> int \<Rightarrow> bool \<Rightarrow> string \<times> bool \<times> int" where
  "resolveAiAnalyzeStatus proActive proQuota orgUnlimited =
     (if proActive \<and> orgUnlimited then (''pro_org'', True, proQuota)
      else if proActive then (''pro'', False, proQuota)
      else if orgUnlimited then (''org'', True, 0) else (''none'', False, 0))"

text \<open>\<open>daily_on\<close> is the personal switch of the daily mail.\<close>

definition MyAiStatus :: "(nat \<Rightarrow> bool) \<Rightarrow> fails \<Rightarrow> nat \<Rightarrow> int \<Rightarrow> db \<Rightarrow> db \<times> (string + (string \<times> bool \<times> int) \<times> bool)" where
  "MyAiStatus daily_on fl uid later d =
     (if uid = 0 then (d, Inl ''login'')
      else (case active_plan fl uid later d of (d1, proActive, p) \<Rightarrow>
        (d1, Inr (resolveAiAnalyzeStatus proActive
                (case p of Some x \<Rightarrow> if pf_EnableAiAnalyze x then pf_AiAnalyzeMonth x else 0 | None \<Rightarrow> 0) (orgAiAnalyzeUnlimited d1 uid),
              proActive \<and> (case p of Some x \<Rightarrow> pf_EnableAiDaily x | None \<Rightarrow> False) \<and> daily_on uid))))"

definition GrantSubscription :: "JwtPayload option \<Rightarrow> nat \<Rightarrow> string \<Rightarrow> int \<Rightarrow> fails \<Rightarrow> db \<Rightarrow> db \<times> (string + unit)" where
  "GrantSubscription pd uid reqTier days fl d =
     (if \<not> PayloadHasPerm pd ''site.user.sync'' then (d, Inl ''no permission'')
      else if \<not> is_tier (trim_space reqTier) then (d, Inl ''bad tier'')
      else if days < 1 \<or> 365 < days then (d, Inl ''days out of range'')
      else if uid = 0 then (d, Inl ''bad user'')
      else if loadUser d uid = None then (d, Inl ''no such user'')
      else (case Grant fl uid (trim_space reqTier) days d of
          (d1, Inl _) \<Rightarrow> (d1, Inl ''grant failed'')
        | (d1, Inr ()) \<Rightarrow> (SyncProblemPipelineOverrides fl uid d1, Inr ())))"

definition RevokeSubscription :: "JwtPayload option \<Rightarrow> nat \<Rightarrow> fails \<Rightarrow> db \<Rightarrow> db \<times> (string + unit)" where
  "RevokeSubscription pd uid fl d =
     (if \<not> PayloadHasPerm pd ''site.user.sync'' then (d, Inl ''no permission'')
      else if uid = 0 then (d, Inl ''bad user'')
      else (case Revoke fl uid d of
          (d1, Inl _) \<Rightarrow> (d1, Inl ''revoke failed'')
        | (d1, Inr ()) \<Rightarrow> (SyncProblemPipelineOverrides fl uid d1, Inr ())))"

text \<open>The plans: all of them are checked before the first is written; a failing write leaves those before it.\<close>

definition plan_error :: "plan_features \<Rightarrow> string option" where
  "plan_error p =
     (let plan = trim_space (pf_Plan p) in
      if plan = '''' then Some ''plan missing''
      else if plan = ''free'' \<and> pf_PriceCents p \<noteq> 0 then Some ''free costs nothing''
      else if pf_PriceCents p < 0 then Some ''negative price''
      else if pf_ManualRefreshDaily p < 0 \<or> 100 < pf_ManualRefreshDaily p then Some ''refreshes out of range''
      else if pf_SyncIntervalMin p < 5 \<or> 10080 < pf_SyncIntervalMin p then Some ''interval out of range''
      else if pf_AiAnalyzeMonth p < 0 \<or> 10000 < pf_AiAnalyzeMonth p then Some ''analyses out of range''
      else if pf_Days p < 1 \<or> 365 < pf_Days p then Some ''days out of range''
      else None)"

fun upsert_plans :: "fails \<Rightarrow> plan_features list \<Rightarrow> db \<Rightarrow> db \<times> (string + unit)" where
  "upsert_plans fl [] d = (d, Inr ())"
| "upsert_plans fl (p # ps) d =
     (case UpsertPlan (\<lambda>l. fl (l @ ''.'' @ trim_space (pf_Plan p))) (p\<lparr>pf_Plan := trim_space (pf_Plan p)\<rparr>) d of
        (d1, False) \<Rightarrow> (d1, Inl ''save failed'')
      | (d1, True) \<Rightarrow> upsert_plans fl ps d1)"

definition UpdatePlans :: "JwtPayload option \<Rightarrow> plan_features list \<Rightarrow> fails \<Rightarrow> db \<Rightarrow> db \<times> (string + unit)" where
  "UpdatePlans pd ps fl d =
     (if \<not> PayloadHasPerm pd ''site.user.sync'' then (d, Inl ''no permission'')
      else if ps = [] then (d, Inl ''no plan'')
      else (case List.map_filter plan_error ps of m # _ \<Rightarrow> (d, Inl m) | [] \<Rightarrow> upsert_plans fl ps d))"

subsection \<open>Quotas and intervals of a subscriber\<close>

text \<open>From \<^verbatim>\<open>dal/profile.go\<close>: how the override of the site's staff, the plan and the organisations combine.\<close>

definition DefaultRefreshQuota :: int where "DefaultRefreshQuota = 2"

definition mergeRefreshQuota :: "int option \<Rightarrow> int \<Rightarrow> bool \<Rightarrow> int \<times> bool" where
  "mergeRefreshQuota override planQuota subscribed =
     (if subscribed then (case override of None \<Rightarrow> (planQuota, False)
        | Some v \<Rightarrow> if v \<le> 0 then (0, True) else if planQuota < v then (v, True) else (planQuota, True))
      else (case override of None \<Rightarrow> (DefaultRefreshQuota, False) | Some v \<Rightarrow> (v, True)))"

definition GetRefreshQuota :: "(nat \<Rightarrow> int option) \<Rightarrow> fails \<Rightarrow> nat \<Rightarrow> int \<Rightarrow> db \<Rightarrow> db \<times> (string + int \<times> bool)" where
  "GetRefreshQuota override fl uid later d =
     (if uid = 0 then (d, Inl ''bad user'')
      else if loadUser d uid = None then (d, Inl ''not found'')
      else (case SubscriptionTier fl uid later d of (d1, tier, active) \<Rightarrow>
        (case (if active then PlanByTier tier d1 else Inl ''none'') of
           Inr p \<Rightarrow> (d1, Inr (mergeRefreshQuota (override uid) (pf_ManualRefreshDaily p) True))
         | Inl _ \<Rightarrow> (d1, Inr (mergeRefreshQuota (override uid) 0 False)))))"

definition clampSyncInterval :: "int \<Rightarrow> int \<Rightarrow> int" where
  "clampSyncInterval v dflt = (if v \<le> 0 then dflt else if v < 5 then 5 else if 10080 < v then 10080 else v)"

definition mergeSpiderInterval :: "int \<Rightarrow> int \<Rightarrow> int \<Rightarrow> bool \<Rightarrow> int" where
  "mergeSpiderInterval orgMin overrideMin subIntervalMin subscribed =
     (let a = (if 0 < orgMin then orgMin else 0);
          b = (if 0 < overrideMin \<and> (a = 0 \<or> overrideMin < a) then overrideMin else a);
          c = (if subscribed \<and> 0 < subIntervalMin \<and> (b = 0 \<or> subIntervalMin < b) then subIntervalMin else b)
      in clampSyncInterval c 180)"

end
