(* ===== verification/SubLaws.thy ===== *)
theory SubLaws
  imports Subscription
begin

text \<open>
  The laws of stacking: which subscriptions can arise, what a purchase adds to the time a user is entitled to,
  and that the statement for everybody promotes as the function for one row does. At the end, what becomes of a
  subscription without an expiry, and of the reminders.
\<close>

subsection \<open>The subscriptions that can arise\<close>

definition sub_ok :: "user \<Rightarrow> bool" where
  "sub_ok u \<longleftrightarrow> (if u_SubTier u = '''' then u_SubExpireAt u = None else is_tier (u_SubTier u) \<and> u_SubExpireAt u \<noteq> None)
     \<and> (if u_SubPendingTier u = '''' then u_SubPendingDays u = 0
        else u_SubPendingTier u = ''plus'' \<and> u_SubTier u = ''pro'' \<and> 1 \<le> u_SubPendingDays u)"

named_theorems sub_simps \<open>the operations on one subscription\<close>

lemmas [sub_simps] = promoteInPlace_def applyPurchase_def subActive_def sub_ok_def is_tier_def stack_base_def

lemma is_tier_simps [simp]: "is_tier ''plus''" "is_tier ''pro''" "\<not> is_tier ''''"
  by (simp_all add: is_tier_def)

lemma sub_cases:
  assumes "sub_ok u"
  obtains (free) "u_SubTier u = ''''" "u_SubExpireAt u = None" "u_SubPendingTier u = ''''" "u_SubPendingDays u = 0"
  | (single) t where "is_tier (u_SubTier u)" "u_SubExpireAt u = Some t" "u_SubPendingTier u = ''''" "u_SubPendingDays u = 0"
  | (queued) t n where "u_SubTier u = ''pro''" "u_SubExpireAt u = Some t" "u_SubPendingTier u = ''plus''" "u_SubPendingDays u = n" "1 \<le> n"
proof (cases "u_SubTier u = ''''")
  case True
  then show ?thesis using assms free by (simp add: sub_ok_def split: if_split_asm)
next
  case False
  then obtain t where t: "is_tier (u_SubTier u)" "u_SubExpireAt u = Some t" using assms by (auto simp: sub_ok_def)
  then show ?thesis using assms single queued False by (cases "u_SubPendingTier u = ''''") (simp_all add: sub_ok_def)
qed

lemma ceilDays_bounds:
  assumes "0 \<le> d" shows "d \<le> ceilDays d * day_ns" "ceilDays d * day_ns < d + day_ns"
proof -
  define q r where "q = d div day_ns" and "r = d mod day_ns"
  have e: "d = q * day_ns + r" by (simp add: q_def r_def)
  have m: "0 \<le> r" "r < day_ns" by (simp_all add: r_def)
  have c: "ceilDays d = (if d \<le> 0 then 0 else q + (if r \<noteq> 0 then 1 else 0))" by (simp add: ceilDays_def q_def r_def)
  show "d \<le> ceilDays d * day_ns" using e m assms unfolding c by (auto split: if_splits)
  show "ceilDays d * day_ns < d + day_ns" using e m assms unfolding c by (auto split: if_splits)
qed

lemma ceilDays_pos: "0 < d \<Longrightarrow> 1 \<le> ceilDays d"
  using ceilDays_bounds(1)[of d] by (cases "1 \<le> ceilDays d") auto

lemma time_sub_pos: "now < t \<Longrightarrow> 0 < time_sub t now"
  by (auto simp: time_sub_def int64_min_def int64_max_def)

lemma promote_ok: "sub_ok u \<Longrightarrow> sub_ok (fst (promoteInPlace now u))"
  by (erule sub_cases) (auto simp add: promoteInPlace_def sub_ok_def Let_def)

lemma promoted_no_queue:
  "sub_ok u \<Longrightarrow> \<not> subActive now (fst (promoteInPlace now u)) \<Longrightarrow> u_SubPendingTier (fst (promoteInPlace now u)) = ''''"
  by (erule sub_cases) (auto simp: promoteInPlace_def subActive_def AddDays_def Let_def)

lemma apply_ok:
  assumes "sub_ok u" and "is_tier tier"
  shows "sub_ok (applyPurchase tier days source now u)"
proof (cases "1 \<le> days")
  case True
  from assms(2) consider "tier = ''plus''" | "tier = ''pro''" by (auto simp: is_tier_def)
  note tiers = this
  from assms(1) show ?thesis
  proof (cases rule: sub_cases)
    case free
    then show ?thesis using True assms(2) by (auto simp: applyPurchase_def subActive_def sub_ok_def)
  next
    case (single t)
    note s = this
    then have c: "now < t \<Longrightarrow> 1 \<le> ceilDays (time_sub t now)" using ceilDays_pos[OF time_sub_pos] by blast
    from tiers show ?thesis
      by cases (use s True c in \<open>auto simp: applyPurchase_def subActive_def sub_ok_def is_tier_def Let_def\<close>)
  next
    case (queued t n)
    note s = this
    from tiers show ?thesis
      by cases (use s True in \<open>auto simp: applyPurchase_def subActive_def sub_ok_def is_tier_def Let_def\<close>)
  qed
qed (simp add: applyPurchase_def assms(1))

subsection \<open>What a purchase adds\<close>

text \<open>The time of a tier a user still has at \<open>now\<close>: what runs and what waits.\<close>

definition entitled :: "string \<Rightarrow> int \<Rightarrow> user \<Rightarrow> int" where
  "entitled t now u =
     (case u_SubExpireAt u of Some x \<Rightarrow> if u_SubTier u = t \<and> now < x then x - now else 0 | None \<Rightarrow> 0)
     + (if u_SubPendingTier u = t then u_SubPendingDays u * day_ns else 0)"

lemma promote_entitled: "sub_ok u \<Longrightarrow> is_tier t \<Longrightarrow> entitled t now (fst (promoteInPlace now u)) = entitled t now u"
  by (erule sub_cases) (auto simp: promoteInPlace_def entitled_def AddDays_def Let_def is_tier_def)

definition fits :: "int \<Rightarrow> user \<Rightarrow> bool" where
  "fits now u \<longleftrightarrow> (case u_SubExpireAt u of None \<Rightarrow> True | Some t \<Rightarrow> t - now \<le> int64_max)"

lemma apply_entitled:
  fixes src :: string
  assumes "sub_ok u" and "is_tier tier" and "is_tier t" and "1 \<le> days" and "fits now u"
    and "subActive now u \<or> u_SubPendingTier u = ''''"
  defines "gain \<equiv> entitled t now (applyPurchase tier days src now u)
      - (entitled t now u + (if t = tier then days * day_ns else 0))"
  shows "0 \<le> gain \<and> gain < day_ns"
proof -
  have tiers: "tier = ''plus'' \<or> tier = ''pro''" and ts: "t = ''plus'' \<or> t = ''pro''"
    using assms(2,3) by (simp_all add: is_tier_def)
  from assms(1) show ?thesis
  proof (cases rule: sub_cases)
    case free
    then show ?thesis using assms(3,4) by (auto simp: gain_def applyPurchase_def subActive_def entitled_def AddDays_def)
  next
    case (single x)
    have c: "time_sub x now = x - now" "x - now \<le> ceilDays (x - now) * day_ns" "ceilDays (x - now) * day_ns < x - now + day_ns" if "now < x"
      using ceilDays_bounds[of "x - now"] that assms(5) single by (auto simp: time_sub_def fits_def int64_min_def)
    have p: "u_SubTier u = ''plus'' \<or> u_SubTier u = ''pro''" using single by (simp add: is_tier_def)
    show ?thesis using tiers ts p
      by (elim disjE; cases "now < x")
        (use single c assms(4) in \<open>auto simp: gain_def applyPurchase_def subActive_def entitled_def AddDays_def stack_base_def Let_def\<close>)
  next
    case (queued x n)
    then have x: "now < x" using assms(6) by (simp add: subActive_def)
    show ?thesis using tiers ts
      by (elim disjE) (use queued x assms(4) in \<open>auto simp: gain_def applyPurchase_def subActive_def entitled_def AddDays_def stack_base_def
          algebra_simps\<close>)
  qed
qed

lemma stacked_ok: "sub_ok u \<Longrightarrow> is_tier tier \<Longrightarrow> sub_ok (stacked tier days source now u)"
  unfolding stacked_def by (intro apply_ok promote_ok)

text \<open>C10: No purchased day is lost. Buying days of a tier, from any subscription that can arise and at any time,
  leaves the user entitled to all the time of either tier there was before, running or waiting, and to the bought
  days in addition; rounding a paused Plus up to days adds less than one more. Pro takes effect at once.\<close>

theorem purchase_adds_its_days:
  assumes "sub_ok u" and "is_tier tier" and "is_tier t" and "1 \<le> days" and "fits now (fst (promoteInPlace now u))"
  shows "entitled t now u + (if t = tier then days * day_ns else 0) \<le> entitled t now (stacked tier days source now u)
    \<and> entitled t now (stacked tier days source now u) < entitled t now u + (if t = tier then days * day_ns else 0) + day_ns
    \<and> (tier = ''pro'' \<longrightarrow> u_SubTier (stacked tier days source now u) = ''pro'' \<and> subActive now (stacked tier days source now u))"
proof -
  let ?v = "fst (promoteInPlace now u)"
  have v: "sub_ok ?v" "subActive now ?v \<or> u_SubPendingTier ?v = ''''"
    using promote_ok promoted_no_queue assms(1) by blast+
  have "u_SubTier (applyPurchase ''pro'' days source now ?v) = ''pro'' \<and> subActive now (applyPurchase ''pro'' days source now ?v)"
    using v(1) assms(4) by (cases rule: sub_cases)
      (auto simp: applyPurchase_def subActive_def is_tier_def stack_base_def AddDays_def Let_def)
  then show ?thesis
    using apply_entitled[OF v(1) assms(2-5) v(2), of source] promote_entitled[OF assms(1,3), of now] by (simp add: stacked_def)
qed

definition ex_buyer :: user where
  "ex_buyer = \<lparr>u_ID = 7, u_Username = ''ann'', u_Name = ''Ann'', u_IsSiteAdmin = False, u_RoleID = 0, u_CurrentOrgID = 0,
     u_GroupId = 0, u_WeeklyEmail = False, u_SubTier = ''plus'', u_SubExpireAt = Some (5 * day_ns + 1), u_SubSource = ''payfm'',
     u_SubPendingTier = '''', u_SubPendingDays = 0, u_SubPendingSource = '''', u_SubReminded = 0,
     u_FetchOverride = None, u_AiOverride = None\<rparr>"

theorem purchase_adds_its_days_witness:
  "entitled ''plus'' 0 ex_buyer \<le> entitled ''plus'' 0 (stacked ''pro'' 30 ''payfm'' 0 ex_buyer)
   \<and> entitled ''pro'' 0 (stacked ''pro'' 30 ''payfm'' 0 ex_buyer) = 30 * day_ns
   \<and> entitled ''plus'' 0 (stacked ''pro'' 30 ''payfm'' 0 ex_buyer) = 6 * day_ns"
proof -
  have ok: "sub_ok ex_buyer" "is_tier ''pro''" "is_tier ''plus''" "fits 0 (fst (promoteInPlace 0 ex_buyer))" by code_simp+
  have v: "entitled ''pro'' 0 (stacked ''pro'' 30 ''payfm'' 0 ex_buyer) = 30 * day_ns"
    "entitled ''plus'' 0 (stacked ''pro'' 30 ''payfm'' 0 ex_buyer) = 6 * day_ns" by code_simp+
  show ?thesis using purchase_adds_its_days[OF ok(1,2,3) _ ok(4), of 30 "''payfm''"] v by simp
qed

subsection \<open>Everybody who is due\<close>

text \<open>C25: The sweep over the table agrees with the promotion of one row. On subscriptions that can arise, the
  single statement of \<^verbatim>\<open>PromoteDue\<close> gives every user the subscription that \<^verbatim>\<open>promoteInPlace\<close> would have given, and
  counts those it changed.\<close>

theorem sweep_promotes_as_one_row:
  assumes "\<forall>u\<in>set (d_users d). sub_ok u" and "\<not> fl ''users.promote_due''"
  shows "PromoteDue fl d = (d\<lparr>d_users := map (\<lambda>u. fst (promoteInPlace (d_now d) u)) (d_users d)\<rparr>,
    Inr (length (filter (\<lambda>u. snd (promoteInPlace (d_now d) u)) (d_users d))))"
proof -
  have row: "(if due (d_now d) u then promote_row (d_now d) u else u) = fst (promoteInPlace (d_now d) u)
      \<and> due (d_now d) u = snd (promoteInPlace (d_now d) u)" if "u \<in> set (d_users d)" for u
    using assms(1)[rule_format, OF that]
    by (cases rule: sub_cases) (auto simp: due_def promote_row_def promoteInPlace_def Let_def)
  then have "filter (due (d_now d)) (d_users d) = filter (\<lambda>u. snd (promoteInPlace (d_now d) u)) (d_users d)"
    by (intro filter_cong) auto
  moreover have "map (\<lambda>u. if due (d_now d) u then promote_row (d_now d) u else u) (d_users d)
      = map (\<lambda>u. fst (promoteInPlace (d_now d) u)) (d_users d)"
    by (intro map_cong refl) (rule row[THEN conjunct1])
  ultimately show ?thesis using assms(2) by (simp add: PromoteDue_def exec_def)
qed

definition ex_pro :: user where
  "ex_pro = ex_buyer\<lparr>u_ID := 8, u_SubTier := ''pro'', u_SubExpireAt := Some (2 * day_ns), u_SubPendingTier := ''plus'',
     u_SubPendingDays := 10\<rparr>"

definition ex_shop_db :: db where
  "ex_shop_db = \<lparr>d_orgs = [], d_members = [], d_users = [ex_buyer, ex_pro], d_groups = [], d_squads = [], d_squad_members = [],
     d_grants = [], d_requests = [], d_invites = [], d_roles = [], d_role_perms = [], d_org_role_perms = [], d_user_roles = [],
     d_plans = [\<lparr>pf_Plan = ''pro'', pf_PriceCents = 1990, pf_ManualRefreshDaily = 5, pf_SyncIntervalMin = 30, pf_AiAnalyzeMonth = 60,
       pf_EnableFetchProblem = True, pf_EnableAiAnalyze = True, pf_EnableAiDaily = True, pf_EnableRegularDaily = True, pf_Days = 30,
       pf_Enabled = True\<rparr>], d_seq = 10, d_now = 3 * day_ns\<rparr>"

theorem sweep_promotes_as_one_row_witness:
  "snd (PromoteDue (\<lambda>_. False) ex_shop_db) = Inr 1
   \<and> map u_SubTier (d_users (fst (PromoteDue (\<lambda>_. False) ex_shop_db))) = [''plus'', ''plus'']"
proof -
  have "\<forall>u\<in>set (d_users ex_shop_db). sub_ok u" by code_simp
  moreover have "length (filter (\<lambda>u. snd (promoteInPlace (d_now ex_shop_db) u)) (d_users ex_shop_db)) = 1"
    "map (\<lambda>u. u_SubTier (fst (promoteInPlace (d_now ex_shop_db) u))) (d_users ex_shop_db) = [''plus'', ''plus'']" by code_simp+
  ultimately show ?thesis using sweep_promotes_as_one_row[of ex_shop_db "\<lambda>_. False"] by (simp add: comp_def)
qed

subsection \<open>A subscription without an expiry\<close>

text \<open>A subscription without an expiry counts as one that never ends, and as active; yet when days of Plus wait
  behind a Pro of that kind, the next read of the subscription ends it: it becomes a Plus with an expiry.\<close>

theorem lifetime_pro_is_ended:
  assumes "loadUser d uid = Some u" and "u_SubTier u = ''pro''" and "u_SubExpireAt u = None" and "u_SubPendingTier u = ''plus''"
    and "\<not> fl ''users.subscription''" and "\<not> fl ''commit''"
  shows "subActive (d_now d) u \<and> (\<exists>v t. promote_tx fl uid d = (upd_user uid (sub_columns v) d, Some v) \<and> u_SubTier v = ''plus'' \<and> u_SubExpireAt v = Some t)"
  using assms by (auto simp: subActive_def promote_tx_def promoteInPlace_def Let_def)

definition lifetime_db :: db where
  "lifetime_db = ex_shop_db\<lparr>d_users := [ex_pro\<lparr>u_SubExpireAt := None\<rparr>]\<rparr>"

theorem lifetime_pro_is_ended_witness:
  "\<exists>u v t. loadUser lifetime_db 8 = Some u \<and> subActive (d_now lifetime_db) u
     \<and> promote_tx (\<lambda>_. False) 8 lifetime_db = (upd_user 8 (sub_columns v) lifetime_db, Some v) \<and> u_SubTier v = ''plus'' \<and> u_SubExpireAt v = Some t"
proof -
  have l: "loadUser lifetime_db 8 = Some (ex_pro\<lparr>u_SubExpireAt := None\<rparr>)" by code_simp
  show ?thesis using lifetime_pro_is_ended[OF l, of "\<lambda>_. False"] l by (simp add: ex_pro_def ex_buyer_def)
qed

subsection \<open>The second reminder\<close>

text \<open>Sweeps at the given times, with nothing else happening to the subscriptions: the mails sent.\<close>

fun sweeps :: "(int \<times> fails \<times> (user \<Rightarrow> int \<Rightarrow> bool)) list \<Rightarrow> db \<Rightarrow> db \<times> (nat \<times> int) list" where
  "sweeps [] d = (d, [])"
| "sweeps ((t, fl, delivers) # ts) d =
     (case sweep fl delivers True (d\<lparr>d_now := t\<rparr>) of (d1, ms) \<Rightarrow> (case sweeps ts d1 of (d2, ns) \<Rightarrow> (d2, ms @ ns)))"

definition reminded3 :: "nat \<Rightarrow> db \<Rightarrow> bool" where
  "reminded3 uid d \<longleftrightarrow> (\<forall>u\<in>set (d_users d). u_ID u = uid \<longrightarrow> u_SubReminded u = 3 \<and> u_SubPendingTier u = '''')"

lemma remind_users_quiet:
  "uid \<notin> u_ID ` set us \<Longrightarrow> reminded3 uid d \<Longrightarrow>
   reminded3 uid (fst (remind_users fl delivers us d)) \<and> uid \<notin> fst ` set (snd (remind_users fl delivers us d))"
proof (induction us arbitrary: d)
  case (Cons u us)
  have "reminded3 uid (MarkReminded fl (u_ID u) w d)" for w
    using Cons.prems by (auto simp: MarkReminded_def exec_def upd_user_def reminded3_def)
  with Cons.IH[of "MarkReminded fl (u_ID u) (reminder_window (d_now d) u) d"] Cons.IH[of d] Cons.prems show ?case
    by (auto simp: Let_def case_prod_beta)
qed simp

lemma sweep_quiet:
  assumes "reminded3 uid d"
  shows "reminded3 uid (fst (sweep fl delivers b d)) \<and> uid \<notin> fst ` set (snd (sweep fl delivers b d))"
proof (cases b)
  case True
  obtain d1 r where p: "PromoteDue fl d = (d1, r)" by fastforce
  have d1: "reminded3 uid d1"
    using assms p by (auto simp: PromoteDue_def exec_def reminded3_def due_def promote_row_def split: if_splits)
  then have "uid \<notin> u_ID ` set (ListExpiringSoon subscriptionReminderWindowDays d1)"
    by (auto simp: ListExpiringSoon_def Let_def reminded3_def)
  from remind_users_quiet[OF this d1] show ?thesis by (simp add: sweep_def p True)
qed (simp add: sweep_def assms)

text \<open>Whoever got the reminder three days ahead gets no other. Once it is recorded, no later sweep, whenever it
  runs and whatever the mail server does, sends that user the reminder of the last day.\<close>

theorem no_reminder_on_the_last_day:
  "reminded3 uid d \<Longrightarrow> uid \<notin> fst ` set (snd (sweeps ts d))"
proof (induction ts arbitrary: d)
  case (Cons x ts)
  obtain t fl delivers where x: "x = (t, fl, delivers)" by (cases x)
  have "reminded3 uid (d\<lparr>d_now := t\<rparr>)" using Cons.prems by (simp add: reminded3_def)
  from sweep_quiet[OF this, of fl delivers True] Cons.IH[of "fst (sweep fl delivers True (d\<lparr>d_now := t\<rparr>))"]
  show ?case by (simp add: x case_prod_beta image_Un)
qed simp

definition expiring_db :: db where
  "expiring_db = ex_shop_db\<lparr>d_users := [ex_buyer\<lparr>u_SubExpireAt := Some (5 * day_ns), u_SubReminded := 3\<rparr>]\<rparr>"

theorem no_reminder_on_the_last_day_witness:
  "7 \<notin> fst ` set (snd (sweeps [(4 * day_ns + 1, \<lambda>_. False, \<lambda>_ _. True)] expiring_db))
   \<and> map (reminder_window (4 * day_ns + 1)) (d_users expiring_db) = [1]"
proof -
  have "reminded3 7 expiring_db" "map (reminder_window (4 * day_ns + 1)) (d_users expiring_db) = [1]" by code_simp+
  then show ?thesis using no_reminder_on_the_last_day[of 7 expiring_db] by blast
qed

text \<open>And whoever got the reminder of the last day first, because the subscription was that short, is told by
  the next sweep that three days are left.\<close>

lemma last_day_then_three_days:
  "snd (sweeps [(2 * day_ns - 10, \<lambda>_. False, \<lambda>_ _. True), (2 * day_ns - 5, \<lambda>_. False, \<lambda>_ _. True),
     (2 * day_ns - 1, \<lambda>_. False, \<lambda>_ _. True)] (ex_shop_db\<lparr>d_users := [ex_pro]\<rparr>)) = [(8, 1), (8, 3)]"
  by code_simp

end
