(* ===== verification/Sponsor.thy ===== *)
theory Sponsor
  imports Subscription
begin

text \<open>
  Donations (\<^verbatim>\<open>user/internal/data/dal/sponsor.go\<close>, \<^verbatim>\<open>service/sponsor.go\<close>): orders with an optional membership in
  return, their payment callback, expenses, the settings of the page, and the balance.

  The page lists are left out; the month a time falls in is the argument \<open>month\<close> (months since some month of
  the calendar in the server's zone).
\<close>

definition SponsorGiftDays :: int where "SponsorGiftDays = 30"

definition SponsorGiftTier :: "int \<Rightarrow> string" where
  "SponsorGiftTier amountCents = (if 1000 \<le> amountCents then ''pro'' else ''plus'')"

definition sponsorDonateAmount :: "int \<Rightarrow> bool" where
  "sponsorDonateAmount amountCents \<longleftrightarrow> 100 \<le> amountCents \<and> amountCents \<le> 1000000"

subsection \<open>Settings\<close>

text \<open>The introduction a new row starts with is the argument \<open>intro\<close>.\<close>

definition GetSettings :: "string \<Rightarrow> fails \<Rightarrow> shop \<Rightarrow> shop \<times> (string + sponsor_setting)" where
  "GetSettings intro fl s =
     (case s_setting s of Some st \<Rightarrow> (s, Inr st)
      | None \<Rightarrow> (let st = \<lparr>ss_Membership = True, ss_Donation = True, ss_Intro = intro\<rparr> in
          case exec fl ''sponsor_settings.create'' (\<lambda>s. s\<lparr>s_setting := Some st\<rparr>) s of
            (s1, ok) \<Rightarrow> (s1, if ok then Inr st else Inl ''db'')))"

definition dalUpdateSettings :: "string \<Rightarrow> fails \<Rightarrow> bool \<Rightarrow> bool \<Rightarrow> string \<Rightarrow> shop \<Rightarrow> shop \<times> (string + unit)" where
  "dalUpdateSettings intro0 fl membership donation intro s =
     (case GetSettings intro0 fl s of
        (s1, Inl e) \<Rightarrow> (s1, Inl e)
      | (s1, Inr st) \<Rightarrow> (case exec fl ''sponsor_settings.update''
            (\<lambda>s. s\<lparr>s_setting := Some \<lparr>ss_Membership = membership, ss_Donation = donation, ss_Intro = intro\<rparr>\<rparr>) s1 of
           (s2, ok) \<Rightarrow> (s2, if ok then Inr () else Inl ''db'')))"

definition UpdateSettings ::
  "string \<Rightarrow> JwtPayload option \<Rightarrow> bool \<Rightarrow> bool \<Rightarrow> string \<Rightarrow> fails \<Rightarrow> shop \<Rightarrow> shop \<times> (string + unit)" where
  "UpdateSettings intro0 pd membership donation reqIntro fl s =
     (if \<not> VerifySiteAdmin pd then (s, Inl ''no permission'')
      else if 2000 < rune_count (trim_space reqIntro) then (s, Inl ''intro too long'')
      else (case dalUpdateSettings intro0 fl membership donation (trim_space reqIntro) s of
          (s1, Inl _) \<Rightarrow> (s1, Inl ''save failed'') | (s1, Inr ()) \<Rightarrow> (s1, Inr ())))"

subsection \<open>Orders\<close>

definition find_donation :: "shop \<Rightarrow> string \<Rightarrow> sponsor_order option" where
  "find_donation s no = find (\<lambda>r. so_OrderNo r = no) (s_donations s)"

definition upd_donation :: "nat \<Rightarrow> (sponsor_order \<Rightarrow> sponsor_order) \<Rightarrow> shop \<Rightarrow> shop" where
  "upd_donation i f s = s\<lparr>s_donations := map (\<lambda>r. if so_ID r = i then f r else r) (s_donations s)\<rparr>"

definition new_donation :: "string \<Rightarrow> nat \<Rightarrow> string \<Rightarrow> int \<Rightarrow> string \<Rightarrow> string \<Rightarrow> shop \<Rightarrow> sponsor_order" where
  "new_donation orderNo uid nickname amountCents message giftTier s =
     \<lparr>so_ID = next_id (s_db s), so_OrderNo = orderNo, so_UserID = uid, so_Nickname = nickname, so_AmountCents = amountCents,
      so_Message = message, so_Status = OrderStatusPending, so_GiftTier = giftTier, so_PlatformOrderNo = '''', so_PaidAt = None,
      so_CreatedAt = d_now (s_db s)\<rparr>"

definition sponsorCreateOrder ::
  "fails \<Rightarrow> string \<Rightarrow> nat \<Rightarrow> string \<Rightarrow> int \<Rightarrow> string \<Rightarrow> string \<Rightarrow> shop \<Rightarrow> shop \<times> (string + sponsor_order)" where
  "sponsorCreateOrder fl orderNo uid nickname amountCents message giftTier s =
     (let r = new_donation orderNo uid nickname amountCents message giftTier s in
      if fl ''donations.create'' \<or> find_donation s orderNo \<noteq> None
      then (s, case find_donation s orderNo of Some dup \<Rightarrow> Inr dup | None \<Rightarrow> Inl ''db'')
      else (s\<lparr>s_donations := s_donations s @ [r], s_db := drawn (s_db s)\<rparr>, Inr r))"

definition sponsorGetOrderByNo :: "string \<Rightarrow> shop \<Rightarrow> string + sponsor_order" where
  "sponsorGetOrderByNo orderNo s =
     (case find_donation s (trim_space orderNo) of None \<Rightarrow> Inl ''no such order'' | Some r \<Rightarrow> Inr r)"

definition close_donation :: "sponsor_order \<Rightarrow> sponsor_order" where
  "close_donation r = (if so_Status r = OrderStatusPending then r\<lparr>so_Status := OrderStatusClosed\<rparr> else r)"

definition sponsorMarkOrderClosed :: "fails \<Rightarrow> nat \<Rightarrow> shop \<Rightarrow> shop \<times> (string + bool)" where
  "sponsorMarkOrderClosed fl i s = (case exec fl ''donations.close'' (upd_donation i close_donation) s of
     (s1, ok) \<Rightarrow> (s1, if ok then Inr (list_ex (\<lambda>r. so_ID r = i \<and> so_Status r = OrderStatusPending) (s_donations s)) else Inl ''db''))"

definition sponsorCloseStale :: "fails \<Rightarrow> int \<Rightarrow> shop \<Rightarrow> shop \<times> (string + nat)" where
  "sponsorCloseStale fl olderThan s =
     (let stale = (\<lambda>r. so_Status r = OrderStatusPending \<and> so_CreatedAt r < d_now (s_db s) - olderThan) in
      case exec fl ''donations.close_stale'' (\<lambda>s. s\<lparr>s_donations := map (\<lambda>r. if stale r then close_donation r else r) (s_donations s)\<rparr>) s of
        (s1, ok) \<Rightarrow> (s1, if ok then Inr (length (filter stale (s_donations s))) else Inl ''db''))"

definition pay_donation :: "string \<Rightarrow> int \<Rightarrow> sponsor_order \<Rightarrow> sponsor_order" where
  "pay_donation platformOrderNo paidAt r =
     r\<lparr>so_Status := OrderStatusPaid, so_PlatformOrderNo := platformOrderNo, so_PaidAt := Some paidAt\<rparr>"

text \<open>The membership in return belongs to the transaction of the payment.\<close>

definition grantGiftInTx :: "fails \<Rightarrow> nat \<Rightarrow> string \<Rightarrow> int \<Rightarrow> string \<Rightarrow> db \<Rightarrow> string + db" where
  "grantGiftInTx fl uid tier days source d =
     (if days < 1 then Inl ''bad days'' else add_to_subscription fl uid tier days source d)"

definition ClaimPaidOrder :: "fails \<Rightarrow> string \<Rightarrow> string \<Rightarrow> int \<Rightarrow> shop \<Rightarrow> shop \<times> (string + sponsor_order \<times> bool)" where
  "ClaimPaidOrder fl orderNo platformOrderNo paidAt s =
     (case find_donation s orderNo of None \<Rightarrow> (s, Inl ''no such order'')
      | Some r \<Rightarrow>
          if so_Status r = OrderStatusPaid then (s, Inr (r, False))
          else (case exec fl ''donations.save'' (upd_donation (so_ID r) (\<lambda>_. pay_donation platformOrderNo paidAt r)) s of
              (s1, False) \<Rightarrow> (s, Inl ''db'')
            | (s1, True) \<Rightarrow>
               (case (if so_GiftTier r \<noteq> '''' then grantGiftInTx fl (so_UserID r) (so_GiftTier r) SponsorGiftDays ''payfm'' (s_db s1)
                      else Inr (s_db s1)) of
                  Inl e \<Rightarrow> (s, Inl (if e = ''not found'' then ''no such order'' else e))
                | Inr d1 \<Rightarrow> if fl ''commit'' then (s, Inl ''db'')
                    else (s1\<lparr>s_db := d1\<rparr>, Inr (pay_donation platformOrderNo paidAt r, True)))))"

subsection \<open>The handlers\<close>

definition Anonymous :: string where
  "Anonymous = [CHR 0xE5, CHR 0x8C, CHR 0xBF, CHR 0xE5, CHR 0x90, CHR 0x8D]"

definition donor_name :: "JwtPayload \<Rightarrow> string" where
  "donor_name p = (if trim_space (Name p) \<noteq> '''' then trim_space (Name p)
     else if trim_space (Username p) \<noteq> '''' then trim_space (Username p) else Anonymous)"

text \<open>The address for notifications of donations: that of the subscriptions with its first
  \<^verbatim>\<open>/payment/notify\<close> replaced.\<close>

fun replace_first :: "string \<Rightarrow> string \<Rightarrow> string \<Rightarrow> string" where
  "replace_first old new [] = []"
| "replace_first old new (c # s) =
     (if has_prefix (c # s) old then new @ drop (length old) (c # s) else c # replace_first old new s)"

definition sponsorNotifyURL :: "string \<Rightarrow> string" where
  "sponsorNotifyURL url = replace_first ''/payment/notify'' ''/payment/sponsor-notify'' url"

definition donation_subject :: string where
  "donation_subject = ''GoAlgo '' @ [CHR 0xE8, CHR 0xB5, CHR 0x9E, CHR 0xE5, CHR 0x8A, CHR 0xA9, CHR 0xE6, CHR 0x94, CHR 0xAF, CHR 0xE6, CHR 0x8C, CHR 0x81]"

definition Donate ::
  "env \<Rightarrow> JwtPayload option \<Rightarrow> int \<Rightarrow> string \<Rightarrow> bool \<Rightarrow> fails \<Rightarrow> shop \<Rightarrow> shop \<times> (string + string \<times> string \<times> int)" where
  "Donate e pd amount reqMsg gift fl s =
     (if pd = None \<or> UserID (the pd) = 0 then (s, Inl ''login'')
      else if \<not> sponsorDonateAmount amount then (s, Inl ''amount out of range'')
      else if 60 < rune_count (trim_space reqMsg) then (s, Inl ''message too long'')
      else (case paymentGateway (e_conf e) (sponsorNotifyURL (e_url e)) of Inl m \<Rightarrow> (s, Inl m)
        | Inr g \<Rightarrow>
           let orderNo = ''D'' @ int_str (d_now (s_db s)); tier = (if gift then SponsorGiftTier amount else '''') in
           (case sponsorCreateOrder fl orderNo (UserID (the pd)) (donor_name (the pd)) amount (trim_space reqMsg) tier s of
              (s1, Inl _) \<Rightarrow> (s1, Inl ''order failed'')
            | (s1, Inr ord) \<Rightarrow>
               (case gatewayCreateOrder (e_md5 e) (e_platform e) g orderNo amount donation_subject of
                  Inl m \<Rightarrow> (fst (sponsorMarkOrderClosed fl (so_ID ord) s1), Inl m)
                | Inr url \<Rightarrow> (s1, Inr (orderNo, url, amount))))))"

definition DonationStatus :: "JwtPayload option \<Rightarrow> string \<Rightarrow> shop \<Rightarrow> string + string \<times> string \<times> int option" where
  "DonationStatus pd reqNo s =
     (if pd = None \<or> UserID (the pd) = 0 then Inl ''login''
      else if trim_space reqNo = '''' then Inl ''order number missing''
      else (case sponsorGetOrderByNo (trim_space reqNo) s of Inl _ \<Rightarrow> Inl ''no such order''
        | Inr r \<Rightarrow> if so_UserID r \<noteq> UserID (the pd) \<and> \<not> VerifySiteAdmin pd then Inl ''not yours''
            else Inr (so_OrderNo r, so_Status r, so_PaidAt r)))"

definition dalRecordExpense :: "fails \<Rightarrow> string \<Rightarrow> int \<Rightarrow> string \<Rightarrow> int \<Rightarrow> nat \<Rightarrow> shop \<Rightarrow> shop \<times> bool" where
  "dalRecordExpense fl kind amountCents note spentAt createdBy =
     exec fl ''expenses.create'' (\<lambda>s. s\<lparr>s_expenses := s_expenses s @ [\<lparr>se_ID = next_id (s_db s), se_AmountCents = amountCents,
        se_Note = note, se_Kind = kind, se_SpentAt = spentAt, se_CreatedBy = createdBy\<rparr>], s_db := drawn (s_db s)\<rparr>)"

text \<open>\<^verbatim>\<open>RecordExpense\<close> and \<^verbatim>\<open>AdjustBalance\<close> check alike; only the first can be given a date.\<close>

definition expense :: "string \<Rightarrow> JwtPayload option \<Rightarrow> int \<Rightarrow> string \<Rightarrow> int \<Rightarrow> fails \<Rightarrow> shop \<Rightarrow> shop \<times> (string + unit)" where
  "expense kind pd amount reqNote spentAt fl s =
     (if \<not> VerifySiteAdmin pd then (s, Inl ''no permission'')
      else if amount \<le> 0 then (s, Inl ''amount must be positive'')
      else if trim_space reqNote = '''' then (s, Inl ''note missing'')
      else if 200 < rune_count (trim_space reqNote) then (s, Inl ''note too long'')
      else (case dalRecordExpense fl kind amount (trim_space reqNote) spentAt (case pd of Some p \<Rightarrow> UserID p | None \<Rightarrow> 0) s of
          (s1, ok) \<Rightarrow> (s1, if ok then Inr () else Inl ''save failed'')))"

definition RecordExpense :: "JwtPayload option \<Rightarrow> int \<Rightarrow> string \<Rightarrow> int \<Rightarrow> fails \<Rightarrow> shop \<Rightarrow> shop \<times> (string + unit)" where
  "RecordExpense pd amount reqNote reqSpentAt fl s =
     expense ''expense'' pd amount reqNote (if 0 < reqSpentAt then reqSpentAt * second_ns else d_now (s_db s)) fl s"

definition AdjustBalance :: "JwtPayload option \<Rightarrow> int \<Rightarrow> string \<Rightarrow> fails \<Rightarrow> shop \<Rightarrow> shop \<times> (string + unit)" where
  "AdjustBalance pd amount reqNote fl s = expense ''adjust'' pd amount reqNote (d_now (s_db s)) fl s"

record donation_claim =
  dc_OrderNo :: string
  dc_PlatformOrderNo :: string
  dc_PaidAt :: int

definition sponsor_check :: "env \<Rightarrow> form option \<Rightarrow> shop \<Rightarrow> string + donation_claim" where
  "sponsor_check e fm s =
     (case fm of None \<Rightarrow> Inl ''bad form''
      | Some f \<Rightarrow> (case paymentGateway (e_conf e) (sponsorNotifyURL (e_url e)) of Inl m \<Rightarrow> Inl m
        | Inr g \<Rightarrow> (case ParseNotification (e_md5 e) (e_local_time e) g (form_value f) of Inl m \<Rightarrow> Inl m
          | Inr n \<Rightarrow> (case ParseYuanStringToCents (n_Amount n) of Inl m \<Rightarrow> Inl m
            | Inr paidCents \<Rightarrow> (case sponsorGetOrderByNo (n_OrderNo n) s of Inl m \<Rightarrow> Inl m
              | Inr r \<Rightarrow> if paidCents \<noteq> so_AmountCents r then Inl ''wrong amount''
                 else Inr \<lparr>dc_OrderNo = n_OrderNo n, dc_PlatformOrderNo = n_PlatformOrderNo n,
                        dc_PaidAt = (if is_zero_time (n_PayTime n) then d_now (s_db s) else n_PayTime n)\<rparr>)))))"

definition sponsor_claim :: "fails \<Rightarrow> donation_claim \<Rightarrow> shop \<Rightarrow> shop \<times> bool \<times> bool" where
  "sponsor_claim fl c s = (case ClaimPaidOrder fl (dc_OrderNo c) (dc_PlatformOrderNo c) (dc_PaidAt c) s of
     (s1, Inl _) \<Rightarrow> (s1, False, False) | (s1, Inr (_, claimed)) \<Rightarrow> (s1, True, claimed))"

definition SponsorNotifyHTTP :: "env \<Rightarrow> form option \<Rightarrow> fails \<Rightarrow> shop \<Rightarrow> shop \<times> bool" where
  "SponsorNotifyHTTP e fm fl s = (case sponsor_check e fm s of Inl _ \<Rightarrow> (s, False)
     | Inr c \<Rightarrow> (case sponsor_claim fl c s of (s1, ack, _) \<Rightarrow> (s1, ack)))"

subsection \<open>The balance\<close>

definition paid_donations :: "shop \<Rightarrow> sponsor_order list" where
  "paid_donations s = filter (\<lambda>r. so_Status r = OrderStatusPaid) (s_donations s)"

record overview =
  ov_Balance :: int
  ov_TotalIncome :: int
  ov_TotalExpense :: int
  ov_Donations :: nat
  ov_MonthIncome :: int
  ov_MonthExpense :: int
  ov_Loss :: bool

definition Overview :: "(int \<Rightarrow> int) \<Rightarrow> shop \<Rightarrow> overview" where
  "Overview month s =
     (let since = (\<lambda>t. month (d_now (s_db s)) \<le> month t);
          income = sum_list (map so_AmountCents (paid_donations s));
          spent = sum_list (map se_AmountCents (s_expenses s));
          mi = sum_list (map so_AmountCents (filter (\<lambda>r. case so_PaidAt r of None \<Rightarrow> False | Some t \<Rightarrow> since t) (paid_donations s)));
          me = sum_list (map se_AmountCents (filter (\<lambda>x. since (se_SpentAt x)) (s_expenses s)))
      in \<lparr>ov_Balance = income - spent, ov_TotalIncome = income, ov_TotalExpense = spent,
          ov_Donations = length (paid_donations s), ov_MonthIncome = mi, ov_MonthExpense = me, ov_Loss = (mi < me)\<rparr>)"

text \<open>The last months, newest first: income, expense and net.\<close>

definition MonthlyRows :: "(int \<Rightarrow> int) \<Rightarrow> int \<Rightarrow> shop \<Rightarrow> (int \<times> int \<times> int \<times> int) list" where
  "MonthlyRows month reqCount s =
     (let cnt = (if reqCount < 1 then 6 else if 24 < reqCount then 24 else reqCount);
          inc = (\<lambda>k. sum_list (map so_AmountCents (filter (\<lambda>r. case so_PaidAt r of None \<Rightarrow> False | Some t \<Rightarrow> month t = k) (paid_donations s))));
          ex = (\<lambda>k. sum_list (map se_AmountCents (filter (\<lambda>x. month (se_SpentAt x) = k) (s_expenses s))))
      in map (\<lambda>i. (let k = month (d_now (s_db s)) - int i in (k, inc k, ex k, inc k - ex k))) [0..<nat cnt])"

end
