(* ===== verification/ShopSystem.thy ===== *)
theory ShopSystem
  imports SubLaws Sponsor
begin

text \<open>
  The shop as a whole: every request that changes an order, a donation or a subscription, with the payment
  callbacks cut where other requests can run between the checks and the commit. A ledger, the interface of the
  next section, pays each order once; the orders and the donations are both ledgers. The last part shows that
  only subscriptions in order arise, and what a callback needs to be believed.
\<close>

subsection \<open>Ledgers\<close>

inductive runs :: "('s \<Rightarrow> 'l \<Rightarrow> 's \<Rightarrow> bool) \<Rightarrow> 's \<Rightarrow> 'l list \<Rightarrow> 's \<Rightarrow> bool" for step where
  runs_Nil: "runs step s [] s"
| runs_snoc: "runs step s cs s1 \<Longrightarrow> step s1 c s2 \<Longrightarrow> runs step s (cs @ [c]) s2"

definition somes :: "'a option list \<Rightarrow> 'a list" where
  "somes xs = List.map_filter (\<lambda>x. x) xs"

lemma somes_simps [simp]:
  "somes [] = []" "somes (None # xs) = somes xs" "somes (Some x # xs) = x # somes xs" "somes (xs @ ys) = somes xs @ somes ys"
  by (auto simp: somes_def List.map_filter_def)

text \<open>A step of a ledger may pay one order, which it names. Orders that are paid stay paid.\<close>

locale order_ledger =
  fixes inv :: "'s \<Rightarrow> bool"
    and status :: "'s \<Rightarrow> string \<Rightarrow> string option"
    and step :: "'s \<Rightarrow> string option \<Rightarrow> 's \<Rightarrow> bool"
  assumes keeps: "inv s \<Longrightarrow> step s c s' \<Longrightarrow> inv s'"
    and pays: "inv s \<Longrightarrow> step s (Some no) s' \<Longrightarrow> status s no \<noteq> Some OrderStatusPaid \<and> status s' no = Some OrderStatusPaid"
    and stays: "inv s \<Longrightarrow> step s c s' \<Longrightarrow> status s no = Some OrderStatusPaid \<Longrightarrow> status s' no = Some OrderStatusPaid"
    and only: "inv s \<Longrightarrow> step s c s' \<Longrightarrow> status s' no = Some OrderStatusPaid \<Longrightarrow> status s no = Some OrderStatusPaid \<or> c = Some no"
begin

lemma paid_once:
  assumes "runs step s cs s'" and "inv s"
  shows "inv s' \<and> distinct (somes cs) \<and> (\<forall>no\<in>set (somes cs). status s no \<noteq> Some OrderStatusPaid)
    \<and> (\<forall>no. status s' no = Some OrderStatusPaid \<longleftrightarrow> status s no = Some OrderStatusPaid \<or> no \<in> set (somes cs))"
  using assms
proof (induction rule: runs.induct)
  case (runs_snoc s cs s1 c s2)
  then have i: "inv s1" and IH: "distinct (somes cs)" "\<forall>no\<in>set (somes cs). status s no \<noteq> Some OrderStatusPaid"
    "\<And>no. status s1 no = Some OrderStatusPaid \<longleftrightarrow> status s no = Some OrderStatusPaid \<or> no \<in> set (somes cs)" by blast+
  show ?case
  proof (cases c)
    case None
    then show ?thesis using IH keeps[OF i runs_snoc.hyps(2)] stays[OF i runs_snoc.hyps(2)] only[OF i runs_snoc.hyps(2)] by auto
  next
    case (Some no)
    then have "status s1 no \<noteq> Some OrderStatusPaid \<and> status s2 no = Some OrderStatusPaid" using pays[OF i] runs_snoc.hyps(2) by simp
    then show ?thesis
      using Some IH keeps[OF i runs_snoc.hyps(2)] stays[OF i runs_snoc.hyps(2)] only[OF i runs_snoc.hyps(2)] by auto
  qed
qed simp

end

subsection \<open>Rows found by a unique key\<close>

lemma find_replaced:
  assumes "distinct (map key xs)" and "find (\<lambda>x. key x = k) xs = Some r" and "key r' = k"
  shows "find (\<lambda>x. key x = n) (map (\<lambda>x. if x = r then r' else x) xs) = (if n = k then Some r' else find (\<lambda>x. key x = n) xs)"
  using assms(1,2)
proof (induction xs)
  case (Cons x xs)
  have r: "key r = k" using Cons.prems(2) by (metis (mono_tags, lifting) find_Some_iff)
  show ?case
  proof (cases "key x = k")
    case True
    then have x: "x = r" using Cons.prems(2) by simp
    then have "r \<notin> set xs" using Cons.prems(1) by force
    then have "map (\<lambda>x. if x = r then r' else x) xs = xs" by (intro map_idI) auto
    then show ?thesis using x r assms(3) by auto
  next
    case False
    then show ?thesis using Cons r by auto
  qed
qed simp

lemma find_mapped: "(\<And>x. key (f x) = key x) \<Longrightarrow> find (\<lambda>x. key x = n) (map f xs) = map_option f (find (\<lambda>x. key x = n) xs)"
  by (induction xs) auto

lemma replace_by_id:
  "distinct (map ident xs) \<Longrightarrow> r \<in> set xs \<Longrightarrow> map (\<lambda>x. if ident x = ident r then f x else x) xs = map (\<lambda>x. if x = r then f r else x) xs"
  by (auto simp: distinct_map dest: inj_onD)

subsection \<open>The requests\<close>

text \<open>Callbacks that were checked and not yet committed are kept beside the tables.\<close>

record world =
  w_shop :: shop
  w_claims :: "claim list"
  w_gifts :: "donation_claim list"

datatype event =
    EOrder "JwtPayload option" string int
  | ENotify "form option"
  | EClaim nat
  | ECloseStale int
  | EDonate "JwtPayload option" int string bool
  | EDonationNotify "form option"
  | EDonationClaim nat
  | EDonationCloseStale int
  | EGrant "JwtPayload option" nat string int
  | ERevoke "JwtPayload option" nat
  | EMine "JwtPayload option" int
  | EQuota nat int
  | EPlans "JwtPayload option" "plan_features list"
  | ESweep "user \<Rightarrow> int \<Rightarrow> bool" bool
  | EClock int

datatype paid = Order string | Donation string

definition on_db :: "(db \<Rightarrow> db) \<Rightarrow> world \<Rightarrow> world" where
  "on_db f w = w\<lparr>w_shop := (w_shop w)\<lparr>s_db := f (s_db (w_shop w))\<rparr>\<rparr>"

definition on_shop :: "(shop \<Rightarrow> shop) \<Rightarrow> world \<Rightarrow> world" where
  "on_shop f w = w\<lparr>w_shop := f (w_shop w)\<rparr>"

fun shop_serve :: "env \<Rightarrow> event \<Rightarrow> fails \<Rightarrow> world \<Rightarrow> world \<times> paid option" where
  "shop_serve e (EOrder pd plan months) fl w = (on_shop (\<lambda>s. fst (CreateOrder e pd plan months fl s)) w, None)"
| "shop_serve e (ENotify fm) fl w =
     (case notify_check e fm (w_shop w) of Inl _ \<Rightarrow> (w, None) | Inr c \<Rightarrow> (w\<lparr>w_claims := w_claims w @ [c]\<rparr>, None))"
| "shop_serve e (EClaim i) fl w =
     (if length (w_claims w) \<le> i then (w, None)
      else let c = w_claims w ! i in
        (case notify_claim fl c (w_shop w) of (s, _, claimed) \<Rightarrow>
          (w\<lparr>w_shop := s, w_claims := take i (w_claims w) @ drop (Suc i) (w_claims w)\<rparr>,
           if claimed then Some (Order (cl_OrderNo c)) else None)))"
| "shop_serve e (ECloseStale age) fl w = (on_shop (\<lambda>s. fst (CloseStalePendingOrders fl age s)) w, None)"
| "shop_serve e (EDonate pd amount msg gift) fl w = (on_shop (\<lambda>s. fst (Donate e pd amount msg gift fl s)) w, None)"
| "shop_serve e (EDonationNotify fm) fl w =
     (case sponsor_check e fm (w_shop w) of Inl _ \<Rightarrow> (w, None) | Inr c \<Rightarrow> (w\<lparr>w_gifts := w_gifts w @ [c]\<rparr>, None))"
| "shop_serve e (EDonationClaim i) fl w =
     (if length (w_gifts w) \<le> i then (w, None)
      else let c = w_gifts w ! i in
        (case sponsor_claim fl c (w_shop w) of (s, _, claimed) \<Rightarrow>
          (w\<lparr>w_shop := s, w_gifts := take i (w_gifts w) @ drop (Suc i) (w_gifts w)\<rparr>,
           if claimed then Some (Donation (dc_OrderNo c)) else None)))"
| "shop_serve e (EDonationCloseStale age) fl w = (on_shop (\<lambda>s. fst (sponsorCloseStale fl age s)) w, None)"
| "shop_serve e (EGrant pd uid tier days) fl w = (on_db (\<lambda>d. fst (GrantSubscription pd uid tier days fl d)) w, None)"
| "shop_serve e (ERevoke pd uid) fl w = (on_db (\<lambda>d. fst (RevokeSubscription pd uid fl d)) w, None)"
| "shop_serve e (EMine pd later) fl w = (on_db (\<lambda>d. fst (MySubscription pd fl later d)) w, None)"
| "shop_serve e (EQuota uid later) fl w = (on_db (\<lambda>d. fst (GetAiAnalyzeQuota fl uid later d)) w, None)"
| "shop_serve e (EPlans pd ps) fl w = (on_db (\<lambda>d. fst (UpdatePlans pd ps fl d)) w, None)"
| "shop_serve e (ESweep delivers locked) fl w = (on_db (\<lambda>d. fst (sweep fl delivers locked d)) w, None)"
| "shop_serve e (EClock t) fl w = (on_db (\<lambda>d. d\<lparr>d_now := t\<rparr>) w, None)"

fun shop_run :: "env \<Rightarrow> (event \<times> fails) list \<Rightarrow> world \<Rightarrow> world \<times> paid option list" where
  "shop_run e [] w = (w, [])"
| "shop_run e ((ev, fl) # evs) w =
     (case shop_serve e ev fl w of (w1, c) \<Rightarrow> (case shop_run e evs w1 of (w2, cs) \<Rightarrow> (w2, c # cs)))"

subsection \<open>What a request does to the subscriptions\<close>

definition users_ok :: "db \<Rightarrow> bool" where
  "users_ok d \<longleftrightarrow> (\<forall>u\<in>set (d_users d). sub_ok u)"

definition db_le :: "db \<Rightarrow> db \<Rightarrow> bool" where
  "db_le d d' \<longleftrightarrow> d_seq d' = d_seq d \<and> (users_ok d \<longrightarrow> users_ok d')"

named_theorems db_les \<open>operations that leave subscriptions in order\<close>

lemma db_le_refl [simp, db_les]: "db_le d d"
  by (simp add: db_le_def)

lemma db_le_trans: "db_le d d' \<Longrightarrow> db_le d' d'' \<Longrightarrow> db_le d d''"
  by (auto simp: db_le_def)

lemma db_le_users: "users_ok d \<Longrightarrow> db_le d d' \<Longrightarrow> users_ok d'"
  by (simp add: db_le_def)

lemma db_le_put: "(\<And>x. db_le x (f x)) \<Longrightarrow> db_le d (put fl l f d)"
  by (simp add: exec_def)

lemma db_le_upd: "(\<And>u. sub_ok u \<Longrightarrow> sub_ok (f u)) \<Longrightarrow> db_le d (upd_user uid f d)"
  by (auto simp: db_le_def upd_user_def users_ok_def)

lemma sub_ok_columns [simp]: "sub_ok (sub_columns v u) = sub_ok v"
  by (simp add: sub_ok_def sub_columns_def)

lemma sub_ok_frame [simp]:
  "sub_ok (u\<lparr>u_SubReminded := n\<rparr>) = sub_ok u" "sub_ok (u\<lparr>u_FetchOverride := a\<rparr>) = sub_ok u" "sub_ok (u\<lparr>u_AiOverride := b\<rparr>) = sub_ok u"
  "sub_ok (no_subscription u)"
  by (simp_all add: sub_ok_def no_subscription_def)

lemma db_le_sync [db_les]: "db_le d (SyncProblemPipelineOverrides fl uid d)"
  unfolding SyncProblemPipelineOverrides_def Let_def by (auto intro!: db_le_put db_le_upd)

lemma loadUser_ok: "users_ok d \<Longrightarrow> loadUser d uid = Some u \<Longrightarrow> sub_ok u"
  by (auto simp: users_ok_def loadUser_def find_Some_iff)

lemma db_le_save: "(users_ok d \<Longrightarrow> sub_ok v) \<Longrightarrow> db_le d (upd_user uid (sub_columns v) d)"
  by (auto simp: db_le_def upd_user_def users_ok_def)

lemma add_to_subscription_le: "add_to_subscription fl uid tier days source d = Inr d' \<Longrightarrow> is_tier tier \<Longrightarrow> db_le d d'"
  using loadUser_ok stacked_ok
  by (auto simp: add_to_subscription_def exec_def intro!: db_le_save split: option.splits if_splits)

lemma promote_tx_le [db_les]: "db_le d (fst (promote_tx fl uid d))"
proof (cases "loadUser d uid")
  case (Some u)
  obtain v b where p: "promoteInPlace (d_now d) u = (v, b)" by fastforce
  have "users_ok d \<Longrightarrow> sub_ok v" using loadUser_ok[OF _ Some] promote_ok[of u "d_now d"] by (simp add: p)
  then show ?thesis by (cases b) (auto simp: promote_tx_def Some p intro!: db_le_save)
qed (simp add: promote_tx_def)

lemma reads_le [db_les]: "db_le d (fst (UserSubscription fl uid later d))" "db_le d (fst (SubscriptionTier fl uid later d))"
  using promote_tx_le[of d fl uid]
  by (auto simp: UserSubscription_def SubscriptionTier_def Let_def split: prod.split option.split)

lemma Grant_le [db_les]: "is_tier tier \<Longrightarrow> db_le d (fst (Grant fl uid tier days d))"
  using add_to_subscription_le[of fl uid tier days _ d] by (auto simp: Grant_def split: sum.split)

lemma Revoke_le [db_les]: "db_le d (fst (Revoke fl uid d))"
  by (auto simp: Revoke_def split: prod.split dest!: exec_eq[THEN iffD1] intro!: db_le_upd split: if_splits)

lemma promote_row_ok: "sub_ok u \<Longrightarrow> due now u \<Longrightarrow> sub_ok (promote_row now u)"
  by (erule sub_cases) (auto simp: due_def promote_row_def sub_ok_def)

lemma PromoteDue_le [db_les]: "db_le d (fst (PromoteDue fl d))"
  using promote_row_ok by (auto simp: PromoteDue_def exec_def db_le_def users_ok_def)

lemma remind_users_le [db_les]: "db_le d (fst (remind_users fl delivers us d))"
proof (induction us arbitrary: d)
  case (Cons u us)
  have "db_le d (MarkReminded fl (u_ID u) w d)" for w
    unfolding MarkReminded_def by (intro db_le_put db_le_upd) simp
  then show ?case using Cons db_le_trans by (fastforce simp: Let_def case_prod_beta)
qed simp

lemma sweep_le [db_les]: "db_le d (fst (sweep fl delivers locked d))"
  using PromoteDue_le[of d fl] remind_users_le db_le_trans by (fastforce simp: sweep_def case_prod_beta)

lemma upsert_plans_le [db_les]: "db_le d (fst (upsert_plans fl ps d))"
proof (induction ps arbitrary: d)
  case (Cons p ps)
  obtain d1 b where u: "UpsertPlan (\<lambda>l. fl (l @ ''.'' @ trim_space (pf_Plan p))) (p\<lparr>pf_Plan := trim_space (pf_Plan p)\<rparr>) d = (d1, b)" by fastforce
  then have "db_le d d1" by (auto simp: UpsertPlan_def exec_eq db_le_def users_ok_def split: if_splits)
  then show ?case using Cons.IH[of d1] db_le_trans by (cases b) (auto simp: u[simplified])
qed simp

lemma active_plan_le [db_les]: "db_le d (fst (active_plan fl uid later d))"
  using reads_le(2)[of d fl uid later] by (auto simp: active_plan_def split: prod.split)

lemma handlers_le [db_les]:
  "db_le d (fst (GrantSubscription pd uid tier days fl d))" "db_le d (fst (RevokeSubscription pd uid fl d))"
  "db_le d (fst (MySubscription pd fl later d))" "db_le d (fst (GetAiAnalyzeQuota fl uid later d))"
  "db_le d (fst (UpdatePlans pd ps fl d))" "db_le d (d\<lparr>d_now := t\<rparr>)"
proof -
  have g: "db_le d d1" if "is_tier (trim_space tier)" "Grant fl uid (trim_space tier) days d = (d1, r)" for d1 r
    using Grant_le[OF that(1), of d fl uid days] that(2) by simp
  show "db_le d (fst (GrantSubscription pd uid tier days fl d))"
    using g db_le_sync db_le_trans unfolding GrantSubscription_def by (auto split: prod.split sum.split simp: case_unit_Unity)
  have r: "db_le d d1" if "Revoke fl uid d = (d1, r)" for d1 r using Revoke_le[of d fl uid] that by simp
  show "db_le d (fst (RevokeSubscription pd uid fl d))"
    using r db_le_sync db_le_trans unfolding RevokeSubscription_def by (auto split: prod.split sum.split simp: case_unit_Unity)
  show "db_le d (fst (MySubscription pd fl later d))"
    using reads_le(1)[of d fl "UserID (the pd)" later] by (auto simp: MySubscription_def split: prod.split)
  show "db_le d (fst (GetAiAnalyzeQuota fl uid later d))"
    using active_plan_le[of d fl uid later] by (auto simp: GetAiAnalyzeQuota_def split: prod.split option.split)
  show "db_le d (fst (UpdatePlans pd ps fl d))"
    using upsert_plans_le[of d fl ps] by (auto simp: UpdatePlans_def split: list.split)
  show "db_le d (d\<lparr>d_now := t\<rparr>)" by (simp add: db_le_def users_ok_def)
qed

subsection \<open>What a request does to the tables\<close>

inductive change :: "shop \<Rightarrow> paid option \<Rightarrow> shop \<Rightarrow> bool" where
  ch_db: "db_le (s_db s) d \<Longrightarrow> change s None (s\<lparr>s_db := d\<rparr>)"
| ch_order: "find_order s (po_OrderNo r) = None \<Longrightarrow> po_ID r = next_id (s_db s) \<Longrightarrow> po_Status r = OrderStatusPending \<Longrightarrow> is_tier (po_Plan r) \<Longrightarrow>
    change s None (s\<lparr>s_orders := s_orders s @ [r], s_db := drawn (s_db s)\<rparr>)"
| ch_close: "change s None (s\<lparr>s_orders := map (\<lambda>r. if P r then close_order r else r) (s_orders s)\<rparr>)"
| ch_pay: "find_order s no = Some r \<Longrightarrow> po_Status r \<noteq> OrderStatusPaid \<Longrightarrow> db_le (s_db s) d \<Longrightarrow>
    change s (Some (Order no)) ((upd_order (po_ID r) (\<lambda>_. pay_order p t r) s)\<lparr>s_db := d\<rparr>)"
| ch_donation: "find_donation s (so_OrderNo g) = None \<Longrightarrow> so_ID g = next_id (s_db s) \<Longrightarrow> so_Status g = OrderStatusPending \<Longrightarrow>
    so_GiftTier g = '''' \<or> is_tier (so_GiftTier g) \<Longrightarrow>
    change s None (s\<lparr>s_donations := s_donations s @ [g], s_db := drawn (s_db s)\<rparr>)"
| ch_drop: "change s None (s\<lparr>s_donations := map (\<lambda>g. if P g then close_donation g else g) (s_donations s)\<rparr>)"
| ch_give: "find_donation s no = Some g \<Longrightarrow> so_Status g \<noteq> OrderStatusPaid \<Longrightarrow> db_le (s_db s) d \<Longrightarrow>
    change s (Some (Donation no)) ((upd_donation (so_ID g) (\<lambda>_. pay_donation p t g) s)\<lparr>s_db := d\<rparr>)"

definition table_ok :: "('a \<Rightarrow> string) \<Rightarrow> ('a \<Rightarrow> nat) \<Rightarrow> nat \<Rightarrow> 'a list \<Rightarrow> bool" where
  "table_ok key ident hi xs \<longleftrightarrow> distinct (map key xs) \<and> distinct (map ident xs) \<and> (\<forall>x\<in>set xs. ident x \<le> hi)"

definition shop_ok :: "shop \<Rightarrow> bool" where
  "shop_ok s \<longleftrightarrow> users_ok (s_db s) \<and> table_ok po_OrderNo po_ID (d_seq (s_db s)) (s_orders s)
     \<and> table_ok so_OrderNo so_ID (d_seq (s_db s)) (s_donations s)
     \<and> (\<forall>r\<in>set (s_orders s). is_tier (po_Plan r)) \<and> (\<forall>g\<in>set (s_donations s). so_GiftTier g = '''' \<or> is_tier (so_GiftTier g))"

lemma table_ok_map: "table_ok key ident hi xs \<Longrightarrow> (\<And>x. key (f x) = key x \<and> ident (f x) = ident x) \<Longrightarrow> table_ok key ident hi (map f xs)"
  by (simp add: table_ok_def comp_def)

lemma table_ok_snoc:
  "table_ok key ident hi xs \<Longrightarrow> find (\<lambda>x. key x = key r) xs = None \<Longrightarrow> ident r = Suc hi \<Longrightarrow> table_ok key ident (Suc hi) (xs @ [r])"
  by (fastforce simp: table_ok_def find_None_iff)

lemma table_ok_Suc: "table_ok key ident hi xs \<Longrightarrow> table_ok key ident (Suc hi) xs"
  by (auto simp: table_ok_def)

lemma table_ok_replace:
  assumes "table_ok key ident hi xs" and "find (\<lambda>x. key x = k) xs = Some r"
  shows "map (\<lambda>x. if ident x = ident r then r' else x) xs = map (\<lambda>x. if x = r then r' else x) xs"
proof -
  have "r \<in> set xs" using assms(2) by (auto simp: find_Some_iff)
  then show ?thesis using assms(1) replace_by_id[of ident xs r "\<lambda>_. r'"] by (simp add: table_ok_def)
qed

lemma close_frame [simp]:
  "po_OrderNo (close_order r) = po_OrderNo r" "po_ID (close_order r) = po_ID r" "po_Plan (close_order r) = po_Plan r"
  "so_OrderNo (close_donation g) = so_OrderNo g" "so_ID (close_donation g) = so_ID g" "so_GiftTier (close_donation g) = so_GiftTier g"
  "(po_Status (close_order r) = OrderStatusPaid) = (po_Status r = OrderStatusPaid)"
  "(so_Status (close_donation g) = OrderStatusPaid) = (so_Status g = OrderStatusPaid)"
  by (simp_all add: close_order_def close_donation_def)

lemma pay_frame [simp]:
  "po_OrderNo (pay_order p t r) = po_OrderNo r" "po_ID (pay_order p t r) = po_ID r" "po_Plan (pay_order p t r) = po_Plan r"
  "po_Status (pay_order p t r) = OrderStatusPaid"
  "so_OrderNo (pay_donation p t g) = so_OrderNo g" "so_ID (pay_donation p t g) = so_ID g" "so_GiftTier (pay_donation p t g) = so_GiftTier g"
  "so_Status (pay_donation p t g) = OrderStatusPaid"
  by (simp_all add: pay_order_def pay_donation_def)

lemma drawn_frame [simp]: "d_seq (drawn d) = Suc (d_seq d)" "users_ok (drawn d) = users_ok d"
  by (simp_all add: drawn_def users_ok_def)

lemma found_order:
  "find_order s no = Some r \<Longrightarrow> r \<in> set (s_orders s) \<and> po_OrderNo r = no"
  by (auto simp: find_order_def find_Some_iff)

lemma found_donation:
  "find_donation s no = Some g \<Longrightarrow> g \<in> set (s_donations s) \<and> so_OrderNo g = no"
  by (auto simp: find_donation_def find_Some_iff)

lemma change_ok: "change s c s' \<Longrightarrow> shop_ok s \<Longrightarrow> shop_ok s'"
proof (induction rule: change.induct)
  case (ch_order s r)
  then show ?case using table_ok_snoc[of po_OrderNo po_ID] table_ok_Suc[of so_OrderNo so_ID]
    by (auto simp: shop_ok_def find_order_def next_id_def)
next
  case (ch_donation s g)
  then show ?case using table_ok_snoc[of so_OrderNo so_ID] table_ok_Suc[of po_OrderNo po_ID]
    by (auto simp: shop_ok_def find_donation_def next_id_def)
next
  case (ch_pay s no r d p t)
  then have "table_ok po_OrderNo po_ID (d_seq (s_db s)) (s_orders s)" by (simp add: shop_ok_def)
  from table_ok_replace[OF this ch_pay.hyps(1)[unfolded find_order_def], of "pay_order p t r"]
  have "upd_order (po_ID r) (\<lambda>_. pay_order p t r) s = s\<lparr>s_orders := map (\<lambda>x. if x = r then pay_order p t r else x) (s_orders s)\<rparr>"
    by (simp add: upd_order_def)
  moreover have "table_ok po_OrderNo po_ID (d_seq (s_db s)) (map (\<lambda>x. if x = r then pay_order p t r else x) (s_orders s))"
    using ch_pay.prems by (intro table_ok_map) (auto simp: shop_ok_def)
  ultimately show ?case using ch_pay by (auto simp: shop_ok_def db_le_def)
next
  case (ch_give s no g d p t)
  then have "table_ok so_OrderNo so_ID (d_seq (s_db s)) (s_donations s)" by (simp add: shop_ok_def)
  from table_ok_replace[OF this ch_give.hyps(1)[unfolded find_donation_def], of "pay_donation p t g"]
  have "upd_donation (so_ID g) (\<lambda>_. pay_donation p t g) s = s\<lparr>s_donations := map (\<lambda>x. if x = g then pay_donation p t g else x) (s_donations s)\<rparr>"
    by (simp add: upd_donation_def)
  moreover have "table_ok so_OrderNo so_ID (d_seq (s_db s)) (map (\<lambda>x. if x = g then pay_donation p t g else x) (s_donations s))"
    using ch_give.prems by (intro table_ok_map) (auto simp: shop_ok_def)
  ultimately show ?case using ch_give by (auto simp: shop_ok_def db_le_def)
qed (auto simp: shop_ok_def db_le_def intro!: table_ok_map)

subsection \<open>Both tables are ledgers\<close>

definition order_status :: "shop \<Rightarrow> string \<Rightarrow> string option" where
  "order_status s no = map_option po_Status (find_order s no)"

definition donation_status :: "shop \<Rightarrow> string \<Rightarrow> string option" where
  "donation_status s no = map_option so_Status (find_donation s no)"

definition paid_order :: "paid option \<Rightarrow> string option" where
  "paid_order c = (case c of Some (Order no) \<Rightarrow> Some no | _ \<Rightarrow> None)"

definition paid_donation :: "paid option \<Rightarrow> string option" where
  "paid_donation c = (case c of Some (Donation no) \<Rightarrow> Some no | _ \<Rightarrow> None)"

lemma paid_simps [simp]:
  "paid_order None = None" "paid_order (Some (Order no)) = Some no" "paid_order (Some (Donation no)) = None"
  "paid_donation None = None" "paid_donation (Some (Donation no)) = Some no" "paid_donation (Some (Order no)) = None"
  by (simp_all add: paid_order_def paid_donation_def)

lemma paid_after_map:
  "(\<And>x. key (f x) = key x) \<Longrightarrow> (\<And>x. (st (f x) = OrderStatusPaid) = (st x = OrderStatusPaid)) \<Longrightarrow>
   map_option st (find (\<lambda>x. key x = n) (map f xs)) = Some OrderStatusPaid \<longleftrightarrow> map_option st (find (\<lambda>x. key x = n) xs) = Some OrderStatusPaid"
  by (auto simp: find_mapped)

lemma paid_after_replace:
  assumes "table_ok key ident hi xs" and "find (\<lambda>x. key x = k) xs = Some r" and "key r' = k" and "st r' = OrderStatusPaid"
  shows "map_option st (find (\<lambda>x. key x = n) (map (\<lambda>x. if ident x = ident r then r' else x) xs)) = Some OrderStatusPaid
    \<longleftrightarrow> map_option st (find (\<lambda>x. key x = n) xs) = Some OrderStatusPaid \<or> n = k"
  using find_replaced[of key xs k r r' n] assms unfolding table_ok_replace[OF assms(1,2)] by (auto simp: table_ok_def)

lemma change_order_status:
  assumes "change s c s'" and "shop_ok s"
  shows "(order_status s' n = Some OrderStatusPaid \<longleftrightarrow> order_status s n = Some OrderStatusPaid \<or> paid_order c = Some n)
    \<and> (paid_order c = Some n \<longrightarrow> order_status s n \<noteq> Some OrderStatusPaid)"
  using assms(1)
proof (cases rule: change.cases)
  case (ch_order r)
  show ?thesis
    using ch_order by (auto simp: order_status_def find_order_def find_snoc split: option.split)
next
  case (ch_close P)
  have t: "s_orders s' = map (\<lambda>r. if P r then close_order r else r) (s_orders s)" by (simp add: ch_close(2))
  have "order_status s' n = Some OrderStatusPaid \<longleftrightarrow> order_status s n = Some OrderStatusPaid"
    unfolding order_status_def find_order_def t by (rule paid_after_map) auto
  then show ?thesis using ch_close by simp_all
next
  case (ch_pay no r d p t)
  have t: "table_ok po_OrderNo po_ID (d_seq (s_db s)) (s_orders s)" using assms(2) by (simp add: shop_ok_def)
  have k: "po_OrderNo (pay_order p t r) = no" using found_order[OF ch_pay(3)] by simp
  have "order_status s' n = Some OrderStatusPaid \<longleftrightarrow> order_status s n = Some OrderStatusPaid \<or> paid_order c = Some n"
    using paid_after_replace[OF t ch_pay(3)[unfolded find_order_def] k, of po_Status n] ch_pay(1,2)
    by (auto simp: order_status_def find_order_def upd_order_def)
  moreover have "paid_order c = Some n \<Longrightarrow> order_status s n \<noteq> Some OrderStatusPaid"
    using ch_pay by (auto simp: order_status_def)
  ultimately show ?thesis by blast
qed (simp_all add: order_status_def find_order_def upd_donation_def)

lemma change_donation_status:
  assumes "change s c s'" and "shop_ok s"
  shows "(donation_status s' n = Some OrderStatusPaid \<longleftrightarrow> donation_status s n = Some OrderStatusPaid \<or> paid_donation c = Some n)
    \<and> (paid_donation c = Some n \<longrightarrow> donation_status s n \<noteq> Some OrderStatusPaid)"
  using assms(1)
proof (cases rule: change.cases)
  case (ch_donation r)
  show ?thesis
    using ch_donation by (auto simp: donation_status_def find_donation_def find_snoc split: option.split)
next
  case (ch_drop P)
  have t: "s_donations s' = map (\<lambda>r. if P r then close_donation r else r) (s_donations s)" by (simp add: ch_drop(2))
  have "donation_status s' n = Some OrderStatusPaid \<longleftrightarrow> donation_status s n = Some OrderStatusPaid"
    unfolding donation_status_def find_donation_def t by (rule paid_after_map) auto
  then show ?thesis using ch_drop by simp_all
next
  case (ch_give no r d p t)
  have t: "table_ok so_OrderNo so_ID (d_seq (s_db s)) (s_donations s)" using assms(2) by (simp add: shop_ok_def)
  have k: "so_OrderNo (pay_donation p t r) = no" using found_donation[OF ch_give(3)] by simp
  have "donation_status s' n = Some OrderStatusPaid \<longleftrightarrow> donation_status s n = Some OrderStatusPaid \<or> paid_donation c = Some n"
    using paid_after_replace[OF t ch_give(3)[unfolded find_donation_def] k, of so_Status n] ch_give(1,2)
    by (auto simp: donation_status_def find_donation_def upd_donation_def)
  moreover have "paid_donation c = Some n \<Longrightarrow> donation_status s n \<noteq> Some OrderStatusPaid"
    using ch_give by (auto simp: donation_status_def)
  ultimately show ?thesis by blast
qed (simp_all add: donation_status_def find_donation_def upd_order_def)

definition order_step :: "shop \<Rightarrow> string option \<Rightarrow> shop \<Rightarrow> bool" where
  "order_step s c s' \<longleftrightarrow> (\<exists>p. change s p s' \<and> c = paid_order p)"

definition donation_step :: "shop \<Rightarrow> string option \<Rightarrow> shop \<Rightarrow> bool" where
  "donation_step s c s' \<longleftrightarrow> (\<exists>p. change s p s' \<and> c = paid_donation p)"

interpretation orders: order_ledger shop_ok order_status order_step
  by unfold_locales (auto simp: order_step_def change_ok change_order_status)

interpretation donations: order_ledger shop_ok donation_status donation_step
  by unfold_locales (auto simp: donation_step_def change_ok change_donation_status)

lemma runs_relabel: "runs change s cs s' \<Longrightarrow> runs (\<lambda>s c s'. \<exists>p. change s p s' \<and> c = f p) s (map f cs) s'"
  by (induction rule: runs.induct) (auto intro: runs.intros)

lemma runs_orders: "runs change s cs s' \<Longrightarrow> runs order_step s (map paid_order cs) s' \<and> runs donation_step s (map paid_donation cs) s'"
  using runs_relabel[of s cs s' paid_order] runs_relabel[of s cs s' paid_donation]
  by (simp add: order_step_def[abs_def] donation_step_def[abs_def])

subsection \<open>Every request is a run of changes\<close>

definition reach :: "shop \<Rightarrow> paid list \<Rightarrow> shop \<Rightarrow> bool" where
  "reach s ps s' \<longleftrightarrow> (\<exists>cs. runs change s cs s' \<and> somes cs = ps)"

lemma runs_append: "runs step s1 ds s2 \<Longrightarrow> runs step s cs s1 \<Longrightarrow> runs step s (cs @ ds) s2"
  by (induction rule: runs.induct) (auto intro: runs.intros simp flip: append_assoc)

lemma reach_refl [simp]: "reach s [] s"
  unfolding reach_def by (rule exI[of _ "[]"]) (simp add: runs_Nil)

lemma reach_trans: "reach s ps s1 \<Longrightarrow> reach s1 qs s2 \<Longrightarrow> reach s (ps @ qs) s2"
  unfolding reach_def using runs_append somes_simps(4) by metis

lemma reach_change: "change s c s' \<Longrightarrow> reach s (case c of None \<Rightarrow> [] | Some p \<Rightarrow> [p]) s'"
  unfolding reach_def using runs_snoc[OF runs_Nil, of change s c s'] by (force split: option.split)

lemmas reach_None = reach_change[where c = None, simplified] and reach_Some = reach_change[where c = "Some p" for p, simplified]

lemma reach_db: "db_le (s_db s) d \<Longrightarrow> reach s [] (s\<lparr>s_db := d\<rparr>)"
  by (rule reach_None[OF ch_db])

lemmas reach_dbs = handlers_le[THEN reach_db] sweep_le[THEN reach_db]

lemma order_created: "is_tier plan \<Longrightarrow> reach s [] (fst (dalCreateOrder fl no uid plan months cents s))"
  using reach_None[OF ch_order[of s "new_order no uid plan months cents s"]]
  by (auto simp: dalCreateOrder_def Let_def new_order_def)

lemma order_closed: "reach s [] (fst (MarkOrderClosed fl i s))"
  using reach_None[OF ch_close[of s "\<lambda>r. po_ID r = i"]] by (auto simp: MarkOrderClosed_def exec_def upd_order_def)

lemma CreateOrder_reach: "reach s [] (fst (CreateOrder e pd plan months fl s))"
proof -
  have "reach s [] (fst (MarkOrderClosed fl i s1))" "reach s [] s1"
    if "is_tier p" "dalCreateOrder fl no uid p m a s = (s1, r)" for p no uid m a s1 r i
    using order_created[OF that(1), of s fl no uid m a] that(2) order_closed[of s1 fl i] reach_trans[of s "[]" s1 "[]"] by simp_all
  then show ?thesis unfolding CreateOrder_def Let_def by (auto split: sum.split prod.split)
qed

lemma donation_created: "tier = '''' \<or> is_tier tier \<Longrightarrow> reach s [] (fst (sponsorCreateOrder fl no uid nick cents msg tier s))"
  using reach_None[OF ch_donation[of s "new_donation no uid nick cents msg tier s"]]
  by (auto simp: sponsorCreateOrder_def Let_def new_donation_def)

lemma donation_closed: "reach s [] (fst (sponsorMarkOrderClosed fl i s))"
  using reach_None[OF ch_drop[of s "\<lambda>r. so_ID r = i"]] by (auto simp: sponsorMarkOrderClosed_def exec_def upd_donation_def)

lemma Donate_reach: "reach s [] (fst (Donate e pd amount msg gift fl s))"
proof -
  define tier where "tier = (if gift then SponsorGiftTier amount else '''')"
  have t: "tier = '''' \<or> is_tier tier" by (simp add: tier_def SponsorGiftTier_def)
  have "reach s [] (fst (sponsorMarkOrderClosed fl i s1))" "reach s [] s1"
    if "sponsorCreateOrder fl no uid n a m tier s = (s1, r)" for no uid m n a s1 r i
    using donation_created[OF t, of s fl no uid n a m] that donation_closed[of s1 fl i] reach_trans[of s "[]" s1 "[]"] by simp_all
  then show ?thesis unfolding Donate_def Let_def tier_def[symmetric] by (auto split: sum.split prod.split)
qed

lemma claim_reach:
  assumes "is_tier (cl_Tier c)" and "notify_claim fl c s = (s', ack, claimed)"
  shows "reach s (if claimed then [Order (cl_OrderNo c)] else []) s'"
proof -
  obtain s1 r where cl: "ClaimAndFulfillPaidOrder fl (cl_OrderNo c) (cl_PlatformOrderNo c) (cl_PaidAt c) (cl_User c) (cl_Tier c) (cl_Days c) s = (s1, r)"
    by fastforce
  have "reach s (case r of Inr (_, True) \<Rightarrow> [Order (cl_OrderNo c)] | _ \<Rightarrow> []) s1"
    using cl add_to_subscription_le[OF _ assms(1)]
    by (auto simp: ClaimAndFulfillPaidOrder_def exec_def upd_order_def split: if_splits option.splits sum.splits
        dest!: intro!: reach_Some[OF ch_pay, simplified upd_order_def])
  moreover have "reach s1 [] (s1\<lparr>s_db := SyncProblemPipelineOverrides fl uid (s_db s1)\<rparr>)" for uid
    by (rule reach_db[OF db_le_sync])
  ultimately show ?thesis using assms(2) cl reach_trans[of s "[Order (cl_OrderNo c)]" s1 "[]"]
    by (auto simp: notify_claim_def split: sum.splits bool.splits)
qed

lemma gift_reach:
  assumes "shop_ok s" and "sponsor_claim fl c s = (s', ack, claimed)"
  shows "reach s (if claimed then [Donation (dc_OrderNo c)] else []) s'"
proof -
  have t: "so_GiftTier g = '''' \<or> is_tier (so_GiftTier g)" if "find_donation s (dc_OrderNo c) = Some g" for g
    using assms(1) found_donation[OF that] by (simp add: shop_ok_def)
  have n: "reach s [Donation no] (s\<lparr>s_donations := map (\<lambda>r. if so_ID r = so_ID g then pay_donation p x g else r) (s_donations s)\<rparr>)"
    if "find_donation s no = Some g" "so_Status g \<noteq> OrderStatusPaid" for no g p x
    using reach_Some[OF ch_give[OF that db_le_refl]] by (simp add: upd_donation_def)
  show ?thesis
    using assms(2) add_to_subscription_le t n
    by (auto simp: sponsor_claim_def ClaimPaidOrder_def grantGiftInTx_def exec_def upd_donation_def split: if_splits option.splits sum.splits
        intro!: reach_Some[OF ch_give, simplified upd_donation_def])
qed

definition world_ok :: "world \<Rightarrow> bool" where
  "world_ok w \<longleftrightarrow> shop_ok (w_shop w) \<and> (\<forall>c\<in>set (w_claims w). is_tier (cl_Tier c))"

lemma checked_tier: "shop_ok s \<Longrightarrow> notify_check e fm s = Inr c \<Longrightarrow> is_tier (cl_Tier c)"
  using found_order by (fastforce simp: notify_check_def GetOrderByNo_def shop_ok_def split: option.splits sum.splits if_splits)

lemma runs_ok: "runs change s cs s' \<Longrightarrow> shop_ok s \<Longrightarrow> shop_ok s'"
  by (induction rule: runs.induct) (auto dest: change_ok)

lemma reach_ok: "reach s ps s' \<Longrightarrow> shop_ok s \<Longrightarrow> shop_ok s'"
  unfolding reach_def using runs_ok by blast

lemma stale_closed:
  "reach s [] (fst (CloseStalePendingOrders fl age s))" "reach s [] (fst (sponsorCloseStale fl age s))"
  using reach_None[OF ch_close[of s "\<lambda>r. po_Status r = OrderStatusPending \<and> po_CreatedAt r < d_now (s_db s) - age"]]
    reach_None[OF ch_drop[of s "\<lambda>r. so_Status r = OrderStatusPending \<and> so_CreatedAt r < d_now (s_db s) - age"]]
  by (auto simp: CloseStalePendingOrders_def sponsorCloseStale_def exec_def Let_def)

lemma serve_reach:
  assumes "world_ok w" and "shop_serve e ev fl w = (w', c)"
  shows "reach (w_shop w) (case c of None \<Rightarrow> [] | Some p \<Rightarrow> [p]) (w_shop w') \<and> world_ok w'"
proof -
  have s: "shop_ok (w_shop w)" and c: "\<And>c. c \<in> set (w_claims w) \<Longrightarrow> is_tier (cl_Tier c)" using assms(1) by (auto simp: world_ok_def)

  have ok: "world_ok w'" if "reach (w_shop w) ps (w_shop w')" "\<And>c. c \<in> set (w_claims w') \<Longrightarrow> is_tier (cl_Tier c)" for ps
    using reach_ok[OF that(1) s] that(2) by (simp add: world_ok_def)

  have "reach (w_shop w) (case c of None \<Rightarrow> [] | Some p \<Rightarrow> [p]) (w_shop w') \<and> (\<forall>c\<in>set (w_claims w'). is_tier (cl_Tier c))"
  proof (cases ev)
    case (ENotify fm)
    then show ?thesis using assms(2) c checked_tier[OF s, of e fm] by (auto split: sum.splits)
  next
    case (EClaim i)
    obtain s1 ack b where n: "notify_claim fl (w_claims w ! i) (w_shop w) = (s1, ack, b)" using prod_cases3 by blast
    show ?thesis
    proof (cases "i < length (w_claims w)")
      case True
      then have t: "is_tier (cl_Tier (w_claims w ! i))" using c nth_mem by blast
      have w: "w' = w\<lparr>w_shop := s1, w_claims := take i (w_claims w) @ drop (Suc i) (w_claims w)\<rparr>"
        "c = (if b then Some (Order (cl_OrderNo (w_claims w ! i))) else None)"
        using assms(2) EClaim n True by (auto simp: Let_def)
      have "\<forall>x\<in>set (w_claims w'). is_tier (cl_Tier x)" using c by (auto simp: w dest: in_set_takeD in_set_dropD)
      then show ?thesis using claim_reach[OF t n] by (cases b) (simp_all add: w)
    qed (use assms(2) EClaim c in auto)
  next
    case (EDonationNotify fm)
    then show ?thesis using assms(2) c by (auto split: sum.splits)
  next
    case (EDonationClaim i)
    obtain s1 ack b where n: "sponsor_claim fl (w_gifts w ! i) (w_shop w) = (s1, ack, b)" using prod_cases3 by blast
    show ?thesis using assms(2) EDonationClaim n gift_reach[OF s n] c by (auto simp: Let_def split: if_splits)
  qed (use assms(2) c CreateOrder_reach Donate_reach stale_closed reach_dbs in \<open>auto simp: on_db_def on_shop_def\<close>)
  then show ?thesis using ok by blast
qed

lemma run_reach:
  "world_ok w \<Longrightarrow> shop_run e evs w = (w', cs) \<Longrightarrow> reach (w_shop w) (somes cs) (w_shop w') \<and> world_ok w'"
proof (induction evs arbitrary: w w' cs)
  case (Cons x evs)
  obtain ev fl where x: "x = (ev, fl)" by (cases x)
  obtain w1 c where s: "shop_serve e ev fl w = (w1, c)" by fastforce
  obtain w2 ds where r: "shop_run e evs w1 = (w2, ds)" by fastforce
  have e: "w' = w2" "cs = c # ds" using Cons.prems(2) s r by (simp_all add: x)
  note s1 = serve_reach[OF Cons.prems(1) s]
  have "reach (w_shop w1) (somes ds) (w_shop w2) \<and> world_ok w2" using Cons.IH[OF _ r] s1 by blast
  then show ?case
    using s1 reach_trans[of "w_shop w" "[]" "w_shop w1" "somes ds" "w_shop w2"]
      reach_trans[of "w_shop w" "[the c]" "w_shop w1" "somes ds" "w_shop w2"] by (cases c) (auto simp: e)
qed simp

lemma somes_map_paid: "somes (map paid_order cs) = somes (map paid_order (map Some (somes cs)))"
  "somes (map paid_donation cs) = somes (map paid_donation (map Some (somes cs)))"
proof (induction cs)
  case (Cons c cs)
  { case 1 then show ?case using Cons by (cases c; cases "the c") auto }
  { case 2 then show ?case using Cons by (cases c; cases "the c") auto }
qed simp_all

subsection \<open>Paid once, for what was bought\<close>

text \<open>C5: An order is fulfilled exactly once. In any sequence of requests, with callbacks repeated, interleaved with
  each other and with the closing of stale orders, and with failures anywhere, no order is fulfilled twice and
  none that was paid before; and the orders paid at the end are those paid before and those fulfilled on the
  way. The same holds for donations.\<close>

theorem paid_orders_fulfilled_once:
  assumes "world_ok w" and "shop_run e evs w = (w', cs)"
  shows "distinct (somes (map paid_order cs)) \<and> distinct (somes (map paid_donation cs))
    \<and> (\<forall>no. order_status (w_shop w') no = Some OrderStatusPaid
        \<longleftrightarrow> order_status (w_shop w) no = Some OrderStatusPaid \<or> no \<in> set (somes (map paid_order cs)))
    \<and> (\<forall>no\<in>set (somes (map paid_order cs)). order_status (w_shop w) no \<noteq> Some OrderStatusPaid)
    \<and> (\<forall>no. donation_status (w_shop w') no = Some OrderStatusPaid
        \<longleftrightarrow> donation_status (w_shop w) no = Some OrderStatusPaid \<or> no \<in> set (somes (map paid_donation cs)))"
proof -
  obtain ds where r: "runs change (w_shop w) ds (w_shop w')" and ds: "somes ds = somes cs"
    using run_reach[OF assms] unfolding reach_def by blast
  have e: "somes (map paid_order cs) = somes (map paid_order ds)" "somes (map paid_donation cs) = somes (map paid_donation ds)"
    by (simp_all add: somes_map_paid[of cs] somes_map_paid[of ds] ds)
  have s: "shop_ok (w_shop w)" using assms(1) by (simp add: world_ok_def)
  show ?thesis unfolding e
    using orders.paid_once[of "w_shop w" "map paid_order ds" "w_shop w'"] donations.paid_once[of "w_shop w" "map paid_donation ds" "w_shop w'"]
      runs_orders[OF r] s by blast
qed

text \<open>C19: Only subscriptions in order arise. Starting from tables in order, every sequence of requests leaves
  every user without a tier and without an expiry, or with Plus or Pro until some time, and with days of Plus
  waiting only behind a Pro; order numbers stay unique, and every order is for Plus or Pro.\<close>

theorem subscriptions_stay_in_order:
  assumes "world_ok w" and "shop_run e evs w = (w', cs)"
  shows "world_ok w'"
  using run_reach[OF assms] by blast

definition subscription :: "user \<Rightarrow> string \<times> int option \<times> string \<times> string \<times> int \<times> string \<times> int" where
  "subscription u = (u_SubTier u, u_SubExpireAt u, u_SubSource u, u_SubPendingTier u, u_SubPendingDays u, u_SubPendingSource u, u_SubReminded u)"

lemma subscription_columns [simp]: "subscription (sub_columns v u) = subscription v"
  by (simp add: subscription_def sub_columns_def)

lemma loadUser_upd_any:
  "(\<And>u. u_ID (f u) = u_ID u) \<Longrightarrow> loadUser (upd_user uid f d) v = map_option (\<lambda>u. if u_ID u = uid then f u else u) (loadUser d v)"
proof -
  assume f: "\<And>u. u_ID (f u) = u_ID u"
  have "find (\<lambda>u. u_ID u = v) (map (\<lambda>u. if u_ID u = uid then f u else u) us)
      = map_option (\<lambda>u. if u_ID u = uid then f u else u) (find (\<lambda>u. u_ID u = v) us)" for us
    using f by (induction us) auto
  then show ?thesis by (simp add: loadUser_def upd_user_def)
qed

lemma sync_subscription:
  "map_option subscription (loadUser (SyncProblemPipelineOverrides fl uid d) v) = map_option subscription (loadUser d v)"
  by (cases "loadUser d v") (auto simp: SyncProblemPipelineOverrides_def Let_def exec_def loadUser_upd_any subscription_def)

text \<open>C16: A callback commits everything or nothing. When it claims the order, the order is paid, the buyer's
  subscription is the one with the bought days stacked on, and the platform is told so; otherwise no table
  changed, and the platform is told so only when the order was paid before, so that it will call again.\<close>

theorem callback_all_or_nothing:
  assumes "notify_claim fl c s = (s', ack, claimed)" and "shop_ok s" and "is_tier (cl_Tier c)"
  shows "if claimed
    then ack \<and> order_status s (cl_OrderNo c) \<noteq> Some OrderStatusPaid \<and> order_status s' (cl_OrderNo c) = Some OrderStatusPaid
      \<and> (\<exists>u. loadUser (s_db s) (cl_User c) = Some u \<and> map_option subscription (loadUser (s_db s') (cl_User c))
          = Some (subscription (stacked (cl_Tier c) (cl_Days c) ''payfm'' (d_now (s_db s)) u)))
    else s' = s \<and> (ack \<longrightarrow> order_status s (cl_OrderNo c) = Some OrderStatusPaid)"
proof (cases claimed)
  case True
  obtain r u where r: "find_order s (cl_OrderNo c) = Some r" "po_Status r \<noteq> OrderStatusPaid" "loadUser (s_db s) (cl_User c) = Some u"
    "s_db s' = SyncProblemPipelineOverrides fl (po_UserID r)
      (upd_user (cl_User c) (sub_columns (stacked (cl_Tier c) (cl_Days c) ''payfm'' (d_now (s_db s)) u)) (s_db s))" "ack"
    using assms(1) True
    by (auto simp: notify_claim_def ClaimAndFulfillPaidOrder_def add_to_subscription_def exec_def upd_order_def
        pay_order_def split: if_splits option.splits sum.splits bool.splits)
  have "reach s [Order (cl_OrderNo c)] s'" using claim_reach[OF assms(3,1)] True by simp
  then obtain cs where "runs change s cs s'" "somes cs = [Order (cl_OrderNo c)]" unfolding reach_def by blast
  then have "order_status s' (cl_OrderNo c) = Some OrderStatusPaid"
    using orders.paid_once[OF conjunct1[OF runs_orders] assms(2)] by (simp add: somes_map_paid(1)[of cs])
  moreover have "u_ID u = cl_User c" using r(3) by (auto simp: loadUser_def find_Some_iff)
  ultimately show ?thesis
    using True r by (auto simp: order_status_def sync_subscription loadUser_upd_any sub_columns_def[of _ u] subscription_def sub_columns_def)
next
  case False
  then show ?thesis using assms(1)
    by (auto simp: notify_claim_def ClaimAndFulfillPaidOrder_def add_to_subscription_def exec_def order_status_def
        split: if_splits option.splits sum.splits bool.splits)
qed

subsection \<open>From the order to the subscription\<close>

text \<open>What the platform sends when an order was paid, and the digest it is made with: 32 lower-case digits.\<close>

definition paid_form :: "env \<Rightarrow> string \<Rightarrow> int \<Rightarrow> form" where
  "paid_form e no cents = (case paymentGateway (e_conf e) (e_url e) of Inl _ \<Rightarrow> []
     | Inr g \<Rightarrow> [(''state'', [''1'']), (''merchantNum'', [g_merchantNo g]), (''orderNo'', [no]), (''amount'', [FormatCents cents]),
         (''sign'', [e_md5 e (''1'' @ g_merchantNo g @ no @ FormatCents cents @ g_secret g)])])"

definition is_digest :: "(string \<Rightarrow> string) \<Rightarrow> bool" where
  "is_digest md5 \<longleftrightarrow> (\<forall>x. md5 x \<noteq> '''' \<and> to_lower (trim_space (md5 x)) = md5 x)"

lemma nat_str_ne [simp]: "nat_str n \<noteq> []"
  by (subst nat_str.simps) simp

lemma trim_order_no: "trim_space (CHR ''S'' # int_str t) = CHR ''S'' # int_str t"
proof (rule trim_space_id)
  have "last (nat_str n) \<in> set (nat_str n)" for n by (rule last_in_set) simp
  then have "\<not> is_space (last (nat_str n))" for n
    using nat_str_digits[of "last (nat_str n)" n] by (auto simp: is_digit_char_def is_space_def)
  then show "CHR ''S'' # int_str t = [] \<or> \<not> is_space (hd (CHR ''S'' # int_str t)) \<and> \<not> is_space (last (CHR ''S'' # int_str t))"
    by (simp add: int_str_def is_space_def)
qed

lemma gateway_fields: "paymentGateway rt url = Inr g \<Longrightarrow> g_secret g \<noteq> '''' \<and> g_merchantNo g \<noteq> ''''"
  by (auto simp: paymentGateway_def NewPayFmGateway_def PayFmConf_def Let_def split: option.splits if_splits)

lemma paid_form_accepted:
  assumes "paymentGateway (e_conf e) (e_url e) = Inr g" and "is_digest (e_md5 e)" and "no \<noteq> ''''" and "FormatCents cents \<noteq> ''''"
  shows "\<exists>n. ParseNotification (e_md5 e) (e_local_time e) g (form_value (paid_form e no cents)) = Inr n
    \<and> n_OrderNo n = no \<and> n_Amount n = FormatCents cents"
  using assms gateway_fields[OF assms(1)]
  by (auto simp: paid_form_def ParseNotification_def signed_text_def form_value_def is_digest_def)

lemma CreateOrder_success:
  assumes "CreateOrder e pd reqPlan reqMonths fl s = (s1, Inr (no, url, cents, months, days))" and "find_order s no = None"
  obtains p g u where "pd = Some u" "is_tier (trim_space reqPlan)" "PlanByTier (trim_space reqPlan) (s_db s) = Inr p" "1 \<le> months"
    "paymentGateway (e_conf e) (e_url e) = Inr g" "no = CHR ''S'' # int_str (d_now (s_db s))" "days = pf_Days p * months"
    "s1 = s\<lparr>s_orders := s_orders s @ [new_order no (UserID u) (trim_space reqPlan) months cents s], s_db := drawn (s_db s)\<rparr>"
proof -
  define plan where "plan = trim_space reqPlan"
  define m where "m = (if reqMonths < 1 then 1 else reqMonths)"
  note C = assms(1)[unfolded CreateOrder_def Let_def, folded plan_def m_def]
  obtain u where u: "pd = Some u" "UserID u \<noteq> 0" using C by (cases pd) (auto split: if_splits)
  have t: "is_tier plan" "\<not> 12 < m" using C u by (auto split: if_splits)
  obtain p where p: "PlanByTier plan (s_db s) = Inr p" using C u t by (cases "PlanByTier plan (s_db s)") auto
  have p2: "pf_Enabled p" "\<not> pf_PriceCents p \<le> 0" using C u t p by (auto split: if_splits)
  obtain g where g: "paymentGateway (e_conf e) (e_url e) = Inr g" using C u t p p2 by (cases "paymentGateway (e_conf e) (e_url e)") auto
  let ?no = "CHR ''S'' # int_str (d_now (s_db s))" and ?a = "wrap64 (pf_PriceCents p * m)"
  obtain s' r where d: "dalCreateOrder fl ?no (UserID u) plan m ?a s = (s', r)" by fastforce
  have "\<exists>x. r = Inr x" using C u t p p2 g d by (cases r) auto
  then obtain x where r: "r = Inr x" ..
  have e: "no = ?no" "cents = ?a" "months = m" "days = pf_Days p * m" "s1 = s'"
    using C u t p p2 g d r by (auto split: sum.splits)
  have m: "1 \<le> m" by (simp add: m_def)
  have "\<not> fl ''orders.create''" using d r assms(2) e(1) by (auto simp: dalCreateOrder_def Let_def split: if_splits)
  then have "s' = s\<lparr>s_orders := s_orders s @ [new_order ?no (UserID u) plan m ?a s], s_db := drawn (s_db s)\<rparr>"
    using d assms(2) e(1) by (simp add: dalCreateOrder_def Let_def)
  then show thesis using that[OF u(1) t(1)[unfolded plan_def] p[unfolded plan_def] _ g] e m by (simp add: plan_def)
qed

text \<open>C13: Whoever buys and pays gets what was offered. After an order was created for some months of a plan, the
  platform's notification that its amount was paid is accepted and acknowledged, the order is paid, and the
  buyer's subscription is the one with the days of the offer stacked on.\<close>

theorem bought_and_paid_is_delivered:
  assumes "CreateOrder e (Some p) reqPlan reqMonths fl s = (s1, Inr (no, url, cents, months, days))"
    and "shop_ok s" and "find_order s no = None" and "1 \<le> days" and "0 \<le> cents" and "cents \<le> 10 ^ 14"
    and "is_digest (e_md5 e)" and "loadUser (s_db s) (UserID p) = Some u"
    and "\<not> fl2 ''orders.save''" and "\<not> fl2 ''users.subscription''" and "\<not> fl2 ''commit''"
  shows "\<exists>s2. NotifyHTTP e (Some (paid_form e no cents)) fl2 s1 = (s2, True) \<and> order_status s2 no = Some OrderStatusPaid
    \<and> map_option subscription (loadUser (s_db s2) (UserID p)) = Some (subscription (stacked (trim_space reqPlan) days ''payfm'' (d_now (s_db s)) u))"
proof -
  obtain pl g where o: "is_tier (trim_space reqPlan)" "PlanByTier (trim_space reqPlan) (s_db s) = Inr pl" "1 \<le> months"
    "paymentGateway (e_conf e) (e_url e) = Inr g" "no = CHR ''S'' # int_str (d_now (s_db s))" "days = pf_Days pl * months"
    "s1 = s\<lparr>s_orders := s_orders s @ [new_order no (UserID p) (trim_space reqPlan) months cents s], s_db := drawn (s_db s)\<rparr>"
    using CreateOrder_success[OF assms(1,3)] by (metis option.inject)
  let ?r = "new_order no (UserID p) (trim_space reqPlan) months cents s"
  note amt = FormatCents_text(3)[OF assms(5,6)] amount_survives_printing[OF assms(5,6)]
  obtain n where n: "ParseNotification (e_md5 e) (e_local_time e) g (form_value (paid_form e no cents)) = Inr n"
    "n_OrderNo n = no" "n_Amount n = FormatCents cents"
    using paid_form_accepted[OF o(4) assms(7) _ amt(1)] o(5) by blast
  have r: "find_order s1 no = Some ?r" using assms(3) by (simp add: o(7) find_order_def find_snoc new_order_def)
  have pl: "PlanByTier (trim_space reqPlan) (s_db s1) = Inr pl" using o(2) by (simp add: o(7) PlanByTier_def drawn_def)
  have d: "0 < pf_Days pl" using assms(4) o(3,6) by (smt (verit) mult_le_0_iff)
  define c where "c = \<lparr>cl_OrderNo = no, cl_PlatformOrderNo = n_PlatformOrderNo n, cl_PaidAt = n_PayTime n, cl_User = UserID p,
    cl_Tier = trim_space reqPlan, cl_Days = days\<rparr>"
  have chk: "notify_check e (Some (paid_form e no cents)) s1 = Inr c"
    using o(3,4,6) n amt(2) r pl d assms(4) trim_order_no by (simp add: notify_check_def GetOrderByNo_def o(5) c_def new_order_def)
  obtain s2 ack claimed where cl: "notify_claim fl2 c s1 = (s2, ack, claimed)" using prod_cases3 by blast
  have u: "loadUser (s_db s1) (UserID p) = Some u" using assms(8) by (simp add: o(7) loadUser_def drawn_def)
  have now: "d_now (s_db s1) = d_now (s_db s)" by (simp add: o(7) drawn_def)
  have "claimed" using cl r u assms(4,9-11)
    by (auto simp: notify_claim_def c_def ClaimAndFulfillPaidOrder_def add_to_subscription_def exec_def upd_order_def new_order_def split: prod.splits)
  moreover have "shop_ok s1" using reach_ok[OF CreateOrder_reach assms(2), of e "Some p" reqPlan reqMonths fl] by (simp add: assms(1))
  moreover have "is_tier (cl_Tier c)" using o(1) by (simp add: c_def)
  moreover have "NotifyHTTP e (Some (paid_form e no cents)) fl2 s1 = (s2, ack)" by (simp add: NotifyHTTP_def chk cl)
  ultimately show ?thesis
    using callback_all_or_nothing[OF cl] u now by (simp add: c_def)
qed

subsection \<open>A small shop\<close>

definition ex_env :: env where
  "ex_env = \<lparr>e_md5 = (\<lambda>_. ''5f''), e_local_time = (\<lambda>_. None),
     e_platform = (\<lambda>_ _. Some \<lparr>an_Success = True, an_Code = 200, an_Msg = '''', an_PayURL = ''https://pay/1''\<rparr>),
     e_conf = Some \<lparr>pc_ApiBase = ''https://pay'', pc_MerchantNo = ''42'', pc_Secret = ''key'', pc_PayType = ''''\<rparr>, e_url = ''https://me''\<rparr>"

definition ex_shop :: shop where
  "ex_shop = \<lparr>s_db = ex_shop_db, s_orders = [], s_donations = [], s_expenses = [], s_setting = None\<rparr>"

definition ex_ann :: JwtPayload where
  "ex_ann = zero_payload\<lparr>UserID := 7\<rparr>"

text \<open>Ann ordered two months of Pro; the platform called twice before either callback committed.\<close>

definition ex_claim :: claim where
  "ex_claim = \<lparr>cl_OrderNo = ''S1'', cl_PlatformOrderNo = ''P1'', cl_PaidAt = 5, cl_User = 7, cl_Tier = ''pro'', cl_Days = 60\<rparr>"

definition ex_ordered :: shop where
  "ex_ordered = ex_shop\<lparr>s_orders := [\<lparr>po_ID = 9, po_OrderNo = ''S1'', po_UserID = 7, po_Plan = ''pro'', po_Months = 2, po_AmountCents = 3980,
     po_Status = OrderStatusPending, po_PlatformOrderNo = '''', po_PaidAt = None, po_CreatedAt = 0\<rparr>]\<rparr>"

definition ex_world :: world where
  "ex_world = \<lparr>w_shop = ex_ordered, w_claims = [ex_claim, ex_claim], w_gifts = []\<rparr>"

lemma ex_world_ok: "world_ok ex_world" "shop_ok ex_ordered" "shop_ok ex_shop"
  by code_simp+

definition ex_events :: "(event \<times> fails) list" where
  "ex_events = [(EClaim 0, \<lambda>l. l = ''commit''), (ECloseStale 1, \<lambda>_. False), (EClaim 0, \<lambda>_. False), (EClaim 0, \<lambda>_. False)]"

definition days_of_pro :: "shop \<Rightarrow> int list" where
  "days_of_pro s = map (\<lambda>u. entitled ''pro'' (d_now (s_db s)) u div day_ns) (d_users (s_db s))"

theorem paid_orders_fulfilled_once_witness:
  "\<exists>w cs. shop_run ex_env ((EClaim 0, \<lambda>_. False) # ex_events) ex_world = (w, cs) \<and> distinct (somes (map paid_order cs))
     \<and> somes (map paid_order cs) = [''S1''] \<and> days_of_pro (w_shop w) = [60, 0]"
proof -
  obtain w cs where r: "shop_run ex_env ((EClaim 0, \<lambda>_. False) # ex_events) ex_world = (w, cs)" by fastforce
  have "somes (map paid_order (snd (shop_run ex_env ((EClaim 0, \<lambda>_. False) # ex_events) ex_world))) = [''S1'']"
    "days_of_pro (w_shop (fst (shop_run ex_env ((EClaim 0, \<lambda>_. False) # ex_events) ex_world))) = [60, 0]" by code_simp+
  then show ?thesis using r paid_orders_fulfilled_once[OF ex_world_ok(1) r] by auto
qed

theorem subscriptions_stay_in_order_witness:
  "world_ok (fst (shop_run ex_env ex_events ex_world)) \<and> days_of_pro (w_shop (fst (shop_run ex_env ex_events ex_world))) = [60, 0]"
proof -
  have "days_of_pro (w_shop (fst (shop_run ex_env ex_events ex_world))) = [60, 0]" by code_simp
  then show ?thesis using subscriptions_stay_in_order[OF ex_world_ok(1), of ex_env ex_events] by (metis prod.collapse)
qed

theorem callback_all_or_nothing_witness:
  "fst (notify_claim (\<lambda>l. l = ''commit'') ex_claim ex_ordered) = ex_ordered \<and> \<not> fst (snd (notify_claim (\<lambda>l. l = ''commit'') ex_claim ex_ordered))"
proof -
  obtain s' ack cl where n: "notify_claim (\<lambda>l. l = ''commit'') ex_claim ex_ordered = (s', ack, cl)" using prod_cases3 by blast
  have "\<not> snd (snd (notify_claim (\<lambda>l. l = ''commit'') ex_claim ex_ordered))" "order_status ex_ordered (cl_OrderNo ex_claim) \<noteq> Some OrderStatusPaid"
    "is_tier (cl_Tier ex_claim)" by code_simp+
  then show ?thesis using callback_all_or_nothing[OF n ex_world_ok(2)] n by auto
qed

lemma trim_pro: "trim_space ''pro'' = ''pro''"
  by code_simp

theorem bought_and_paid_is_delivered_witness:
  "\<exists>s1 s2. fst (CreateOrder ex_env (Some ex_ann) ''pro'' 2 (\<lambda>_. False) ex_shop) = s1
     \<and> NotifyHTTP ex_env (Some (paid_form ex_env (CHR ''S'' # int_str (3 * day_ns)) 3980)) (\<lambda>_. False) s1 = (s2, True)
     \<and> order_status s2 (CHR ''S'' # int_str (3 * day_ns)) = Some OrderStatusPaid"
proof -
  obtain s1 where c: "CreateOrder ex_env (Some ex_ann) ''pro'' 2 (\<lambda>_. False) ex_shop
      = (s1, Inr (CHR ''S'' # int_str (3 * day_ns), ''https://pay/1'', 3980, 2, 60))"
  proof -
    have "snd (CreateOrder ex_env (Some ex_ann) ''pro'' 2 (\<lambda>_. False) ex_shop)
      = Inr (CHR ''S'' # int_str (3 * day_ns), ''https://pay/1'', 3980, 2, 60)"
    proof -
      obtain p where p: "PlanByTier ''pro'' (s_db ex_shop) = Inr p" "pf_Enabled p" "pf_PriceCents p = 1990" "pf_Days p = 30"
        by (simp add: PlanByTier_def ex_shop_def ex_shop_db_def trim_pro)
      have "case paymentGateway (e_conf ex_env) (e_url ex_env) of Inr g \<Rightarrow> g_apiBase g \<noteq> '''' | Inl _ \<Rightarrow> False" by code_simp
      then obtain g where g: "paymentGateway (e_conf ex_env) (e_url ex_env) = Inr g" "g_apiBase g \<noteq> ''''" by (auto split: sum.splits)
      have "trim_space ''https://pay/1'' \<noteq> ''''" by code_simp
      then have m: "gatewayCreateOrder (e_md5 ex_env) (e_platform ex_env) g no c sub = Inr ''https://pay/1''" for no c sub
        using g(2) by (simp add: gatewayCreateOrder_def ex_env_def)
      have d: "d_now (s_db ex_shop) = 3 * day_ns" "find_order ex_shop no = None" "wrap64 3980 = 3980" "UserID ex_ann = 7" for no
        by (simp_all add: ex_shop_def ex_shop_db_def find_order_def int64_min_def int64_max_def ex_ann_def)
      show ?thesis by (simp add: CreateOrder_def dalCreateOrder_def Let_def trim_pro p g m d)
    qed
    then show thesis using that by (metis prod.collapse)
  qed
  have h: "find_order ex_shop (CHR ''S'' # int_str (3 * day_ns)) = None" by (simp add: find_order_def ex_shop_def)
  have l: "loadUser (s_db ex_shop) (UserID ex_ann) = Some ex_buyer" by code_simp
  have "trim_space ''5f'' = ''5f''" "to_lower ''5f'' = ''5f''" by code_simp+
  then have "is_digest (e_md5 ex_env)" by (simp add: is_digest_def ex_env_def)
  from bought_and_paid_is_delivered[OF c ex_world_ok(3) h _ _ _ this l, of "\<lambda>_. False"] show ?thesis using c by auto
qed

end
