(* ===== verification/ProblemIdentity.thy ===== *)
theory ProblemIdentity
  imports Prelude
begin

text \<open>
  The identity of a problem, read from the fields of a submission
  (\<^verbatim>\<open>core_data/internal/biz/service/problem_identity.go\<close>): its number on the platform, a title and a link.

  The regular expressions of the file are written as matchers. Go takes the leftmost match; in each of these
  expressions what follows a repetition cannot begin with a character it consumes, so the greedy match is the
  only one. Letters are those of ASCII.
\<close>

subsection \<open>Characters and matchers\<close>

definition code :: "char \<Rightarrow> nat" where "code c = of_char c"

definition is_upper :: "char \<Rightarrow> bool" where "is_upper c \<longleftrightarrow> 65 \<le> code c \<and> code c \<le> 90"
definition is_lower :: "char \<Rightarrow> bool" where "is_lower c \<longleftrightarrow> 97 \<le> code c \<and> code c \<le> 122"
definition is_alpha :: "char \<Rightarrow> bool" where "is_alpha c \<longleftrightarrow> is_upper c \<or> is_lower c"
definition is_alnum :: "char \<Rightarrow> bool" where "is_alnum c \<longleftrightarrow> is_alpha c \<or> is_digit_char c"
definition is_hex :: "char \<Rightarrow> bool" where
  "is_hex c \<longleftrightarrow> is_digit_char c \<or> 65 \<le> code c \<and> code c \<le> 70 \<or> 97 \<le> code c \<and> code c \<le> 102"

text \<open>\<^verbatim>\<open>\s\<close> of the regular expressions has no vertical tab.\<close>

definition re_space :: "char \<Rightarrow> bool" where
  "re_space c \<longleftrightarrow> c \<in> {CHR 0x09, CHR 0x0A, CHR 0x0C, CHR 0x0D, CHR 0x20}"

definition reDigits :: "string \<Rightarrow> bool" where
  "reDigits s \<longleftrightarrow> s \<noteq> [] \<and> list_all is_digit_char s"

definition reCFNegativeContest :: "string \<Rightarrow> bool" where
  "reCFNegativeContest s \<longleftrightarrow> s \<noteq> [] \<and> hd s = CHR ''-'' \<and> reDigits (tl s)"

text \<open>\<open>(.+)$\<close> after optional white space: what is left, when it is a line of its own.\<close>

definition rest_of_line :: "string \<Rightarrow> string option" where
  "rest_of_line s = (let t = dropWhile re_space s in if t = [] \<or> CHR 0x0A \<in> set t then None else Some t)"

definition reCFProblem :: "string \<Rightarrow> (string \<times> string) option" where
  "reCFProblem s =
     (let a = takeWhile is_alnum s; r = dropWhile re_space (dropWhile is_alnum s)
      in if a = [] \<or> r = [] \<or> hd r \<noteq> CHR ''-'' then None else map_option (\<lambda>t. (a, t)) (rest_of_line (tl r)))"

definition is_pid_char :: "char \<Rightarrow> bool" where "is_pid_char c \<longleftrightarrow> is_alnum c \<or> c = CHR ''_''"

definition reLuoGuBare :: "string \<Rightarrow> bool" where
  "reLuoGuBare s \<longleftrightarrow> s \<noteq> [] \<and> is_alpha (hd s) \<and> list_all is_pid_char s"

definition reLuoGuPID :: "string \<Rightarrow> (string \<times> string) option" where
  "reLuoGuPID s =
     (let a = takeWhile is_pid_char s; r = dropWhile is_pid_char s
      in if a = [] \<or> \<not> is_alpha (hd a) \<or> r = [] \<or> \<not> re_space (hd r) then None else map_option (\<lambda>t. (a, t)) (rest_of_line r))"

definition reAtCoderTask :: "string \<Rightarrow> bool" where
  "reAtCoderTask s \<longleftrightarrow> s \<noteq> [] \<and> list_all (\<lambda>c. is_lower c \<or> is_digit_char c \<or> c = CHR ''_'') s"

text \<open>\<^verbatim>\<open>#?\s*(\d+)\<close>, not anchored: the first run of digits.\<close>

definition first_number :: "string \<Rightarrow> string option" where
  "first_number s = (let r = dropWhile (\<lambda>c. \<not> is_digit_char c) s in if r = [] then None else Some (takeWhile is_digit_char r))"

definition take_hex :: "nat \<Rightarrow> string \<Rightarrow> string option" where
  "take_hex n s = (if n \<le> length s \<and> list_all is_hex (take n s) then Some (drop n s) else None)"

definition opt_dash :: "string \<Rightarrow> string" where
  "opt_dash s = (if s \<noteq> [] \<and> hd s = CHR ''-'' then tl s else s)"

definition dashed_uuid :: "string \<Rightarrow> bool" where
  "dashed_uuid s = (case take_hex 8 s of None \<Rightarrow> False | Some a \<Rightarrow>
     (case take_hex 4 (opt_dash a) of None \<Rightarrow> False | Some b \<Rightarrow>
     (case take_hex 4 (opt_dash b) of None \<Rightarrow> False | Some c \<Rightarrow>
     (case take_hex 4 (opt_dash c) of None \<Rightarrow> False | Some d \<Rightarrow> take_hex 12 (opt_dash d) = Some []))))"

definition reNowCoderUUID :: "string \<Rightarrow> bool" where
  "reNowCoderUUID s \<longleftrightarrow> dashed_uuid s \<or> take_hex 32 s = Some []"

fun segments :: "string \<Rightarrow> string \<Rightarrow> string list" where
  "segments acc [] = [rev acc]"
| "segments acc (c # s) = (if c = CHR ''-'' then rev acc # segments [] s else segments (c # acc) s)"

definition reLeetCodeSlug :: "string \<Rightarrow> bool" where
  "reLeetCodeSlug s \<longleftrightarrow> list_all (\<lambda>p. p \<noteq> [] \<and> list_all is_alnum p) (segments [] s)"

text \<open>The two expressions for links, with an optional host, and the removal of every match.\<close>

definition strip_ci :: "string \<Rightarrow> string \<Rightarrow> string option" where
  "strip_ci p s = (if length p \<le> length s \<and> to_lower (take (length p) s) = p then Some (drop (length p) s) else None)"

definition host :: "string \<Rightarrow> string option" where
  "host s = (case strip_ci ''http'' s of None \<Rightarrow> None
     | Some r \<Rightarrow> (case strip_ci ''://'' (case strip_ci ''s'' r of Some q \<Rightarrow> q | None \<Rightarrow> r) of None \<Rightarrow> None
        | Some q \<Rightarrow> (let stop = (\<lambda>c. c \<noteq> CHR ''/'' \<and> \<not> re_space c) in
            if takeWhile stop q = [] then None else Some (dropWhile stop q))))"

definition link_at :: "string \<Rightarrow> (string \<Rightarrow> (string \<times> string) option) \<Rightarrow> string \<Rightarrow> (string \<times> string) option" where
  "link_at path cap s =
     (let here = (\<lambda>r. case strip_ci path r of None \<Rightarrow> None | Some q \<Rightarrow> cap q)
      in case (case host s of None \<Rightarrow> None | Some r \<Rightarrow> here r) of Some x \<Rightarrow> Some x | None \<Rightarrow> here s)"

fun find_link :: "(string \<Rightarrow> (string \<times> string) option) \<Rightarrow> string \<Rightarrow> string option" where
  "find_link lk [] = None"
| "find_link lk (c # s) = (case lk (c # s) of Some (m, _) \<Rightarrow> Some m | None \<Rightarrow> find_link lk s)"

function remove_links :: "(string \<Rightarrow> (string \<times> string) option) \<Rightarrow> string \<Rightarrow> string" where
  "remove_links lk [] = []"
| "remove_links lk (c # s) =
     (case lk (c # s) of
        Some (_, r) \<Rightarrow> if length r \<le> length s then remove_links lk r else c # s
      | None \<Rightarrow> c # remove_links lk s)"
  by pat_completeness auto
termination by (relation "measure (\<lambda>(_, s). length s)") auto

definition cap_number :: "string \<Rightarrow> (string \<times> string) option" where
  "cap_number q = (let ds = takeWhile is_digit_char q in if ds = [] then None else Some (ds, dropWhile is_digit_char q))"

definition cap_uuid :: "string \<Rightarrow> (string \<times> string) option" where
  "cap_uuid q = (let hs = takeWhile (\<lambda>c. is_hex c \<or> c = CHR ''-'') (take 36 q) in
     if length hs < 32 then None else Some (hs, drop (length hs) q))"

definition reNowCoderProblemURL :: "string \<Rightarrow> (string \<times> string) option" where
  "reNowCoderProblemURL = link_at ''/acm/problem/'' cap_number"

definition reNowCoderPracticeURL :: "string \<Rightarrow> (string \<times> string) option" where
  "reNowCoderPracticeURL = link_at ''/practice/'' cap_uuid"

subsection \<open>Pieces\<close>

record parsed =
  pp_Platform :: string
  pp_ExternalID :: string
  pp_Title :: string
  pp_URL :: string

abbreviation found :: "string \<Rightarrow> string \<Rightarrow> string \<Rightarrow> string \<Rightarrow> string + parsed" where
  "found pl ext title url \<equiv> Inr \<lparr>pp_Platform = pl, pp_ExternalID = ext, pp_Title = title, pp_URL = url\<rparr>"

definition join_sp :: "string list \<Rightarrow> string" where
  "join_sp ws = concat (case ws of [] \<Rightarrow> [] | w # vs \<Rightarrow> w # map (\<lambda>v. CHR '' '' # v) vs)"

definition sanitizeExternalID :: "string \<Rightarrow> string" where
  "sanitizeExternalID s = take 120 (map (\<lambda>c. if c \<in> {CHR '' '', CHR ''/'', CHR 0x5C} then CHR ''_'' else c) (trim_space s))"

definition normalizeLuoGuPID :: "string \<Rightarrow> string" where
  "normalizeLuoGuPID pid0 =
     (let pid = trim_space pid0 in
      if pid = '''' then pid
      else if 3 < length pid \<and> equal_fold (take 3 pid) ''AT_'' then ''AT_'' @ drop 3 pid
      else to_upper pid)"

definition last_underscore :: "string \<Rightarrow> nat option" where
  "last_underscore s = map_option (\<lambda>i. length s - 1 - i) (str_index (rev s) ''_'')"

definition atCoderTaskURLWithContest :: "string \<Rightarrow> string \<Rightarrow> string" where
  "atCoderTaskURLWithContest contest0 task0 =
     (let task = trim_space task0; contest = trim_space contest0 in
      if task = '''' then ''''
      else if contest \<noteq> '''' then ''https://atcoder.jp/contests/'' @ contest @ ''/tasks/'' @ task
      else (case last_underscore task of
          Some i \<Rightarrow> if 0 < i \<and> reAtCoderTask (take i task)
             then ''https://atcoder.jp/contests/'' @ take i task @ ''/tasks/'' @ task else ''https://atcoder.jp/tasks/'' @ task
        | None \<Rightarrow> ''https://atcoder.jp/tasks/'' @ task))"

definition normalizeNowCoderUUID :: "string \<Rightarrow> string" where
  "normalizeNowCoderUUID s0 =
     (let s = trim_space (to_lower s0) in
      if \<not> reNowCoderUUID s then ''''
      else (let t = filter (\<lambda>c. c \<noteq> CHR ''-'') s in if length t \<noteq> 32 then '''' else t))"

text \<open>\<^verbatim>\<open>strings.Trim\<close> with the dots, dashes and bars of a title, the two long dashes as their three bytes.\<close>

definition title_marks :: "string list" where
  "title_marks = [''.'', ''-'', ''_'', ''|'', [CHR 0xE2, CHR 0x80, CHR 0x93], [CHR 0xE2, CHR 0x80, CHR 0x94]]"

fun trim_marks :: "nat \<Rightarrow> string list \<Rightarrow> string \<Rightarrow> string" where
  "trim_marks 0 ms s = s"
| "trim_marks (Suc n) ms s = (case find (\<lambda>m. has_prefix s m) ms of None \<Rightarrow> s | Some m \<Rightarrow> trim_marks n ms (drop (length m) s))"

definition trim_title :: "string \<Rightarrow> string" where
  "trim_title s = (let t = trim_marks (length s) title_marks s in rev (trim_marks (length t) (map rev title_marks) (rev t)))"

definition isQOJBrandTitleLocal :: "string \<Rightarrow> bool" where
  "isQOJBrandTitleLocal title \<longleftrightarrow> trim_title (to_lower (join_sp (str_fields (trim_space title)))) \<in> {'''', ''qoj.ac'', ''qoj'', ''qoj ac''}"

text \<open>\<^verbatim>\<open>^#?\s*EXT\s*[.]?\s*(.*)$\<close> without regard to case, with the full-width dot as an alternative.\<close>

definition qoj_rest :: "string \<Rightarrow> string \<Rightarrow> string option" where
  "qoj_rest ext t =
     (let after = (\<lambda>s. case strip_ci (to_lower ext) (dropWhile re_space s) of None \<Rightarrow> None
         | Some r \<Rightarrow> (let q = dropWhile re_space r;
              q' = (if has_prefix q ''.'' then tl q else if has_prefix q [CHR 0xEF, CHR 0xBC, CHR 0x8E] then drop 3 q else q)
            in if CHR 0x0A \<in> set (dropWhile re_space q') then None else Some (dropWhile re_space q')))
      in case (if has_prefix t ''#'' then after (tl t) else None) of Some x \<Rightarrow> Some x | None \<Rightarrow> after t)"

definition cleanQOJSubmitTitle :: "string \<Rightarrow> string \<Rightarrow> string" where
  "cleanQOJSubmitTitle problem ext =
     (let t = join_sp (str_fields (trim_space problem)) in
      if t = '''' \<or> isQOJBrandTitleLocal t then (if ext \<noteq> '''' then CHR ''#'' # ext else t)
      else (case qoj_rest ext t of
          Some r \<Rightarrow> if trim_space r \<noteq> '''' \<and> \<not> isQOJBrandTitleLocal (trim_space r) then CHR ''#'' # ext @ ''. '' @ trim_space r
             else CHR ''#'' # ext
        | None \<Rightarrow> t))"

subsection \<open>The platforms\<close>

abbreviation "NowCoder \<equiv> ''NowCoder''"
abbreviation "AtCoder \<equiv> ''AtCoder''"
abbreviation "LuoGu \<equiv> ''LuoGu''"
abbreviation "CodeForces \<equiv> ''CodeForces''"
abbreviation "QOJ \<equiv> ''QOJ''"
abbreviation "LeetCode \<equiv> ''LeetCode''"
abbreviation "LOJ \<equiv> ''LOJ''"
abbreviation "UOJ \<equiv> ''UOJ''"
abbreviation "POJ \<equiv> ''POJ''"

definition gym_problem :: "string \<Rightarrow> string \<Rightarrow> string \<Rightarrow> string + parsed" where
  "gym_problem gym index title = found CodeForces (''gym'' @ gym @ index) title (''https://codeforces.com/gym/'' @ gym @ ''/problem/'' @ index)"

text \<open>Index and title: the two parts of the expression, or the text before the first blank and what follows.\<close>

definition cf_parts :: "string \<Rightarrow> string \<times> string" where
  "cf_parts problem = (case reCFProblem problem of
       Some (i, t) \<Rightarrow> (i, trim_space t)
     | None \<Rightarrow> (let a = takeWhile (\<lambda>c. c \<noteq> CHR '' '') problem; r = dropWhile (\<lambda>c. c \<noteq> CHR '' '') problem
         in (trim_space a, if r = [] then problem else trim_space (tl r))))"

definition parseCodeforces :: "string \<Rightarrow> string \<Rightarrow> string + parsed" where
  "parseCodeforces contest problem =
     (case cf_parts problem of (index, title) \<Rightarrow>
        if index = '''' \<or> contest = '''' then Inl ''cf parse fail''
        else if reCFNegativeContest contest then gym_problem (trim_prefix contest ''-'') index title
        else if has_prefix (to_lower contest) ''gym'' then
          (if drop 3 contest = '''' then Inl ''cf gym missing id'' else gym_problem (drop 3 contest) index title)
        else found CodeForces (contest @ index) title (''https://codeforces.com/contest/'' @ contest @ ''/problem/'' @ index))"

definition parseAtCoder :: "string \<Rightarrow> string \<Rightarrow> string + parsed" where
  "parseAtCoder contest problem =
     (let p = trim_space problem; pid = (if reAtCoderTask p then p else sanitizeExternalID p)
      in if pid = '''' then Inl ''atcoder empty problem''
         else found AtCoder pid pid (atCoderTaskURLWithContest contest pid))"

definition parseLuoGu :: "string \<Rightarrow> string + parsed" where
  "parseLuoGu problem =
     (case (case reLuoGuPID problem of
          Some (p, t) \<Rightarrow> Some (p, trim_space t)
        | None \<Rightarrow> (case str_fields problem of [] \<Rightarrow> None | p # ps \<Rightarrow> Some (p, if ps = [] then p else join_sp ps))) of
       None \<Rightarrow> Inl ''luogu empty''
     | Some (pid0, title) \<Rightarrow>
         if \<not> reLuoGuBare pid0 then Inl ''luogu invalid pid''
         else (let pid = normalizeLuoGuPID pid0
               in found LuoGu pid (if title = '''' then pid else title) (''https://www.luogu.com.cn/problem/'' @ pid)))"

text \<open>The steps of \<^verbatim>\<open>parseNowCoder\<close>: identifier, title, and whether it is one of the main site.\<close>

definition nowcoder_token :: "string \<Rightarrow> string \<Rightarrow> (string \<times> string \<times> bool) option" where
  "nowcoder_token tok title =
     (if normalizeNowCoderUUID tok \<noteq> '''' then Some (normalizeNowCoderUUID tok, title, True)
      else if reDigits tok then Some (tok, title, False) else None)"

definition nowcoder_id :: "string \<Rightarrow> (string \<times> string \<times> bool) option" where
  "nowcoder_id problem =
     (let practice = (case find_link reNowCoderPracticeURL problem of None \<Rightarrow> ''''
            | Some u \<Rightarrow> normalizeNowCoderUUID u)
      in if practice \<noteq> '''' then Some (practice, trim_space (remove_links reNowCoderPracticeURL problem), True)
         else (case find_link reNowCoderProblemURL problem of
             Some n \<Rightarrow> Some (n, trim_space (remove_links reNowCoderProblemURL problem), False)
           | None \<Rightarrow>
              (case (case str_fields problem of [] \<Rightarrow> None | f # fs \<Rightarrow>
                  nowcoder_token f (if fs \<noteq> [] then join_sp fs
                    else if normalizeNowCoderUUID f \<noteq> '''' then normalizeNowCoderUUID f else f)) of
                 Some x \<Rightarrow> Some x
               | None \<Rightarrow> (let raw = trim_space problem in
                   nowcoder_token raw (if normalizeNowCoderUUID raw \<noteq> '''' then normalizeNowCoderUUID raw else raw)))))"

definition parseNowCoder :: "string \<Rightarrow> string \<Rightarrow> string + parsed" where
  "parseNowCoder contest problem =
     (case nowcoder_id problem of
        None \<Rightarrow> if reDigits (if str_contains contest ''|'' then '''' else contest) then Inl ''nowcoder contest problem without stable id''
          else Inl ''nowcoder missing problem id''
      | Some (ext, title, main) \<Rightarrow>
          found NowCoder ext (if title = '''' then ext else title)
            ((if main then ''https://www.nowcoder.com/practice/'' else ''https://ac.nowcoder.com/acm/problem/'') @ ext))"

definition parseQOJ :: "string \<Rightarrow> string + parsed" where
  "parseQOJ problem0 =
     (let problem = trim_space problem0;
          ext = (case first_number problem of Some n \<Rightarrow> n | None \<Rightarrow> sanitizeExternalID problem)
      in if ext = '''' then Inl ''qoj parse fail''
         else found QOJ ext (cleanQOJSubmitTitle problem ext) (''https://qoj.ac/problem/'' @ ext))"

text \<open>The common part of LOJ, UOJ and POJ.\<close>

definition numbered :: "string \<Rightarrow> string" where
  "numbered problem = (case first_number problem of Some n \<Rightarrow> n
     | None \<Rightarrow> if reDigits (trim_space problem) then trim_space problem else '''')"

definition parseLOJ :: "string \<Rightarrow> string + parsed" where
  "parseLOJ problem = (let ext = numbered problem; title = trim_space problem in
     if ext = '''' then Inl ''loj parse fail''
     else found LOJ ext (if title = '''' then ext else title) (''https://loj.ac/p/'' @ ext))"

definition parseUOJ :: "string \<Rightarrow> string + parsed" where
  "parseUOJ problem = (let ext = numbered problem; title = trim_space problem in
     if ext = '''' then Inl ''uoj parse fail''
     else found UOJ ext (if title = '''' then ext else title) (''https://uoj.ac/problem/'' @ ext))"

definition parsePOJ :: "string \<Rightarrow> string + parsed" where
  "parsePOJ problem = (let ext = numbered problem; title = trim_space problem in
     if ext = '''' then Inl ''poj parse fail''
     else found POJ ext
       (if title = '''' \<or> title = ext then CHR ''#'' # ext
        else if \<not> has_prefix title ''#'' \<and> reDigits title then CHR ''#'' # title else title)
       (''http://poj.org/problem?id='' @ ext))"

definition before_slash :: "string \<Rightarrow> string" where
  "before_slash s = takeWhile (\<lambda>c. c \<noteq> CHR ''/'') s"

definition parseLeetCode :: "string \<Rightarrow> string + parsed" where
  "parseLeetCode problem0 =
     (let problem = trim_space problem0;
          ok = (\<lambda>slug title. found LeetCode slug title (''https://leetcode.cn/problems/'' @ slug @ ''/''))
      in if problem = '''' \<or> problem = ''leetcode-submit'' \<or> has_prefix problem ''lc-ac-problem-'' then Inl ''skip problem bank''
         else (let slug = (case str_index problem ''leetcode.cn/problems/'' of None \<Rightarrow> ''''
                  | Some i \<Rightarrow> trim_space (before_slash (drop (i + 21) problem)))
           in if reLeetCodeSlug slug then ok slug slug
              else (case str_fields problem of
                  [] \<Rightarrow> Inl ''leetcode empty problem''
                | f # fs \<Rightarrow> if \<not> reLeetCodeSlug f then Inl ''leetcode missing titleSlug''
                    else ok f (if fs = [] then f else join_sp fs))))"

definition ParseProblemIdentity :: "string \<Rightarrow> string \<Rightarrow> string \<Rightarrow> string + parsed" where
  "ParseProblemIdentity platform0 contest0 problem0 =
     (let platform = trim_space platform0; contest = trim_space contest0; problem = trim_space problem0 in
      if platform = '''' \<or> problem = '''' then Inl ''empty platform or problem''
      else if platform = CodeForces then parseCodeforces contest problem
      else if platform = AtCoder then parseAtCoder contest problem
      else if platform = LuoGu then parseLuoGu problem
      else if platform = NowCoder then parseNowCoder contest problem
      else if platform = QOJ then parseQOJ problem
      else if platform = LOJ then parseLOJ problem
      else if platform = UOJ then parseUOJ problem
      else if platform = POJ then parsePOJ problem
      else if platform = LeetCode then parseLeetCode problem
      else (let ext = sanitizeExternalID problem in
        if ext = '''' then Inl ''unsupported platform'' else found platform ext problem ''''))"

end
