(* ===== verification/ContestWindow.thy ===== *)
theory ContestWindow
  imports SubmitModel Tables ProblemIdentity
begin

text \<open>
  When a contest began and ended: \<^verbatim>\<open>app/core_data/internal/biz/service/contest_infer.go\<close> (up to
  \<^verbatim>\<open>BatchContestDisplayTimes\<close>), \<^verbatim>\<open>contest_display_window.go\<close>, \<^verbatim>\<open>contest_nowcoder_calendar.go\<close> and the
  upsert of \<^verbatim>\<open>data/dal/contest_calendar.go\<close>. A window comes from the calendar table, from NowCoder's contest page
  (the parameter \<open>fetch\<close>: begin and end in seconds and a name, or nothing), from the time stored with a
  participation, or from the earliest accepted submission. The read path never fetches: it queues
  a background job. The lemmas relate the window shown to users with the one that submissions are
  matched against.
\<close>

subsection \<open>Tables\<close>

record ContestCalendar =
  cc_ID :: nat
  cc_Platform :: string
  cc_PlatformName :: string
  cc_ExternalID :: string
  cc_Name :: string
  cc_URL :: string
  cc_StartTime :: int
  cc_EndTime :: int
  cc_Source :: string
  cc_IconURL :: string

record ContestLog =
  cl_ID :: nat
  cl_Platform :: string
  cl_UserID :: int
  cl_ContestId :: string
  cl_ContestName :: string
  cl_ContestUrl :: string
  cl_Rank :: int
  cl_TotalCount :: int
  cl_AcCount :: int
  cl_Time :: int
  cl_EndTime :: int

record ContestProblem =
  cp_Platform :: string
  cp_ContestID :: string
  cp_Label :: string
  cp_SortOrder :: int
  cp_ExternalID :: string
  cp_Title :: string

record ContestUserProblem =
  cu_Platform :: string
  cu_ContestID :: string
  cu_UserID :: int
  cu_Label :: string
  cu_ExternalID :: string
  cu_Status :: string
  cu_Attempts :: int
  cu_FirstACAt :: "int option"
  cu_RelativeSec :: "int option"
  cu_ScoreDelta :: int

text \<open>An entry of the window memo, and a job of the background filler.\<close>

record window_memo =
  wm_start :: int
  wm_end :: int
  wm_ok :: bool
  wm_at :: int

record backfill_job =
  bj_cid :: string
  bj_name :: string
  bj_url :: string
  bj_start :: int
  bj_end :: int

record contests =
  calendars :: "ContestCalendar list"
  next_calendar :: nat
  contest_logs :: "ContestLog list"
  contest_problems :: "ContestProblem list"
  user_problems :: "ContestUserProblem list"
  submits :: "SubmitLog list"
  contestWindowMemo :: "(string \<times> window_memo) list"
  ncBackfillAttempt :: "(string \<times> int) list"
  ncBackfillInflight :: "string list"
  jobs :: "backfill_job list"

text \<open>\<^verbatim>\<open>ORDER BY ... LIMIT 1\<close>, and the matcher of \<^verbatim>\<open>LIKE\<close>: an underscore takes one character of the
  UTF-8 text, a backslash makes the next character literal.\<close>

definition first_by :: "('a \<Rightarrow> 'b::linorder) \<Rightarrow> 'a list \<Rightarrow> 'a option" where
  "first_by f xs = (case sort_key f xs of [] \<Rightarrow> None | x # _ \<Rightarrow> Some x)"

definition utf8_tail :: "char \<Rightarrow> bool" where
  "utf8_tail c \<longleftrightarrow> 128 \<le> (of_char c :: nat) \<and> (of_char c :: nat) < 192"

fun like :: "string \<Rightarrow> string \<Rightarrow> bool" where
  "like [] s = (s = [])"
| "like (c # p) [] = (c = CHR ''%'' \<and> like p [])"
| "like (c # p) (x # s) =
     (if c = CHR ''%'' then like p (x # s) \<or> like (c # p) s
      else if c = CHR ''_'' then like p (dropWhile utf8_tail s)
      else if c = CHR 0x5C then (case p of [] \<Rightarrow> False | q # p' \<Rightarrow> x = q \<and> like p' s)
      else x = c \<and> like p s)"

subsection \<open>Platforms\<close>

definition zh_niuke :: string where
  "zh_niuke = [CHR 0xE7, CHR 0x89, CHR 0x9B, CHR 0xE5, CHR 0xAE, CHR 0xA2]"
definition zh_likou :: string where
  "zh_likou = [CHR 0xE5, CHR 0x8A, CHR 0x9B, CHR 0xE6, CHR 0x89, CHR 0xA3]"
definition zh_luogu :: string where
  "zh_luogu = [CHR 0xE6, CHR 0xB4, CHR 0x9B, CHR 0xE8, CHR 0xB0, CHR 0xB7]"

definition defaultContestDuration :: "string \<Rightarrow> int" where
  "defaultContestDuration p =
     (if p = CodeForces then 2 * hour_ns else if p = AtCoder then 100 * minute_ns
      else if p = NowCoder then 3 * hour_ns else if p = LeetCode then 90 * minute_ns
      else if p = LuoGu then 3 * hour_ns else if p = QOJ then 5 * hour_ns else 0)"

definition contestInferEndBuffer :: int where "contestInferEndBuffer = 15 * minute_ns"
definition contestInferSubmitLimit :: nat where "contestInferSubmitLimit = 8000"
definition contestUpsolveMaxHorizon :: int where "contestUpsolveMaxHorizon = 30 * 24 * hour_ns"

definition add_alias :: "string \<Rightarrow> string list \<Rightarrow> string list" where
  "add_alias s0 out = (let s = trim_space s0 in if s = '''' \<or> s \<in> set out then out else out @ [s])"

definition calendarPlatformAliases :: "string \<Rightarrow> string list" where
  "calendarPlatformAliases platform0 =
     (let platform = trim_space platform0; l = to_lower platform in
      if platform = '''' then []
      else fold add_alias
        ([platform, l] @
         (if l = ''atcoder'' then [AtCoder, ''atcoder'']
          else if l \<in> {''codeforces'', ''cf''} then [CodeForces, ''Codeforces'', ''codeforces'']
          else if l \<in> {''nowcoder'', zh_niuke} then [NowCoder, ''nowcoder'']
          else if l \<in> {''leetcode'', zh_likou} then [LeetCode, ''leetcode'']
          else if l \<in> {''luogu'', zh_luogu} then [LuoGu, ''luogu'']
          else if l = ''qoj'' then [QOJ, ''qoj''] else [])) [])"

definition NormalizeCalendarPlatform :: "string \<Rightarrow> string" where
  "NormalizeCalendarPlatform raw =
     (let l = to_lower (trim_space raw) in
      if l = ''atcoder'' then AtCoder else if l \<in> {''codeforces'', ''cf''} then CodeForces
      else if l = ''nowcoder'' then NowCoder else if l = ''leetcode'' then LeetCode
      else if l = ''luogu'' then LuoGu else if l = ''qoj'' then QOJ else trim_space raw)"

text \<open>The calendar crawler has its own spelling of it, with three more platforms.\<close>

definition calNormalizePlatform :: "string \<Rightarrow> string" where
  "calNormalizePlatform raw =
     (let l = to_lower (trim_space raw) in
      if l = ''loj'' then LOJ else if l = ''uoj'' then UOJ else if l = ''poj'' then POJ
      else NormalizeCalendarPlatform raw)"

definition platformDuration :: "string \<Rightarrow> int" where
  "platformDuration platform =
     (let d1 = defaultContestDuration (trim_space platform);
          d2 = (if d1 \<le> 0 then defaultContestDuration (NormalizeCalendarPlatform platform) else d1)
      in if d2 \<le> 0 then 5 * hour_ns else d2)"

definition hintAsContestEnd :: "string \<Rightarrow> bool" where
  "hintAsContestEnd platform \<longleftrightarrow> NormalizeCalendarPlatform platform = AtCoder"

definition windowFromHint :: "string \<Rightarrow> int \<Rightarrow> bool \<Rightarrow> int \<times> int" where
  "windowFromHint platform hintTime withEndBuffer =
     (if is_zero_time hintTime then (zero_time, zero_time)
      else
        let dur = platformDuration platform; plat = NormalizeCalendarPlatform platform;
            w = (if plat = AtCoder \<or> hintAsContestEnd platform then (hintTime - dur, hintTime)
                 else if plat = CodeForces \<or> plat = ''Codeforces'' then (hintTime - (dur + 3 * hour_ns), hintTime)
                 else (hintTime, hintTime + dur))
        in (fst w, snd w + (if withEndBuffer then contestInferEndBuffer else 0)))"

definition calendarWindowValid :: "int \<Rightarrow> int \<Rightarrow> bool" where
  "calendarWindowValid s e \<longleftrightarrow> \<not> is_zero_time s \<and> s < e"

subsection \<open>The calendar\<close>

definition lookupContestCalendar :: "contests \<Rightarrow> string \<Rightarrow> string \<Rightarrow> ContestCalendar option" where
  "lookupContestCalendar db platform contestID0 =
     (if contestID0 = '''' then None
      else
        let contestID = trim_space contestID0; plats = calendarPlatformAliases platform in
        if plats = [] then None
        else
          let mine = filter (\<lambda>c. cc_Platform c \<in> set plats) (calendars db);
              pat = CHR ''%'' # contestID @ ''%'';
              cal = (case first_by cc_ID (filter (\<lambda>c. cc_ExternalID c = contestID) mine) of
                  Some c \<Rightarrow> Some c
                | None \<Rightarrow> first_by (\<lambda>c. - cc_StartTime c) (sort_key cc_ID
                    (filter (\<lambda>c. like pat (cc_ExternalID c) \<or> like pat (cc_URL c)) mine)))
          in (case cal of None \<Rightarrow> None | Some c \<Rightarrow> if 0 < cc_ID c \<and> 0 < cc_StartTime c then Some c else None))"

definition minContestFirstAC :: "contests \<Rightarrow> string \<Rightarrow> string \<Rightarrow> int option" where
  "minContestFirstAC db platform contestID =
     (if contestID = '''' then None
      else (case List.map_filter cu_FirstACAt
          (filter (\<lambda>c. cu_Platform c \<in> set (calendarPlatformAliases platform) \<and> cu_ContestID c = contestID) (user_problems db)) of
          [] \<Rightarrow> None
        | t # ts \<Rightarrow> (let m = fold min ts t in if is_zero_time m then None else Some m)))"

text \<open>\<^verbatim>\<open>UpsertItems\<close>: a row of the same platform and contest is overwritten, then the rows under the old
  lower-case platform names are renamed, or dropped where the proper name has the contest too.\<close>

definition same_calendar :: "ContestCalendar \<Rightarrow> ContestCalendar \<Rightarrow> bool" where
  "same_calendar a b \<longleftrightarrow> cc_Platform a = cc_Platform b \<and> cc_ExternalID a = cc_ExternalID b"

definition upsert_calendar :: "ContestCalendar \<Rightarrow> contests \<Rightarrow> contests" where
  "upsert_calendar r db =
     (if \<exists>c\<in>set (calendars db). same_calendar c r
      then db\<lparr>calendars := map (\<lambda>c. if same_calendar c r then r\<lparr>cc_ID := cc_ID c\<rparr> else c) (calendars db)\<rparr>
      else db\<lparr>calendars := calendars db @ [r\<lparr>cc_ID := next_calendar db\<rparr>], next_calendar := Suc (next_calendar db)\<rparr>)"

definition legacyPlatformPairs :: "(string \<times> string) list" where
  "legacyPlatformPairs = [(''atcoder'', AtCoder), (''codeforces'', CodeForces), (''nowcoder'', NowCoder),
     (''leetcode'', LeetCode), (''luogu'', LuoGu), (''qoj'', QOJ)]"

definition NormalizeLegacyPlatformNames :: "ContestCalendar list \<Rightarrow> ContestCalendar list" where
  "NormalizeLegacyPlatformNames cals =
     fold (\<lambda>(from, to) cs. filter (\<lambda>c. cc_Platform c \<noteq> from)
        (map (\<lambda>c. if cc_Platform c = from \<and> \<not> (\<exists>x\<in>set cs. cc_Platform x = to \<and> cc_ExternalID x = cc_ExternalID c)
                   then c\<lparr>cc_Platform := to\<rparr> else c) cs)) legacyPlatformPairs cals"

definition calendar_row :: "ContestCalendar \<Rightarrow> ContestCalendar" where
  "calendar_row it = (let plat = calNormalizePlatform (cc_Platform it); nm = trim_space (cc_PlatformName it)
     in it\<lparr>cc_Platform := plat, cc_PlatformName := (if nm = '''' then plat else nm)\<rparr>)"

definition UpsertItems :: "ContestCalendar list \<Rightarrow> contests \<Rightarrow> (contests \<times> nat) option" where
  "UpsertItems items db =
     (let rows = map calendar_row (filter (\<lambda>it. cc_Platform it \<noteq> '''' \<and> cc_ExternalID it \<noteq> '''') items) in
      if rows = [] then Some (db, 0)
      else if list_all (\<lambda>st. distinct (map (\<lambda>r. (cc_Platform r, cc_ExternalID r)) st)) (chunks 50 rows)
      then let db' = fold upsert_calendar rows db
           in Some (db'\<lparr>calendars := NormalizeLegacyPlatformNames (calendars db')\<rparr>, length rows)
      else None)"

subsection \<open>The memo of windows\<close>

definition contestWindowMemoKey :: "string \<Rightarrow> string \<Rightarrow> string" where
  "contestWindowMemoKey platform contestID = NormalizeCalendarPlatform platform @ [CHR 0x00] @ trim_space contestID"

definition drop_key :: "'k \<Rightarrow> ('k \<times> 'v) list \<Rightarrow> ('k \<times> 'v) list" where
  "drop_key k kvs = filter (\<lambda>kv. fst kv \<noteq> k) kvs"

definition loadContestWindowMemo :: "int \<Rightarrow> string \<Rightarrow> string \<Rightarrow> contests \<Rightarrow> contests \<times> window_memo option" where
  "loadContestWindowMemo now platform contestID w =
     (let key = contestWindowMemoKey platform contestID in
      case map_of (contestWindowMemo w) key of
        None \<Rightarrow> (w, None)
      | Some e \<Rightarrow>
          if (if wm_ok e then 10 * minute_ns else 2 * minute_ns) \<le> now - wm_at e
          then (w\<lparr>contestWindowMemo := drop_key key (contestWindowMemo w)\<rparr>, None)
          else (w, Some e))"

definition storeContestWindowMemo :: "int \<Rightarrow> string \<Rightarrow> string \<Rightarrow> (int \<times> int) option \<Rightarrow> contests \<Rightarrow> contests" where
  "storeContestWindowMemo now platform contestID r w =
     (let key = contestWindowMemoKey platform contestID;
          e = (case r of None \<Rightarrow> \<lparr>wm_start = 0, wm_end = 0, wm_ok = False, wm_at = now\<rparr>
             | Some (s, t) \<Rightarrow> \<lparr>wm_start = s div second_ns, wm_end = t div second_ns, wm_ok = True, wm_at = now\<rparr>);
          m = (if 4096 \<le> length (contestWindowMemo w) then [] else contestWindowMemo w)
      in w\<lparr>contestWindowMemo := (key, e) # drop_key key m\<rparr>)"

definition ForgetContestDisplayWindow :: "string \<Rightarrow> string \<Rightarrow> contests \<Rightarrow> contests" where
  "ForgetContestDisplayWindow platform contestID w =
     w\<lparr>contestWindowMemo := drop_key (contestWindowMemoKey platform contestID) (contestWindowMemo w)\<rparr>"

subsection \<open>NowCoder\<close>

type_synonym page = "string \<Rightarrow> (int \<times> int \<times> string) option"

definition nowCoderHintsFromLogs :: "contests \<Rightarrow> string \<Rightarrow> int \<Rightarrow> string \<times> string \<times> int \<times> int" where
  "nowCoderHintsFromLogs db contestID hintStart =
     (if contestID = '''' then ('''', '''', zero_time, hintStart)
      else (case first_by (\<lambda>l. - cl_Time l) (sort_key cl_ID
          (filter (\<lambda>l. cl_Platform l \<in> set (calendarPlatformAliases NowCoder) \<and> cl_ContestId l = contestID) (contest_logs db))) of
          None \<Rightarrow> ('''', '''', zero_time, hintStart)
        | Some l \<Rightarrow> (cl_ContestName l, cl_ContestUrl l, zero_time,
            if is_zero_time hintStart \<and> \<not> is_zero_time (cl_Time l) then cl_Time l else hintStart)))"

definition UpsertNowCoderContestCalendar :: "string \<Rightarrow> string \<Rightarrow> string \<Rightarrow> int \<Rightarrow> int \<Rightarrow> contests \<Rightarrow> contests option" where
  "UpsertNowCoderContestCalendar contestID name url startSec endSec w =
     (if contestID = '''' \<or> startSec \<le> 0 \<or> endSec \<le> startSec then Some w
      else
        let it = \<lparr>cc_ID = 0, cc_Platform = NowCoder, cc_PlatformName = zh_niuke, cc_ExternalID = trim_space contestID,
              cc_Name = (if name = '''' then ''NowCoder '' @ contestID else name),
              cc_URL = (if url = '''' then ''https://ac.nowcoder.com/acm/contest/'' @ contestID else url),
              cc_StartTime = startSec, cc_EndTime = endSec, cc_Source = ''nowcoder'', cc_IconURL = ''''\<rparr>
        in map_option (\<lambda>(w', _). ForgetContestDisplayWindow NowCoder contestID w') (UpsertItems [it] w))"

definition nowCoderHasOfficialCalendar :: "contests \<Rightarrow> string \<Rightarrow> bool" where
  "nowCoderHasOfficialCalendar db contestID =
     (case lookupContestCalendar db NowCoder contestID of None \<Rightarrow> False
      | Some c \<Rightarrow> \<not> (cc_StartTime c \<le> 0 \<or> cc_EndTime c \<le> cc_StartTime c) \<and> cc_Source c = ''nowcoder'')"

definition nowCoderHasAnyValidCalendar :: "contests \<Rightarrow> string \<Rightarrow> bool" where
  "nowCoderHasAnyValidCalendar db contestID =
     (case lookupContestCalendar db NowCoder contestID of None \<Rightarrow> False
      | Some c \<Rightarrow> 0 < cc_StartTime c \<and> cc_StartTime c < cc_EndTime c)"

definition stored_times :: "contests \<Rightarrow> string \<Rightarrow> (int \<times> int) option" where
  "stored_times db contestID =
     map_option (\<lambda>c. (cc_StartTime c * second_ns, cc_EndTime c * second_ns)) (lookupContestCalendar db NowCoder contestID)"

text \<open>The page is asked for only when neither the history nor the table knows the end.\<close>

definition page_times :: "page \<Rightarrow> string \<Rightarrow> string \<Rightarrow> string \<Rightarrow> contests \<Rightarrow> contests \<times> (int \<times> int) option" where
  "page_times fetch contestID name url w =
     (case fetch contestID of None \<Rightarrow> (w, None)
      | Some (s, e, pageName) \<Rightarrow>
          (case UpsertNowCoderContestCalendar contestID (if name = '''' then pageName else name) url s e w of None \<Rightarrow> w | Some w' \<Rightarrow> w',
           Some (s * second_ns, e * second_ns)))"

definition EnsureNowCoderContestCalendar ::
  "page \<Rightarrow> string \<Rightarrow> string \<Rightarrow> string \<Rightarrow> int \<Rightarrow> int \<Rightarrow> contests \<Rightarrow> contests \<times> (int \<times> int) option" where
  "EnsureNowCoderContestCalendar fetch contestID0 name url hintStart hintEnd w =
     (let contestID = trim_space contestID0 in
      if contestID = '''' then (w, None)
      else
        let history = (if \<not> is_zero_time hintStart \<and> hintStart < hintEnd
              then UpsertNowCoderContestCalendar contestID name url (hintStart div second_ns) (hintEnd div second_ns) w else None)
        in (case history of
            Some w' \<Rightarrow> (w', Some (hintStart, hintEnd))
          | None \<Rightarrow>
              if nowCoderHasOfficialCalendar w contestID \<or> nowCoderHasAnyValidCalendar w contestID \<and> is_zero_time hintEnd
              then (w, stored_times w contestID)
              else page_times fetch contestID name url w))"

text \<open>Jobs of the background filler: a contest is claimed unless a job for it runs or was tried in the
  last half hour; one call queues at most eight.\<close>

definition ncBackfillClaim :: "int \<Rightarrow> string \<Rightarrow> contests \<Rightarrow> contests option" where
  "ncBackfillClaim now cid w =
     (if cid \<in> set (ncBackfillInflight w) then None
      else if (case map_of (ncBackfillAttempt w) cid of None \<Rightarrow> False | Some t0 \<Rightarrow> now - t0 < 30 * minute_ns) then None
      else
        let a = (if 4096 \<le> length (ncBackfillAttempt w) then [] else ncBackfillAttempt w)
        in Some (w\<lparr>ncBackfillAttempt := (cid, now) # drop_key cid a, ncBackfillInflight := cid # ncBackfillInflight w\<rparr>))"

definition ncBackfillRelease :: "string \<Rightarrow> contests \<Rightarrow> contests" where
  "ncBackfillRelease cid w = w\<lparr>ncBackfillInflight := filter (\<lambda>c. c \<noteq> cid) (ncBackfillInflight w)\<rparr>"

fun schedule_loop :: "int \<Rightarrow> nat \<Rightarrow> string list \<Rightarrow> ContestLog list \<Rightarrow> contests \<Rightarrow> contests" where
  "schedule_loop now queued seen [] w = w"
| "schedule_loop now queued seen (l # ls) w =
     (let cid = trim_space (cl_ContestId l) in
      if 8 \<le> queued then w
      else if NormalizeCalendarPlatform (cl_Platform l) \<noteq> NowCoder \<or> cid = '''' \<or> cid \<in> set seen then schedule_loop now queued seen ls w
      else (case ncBackfillClaim now cid w of
          None \<Rightarrow> schedule_loop now queued (cid # seen) ls w
        | Some w' \<Rightarrow> schedule_loop now (Suc queued) (cid # seen) ls
            (w'\<lparr>jobs := jobs w' @ [\<lparr>bj_cid = cid, bj_name = cl_ContestName l, bj_url = cl_ContestUrl l, bj_start = cl_Time l, bj_end = cl_EndTime l\<rparr>]\<rparr>)))"

definition scheduleNowCoderCalendarBackfill :: "int \<Rightarrow> ContestLog list \<Rightarrow> contests \<Rightarrow> contests" where
  "scheduleNowCoderCalendarBackfill now logs w = schedule_loop now 0 [] logs w"

text \<open>The body of a job, and its release.\<close>

definition backfill_hints :: "contests \<Rightarrow> backfill_job \<Rightarrow> backfill_job" where
  "backfill_hints db j =
     (if bj_name j = '''' \<or> bj_url j = '''' \<or> is_zero_time (bj_start j)
      then (case nowCoderHintsFromLogs db (bj_cid j) (bj_start j) of (n, u, e, s) \<Rightarrow>
          j\<lparr>bj_name := (if bj_name j = '''' then n else bj_name j), bj_url := (if bj_url j = '''' then u else bj_url j),
            bj_start := s, bj_end := (if is_zero_time (bj_end j) then e else bj_end j)\<rparr>)
      else j)"

definition run_backfill :: "page \<Rightarrow> backfill_job \<Rightarrow> contests \<Rightarrow> contests" where
  "run_backfill fetch j w =
     ncBackfillRelease (bj_cid j)
      (if nowCoderHasAnyValidCalendar w (bj_cid j) \<and> is_zero_time (bj_end j) then ForgetContestDisplayWindow NowCoder (bj_cid j) w
       else let k = backfill_hints w j in
         (case EnsureNowCoderContestCalendar fetch (bj_cid k) (bj_name k) (bj_url k) (bj_start k) (bj_end k) w of
            (w', Some _) \<Rightarrow> ForgetContestDisplayWindow NowCoder (bj_cid j) w'
          | (w', None) \<Rightarrow> w'))"

text \<open>After a crawl of the participation history: the ends it states are all stored, then a limited
  number of pages is fetched for contests that have no calendar row.\<close>

fun history_pass :: "string list \<Rightarrow> ContestLog list \<Rightarrow> contests \<Rightarrow> contests" where
  "history_pass seen [] w = w"
| "history_pass seen (l # ls) w =
     (let cid = trim_space (cl_ContestId l) in
      if NormalizeCalendarPlatform (cl_Platform l) \<noteq> NowCoder \<or> cid = '''' \<or> cid \<in> set seen
         \<or> is_zero_time (cl_Time l) \<or> \<not> cl_Time l < cl_EndTime l
      then history_pass seen ls w
      else history_pass (cid # seen) ls
        (case UpsertNowCoderContestCalendar cid (cl_ContestName l) (cl_ContestUrl l) (cl_Time l div second_ns) (cl_EndTime l div second_ns) w of
           None \<Rightarrow> w | Some w' \<Rightarrow> w'))"

fun page_pass :: "page \<Rightarrow> nat \<Rightarrow> nat \<Rightarrow> string list \<Rightarrow> ContestLog list \<Rightarrow> contests \<Rightarrow> contests" where
  "page_pass fetch pageCap pageN seen [] w = w"
| "page_pass fetch pageCap pageN seen (l # ls) w =
     (let cid = trim_space (cl_ContestId l) in
      if pageCap \<le> pageN then w
      else if NormalizeCalendarPlatform (cl_Platform l) \<noteq> NowCoder \<or> cid = '''' \<or> cid \<in> set seen
      then page_pass fetch pageCap pageN seen ls w
      else if nowCoderHasAnyValidCalendar w cid then page_pass fetch pageCap pageN (cid # seen) ls w
      else (case EnsureNowCoderContestCalendar fetch cid (cl_ContestName l) (cl_ContestUrl l) (cl_Time l) (cl_EndTime l) w of
          (w', r) \<Rightarrow> page_pass fetch pageCap (if r = None then pageN else Suc pageN) (cid # seen) ls w'))"

definition ensureNowCoderCalendarsFromContestLogs :: "page \<Rightarrow> ContestLog list \<Rightarrow> int \<Rightarrow> contests \<Rightarrow> contests" where
  "ensureNowCoderCalendarsFromContestLogs fetch logs pageCap w =
     page_pass fetch (nat (if pageCap \<le> 0 then 30 else pageCap)) 0 [] logs (history_pass [] logs w)"

subsection \<open>Windows\<close>

text \<open>The first step of all three resolvers, and the second: \<open>allow = Some fetch\<close> asks NowCoder in the
  foreground, \<open>None\<close> only queues a job.\<close>

definition calendar_window :: "contests \<Rightarrow> string \<Rightarrow> string \<Rightarrow> (int \<times> int) option" where
  "calendar_window db platform contestID =
     (case lookupContestCalendar db platform contestID of None \<Rightarrow> None
      | Some c \<Rightarrow>
          let cs = cc_StartTime c * second_ns;
              ce = (if cc_StartTime c < cc_EndTime c then cc_EndTime c * second_ns else cs + platformDuration platform)
          in if calendarWindowValid cs ce then Some (cs, ce) else None)"

definition participation :: "string \<Rightarrow> int \<Rightarrow> ContestLog" where
  "participation contestID t = \<lparr>cl_ID = 0, cl_Platform = NowCoder, cl_UserID = 0, cl_ContestId = contestID, cl_ContestName = '''',
     cl_ContestUrl = '''', cl_Rank = 0, cl_TotalCount = 0, cl_AcCount = 0, cl_Time = t, cl_EndTime = zero_time\<rparr>"

definition nowcoder_window :: "page option \<Rightarrow> int \<Rightarrow> string \<Rightarrow> string \<Rightarrow> int \<Rightarrow> contests \<Rightarrow> contests \<times> int \<times> (int \<times> int) option" where
  "nowcoder_window allow now platform contestID hintTime w =
     (if NormalizeCalendarPlatform platform = NowCoder \<and> contestID \<noteq> '''' then
        (case allow of
           Some fetch \<Rightarrow>
             (case nowCoderHintsFromLogs w contestID hintTime of (name, url, hintEnd, hint) \<Rightarrow>
                (case EnsureNowCoderContestCalendar fetch contestID name url hint hintEnd w of (w', r) \<Rightarrow> (w', hint, r)))
         | None \<Rightarrow> (scheduleNowCoderCalendarBackfill now [participation contestID hintTime] w, hintTime, None))
      else (w, hintTime, None))"

definition resolveContestDisplayWindow ::
  "page option \<Rightarrow> int \<Rightarrow> string \<Rightarrow> string \<Rightarrow> int \<Rightarrow> contests \<Rightarrow> contests \<times> (int \<times> int) option" where
  "resolveContestDisplayWindow allow now platform0 contestID0 hintTime w =
     (let platform = trim_space platform0; contestID = trim_space contestID0 in
      case calendar_window w platform contestID of
        Some r \<Rightarrow> (w, Some r)
      | None \<Rightarrow>
          (case nowcoder_window allow now platform contestID hintTime w of
             (w', _, Some r) \<Rightarrow> (w', Some r)
           | (w', hint, None) \<Rightarrow>
               (let h = windowFromHint platform hint False in
                if \<not> is_zero_time hint \<and> \<not> is_zero_time (fst h) then (w', Some h)
                else (case minContestFirstAC w' platform contestID of
                    Some m \<Rightarrow> (w', Some (m - 2 * minute_ns, m - 2 * minute_ns + platformDuration platform))
                  | None \<Rightarrow> (w', None)))))"

definition latest_log :: "contests \<Rightarrow> string \<Rightarrow> string \<Rightarrow> ContestLog option" where
  "latest_log db platform contestID = first_by (\<lambda>l. - cl_Time l) (sort_key cl_ID
     (filter (\<lambda>l. cl_Platform l \<in> set (calendarPlatformAliases platform) \<and> cl_ContestId l = contestID) (contest_logs db)))"

definition resolveContestWindow ::
  "page option \<Rightarrow> int \<Rightarrow> string \<Rightarrow> string \<Rightarrow> int \<Rightarrow> contests \<Rightarrow> contests \<times> int \<times> int" where
  "resolveContestWindow allow now platform0 contestID0 hintTime w =
     (let platform = trim_space platform0; contestID = trim_space contestID0 in
      case calendar_window w platform contestID of
        Some (s, e) \<Rightarrow> (w, s, e + contestInferEndBuffer)
      | None \<Rightarrow>
          (case nowcoder_window allow now platform contestID hintTime w of
             (w', _, Some (s, e)) \<Rightarrow> (w', s, e + contestInferEndBuffer)
           | (w', hint, None) \<Rightarrow>
               if \<not> is_zero_time hint then (w', windowFromHint platform hint True)
               else (case (if contestID = '''' then None else latest_log w' platform contestID) of
                   Some l \<Rightarrow> if is_zero_time (cl_Time l) then (w', now - platformDuration platform, now + contestInferEndBuffer)
                     else (w', windowFromHint platform (cl_Time l) True)
                 | None \<Rightarrow> (w', now - platformDuration platform, now + contestInferEndBuffer))))"

abbreviation "ResolveContestWindowCached \<equiv> resolveContestWindow None"

definition ResolveContestDisplayWindowCached :: "int \<Rightarrow> string \<Rightarrow> string \<Rightarrow> int \<Rightarrow> contests \<Rightarrow> contests \<times> (int \<times> int) option" where
  "ResolveContestDisplayWindowCached now platform contestID hintTime w =
     (case loadContestWindowMemo now platform contestID w of
        (w', Some e) \<Rightarrow> (w', if wm_ok e then Some (wm_start e * second_ns, wm_end e * second_ns) else None)
      | (w', None) \<Rightarrow>
          (case resolveContestDisplayWindow None now platform contestID hintTime w' of
             (w'', r) \<Rightarrow> (storeContestWindowMemo now platform contestID r w'', r)))"

subsection \<open>The windows of a page of contests\<close>

text \<open>Go maps are association lists here; the code reads them out in no particular order.\<close>

definition needed :: "ContestLog list \<Rightarrow> ((string \<times> string) \<times> ContestLog) list" where
  "needed logs = collect_all (\<lambda>old new. old) (map (\<lambda>l. ((cl_Platform l, cl_ContestId l), l)) logs)"

definition byPlat :: "((string \<times> string) \<times> ContestLog) list \<Rightarrow> (string \<times> string list) list" where
  "byPlat need = collect_all (@) (concat (map (\<lambda>((p, c), _). map (\<lambda>ap. (ap, [c])) (calendarPlatformAliases p)) need))"

definition calByExt :: "contests \<Rightarrow> (string \<times> string list) list \<Rightarrow> (string \<times> ContestCalendar) list" where
  "calByExt db plats =
     collect_all (\<lambda>prev cal. if cc_StartTime cal < cc_StartTime prev then cal else prev)
       (concat (map (\<lambda>(plat, ids). map (\<lambda>c. (trim_space (cc_ExternalID c), c))
          (filter (\<lambda>c. cc_Platform c = plat \<and> cc_ExternalID c \<in> set ids \<and> trim_space (cc_ExternalID c) \<noteq> '''') (calendars db))) plats))"

definition seconds_window :: "int \<times> int \<Rightarrow> int \<times> int" where
  "seconds_window w = (fst w div second_ns, snd w div second_ns)"

definition batch_calendar :: "string \<Rightarrow> ContestCalendar option \<Rightarrow> (int \<times> int) option" where
  "batch_calendar p cal = (case cal of None \<Rightarrow> None
     | Some c \<Rightarrow>
         let cs = cc_StartTime c * second_ns;
             ce = (if cc_EndTime c \<le> cc_StartTime c then cs + platformDuration p else cc_EndTime c * second_ns)
         in if 0 < cc_StartTime c \<and> calendarWindowValid cs ce then Some (seconds_window (cs, ce)) else None)"

fun batch_loop :: "int \<Rightarrow> (string \<times> ContestCalendar) list \<Rightarrow> ((string \<times> string) \<times> ContestLog) list \<Rightarrow> contests
    \<Rightarrow> contests \<times> (string \<times> int \<times> int) list \<times> ContestLog list" where
  "batch_loop now cals [] w = (w, [], [])"
| "batch_loop now cals (((p, c), l) # need) w =
     (case batch_calendar p (map_of cals c) of
        Some r \<Rightarrow> (case batch_loop now cals need w of (w', out, back) \<Rightarrow> (w', (p @ [CHR 0x00] @ c, r) # out, back))
      | None \<Rightarrow>
          (case ResolveContestDisplayWindowCached now p c (cl_Time l) w of (w1, r) \<Rightarrow>
             (case batch_loop now cals need w1 of (w', out, back) \<Rightarrow>
                (w', (case r of None \<Rightarrow> out | Some x \<Rightarrow> (p @ [CHR 0x00] @ c, seconds_window x) # out),
                 if NormalizeCalendarPlatform p = NowCoder \<and> trim_space c \<noteq> '''' then l # back else back))))"

definition BatchContestDisplayTimes :: "int \<Rightarrow> ContestLog list \<Rightarrow> contests \<Rightarrow> contests \<times> (string \<times> int \<times> int) list" where
  "BatchContestDisplayTimes now logs w =
     (if logs = [] then (w, [])
      else let need = needed logs in
        (case batch_loop now (calByExt w (byPlat need)) need w of
           (w', out, back) \<Rightarrow> (scheduleNowCoderCalendarBackfill now back w', out)))"

subsection \<open>Lemmas\<close>

lemma zero_time_neg: "zero_time < 0"
  by (simp add: zero_time_def)

lemma platformDuration_pos: "0 < platformDuration p"
  by (simp add: platformDuration_def defaultContestDuration_def Let_def)

lemma windowFromHint_ordered:
  assumes "\<not> is_zero_time t"
  shows "fst (windowFromHint p t b) < snd (windowFromHint p t b)"
  using assms platformDuration_pos[of p] by (auto simp: windowFromHint_def Let_def contestInferEndBuffer_def)

lemma windowFromHint_buffer:
  assumes "\<not> is_zero_time t"
  shows "windowFromHint p t True = (fst (windowFromHint p t False), snd (windowFromHint p t False) + contestInferEndBuffer)"
  using assms by (auto simp: windowFromHint_def Let_def)

lemma calendar_window_ordered: "calendar_window db p c = Some (s, e) \<Longrightarrow> s < e \<and> 0 < s"
  by (auto simp: calendar_window_def calendarWindowValid_def lookupContestCalendar_def Let_def split: option.splits if_splits)

text \<open>Where the calendar knows the contest, no resolver asks, queues or remembers anything.\<close>

lemma calendar_first:
  assumes "calendar_window w (trim_space p) (trim_space c) = Some (s, e)"
  shows "resolveContestDisplayWindow allow now p c h w = (w, Some (s, e))"
    and "resolveContestWindow allow now p c h w = (w, s, e + contestInferEndBuffer)"
  using assms by (simp_all add: resolveContestDisplayWindow_def resolveContestWindow_def Let_def)

lemma platformDuration_le: "platformDuration p \<le> 5 * hour_ns"
  by (simp add: platformDuration_def defaultContestDuration_def Let_def)

lemma hint_start_nonzero:
  assumes "0 \<le> t"
  shows "\<not> is_zero_time t" "\<not> is_zero_time (fst (windowFromHint p t b))"
  using assms platformDuration_le[of p] by (auto simp: windowFromHint_def Let_def is_zero_time_def zero_time_def)

text \<open>With the same permission to fetch, what is matched against submissions is what the display resolver finds, a
  quarter of an hour longer, whenever the calendar has the contest or the participation has a time after 1970: both
  resolvers then take the same source, fetch the same pages and leave the same tables, memo and jobs.\<close>

lemma windows_agree:
  assumes shown: "resolveContestDisplayWindow allow now p c h w = (w', Some (s, e))"
    and known: "calendar_window w (trim_space p) (trim_space c) \<noteq> None \<or> 0 \<le> h"
  shows "resolveContestWindow allow now p c h w = (w', s, e + contestInferEndBuffer)"
proof (cases "calendar_window w (trim_space p) (trim_space c)")
  case None
  obtain w1 h1 r where nw: "nowcoder_window allow now (trim_space p) (trim_space c) h w = (w1, h1, r)" by (rule prod_cases3)
  have h: "0 \<le> h" using known None by simp
  have "h1 = h"
    using nw hint_start_nonzero(1)[OF h]
    by (auto simp: nowcoder_window_def nowCoderHintsFromLogs_def split: if_splits option.splits prod.splits)
  then show ?thesis
    using shown nw None hint_start_nonzero[OF h] windowFromHint_buffer[of h1 "trim_space p"]
    by (auto simp: resolveContestDisplayWindow_def resolveContestWindow_def Let_def split: option.splits if_splits)
qed (use assms in \<open>auto simp: calendar_first\<close>)

text \<open>The window of a resolved contest never ends before it begins, whichever source it comes from,
  as long as the page states an end after the beginning.\<close>

lemma stored_times_official:
  assumes "nowCoderHasOfficialCalendar w c \<or> nowCoderHasAnyValidCalendar w c" "stored_times w c = Some (s, e)"
  shows "s < e"
  using assms by (auto simp: nowCoderHasOfficialCalendar_def nowCoderHasAnyValidCalendar_def stored_times_def split: option.splits)

lemma ensure_ordered:
  assumes "EnsureNowCoderContestCalendar fetch c name url hs he w = (w', Some (s, e))"
    and "\<And>x y z. fetch (trim_space c) = Some (x, y, z) \<Longrightarrow> x < y"
  shows "s < e"
  using assms stored_times_official[of w "trim_space c" s e]
  by (auto simp: EnsureNowCoderContestCalendar_def page_times_def Let_def split: if_splits option.splits prod.splits)

lemma window_ordered:
  assumes "resolveContestWindow allow now p c h w = (w', s, e)"
    and fetched: "\<And>fetch x y z. allow = Some fetch \<Longrightarrow> fetch (trim_space c) = Some (x, y, z) \<Longrightarrow> x < y"
  shows "s < e"
proof (cases "calendar_window w (trim_space p) (trim_space c)")
  case None
  obtain w1 h1 r where nw: "nowcoder_window allow now (trim_space p) (trim_space c) h w = (w1, h1, r)" by (rule prod_cases3)
  have r: "fst x < snd x" if "r = Some x" for x
    using nw that fetched ensure_ordered
    by (cases x) (fastforce simp: nowcoder_window_def split: if_splits option.splits prod.splits)
  have hint: "fst (windowFromHint q t b) < snd (windowFromHint q t b)" if "\<not> is_zero_time t" for q t b
    using that by (rule windowFromHint_ordered)
  have wide: "now - platformDuration (trim_space p) < now + contestInferEndBuffer"
    using platformDuration_pos[of "trim_space p"] by (simp add: contestInferEndBuffer_def)
  show ?thesis
    using assms(1) nw None r hint wide
    by (auto simp: resolveContestWindow_def Let_def contestInferEndBuffer_def split: option.splits if_splits)
       (metis fst_conv snd_conv)+
next
  case (Some x)
  obtain a b where ab: "x = (a, b)" by (cases x)
  then show ?thesis
    using assms(1) calendar_window_ordered[OF Some[unfolded ab]] calendar_first(2)[OF Some[unfolded ab]]
    by (simp add: contestInferEndBuffer_def)
qed

text \<open>The rows of one page share the calendar rows by the number of the contest alone: a contest of
  QOJ takes the time of the Codeforces round with the same number when that was earlier, although the
  table has its own.\<close>

definition sample_calendar :: "nat \<Rightarrow> string \<Rightarrow> string \<Rightarrow> int \<Rightarrow> int \<Rightarrow> ContestCalendar" where
  "sample_calendar i p c s e = \<lparr>cc_ID = i, cc_Platform = p, cc_PlatformName = p, cc_ExternalID = c, cc_Name = c, cc_URL = '''',
     cc_StartTime = s, cc_EndTime = e, cc_Source = ''cpolar'', cc_IconURL = ''''\<rparr>"

definition no_contests :: contests where
  "no_contests = \<lparr>calendars = [], next_calendar = 1, contest_logs = [], contest_problems = [], user_problems = [], submits = [],
     contestWindowMemo = [], ncBackfillAttempt = [], ncBackfillInflight = [], jobs = []\<rparr>"

lemma batch_mixes_platforms:
  "let w = no_contests\<lparr>calendars := [sample_calendar 1 CodeForces ''1900'' 1000 8200, sample_calendar 2 QOJ ''1900'' 90000 108000]\<rparr>;
       l = (\<lambda>p. (participation ''1900'' (95000 * second_ns))\<lparr>cl_Platform := p\<rparr>)
   in map_of (snd (BatchContestDisplayTimes 0 [l CodeForces, l QOJ] w)) (QOJ @ CHR 0x00 # ''1900'') = Some (1000, 8200)
      \<and> snd (resolveContestDisplayWindow None 0 QOJ ''1900'' (95000 * second_ns) w) = Some (90000 * second_ns, 108000 * second_ns)"
  by code_simp

text \<open>What a memo answers is found again: nothing of it depends on the tables or the hint.\<close>

lemma memo_hit:
  assumes "n < now + 10 * minute_ns"
  shows "snd (ResolveContestDisplayWindowCached n p c h2 (storeContestWindowMemo now p c (Some (s, e)) w))
    = Some (s div second_ns * second_ns, e div second_ns * second_ns)"
  using assms by (simp add: ResolveContestDisplayWindowCached_def storeContestWindowMemo_def loadContestWindowMemo_def Let_def)

lemma memo_miss_tables:
  assumes "loadContestWindowMemo now p c w = (w1, r)"
  shows "calendar_window w1 = calendar_window w"
  using assms by (auto simp: loadContestWindowMemo_def Let_def calendar_window_def lookupContestCalendar_def fun_eq_iff
      split: option.splits if_splits)

text \<open>C27: For a contest in the calendar, and off NowCoder for every participation that has a time, the window of
  the contest page and the window that submissions are matched against are the same, but for the quarter of an hour
  that late submissions get: whether the matcher may ask NowCoder's page or not, and whenever it runs. The page
  (\<^verbatim>\<open>ResolveContestDisplayWindowCached\<close>) takes the tables as they are when its memo has no fresh entry,
  and repeats that window in whole seconds for ten minutes. Not covered: a contest of NowCoder that is not yet in
  the calendar, which the page does not fetch, and lists of contests, whose batch resolver can confuse platforms
  (lemma \<^theory_text>\<open>batch_mixes_platforms\<close>).\<close>

theorem shown_window_is_matched:
  assumes shown: "ResolveContestDisplayWindowCached now p c h w = (w', Some (s, e))"
    and fresh: "snd (loadContestWindowMemo now p c w) = None"
    and known: "calendar_window w (trim_space p) (trim_space c) \<noteq> None \<or> NormalizeCalendarPlatform (trim_space p) \<noteq> NowCoder \<and> 0 \<le> h"
    and soon: "n < now + 10 * minute_ns"
  shows "snd (resolveContestWindow allow now2 p c h w) = (s, e + contestInferEndBuffer)
    \<and> snd (ResolveContestDisplayWindowCached n p c h2 w') = Some (s div second_ns * second_ns, e div second_ns * second_ns)"
proof -
  obtain w1 where m: "loadContestWindowMemo now p c w = (w1, None)" using fresh by (metis prod.collapse)
  obtain w2 where d: "resolveContestDisplayWindow None now p c h w1 = (w2, Some (s, e))"
      and w': "w' = storeContestWindowMemo now p c (Some (s, e)) w2"
    using shown by (auto simp: ResolveContestDisplayWindowCached_def m split: prod.splits)
  have cal: "calendar_window w1 = calendar_window w" by (rule memo_miss_tables[OF m])
  have "snd (resolveContestWindow allow now2 p c h w) = (s, e + contestInferEndBuffer)"
  proof (cases "calendar_window w (trim_space p) (trim_space c)")
    case None
    then have nn: "NormalizeCalendarPlatform (trim_space p) \<noteq> NowCoder" "0 \<le> h" using known by auto
    have no: "nowcoder_window al nw (trim_space p) (trim_space c) h v = (v, h, None)" for al nw v
      using nn(1) by (simp add: nowcoder_window_def)
    have "windowFromHint (trim_space p) h False = (s, e)"
      using d None hint_start_nonzero[OF nn(2)] by (auto simp: resolveContestDisplayWindow_def cal no Let_def)
    then show ?thesis
      using None hint_start_nonzero(1)[OF nn(2)] windowFromHint_buffer[of h "trim_space p"]
      by (simp add: resolveContestWindow_def no Let_def)
  next
    case (Some se)
    then show ?thesis using d by (cases se) (auto simp: resolveContestWindow_def resolveContestDisplayWindow_def cal Let_def)
  qed
  then show ?thesis using memo_hit[OF soon] unfolding w' by blast
qed

theorem shown_window_is_matched_witness:
  "snd (resolveContestWindow None 7 AtCoder ''abc300'' (95000 * second_ns) no_contests)
     = (89000 * second_ns, 95000 * second_ns + contestInferEndBuffer)"
proof -
  have "ResolveContestDisplayWindowCached 0 AtCoder ''abc300'' (95000 * second_ns) no_contests
      = (storeContestWindowMemo 0 AtCoder ''abc300'' (Some (89000 * second_ns, 95000 * second_ns)) no_contests,
         Some (89000 * second_ns, 95000 * second_ns))"
    "snd (loadContestWindowMemo 0 AtCoder ''abc300'' no_contests) = None"
    "NormalizeCalendarPlatform (trim_space AtCoder) \<noteq> NowCoder"
    by code_simp+
  from shown_window_is_matched[OF this(1,2), of 1] this(3) show ?thesis
    by simp
qed

end
