(* ===== verification/ContestCells.thy ===== *)
theory ContestCells
  imports ContestWindow
begin

text \<open>
  The cells of the contest board: \<^verbatim>\<open>app/core_data/internal/biz/service/contest_infer.go\<close> from
  \<^verbatim>\<open>loadContestProblemSet\<close> on, \<^verbatim>\<open>saveContestUserProblems\<close> and the loop over the participations in
  \<^verbatim>\<open>spider.go\<close>. A cell says how one user did on one problem of one contest; it is derived from the stored
  submissions that fall into the window of the contest, or after it, and merged with the stored cell. A Go
  map from users and problems to counters is an association list in the order of the first
  submission; the order in which the code reads it out does not matter to what is stored.
\<close>

subsection \<open>Problems of a contest\<close>

definition put_key :: "'k \<Rightarrow> 'v \<Rightarrow> ('k \<times> 'v) list \<Rightarrow> ('k \<times> 'v) list" where
  "put_key k v kvs = (k, v) # drop_key k kvs"

definition loadContestProblemSet :: "contests \<Rightarrow> string \<Rightarrow> string \<Rightarrow> (string \<times> string) list" where
  "loadContestProblemSet db platform contestID =
     fold (\<lambda>it out.
        let ext = trim_space (cp_ExternalID it); l0 = trim_space (cp_Label it); label = (if l0 = '''' then ext else l0)
        in if ext = '''' then out else put_key (to_lower ext) label (put_key ext label out))
       (filter (\<lambda>it. cp_Platform it = platform \<and> cp_ContestID it = contestID) (contest_problems db)) []"

definition label_in :: "(string \<times> string) list \<Rightarrow> string \<Rightarrow> string" where
  "label_in ps k = (case map_of ps k of None \<Rightarrow> '''' | Some l \<Rightarrow> l)"

definition is_letter :: "char \<Rightarrow> bool" where
  "is_letter c \<longleftrightarrow> lower_char c \<in> set ''abcdefghijklmnopqrstuvwxyz''"

definition shortLabelFromExt :: "string \<Rightarrow> string \<Rightarrow> string \<Rightarrow> string" where
  "shortLabelFromExt platform ext0 problem =
     (let ext = trim_space ext0;
          e = (if has_prefix (to_lower ext) ''gym'' then drop 3 ext else ext);
          index = dropWhile (\<lambda>c. \<not> is_letter c) e;
          task = (case last_underscore ext of None \<Rightarrow> '''' | Some i \<Rightarrow> drop (Suc i) ext);
          p = trim_space problem; i = length (takeWhile (\<lambda>c. c \<notin> {CHR '' '', CHR 0x09, CHR ''-''}) p)
      in if platform \<in> {CodeForces, ''Codeforces''} \<and> index \<noteq> '''' then index
         else if platform = AtCoder \<and> task \<noteq> '''' then to_upper task
         else if platform \<in> {NowCoder, QOJ, LuoGu} then ext
         else if i < length p \<and> 0 < i \<and> i \<le> 8 then take i p
         else if 12 < length ext then take 12 ext else ext)"

definition leadingDigits :: "string \<Rightarrow> string" where
  "leadingDigits s = takeWhile is_digit_char (trim_space s)"

definition firstNonEmpty :: "string \<Rightarrow> string \<Rightarrow> string" where
  "firstNonEmpty a b = (if trim_space a \<noteq> '''' then a else b)"

definition resolveSubmitExternal :: "string \<Rightarrow> string \<Rightarrow> string \<Rightarrow> string \<Rightarrow> string \<Rightarrow> string \<times> string" where
  "resolveSubmitExternal platform contestID contestField problem storedExt0 =
     (let storedExt = trim_space storedExt0 in
      if storedExt \<noteq> '''' \<and> \<not> has_prefix storedExt ''ac-'' then
        (let ext = (case ParseProblemIdentity platform (firstNonEmpty contestField contestID) problem of
               Inl _ \<Rightarrow> storedExt | Inr q \<Rightarrow> if pp_ExternalID q \<noteq> '''' then pp_ExternalID q else storedExt)
         in (ext, shortLabelFromExt platform ext problem))
      else
        let contestForParse = (if contestField = '''' \<or> contestField = ''leetcode'' then contestID else contestField);
            rest = (if platform = NowCoder \<and> leadingDigits problem \<noteq> '''' then (leadingDigits problem, leadingDigits problem)
              else if platform = LeetCode then
                (case str_fields problem of f # _ \<Rightarrow> if reLeetCodeSlug f then (f, f) else ('''', '''') | [] \<Rightarrow> ('''', ''''))
              else ('''', ''''))
        in (case ParseProblemIdentity platform contestForParse problem of
             Inr q \<Rightarrow> if pp_ExternalID q \<noteq> '''' then (pp_ExternalID q, shortLabelFromExt platform (pp_ExternalID q) problem) else rest
           | Inl _ \<Rightarrow> rest))"

subsection \<open>Which problem of the contest a submission is for\<close>

definition in_set :: "(string \<times> string) list \<Rightarrow> string \<Rightarrow> bool" where
  "in_set ps ext \<longleftrightarrow> map_of ps ext \<noteq> None \<or> map_of ps (to_lower ext) \<noteq> None"

definition names_contest :: "string \<Rightarrow> string \<Rightarrow> bool" where
  "names_contest contestID field =
     (let c = trim_space field in
      c \<noteq> '''' \<and> (c = contestID \<or> c = CHR ''-'' # contestID \<or> equal_fold c contestID \<or> str_contains c contestID))"

definition belongs :: "string \<Rightarrow> string \<Rightarrow> (string \<times> string) list \<Rightarrow> SubmitLog \<Rightarrow> bool" where
  "belongs platform contestID ps r =
     (let ext = fst (resolveSubmitExternal platform contestID (sl_contest r) (sl_problem r) (sl_external r)) in
      \<not> IsSyntheticSubmitForFeed platform (sl_submit_id r) \<and> ext \<noteq> '''' \<and> (in_set ps ext \<or> names_contest contestID (sl_contest r)))"

definition ext_of :: "string \<Rightarrow> string \<Rightarrow> SubmitLog \<Rightarrow> string" where
  "ext_of platform contestID r = fst (resolveSubmitExternal platform contestID (sl_contest r) (sl_problem r) (sl_external r))"

definition set_label :: "(string \<times> string) list \<Rightarrow> string \<Rightarrow> string \<Rightarrow> string" where
  "set_label ps ext label =
     (if label_in ps ext \<noteq> '''' then label_in ps ext
      else if label_in ps (to_lower ext) \<noteq> '''' then label_in ps (to_lower ext) else label)"

definition known_label :: "(string \<times> string) list \<Rightarrow> string \<Rightarrow> string \<Rightarrow> string" where
  "known_label ps ext label = (if label = '''' then (case map_of ps ext of Some l \<Rightarrow> l | None \<Rightarrow> ext) else label)"

text \<open>The label of the three loops. The first one asks the list of problems only for an identifier
  that is in it in lower case alone.\<close>

definition infer_label :: "string \<Rightarrow> string \<Rightarrow> (string \<times> string) list \<Rightarrow> SubmitLog \<Rightarrow> string" where
  "infer_label platform contestID ps r =
     (case resolveSubmitExternal platform contestID (sl_contest r) (sl_problem r) (sl_external r) of (ext, label) \<Rightarrow>
        known_label ps ext (if map_of ps ext = None \<and> map_of ps (to_lower ext) \<noteq> None then set_label ps ext label else label))"

definition upsolve_label :: "string \<Rightarrow> string \<Rightarrow> (string \<times> string) list \<Rightarrow> SubmitLog \<Rightarrow> string" where
  "upsolve_label platform contestID ps r =
     (case resolveSubmitExternal platform contestID (sl_contest r) (sl_problem r) (sl_external r) of (ext, label) \<Rightarrow>
        known_label ps ext (if in_set ps ext then set_label ps ext label else label))"

definition practice_label :: "string \<Rightarrow> string \<Rightarrow> (string \<times> string) list \<Rightarrow> SubmitLog \<Rightarrow> string" where
  "practice_label platform contestID ps r =
     (case resolveSubmitExternal platform contestID (sl_contest r) (sl_problem r) (sl_external r) of (ext, label) \<Rightarrow>
        (let l = set_label ps ext label in if l = '''' then ext else l))"

subsection \<open>Stored cells\<close>

abbreviation "ContestCellAC \<equiv> ''AC''"
abbreviation "ContestCellUpsolve \<equiv> ''UPSOLVE''"
abbreviation "ContestCellUpsolveTried \<equiv> ''UPSOLVE_TRIED''"
abbreviation "ContestCellTried \<equiv> ''TRIED''"
abbreviation "ContestCellNone \<equiv> ''NONE''"

definition ContestCellHasDetail :: "string \<Rightarrow> bool" where
  "ContestCellHasDetail st \<longleftrightarrow> st \<in> {ContestCellAC, ContestCellUpsolve, ContestCellUpsolveTried, ContestCellTried}"

definition cupKey :: "int \<Rightarrow> string \<Rightarrow> string" where
  "cupKey userID externalID = to_lower (trim_space externalID) @ CHR 0x00 # int_str userID"

definition loadContestUserProblemIndex :: "contests \<Rightarrow> string \<Rightarrow> string \<Rightarrow> int list \<Rightarrow> (string \<times> ContestUserProblem) list" where
  "loadContestUserProblemIndex db platform contestID userIDs =
     fold (\<lambda>r out. put_key (cupKey (cu_UserID r) (cu_ExternalID r)) r out)
       (filter (\<lambda>r. cu_Platform r = platform \<and> cu_ContestID r = contestID \<and> cu_UserID r \<in> set userIDs) (user_problems db)) []"

definition before :: "int option \<Rightarrow> int option \<Rightarrow> bool" where
  "before a b = (case a of None \<Rightarrow> False | Some x \<Rightarrow> (case b of None \<Rightarrow> True | Some y \<Rightarrow> x < y))"

definition isDirtyContestACForUpsolve :: "ContestUserProblem \<Rightarrow> ContestUserProblem \<Rightarrow> bool" where
  "isDirtyContestACForUpsolve prev nxt \<longleftrightarrow>
     cu_Status prev = ContestCellAC \<and> cu_RelativeSec prev = None
     \<and> \<not> (cu_FirstACAt nxt \<noteq> None \<and> before (cu_FirstACAt prev) (cu_FirstACAt nxt))"

text \<open>What three branches of \<^verbatim>\<open>mergeContestCellIncoming\<close> do with the first acceptance, the attempts and the label.\<close>

definition earlier_ac :: "ContestUserProblem \<Rightarrow> ContestUserProblem \<Rightarrow> ContestUserProblem" where
  "earlier_ac prev out = (if before (cu_FirstACAt prev) (cu_FirstACAt out) then out\<lparr>cu_FirstACAt := cu_FirstACAt prev\<rparr> else out)"

definition more_attempts :: "ContestUserProblem \<Rightarrow> ContestUserProblem \<Rightarrow> ContestUserProblem" where
  "more_attempts prev out = (if cu_Attempts out < cu_Attempts prev then out\<lparr>cu_Attempts := cu_Attempts prev\<rparr> else out)"

definition keep_label :: "ContestUserProblem \<Rightarrow> ContestUserProblem \<Rightarrow> ContestUserProblem" where
  "keep_label prev out = (if trim_space (cu_Label out) = '''' then out\<lparr>cu_Label := cu_Label prev\<rparr> else out)"

definition mergeContestCellIncoming :: "ContestUserProblem option \<Rightarrow> ContestUserProblem \<Rightarrow> ContestUserProblem \<times> bool" where
  "mergeContestCellIncoming prev0 nxt =
     (case prev0 of None \<Rightarrow> (nxt, True)
      | Some prev \<Rightarrow>
          if cu_Status prev = ContestCellAC then
            (if cu_Status nxt = ContestCellAC then (nxt, True)
             else if cu_Status nxt \<in> {ContestCellUpsolve, ContestCellUpsolveTried} \<and> isDirtyContestACForUpsolve prev nxt then
               let out = nxt\<lparr>cu_RelativeSec := None\<rparr>;
                   out' = (if cu_Status nxt = ContestCellUpsolve then earlier_ac prev out else out)
               in (keep_label prev (more_attempts prev out'), True)
             else (prev, False))
          else if cu_Status nxt = ContestCellAC then (nxt, True)
          else if cu_Status prev = ContestCellUpsolve \<and> cu_Status nxt = ContestCellTried then
            (let out = more_attempts nxt prev;
                 out' = (if trim_space (cu_Label nxt) \<noteq> '''' then out\<lparr>cu_Label := cu_Label nxt\<rparr> else out)
             in (out'\<lparr>cu_RelativeSec := None\<rparr>, True))
          else if cu_Status prev = ContestCellUpsolve \<and> cu_Status nxt = ContestCellUpsolve then
            ((more_attempts prev (earlier_ac prev nxt))\<lparr>cu_RelativeSec := None\<rparr>, True)
          else if cu_Status nxt = ContestCellUpsolve then
            (let out = nxt\<lparr>cu_RelativeSec := None\<rparr>;
                 out' = (if cu_Status prev = ContestCellTried then more_attempts prev out else out)
             in (keep_label prev out', True))
          else (nxt, True))"

definition same_cell :: "ContestUserProblem \<Rightarrow> ContestUserProblem \<Rightarrow> bool" where
  "same_cell a b \<longleftrightarrow> cu_Status a = cu_Status b \<and> cu_Attempts a = cu_Attempts b \<and> cu_Label a = cu_Label b
     \<and> cu_RelativeSec a = cu_RelativeSec b \<and> cu_FirstACAt a = cu_FirstACAt b"

definition cell_to_write :: "(string \<times> ContestUserProblem) list \<Rightarrow> ContestUserProblem \<Rightarrow> ContestUserProblem option" where
  "cell_to_write idx nxt =
     (let prev = map_of idx (cupKey (cu_UserID nxt) (cu_ExternalID nxt)) in
      case mergeContestCellIncoming prev nxt of (merged, write) \<Rightarrow>
        if \<not> write then None
        else if (case prev of None \<Rightarrow> False | Some p \<Rightarrow> same_cell p merged) then None else Some merged)"

definition mergeContestCellUpserts :: "contests \<Rightarrow> string \<Rightarrow> string \<Rightarrow> ContestUserProblem list \<Rightarrow> ContestUserProblem list" where
  "mergeContestCellUpserts db platform contestID incoming =
     List.map_filter (cell_to_write (loadContestUserProblemIndex db platform contestID (remdups (map cu_UserID incoming)))) incoming"

text \<open>The upsert in batches of a hundred. The columns it overwrites are those that the inference
  knows; \<open>scores\<close> is the list of the crawler's own details, which has the score too.\<close>

type_synonym cell_key = "string \<times> string \<times> int \<times> string"

definition cell_key :: "ContestUserProblem \<Rightarrow> cell_key" where
  "cell_key c = (cu_Platform c, cu_ContestID c, cu_UserID c, cu_ExternalID c)"

definition overwrite_cell :: "bool \<Rightarrow> ContestUserProblem \<Rightarrow> ContestUserProblem \<Rightarrow> ContestUserProblem" where
  "overwrite_cell scores old nxt =
     old\<lparr>cu_Label := cu_Label nxt, cu_Status := cu_Status nxt, cu_Attempts := cu_Attempts nxt, cu_FirstACAt := cu_FirstACAt nxt,
         cu_RelativeSec := cu_RelativeSec nxt, cu_ScoreDelta := (if scores then cu_ScoreDelta nxt else cu_ScoreDelta old)\<rparr>"

definition upsert_cell :: "bool \<Rightarrow> ContestUserProblem \<Rightarrow> ContestUserProblem list \<Rightarrow> ContestUserProblem list" where
  "upsert_cell scores r rows =
     (if \<exists>c\<in>set rows. cell_key c = cell_key r
      then map (\<lambda>c. if cell_key c = cell_key r then overwrite_cell scores c r else c) rows
      else rows @ [r])"

definition write_cells :: "bool \<Rightarrow> ContestUserProblem list \<Rightarrow> contests \<Rightarrow> contests option" where
  "write_cells scores rows w =
     (if list_all (\<lambda>st. distinct (map cell_key st)) (chunks 100 rows)
      then Some (w\<lparr>user_problems := fold (upsert_cell scores) rows (user_problems w)\<rparr>) else None)"

subsection \<open>Inference\<close>

definition scan :: "(SubmitLog \<Rightarrow> bool) \<Rightarrow> SubmitLog list \<Rightarrow> SubmitLog list" where
  "scan P rows = take contestInferSubmitLimit (sort_key sl_time (filter P rows))"

definition real_row :: "string \<Rightarrow> SubmitLog \<Rightarrow> bool" where
  "real_row platform r \<longleftrightarrow> sl_platform r = platform \<and> sl_problem r \<noteq> ''''
     \<and> (platform = LeetCode \<longrightarrow> has_prefix (sl_submit_id r) ''lc-prob-'')"

fun touch :: "'k \<Rightarrow> 'v \<Rightarrow> ('v \<Rightarrow> 'v) \<Rightarrow> ('k \<times> 'v) list \<Rightarrow> ('k \<times> 'v) list" where
  "touch k v0 f [] = [(k, f v0)]"
| "touch k v0 f ((k', v) # kvs) = (if k = k' then (k, f v) # kvs else (k', v) # touch k v0 f kvs)"

record infer_agg =
  ia_label :: string
  ia_ext :: string
  ia_attempts :: int
  ia_ac :: bool
  ia_firstAC :: "int option"

definition zh_bianyi_cuowu :: string where
  "zh_bianyi_cuowu = [CHR 0xE7, CHR 0xBC, CHR 0x96, CHR 0xE8, CHR 0xAF, CHR 0x91, CHR 0xE9, CHR 0x94, CHR 0x99, CHR 0xE8, CHR 0xAF, CHR 0xAF]"

definition not_an_attempt :: "string \<Rightarrow> bool" where
  "not_an_attempt status \<longleftrightarrow> to_upper (trim_space status) \<in> {'''', ''TESTING'', ''PENDING'', ''JUDGING'', ''IN_QUEUE'', ''CE'',
     ''COMPILATION_ERROR'', zh_bianyi_cuowu, ''SUBMIT''}"

definition infer_count :: "SubmitLog \<Rightarrow> 'a infer_agg_scheme \<Rightarrow> 'a infer_agg_scheme" where
  "infer_count r a =
     (if ia_ac a then a
      else if IsAcceptedStatus (sl_status r) then a\<lparr>ia_ac := True, ia_firstAC := Some (sl_time r)\<rparr>
      else if not_an_attempt (sl_status r) then a
      else a\<lparr>ia_attempts := ia_attempts a + 1\<rparr>)"

definition infer_row :: "string \<Rightarrow> string \<Rightarrow> (string \<times> string) list \<Rightarrow> SubmitLog \<Rightarrow> ((int \<times> string) \<times> infer_agg) list \<Rightarrow> ((int \<times> string) \<times> infer_agg) list" where
  "infer_row platform contestID ps r byUser =
     (if \<not> belongs platform contestID ps r then byUser
      else let ext = ext_of platform contestID r in
        touch (sl_user r, ext)
          \<lparr>ia_label = infer_label platform contestID ps r, ia_ext = ext, ia_attempts = 0, ia_ac = False, ia_firstAC = None\<rparr>
          (infer_count r) byUser)"

text \<open>\<^verbatim>\<open>int(d.Seconds())\<close>, never negative.\<close>

definition relative_sec :: "int \<Rightarrow> int \<Rightarrow> int" where
  "relative_sec t start = (if t < start then 0 else (t - start) div second_ns)"

definition inferred_cell :: "string \<Rightarrow> string \<Rightarrow> int \<Rightarrow> (int \<times> string) \<times> infer_agg \<Rightarrow> ContestUserProblem" where
  "inferred_cell platform contestID start x =
     (case x of ((uid, _), a) \<Rightarrow>
        \<lparr>cu_Platform = platform, cu_ContestID = contestID, cu_UserID = uid, cu_Label = ia_label a, cu_ExternalID = ia_ext a,
         cu_Status = (if ia_ac a then ContestCellAC else ContestCellTried), cu_Attempts = ia_attempts a, cu_FirstACAt = ia_firstAC a,
         cu_RelativeSec = (if \<not> ia_ac a \<or> is_zero_time start then None else map_option (\<lambda>t. relative_sec t start) (ia_firstAC a)),
         cu_ScoreDelta = 0\<rparr>)"

definition inferred :: "string \<Rightarrow> string \<Rightarrow> int list \<Rightarrow> int \<Rightarrow> int \<Rightarrow> contests \<Rightarrow> ContestUserProblem list" where
  "inferred platform contestID userIDs start fin db =
     map (inferred_cell platform contestID start)
       (fold (infer_row platform contestID (loadContestProblemSet db platform contestID))
         (scan (\<lambda>r. real_row platform r \<and> sl_user r \<in> set userIDs \<and> start \<le> sl_time r \<and> sl_time r \<le> fin) (submits db)) [])"

text \<open>The end of both inferences: merge, write, count.\<close>

definition store_inferred :: "string \<Rightarrow> string \<Rightarrow> ContestUserProblem list \<Rightarrow> contests \<Rightarrow> contests \<times> nat option" where
  "store_inferred platform contestID cells w =
     (let rows = mergeContestCellUpserts w platform contestID cells in
      if rows = [] then (w, Some 0)
      else (case write_cells False rows w of None \<Rightarrow> (w, None) | Some w' \<Rightarrow> (w', Some (length rows))))"

definition InferContestUserProblems ::
  "page \<Rightarrow> int \<Rightarrow> string \<Rightarrow> string \<Rightarrow> int list \<Rightarrow> int \<Rightarrow> contests \<Rightarrow> contests \<times> nat option" where
  "InferContestUserProblems fetch now platform0 contestID0 userIDs hintTime w =
     (let platform = trim_space platform0; contestID = trim_space contestID0 in
      if userIDs = [] \<or> platform = '''' \<or> contestID = '''' then (w, Some 0)
      else (case resolveContestWindow (Some fetch) now platform contestID hintTime w of
          (w1, start, fin) \<Rightarrow> store_inferred platform contestID (inferred platform contestID userIDs start fin w1) w1))"

record first_ac =
  fa_label :: string
  fa_ext :: string
  fa_at :: int

definition upsolve_row :: "string \<Rightarrow> string \<Rightarrow> (string \<times> string) list \<Rightarrow> SubmitLog \<Rightarrow> ((int \<times> string) \<times> first_ac) list \<Rightarrow> ((int \<times> string) \<times> first_ac) list" where
  "upsolve_row platform contestID ps r byUser =
     (if \<not> IsAcceptedStatus (sl_status r) \<or> \<not> belongs platform contestID ps r then byUser
      else let ext = ext_of platform contestID r in
        touch (sl_user r, ext) \<lparr>fa_label = upsolve_label platform contestID ps r, fa_ext = ext, fa_at = sl_time r\<rparr> (\<lambda>a. a) byUser)"

definition upsolve_cell :: "string \<Rightarrow> string \<Rightarrow> (int \<times> string) \<times> first_ac \<Rightarrow> ContestUserProblem" where
  "upsolve_cell platform contestID x =
     (case x of ((uid, _), a) \<Rightarrow>
        \<lparr>cu_Platform = platform, cu_ContestID = contestID, cu_UserID = uid, cu_Label = fa_label a, cu_ExternalID = fa_ext a,
         cu_Status = ContestCellUpsolve, cu_Attempts = 0, cu_FirstACAt = Some (fa_at a), cu_RelativeSec = None, cu_ScoreDelta = 0\<rparr>)"

definition upsolve_end :: "int \<Rightarrow> int \<Rightarrow> int" where
  "upsolve_end now fin = (if now < fin + contestUpsolveMaxHorizon then now else fin + contestUpsolveMaxHorizon)"

definition upsolved :: "string \<Rightarrow> string \<Rightarrow> int list \<Rightarrow> int \<Rightarrow> int \<Rightarrow> contests \<Rightarrow> ContestUserProblem list" where
  "upsolved platform contestID userIDs now fin db =
     map (upsolve_cell platform contestID)
       (fold (upsolve_row platform contestID (loadContestProblemSet db platform contestID))
         (scan (\<lambda>r. real_row platform r \<and> sl_user r \<in> set userIDs \<and> fin < sl_time r \<and> sl_time r \<le> upsolve_end now fin) (submits db)) [])"

definition InferContestUpsolves ::
  "page \<Rightarrow> int \<Rightarrow> string \<Rightarrow> string \<Rightarrow> int list \<Rightarrow> int \<Rightarrow> contests \<Rightarrow> contests \<times> nat option" where
  "InferContestUpsolves fetch now platform0 contestID0 userIDs hintTime w =
     (let platform = trim_space platform0; contestID = trim_space contestID0 in
      if userIDs = [] \<or> platform = '''' \<or> contestID = '''' then (w, Some 0)
      else (case resolveContestWindow (Some fetch) now platform contestID hintTime w of
          (w1, start, fin) \<Rightarrow>
            if is_zero_time fin \<or> upsolve_end now fin \<le> fin + second_ns then (w1, Some 0)
            else store_inferred platform contestID (upsolved platform contestID userIDs now fin w1) w1))"

text \<open>The path of the crawler: its own details first, then one user's latest contests.\<close>

definition saveContestUserProblems :: "int \<Rightarrow> string \<Rightarrow> ContestUserProblem list \<Rightarrow> contests \<Rightarrow> contests \<times> bool" where
  "saveContestUserProblems userId platform0 cells w =
     (let platform = trim_space platform0;
          good = filter (\<lambda>c. cu_ContestID c \<noteq> '''' \<and> cu_ExternalID c \<noteq> '''' \<and> trim_space (cu_Status c) \<noteq> '''') cells;
          byContest = collect_all (@) (map (\<lambda>c. (cu_ContestID c,
             [c\<lparr>cu_Platform := platform, cu_UserID := userId, cu_Status := trim_space (cu_Status c)\<rparr>])) good)
      in fold (\<lambda>(cid, rows) (w, ok).
           if \<not> ok then (w, False)
           else let out = mergeContestCellUpserts w platform cid rows in
             if out = [] then (w, True)
             else (case write_cells True out w of None \<Rightarrow> (w, False) | Some w' \<Rightarrow> (w', True))) byContest (w, True))"

definition InferContestUserProblemsForUser :: "page \<Rightarrow> int \<Rightarrow> string \<Rightarrow> string \<Rightarrow> int \<Rightarrow> int \<Rightarrow> contests \<Rightarrow> contests \<times> nat option" where
  "InferContestUserProblemsForUser fetch now platform contestID userID hintTime w =
     (if userID = 0 then (w, Some 0) else InferContestUserProblems fetch now platform contestID [userID] hintTime w)"

definition InferContestUpsolvesForUser :: "page \<Rightarrow> int \<Rightarrow> string \<Rightarrow> string \<Rightarrow> int \<Rightarrow> int \<Rightarrow> contests \<Rightarrow> contests \<times> nat option" where
  "InferContestUpsolvesForUser fetch now platform contestID userID hintTime w =
     (if userID = 0 then (w, Some 0) else InferContestUpsolves fetch now platform contestID [userID] hintTime w)"

definition crawl_contest :: "page \<Rightarrow> int \<Rightarrow> bool \<Rightarrow> string \<Rightarrow> int \<Rightarrow> ContestLog \<Rightarrow> contests \<Rightarrow> contests" where
  "crawl_contest fetch now detailOK platform userId l w =
     fst (InferContestUpsolvesForUser fetch now platform (cl_ContestId l) userId (cl_Time l)
       (if detailOK then w
        else fst (InferContestUserProblemsForUser fetch now platform (cl_ContestId l) userId (cl_Time l) w)))"

definition crawl_contests :: "page \<Rightarrow> int \<Rightarrow> bool \<Rightarrow> bool \<Rightarrow> string \<Rightarrow> int \<Rightarrow> ContestLog list \<Rightarrow> contests \<Rightarrow> contests" where
  "crawl_contests fetch now detailOK needAll platform userId logs w =
     fold (crawl_contest fetch now detailOK platform userId)
       (take (if needAll then 40 else 15) (filter (\<lambda>l. cl_ContestId l \<noteq> '''') logs)) w"

text \<open>The practice cells of a board, from the submissions alone. The query keeps the rows that can belong to the
  contest before it counts to the limit.\<close>

record practice_agg = infer_agg +
  pa_contestAC :: bool
  pa_postSeen :: bool

text \<open>The loop that collects the identifiers for the query keeps one spelling of each, the first one it meets in the
  map, whose order Go does not fix: \<open>ps\<close> is the map in the order of that iteration.\<close>

definition query_exts :: "(string \<times> string) list \<Rightarrow> string list" where
  "query_exts ps = fold (\<lambda>ext out. let k = to_lower (trim_space ext) in
     if k = '''' \<or> k \<in> set (map (\<lambda>e. to_lower (trim_space e)) out) then out else out @ [ext]) (map fst ps) []"

definition sql_candidate :: "string \<Rightarrow> (string \<times> string) list \<Rightarrow> SubmitLog \<Rightarrow> bool" where
  "sql_candidate contestID ps r =
     (let hit = like (CHR ''%'' # to_lower contestID @ ''%'') (to_lower (sl_contest r)) in
      if ps = [] then hit
      else sl_external r \<in> set (query_exts ps) \<or> hit \<or> (\<exists>e\<in>set (query_exts ps). like (e @ ''%'') (sl_problem r)))"

definition practice_count :: "int \<Rightarrow> SubmitLog \<Rightarrow> practice_agg \<Rightarrow> practice_agg" where
  "practice_count fin r a =
     (if sl_time r \<le> fin then (if IsAcceptedStatus (sl_status r) then a\<lparr>pa_contestAC := True\<rparr> else a)
      else let b = a\<lparr>pa_postSeen := True\<rparr> in
        if ia_ac b then b
        else if IsAcceptedStatus (sl_status r) then b\<lparr>ia_ac := True, ia_firstAC := Some (sl_time r)\<rparr>
        else if \<not> IsPendingSubmitStatus (sl_status r) then b\<lparr>ia_attempts := ia_attempts b + 1\<rparr> else b)"

definition practice_row :: "string \<Rightarrow> string \<Rightarrow> (string \<times> string) list \<Rightarrow> int \<Rightarrow> SubmitLog \<Rightarrow> ((int \<times> string) \<times> practice_agg) list \<Rightarrow> ((int \<times> string) \<times> practice_agg) list" where
  "practice_row platform contestID ps fin r byUser =
     (if \<not> belongs platform contestID ps r then byUser
      else let ext = ext_of platform contestID r in
        touch (sl_user r, ext)
          \<lparr>ia_label = practice_label platform contestID ps r, ia_ext = ext, ia_attempts = 0, ia_ac = False, ia_firstAC = None,
           pa_contestAC = False, pa_postSeen = False\<rparr> (practice_count fin r) byUser)"

definition practice_cell :: "string \<Rightarrow> string \<Rightarrow> (int \<times> string) \<times> practice_agg \<Rightarrow> ContestUserProblem option" where
  "practice_cell platform contestID x =
     (case x of ((uid, _), a) \<Rightarrow>
        if pa_contestAC a \<or> \<not> pa_postSeen a then None
        else Some \<lparr>cu_Platform = platform, cu_ContestID = contestID, cu_UserID = uid, cu_Label = ia_label a, cu_ExternalID = ia_ext a,
           cu_Status = (if ia_ac a then ContestCellUpsolve else ContestCellUpsolveTried), cu_Attempts = ia_attempts a,
           cu_FirstACAt = ia_firstAC a, cu_RelativeSec = None, cu_ScoreDelta = 0\<rparr>)"

definition practice_scope :: "string \<Rightarrow> string \<Rightarrow> (string \<times> string) list \<Rightarrow> int list option \<Rightarrow> int \<Rightarrow> int \<Rightarrow> SubmitLog \<Rightarrow> bool" where
  "practice_scope platform contestID ps userIDs start practiceEnd r \<longleftrightarrow>
     real_row platform r \<and> start \<le> sl_time r \<and> sl_time r \<le> practiceEnd \<and> sql_candidate contestID ps r
     \<and> (case userIDs of None \<Rightarrow> True | Some us \<Rightarrow> sl_user r \<in> set us)"

definition practice_cells :: "string \<Rightarrow> string \<Rightarrow> (string \<times> string) list \<Rightarrow> int list option \<Rightarrow> int \<Rightarrow> int \<Rightarrow> int \<Rightarrow> SubmitLog list \<Rightarrow> ContestUserProblem list" where
  "practice_cells platform contestID ps userIDs start fin practiceEnd rows =
     List.map_filter (practice_cell platform contestID)
       (fold (practice_row platform contestID ps fin) (scan (practice_scope platform contestID ps userIDs start practiceEnd) rows) [])"

definition ListContestPracticeCells ::
  "((string \<times> string) list \<Rightarrow> (string \<times> string) list) \<Rightarrow> int \<Rightarrow> string \<Rightarrow> string \<Rightarrow> int list option \<Rightarrow> int \<Rightarrow> contests
     \<Rightarrow> contests \<times> ContestUserProblem list" where
  "ListContestPracticeCells order now platform contestID userIDs hintTime w =
     (if trim_space platform = '''' \<or> trim_space contestID = '''' then (w, [])
      else (case ResolveContestWindowCached now platform contestID hintTime w of
          (w1, start, fin) \<Rightarrow>
            if is_zero_time fin \<or> upsolve_end now fin \<le> fin \<or> userIDs = Some [] then (w1, [])
            else (w1, practice_cells platform contestID (order (loadContestProblemSet w1 platform contestID)) userIDs
                    start fin (upsolve_end now fin) (submits w1))))"

subsection \<open>The submissions behind a cell\<close>

abbreviation "CellSubmitPhaseContest \<equiv> ''contest''"
abbreviation "CellSubmitPhaseUpsolve \<equiv> ''upsolve''"

record ContestCellSubmit =
  cs_ID :: nat
  cs_SubmitID :: string
  cs_Status :: string
  cs_Lang :: string
  cs_Time :: int
  cs_RelativeSec :: "int option"
  cs_Phase :: string
  cs_Problem :: string
  cs_Contest :: string
  cs_ExternalID :: string
  cs_ProblemID :: "nat option"

text \<open>The beginning that the first fifty solved cells agree on: at least two of them, none much later than the
  earliest acceptance.\<close>

definition derived_starts :: "contests \<Rightarrow> string \<Rightarrow> string \<Rightarrow> int list" where
  "derived_starts db platform contestID =
     filter (\<lambda>s. \<not> is_zero_time s)
       (List.map_filter (\<lambda>c. case (cu_FirstACAt c, cu_RelativeSec c) of
            (Some t, Some r) \<Rightarrow> if r < 0 then None else Some (t - r * second_ns) | _ \<Rightarrow> None)
         (take 50 (filter (\<lambda>c. cu_Platform c \<in> set (calendarPlatformAliases platform) \<and> cu_ContestID c = contestID
            \<and> cu_FirstACAt c \<noteq> None \<and> cu_RelativeSec c \<noteq> None) (user_problems db))))"

definition deriveStartFromRelativeCells :: "contests \<Rightarrow> string \<Rightarrow> string \<Rightarrow> int option" where
  "deriveStartFromRelativeCells db platform contestID =
     (case derived_starts db platform contestID of
        s # t # ts \<Rightarrow> (let m = fold min (t # ts) s in
          (case minContestFirstAC db platform contestID of
             Some a \<Rightarrow> if a + 5 * minute_ns < m then None else Some m
           | None \<Rightarrow> Some m))
      | _ \<Rightarrow> None)"

definition resolveCellSubmitWindow :: "int \<Rightarrow> string \<Rightarrow> string \<Rightarrow> int \<Rightarrow> contests \<Rightarrow> contests \<times> int \<times> int" where
  "resolveCellSubmitWindow now platform0 contestID0 hintTime w =
     (let platform = trim_space platform0; contestID = trim_space contestID0 in
      case calendar_window w platform contestID of
        Some (s, e) \<Rightarrow> (w, s, e + contestInferEndBuffer)
      | None \<Rightarrow>
          if \<not> is_zero_time hintTime \<and> (hintAsContestEnd platform \<or> NormalizeCalendarPlatform platform = CodeForces)
          then (w, windowFromHint platform hintTime True)
          else (case (if contestID = '''' then None else deriveStartFromRelativeCells w platform contestID) of
              Some ds \<Rightarrow>
                (let fin = ds + (platformDuration platform + contestInferEndBuffer)
                 in (w, ds - 2 * minute_ns, if \<not> is_zero_time hintTime \<and> fin < hintTime then hintTime + contestInferEndBuffer else fin))
            | None \<Rightarrow>
                if \<not> is_zero_time hintTime then (w, windowFromHint platform hintTime True)
                else ResolveContestWindowCached now platform contestID hintTime w))"

definition want_add :: "string \<Rightarrow> string list \<Rightarrow> string list" where
  "want_add s0 want = (let s = trim_space s0 in if s = '''' \<or> s \<in> set want then want else want @ [s])"

definition collectWantExternalIDs ::
  "(string \<times> string) list \<Rightarrow> string \<Rightarrow> string \<Rightarrow> string \<Rightarrow> string \<Rightarrow> string list" where
  "collectWantExternalIDs ps platform contestID label0 externalID0 =
     (let label = trim_space label0; externalID = trim_space externalID0;
          w1 = want_add externalID [];
          w2 = (if externalID = '''' \<and> label \<noteq> ''''
                then fold want_add (map fst (filter (\<lambda>(e, l). equal_fold l label \<or> equal_fold e label) ps)) w1 else w1);
          w3 = (if label \<noteq> '''' then fold want_add (map fst (filter (\<lambda>(e, l). equal_fold l label) ps)) w2 else w2)
      in if externalID = '''' \<and> label \<noteq> '''' \<and> contestID \<noteq> '''' then
           (let w4 = (if platform = CodeForces \<or> platform = ''Codeforces'' then want_add (contestID @ label) w3 else w3)
            in if platform = AtCoder then want_add (to_lower (contestID @ ''_'' @ label)) w4 else w4)
         else w3)"

definition label_pattern :: "string \<Rightarrow> string \<Rightarrow> bool" where
  "label_pattern label p \<longleftrightarrow> p = label \<or> like (label @ ''-%'') p \<or> like (label @ '' %'') p \<or> like (label @ ''.%'') p
     \<or> like (to_lower (''%_'' @ label)) (to_lower p)"

definition cell_query :: "string \<Rightarrow> string list \<Rightarrow> string \<Rightarrow> SubmitLog \<Rightarrow> bool" where
  "cell_query contestID lowerExt label r =
     (let ours = (sl_contest r = contestID \<or> sl_contest r = CHR ''-'' # contestID);
          ext = (to_lower (sl_external r) \<in> set lowerExt); prob = (to_lower (sl_problem r) \<in> set lowerExt)
      in if lowerExt \<noteq> [] \<and> label \<noteq> '''' then ext \<or> prob \<or> ours \<and> label_pattern label (sl_problem r)
         else if lowerExt \<noteq> [] then ext \<or> prob \<or> ours \<and> prob
         else ours \<and> label_pattern label (sl_problem r))"

text \<open>The second check, on the parsed identifier.\<close>

definition cell_wants :: "string \<Rightarrow> string \<Rightarrow> string list \<Rightarrow> string \<Rightarrow> SubmitLog \<Rightarrow> bool" where
  "cell_wants platform contestID lowerExt label r =
     (let extKey = to_lower (trim_space (firstNonEmpty (ext_of platform contestID r) (sl_external r)));
          p = trim_space (sl_problem r); c = trim_space (sl_contest r)
      in lowerExt = [] \<or> extKey \<in> set lowerExt \<or> to_lower p \<in> set lowerExt
         \<or> label \<noteq> '''' \<and> (equal_fold p label \<or> has_prefix p (label @ ''-'') \<or> has_prefix p (label @ '' '')
              \<or> has_prefix (to_upper p) (to_upper label @ ''.'') \<or> has_suffix (to_lower p) (CHR ''_'' # to_lower label))
           \<and> (c = contestID \<or> c = CHR ''-'' # contestID \<or> equal_fold c contestID))"

definition cell_submit :: "string \<Rightarrow> string \<Rightarrow> int \<Rightarrow> int \<Rightarrow> SubmitLog \<Rightarrow> ContestCellSubmit" where
  "cell_submit platform contestID start endOfficial r =
     (let phase = (if \<not> is_zero_time endOfficial \<and> endOfficial < sl_time r then CellSubmitPhaseUpsolve else CellSubmitPhaseContest)
      in \<lparr>cs_ID = sl_id r, cs_SubmitID = sl_submit_id r, cs_Status = sl_status r, cs_Lang = sl_lang r, cs_Time = sl_time r,
          cs_RelativeSec = (if phase = CellSubmitPhaseContest \<and> \<not> is_zero_time start \<and> \<not> is_zero_time (sl_time r)
             then Some (relative_sec (sl_time r) start) else None),
          cs_Phase = phase, cs_Problem = sl_problem r, cs_Contest = sl_contest r,
          cs_ExternalID = firstNonEmpty (ext_of platform contestID r) (sl_external r), cs_ProblemID = sl_problem_id r\<rparr>)"

definition cell_rows :: "string \<Rightarrow> string \<Rightarrow> int \<Rightarrow> string list \<Rightarrow> string \<Rightarrow> int \<Rightarrow> int \<Rightarrow> SubmitLog list \<Rightarrow> SubmitLog list" where
  "cell_rows platform contestID userID lowerExt label start queryEnd rows =
     filter (\<lambda>r. \<not> IsSyntheticSubmitForFeed platform (sl_submit_id r) \<and> cell_wants platform contestID lowerExt label r)
       (take 200 (sort_key (\<lambda>r. - sl_time r)
         (filter (\<lambda>r. sl_platform r = platform \<and> sl_user r = userID \<and> start \<le> sl_time r \<and> sl_time r \<le> queryEnd
            \<and> (platform = LeetCode \<longrightarrow> has_prefix (sl_submit_id r) ''lc-prob-'') \<and> cell_query contestID lowerExt label r) rows)))"

text \<open>The times it works with: the beginning, the official end, the end it reports, and the end of the query.\<close>

definition cell_times :: "int \<Rightarrow> string \<Rightarrow> string \<Rightarrow> int \<Rightarrow> contests \<Rightarrow> contests \<times> int \<times> int \<times> int \<times> int" where
  "cell_times now platform contestID hintTime w =
     (case resolveCellSubmitWindow now platform contestID hintTime w of (w1, s0, endBuffered) \<Rightarrow>
       (case ResolveContestDisplayWindowCached now platform contestID hintTime w1 of (w2, d) \<Rightarrow>
          let start = (case d of Some (ds, de) \<Rightarrow> if is_zero_time s0 then ds else s0 | None \<Rightarrow> s0);
              off0 = (case d of Some (ds, de) \<Rightarrow> de | None \<Rightarrow> zero_time);
              endOfficial = (if is_zero_time off0 \<and> \<not> is_zero_time endBuffered then endBuffered - contestInferEndBuffer else off0);
              fin = (if is_zero_time endOfficial then endBuffered else endOfficial);
              q0 = (if is_zero_time endBuffered then fin else endBuffered);
              up = upsolve_end now q0;
              queryEnd = (if \<not> is_zero_time q0 \<and> q0 < up then up else q0)
          in (w2, start, endOfficial, fin, queryEnd)))"

definition ListContestCellSubmits ::
  "((string \<times> string) list \<Rightarrow> (string \<times> string) list) \<Rightarrow> int \<Rightarrow> string \<Rightarrow> string \<Rightarrow> int \<Rightarrow> string \<Rightarrow> string \<Rightarrow> int \<Rightarrow> contests
     \<Rightarrow> contests \<times> ContestCellSubmit list \<times> int \<times> int" where
  "ListContestCellSubmits order now platform0 contestID0 userID label0 externalID hintTime w =
     (let platform = trim_space platform0; contestID = trim_space contestID0; label = trim_space label0;
          want = collectWantExternalIDs (order (loadContestProblemSet w platform contestID)) platform contestID label externalID
      in if userID = 0 \<or> platform = '''' \<or> contestID = '''' \<or> (want = [] \<and> label = '''') then (w, [], zero_time, zero_time)
         else (case cell_times now platform contestID hintTime w of (w1, start, endOfficial, fin, queryEnd) \<Rightarrow>
            (w1, map (cell_submit platform contestID start endOfficial)
                   (cell_rows platform contestID userID (map to_lower want) label start queryEnd (submits w1)), start, fin)))"

end
