(* ===== verification/ContestLaws.thy ===== *)
theory ContestLaws
  imports ContestCells
begin

text \<open>
  What holds of the cells of a contest: counting by user and problem, what a merge keeps, that the passes of
  the crawler never take a solved problem back, that a second merge of the same cells writes
  nothing, and which submissions a practice cell stands for.
\<close>

subsection \<open>Counting\<close>

lemma map_of_touch:
  "map_of (touch k v0 f kvs) k2 = (if k2 = k then Some (f (case map_of kvs k of None \<Rightarrow> v0 | Some v \<Rightarrow> v)) else map_of kvs k2)"
  by (induction k v0 f kvs rule: touch.induct) (auto split: if_splits)

lemma keys_touch: "fst ` set (touch k v0 f kvs) = insert k (fst ` set kvs)"
  by (induction k v0 f kvs rule: touch.induct) auto

lemma distinct_touch: "distinct (map fst kvs) \<Longrightarrow> distinct (map fst (touch k v0 f kvs))"
  by (induction k v0 f kvs rule: touch.induct) (simp_all add: keys_touch)

definition tally :: "('r \<Rightarrow> bool) \<Rightarrow> ('r \<Rightarrow> 'k) \<Rightarrow> ('r \<Rightarrow> 'v) \<Rightarrow> ('r \<Rightarrow> 'v \<Rightarrow> 'v) \<Rightarrow> 'r list \<Rightarrow> ('k \<times> 'v) list" where
  "tally P key v0 step rows = fold (\<lambda>r acc. if P r then touch (key r) (v0 r) (step r) acc else acc) rows []"

lemma tally_snoc: "tally P key v0 step (rows @ [r]) =
   (if P r then touch (key r) (v0 r) (step r) (tally P key v0 step rows) else tally P key v0 step rows)"
  by (simp add: tally_def)

lemma distinct_tally: "distinct (map fst (tally P key v0 step rows))"
  by (induction rows rule: rev_induct) (simp_all add: tally_snoc distinct_touch, simp add: tally_def)

text \<open>A counter is the fold of the rows of its own key.\<close>

lemma map_of_tally:
  "map_of (tally P key v0 step rows) k =
     (case filter (\<lambda>r. P r \<and> key r = k) rows of [] \<Rightarrow> None | r # rs \<Rightarrow> Some (fold step (r # rs) (v0 r)))"
proof (induction rows rule: rev_induct)
  case Nil
  then show ?case by (simp add: tally_def)
next
  case (snoc r rows)
  then show ?case by (auto simp: tally_snoc map_of_touch split: list.splits)
qed

lemma tallied:
  assumes "(k, v) \<in> set (tally P key v0 step rows)"
  obtains r rs where "filter (\<lambda>r. P r \<and> key r = k) rows = r # rs" "v = fold step (r # rs) (v0 r)"
  using assms map_of_tally[of P key v0 step rows k]
  by (auto simp: map_of_eq_Some_iff[OF distinct_tally, symmetric] split: list.splits)

lemma tally_memI:
  assumes "filter (\<lambda>r. P r \<and> key r = k) rows = r # rs"
  shows "(k, fold step (r # rs) (v0 r)) \<in> set (tally P key v0 step rows)"
  using assms map_of_tally[of P key v0 step rows k] by (simp add: map_of_eq_Some_iff[OF distinct_tally, symmetric])

lemma infer_rows: "fold (infer_row platform contestID ps) rows [] =
   tally (belongs platform contestID ps) (\<lambda>r. (sl_user r, ext_of platform contestID r))
     (\<lambda>r. \<lparr>ia_label = infer_label platform contestID ps r, ia_ext = ext_of platform contestID r, ia_attempts = 0, ia_ac = False, ia_firstAC = None\<rparr>)
     infer_count rows"
  unfolding tally_def by (rule fold_cong) (auto simp: infer_row_def Let_def fun_eq_iff)

lemma upsolve_rows: "fold (upsolve_row platform contestID ps) rows [] =
   tally (\<lambda>r. IsAcceptedStatus (sl_status r) \<and> belongs platform contestID ps r) (\<lambda>r. (sl_user r, ext_of platform contestID r))
     (\<lambda>r. \<lparr>fa_label = upsolve_label platform contestID ps r, fa_ext = ext_of platform contestID r, fa_at = sl_time r\<rparr>) (\<lambda>r a. a) rows"
  unfolding tally_def by (rule fold_cong) (auto simp: upsolve_row_def Let_def fun_eq_iff)

lemma practice_rows: "fold (practice_row platform contestID ps fin) rows [] =
   tally (belongs platform contestID ps) (\<lambda>r. (sl_user r, ext_of platform contestID r))
     (\<lambda>r. \<lparr>ia_label = practice_label platform contestID ps r, ia_ext = ext_of platform contestID r, ia_attempts = 0, ia_ac = False, ia_firstAC = None,
           pa_contestAC = False, pa_postSeen = False\<rparr>) (practice_count fin) rows"
  unfolding tally_def by (rule fold_cong) (auto simp: practice_row_def Let_def fun_eq_iff)

subsection \<open>Scanning\<close>

lemma take_sort_key:
  assumes y: "y \<in> set (take n (sort_key f xs))" and x: "x \<in> set xs" and less: "f x < f y"
  shows "x \<in> set (take n (sort_key f xs))"
proof (rule ccontr)
  assume "x \<notin> set (take n (sort_key f xs))"
  then have "x \<in> set (drop n (sort_key f xs))"
    using x set_append[of "take n (sort_key f xs)" "drop n (sort_key f xs)"] by auto
  moreover have "sorted (map f (take n (sort_key f xs) @ drop n (sort_key f xs)))" by simp
  ultimately have "f y \<le> f x" using y unfolding map_append sorted_append by auto
  then show False using less by simp
qed

lemma scan_earlier:
  assumes "y \<in> set (scan P rows)" "x \<in> set rows" "P x" "sl_time x < sl_time y"
  shows "x \<in> set (scan P rows)"
  using assms take_sort_key[of y contestInferSubmitLimit sl_time "filter P rows" x] by (simp add: scan_def)

lemma scan_memD: "x \<in> set (scan P rows) \<Longrightarrow> x \<in> set rows \<and> P x"
  by (auto simp: scan_def dest!: in_set_takeD)

lemma scan_all: "length (filter P rows) \<le> contestInferSubmitLimit \<Longrightarrow> set (scan P rows) = {r \<in> set rows. P r}"
  by (auto simp: scan_def)

lemma scan_sorted: "sorted (map sl_time (scan P rows))"
  by (simp add: scan_def take_map[symmetric] sorted_wrt_take)

lemma find_sorted:
  "sorted (map f xs) \<Longrightarrow> find P xs = Some y \<Longrightarrow> P y \<and> y \<in> set xs \<and> (\<forall>x\<in>set xs. P x \<longrightarrow> f y \<le> f x)"
  by (induction xs) (auto split: if_splits)

subsection \<open>Practice cells\<close>

text \<open>What the counter of a key holds after the rows of it.\<close>

lemma practice_fold:
  fixes a :: practice_agg and fin :: int
  assumes "\<not> ia_ac a" "ia_firstAC a = None" "\<not> pa_contestAC a" "\<not> pa_postSeen a"
  shows "(pa_contestAC (fold (practice_count fin) rs a) \<longleftrightarrow> (\<exists>r\<in>set rs. sl_time r \<le> fin \<and> IsAcceptedStatus (sl_status r)))
    \<and> (pa_postSeen (fold (practice_count fin) rs a) \<longleftrightarrow> (\<exists>r\<in>set rs. fin < sl_time r))
    \<and> ia_firstAC (fold (practice_count fin) rs a) = map_option sl_time (find (\<lambda>r. fin < sl_time r \<and> IsAcceptedStatus (sl_status r)) rs)
    \<and> (ia_ac (fold (practice_count fin) rs a) \<longleftrightarrow> ia_firstAC (fold (practice_count fin) rs a) \<noteq> None)
    \<and> ia_ext (fold (practice_count fin) rs a) = ia_ext a"
  using assms by (induction rs rule: rev_induct) (auto simp: practice_count_def Let_def find_snoc split: option.splits)

text \<open>A practice cell: nothing was accepted in the contest, among all stored submissions and not only among those
  below the limit; the first acceptance afterwards is the one it states.\<close>

lemma practice_cells_mem:
  assumes "c \<in> set (practice_cells platform contestID ps userIDs start fin pend rows)"
  obtains r rs where
    "filter (\<lambda>r. belongs platform contestID ps r \<and> (sl_user r, ext_of platform contestID r) = (cu_UserID c, cu_ExternalID c))
       (scan (practice_scope platform contestID ps userIDs start pend) rows) = r # rs"
    "\<exists>x\<in>set (r # rs). fin < sl_time x"
    "\<forall>x\<in>set (r # rs). sl_time x \<le> fin \<longrightarrow> \<not> IsAcceptedStatus (sl_status x)"
    "cu_FirstACAt c = map_option sl_time (find (\<lambda>r. fin < sl_time r \<and> IsAcceptedStatus (sl_status r)) (r # rs))"
    "cu_Status c = (if cu_FirstACAt c = None then ContestCellUpsolveTried else ContestCellUpsolve)"
    "cu_Platform c = platform" "cu_ContestID c = contestID" "cu_RelativeSec c = None"
proof -
  let ?P = "belongs platform contestID ps" and ?key = "\<lambda>r. (sl_user r, ext_of platform contestID r)"
  let ?S = "scan (practice_scope platform contestID ps userIDs start pend) rows"
  obtain k a where ka: "(k, a) \<in> set (fold (practice_row platform contestID ps fin) ?S [])" and c: "practice_cell platform contestID (k, a) = Some c"
    using assms by (auto simp: practice_cells_def map_filter_def)
  obtain r rs where g: "filter (\<lambda>r. ?P r \<and> ?key r = k) ?S = r # rs"
    and a: "a = fold (practice_count fin) (r # rs) \<lparr>ia_label = practice_label platform contestID ps r, ia_ext = ext_of platform contestID r,
      ia_attempts = 0, ia_ac = False, ia_firstAC = None, pa_contestAC = False, pa_postSeen = False\<rparr>"
    using ka unfolding practice_rows by (rule tallied)
  have "?key r = k" using g by (auto simp: filter_eq_Cons_iff)
  moreover note practice_fold[of "\<lparr>ia_label = practice_label platform contestID ps r, ia_ext = ext_of platform contestID r,
      ia_attempts = 0, ia_ac = False, ia_firstAC = None, pa_contestAC = False, pa_postSeen = False\<rparr>" fin "r # rs", folded a]
  ultimately have "k = (cu_UserID c, cu_ExternalID c)" and
    "\<exists>x\<in>set (r # rs). fin < sl_time x"
    "\<forall>x\<in>set (r # rs). sl_time x \<le> fin \<longrightarrow> \<not> IsAcceptedStatus (sl_status x)"
    "cu_FirstACAt c = map_option sl_time (find (\<lambda>r. fin < sl_time r \<and> IsAcceptedStatus (sl_status r)) (r # rs))"
    "cu_Status c = (if cu_FirstACAt c = None then ContestCellUpsolveTried else ContestCellUpsolve)"
    "cu_Platform c = platform" "cu_ContestID c = contestID" "cu_RelativeSec c = None"
    using c by (auto simp: practice_cell_def split: if_splits)
  with g show ?thesis by (intro that[of r rs]) simp_all
qed

subsection \<open>What the windows leave alone\<close>

definition same_data :: "contests \<Rightarrow> contests \<Rightarrow> bool" where
  "same_data w w' \<longleftrightarrow> contest_logs w' = contest_logs w \<and> contest_problems w' = contest_problems w
     \<and> user_problems w' = user_problems w \<and> submits w' = submits w"

lemma same_data_refl [simp]: "same_data w w"
  by (simp add: same_data_def)

lemma same_data_trans: "same_data a b \<Longrightarrow> same_data b c \<Longrightarrow> same_data a c"
  by (simp add: same_data_def)

lemma same_data_problem_set: "same_data w w' \<Longrightarrow> loadContestProblemSet w' = loadContestProblemSet w"
  by (simp add: same_data_def loadContestProblemSet_def fun_eq_iff)

lemma same_data_upsert_calendars: "same_data w (fold upsert_calendar rows w)"
proof (induction rows arbitrary: w)
  case (Cons r rows)
  have "same_data w (upsert_calendar r w)" by (simp add: same_data_def upsert_calendar_def)
  then show ?case using Cons.IH[of "upsert_calendar r w"] same_data_trans by (auto simp del: split_paired_All)
qed simp

lemma same_data_UpsertNowCoder:
  assumes "UpsertNowCoderContestCalendar c n u s e w = Some w'"
  shows "same_data w w'"
proof -
  have "same_data w w1" if "UpsertItems its w = Some (w1, k)" for its w1 k
    using that same_data_upsert_calendars[of w]
    by (auto simp: UpsertItems_def Let_def same_data_def split: if_splits)
  then show ?thesis
    using assms by (force simp: UpsertNowCoderContestCalendar_def Let_def ForgetContestDisplayWindow_def same_data_def split: if_splits)
qed

lemma same_data_ensure: "same_data w (fst (EnsureNowCoderContestCalendar fetch c n u s e w))"
  by (auto simp: EnsureNowCoderContestCalendar_def page_times_def Let_def same_data_UpsertNowCoder split: option.splits)

lemma same_data_claim: "ncBackfillClaim now cid w = Some w' \<Longrightarrow> same_data w (w'\<lparr>jobs := js\<rparr>)"
  by (auto simp: ncBackfillClaim_def Let_def same_data_def split: if_splits)

lemma same_data_schedule: "same_data w (schedule_loop now q seen logs w)"
proof (induction logs arbitrary: q seen w)
  case (Cons l ls)
  show ?case
    by (auto simp: Let_def Cons.IH split: option.splits intro: same_data_trans[OF same_data_claim Cons.IH])
qed simp

lemma same_data_nowcoder:
  assumes "nowcoder_window allow now q d h w = (w1, h1, r)"
  shows "same_data w w1"
proof (cases allow)
  case (Some fetch)
  obtain n u e t where hints: "nowCoderHintsFromLogs w d h = (n, u, e, t)" by (cases "nowCoderHintsFromLogs w d h")
  show ?thesis
    using assms Some hints same_data_ensure[of w fetch d n u t e]
    by (auto simp: nowcoder_window_def split: if_splits prod.splits)
next
  case None
  then show ?thesis
    using assms same_data_schedule[of w] by (auto simp: nowcoder_window_def scheduleNowCoderCalendarBackfill_def simp del: schedule_loop.simps split: if_splits)
qed

lemma same_data_resolve: "same_data w (fst (resolveContestWindow allow now p c h w))"
proof -
  obtain w1 h1 r where nw: "nowcoder_window allow now (trim_space p) (trim_space c) h w = (w1, h1, r)" by (rule prod_cases3)
  then show ?thesis
    using same_data_nowcoder[OF nw] by (auto simp: resolveContestWindow_def Let_def split: option.splits)
qed

lemma resolved_same_data: "resolveContestWindow allow now p c h w = (w', s, e) \<Longrightarrow> same_data w w'"
  using same_data_resolve[of w allow now p c h] by simp

subsection \<open>What a practice cell means\<close>

definition practised :: "string \<Rightarrow> string \<Rightarrow> (string \<times> string) list \<Rightarrow> int list option \<Rightarrow> int \<Rightarrow> int \<Rightarrow> ContestUserProblem \<Rightarrow> SubmitLog \<Rightarrow> bool" where
  "practised platform contestID ps userIDs start pend c r \<longleftrightarrow>
     practice_scope platform contestID ps userIDs start pend r \<and> belongs platform contestID ps r
     \<and> sl_user r = cu_UserID c \<and> ext_of platform contestID r = cu_ExternalID c"

text \<open>C22: a practice cell of the board says the truth about all stored submissions of that user to that problem that the query
  selects, however many others there are: some were made after the contest, none was accepted up to its buffered end, and when
  the cell reads UPSOLVE its time is that of the first acceptance, which came after the end. The limit of
  8000 rows cannot hide an acceptance during the contest, because the rows are scanned from the oldest.\<close>

theorem practice_cell_truth:
  assumes list: "ListContestPracticeCells order now platform contestID userIDs hintTime w = (w', cells)"
    and window: "ResolveContestWindowCached now platform contestID hintTime w = (w1, start, fin)"
    and c: "c \<in> set cells"
  defines "mine \<equiv> practised platform contestID (order (loadContestProblemSet w platform contestID)) userIDs start (upsolve_end now fin) c"
  shows "(\<exists>r\<in>set (submits w). mine r \<and> fin < sl_time r)
    \<and> (\<forall>r\<in>set (submits w). mine r \<and> IsAcceptedStatus (sl_status r) \<longrightarrow> fin < sl_time r)
    \<and> (if cu_Status c = ContestCellUpsolve
       then \<exists>r\<in>set (submits w). mine r \<and> IsAcceptedStatus (sl_status r) \<and> cu_FirstACAt c = Some (sl_time r)
              \<and> (\<forall>x\<in>set (submits w). mine x \<and> IsAcceptedStatus (sl_status x) \<longrightarrow> sl_time r \<le> sl_time x)
       else cu_Status c = ContestCellUpsolveTried \<and> cu_FirstACAt c = None)"
proof -
  let ?ps = "order (loadContestProblemSet w platform contestID)" and ?pend = "upsolve_end now fin"
  let ?S = "scan (practice_scope platform contestID ?ps userIDs start ?pend) (submits w)"
  let ?late = "\<lambda>r. fin < sl_time r \<and> IsAcceptedStatus (sl_status r)"
  note same = resolved_same_data[OF window]
  have "c \<in> set (practice_cells platform contestID ?ps userIDs start fin ?pend (submits w))"
    using list window c same_data_problem_set[OF same] same
    by (auto simp: ListContestPracticeCells_def same_data_def split: if_splits)
  then obtain r rs where g: "filter (\<lambda>r. belongs platform contestID ?ps r \<and> (sl_user r, ext_of platform contestID r) = (cu_UserID c, cu_ExternalID c)) ?S = r # rs"
    and post: "\<exists>x\<in>set (r # rs). fin < sl_time x" and none: "\<forall>x\<in>set (r # rs). sl_time x \<le> fin \<longrightarrow> \<not> IsAcceptedStatus (sl_status x)"
    and first: "cu_FirstACAt c = map_option sl_time (find ?late (r # rs))"
    and st: "cu_Status c = (if cu_FirstACAt c = None then ContestCellUpsolveTried else ContestCellUpsolve)"
    by (rule practice_cells_mem)
  have G: "set (r # rs) = {x \<in> set ?S. mine x}"
    unfolding g[symmetric] using scan_memD by (fastforce simp: mine_def practised_def)
  have early: "x \<in> set (r # rs)" if "x \<in> set (submits w)" "mine x" "y \<in> set (r # rs)" "sl_time x < sl_time y" for x y
    using that scan_earlier[of y _ _ x] unfolding G by (simp add: mine_def practised_def)
  have in_G: "x \<in> set (submits w) \<and> mine x" if "x \<in> set (r # rs)" for x
    using that scan_memD unfolding G by fast
  have acc: "fin < sl_time x" if "x \<in> set (submits w)" "mine x" "IsAcceptedStatus (sl_status x)" for x
  proof (rule ccontr)
    assume "\<not> fin < sl_time x"
    moreover obtain y where "y \<in> set (r # rs)" "fin < sl_time y" using post by blast
    ultimately show False using early[OF that(1,2)] none that(3) by force
  qed
  show ?thesis
  proof (cases "find ?late (r # rs)")
    case None
    then show ?thesis using post in_G acc first st by (auto simp: find_None_iff)
  next
    case (Some y)
    have "sorted (map sl_time (r # rs))" unfolding g[symmetric] by (rule sorted_filter) (rule scan_sorted)
    then have y: "?late y" "y \<in> set (r # rs)" "\<forall>x\<in>set (r # rs). ?late x \<longrightarrow> sl_time y \<le> sl_time x"
      using find_sorted[OF _ Some, of sl_time] by simp_all
    have le: "sl_time y \<le> sl_time x" if x: "x \<in> set (submits w)" "mine x" "IsAcceptedStatus (sl_status x)" for x
      using early[OF x(1,2) y(2)] y(3) acc[OF x] x(3) by fastforce
    show ?thesis using y in_G[OF y(2)] le acc first st Some by auto
  qed
qed

subsection \<open>Merging\<close>

definition contest_ac :: "ContestUserProblem \<Rightarrow> bool" where
  "contest_ac c \<longleftrightarrow> cu_Status c = ContestCellAC \<and> cu_RelativeSec c \<noteq> None"

definition solved :: "ContestUserProblem \<Rightarrow> bool" where
  "solved c \<longleftrightarrow> cu_Status c \<in> {ContestCellAC, ContestCellUpsolve}"

text \<open>What the inferences produce: an acceptance with its time in the contest, an attempt, or an acceptance afterwards.\<close>

definition fresh :: "ContestUserProblem \<Rightarrow> bool" where
  "fresh c \<longleftrightarrow> contest_ac c \<or> cu_Status c = ContestCellTried \<or> cu_Status c = ContestCellUpsolve \<and> cu_RelativeSec c = None"

definition progress :: "ContestUserProblem \<Rightarrow> ContestUserProblem \<Rightarrow> bool" where
  "progress a b \<longleftrightarrow> cell_key a = cell_key b \<and> (contest_ac a \<longrightarrow> contest_ac b) \<and> (solved a \<longrightarrow> solved b)"

lemma progress_refl [simp]: "progress c c"
  by (simp add: progress_def)

lemma progress_trans: "progress a b \<Longrightarrow> progress b c \<Longrightarrow> progress a c"
  by (simp add: progress_def)

lemma merge_parts [simp]:
  "cu_Status (earlier_ac p c) = cu_Status c" "cu_RelativeSec (earlier_ac p c) = cu_RelativeSec c" "cell_key (earlier_ac p c) = cell_key c"
  "cu_Status (more_attempts p c) = cu_Status c" "cu_RelativeSec (more_attempts p c) = cu_RelativeSec c" "cell_key (more_attempts p c) = cell_key c"
  "cu_Status (keep_label p c) = cu_Status c" "cu_RelativeSec (keep_label p c) = cu_RelativeSec c" "cell_key (keep_label p c) = cell_key c"
  by (simp_all add: earlier_ac_def more_attempts_def keep_label_def cell_key_def)

lemma cell_key_columns [simp]:
  "cell_key (c\<lparr>cu_RelativeSec := r\<rparr>) = cell_key c" "cell_key (c\<lparr>cu_Label := l\<rparr>) = cell_key c"
  by (simp_all add: cell_key_def)

text \<open>The three kinds of incoming cell.\<close>

lemma merge_new [simp]: "mergeContestCellIncoming None nxt = (nxt, True)"
  by (simp add: mergeContestCellIncoming_def)

lemma merge_ac: "cu_Status nxt = ContestCellAC \<Longrightarrow> mergeContestCellIncoming (Some prev) nxt = (nxt, True)"
  by (simp add: mergeContestCellIncoming_def)

lemma merge_tried:
  "cu_Status nxt = ContestCellTried \<Longrightarrow> mergeContestCellIncoming (Some prev) nxt =
     (if cu_Status prev = ContestCellAC then (prev, False)
      else if cu_Status prev = ContestCellUpsolve then
        ((if trim_space (cu_Label nxt) \<noteq> '''' then (more_attempts nxt prev)\<lparr>cu_Label := cu_Label nxt\<rparr> else more_attempts nxt prev)\<lparr>cu_RelativeSec := None\<rparr>, True)
      else (nxt, True))"
  by (simp add: mergeContestCellIncoming_def Let_def)

lemma merge_upsolve:
  "cu_Status nxt = ContestCellUpsolve \<Longrightarrow> mergeContestCellIncoming (Some prev) nxt =
     (if cu_Status prev = ContestCellAC then
        (if isDirtyContestACForUpsolve prev nxt
         then (keep_label prev (more_attempts prev (earlier_ac prev (nxt\<lparr>cu_RelativeSec := None\<rparr>))), True) else (prev, False))
      else if cu_Status prev = ContestCellUpsolve then ((more_attempts prev (earlier_ac prev nxt))\<lparr>cu_RelativeSec := None\<rparr>, True)
      else (keep_label prev (if cu_Status prev = ContestCellTried then more_attempts prev (nxt\<lparr>cu_RelativeSec := None\<rparr>) else nxt\<lparr>cu_RelativeSec := None\<rparr>), True))"
  by (simp add: mergeContestCellIncoming_def Let_def)

lemma dirty_not_contest_ac: "isDirtyContestACForUpsolve prev nxt \<Longrightarrow> \<not> contest_ac prev"
  by (simp add: isDirtyContestACForUpsolve_def contest_ac_def)

lemma merge_progress:
  assumes "fresh nxt" "cell_key prev = cell_key nxt"
  shows "progress prev (fst (mergeContestCellIncoming (Some prev) nxt))"
proof -
  consider "contest_ac nxt" | "cu_Status nxt = ContestCellTried" | "cu_Status nxt = ContestCellUpsolve"
    using assms(1) by (auto simp: fresh_def)
  then show ?thesis
  proof cases
    case 1
    then show ?thesis using assms(2) by (simp add: merge_ac contest_ac_def progress_def solved_def)
  next
    case 2
    then show ?thesis using assms(2) by (simp add: merge_tried progress_def solved_def contest_ac_def)
  next
    case 3
    then show ?thesis using assms(2) dirty_not_contest_ac[of prev nxt]
      by (auto simp: merge_upsolve progress_def solved_def contest_ac_def)
  qed
qed

lemma merge_key:
  assumes "\<And>p. prev = Some p \<Longrightarrow> cell_key p = cell_key nxt"
  shows "cell_key (fst (mergeContestCellIncoming prev nxt)) = cell_key nxt"
  using assms by (cases prev) (simp_all add: mergeContestCellIncoming_def Let_def)

lemma progress_overwrite:
  assumes "progress c r"
  shows "progress c (overwrite_cell s c r)"
  using assms by (simp add: progress_def cell_key_def contest_ac_def solved_def overwrite_cell_def)

subsection \<open>The table of cells\<close>

definition cells_keyed :: "contests \<Rightarrow> bool" where
  "cells_keyed w \<longleftrightarrow> distinct (map cell_key (user_problems w))"

text \<open>No two spellings of one problem, among the stored cells and the submissions of a contest.\<close>

definition spelled_alike :: "string list \<Rightarrow> bool" where
  "spelled_alike xs \<longleftrightarrow> (\<forall>a\<in>set xs. \<forall>b\<in>set xs. to_lower (trim_space a) = to_lower (trim_space b) \<longrightarrow> a = b)"

definition contest_cells :: "string \<Rightarrow> string \<Rightarrow> contests \<Rightarrow> ContestUserProblem list" where
  "contest_cells platform contestID w = filter (\<lambda>c. cu_Platform c = platform \<and> cu_ContestID c = contestID) (user_problems w)"

definition contest_exts :: "string \<Rightarrow> string \<Rightarrow> contests \<Rightarrow> string list" where
  "contest_exts platform contestID w = map cu_ExternalID (contest_cells platform contestID w)
     @ map (ext_of platform contestID) (filter (belongs platform contestID (loadContestProblemSet w platform contestID)) (submits w))"

lemma cell_key_overwrite [simp]: "cell_key (overwrite_cell s c r) = cell_key c"
  by (simp add: cell_key_def overwrite_cell_def)

lemma map_key_upsert: "map cell_key (upsert_cell s r rows) =
   (if \<exists>c\<in>set rows. cell_key c = cell_key r then map cell_key rows else map cell_key rows @ [cell_key r])"
  by (auto simp: upsert_cell_def)

lemma int_str_no_nul: "CHR 0x00 \<notin> set (int_str u)"
  using nat_str_digits[of "CHR 0x00"] by (auto simp: int_str_def is_digit_char_def)

lemma split_last:
  "xs @ c # ys = xs' @ c # ys' \<Longrightarrow> c \<notin> set ys \<Longrightarrow> c \<notin> set ys' \<Longrightarrow> xs = xs' \<and> ys = ys'"
proof (induction xs arbitrary: xs')
  case Nil
  then show ?case by (auto simp: Cons_eq_append_conv)
next
  case (Cons x xs)
  then show ?case by (cases xs') auto
qed

lemma cupKey_inj: "cupKey u e = cupKey u' e' \<longleftrightarrow> u = u' \<and> to_lower (trim_space e) = to_lower (trim_space e')"
  using split_last[of "to_lower (trim_space e)" "CHR 0x00" "int_str u" "to_lower (trim_space e')" "int_str u'"] int_str_no_nul
  by (auto simp: cupKey_def)

lemma upsert_progress:
  assumes "c \<in> set rows" "\<And>x. x \<in> set rows \<Longrightarrow> cell_key x = cell_key r \<Longrightarrow> progress x r"
  shows "\<exists>c'\<in>set (upsert_cell s r rows). progress c c'"
proof (cases "cell_key c = cell_key r")
  case True
  then show ?thesis
    using assms progress_overwrite[of c r s] by (auto simp: upsert_cell_def intro!: bexI[of _ "overwrite_cell s c r"])
next
  case False
  then show ?thesis using assms(1) by (auto simp: upsert_cell_def intro!: bexI[of _ c])
qed

lemma spelled_alikeD:
  "spelled_alike xs \<Longrightarrow> a \<in> set xs \<Longrightarrow> b \<in> set xs \<Longrightarrow> to_lower (trim_space a) = to_lower (trim_space b) \<Longrightarrow> a = b"
  by (simp add: spelled_alike_def)

subsection \<open>One batch\<close>

definition batch_ok :: "contests \<Rightarrow> string \<Rightarrow> string \<Rightarrow> ContestUserProblem list \<Rightarrow> bool" where
  "batch_ok w platform contestID incoming \<longleftrightarrow>
     cells_keyed w \<and> distinct (map cell_key incoming)
     \<and> spelled_alike (map cu_ExternalID (contest_cells platform contestID w @ incoming))
     \<and> (\<forall>c\<in>set incoming. cu_Platform c = platform \<and> cu_ContestID c = contestID)"

lemma map_of_drop_key: "map_of (drop_key k kvs) j = (if j = k then None else map_of kvs j)"
proof (induction kvs)
  case (Cons kv kvs)
  then show ?case by (cases kv) (auto simp: drop_key_def split: if_splits)
qed (simp add: drop_key_def)

lemma map_of_put_key: "map_of (put_key k v kvs) = (map_of kvs)(k \<mapsto> v)"
  by (rule ext) (simp add: put_key_def map_of_drop_key)

lemma fold_upd_mem: "x \<in> set xs \<Longrightarrow> fold (\<lambda>x m. m(f x \<mapsto> g x)) xs m (f x) \<noteq> None"
  by (induction xs rule: rev_induct) auto

lemma map_of_index: "map_of (fold (\<lambda>r out. put_key (f r) r out) rows kvs) = fold (\<lambda>r m. m(f r \<mapsto> r)) rows (map_of kvs)"
  by (induction rows arbitrary: kvs) (simp_all add: map_of_put_key)

lemma batch_key:
  assumes "batch_ok w platform contestID incoming" "nxt \<in> set incoming"
    "r \<in> set (contest_cells platform contestID w @ incoming)"
  shows "cupKey (cu_UserID r) (cu_ExternalID r) = cupKey (cu_UserID nxt) (cu_ExternalID nxt) \<longleftrightarrow> cell_key r = cell_key nxt"
proof -
  have "to_lower (trim_space (cu_ExternalID r)) = to_lower (trim_space (cu_ExternalID nxt)) \<longleftrightarrow> cu_ExternalID r = cu_ExternalID nxt"
  proof -
    have alike: "spelled_alike (map cu_ExternalID (contest_cells platform contestID w @ incoming))"
      using assms(1) by (simp add: batch_ok_def)
    have r: "cu_ExternalID r \<in> set (map cu_ExternalID (contest_cells platform contestID w @ incoming))"
      using assms(3) by auto
    have n: "cu_ExternalID nxt \<in> set (map cu_ExternalID (contest_cells platform contestID w @ incoming))"
      using assms(2) by auto
    show ?thesis using spelled_alikeD[OF alike r n] by auto
  qed
  moreover have "cu_Platform r = cu_Platform nxt" "cu_ContestID r = cu_ContestID nxt"
    using assms by (auto simp: batch_ok_def contest_cells_def)
  ultimately show ?thesis by (auto simp: cupKey_inj cell_key_def)
qed

text \<open>What the index returns for an incoming cell is the stored row of the same key.\<close>

lemma index_lookup:
  assumes ok: "batch_ok w platform contestID incoming" and nxt: "nxt \<in> set incoming"
  shows "map_of (loadContestUserProblemIndex w platform contestID (remdups (map cu_UserID incoming))) (cupKey (cu_UserID nxt) (cu_ExternalID nxt)) = Some r
    \<longleftrightarrow> r \<in> set (user_problems w) \<and> cell_key r = cell_key nxt"
proof -
  let ?k = "\<lambda>r. cupKey (cu_UserID r) (cu_ExternalID r)"
  define rows where "rows = filter (\<lambda>r. cu_Platform r = platform \<and> cu_ContestID r = contestID \<and> cu_UserID r \<in> set (remdups (map cu_UserID incoming))) (user_problems w)"
  define m where "m = fold (\<lambda>r m. m(?k r \<mapsto> r)) rows Map.empty"
  have sub: "r \<in> set (contest_cells platform contestID w @ incoming)" if "r \<in> set rows" for r
    using that by (auto simp: rows_def contest_cells_def)
  have row: "r \<in> set rows" if "r \<in> set (user_problems w)" "cell_key r = cell_key nxt" for r
    using that ok nxt by (force simp: rows_def cell_key_def batch_ok_def)
  have uniq: "x = r" if "x \<in> set rows" "cell_key x = cell_key r" "r \<in> set rows" for x r
    using that ok by (auto simp: rows_def batch_ok_def cells_keyed_def distinct_map inj_on_def)
  have hit: "x \<in> set (user_problems w) \<and> cell_key x = cell_key nxt" if "m (?k nxt) = Some x" for x
    using fold_upd_Some[OF that[unfolded m_def]] batch_key[OF ok nxt sub] by (auto simp: rows_def)
  have "m (?k nxt) = Some r" if r: "r \<in> set (user_problems w)" "cell_key r = cell_key nxt"
  proof (cases "m (?k nxt)")
    case None
    have "?k r = ?k nxt" using batch_key[OF ok nxt sub[OF row[OF r]]] r by simp
    then show ?thesis using None fold_upd_mem[OF row[OF r], of ?k "\<lambda>r. r" Map.empty] unfolding m_def by simp
  next
    case (Some x)
    then show ?thesis using hit[OF Some] uniq[of x r] row r by simp
  qed
  moreover have "map_of (loadContestUserProblemIndex w platform contestID (remdups (map cu_UserID incoming))) = m"
    by (simp add: loadContestUserProblemIndex_def m_def rows_def map_of_index)
  ultimately show ?thesis using hit by auto
qed

lemma upsert_other: "x \<in> set (upsert_cell s m rows) \<Longrightarrow> cell_key x \<noteq> cell_key m \<Longrightarrow> x \<in> set rows"
  by (auto simp: upsert_cell_def split: if_splits)

lemma upserts_progress:
  assumes "distinct (map cell_key rs)" "\<And>m x. m \<in> set rs \<Longrightarrow> x \<in> set rows \<Longrightarrow> cell_key x = cell_key m \<Longrightarrow> progress x m" "c \<in> set rows"
  shows "\<exists>c'\<in>set (fold (upsert_cell s) rs rows). progress c c'"
  using assms
proof (induction rs arbitrary: rows c)
  case (Cons m rs)
  obtain c1 where c1: "c1 \<in> set (upsert_cell s m rows)" "progress c c1"
    using upsert_progress[of c rows m s] Cons.prems(2,3) by auto
  have "progress x m'" if "m' \<in> set rs" "x \<in> set (upsert_cell s m rows)" "cell_key x = cell_key m'" for m' x
  proof -
    have "cell_key m \<noteq> cell_key m'" using Cons.prems(1) that(1) by (auto simp: image_iff)
    then show ?thesis using upsert_other[OF that(2)] that Cons.prems(2)[of m' x] by simp
  qed
  then have "\<exists>c'\<in>set (fold (upsert_cell s) rs (upsert_cell s m rows)). progress c1 c'"
    using Cons.IH[OF _ _ c1(1)] Cons.prems(1) by simp
  then show ?case using progress_trans[OF c1(2)] by auto
qed (auto intro: progress_refl)

lemma upserts_keys: "set (map cell_key (fold (upsert_cell s) rs rows)) = set (map cell_key rows) \<union> set (map cell_key rs)"
proof (induction rs arbitrary: rows)
  case (Cons m rs)
  have "set (map cell_key (upsert_cell s m rows)) = insert (cell_key m) (set (map cell_key rows))"
    unfolding map_key_upsert by (auto simp: image_iff) metis
  then show ?case using Cons.IH[of "upsert_cell s m rows"] by simp
qed simp

lemma upsert_cells_distinct: "distinct (map cell_key rows) \<Longrightarrow> distinct (map cell_key (fold (upsert_cell s) rs rows))"
proof (induction rs arbitrary: rows)
  case (Cons m rs)
  have "distinct (map cell_key (upsert_cell s m rows))"
    using Cons.prems unfolding map_key_upsert by (auto simp: image_iff)
  then show ?case using Cons.IH by simp
qed simp

text \<open>Each cell that a merge writes has the key of its incoming cell and continues the stored row.\<close>

lemma to_write:
  assumes ok: "batch_ok w platform contestID incoming" and nxt: "nxt \<in> set incoming"
    and m: "cell_to_write (loadContestUserProblemIndex w platform contestID (remdups (map cu_UserID incoming))) nxt = Some m"
  shows "cell_key m = cell_key nxt" "fresh nxt \<Longrightarrow> x \<in> set (user_problems w) \<Longrightarrow> cell_key x = cell_key m \<Longrightarrow> progress x m"
proof -
  define prev where "prev = map_of (loadContestUserProblemIndex w platform contestID (remdups (map cu_UserID incoming))) (cupKey (cu_UserID nxt) (cu_ExternalID nxt))"
  have look: "prev = Some r \<longleftrightarrow> r \<in> set (user_problems w) \<and> cell_key r = cell_key nxt" for r
    unfolding prev_def by (rule index_lookup[OF ok nxt])
  have m: "m = fst (mergeContestCellIncoming prev nxt)"
    using m by (auto simp: cell_to_write_def prev_def[symmetric] Let_def split: prod.splits if_splits)
  show key: "cell_key m = cell_key nxt" unfolding m by (rule merge_key) (use look in blast)
  show "progress x m" if "fresh nxt" "x \<in> set (user_problems w)" "cell_key x = cell_key m"
  proof -
    have k: "cell_key x = cell_key nxt" using that(3) key by simp
    then have p: "prev = Some x" using look[of x] that(2) by blast
    show ?thesis unfolding m p by (rule merge_progress[OF that(1) k])
  qed
qed

lemma merge_upserts_distinct:
  assumes ok: "batch_ok w platform contestID incoming"
  shows "distinct (map cell_key (mergeContestCellUpserts w platform contestID incoming))"
proof -
  have "distinct (map cell_key (List.map_filter f xs)) \<and> cell_key ` set (List.map_filter f xs) \<subseteq> cell_key ` set xs"
    if "\<And>x y. x \<in> set xs \<Longrightarrow> f x = Some y \<Longrightarrow> cell_key y = cell_key x" "distinct (map cell_key xs)"
    for f and xs :: "ContestUserProblem list"
    using that
  proof (induction xs)
    case (Cons x xs)
    have IH: "distinct (map cell_key (List.map_filter f xs))" "cell_key ` set (List.map_filter f xs) \<subseteq> cell_key ` set xs"
      using Cons.IH Cons.prems by simp_all
    show ?case
    proof (cases "f x")
      case (Some y)
      then have "cell_key y = cell_key x" using Cons.prems(1)[of x y] by simp
      moreover have "cell_key x \<notin> cell_key ` set (List.map_filter f xs)" using IH(2) Cons.prems(2) by auto
      ultimately show ?thesis using IH Some by (auto simp: map_filter_simps simp del: image_iff)
    qed (use IH in \<open>auto simp: map_filter_simps\<close>)
  qed (simp add: map_filter_simps)
  then show ?thesis
    unfolding mergeContestCellUpserts_def using to_write(1)[OF ok] ok by (metis (no_types, lifting) batch_ok_def)
qed

text \<open>So the write never fails, keeps the keys apart, and every stored cell goes on.\<close>

lemma store_progress:
  assumes ok: "batch_ok w platform contestID cells" and new: "\<forall>c\<in>set cells. fresh c"
    and st: "store_inferred platform contestID cells w = (w', r)"
  shows "r \<noteq> None \<and> cells_keyed w' \<and> (\<forall>c\<in>set (user_problems w). \<exists>c'\<in>set (user_problems w'). progress c c')
    \<and> set (map cell_key (user_problems w')) \<subseteq> set (map cell_key (user_problems w)) \<union> set (map cell_key cells)
    \<and> submits w' = submits w \<and> contest_problems w' = contest_problems w"
proof -
  let ?rows = "mergeContestCellUpserts w platform contestID cells"
  have d: "distinct (map cell_key ?rows)" by (rule merge_upserts_distinct[OF ok])
  have mem: "\<exists>nxt\<in>set cells. cell_to_write (loadContestUserProblemIndex w platform contestID (remdups (map cu_UserID cells))) nxt = Some m" if "m \<in> set ?rows" for m
    using that by (auto simp: mergeContestCellUpserts_def map_filter_def)
  have prog: "progress x m" if "m \<in> set ?rows" "x \<in> set (user_problems w)" "cell_key x = cell_key m" for m x
    using mem[OF that(1)] to_write(2)[OF ok] new that by blast
  have keys: "set (map cell_key ?rows) \<subseteq> set (map cell_key cells)"
    using mem to_write(1)[OF ok] by (fastforce simp: image_iff)
  have "list_all (\<lambda>st. distinct (map cell_key st)) (chunks 100 ?rows)"
    using chunks_distinct[of 100 cell_key ?rows] d by (simp add: list_all_iff)
  then have w: "write_cells False ?rows w = Some (w\<lparr>user_problems := fold (upsert_cell False) ?rows (user_problems w)\<rparr>)"
    by (simp add: write_cells_def)
  let ?w = "w\<lparr>user_problems := fold (upsert_cell False) ?rows (user_problems w)\<rparr>"
  have p: "\<forall>c\<in>set (user_problems w). \<exists>c'\<in>set (user_problems ?w). progress c c'"
  proof
    fix c assume c: "c \<in> set (user_problems w)"
    have "\<exists>c'\<in>set (fold (upsert_cell False) ?rows (user_problems w)). progress c c'"
      by (rule upserts_progress[OF d _ c]) (rule prog)
    then show "\<exists>c'\<in>set (user_problems ?w). progress c c'" by simp
  qed
  have k: "cells_keyed ?w" using upsert_cells_distinct[of "user_problems w" False ?rows] ok by (simp add: batch_ok_def cells_keyed_def)
  have m: "set (map cell_key (user_problems ?w)) \<subseteq> set (map cell_key (user_problems w)) \<union> set (map cell_key cells)"
    using upserts_keys[of False ?rows "user_problems w"] keys by auto
  have w': "w' = (if ?rows = [] then w else ?w)" "r \<noteq> None" using st w by (auto simp: store_inferred_def Let_def split: if_splits)
  show ?thesis
  proof (cases "?rows = []")
    case True
    moreover have "\<forall>c\<in>set (user_problems w). \<exists>c'\<in>set (user_problems w). progress c c'" by (blast intro: progress_refl)
    ultimately show ?thesis using w' ok by (simp add: batch_ok_def)
  next
    case False
    then have "w' = ?w" using w' by simp
    then show ?thesis using p k m w'(2) by simp
  qed
qed

subsection \<open>The passes of the crawler\<close>

lemma infer_fold:
  fixes a :: infer_agg
  shows "ia_ext (fold infer_count rs a) = ia_ext a"
    and "(ia_ac a \<longrightarrow> ia_firstAC a \<noteq> None) \<Longrightarrow> ia_ac (fold infer_count rs a) \<longrightarrow> ia_firstAC (fold infer_count rs a) \<noteq> None"
  by (induction rs rule: rev_induct) (auto simp: infer_count_def)

lemma tally_keys:
  assumes T: "T = tally P key v0 step rows" and k: "\<And>k v. (k, v) \<in> set T \<Longrightarrow> cell_key (mk (k, v)) = (p, c, k)"
  shows "distinct (map cell_key (map mk T))"
proof -
  have "map cell_key (map mk T) = map (\<lambda>k. (p, c, k)) (map fst T)" using k by (auto simp: o_def)
  then show ?thesis using distinct_tally[of P key v0 step rows] unfolding T by (simp add: distinct_map inj_on_def)
qed

lemma inferred_mem:
  assumes "(k, a) \<in> set (fold (infer_row p c ps) rows [])"
  shows "ia_ext a = snd k \<and> (ia_ac a \<longrightarrow> ia_firstAC a \<noteq> None) \<and> (\<exists>r\<in>set rows. belongs p c ps r \<and> ext_of p c r = snd k)"
proof -
  from assms[unfolded infer_rows] show ?thesis
  proof (rule tallied)
    fix r rs assume g: "filter (\<lambda>r. belongs p c ps r \<and> (sl_user r, ext_of p c r) = k) rows = r # rs"
      and a: "a = fold infer_count (r # rs) \<lparr>ia_label = infer_label p c ps r, ia_ext = ext_of p c r, ia_attempts = 0, ia_ac = False, ia_firstAC = None\<rparr>"
    have "r \<in> set rows \<and> belongs p c ps r \<and> (sl_user r, ext_of p c r) = k" using g by (auto simp: filter_eq_Cons_iff)
    then show ?thesis
      unfolding a
      using infer_fold[where rs = "r # rs" and a = "\<lparr>ia_label = infer_label p c ps r, ia_ext = ext_of p c r, ia_attempts = 0, ia_ac = False, ia_firstAC = None\<rparr>"]
      by (auto simp del: fold_simps)
  qed
qed

lemma upsolve_mem:
  assumes "(k, a) \<in> set (fold (upsolve_row p c ps) rows [])"
  shows "fa_ext a = snd k \<and> (\<exists>r\<in>set rows. belongs p c ps r \<and> ext_of p c r = snd k)"
proof -
  have id: "fold (\<lambda>r a. a) rs a0 = a0" for rs and a0 :: first_ac by (induction rs) auto
  from assms[unfolded upsolve_rows] show ?thesis
  proof (rule tallied)
    fix r rs assume g: "filter (\<lambda>r. (IsAcceptedStatus (sl_status r) \<and> belongs p c ps r) \<and> (sl_user r, ext_of p c r) = k) rows = r # rs"
      and a: "a = fold (\<lambda>r a. a) (r # rs) \<lparr>fa_label = upsolve_label p c ps r, fa_ext = ext_of p c r, fa_at = sl_time r\<rparr>"
    have "r \<in> set rows \<and> belongs p c ps r \<and> (sl_user r, ext_of p c r) = k" using g by (auto simp: filter_eq_Cons_iff)
    then show ?thesis unfolding a id by auto
  qed
qed

lemma scan_ext:
  assumes "\<exists>r\<in>set (scan P (submits w)). belongs p c (loadContestProblemSet w p c) r \<and> ext_of p c r = e"
  shows "e \<in> set (contest_exts p c w)"
proof -
  obtain r where "r \<in> set (scan P (submits w))" "belongs p c (loadContestProblemSet w p c) r" "ext_of p c r = e" using assms by blast
  then show ?thesis using scan_memD[of r P "submits w"] by (auto simp: contest_exts_def)
qed

lemma spelled_alike_mono: "spelled_alike ys \<Longrightarrow> set xs \<subseteq> set ys \<Longrightarrow> spelled_alike xs"
  unfolding spelled_alike_def by (meson subsetD)

text \<open>A batch made of submissions of a contest that are all spelled alike.\<close>

lemma batch_of_exts:
  assumes "cells_keyed w" "spelled_alike (contest_exts p c w)" "distinct (map cell_key cells)"
    and "\<And>x. x \<in> set cells \<Longrightarrow> cu_Platform x = p \<and> cu_ContestID x = c \<and> cu_ExternalID x \<in> set (contest_exts p c w)"
  shows "batch_ok w p c cells"
proof -
  have "set (map cu_ExternalID (contest_cells p c w @ cells)) \<subseteq> set (contest_exts p c w)"
    using assms(4) by (auto simp: contest_exts_def)
  then have "spelled_alike (map cu_ExternalID (contest_cells p c w @ cells))" by (rule spelled_alike_mono[OF assms(2)])
  then show ?thesis using assms(1,3,4) by (simp add: batch_ok_def)
qed

lemma inferred_batch:
  assumes w: "cells_keyed w" "spelled_alike (contest_exts p c w)" and start: "\<not> is_zero_time start"
  shows "batch_ok w p c (inferred p c us start fin w)" "\<forall>x\<in>set (inferred p c us start fin w). fresh x"
    "set (map cu_ExternalID (inferred p c us start fin w)) \<subseteq> set (contest_exts p c w)"
proof -
  let ?ps = "loadContestProblemSet w p c"
  let ?S = "scan (\<lambda>r. real_row p r \<and> sl_user r \<in> set us \<and> start \<le> sl_time r \<and> sl_time r \<le> fin) (submits w)"
  let ?T = "fold (infer_row p c ?ps) ?S []"
  have mem: "ia_ext a = snd k \<and> (ia_ac a \<longrightarrow> ia_firstAC a \<noteq> None) \<and> snd k \<in> set (contest_exts p c w)" if "(k, a) \<in> set ?T" for k a
    using inferred_mem[OF that] scan_ext[where e = "snd k" and w = w and p = p and c = c] by blast
  have d: "distinct (map cell_key (map (inferred_cell p c start) ?T))"
    by (rule tally_keys[OF infer_rows, where p = p and c = c])
       (use mem in \<open>force simp: infer_rows inferred_cell_def cell_key_def split: prod.splits\<close>)
  show "batch_ok w p c (inferred p c us start fin w)"
    by (rule batch_of_exts[OF w]) (use d mem in \<open>auto simp: inferred_def inferred_cell_def split: prod.splits\<close>)
  show "set (map cu_ExternalID (inferred p c us start fin w)) \<subseteq> set (contest_exts p c w)"
    using mem by (auto simp: inferred_def inferred_cell_def split: prod.splits)
  show "\<forall>x\<in>set (inferred p c us start fin w). fresh x"
    using mem start by (auto simp: inferred_def inferred_cell_def fresh_def contest_ac_def split: prod.splits)
qed

lemma upsolved_batch:
  assumes w: "cells_keyed w" "spelled_alike (contest_exts p c w)"
  shows "batch_ok w p c (upsolved p c us now fin w)" "\<forall>x\<in>set (upsolved p c us now fin w). fresh x"
    "set (map cu_ExternalID (upsolved p c us now fin w)) \<subseteq> set (contest_exts p c w)"
proof -
  let ?ps = "loadContestProblemSet w p c"
  let ?S = "scan (\<lambda>r. real_row p r \<and> sl_user r \<in> set us \<and> fin < sl_time r \<and> sl_time r \<le> upsolve_end now fin) (submits w)"
  let ?T = "fold (upsolve_row p c ?ps) ?S []"
  have mem: "fa_ext a = snd k \<and> snd k \<in> set (contest_exts p c w)" if "(k, a) \<in> set ?T" for k a
    using upsolve_mem[OF that] scan_ext[where e = "snd k" and w = w and p = p and c = c] by blast
  have d: "distinct (map cell_key (map (upsolve_cell p c) ?T))"
    by (rule tally_keys[OF upsolve_rows, where p = p and c = c])
       (use mem in \<open>force simp: upsolve_rows upsolve_cell_def cell_key_def split: prod.splits\<close>)
  show "batch_ok w p c (upsolved p c us now fin w)"
    by (rule batch_of_exts[OF w]) (use d mem in \<open>auto simp: upsolved_def upsolve_cell_def split: prod.splits\<close>)
  show "set (map cu_ExternalID (upsolved p c us now fin w)) \<subseteq> set (contest_exts p c w)"
    using mem by (auto simp: upsolved_def upsolve_cell_def split: prod.splits)
  show "\<forall>x\<in>set (upsolved p c us now fin w). fresh x"
    by (auto simp: upsolved_def upsolve_cell_def fresh_def split: prod.splits)
qed

definition goes_on :: "contests \<Rightarrow> contests \<Rightarrow> bool" where
  "goes_on w w' \<longleftrightarrow> (\<forall>c\<in>set (user_problems w). \<exists>c'\<in>set (user_problems w'). progress c c')"

lemma goes_on_refl [simp]: "goes_on w w"
  unfolding goes_on_def by (blast intro: progress_refl)

lemma goes_on_trans: "goes_on a b \<Longrightarrow> goes_on b c \<Longrightarrow> goes_on a c"
  unfolding goes_on_def by (blast intro: progress_trans)

text \<open>The state in which the passes of one platform run: keys apart, and each contest spelled alike.\<close>

definition crawl_ok :: "string \<Rightarrow> string set \<Rightarrow> contests \<Rightarrow> bool" where
  "crawl_ok platform cids w \<longleftrightarrow> cells_keyed w \<and> (\<forall>c\<in>cids. spelled_alike (contest_exts platform c w))"

lemma crawl_ok_same_data: "same_data w w' \<Longrightarrow> crawl_ok p cids w' \<longleftrightarrow> crawl_ok p cids w"
  using same_data_problem_set[of w w'] by (simp add: crawl_ok_def cells_keyed_def contest_exts_def contest_cells_def same_data_def)

lemma goes_on_same_data: "same_data w w' \<Longrightarrow> goes_on w' v \<longleftrightarrow> goes_on w v"
  by (simp add: goes_on_def same_data_def)

lemma stored_exts:
  assumes keys: "set (map cell_key (user_problems w')) \<subseteq> set (map cell_key (user_problems w)) \<union> set (map cell_key cells)"
    and cells: "\<And>x. x \<in> set cells \<Longrightarrow> cu_Platform x = p \<and> cu_ContestID x = c \<and> cu_ExternalID x \<in> set (contest_exts p c w)"
    and same: "submits w' = submits w" "contest_problems w' = contest_problems w"
  shows "set (contest_exts q d w') \<subseteq> set (contest_exts q d w)"
proof -
  have "cu_ExternalID x \<in> set (contest_exts q d w)" if x: "x \<in> set (contest_cells q d w')" for x
  proof -
    have k: "cell_key x \<in> set (map cell_key (user_problems w)) \<union> set (map cell_key cells)"
      using x keys by (auto simp: contest_cells_def)
    then obtain y where y: "cell_key x = cell_key y" "y \<in> set (user_problems w) \<or> y \<in> set cells" by auto
    then have e: "cu_ExternalID x = cu_ExternalID y" "cu_Platform y = q" "cu_ContestID y = d"
      using x by (auto simp: cell_key_def contest_cells_def)
    show ?thesis using y(2) cells[of y] e by (auto simp: contest_exts_def contest_cells_def)
  qed
  moreover have "loadContestProblemSet w' = loadContestProblemSet w" using same by (simp add: loadContestProblemSet_def fun_eq_iff)
  ultimately show ?thesis using same by (auto simp: contest_exts_def)
qed

lemma batch_exts:
  assumes "batch_ok w p c cells" "x \<in> set cells" "set (map cu_ExternalID cells) \<subseteq> set (contest_exts p c w)"
  shows "cu_Platform x = p \<and> cu_ContestID x = c \<and> cu_ExternalID x \<in> set (contest_exts p c w)"
  using assms by (auto simp: batch_ok_def)

lemma store_step:
  assumes ok: "crawl_ok p cids w" and batch: "batch_ok w p c cells" "\<forall>x\<in>set cells. fresh x" "set (map cu_ExternalID cells) \<subseteq> set (contest_exts p c w)"
    and st: "store_inferred p c cells w = (w', r)"
  shows "crawl_ok p cids w' \<and> goes_on w w' \<and> r \<noteq> None"
proof -
  note stored = store_progress[OF batch(1,2) st]
  then have "set (contest_exts q d w') \<subseteq> set (contest_exts q d w)" for q d
    by (intro stored_exts[of w' w cells p c]) (use batch_exts[OF batch(1) _ batch(3)] in auto)
  then have "\<forall>c\<in>cids. spelled_alike (contest_exts p c w')"
    using ok spelled_alike_mono unfolding crawl_ok_def by blast
  then show ?thesis using stored by (simp add: crawl_ok_def goes_on_def)
qed

lemma fetched_start:
  assumes res: "resolveContestWindow (Some fetch) now p c h w = (w', s, e)" and h: "0 \<le> h"
    and page: "\<forall>c x y z. fetch c = Some (x, y, z) \<longrightarrow> 0 < x"
  shows "\<not> is_zero_time s"
proof (cases "calendar_window w (trim_space p) (trim_space c)")
  case None
  obtain n u he t where hints: "nowCoderHintsFromLogs w (trim_space c) h = (n, u, he, t)" by (cases "nowCoderHintsFromLogs w (trim_space c) h")
  have t: "t = h \<and> he = zero_time"
    using hints hint_start_nonzero(1)[OF h] by (auto simp: nowCoderHintsFromLogs_def split: if_splits option.splits)
  have pos: "\<not> is_zero_time (k * second_ns)" if "0 < k" for k using that by (simp add: is_zero_time_def zero_time_def)
  have hint: "\<not> is_zero_time x" if "windowFromHint q h b = (x, y)" for q b x y
    using hint_start_nonzero(2)[OF h, of q b] that by simp
  have ens: "\<not> is_zero_time x" if "EnsureNowCoderContestCalendar fetch (trim_space c) n u h zero_time w = (w1, Some (x, y))" for w1 x y
    using that h page pos zero_time_neg
    by (auto simp: EnsureNowCoderContestCalendar_def page_times_def stored_times_def lookupContestCalendar_def Let_def
        split: if_splits option.splits)
  show ?thesis
    using res None hints t ens hint hint_start_nonzero(1)[OF h]
    by (auto simp: resolveContestWindow_def nowcoder_window_def Let_def split: if_splits option.splits prod.splits)
next
  case (Some x)
  then show ?thesis
    using res calendar_first(2)[of w p c "fst x" "snd x"] by (cases x) (auto simp: calendar_window_def calendarWindowValid_def Let_def split: option.splits if_splits)
qed

lemma infer_step:
  assumes st: "InferContestUserProblems fetch now p0 c0 us h w = (w', r)" and h: "0 \<le> h"
    and page: "\<forall>c x y z. fetch c = Some (x, y, z) \<longrightarrow> 0 < x"
    and ok: "crawl_ok (trim_space p0) cids w" "trim_space c0 \<in> cids"
  shows "crawl_ok (trim_space p0) cids w' \<and> goes_on w w'"
proof (cases "us = [] \<or> trim_space p0 = [] \<or> trim_space c0 = []")
  case False
  obtain w1 start fin where win: "resolveContestWindow (Some fetch) now (trim_space p0) (trim_space c0) h w = (w1, start, fin)"
    by (rule prod_cases3)
  note same = resolved_same_data[OF win]
  have ok1: "crawl_ok (trim_space p0) cids w1" using ok(1) crawl_ok_same_data[OF same] by simp
  have b: "cells_keyed w1" "spelled_alike (contest_exts (trim_space p0) (trim_space c0) w1)" using ok1 ok(2) by (simp_all add: crawl_ok_def)
  note batch = inferred_batch[OF b fetched_start[OF win h page], of us fin]
  have "store_inferred (trim_space p0) (trim_space c0) (inferred (trim_space p0) (trim_space c0) us start fin w1) w1 = (w', r)"
    using st False win by (auto simp: InferContestUserProblems_def Let_def)
  then show ?thesis
    using store_step[OF ok1 batch] goes_on_same_data[OF same] by blast
qed (use st ok in \<open>simp add: InferContestUserProblems_def Let_def\<close>)

lemma upsolve_step:
  assumes st: "InferContestUpsolves fetch now p0 c0 us h w = (w', r)"
    and ok: "crawl_ok (trim_space p0) cids w" "trim_space c0 \<in> cids"
  shows "crawl_ok (trim_space p0) cids w' \<and> goes_on w w'"
proof (cases "us = [] \<or> trim_space p0 = [] \<or> trim_space c0 = []")
  case False
  obtain w1 start fin where win: "resolveContestWindow (Some fetch) now (trim_space p0) (trim_space c0) h w = (w1, start, fin)"
    by (rule prod_cases3)
  note same = resolved_same_data[OF win]
  have ok1: "crawl_ok (trim_space p0) cids w1" using ok(1) crawl_ok_same_data[OF same] by simp
  have b: "cells_keyed w1" "spelled_alike (contest_exts (trim_space p0) (trim_space c0) w1)" using ok1 ok(2) by (simp_all add: crawl_ok_def)
  note batch = upsolved_batch[OF b, of us now fin]
  have "w' = w1 \<or> store_inferred (trim_space p0) (trim_space c0) (upsolved (trim_space p0) (trim_space c0) us now fin w1) w1 = (w', r)"
    using st False win by (auto simp: InferContestUpsolves_def Let_def split: if_splits)
  then show ?thesis
    using store_step[OF ok1 batch] goes_on_same_data[OF same] ok1 goes_on_refl by blast
qed (use st ok in \<open>simp add: InferContestUpsolves_def Let_def\<close>)

lemma crawl_step:
  assumes h: "0 \<le> cl_Time l" and cid: "trim_space (cl_ContestId l) \<in> cids" and ok: "crawl_ok (trim_space p0) cids w"
    and page: "\<forall>c x y z. fetch c = Some (x, y, z) \<longrightarrow> 0 < x"
  shows "crawl_ok (trim_space p0) cids (crawl_contest fetch now detailOK p0 u l w)
    \<and> goes_on w (crawl_contest fetch now detailOK p0 u l w)"
proof -
  define w1 where "w1 = (if detailOK then w else fst (InferContestUserProblemsForUser fetch now p0 (cl_ContestId l) u (cl_Time l) w))"
  have 1: "crawl_ok (trim_space p0) cids w1 \<and> goes_on w w1"
    using infer_step[OF prod.collapse[symmetric] h page ok cid, of now "[u]"] ok
    by (simp add: w1_def InferContestUserProblemsForUser_def)
  have "crawl_ok (trim_space p0) cids (crawl_contest fetch now detailOK p0 u l w) \<and> goes_on w1 (crawl_contest fetch now detailOK p0 u l w)"
    using upsolve_step[OF prod.collapse[symmetric], of p0 cids w1 "cl_ContestId l" fetch now "[u]" "cl_Time l"] cid 1
    by (simp add: crawl_contest_def w1_def[symmetric] InferContestUpsolvesForUser_def)
  then show ?thesis using 1 goes_on_trans by blast
qed

text \<open>C6: however often the crawler runs its passes over a user's contests, no cell is lost, a cell accepted during the contest (with
  its time) stays one, and a solved cell stays solved. Stored times are after 1970, the fetched page states a beginning after
  1970, and each problem of a contest is spelled in one way; an index that folds case, over a table that does not, is why
  the last is needed.\<close>

theorem crawl_keeps_solved:
  assumes keyed: "cells_keyed w"
    and logs: "\<forall>l\<in>set logs. 0 \<le> cl_Time l \<and> spelled_alike (contest_exts (trim_space platform) (trim_space (cl_ContestId l)) w)"
    and page: "\<forall>c x y z. fetch c = Some (x, y, z) \<longrightarrow> 0 < x"
  shows "cells_keyed (crawl_contests fetch now detailOK needAll platform user logs w)
    \<and> (\<forall>c\<in>set (user_problems w). \<exists>c'\<in>set (user_problems (crawl_contests fetch now detailOK needAll platform user logs w)).
         cell_key c' = cell_key c \<and> (contest_ac c \<longrightarrow> contest_ac c') \<and> (solved c \<longrightarrow> solved c'))"
proof -
  let ?C = "(\<lambda>l. trim_space (cl_ContestId l)) ` set logs"
  have step: "crawl_ok (trim_space platform) ?C (crawl_contest fetch now detailOK platform user l v)
      \<and> goes_on v (crawl_contest fetch now detailOK platform user l v)"
    if l: "l \<in> set logs" and v: "crawl_ok (trim_space platform) ?C v" for l v
    by (rule crawl_step[OF _ _ v page]) (use l logs in auto)
  have all: "crawl_ok (trim_space platform) ?C (fold (crawl_contest fetch now detailOK platform user) ls v)
      \<and> goes_on v (fold (crawl_contest fetch now detailOK platform user) ls v)"
    if "set ls \<subseteq> set logs" "crawl_ok (trim_space platform) ?C v" for ls v
    using that
  proof (induction ls arbitrary: v)
    case (Cons l ls)
    note now = step[of l v] and later = Cons.IH[of "crawl_contest fetch now detailOK platform user l v"]
    show ?case using now later Cons.prems goes_on_trans by auto
  qed simp
  have "crawl_ok (trim_space platform) ?C w" using keyed logs by (auto simp: crawl_ok_def)
  then have "crawl_ok (trim_space platform) ?C (crawl_contests fetch now detailOK needAll platform user logs w)
      \<and> goes_on w (crawl_contests fetch now detailOK needAll platform user logs w)"
    unfolding crawl_contests_def by (intro all) (auto dest: in_set_takeD)
  then show ?thesis unfolding crawl_ok_def goes_on_def progress_def by metis
qed

subsection \<open>A second merge\<close>

lemma before_irrefl [simp]: "\<not> before a a"
  by (simp add: before_def split: option.splits)

lemma before_antisym: "before a b \<Longrightarrow> \<not> before b a"
  by (auto simp: before_def split: option.splits)

lemma more_attempts_fields [simp]:
  "cu_Attempts (more_attempts p c) = max (cu_Attempts c) (cu_Attempts p)"
  "cu_Label (more_attempts p c) = cu_Label c" "cu_FirstACAt (more_attempts p c) = cu_FirstACAt c"
  by (auto simp: more_attempts_def)

lemma earlier_ac_fields [simp]:
  "cu_Attempts (earlier_ac p c) = cu_Attempts c" "cu_Label (earlier_ac p c) = cu_Label c"
  "cu_FirstACAt (earlier_ac p c) = (if before (cu_FirstACAt p) (cu_FirstACAt c) then cu_FirstACAt p else cu_FirstACAt c)"
  by (auto simp: earlier_ac_def)

lemma keep_label_id [simp]: "trim_space (cu_Label c) \<noteq> [] \<Longrightarrow> keep_label p c = c"
  by (simp add: keep_label_def)

text \<open>Merging a cell into the row that it was just merged into changes nothing.\<close>

lemma merge_again:
  assumes nxt: "fresh nxt" "trim_space (cu_Label nxt) \<noteq> []"
    and m: "mergeContestCellIncoming prev nxt = (m, True)" and row: "same_cell row m"
  shows "same_cell row (fst (mergeContestCellIncoming (Some row) nxt))"
proof -
  consider "contest_ac nxt" | "cu_Status nxt = ContestCellTried" | "cu_Status nxt = ContestCellUpsolve" "cu_RelativeSec nxt = None"
    using nxt(1) by (auto simp: fresh_def)
  then show ?thesis
  proof cases
    case 1
    then have "m = nxt" using m by (cases prev) (simp_all add: merge_ac contest_ac_def)
    then show ?thesis using 1 row by (simp add: merge_ac contest_ac_def)
  next
    case 2
    show ?thesis
    proof (cases "\<exists>p. prev = Some p \<and> cu_Status p = ContestCellUpsolve")
      case True
      then show ?thesis using m row 2 nxt(2) by (auto simp: merge_tried same_cell_def)
    next
      case False
      then have "m = nxt"
        using m 2 by (cases prev) (auto simp: merge_tried split: if_splits)
      then show ?thesis using 2 row by (auto simp: merge_tried same_cell_def)
    qed
  next
    case 3
    have "cu_Status m = ContestCellUpsolve \<and> cu_RelativeSec m = None \<and> cu_Label m = cu_Label nxt
        \<and> (cu_FirstACAt m = cu_FirstACAt nxt \<or> before (cu_FirstACAt m) (cu_FirstACAt nxt)) \<and> cu_Attempts nxt \<le> cu_Attempts m"
      using m 3 nxt(2) by (cases prev) (auto simp: merge_upsolve split: if_splits)
    then show ?thesis
      using row 3 nxt(2) before_antisym[of "cu_FirstACAt row" "cu_FirstACAt nxt"]
      by (auto simp: merge_upsolve same_cell_def)
  qed
qed

lemma upserts_keep: "x \<in> set rows \<Longrightarrow> cell_key x \<notin> set (map cell_key rs) \<Longrightarrow> x \<in> set (fold (upsert_cell s) rs rows)"
proof (induction rs arbitrary: rows)
  case (Cons m rs)
  then have "x \<in> set (upsert_cell s m rows)" by (auto simp: upsert_cell_def)
  then show ?case using Cons by simp
qed simp

lemma upserts_have:
  assumes "m \<in> set rs" "distinct (map cell_key rs)"
  shows "\<exists>x\<in>set (fold (upsert_cell s) rs rows). cell_key x = cell_key m \<and> same_cell x m"
  using assms
proof (induction rs arbitrary: rows)
  case (Cons r rs)
  show ?case
  proof (cases "m = r")
    case True
    obtain x where "x \<in> set (upsert_cell s r rows)" "cell_key x = cell_key r" "same_cell x r"
    proof (cases "\<exists>c\<in>set rows. cell_key c = cell_key r")
      case True
      then obtain c where "c \<in> set rows" "cell_key c = cell_key r" by blast
      then show ?thesis
        by (intro that[of "overwrite_cell s c r"]) (auto simp: upsert_cell_def same_cell_def overwrite_cell_def cell_key_def)
    next
      case False
      then show ?thesis by (intro that[of r]) (auto simp: upsert_cell_def same_cell_def)
    qed
    then show ?thesis using True upserts_keep[of x "upsert_cell s r rows" rs s] Cons.prems(2) by auto
  qed (use Cons in auto)
qed simp

lemma settled_cell:
  assumes ok: "batch_ok w p c cells" and new: "\<forall>x\<in>set cells. fresh x \<and> trim_space (cu_Label x) \<noteq> []"
    and st: "store_inferred p c cells w = (w', r)" and ok': "batch_ok w' p c cells" and nxt: "nxt \<in> set cells"
  shows "cell_to_write (loadContestUserProblemIndex w' p c (remdups (map cu_UserID cells))) nxt = None"
proof -
  let ?idx = "\<lambda>v. loadContestUserProblemIndex v p c (remdups (map cu_UserID cells))"
  let ?k = "cupKey (cu_UserID nxt) (cu_ExternalID nxt)" and ?rows = "mergeContestCellUpserts w p c cells"
  note look = index_lookup[OF ok nxt] and look' = index_lookup[OF ok' nxt]
  have d: "distinct (map cell_key ?rows)" by (rule merge_upserts_distinct[OF ok])
  have w': "user_problems w' = fold (upsert_cell False) ?rows (user_problems w)"
    using st store_progress[OF ok _ st] new
    by (auto simp: store_inferred_def write_cells_def Let_def split: if_splits)
  have again: "cell_to_write (?idx w') nxt = None"
    if row: "row \<in> set (user_problems w')" "cell_key row = cell_key nxt"
      and settled: "\<not> snd (mergeContestCellIncoming (Some row) nxt) \<or> same_cell row (fst (mergeContestCellIncoming (Some row) nxt))" for row
  proof -
    have "map_of (?idx w') ?k = Some row" using look'[of row] row by blast
    then show ?thesis using settled by (auto simp: cell_to_write_def Let_def split: prod.splits)
  qed
  show ?thesis
  proof (cases "cell_to_write (?idx w) nxt")
    case (Some m)
    have m: "mergeContestCellIncoming (map_of (?idx w) ?k) nxt = (m, True)"
      using Some by (auto simp: cell_to_write_def Let_def split: prod.splits if_splits)
    have "m \<in> set ?rows" using Some nxt by (force simp: mergeContestCellUpserts_def map_filter_def)
    then obtain row where row: "row \<in> set (user_problems w')" "cell_key row = cell_key m" "same_cell row m"
      using upserts_have[OF _ d, of m False "user_problems w"] w' by auto
    have "same_cell row (fst (mergeContestCellIncoming (Some row) nxt))"
      using merge_again[OF _ _ m row(3)] new nxt by simp
    then show ?thesis using again[OF row(1)] row(2) to_write(1)[OF ok nxt Some] by simp
  next
    case None
    then obtain row where row: "map_of (?idx w) ?k = Some row"
      "\<not> snd (mergeContestCellIncoming (Some row) nxt) \<or> same_cell row (fst (mergeContestCellIncoming (Some row) nxt))"
      by (cases "map_of (?idx w) ?k") (auto simp: cell_to_write_def Let_def split: prod.splits if_splits)
    have r: "row \<in> set (user_problems w)" "cell_key row = cell_key nxt" using look[of row] row(1) by auto
    have "cell_key row \<notin> set (map cell_key ?rows)"
    proof
      assume "cell_key row \<in> set (map cell_key ?rows)"
      then obtain x m where x: "x \<in> set cells" "cell_to_write (?idx w) x = Some m" "cell_key m = cell_key row"
        by (auto simp: mergeContestCellUpserts_def map_filter_def)
      then have "x = nxt" using to_write(1)[OF ok x(1,2)] r(2) nxt ok by (auto simp: batch_ok_def distinct_map inj_on_def)
      then show False using x(2) None by simp
    qed
    then have "row \<in> set (user_problems w')" using upserts_keep[OF r(1)] w' by simp
    then show ?thesis using again[OF _ r(2) row(2)] by simp
  qed
qed

text \<open>C26: writing the cells that an inference produced settles them: merging the same cells again, against the table just
  written, leaves nothing to write, whatever was stored before. The cells have labels, and those of the batch have
  different keys and one spelling.\<close>

theorem merge_settles:
  assumes ok: "batch_ok w platform contestID cells" and new: "\<forall>x\<in>set cells. fresh x \<and> trim_space (cu_Label x) \<noteq> []"
    and st: "store_inferred platform contestID cells w = (w', r)"
  shows "mergeContestCellUpserts w' platform contestID cells = [] \<and> store_inferred platform contestID cells w' = (w', Some 0)"
proof -
  have exts: "set (map cu_ExternalID (contest_cells platform contestID w' @ cells)) \<subseteq> set (map cu_ExternalID (contest_cells platform contestID w @ cells))"
  proof -
    have "cu_ExternalID x \<in> set (map cu_ExternalID (contest_cells platform contestID w @ cells))" if x: "x \<in> set (contest_cells platform contestID w')" for x
    proof -
      have "cell_key x \<in> set (map cell_key (user_problems w)) \<union> set (map cell_key cells)"
        using x store_progress[OF ok _ st] new by (auto simp: contest_cells_def)
      then show ?thesis using x by (auto simp: cell_key_def contest_cells_def)
    qed
    then show ?thesis by auto
  qed
  have "batch_ok w' platform contestID cells"
    using ok store_progress[OF ok _ st] new spelled_alike_mono[OF _ exts] by (auto simp: batch_ok_def)
  then have "mergeContestCellUpserts w' platform contestID cells = []"
    using settled_cell[OF ok new st] by (auto simp: mergeContestCellUpserts_def map_filter_def)
  then show ?thesis by (simp add: store_inferred_def)
qed

subsection \<open>An example, and what it shows\<close>

definition sample_submit :: "nat \<Rightarrow> string \<Rightarrow> string \<Rightarrow> int \<Rightarrow> SubmitLog" where
  "sample_submit i problem status t = \<lparr>sl_id = i, sl_platform = NowCoder, sl_user = 7, sl_submit_id = nat_str i, sl_contest = ''999'',
     sl_problem = problem, sl_lang = ''C++'', sl_status = status, sl_isac = False, sl_time = t * second_ns, sl_problem_id = None, sl_external = '''', sl_off = 8 * hour_ns\<rparr>"

definition sample_contests :: contests where
  "sample_contests = no_contests\<lparr>calendars := [sample_calendar 1 NowCoder ''999'' 100000 110000],
     contest_problems := [\<lparr>cp_Platform = NowCoder, cp_ContestID = ''999'', cp_Label = ''A'', cp_SortOrder = 0, cp_ExternalID = ''12345'', cp_Title = ''A+B''\<rparr>],
     submits := [sample_submit 1 ''12345 A+B'' ''WA'' 100100, sample_submit 2 ''12345 A+B'' ''AC'' 120000,
       sample_submit 3 ''12346 C'' ''AC'' 105000]\<rparr>"

definition sample_cell :: "string \<Rightarrow> string \<Rightarrow> string \<Rightarrow> int option \<Rightarrow> int option \<Rightarrow> ContestUserProblem" where
  "sample_cell label ext st t rel = \<lparr>cu_Platform = NowCoder, cu_ContestID = ''999'', cu_UserID = 7, cu_Label = label, cu_ExternalID = ext,
     cu_Status = st, cu_Attempts = 0, cu_FirstACAt = t, cu_RelativeSec = rel, cu_ScoreDelta = 0\<rparr>"

lemma practice_cell_truth_witness:
  "filter (\<lambda>r. practised NowCoder ''999'' [(''12345'', ''A'')] None (100000 * second_ns) (200000 * second_ns)
       (sample_cell ''A'' ''12345'' ContestCellUpsolve (Some (120000 * second_ns)) None) r
     \<and> IsAcceptedStatus (sl_status r) \<and> sl_time r \<le> 110900 * second_ns) (submits sample_contests) = []"
proof -
  let ?c = "sample_cell ''A'' ''12345'' ContestCellUpsolve (Some (120000 * second_ns)) None"
  have l: "ListContestPracticeCells (\<lambda>x. x) (200000 * second_ns) NowCoder ''999'' None (100000 * second_ns) sample_contests = (sample_contests, [?c])"
    by code_simp
  have r: "ResolveContestWindowCached (200000 * second_ns) NowCoder ''999'' (100000 * second_ns) sample_contests
      = (sample_contests, 100000 * second_ns, 110900 * second_ns)"
    by code_simp
  have e: "upsolve_end (200000 * second_ns) (110900 * second_ns) = 200000 * second_ns"
    "loadContestProblemSet sample_contests NowCoder ''999'' = [(''12345'', ''A'')]" by code_simp+
  show ?thesis using practice_cell_truth[OF l r list.set_intros(1), unfolded e, THEN conjunct2, THEN conjunct1]
    by (fastforce simp: filter_empty_conv)
qed

lemma crawl_keeps_solved_witness:
  "cells_keyed (crawl_contests (\<lambda>_. None) (200000 * second_ns) False False NowCoder 7 [participation ''999'' (100000 * second_ns)]
     (sample_contests\<lparr>user_problems := [sample_cell ''A'' ''12345'' ContestCellAC (Some (101000 * second_ns)) (Some 1000)]\<rparr>))"
  by (rule crawl_keeps_solved[THEN conjunct1]) (code_simp, code_simp, simp)

lemma merge_settles_witness:
  "mergeContestCellUpserts (fst (store_inferred NowCoder ''999'' [sample_cell ''A'' ''12345'' ContestCellUpsolve (Some 5) None]
      (sample_contests\<lparr>user_problems := [sample_cell ''B'' ''12345'' ContestCellTried None None]\<rparr>)))
     NowCoder ''999'' [sample_cell ''A'' ''12345'' ContestCellUpsolve (Some 5) None] = []"
  by (rule merge_settles[THEN conjunct1, OF _ _ prod.collapse[symmetric]]) code_simp+

text \<open>The two inferences label one problem differently when the list of problems has its identifier as it is: the first one keeps
  the identifier, the second takes the label. So every crawl writes such a solved cell twice, and the cell of an attempt
  is not labelled as the comment in the code says.\<close>

lemma labels_disagree:
  "infer_label NowCoder ''999'' [(''12345'', ''A'')] (sample_submit 1 ''12345 A+B'' ''WA'' 0) = ''12345''
   \<and> upsolve_label NowCoder ''999'' [(''12345'', ''A'')] (sample_submit 1 ''12345 A+B'' ''WA'' 0) = ''A''"
  by code_simp

lemma labels_flip:
  "let cell = sample_cell ''A'' ''12345'' ContestCellUpsolve (Some (120000 * second_ns)) None;
       w = sample_contests\<lparr>submits := [sample_submit 1 ''12345 A+B'' ''WA'' 100100], user_problems := [cell]\<rparr>;
       infer = InferContestUserProblems (\<lambda>_. None) (200000 * second_ns) NowCoder ''999'' [7] (100000 * second_ns)
   in map cu_Label (user_problems (fst (infer w))) = [''12345'']"
  by code_simp

text \<open>Which spelling of an identifier the query of the practice cells uses is the one that the iteration over the map meets first,
  so a submission stored under the other one is found or not at random.\<close>

lemma query_depends_on_order:
  "query_exts [(''P1001'', ''A''), (''p1001'', ''A'')] = [''P1001''] \<and> query_exts [(''p1001'', ''A''), (''P1001'', ''A'')] = [''p1001'']
   \<and> sql_candidate ''77'' [(''P1001'', ''A''), (''p1001'', ''A'')] (sample_submit 1 ''P1001 A+B'' ''AC'' 0)
   \<and> \<not> sql_candidate ''77'' [(''p1001'', ''A''), (''P1001'', ''A'')] (sample_submit 1 ''P1001 A+B'' ''AC'' 0)"
  by code_simp

end
