(* ===== verification/Spec2Isabelle.thy ===== *)
theory Spec2Isabelle
  imports Auth BlogAccess SubmitImport BackupCoord ProfileCache ProfileQueue MqRetry OrgPerms OrgRanks OrgSwitches ShopSystem ContestLaws
begin

text \<open>
  A model of the core logic of the CWXU-Algo back end (Go): a training site for competitive programming.
  Paths are relative to \<^verbatim>\<open>src/\<close>.

  \<^bold>\<open>The program.\<close> Two services share Redis and RabbitMQ. The service \<^verbatim>\<open>app/core_data\<close> crawls submissions and contests of
  its users from the online judges, keeps statistics and tables of accepted problems beside the submissions,
  derives contest boards and profiles from them and backs the databases up. The service \<^verbatim>\<open>app/user\<close> has accounts,
  organisations with roles and custom permissions, subscriptions, donations and blogs. The packages of \<^verbatim>\<open>app/common\<close>
  are used by both. A request carries a token whose claims hold the permissions as a bit mask; a crawl is a
  message on a queue, and its new submissions invalidate the profile caches and are counted in the
  same transaction that stores them.

  \<^bold>\<open>Shared by all.\<close>
  \<^item> Prelude: Go strings as lists of bytes with the functions of \<^verbatim>\<open>strings\<close> and \<^verbatim>\<open>strconv\<close>, 64-bit wrap-around, time.
  \<^item> Tables: \<^verbatim>\<open>INSERT \<dots> ON CONFLICT DO UPDATE\<close>; the interfaces \<open>merge_law\<close> (rows may be grouped by key before they are written)
    and \<open>comm_merge\<close> (their order does not matter), interpreted on the merges of DailyStats and UserAC.
  \<^item> Redis: keys with expiry, calls that fail before or after they take effect, the scripts of a lock with a token, and the
    interface \<open>token_lock\<close>, interpreted on the lock of the backups.
  \<^item> Base64: the encoding of the mask, with the interface \<open>byte_codec\<close>.

  \<^bold>\<open>Permissions and tokens\<close> (\<^verbatim>\<open>app/common/rbac\<close>, \<^verbatim>\<open>app/common/utils/auth/check.go\<close>).
  \<^item> Rbac: the registry, the templates of the built-in roles, \<^verbatim>\<open>Encode\<close> and \<^verbatim>\<open>MaskHas\<close>. A mask answers exactly for the registered codes
    it was made of.
  \<^item> Auth: the three stages of parsing a token with its cache of one minute, and the checks of a request. A payload served
    from the cache was accepted by the library for the same token within that minute.
  \<^item> BlogAccess: \<^verbatim>\<open>biz/blogaccess/access.go\<close> and \<^verbatim>\<open>biz/dormancy/dormancy.go\<close>.

  \<^bold>\<open>Submissions\<close> (\<^verbatim>\<open>app/core_data/internal/data\<close>, \<^verbatim>\<open>biz/service/spider.go\<close>).
  \<^item> SubmitModel: a row of \<^verbatim>\<open>submit_logs\<close>, its status texts and synthetic rows; the Go classifiers and the SQL conditions agree.
  \<^item> DailyStats: \<^verbatim>\<open>daily_stats.go\<close>. What is added for new rows equals a recount; the filter of new rows lets no row through
    twice and nothing that violates the unique index.
  \<^item> UserAC: \<^verbatim>\<open>user_ac.go\<close>, \<^verbatim>\<open>user_problem_status.go\<close>, the removal from to-do lists. The tables of accepted problems are those
    of the stored rows, also after keys are rebound to problems.
  \<^item> VerdictRefresh: \<^verbatim>\<open>submit_status.go\<close>. A verdict that arrives later corrects rows and tables together.
  \<^item> SubmitImport: \<^verbatim>\<open>importSubmitLogs\<close>, \<^verbatim>\<open>persistClientSyncPage\<close> and the receipts of pages. Every import keeps
    \<open>store_inv\<close>, the agreement of rows and tables; a page sent again changes nothing and gets the same answer.

  \<^bold>\<open>Profiles, queues and backups.\<close>
  \<^item> ProfileCache: \<^verbatim>\<open>biz/service/user_profile.go\<close>: generations that are odd while an invalidation runs, guarded publication
    and reading. The relation \<open>pstep\<close> interleaves builders, readers, invalidations, failures and expiry; a served
    snapshot is that of the present data.
  \<^item> ProfileQueue: \<^verbatim>\<open>task/user_profile.go\<close> and \<^verbatim>\<open>user_profile_consumer.go\<close>. The relation \<open>qstep\<close>: whoever is told that a rebuild is
    pending can rely on an accepted message at least as strong.
  \<^item> MqRetry: \<^verbatim>\<open>mqconsume/loop.go\<close>: retry headers, republication, delay queues. Messages survive failures and retries end.
    The fuel of \<open>drain\<close> is \<open>workload\<close>, the attempts that the waiting messages have left; it is proved to be enough.
  \<^item> BackupCoord: \<^verbatim>\<open>backupcoord/coordinator.go\<close> and \<^verbatim>\<open>redis.go\<close>. Processes with their goroutines share a Redis (\<open>cstep\<close>). Two
    backups that both hold a lease are one, in every execution; that at most one is in progress needs a \<open>timely\<close>
    execution, in which a renewal is not later than its period and a cancelled backup ends within \<open>g\<close> milliseconds.

  \<^bold>\<open>Contests\<close> (\<^verbatim>\<open>app/core_data/internal/biz/service\<close>).
  \<^item> ProblemIdentity: \<^verbatim>\<open>problem_identity.go\<close>, the number, title and link of a problem from a submission, expressions written as matchers.
  \<^item> ContestWindow: \<^verbatim>\<open>contest_infer.go\<close> up to \<^verbatim>\<open>BatchContestDisplayTimes\<close>, \<^verbatim>\<open>contest_display_window.go\<close> and
    \<^verbatim>\<open>contest_nowcoder_calendar.go\<close>: when a contest began and ended. The window for matching is the one that is shown
    plus a buffer of 15 minutes, and it is ordered.
  \<^item> ContestCells: the rest of \<^verbatim>\<open>contest_infer.go\<close> and the loop of the crawler: cells of a board are inferred from
    submissions and merged with the stored ones.
  \<^item> ContestLaws: no pass loses a cell, downgrades an acceptance during the contest or unsolves a problem; a second merge of
    the same cells writes nothing; what a practice cell says is true of the stored rows.

  \<^bold>\<open>Organisations\<close> (\<^verbatim>\<open>app/user/internal/service/{org,rbac,squad,group,jwt_issue}.go\<close>).
  \<^item> OrgModel, OrgRbac, OrgService, OrgSquads: the tables, permissions in the database, and every handler that writes memberships,
    roles, invitations, requests, groups or squads, with each of its writes able to fail on its own.
  \<^item> OrgSpec, OrgSafety: the abstract specification \<open>role_move\<close> on the map of roles, and that every handler is composed of its moves.
  \<^item> OrgSystem: sequences of requests: they refine the specification, keep an administrator and the limit of seats.
  \<^item> OrgPerms, OrgRanks, OrgSwitches: a fresh token and the database give the same permissions; appointments respect the ranks;
    the batch statement of the personal switches and the function for one user.

  \<^bold>\<open>Payments\<close> (\<^verbatim>\<open>app/user/internal\<close>).
  \<^item> PayGateway: \<^verbatim>\<open>external/payment/payment.go\<close>: amounts through \<^verbatim>\<open>float64\<close> and back, signatures. The digest is a parameter.
  \<^item> Subscription, SubLaws: \<^verbatim>\<open>dal/subscription.go\<close>, \<^verbatim>\<open>service/subscription.go\<close>, the reminders: a purchase adds its days and loses
    none of either tier.
  \<^item> Sponsor: donations, \<^verbatim>\<open>dal/sponsor.go\<close> and \<^verbatim>\<open>service/sponsor.go\<close>.
  \<^item> ShopSystem: all requests of the shop with callbacks cut between check and commit; orders and donations are both ledgers
    (\<open>order_ledger\<close>): each is fulfilled once, and a callback commits all or nothing.

  \<^bold>\<open>Conventions.\<close> Times are nanoseconds (\<^verbatim>\<open>time.Time\<close> and the columns that hold one alike), Redis expiry is in milliseconds. A
  zone is its offset. A table is a list of rows by primary key, or a map from its unique key. A transaction is one
  step that happens or does not. The statements that read for a contest do not fail; those that write can.
  A Go map that is read out in no particular order is an association list, and where the order matters to the result it is
  a parameter (\<open>order\<close>) or the point of a lemma. Case is that of ASCII; \<^verbatim>\<open>LIKE\<close> is the matcher of its two wildcards. What is
  not under \<^verbatim>\<open>src/\<close> is an argument: the JWT library, the digest, the pages of the judges, the mail server, the outcome of each
  call to Redis and to the broker.

  \<^bold>\<open>Not modelled.\<close> The crawlers and parsers of foreign pages, prompts and replies of language models, HTML and mail templates, storage
  of images and archives, the gateway, code generated from the \<^verbatim>\<open>.proto\<close> files and wiring: they hold no state of their own that
  the modelled parts rely on, or rest on services that cannot be read here. Listings, boards and
  statistics for display read the modelled tables and write nothing. Problem records and the editor, tickets, pastes
  and forum posts are single-row writes behind a permission check.
  Requests of organisations are atomic, so two administrators leaving at the same moment are not covered.
\<close>

end
